(* ===== verification/Prelude.thy ===== *)
theory Prelude
  imports Main "HOL-Library.Word"
begin

unbundle bit_operations_syntax

text \<open>
  What every component shares: results and stateful computations with exceptions (a raised
  exception is the left summand), Python's indexing and slicing of sequences with their treatment
  of negative and out-of-range positions, splitting a sequence into chunks, and the rule
  collections the component proofs draw on.
\<close>

named_theorems monad_simps "unfolding of results and stateful computations"
named_theorems py_simps "Python sequence operations on in-range arguments"

subsection \<open>Results\<close>

text \<open>\<open>Inl e\<close> is a raised exception, \<open>Inr x\<close> a returned value.\<close>

definition rbind :: "'e + 'a \<Rightarrow> ('a \<Rightarrow> 'e + 'b) \<Rightarrow> 'e + 'b" where
  "rbind m f = (case m of Inl e \<Rightarrow> Inl e | Inr x \<Rightarrow> f x)"

lemma rbind_simps [simp, monad_simps]:
  "rbind (Inl e) f = Inl e"
  "rbind (Inr x) f = f x"
  by (simp_all add: rbind_def)

lemma rbind_Inr_iff: "rbind m f = Inr y \<longleftrightarrow> (\<exists>x. m = Inr x \<and> f x = Inr y)"
  by (cases m) auto

lemma rbind_Inl_iff: "rbind m f = Inl e \<longleftrightarrow> m = Inl e \<or> (\<exists>x. m = Inr x \<and> f x = Inl e)"
  by (cases m) auto

definition isOK :: "'e + 'a \<Rightarrow> bool" where
  "isOK r = (case r of Inl _ \<Rightarrow> False | Inr _ \<Rightarrow> True)"

lemma isOK_simps [simp]: "isOK (Inr x)" "\<not> isOK (Inl e)"
  by (simp_all add: isOK_def)

lemma isOK_iff: "isOK r \<longleftrightarrow> (\<exists>x. r = Inr x)"
  by (cases r) auto

text \<open>A loop over a sequence that stops at the first exception.\<close>

fun rmap :: "('a \<Rightarrow> 'e + 'b) \<Rightarrow> 'a list \<Rightarrow> 'e + 'b list" where
  "rmap f [] = Inr []"
| "rmap f (x # xs) = rbind (f x) (\<lambda>y. rbind (rmap f xs) (\<lambda>ys. Inr (y # ys)))"

lemma rmap_total: "(\<And>x. x \<in> set xs \<Longrightarrow> f x = Inr (g x)) \<Longrightarrow> rmap f xs = Inr (map g xs)"
  by (induction xs) auto

lemma rmap_Inr_length: "rmap f xs = Inr ys \<Longrightarrow> length ys = length xs"
  by (induction xs arbitrary: ys) (auto simp: rbind_Inr_iff)

text \<open>A loop that carries a state and stops at the first exception.\<close>

fun for_each :: "('a \<Rightarrow> 's \<Rightarrow> 'e + 's) \<Rightarrow> 'a list \<Rightarrow> 's \<Rightarrow> 'e + 's" where
  "for_each f [] s = Inr s"
| "for_each f (x # xs) s = rbind (f x s) (for_each f xs)"

lemma for_each_total: "(\<And>x r. x \<in> set xs \<Longrightarrow> f x r = Inr (g x r)) \<Longrightarrow> for_each f xs r = Inr (fold g xs r)"
  by (induction xs arbitrary: r) simp_all

lemma for_each_append: "for_each f (xs @ ys) s = rbind (for_each f xs s) (for_each f ys)"
proof (induction xs arbitrary: s)
  case (Cons x xs)
  then show ?case by (cases "f x s") simp_all
qed simp

lemma for_each_snoc: "for_each f (xs @ [x]) s = rbind (for_each f xs s) (f x)"
proof (induction xs arbitrary: s)
  case Nil
  then show ?case by (cases "f x s") simp_all
next
  case (Cons y ys)
  then show ?case by (cases "f y s") simp_all
qed

subsection \<open>Stateful computations\<close>

text \<open>
  A method that reads and writes the state \<open>'s\<close> of its object and may raise; the state changes
  made before an exception stay, as they do in Python.
\<close>

type_synonym ('e, 's, 'a) prog = "'s \<Rightarrow> ('e + 'a) \<times> 's"

definition pret :: "'a \<Rightarrow> ('e, 's, 'a) prog" where
  "pret x = (\<lambda>s. (Inr x, s))"

definition praise :: "'e \<Rightarrow> ('e, 's, 'a) prog" where
  "praise e = (\<lambda>s. (Inl e, s))"

definition pbind :: "('e, 's, 'a) prog \<Rightarrow> ('a \<Rightarrow> ('e, 's, 'b) prog) \<Rightarrow> ('e, 's, 'b) prog" where
  "pbind m f = (\<lambda>s. case m s of (Inl e, s') \<Rightarrow> (Inl e, s') | (Inr x, s') \<Rightarrow> f x s')"

definition pget :: "('s \<Rightarrow> 'a) \<Rightarrow> ('e, 's, 'a) prog" where
  "pget f = (\<lambda>s. (Inr (f s), s))"

definition pmodify :: "('s \<Rightarrow> 's) \<Rightarrow> ('e, 's, unit) prog" where
  "pmodify f = (\<lambda>s. (Inr (), f s))"

definition plift :: "'e + 'a \<Rightarrow> ('e, 's, 'a) prog" where
  "plift r = (\<lambda>s. (r, s))"

text \<open>\<open>try: m except Exception as e: h e\<close>\<close>

definition pcatch :: "('e, 's, 'a) prog \<Rightarrow> ('e \<Rightarrow> ('e, 's, 'a) prog) \<Rightarrow> ('e, 's, 'a) prog" where
  "pcatch m h = (\<lambda>s. case m s of (Inl e, s') \<Rightarrow> h e s' | (Inr x, s') \<Rightarrow> (Inr x, s'))"

fun pmap :: "('a \<Rightarrow> ('e, 's, 'b) prog) \<Rightarrow> 'a list \<Rightarrow> ('e, 's, 'b list) prog" where
  "pmap f [] = pret []"
| "pmap f (x # xs) = pbind (f x) (\<lambda>y. pbind (pmap f xs) (\<lambda>ys. pret (y # ys)))"

lemma prog_simps [monad_simps]:
  "pret x s = (Inr x, s)"
  "praise e s = (Inl e, s)"
  "pget f s = (Inr (f s), s)"
  "pmodify g s = (Inr (), g s)"
  "plift r s = (r, s)"
  by (simp_all add: pret_def praise_def pget_def pmodify_def plift_def)

lemma pbind_simps [monad_simps]:
  "m s = (Inl e, s') \<Longrightarrow> pbind m f s = (Inl e, s')"
  "m s = (Inr x, s') \<Longrightarrow> pbind m f s = f x s'"
  by (simp_all add: pbind_def)

lemma pcatch_simps [monad_simps]:
  "m s = (Inl e, s') \<Longrightarrow> pcatch m h s = h e s'"
  "m s = (Inr x, s') \<Longrightarrow> pcatch m h s = (Inr x, s')"
  by (simp_all add: pcatch_def)

lemma pbind_unfold [monad_simps]:
  "pbind (pret x) f = f x"
  "pbind (praise e) f = praise e"
  "pbind (plift (Inr x)) f = f x"
  "pbind (plift (Inl e)) f = praise e"
  by (auto simp: pbind_def pret_def praise_def plift_def)

lemma pbind_assoc: "pbind (pbind m f) g = pbind m (\<lambda>x. pbind (f x) g)"
  by (rule ext) (auto simp: pbind_def split: prod.split sum.split)

lemma pbind_Inr_iff:
  "pbind m f s = (Inr y, t) \<longleftrightarrow> (\<exists>x s'. m s = (Inr x, s') \<and> f x s' = (Inr y, t))"
  by (auto simp: pbind_def split: prod.splits sum.splits)

lemma pmap_nth:
  assumes "pmap f xs s = (Inr ys, t)"
  shows "length ys = length xs"
  using assms
proof (induction xs arbitrary: s ys)
  case Nil
  then show ?case by (simp add: pret_def)
next
  case (Cons x xs)
  then show ?case by (auto simp: pbind_Inr_iff pret_def)
qed

subsection \<open>Text\<close>

text \<open>Upper and lower case of ASCII text.\<close>

definition toupper :: "string \<Rightarrow> string" where
  "toupper s = map (\<lambda>c. if 97 \<le> (of_char c :: nat) \<and> (of_char c :: nat) \<le> 122 then char_of ((of_char c :: nat) - 32) else c) s"

definition tolower :: "string \<Rightarrow> string" where
  "tolower s = map (\<lambda>c. if 65 \<le> (of_char c :: nat) \<and> (of_char c :: nat) \<le> 90 then char_of ((of_char c :: nat) + 32) else c) s"

text \<open>\<open>str.split\<close> at a character.\<close>

fun split_on :: "char \<Rightarrow> string \<Rightarrow> string list" where
  "split_on sep [] = [[]]"
| "split_on sep (c # cs) =
     (if c = sep then [] # split_on sep cs
      else (case split_on sep cs of [] \<Rightarrow> [[c]] | w # ws \<Rightarrow> (c # w) # ws))"

lemma split_on_nonempty [simp]: "split_on sep cs \<noteq> []"
  by (induction cs) (auto split: list.splits)

subsection \<open>Bytes and Python sequences\<close>

type_synonym byte = "8 word"
type_synonym bytes = "8 word list"

text \<open>The integers that iterating over a \<open>bytes\<close> object yields.\<close>

abbreviation int_of_byte :: "byte \<Rightarrow> int" where
  "int_of_byte \<equiv> uint"

lemma uint_byte_bounds [simp]: "0 \<le> uint (b :: byte)" "uint (b :: byte) < 256" "uint (b :: byte) \<le> 255"
  using uint_bounded [of b] by simp_all

text \<open>
  A slice position: negative positions count from the end, then positions are clipped to the
  sequence.
\<close>

definition py_clip :: "int \<Rightarrow> int \<Rightarrow> int" where
  "py_clip n i = max 0 (min n (if i < 0 then i + n else i))"

text \<open>\<open>xs[a:b]\<close>\<close>

definition py_slice :: "'a list \<Rightarrow> int \<Rightarrow> int \<Rightarrow> 'a list" where
  "py_slice xs a b =
     (let n = int (length xs); i = py_clip n a; j = py_clip n b
      in take (nat (j - i)) (drop (nat i) xs))"

text \<open>\<open>xs[a:]\<close>\<close>

definition py_from :: "'a list \<Rightarrow> int \<Rightarrow> 'a list" where
  "py_from xs a = py_slice xs a (int (length xs))"

text \<open>\<open>xs[i]\<close>, where \<open>err\<close> is the \<open>IndexError\<close> of a position outside the sequence.\<close>

definition py_index :: "'e \<Rightarrow> 'a list \<Rightarrow> int \<Rightarrow> 'e + 'a" where
  "py_index err xs i =
     (let n = int (length xs); j = (if i < 0 then i + n else i)
      in if 0 \<le> j \<and> j < n then Inr (xs ! nat j) else Inl err)"

lemma py_slice_nat [py_simps]:
  "py_slice xs (int a) (int b) = take (b - a) (drop a xs)"
proof -
  have b: "py_clip (int (length xs)) (int b) = int (min (length xs) b)"
    and a: "py_clip (int (length xs)) (int a) = int (min (length xs) a)"
    by (simp_all add: py_clip_def)
  have diff: "nat (int (min (length xs) b) - int (min (length xs) a))
      = min (length xs) b - min (length xs) a"
    by simp
  show ?thesis
    by (simp add: py_slice_def Let_def a b diff) (auto simp: min_def)
qed

lemma py_slice_pos [py_simps]:
  "0 \<le> a \<Longrightarrow> 0 \<le> b \<Longrightarrow> py_slice xs a b = take (nat b - nat a) (drop (nat a) xs)"
  using py_slice_nat [of xs "nat a" "nat b"] by simp

lemma py_from_pos [py_simps]: "0 \<le> a \<Longrightarrow> py_from xs a = drop (nat a) xs"
  by (simp add: py_from_def py_slice_pos)

lemma py_index_pos [py_simps]:
  "0 \<le> i \<Longrightarrow> i < int (length xs) \<Longrightarrow> py_index err xs i = Inr (xs ! nat i)"
  by (simp add: py_index_def Let_def)

lemma py_index_beyond [py_simps]:
  "int (length xs) \<le> i \<Longrightarrow> py_index err xs i = Inl err"
  by (simp add: py_index_def Let_def)

lemma set_py_slice: "set (py_slice xs a b) \<subseteq> set xs"
  by (auto simp: py_slice_def Let_def dest: in_set_takeD in_set_dropD)

subsection \<open>Chunks\<close>

text \<open>\<open>[xs[i : i + step] for i in range(0, len(xs), step)]\<close> for a positive step.\<close>

function chunks :: "nat \<Rightarrow> 'a list \<Rightarrow> 'a list list" where
  "chunks step xs =
     (if step = 0 \<or> xs = [] then [] else take step xs # chunks step (drop step xs))"
  by pat_completeness auto
termination
  by (relation "measure (\<lambda>(step, xs). length xs)") auto

declare chunks.simps [simp del]

lemma chunks_Nil [simp]: "chunks n [] = []"
  by (subst chunks.simps) simp

lemma chunks_Cons: "n \<noteq> 0 \<Longrightarrow> xs \<noteq> [] \<Longrightarrow> chunks n xs = take n xs # chunks n (drop n xs)"
  by (subst chunks.simps) simp

lemma concat_chunks: "0 < n \<Longrightarrow> concat (chunks n xs) = xs"
proof (induction n xs rule: chunks.induct)
  case (1 step xs)
  then show ?case by (cases "xs = []") (auto simp: chunks_Cons)
qed

lemma length_in_chunks: "c \<in> set (chunks n xs) \<Longrightarrow> 0 < length c \<and> length c \<le> n"
proof (induction n xs rule: chunks.induct)
  case (1 step xs)
  then show ?case
    by (cases "step = 0 \<or> xs = []") (auto simp: chunks_Cons chunks.simps [of 0])
qed

lemma chunks_append:
  "length xs = n \<Longrightarrow> 0 < n \<Longrightarrow> chunks n (xs @ ys) = xs # chunks n ys"
  by (subst chunks.simps) auto

lemma chunks_dvd:
  assumes "0 < n" and "n dvd length xs" and "c \<in> set (chunks n xs)"
  shows "length c = n"
  using assms
proof (induction n xs rule: chunks.induct)
  case (1 step xs)
  show ?case
  proof (cases "xs = []")
    case True
    with "1.prems" show ?thesis by simp
  next
    case False
    with "1.prems" have le: "step \<le> length xs"
      by (auto dest: dvd_imp_le)
    from "1.prems" have "step dvd length xs - step"
      by (auto intro: dvd_diff_nat)
    with False le "1.prems" "1.IH" show ?thesis
      by (auto simp: chunks_Cons)
  qed
qed

end
