(* ===== verification/Xcp_Types.thy ===== *)
theory Xcp_Types
  imports Prelude
begin

text \<open>
  The protocol's vocabulary, from \<open>src/pyxcp/types.py\<close>: error codes and the exceptions of the
  package, command codes with their resource categories, events, and the unit tables. The
  construct \<open>Enum\<close> \<open>XcpError\<close> parses a byte it has no name for to that byte, hence the
  constructor \<open>XcpErrorOther\<close>.
\<close>

subsection \<open>Error codes and exceptions\<close>

datatype XcpError =
    ERR_CMD_SYNCH | ERR_CMD_BUSY | ERR_DAQ_ACTIVE | ERR_PGM_ACTIVE | ERR_CMD_UNKNOWN
    | ERR_CMD_SYNTAX | ERR_OUT_OF_RANGE | ERR_WRITE_PROTECTED | ERR_ACCESS_DENIED
    | ERR_ACCESS_LOCKED | ERR_PAGE_NOT_VALID | ERR_MODE_NOT_VALID | ERR_SEGMENT_NOT_VALID
    | ERR_SEQUENCE | ERR_DAQ_CONFIG | ERR_MEMORY_OVERFLOW | ERR_GENERIC | ERR_VERIFY
    | ERR_RESOURCE_TEMPORARY_NOT_ACCESSIBLE | ERR_TIMEOUT | XcpErrorOther int

fun XcpError_value :: "XcpError \<Rightarrow> int" where
  "XcpError_value ERR_CMD_SYNCH = 0"
| "XcpError_value ERR_CMD_BUSY = 0x10"
| "XcpError_value ERR_DAQ_ACTIVE = 0x11"
| "XcpError_value ERR_PGM_ACTIVE = 0x12"
| "XcpError_value ERR_CMD_UNKNOWN = 0x20"
| "XcpError_value ERR_CMD_SYNTAX = 0x21"
| "XcpError_value ERR_OUT_OF_RANGE = 0x22"
| "XcpError_value ERR_WRITE_PROTECTED = 0x23"
| "XcpError_value ERR_ACCESS_DENIED = 0x24"
| "XcpError_value ERR_ACCESS_LOCKED = 0x25"
| "XcpError_value ERR_PAGE_NOT_VALID = 0x26"
| "XcpError_value ERR_MODE_NOT_VALID = 0x27"
| "XcpError_value ERR_SEGMENT_NOT_VALID = 0x28"
| "XcpError_value ERR_SEQUENCE = 0x29"
| "XcpError_value ERR_DAQ_CONFIG = 0x2A"
| "XcpError_value ERR_MEMORY_OVERFLOW = 0x30"
| "XcpError_value ERR_GENERIC = 0x31"
| "XcpError_value ERR_VERIFY = 0x32"
| "XcpError_value ERR_RESOURCE_TEMPORARY_NOT_ACCESSIBLE = 0x33"
| "XcpError_value ERR_TIMEOUT = 0xFF"
| "XcpError_value (XcpErrorOther v) = v"

text \<open>
  The exceptions that the modelled code raises or lets through: Python's own (a \<open>struct.error\<close> is
  \<open>StructError\<close>; \<open>CastError\<close> is pybind11's \<open>cast_error\<close> for an integer outside the C++ type), and
  the package's. Messages are not modelled; a \<open>SystemExit\<close> keeps its error code.
\<close>

datatype pyexn =
    IndexError | KeyError | ValueError | TypeError | AttributeError | ZeroDivisionError
  | NotImplementedError | RuntimeError | PermissionError | OverflowError | TimeoutError
  | OSError | CanError | StructError | CastError | StreamError
  | XcpResponseError XcpError | XcpTimeoutError | EmptyFrameError | FrameSizeError
  | SystemExit "XcpError option" | UnrecoverableError | InternalError
  | IdentifierOutOfRangeError | SeedNKeyError
  | XcpLogFileParseError | XcpLogFileCapacityExceededError
  | TraitError | CanInitializationError | FileNotFoundError | ArgumentTypeError | UnicodeError

type_synonym 'a result = "pyexn + 'a"

subsection \<open>Commands\<close>

text \<open>
  \<open>enum.IntEnum\<close> members are integers, and are compared, hashed and sent as integers, so a member
  is an abbreviation of its value. A service is a command code.
\<close>

type_synonym command = int

abbreviation (input) CONNECT :: int where "CONNECT \<equiv> 0xFF"
abbreviation (input) DISCONNECT :: int where "DISCONNECT \<equiv> 0xFE"
abbreviation (input) GET_STATUS :: int where "GET_STATUS \<equiv> 0xFD"
abbreviation (input) SYNCH :: int where "SYNCH \<equiv> 0xFC"
abbreviation (input) GET_COMM_MODE_INFO :: int where "GET_COMM_MODE_INFO \<equiv> 0xFB"
abbreviation (input) GET_ID :: int where "GET_ID \<equiv> 0xFA"
abbreviation (input) SET_REQUEST :: int where "SET_REQUEST \<equiv> 0xF9"
abbreviation (input) GET_SEED :: int where "GET_SEED \<equiv> 0xF8"
abbreviation (input) UNLOCK :: int where "UNLOCK \<equiv> 0xF7"
abbreviation (input) SET_MTA :: int where "SET_MTA \<equiv> 0xF6"
abbreviation (input) UPLOAD :: int where "UPLOAD \<equiv> 0xF5"
abbreviation (input) SHORT_UPLOAD :: int where "SHORT_UPLOAD \<equiv> 0xF4"
abbreviation (input) BUILD_CHECKSUM :: int where "BUILD_CHECKSUM \<equiv> 0xF3"
abbreviation (input) TRANSPORT_LAYER_CMD :: int where "TRANSPORT_LAYER_CMD \<equiv> 0xF2"
abbreviation (input) USER_CMD :: int where "USER_CMD \<equiv> 0xF1"
abbreviation (input) GET_VERSION :: int where "GET_VERSION \<equiv> 0xC000"
abbreviation (input) DOWNLOAD :: int where "DOWNLOAD \<equiv> 0xF0"
abbreviation (input) DOWNLOAD_NEXT :: int where "DOWNLOAD_NEXT \<equiv> 0xEF"
abbreviation (input) DOWNLOAD_MAX :: int where "DOWNLOAD_MAX \<equiv> 0xEE"
abbreviation (input) SHORT_DOWNLOAD :: int where "SHORT_DOWNLOAD \<equiv> 0xED"
abbreviation (input) MODIFY_BITS :: int where "MODIFY_BITS \<equiv> 0xEC"
abbreviation (input) SET_CAL_PAGE :: int where "SET_CAL_PAGE \<equiv> 0xEB"
abbreviation (input) GET_CAL_PAGE :: int where "GET_CAL_PAGE \<equiv> 0xEA"
abbreviation (input) GET_PAG_PROCESSOR_INFO :: int where "GET_PAG_PROCESSOR_INFO \<equiv> 0xE9"
abbreviation (input) GET_SEGMENT_INFO :: int where "GET_SEGMENT_INFO \<equiv> 0xE8"
abbreviation (input) GET_PAGE_INFO :: int where "GET_PAGE_INFO \<equiv> 0xE7"
abbreviation (input) SET_SEGMENT_MODE :: int where "SET_SEGMENT_MODE \<equiv> 0xE6"
abbreviation (input) GET_SEGMENT_MODE :: int where "GET_SEGMENT_MODE \<equiv> 0xE5"
abbreviation (input) COPY_CAL_PAGE :: int where "COPY_CAL_PAGE \<equiv> 0xE4"
abbreviation (input) CLEAR_DAQ_LIST :: int where "CLEAR_DAQ_LIST \<equiv> 0xE3"
abbreviation (input) SET_DAQ_PTR :: int where "SET_DAQ_PTR \<equiv> 0xE2"
abbreviation (input) WRITE_DAQ :: int where "WRITE_DAQ \<equiv> 0xE1"
abbreviation (input) WRITE_DAQ_MULTIPLE :: int where "WRITE_DAQ_MULTIPLE \<equiv> 0xC7"
abbreviation (input) SET_DAQ_LIST_MODE :: int where "SET_DAQ_LIST_MODE \<equiv> 0xE0"
abbreviation (input) GET_DAQ_LIST_MODE :: int where "GET_DAQ_LIST_MODE \<equiv> 0xDF"
abbreviation (input) START_STOP_DAQ_LIST :: int where "START_STOP_DAQ_LIST \<equiv> 0xDE"
abbreviation (input) START_STOP_SYNCH :: int where "START_STOP_SYNCH \<equiv> 0xDD"
abbreviation (input) GET_DAQ_CLOCK :: int where "GET_DAQ_CLOCK \<equiv> 0xDC"
abbreviation (input) READ_DAQ :: int where "READ_DAQ \<equiv> 0xDB"
abbreviation (input) GET_DAQ_PROCESSOR_INFO :: int where "GET_DAQ_PROCESSOR_INFO \<equiv> 0xDA"
abbreviation (input) GET_DAQ_RESOLUTION_INFO :: int where "GET_DAQ_RESOLUTION_INFO \<equiv> 0xD9"
abbreviation (input) GET_DAQ_LIST_INFO :: int where "GET_DAQ_LIST_INFO \<equiv> 0xD8"
abbreviation (input) GET_DAQ_EVENT_INFO :: int where "GET_DAQ_EVENT_INFO \<equiv> 0xD7"
abbreviation (input) DTO_CTR_PROPERTIES :: int where "DTO_CTR_PROPERTIES \<equiv> 0xC5"
abbreviation (input) SET_DAQ_PACKED_MODE :: int where "SET_DAQ_PACKED_MODE \<equiv> 0xC001"
abbreviation (input) GET_DAQ_PACKED_MODE :: int where "GET_DAQ_PACKED_MODE \<equiv> 0xC002"
abbreviation (input) FREE_DAQ :: int where "FREE_DAQ \<equiv> 0xD6"
abbreviation (input) ALLOC_DAQ :: int where "ALLOC_DAQ \<equiv> 0xD5"
abbreviation (input) ALLOC_ODT :: int where "ALLOC_ODT \<equiv> 0xD4"
abbreviation (input) ALLOC_ODT_ENTRY :: int where "ALLOC_ODT_ENTRY \<equiv> 0xD3"
abbreviation (input) PROGRAM_START :: int where "PROGRAM_START \<equiv> 0xD2"
abbreviation (input) PROGRAM_CLEAR :: int where "PROGRAM_CLEAR \<equiv> 0xD1"
abbreviation (input) PROGRAM :: int where "PROGRAM \<equiv> 0xD0"
abbreviation (input) PROGRAM_RESET :: int where "PROGRAM_RESET \<equiv> 0xCF"
abbreviation (input) GET_PGM_PROCESSOR_INFO :: int where "GET_PGM_PROCESSOR_INFO \<equiv> 0xCE"
abbreviation (input) GET_SECTOR_INFO :: int where "GET_SECTOR_INFO \<equiv> 0xCD"
abbreviation (input) PROGRAM_PREPARE :: int where "PROGRAM_PREPARE \<equiv> 0xCC"
abbreviation (input) PROGRAM_FORMAT :: int where "PROGRAM_FORMAT \<equiv> 0xCB"
abbreviation (input) PROGRAM_NEXT :: int where "PROGRAM_NEXT \<equiv> 0xCA"
abbreviation (input) PROGRAM_MAX :: int where "PROGRAM_MAX \<equiv> 0xC9"
abbreviation (input) PROGRAM_VERIFY :: int where "PROGRAM_VERIFY \<equiv> 0xC8"
abbreviation (input) TIME_CORRELATION_PROPERTIES :: int where "TIME_CORRELATION_PROPERTIES \<equiv> 0xC6"
abbreviation (input) DBG_ATTACH :: int where "DBG_ATTACH \<equiv> 0xC0FC00"
abbreviation (input) DBG_GET_VENDOR_INFO :: int where "DBG_GET_VENDOR_INFO \<equiv> 0xC0FC01"
abbreviation (input) DBG_GET_MODE_INFO :: int where "DBG_GET_MODE_INFO \<equiv> 0xC0FC02"
abbreviation (input) DBG_GET_JTAG_ID :: int where "DBG_GET_JTAG_ID \<equiv> 0xC0FC03"
abbreviation (input) DBG_HALT_AFTER_RESET :: int where "DBG_HALT_AFTER_RESET \<equiv> 0xC0FC04"
abbreviation (input) DBG_GET_HWIO_INFO :: int where "DBG_GET_HWIO_INFO \<equiv> 0xC0FC05"
abbreviation (input) DBG_SET_HWIO_EVENT :: int where "DBG_SET_HWIO_EVENT \<equiv> 0xC0FC06"
abbreviation (input) DBG_HWIO_CONTROL :: int where "DBG_HWIO_CONTROL \<equiv> 0xC0FC07"
abbreviation (input) DBG_EXCLUSIVE_TARGET_ACCESS :: int where "DBG_EXCLUSIVE_TARGET_ACCESS \<equiv> 0xC0FC08"
abbreviation (input) DBG_SEQUENCE_MULTIPLE :: int where "DBG_SEQUENCE_MULTIPLE \<equiv> 0xC0FC09"
abbreviation (input) DBG_LLT :: int where "DBG_LLT \<equiv> 0xC0FC0A"
abbreviation (input) DBG_READ_MODIFY_WRITE :: int where "DBG_READ_MODIFY_WRITE \<equiv> 0xC0FC0B"
abbreviation (input) DBG_WRITE :: int where "DBG_WRITE \<equiv> 0xC0FC0C"
abbreviation (input) DBG_WRITE_NEXT :: int where "DBG_WRITE_NEXT \<equiv> 0xC0FC0D"
abbreviation (input) DBG_WRITE_CAN1 :: int where "DBG_WRITE_CAN1 \<equiv> 0xC0FC0E"
abbreviation (input) DBG_WRITE_CAN2 :: int where "DBG_WRITE_CAN2 \<equiv> 0xC0FC0F"
abbreviation (input) DBG_WRITE_CAN_NEXT :: int where "DBG_WRITE_CAN_NEXT \<equiv> 0xC0FC10"
abbreviation (input) DBG_READ :: int where "DBG_READ \<equiv> 0xC0FC11"
abbreviation (input) DBG_READ_CAN1 :: int where "DBG_READ_CAN1 \<equiv> 0xC0FC12"
abbreviation (input) DBG_READ_CAN2 :: int where "DBG_READ_CAN2 \<equiv> 0xC0FC13"
abbreviation (input) DBG_GET_TRI_DESC_TBL :: int where "DBG_GET_TRI_DESC_TBL \<equiv> 0xC0FC14"
abbreviation (input) DBG_LLBT :: int where "DBG_LLBT \<equiv> 0xC0FC15"

text \<open>The members in the order the class lists them.\<close>

definition Command :: "command list" where
  "Command =
    [CONNECT, DISCONNECT, GET_STATUS, SYNCH, GET_COMM_MODE_INFO, GET_ID, SET_REQUEST, GET_SEED
     , UNLOCK, SET_MTA, UPLOAD, SHORT_UPLOAD, BUILD_CHECKSUM, TRANSPORT_LAYER_CMD, USER_CMD
     , GET_VERSION, DOWNLOAD, DOWNLOAD_NEXT, DOWNLOAD_MAX, SHORT_DOWNLOAD, MODIFY_BITS
     , SET_CAL_PAGE, GET_CAL_PAGE, GET_PAG_PROCESSOR_INFO, GET_SEGMENT_INFO, GET_PAGE_INFO
     , SET_SEGMENT_MODE, GET_SEGMENT_MODE, COPY_CAL_PAGE, CLEAR_DAQ_LIST, SET_DAQ_PTR, WRITE_DAQ
     , WRITE_DAQ_MULTIPLE, SET_DAQ_LIST_MODE, GET_DAQ_LIST_MODE, START_STOP_DAQ_LIST
     , START_STOP_SYNCH, GET_DAQ_CLOCK, READ_DAQ, GET_DAQ_PROCESSOR_INFO
     , GET_DAQ_RESOLUTION_INFO, GET_DAQ_LIST_INFO, GET_DAQ_EVENT_INFO, DTO_CTR_PROPERTIES
     , SET_DAQ_PACKED_MODE, GET_DAQ_PACKED_MODE, FREE_DAQ, ALLOC_DAQ, ALLOC_ODT, ALLOC_ODT_ENTRY
     , PROGRAM_START, PROGRAM_CLEAR, PROGRAM, PROGRAM_RESET, GET_PGM_PROCESSOR_INFO
     , GET_SECTOR_INFO, PROGRAM_PREPARE, PROGRAM_FORMAT, PROGRAM_NEXT, PROGRAM_MAX
     , PROGRAM_VERIFY, TIME_CORRELATION_PROPERTIES, DBG_ATTACH, DBG_GET_VENDOR_INFO
     , DBG_GET_MODE_INFO, DBG_GET_JTAG_ID, DBG_HALT_AFTER_RESET, DBG_GET_HWIO_INFO
     , DBG_SET_HWIO_EVENT, DBG_HWIO_CONTROL, DBG_EXCLUSIVE_TARGET_ACCESS, DBG_SEQUENCE_MULTIPLE
     , DBG_LLT, DBG_READ_MODIFY_WRITE, DBG_WRITE, DBG_WRITE_NEXT, DBG_WRITE_CAN1, DBG_WRITE_CAN2
     , DBG_WRITE_CAN_NEXT, DBG_READ, DBG_READ_CAN1, DBG_READ_CAN2, DBG_GET_TRI_DESC_TBL
     , DBG_LLBT]"

lemma distinct_Command: "distinct Command"
  by (simp add: Command_def)

datatype CommandCategory = STD | CAL_PAG | DAQ | STIM | PGM

fun category_value :: "CommandCategory \<Rightarrow> int" where
  "category_value STD = 0"
| "category_value CAL_PAG = 1"
| "category_value DAQ = 4"
| "category_value STIM = 8"
| "category_value PGM = 16"

text \<open>The dictionary \<open>COMMAND_CATEGORIES\<close>: a command without an entry has no category.\<close>

definition COMMAND_CATEGORIES :: "(command \<times> CommandCategory) list" where
  "COMMAND_CATEGORIES =
    [(CONNECT, STD),
     (DISCONNECT, STD),
     (GET_STATUS, STD),
     (SYNCH, STD),
     (GET_COMM_MODE_INFO, STD),
     (GET_ID, STD),
     (SET_REQUEST, STD),
     (GET_SEED, STD),
     (UNLOCK, STD),
     (SET_MTA, STD),
     (UPLOAD, STD),
     (SHORT_UPLOAD, STD),
     (BUILD_CHECKSUM, STD),
     (TRANSPORT_LAYER_CMD, STD),
     (USER_CMD, STD),
     (GET_VERSION, STD),
     (DOWNLOAD, CAL_PAG),
     (DOWNLOAD_NEXT, CAL_PAG),
     (DOWNLOAD_MAX, CAL_PAG),
     (SHORT_DOWNLOAD, CAL_PAG),
     (MODIFY_BITS, CAL_PAG),
     (SET_CAL_PAGE, CAL_PAG),
     (GET_CAL_PAGE, CAL_PAG),
     (GET_PAG_PROCESSOR_INFO, CAL_PAG),
     (GET_SEGMENT_INFO, CAL_PAG),
     (GET_PAGE_INFO, CAL_PAG),
     (SET_SEGMENT_MODE, CAL_PAG),
     (GET_SEGMENT_MODE, CAL_PAG),
     (COPY_CAL_PAGE, CAL_PAG),
     (CLEAR_DAQ_LIST, DAQ),
     (CLEAR_DAQ_LIST, DAQ),
     (SET_DAQ_PTR, DAQ),
     (WRITE_DAQ, DAQ),
     (WRITE_DAQ_MULTIPLE, DAQ),
     (SET_DAQ_LIST_MODE, DAQ),
     (GET_DAQ_LIST_MODE, DAQ),
     (START_STOP_DAQ_LIST, DAQ),
     (START_STOP_SYNCH, DAQ),
     (GET_DAQ_CLOCK, DAQ),
     (READ_DAQ, DAQ),
     (GET_DAQ_PROCESSOR_INFO, DAQ),
     (GET_DAQ_RESOLUTION_INFO, DAQ),
     (GET_DAQ_LIST_INFO, DAQ),
     (GET_DAQ_EVENT_INFO, DAQ),
     (DTO_CTR_PROPERTIES, DAQ),
     (SET_DAQ_PACKED_MODE, DAQ),
     (GET_DAQ_PACKED_MODE, DAQ),
     (FREE_DAQ, DAQ),
     (ALLOC_DAQ, DAQ),
     (ALLOC_ODT, DAQ),
     (ALLOC_ODT_ENTRY, DAQ),
     (PROGRAM_START, PGM),
     (PROGRAM_CLEAR, PGM),
     (PROGRAM, PGM),
     (PROGRAM_RESET, PGM),
     (GET_PGM_PROCESSOR_INFO, PGM),
     (GET_SECTOR_INFO, PGM),
     (PROGRAM_PREPARE, PGM),
     (PROGRAM_FORMAT, PGM),
     (PROGRAM_NEXT, PGM),
     (PROGRAM_MAX, PGM),
     (PROGRAM_VERIFY, PGM)]"

datatype DaqPackedModeType = NOT_PACKED | ELEMENT_GROUPED | EVENT_GROUPED

fun packed_mode_value :: "DaqPackedModeType \<Rightarrow> int" where
  "packed_mode_value NOT_PACKED = 0"
| "packed_mode_value ELEMENT_GROUPED = 1"
| "packed_mode_value EVENT_GROUPED = 2"

datatype TryCommandResult = TRY_OK | TRY_XCP_ERROR | TRY_NOT_IMPLEMENTED | TRY_OTHER_ERROR

subsection \<open>Events and transport-layer commands\<close>

abbreviation (input) EV_RESUME_MODE :: int where "EV_RESUME_MODE \<equiv> 0"
abbreviation (input) EV_CLEAR_DAQ :: int where "EV_CLEAR_DAQ \<equiv> 1"
abbreviation (input) EV_STORE_DAQ :: int where "EV_STORE_DAQ \<equiv> 2"
abbreviation (input) EV_STORE_CAL :: int where "EV_STORE_CAL \<equiv> 3"
abbreviation (input) EV_CMD_PENDING :: int where "EV_CMD_PENDING \<equiv> 5"
abbreviation (input) EV_DAQ_OVERLOAD :: int where "EV_DAQ_OVERLOAD \<equiv> 6"
abbreviation (input) EV_SESSION_TERMINATED :: int where "EV_SESSION_TERMINATED \<equiv> 7"
abbreviation (input) EV_TIME_SYNC :: int where "EV_TIME_SYNC \<equiv> 8"
abbreviation (input) EV_STIM_TIMEOUT :: int where "EV_STIM_TIMEOUT \<equiv> 9"
abbreviation (input) EV_SLEEP :: int where "EV_SLEEP \<equiv> 0x0A"
abbreviation (input) EV_WAKE_UP :: int where "EV_WAKE_UP \<equiv> 0x0B"
abbreviation (input) EV_ECU_STATE_CHANGE :: int where "EV_ECU_STATE_CHANGE \<equiv> 0x0C"
abbreviation (input) EV_USER :: int where "EV_USER \<equiv> 0xFE"
abbreviation (input) EV_TRANSPORT :: int where "EV_TRANSPORT \<equiv> 0xFF"

definition Event :: "int list" where
  "Event =
    [EV_RESUME_MODE, EV_CLEAR_DAQ, EV_STORE_DAQ, EV_STORE_CAL, EV_CMD_PENDING, EV_DAQ_OVERLOAD
     , EV_SESSION_TERMINATED, EV_TIME_SYNC, EV_STIM_TIMEOUT, EV_SLEEP, EV_WAKE_UP
     , EV_ECU_STATE_CHANGE, EV_USER, EV_TRANSPORT]"

text \<open>Members of \<open>TransportLayerCommands\<close> with equal values are aliases, as in Python.\<close>

abbreviation (input) GET_SLAVE_ID :: int where "GET_SLAVE_ID \<equiv> 0xFF"
abbreviation (input) GET_DAQ_ID :: int where "GET_DAQ_ID \<equiv> 0xFE"
abbreviation (input) SET_DAQ_ID :: int where "SET_DAQ_ID \<equiv> 0xFD"
abbreviation (input) GET_SLAVE_ID_EXTENDED :: int where "GET_SLAVE_ID_EXTENDED \<equiv> 0xFD"
abbreviation (input) SET_SLAVE_IP_ADDRESS :: int where "SET_SLAVE_IP_ADDRESS \<equiv> 0xFC"
abbreviation (input) GET_DAQ_CLOCK_MULTICAST :: int where "GET_DAQ_CLOCK_MULTICAST \<equiv> 0xFA"
abbreviation (input) FLX_ASSIGN :: int where "FLX_ASSIGN \<equiv> 0xFF"
abbreviation (input) FLX_ACTIVATE :: int where "FLX_ACTIVATE \<equiv> 0xFE"
abbreviation (input) FLX_DEACTIVATE :: int where "FLX_DEACTIVATE \<equiv> 0xFD"
abbreviation (input) GET_DAQ_FLX_BUF :: int where "GET_DAQ_FLX_BUF \<equiv> 0xFC"
abbreviation (input) SET_DAQ_FLX_BUF :: int where "SET_DAQ_FLX_BUF \<equiv> 0xFB"
abbreviation (input) GET_DAQ_EP :: int where "GET_DAQ_EP \<equiv> 0xFF"
abbreviation (input) SET_DAQ_EP :: int where "SET_DAQ_EP \<equiv> 0xFE"

text \<open>The resource bits of seed and key (\<open>RESOURCE_VALUES\<close>).\<close>

definition RESOURCE_VALUES :: "(string \<times> int) list" where
  "RESOURCE_VALUES =
    [(''dbg'', 32), (''pgm'', 16), (''stim'', 8), (''daq'', 4), (''calpag'', 1)]"

subsection \<open>Page properties\<close>

text \<open>\<open>PagePropertiesInfo\<close> and \<open>PageInfo\<close>, the results of \<open>getPageInfo\<close>.\<close>

record PagePropertiesInfo =
  ecu_access_with_xcp :: bool
  ecu_access_without_xcp :: bool
  xcp_read_access_with_ecu :: bool
  xcp_read_access_without_ecu :: bool
  xcp_write_access_with_ecu :: bool
  xcp_write_access_without_ecu :: bool

definition ecu_access :: "PagePropertiesInfo \<Rightarrow> bool" where
  "ecu_access p \<longleftrightarrow> ecu_access_with_xcp p \<or> ecu_access_without_xcp p"

definition xcp_read_access :: "PagePropertiesInfo \<Rightarrow> bool" where
  "xcp_read_access p \<longleftrightarrow> xcp_read_access_with_ecu p \<or> xcp_read_access_without_ecu p"

definition xcp_write_access :: "PagePropertiesInfo \<Rightarrow> bool" where
  "xcp_write_access p \<longleftrightarrow> xcp_write_access_with_ecu p \<or> xcp_write_access_without_ecu p"

record PageInfo =
  properties :: PagePropertiesInfo
  init_segment :: int

end
