(* ===== verification/Struct_Codec.thy ===== *)
theory Struct_Codec
  imports Xcp_Types
begin

text \<open>
  Packing and unpacking of unsigned integers with \<open>struct\<close>, as \<open>src/pyxcp/constants.py\<close> makes the
  packers: formats \<open>B\<close>, \<open>H\<close>, \<open>I\<close> and \<open>Q\<close> after a byte order \<open><\<close> or \<open>>\<close>. \<open>struct\<close> is Python's
  standard library: packing an integer outside the format raises \<open>struct.error\<close>, and so does
  unpacking a sequence of another length. An unpacker returns a tuple of one integer, of which every
  caller takes the element 0; the model returns that integer.

  The locale \<open>codec\<close> is the interface the clients rely on (a packed value can be unpacked, and the
  reverse); it is interpreted on the four packers for both byte orders.
\<close>

datatype byteorder = Little | Big

fun le_bytes :: "nat \<Rightarrow> int \<Rightarrow> bytes" where
  "le_bytes 0 v = []"
| "le_bytes (Suc n) v = word_of_int v # le_bytes n (v div 256)"

fun le_int :: "bytes \<Rightarrow> int" where
  "le_int [] = 0"
| "le_int (b # bs) = uint b + 256 * le_int bs"

definition struct_pack :: "byteorder \<Rightarrow> nat \<Rightarrow> int \<Rightarrow> bytes result" where
  "struct_pack order n v =
     (if 0 \<le> v \<and> v < 256 ^ n
      then Inr (case order of Little \<Rightarrow> le_bytes n v | Big \<Rightarrow> rev (le_bytes n v))
      else Inl StructError)"

definition struct_unpack :: "byteorder \<Rightarrow> nat \<Rightarrow> bytes \<Rightarrow> int result" where
  "struct_unpack order n bs =
     (if length bs = n
      then Inr (case order of Little \<Rightarrow> le_int bs | Big \<Rightarrow> le_int (rev bs))
      else Inl StructError)"

definition makeBytePacker :: "byteorder \<Rightarrow> int \<Rightarrow> bytes result" where
  "makeBytePacker order = struct_pack order 1"

definition makeByteUnpacker :: "byteorder \<Rightarrow> bytes \<Rightarrow> int result" where
  "makeByteUnpacker order = struct_unpack order 1"

definition makeWordPacker :: "byteorder \<Rightarrow> int \<Rightarrow> bytes result" where
  "makeWordPacker order = struct_pack order 2"

definition makeWordUnpacker :: "byteorder \<Rightarrow> bytes \<Rightarrow> int result" where
  "makeWordUnpacker order = struct_unpack order 2"

definition makeDWordPacker :: "byteorder \<Rightarrow> int \<Rightarrow> bytes result" where
  "makeDWordPacker order = struct_pack order 4"

definition makeDWordUnpacker :: "byteorder \<Rightarrow> bytes \<Rightarrow> int result" where
  "makeDWordUnpacker order = struct_unpack order 4"

definition makeDLongPacker :: "byteorder \<Rightarrow> int \<Rightarrow> bytes result" where
  "makeDLongPacker order = struct_pack order 8"

definition makeDLongUnpacker :: "byteorder \<Rightarrow> bytes \<Rightarrow> int result" where
  "makeDLongUnpacker order = struct_unpack order 8"

lemmas packer_defs =
  makeBytePacker_def makeByteUnpacker_def makeWordPacker_def makeWordUnpacker_def
  makeDWordPacker_def makeDWordUnpacker_def makeDLongPacker_def makeDLongUnpacker_def

subsection \<open>Byte lists and integers\<close>

lemma length_le_bytes [simp]: "length (le_bytes n v) = n"
  by (induction n arbitrary: v) auto

lemma le_int_nonneg: "0 \<le> le_int bs"
  by (induction bs) auto

lemma le_int_bound: "le_int bs < 256 ^ length bs"
proof (induction bs)
  case Nil
  then show ?case by simp
next
  case (Cons b bs)
  have b: "uint b < 256" by simp
  from Cons have "le_int bs + 1 \<le> 256 ^ length bs" by simp
  with b have "uint b + 256 * le_int bs < 256 * 256 ^ length bs" by linarith
  then show ?case by simp
qed

lemma le_int_le_bytes: "0 \<le> v \<Longrightarrow> v < 256 ^ n \<Longrightarrow> le_int (le_bytes n v) = v"
proof (induction n arbitrary: v)
  case 0
  then show ?case by simp
next
  case (Suc n)
  have "v < 256 * 256 ^ n" using Suc.prems by simp
  then have "v div 256 < 256 ^ n" by arith
  with Suc show ?case
    by (simp add: uint_word_of_int take_bit_eq_mod)
qed

lemma le_bytes_le_int: "le_bytes (length bs) (le_int bs) = bs"
proof (induction bs)
  case Nil
  then show ?case by simp
next
  case (Cons b bs)
  have "uint b < 256" and "0 \<le> uint b" by simp_all
  then have "(uint b + 256 * le_int bs) div 256 = le_int bs"
    by (simp add: div_add1_eq)
  moreover have "(word_of_int (uint b + 256 * le_int bs) :: byte) = b"
  proof -
    have zero: "(256 :: byte) = 0" by simp
    have "(word_of_int (uint b + 256 * le_int bs) :: byte) = b + 256 * word_of_int (le_int bs)"
      by simp
    then show ?thesis by (simp only: zero mult_zero_left add_0_right)
  qed
  ultimately show ?case using Cons.IH by simp
qed

lemma struct_unpack_pack: "struct_pack o' n v = Inr bs \<Longrightarrow> struct_unpack o' n bs = Inr v"
  by (auto simp: struct_pack_def struct_unpack_def le_int_le_bytes
      split: if_splits byteorder.splits)

lemma struct_pack_unpack:
  assumes "struct_unpack o' n bs = Inr v"
  shows "struct_pack o' n v = Inr bs"
proof (cases o')
  case Little
  with assms have n: "n = length bs" and v: "v = le_int bs"
    by (auto simp: struct_unpack_def split: if_splits)
  show ?thesis
    using Little le_int_bound [of bs] le_int_nonneg [of bs]
    by (simp add: struct_pack_def n v le_bytes_le_int)
next
  case Big
  with assms have n: "n = length (rev bs)" and v: "v = le_int (rev bs)"
    by (auto simp: struct_unpack_def split: if_splits)
  show ?thesis
    using Big le_int_bound [of "rev bs"] le_int_nonneg [of "rev bs"] le_bytes_le_int [of "rev bs"]
    by (simp add: struct_pack_def n v)
qed

lemma struct_pack_length: "struct_pack o' n v = Inr bs \<Longrightarrow> length bs = n"
  by (auto simp: struct_pack_def split: if_splits byteorder.splits)

lemma struct_pack_Inr_range: "struct_pack o' n v = Inr bs \<Longrightarrow> 0 \<le> v \<and> v < 256 ^ n"
  by (auto simp: struct_pack_def split: if_splits)

lemma struct_pack_total: "0 \<le> v \<Longrightarrow> v < 256 ^ n \<Longrightarrow> \<exists>bs. struct_pack o' n v = Inr bs"
  by (auto simp: struct_pack_def)

subsection \<open>The interface of a codec\<close>

locale codec =
  fixes pack :: "int \<Rightarrow> bytes result"
    and unpack :: "bytes \<Rightarrow> int result"
    and size :: nat
    and limit :: int
  assumes pack_total: "0 \<le> v \<Longrightarrow> v < limit \<Longrightarrow> \<exists>bs. pack v = Inr bs"
    and pack_range: "pack v = Inr bs \<Longrightarrow> 0 \<le> v \<and> v < limit"
    and pack_length: "pack v = Inr bs \<Longrightarrow> length bs = size"
    and unpack_pack: "pack v = Inr bs \<Longrightarrow> unpack bs = Inr v"
    and pack_unpack: "unpack bs = Inr v \<Longrightarrow> pack v = Inr bs"
    and size_pos: "0 < size"
begin

lemma pack_iff_unpack: "pack v = Inr bs \<longleftrightarrow> unpack bs = Inr v"
  using unpack_pack pack_unpack by blast

lemma pack_inject: "pack v = Inr bs \<Longrightarrow> pack w = Inr bs \<Longrightarrow> v = w"
  by (auto dest!: unpack_pack)

lemma unpack_bound: "unpack bs = Inr v \<Longrightarrow> 0 \<le> v \<and> v < limit \<and> length bs = size"
  by (auto dest!: pack_unpack dest: pack_range pack_length)

lemma unpack_append:
  "pack v = Inr bs \<Longrightarrow> unpack (take size (bs @ cs)) = Inr v \<and> drop size (bs @ cs) = cs"
  using unpack_pack [of v bs] pack_length [of v bs] by auto

text \<open>A sequence of packed values, cut into pieces of the codec's size, unpacks to the values.\<close>

lemma pack_all_roundtrip:
  "rmap pack vs = Inr bss \<Longrightarrow> rmap unpack (chunks size (concat bss)) = Inr vs"
proof (induction vs arbitrary: bss)
  case Nil
  then show ?case by simp
next
  case (Cons v vs)
  then obtain bs bss' where v: "pack v = Inr bs" and rest: "rmap pack vs = Inr bss'"
    and bss: "bss = bs # bss'"
    by (auto simp: rbind_Inr_iff)
  from pack_length [OF v] size_pos have "chunks size (bs @ concat bss') = bs # chunks size (concat bss')"
    by (simp add: chunks_append)
  with Cons.IH [OF rest] unpack_pack [OF v] bss show ?case by simp
qed

lemma pack_all_total:
  "(\<And>v. v \<in> set vs \<Longrightarrow> 0 \<le> v \<and> v < limit) \<Longrightarrow> \<exists>bss. rmap pack vs = Inr bss"
proof (induction vs)
  case Nil
  then show ?case by simp
next
  case (Cons v vs)
  then obtain bs bss where "pack v = Inr bs" and "rmap pack vs = Inr bss"
    using pack_total [of v] by auto
  then show ?case by auto
qed

end

lemma codec_struct:
  assumes "0 < n"
  shows "codec (struct_pack o' n) (struct_unpack o' n) n (256 ^ n)"
  using assms
  by unfold_locales
    (auto dest: struct_pack_Inr_range struct_pack_length struct_unpack_pack struct_pack_unpack
      intro: struct_pack_total)

interpretation byte_codec: codec "makeBytePacker o'" "makeByteUnpacker o'" 1 "2 ^ 8" for o'
  using codec_struct [of 1 o'] by (simp add: packer_defs)

interpretation word_codec: codec "makeWordPacker o'" "makeWordUnpacker o'" 2 "2 ^ 16" for o'
  using codec_struct [of 2 o'] by (simp add: packer_defs)

interpretation dword_codec: codec "makeDWordPacker o'" "makeDWordUnpacker o'" 4 "2 ^ 32" for o'
  using codec_struct [of 4 o'] by (simp add: packer_defs)

interpretation dlong_codec: codec "makeDLongPacker o'" "makeDLongUnpacker o'" 8 "2 ^ 64" for o'
  using codec_struct [of 8 o'] by (simp add: packer_defs)

end
