(* ===== verification/Checksum.thy ===== *)
theory Checksum
  imports Struct_Codec
begin

unbundle bit_operations_syntax

text \<open>
  \<open>pyxcp/checksum.py\<close>: the checksum methods of the BUILD_CHECKSUM service. Python's unbounded
  integers are \<^typ>\<open>int\<close>; the code keeps the CRC remainder inside sixteen bits by masking. The
  reference definition is the bit-serial polynomial division on \<^typ>\<open>16 word\<close>; the locale
  \<open>crc_table\<close> states what a lookup table has to hold for the table-driven loop to compute it,
  and is interpreted on both tables of the file. \<open>zlib.crc32\<close> is Python's standard library and is
  written out as the CRC-32 it is documented to be.
\<close>

section \<open>Model\<close>

text \<open>\<open>Algorithm\<close>, an \<open>IntEnum\<close>.\<close>

datatype Algorithm = XCP_ADD_11 | XCP_ADD_12 | XCP_ADD_14 | XCP_ADD_22 | XCP_ADD_24 | XCP_ADD_44
  | XCP_CRC_16 | XCP_CRC_16_CITT | XCP_CRC_32 | XCP_USER_DEFINED

primrec Algorithm_value :: "Algorithm \<Rightarrow> int" where
  "Algorithm_value XCP_ADD_11 = 1"
| "Algorithm_value XCP_ADD_12 = 2"
| "Algorithm_value XCP_ADD_14 = 3"
| "Algorithm_value XCP_ADD_22 = 4"
| "Algorithm_value XCP_ADD_24 = 5"
| "Algorithm_value XCP_ADD_44 = 6"
| "Algorithm_value XCP_CRC_16 = 7"
| "Algorithm_value XCP_CRC_16_CITT = 8"
| "Algorithm_value XCP_CRC_32 = 9"
| "Algorithm_value XCP_USER_DEFINED = 10"

text \<open>The two lookup tables, each in two halves.\<close>

definition CRC16_TABLE_LO :: "int list" where
  "CRC16_TABLE_LO = [
   0x0000, 0x8005, 0x800F, 0x000A, 0x801B, 0x001E, 0x0014, 0x8011, 0x8033, 0x0036, 0x003C, 0x8039, 0x0028, 0x802D, 0x8027, 0x0022,
   0x8063, 0x0066, 0x006C, 0x8069, 0x0078, 0x807D, 0x8077, 0x0072, 0x0050, 0x8055, 0x805F, 0x005A, 0x804B, 0x004E, 0x0044, 0x8041,
   0x80C3, 0x00C6, 0x00CC, 0x80C9, 0x00D8, 0x80DD, 0x80D7, 0x00D2, 0x00F0, 0x80F5, 0x80FF, 0x00FA, 0x80EB, 0x00EE, 0x00E4, 0x80E1,
   0x00A0, 0x80A5, 0x80AF, 0x00AA, 0x80BB, 0x00BE, 0x00B4, 0x80B1, 0x8093, 0x0096, 0x009C, 0x8099, 0x0088, 0x808D, 0x8087, 0x0082,
   0x8183, 0x0186, 0x018C, 0x8189, 0x0198, 0x819D, 0x8197, 0x0192, 0x01B0, 0x81B5, 0x81BF, 0x01BA, 0x81AB, 0x01AE, 0x01A4, 0x81A1,
   0x01E0, 0x81E5, 0x81EF, 0x01EA, 0x81FB, 0x01FE, 0x01F4, 0x81F1, 0x81D3, 0x01D6, 0x01DC, 0x81D9, 0x01C8, 0x81CD, 0x81C7, 0x01C2,
   0x0140, 0x8145, 0x814F, 0x014A, 0x815B, 0x015E, 0x0154, 0x8151, 0x8173, 0x0176, 0x017C, 0x8179, 0x0168, 0x816D, 0x8167, 0x0162,
   0x8123, 0x0126, 0x012C, 0x8129, 0x0138, 0x813D, 0x8137, 0x0132, 0x0110, 0x8115, 0x811F, 0x011A, 0x810B, 0x010E, 0x0104, 0x8101]"

definition CRC16_TABLE_HI :: "int list" where
  "CRC16_TABLE_HI = [
   0x8303, 0x0306, 0x030C, 0x8309, 0x0318, 0x831D, 0x8317, 0x0312, 0x0330, 0x8335, 0x833F, 0x033A, 0x832B, 0x032E, 0x0324, 0x8321,
   0x0360, 0x8365, 0x836F, 0x036A, 0x837B, 0x037E, 0x0374, 0x8371, 0x8353, 0x0356, 0x035C, 0x8359, 0x0348, 0x834D, 0x8347, 0x0342,
   0x03C0, 0x83C5, 0x83CF, 0x03CA, 0x83DB, 0x03DE, 0x03D4, 0x83D1, 0x83F3, 0x03F6, 0x03FC, 0x83F9, 0x03E8, 0x83ED, 0x83E7, 0x03E2,
   0x83A3, 0x03A6, 0x03AC, 0x83A9, 0x03B8, 0x83BD, 0x83B7, 0x03B2, 0x0390, 0x8395, 0x839F, 0x039A, 0x838B, 0x038E, 0x0384, 0x8381,
   0x0280, 0x8285, 0x828F, 0x028A, 0x829B, 0x029E, 0x0294, 0x8291, 0x82B3, 0x02B6, 0x02BC, 0x82B9, 0x02A8, 0x82AD, 0x82A7, 0x02A2,
   0x82E3, 0x02E6, 0x02EC, 0x82E9, 0x02F8, 0x82FD, 0x82F7, 0x02F2, 0x02D0, 0x82D5, 0x82DF, 0x02DA, 0x82CB, 0x02CE, 0x02C4, 0x82C1,
   0x8243, 0x0246, 0x024C, 0x8249, 0x0258, 0x825D, 0x8257, 0x0252, 0x0270, 0x8275, 0x827F, 0x027A, 0x826B, 0x026E, 0x0264, 0x8261,
   0x0220, 0x8225, 0x822F, 0x022A, 0x823B, 0x023E, 0x0234, 0x8231, 0x8213, 0x0216, 0x021C, 0x8219, 0x0208, 0x820D, 0x8207, 0x0202]"

definition CRC16_TABLE :: "int list" where
  "CRC16_TABLE = CRC16_TABLE_LO @ CRC16_TABLE_HI"

definition CRC16_CCITT_TABLE_LO :: "int list" where
  "CRC16_CCITT_TABLE_LO = [
   0x0000, 0x1021, 0x2042, 0x3063, 0x4084, 0x50A5, 0x60C6, 0x70E7, 0x8108, 0x9129, 0xA14A, 0xB16B, 0xC18C, 0xD1AD, 0xE1CE, 0xF1EF,
   0x1231, 0x0210, 0x3273, 0x2252, 0x52B5, 0x4294, 0x72F7, 0x62D6, 0x9339, 0x8318, 0xB37B, 0xA35A, 0xD3BD, 0xC39C, 0xF3FF, 0xE3DE,
   0x2462, 0x3443, 0x0420, 0x1401, 0x64E6, 0x74C7, 0x44A4, 0x5485, 0xA56A, 0xB54B, 0x8528, 0x9509, 0xE5EE, 0xF5CF, 0xC5AC, 0xD58D,
   0x3653, 0x2672, 0x1611, 0x0630, 0x76D7, 0x66F6, 0x5695, 0x46B4, 0xB75B, 0xA77A, 0x9719, 0x8738, 0xF7DF, 0xE7FE, 0xD79D, 0xC7BC,
   0x48C4, 0x58E5, 0x6886, 0x78A7, 0x0840, 0x1861, 0x2802, 0x3823, 0xC9CC, 0xD9ED, 0xE98E, 0xF9AF, 0x8948, 0x9969, 0xA90A, 0xB92B,
   0x5AF5, 0x4AD4, 0x7AB7, 0x6A96, 0x1A71, 0x0A50, 0x3A33, 0x2A12, 0xDBFD, 0xCBDC, 0xFBBF, 0xEB9E, 0x9B79, 0x8B58, 0xBB3B, 0xAB1A,
   0x6CA6, 0x7C87, 0x4CE4, 0x5CC5, 0x2C22, 0x3C03, 0x0C60, 0x1C41, 0xEDAE, 0xFD8F, 0xCDEC, 0xDDCD, 0xAD2A, 0xBD0B, 0x8D68, 0x9D49,
   0x7E97, 0x6EB6, 0x5ED5, 0x4EF4, 0x3E13, 0x2E32, 0x1E51, 0x0E70, 0xFF9F, 0xEFBE, 0xDFDD, 0xCFFC, 0xBF1B, 0xAF3A, 0x9F59, 0x8F78]"

definition CRC16_CCITT_TABLE_HI :: "int list" where
  "CRC16_CCITT_TABLE_HI = [
   0x9188, 0x81A9, 0xB1CA, 0xA1EB, 0xD10C, 0xC12D, 0xF14E, 0xE16F, 0x1080, 0x00A1, 0x30C2, 0x20E3, 0x5004, 0x4025, 0x7046, 0x6067,
   0x83B9, 0x9398, 0xA3FB, 0xB3DA, 0xC33D, 0xD31C, 0xE37F, 0xF35E, 0x02B1, 0x1290, 0x22F3, 0x32D2, 0x4235, 0x5214, 0x6277, 0x7256,
   0xB5EA, 0xA5CB, 0x95A8, 0x8589, 0xF56E, 0xE54F, 0xD52C, 0xC50D, 0x34E2, 0x24C3, 0x14A0, 0x0481, 0x7466, 0x6447, 0x5424, 0x4405,
   0xA7DB, 0xB7FA, 0x8799, 0x97B8, 0xE75F, 0xF77E, 0xC71D, 0xD73C, 0x26D3, 0x36F2, 0x0691, 0x16B0, 0x6657, 0x7676, 0x4615, 0x5634,
   0xD94C, 0xC96D, 0xF90E, 0xE92F, 0x99C8, 0x89E9, 0xB98A, 0xA9AB, 0x5844, 0x4865, 0x7806, 0x6827, 0x18C0, 0x08E1, 0x3882, 0x28A3,
   0xCB7D, 0xDB5C, 0xEB3F, 0xFB1E, 0x8BF9, 0x9BD8, 0xABBB, 0xBB9A, 0x4A75, 0x5A54, 0x6A37, 0x7A16, 0x0AF1, 0x1AD0, 0x2AB3, 0x3A92,
   0xFD2E, 0xED0F, 0xDD6C, 0xCD4D, 0xBDAA, 0xAD8B, 0x9DE8, 0x8DC9, 0x7C26, 0x6C07, 0x5C64, 0x4C45, 0x3CA2, 0x2C83, 0x1CE0, 0x0CC1,
   0xEF1F, 0xFF3E, 0xCF5D, 0xDF7C, 0xAF9B, 0xBFBA, 0x8FD9, 0x9FF8, 0x6E17, 0x7E36, 0x4E55, 0x5E74, 0x2E93, 0x3EB2, 0x0ED1, 0x1EF0]"

definition CRC16_CCITT_TABLE :: "int list" where
  "CRC16_CCITT_TABLE = CRC16_CCITT_TABLE_LO @ CRC16_CCITT_TABLE_HI"
text \<open>\<open>reflect\<close>: one round of the loop per bit position, on the reflection and the data.\<close>

fun reflect_step :: "nat \<Rightarrow> nat \<Rightarrow> int \<times> int \<Rightarrow> int \<times> int" where
  "reflect_step nBits k (reflection, data) =
     (if data AND 1 \<noteq> 0 then reflection OR push_bit (nBits - 1 - k) 1 else reflection,
      drop_bit 1 data)"

definition reflect :: "int \<Rightarrow> nat \<Rightarrow> int" where
  "reflect data nBits = fst (fold (reflect_step nBits) [0..<nBits] (0, data))"

text \<open>The class \<open>Crc16\<close>; \<open>WIDTH\<close> is its class attribute.\<close>

record Crc16 =
  table :: "int list"
  initalRemainder :: int
  finalXorValue :: int
  reflectData :: bool
  reflectRemainder :: bool

definition WIDTH :: nat where
  "WIDTH = 16"

definition reflectIn :: "Crc16 \<Rightarrow> int \<Rightarrow> int \<Rightarrow> int" where
  "reflectIn self ch remainder =
     (if reflectData self then (reflect ch 8 XOR drop_bit (WIDTH - 8) remainder) AND 0xFF
      else (ch XOR drop_bit (WIDTH - 8) remainder) AND 0xFF)"

definition reflectOut :: "Crc16 \<Rightarrow> int \<Rightarrow> int" where
  "reflectOut self remainder =
     (if reflectRemainder self then reflect remainder 16 XOR finalXorValue self
      else remainder XOR finalXorValue self)"

fun Crc16_loop :: "Crc16 \<Rightarrow> bytes \<Rightarrow> int \<Rightarrow> int result" where
  "Crc16_loop self [] remainder = Inr remainder"
| "Crc16_loop self (ch # frame) remainder =
     (let data = reflectIn self (int_of_byte ch) remainder
      in rbind (py_index IndexError (table self) data) (\<lambda>entry.
           Crc16_loop self frame ((entry XOR push_bit 8 remainder) AND 0xFFFF)))"

definition Crc16_call :: "Crc16 \<Rightarrow> bytes \<Rightarrow> int result" where
  "Crc16_call self frame =
     rbind (Crc16_loop self frame (initalRemainder self)) (\<lambda>remainder. Inr (reflectOut self remainder))"

text \<open>The sums. A modulus of zero raises, as Python's \<open>%\<close> does.\<close>

definition py_mod :: "int \<Rightarrow> int \<Rightarrow> int result" where
  "py_mod a m = (if m = 0 then Inl ZeroDivisionError else Inr (a mod m))"

definition adder :: "int \<Rightarrow> bytes \<Rightarrow> int result" where
  "adder modulus frame = py_mod (sum_list (map int_of_byte frame)) modulus"

definition pad_to_word_size :: "bytes \<Rightarrow> nat \<Rightarrow> byte \<Rightarrow> bytes" where
  "pad_to_word_size frame word_size padding_value =
     (let padding_bytes = word_size - length frame mod word_size
      in if padding_bytes = word_size then frame
         else frame @ replicate padding_bytes padding_value)"

definition wordSum :: "int \<Rightarrow> int \<Rightarrow> bytes \<Rightarrow> int result" where
  "wordSum modulus step frame =
     (if step = 2 \<or> step = 4 then
        let frame = pad_to_word_size frame (nat step) 0
        in rbind (rmap (struct_unpack Little (nat step)) (chunks (nat step) frame)) (\<lambda>x.
             py_mod (sum_list x) modulus)
      else Inl NotImplementedError)"

definition ADD11 :: "bytes \<Rightarrow> int result" where "ADD11 = adder (2 ^ 8)"
definition ADD12 :: "bytes \<Rightarrow> int result" where "ADD12 = adder (2 ^ 16)"
definition ADD14 :: "bytes \<Rightarrow> int result" where "ADD14 = adder (2 ^ 32)"
definition ADD22 :: "bytes \<Rightarrow> int result" where "ADD22 = wordSum (2 ^ 16) 2"
definition ADD24 :: "bytes \<Rightarrow> int result" where "ADD24 = wordSum (2 ^ 32) 2"
definition ADD44 :: "bytes \<Rightarrow> int result" where "ADD44 = wordSum (2 ^ 32) 4"

definition CRC16 :: Crc16 where
  "CRC16 = \<lparr>table = CRC16_TABLE, initalRemainder = 0, finalXorValue = 0,
     reflectData = True, reflectRemainder = True\<rparr>"

definition CRC16_CCITT :: Crc16 where
  "CRC16_CCITT = \<lparr>table = CRC16_CCITT_TABLE, initalRemainder = 0xFFFF, finalXorValue = 0,
     reflectData = False, reflectRemainder = False\<rparr>"

text \<open>\<open>zlib.crc32\<close> of the standard library: the reflected CRC with polynomial \<open>0xEDB88320\<close>.\<close>

definition crc32_bit :: "32 word \<Rightarrow> 32 word" where
  "crc32_bit r = (if bit r 0 then drop_bit 1 r XOR 0xEDB88320 else drop_bit 1 r)"

definition zlib_crc32 :: "bytes \<Rightarrow> int" where
  "zlib_crc32 frame =
     uint (NOT (fold (\<lambda>ch r. (crc32_bit ^^ 8) (r XOR ucast ch)) frame (NOT (0 :: 32 word))))"

definition CRC32 :: "bytes \<Rightarrow> int" where
  "CRC32 x = zlib_crc32 x AND 0xFFFFFFFF"

definition userDefined :: "bytes \<Rightarrow> int result" where
  "userDefined x = Inl NotImplementedError"

definition ALGO :: "(string \<times> (bytes \<Rightarrow> int result)) list" where
  "ALGO = [
     (''XCP_ADD_11'', ADD11),
     (''XCP_ADD_12'', ADD12),
     (''XCP_ADD_14'', ADD14),
     (''XCP_ADD_22'', ADD22),
     (''XCP_ADD_24'', ADD24),
     (''XCP_ADD_44'', ADD44),
     (''XCP_CRC_16'', Crc16_call CRC16),
     (''XCP_CRC_16_CITT'', Crc16_call CRC16_CCITT),
     (''XCP_CRC_32'', (\<lambda>x. Inr (CRC32 x))),
     (''XCP_USER_DEFINED'', userDefined)]"

text \<open>
  The name of a checksum method is what the parsed response holds: a known name, or the integer the
  parser leaves when it knows no name. The message of the error path formats it with \<open>{algo:d}\<close>,
  which is defined for the integer only.
\<close>

datatype algo_ref = AlgoName string | AlgoCode int

definition check :: "bytes \<Rightarrow> algo_ref \<Rightarrow> int result" where
  "check frame algo =
     (case algo of
        AlgoName name \<Rightarrow>
          (case map_of ALGO name of Some f \<Rightarrow> f frame | None \<Rightarrow> Inl ValueError)
      | AlgoCode _ \<Rightarrow> Inl NotImplementedError)"

text \<open>A response object; an attribute it does not have is \<open>None\<close>.\<close>

record checksum_response =
  checksumType :: "algo_ref option"
  checksum :: "int option"

definition validate_checksum :: "bytes \<Rightarrow> checksum_response \<Rightarrow> bool result" where
  "validate_checksum frame slave_cs =
     (case (checksumType slave_cs, checksum slave_cs) of
        (Some t, Some cs) \<Rightarrow> rbind (check frame t) (\<lambda>master_cs. Inr (cs = master_cs))
      | _ \<Rightarrow> Inl TypeError)"

section \<open>Reference: bit-serial division\<close>

definition crc_bit :: "16 word \<Rightarrow> 16 word \<Rightarrow> 16 word" where
  "crc_bit poly r = (if bit r 15 then push_bit 1 r XOR poly else push_bit 1 r)"

definition crc_byte :: "16 word \<Rightarrow> 16 word \<Rightarrow> byte \<Rightarrow> 16 word" where
  "crc_byte poly r b = (crc_bit poly ^^ 8) (r XOR push_bit 8 (ucast b))"

definition crc_serial :: "16 word \<Rightarrow> 16 word \<Rightarrow> bytes \<Rightarrow> 16 word" where
  "crc_serial poly r frame = fold (\<lambda>b r. crc_byte poly r b) frame r"

definition rev_byte :: "byte \<Rightarrow> byte" where
  "rev_byte b = word_of_int (reflect (uint b) 8)"

section \<open>Lemmas\<close>

subsection \<open>Reflection\<close>

lemma reflect_fold:
  assumes "k \<le> n"
  shows "fold (reflect_step n) [0..<k] (0, d) = (r, d')
    \<Longrightarrow> d' = drop_bit k d \<and> (\<forall>i. bit r i \<longleftrightarrow> n - k \<le> i \<and> i < n \<and> bit d (n - 1 - i))"
  using assms
proof (induction k arbitrary: r d')
  case 0
  then show ?case by auto
next
  case (Suc k)
  obtain r0 d0 where f: "fold (reflect_step n) [0..<k] (0, d) = (r0, d0)"
    by fastforce
  with Suc have d0: "d0 = drop_bit k d"
    and r0: "\<And>i. bit r0 i \<longleftrightarrow> n - k \<le> i \<and> i < n \<and> bit d (n - 1 - i)"
    by auto
  have odd: "d0 AND 1 \<noteq> 0 \<longleftrightarrow> bit d k"
    by (simp add: d0 and_one_eq bit_iff_odd_drop_bit odd_iff_mod_2_eq_one)
  from Suc.prems f have r: "r = (if bit d k then r0 OR push_bit (n - 1 - k) 1 else r0)"
    and d': "d' = drop_bit 1 d0"
    by (auto simp: odd)
  have "bit r i \<longleftrightarrow> n - Suc k \<le> i \<and> i < n \<and> bit d (n - 1 - i)" for i
  proof (cases "i = n - 1 - k")
    case True
    with Suc.prems show ?thesis
      by (auto simp: r r0 bit_or_iff bit_push_bit_iff bit_1_iff bit_exp_iff)
  next
    case False
    with Suc.prems have "n - Suc k \<le> i \<longleftrightarrow> n - k \<le> i" by auto
    with False show ?thesis
      by (auto simp: r r0 bit_or_iff bit_push_bit_iff bit_1_iff bit_exp_iff)
  qed
  moreover have "d' = drop_bit (Suc k) d"
    by (simp add: d' d0)
  ultimately show ?case by blast
qed

lemma bit_reflect: "bit (reflect d n) i \<longleftrightarrow> i < n \<and> bit d (n - 1 - i)"
proof -
  obtain r d' where "fold (reflect_step n) [0..<n] (0, d) = (r, d')"
    by fastforce
  with reflect_fold [of n n d r d'] show ?thesis
    by (simp add: reflect_def)
qed

lemma reflect_reflect: "reflect (reflect d n) n = take_bit n d"
  by (rule bit_eqI) (auto simp: bit_reflect bit_take_bit_iff)

lemma reflect_take_bit: "take_bit n (reflect d n) = reflect d n"
  by (rule bit_eqI) (auto simp: bit_reflect bit_take_bit_iff)

lemma reflect_bounds: "0 \<le> reflect d n" "reflect d n < 2 ^ n"
  using reflect_take_bit [of n d]
  by (metis take_bit_nonnegative, metis take_bit_int_less_exp)

lemma uint_rev_byte: "uint (rev_byte b) = reflect (uint b) 8"
  using reflect_take_bit [of 8 "uint b"] by (simp add: rev_byte_def uint_word_of_int take_bit_eq_mod)

lemma rev_byte_rev_byte [simp]: "rev_byte (rev_byte b) = b"
  by (rule word_uint_eqI) (simp add: uint_rev_byte reflect_reflect take_bit_int_eq_self)

subsection \<open>Linearity of the division\<close>

lemma crc_bit_xor: "crc_bit p (x XOR y) = crc_bit p x XOR crc_bit p y"
  by (rule bit_word_eqI) (auto simp: crc_bit_def bit_xor_iff bit_push_bit_iff)

lemma crc_bit_0 [simp]: "crc_bit p 0 = 0"
  by (simp add: crc_bit_def)

lemma crc_bits_0 [simp]: "(crc_bit p ^^ n) 0 = 0"
  by (induction n) simp_all

lemma crc_bits_xor: "(crc_bit p ^^ n) (x XOR y) = (crc_bit p ^^ n) x XOR (crc_bit p ^^ n) y"
  by (induction n) (simp_all add: crc_bit_xor)

lemma crc_bits_low:
  assumes "n \<le> 8" and "\<And>i. 8 \<le> i \<Longrightarrow> \<not> bit x i"
  shows "(crc_bit p ^^ n) x = push_bit n x"
  using assms(1)
proof (induction n)
  case 0
  then show ?case by simp
next
  case (Suc n)
  then have "\<not> bit (push_bit n x) 15"
    using assms(2) [of "15 - n"] by (auto simp: bit_push_bit_iff)
  with Suc show ?case
    by (simp add: crc_bit_def)
qed

lemma split_high_low: "x = push_bit 8 (drop_bit 8 x) XOR take_bit 8 (x :: 16 word)"
  by (rule bit_word_eqI) (auto simp: bit_xor_iff bit_push_bit_iff bit_drop_bit_eq bit_take_bit_iff)

text \<open>The table lemma: eight rounds are one lookup and one shift.\<close>

lemma crc_byte_table:
  "crc_byte p r b = (crc_bit p ^^ 8) (push_bit 8 (ucast b XOR drop_bit 8 r)) XOR push_bit 8 r"
proof -
  have "r XOR push_bit 8 (ucast b) = push_bit 8 (ucast b XOR drop_bit 8 r) XOR take_bit 8 r"
    by (rule bit_word_eqI)
      (auto simp: bit_xor_iff bit_push_bit_iff bit_drop_bit_eq bit_take_bit_iff)
  moreover have "(crc_bit p ^^ 8) (take_bit 8 r) = push_bit 8 (take_bit 8 r)"
    by (rule crc_bits_low) (simp_all add: bit_take_bit_iff)
  moreover have "push_bit 8 (take_bit 8 r) = push_bit 8 r"
    by (rule bit_word_eqI) (auto simp: bit_push_bit_iff bit_take_bit_iff)
  ultimately show ?thesis
    by (simp add: crc_byte_def crc_bits_xor)
qed

subsection \<open>The interface of a lookup table\<close>

locale crc_table =
  fixes poly :: "16 word"
    and tab :: "int list"
  assumes table_length: "length tab = 256"
    and table_entry: "i < 256 \<Longrightarrow> tab ! i = uint ((crc_bit poly ^^ 8) (push_bit 8 (of_nat i)))"
begin

lemma table_lookup:
  "py_index err tab (uint (b :: byte)) = Inr (uint ((crc_bit poly ^^ 8) (push_bit 8 (ucast b))))"
proof -
  have "nat (uint b) < 256" using uint_byte_bounds [of b] by arith
  moreover have "(of_nat (nat (uint b)) :: 16 word) = ucast b"
    by (rule word_uint_eqI) (simp add: uint_word_of_int)
  ultimately show ?thesis
    by (simp add: py_index_pos table_length table_entry)
qed

end

text \<open>\<open>in_byte\<close> is the byte the code feeds to the division.\<close>

definition in_byte :: "Crc16 \<Rightarrow> byte \<Rightarrow> byte" where
  "in_byte self b = (if reflectData self then rev_byte b else b)"

lemma and_FF: "(x :: int) AND 0xFF = take_bit 8 x"
  by (simp add: take_bit_eq_mask mask_eq_exp_minus_1)

lemma and_FFFF: "(x :: int) AND 0xFFFF = take_bit 16 x"
  by (simp add: take_bit_eq_mask mask_eq_exp_minus_1)

lemma reflectIn_uint:
  "reflectIn self (uint b) (uint r) = uint (in_byte self b XOR ucast (drop_bit 8 (r :: 16 word)))"
proof -
  have "drop_bit (WIDTH - 8) (uint r) = uint (drop_bit 8 r)"
    by (rule bit_eqI) (auto simp: WIDTH_def bit_drop_bit_eq bit_uint_iff dest: bit_imp_le_length)
  then have "reflectIn self (uint b) (uint r) = take_bit 8 (uint (in_byte self b) XOR uint (drop_bit 8 r))"
    by (simp add: reflectIn_def in_byte_def and_FF uint_rev_byte)
  also have "\<dots> = uint (in_byte self b XOR ucast (drop_bit 8 r))"
    by (rule bit_eqI) (auto simp: bit_take_bit_iff bit_xor_iff bit_uint_iff bit_ucast_iff)
  finally show ?thesis .
qed

lemma mask_shift_uint:
  "(uint x XOR push_bit 8 (uint r)) AND 0xFFFF = uint (x XOR push_bit 8 (r :: 16 word))"
  unfolding and_FFFF
  by (rule bit_eqI) (auto simp: bit_take_bit_iff bit_xor_iff bit_uint_iff bit_push_bit_iff)

context crc_table
begin

text \<open>One round of the loop is one byte of the division.\<close>

lemma round_eq:
  "(ucast (c XOR ucast (drop_bit 8 (r :: 16 word))) :: 16 word) = ucast (c :: byte) XOR drop_bit 8 r"
  by (rule bit_word_eqI) (auto simp: bit_xor_iff bit_ucast_iff bit_drop_bit_eq dest: bit_imp_le_length)

lemma loop_serial:
  "table self = tab \<Longrightarrow> Crc16_loop self frame (uint r) =
     Inr (uint (crc_serial poly r (map (in_byte self) frame)))"
proof (induction frame arbitrary: r)
  case Nil
  then show ?case by (simp add: crc_serial_def)
next
  case (Cons b frame)
  let ?c = "in_byte self b"
  have "Crc16_loop self (b # frame) (uint r) = Crc16_loop self frame (uint (crc_byte poly r ?c))"
    using Cons.prems
    by (simp add: reflectIn_uint table_lookup round_eq mask_shift_uint crc_byte_table)
  also have "\<dots> = Inr (uint (crc_serial poly (crc_byte poly r ?c) (map (in_byte self) frame)))"
    by (rule Cons.IH) fact
  finally show ?case by (simp add: crc_serial_def)
qed

lemma call_serial:
  assumes "table self = tab" and "initalRemainder self = uint r"
  shows "Crc16_call self frame =
    Inr (reflectOut self (uint (crc_serial poly r (map (in_byte self) frame))))"
  using assms by (simp add: Crc16_call_def loop_serial)

end

lemmas table_defs = CRC16_TABLE_def CRC16_TABLE_LO_def CRC16_TABLE_HI_def
  CRC16_CCITT_TABLE_def CRC16_CCITT_TABLE_LO_def CRC16_CCITT_TABLE_HI_def

text \<open>
  A table is checked entry by entry: entry \<open>2 * i\<close> is one round of entry \<open>i\<close>, and entry
  \<open>2 * i + 1\<close> differs from it by the polynomial.
\<close>

definition crc_bit_int :: "int \<Rightarrow> int \<Rightarrow> int" where
  "crc_bit_int p r = (if 0x8000 \<le> r then (2 * r - 0x10000) XOR p else 2 * r)"

fun doubling_ok :: "int \<Rightarrow> int list \<Rightarrow> int list \<Rightarrow> bool" where
  "doubling_ok p (x # xs) (a # b # t) \<longleftrightarrow> a = crc_bit_int p x \<and> b = a XOR p \<and> doubling_ok p xs t"
| "doubling_ok p [] [] \<longleftrightarrow> True"
| "doubling_ok p _ _ \<longleftrightarrow> False"

lemma doubling_okD:
  "doubling_ok p xs t \<Longrightarrow> length t = 2 * length xs \<and>
    (\<forall>i < length xs. t ! (2 * i) = crc_bit_int p (xs ! i) \<and> t ! (2 * i + 1) = t ! (2 * i) XOR p)"
proof (induction p xs t rule: doubling_ok.induct)
  case (1 p x xs a b t)
  then show ?case
    by (auto simp: nth_Cons split: nat.splits)
qed auto

lemma crc_bit_uint: "crc_bit_int (uint p) (uint r) = uint (crc_bit p r)"
proof -
  have b: "bit r 15 \<longleftrightarrow> 0x8000 \<le> uint r"
  proof -
    have "bit r 15 \<longleftrightarrow> bit (uint r) 15"
      by (simp add: bit_uint_iff)
    then have "bit r 15 \<longleftrightarrow> odd (uint r div 32768)"
      by (simp add: bit_iff_odd)
    moreover have "uint r < 65536" "0 \<le> uint r" using uint_bounded [of r] by simp_all
    moreover have "uint r div 32768 = (if 0x8000 \<le> uint r then 1 else 0)"
      if "uint r < 65536" "0 \<le> uint r"
      using that int_div_pos_eq [of "uint r" 32768 1 "uint r - 32768"] by simp
    ultimately show ?thesis by simp
  qed
  have "uint (push_bit 1 r) = (if 0x8000 \<le> uint r then 2 * uint r - 0x10000 else 2 * uint r)"
  proof -
    have "uint (push_bit 1 r) = (2 * uint r) mod 2 ^ 16"
      by (simp add: push_bit_eq_mult uint_word_ariths mult.commute)
    moreover have "0 \<le> uint r" "uint r < 2 ^ 16" using uint_bounded [of r] by simp_all
    moreover have "(2 * uint r) mod 2 ^ 16 = 2 * uint r - 0x10000" if "0x8000 \<le> uint r"
      using that calculation(3) int_mod_pos_eq [of "2 * uint r" "2 ^ 16" 1 "2 * uint r - 0x10000"]
      by simp
    ultimately show ?thesis by (simp add: mod_pos_pos_trivial)
  qed
  with b show ?thesis
    by (simp add: crc_bit_int_def crc_bit_def unsigned_xor_eq)
qed


lemma crc_table_doubling:
  assumes t0: "t ! 0 = 0" and t1: "t ! 1 = uint p"
    and d: "doubling_ok (uint p) (take 128 t) t"
    and len: "length t = 256"
  shows "crc_table p t"
proof
  show "length t = 256" by (rule len)
  define T where "T i = (crc_bit p ^^ 8) (push_bit 8 (of_nat i))" for i
  have step: "t ! (2 * i) = crc_bit_int (uint p) (t ! i)" "t ! (2 * i + 1) = t ! (2 * i) XOR uint p"
    if "i < 128" for i
    using doubling_okD [OF d] that len by auto
  have zero: "(65536 :: 16 word) = 0" by simp
  have "T 1 = 65536 XOR p"
    by (simp add: T_def crc_bit_def eval_nat_numeral bit_push_bit_iff bit_1_iff push_bit_eq_mult)
  then have T1: "T 1 = p" by (simp only: zero xor.left_neutral)
  have Teven: "T (2 * i) = crc_bit p (T i)" if "i < 128" for i
  proof -
    have "\<not> bit (push_bit 8 (of_nat i :: 16 word)) 15"
      using that by (simp add: bit_push_bit_iff bit_of_nat_iff bit_iff_odd [of i])
    then have "push_bit 8 (of_nat (2 * i) :: 16 word) = crc_bit p (push_bit 8 (of_nat i))"
      by (simp add: crc_bit_def push_bit_eq_mult)
    then show ?thesis by (simp add: T_def funpow_swap1)
  qed
  have Todd: "T (2 * i + 1) = T (2 * i) XOR p" if "i < 128" for i
  proof -
    have "(of_nat (2 * i + 1) :: 16 word) = of_nat (2 * i) XOR 1"
      by (simp add: xor_one_eq)
    then show ?thesis using T1 by (simp add: T_def crc_bits_xor)
  qed
  have "t ! i = uint (T i)" if "i < 256" for i
    using that
  proof (induction i rule: less_induct)
    case (less i)
    define j where "j = i div 2"
    have j: "j < 128" and i: "i = 2 * j \<or> i = 2 * j + 1"
      using less.prems by (auto simp: j_def)
    show ?case
    proof (cases "i = 0")
      case True
      then show ?thesis using t0 by (simp add: T_def)
    next
      case False
      then have "t ! j = uint (T j)" using less.IH [of j] less.prems by (simp add: j_def)
      then show ?thesis
        using i step [OF j] Teven [OF j] Todd [OF j] by (auto simp: crc_bit_uint unsigned_xor_eq)
    qed
  qed
  then show "t ! i = uint ((crc_bit p ^^ 8) (push_bit 8 (of_nat i)))" if "i < 256" for i
    using that by (simp add: T_def)
qed

lemma CRC16_is_table: "crc_table 0x8005 CRC16_TABLE"
  by (rule crc_table_doubling) (simp_all add: table_defs crc_bit_int_def)

lemma CRC16_CCITT_is_table: "crc_table 0x1021 CRC16_CCITT_TABLE"
  by (rule crc_table_doubling) (simp_all add: table_defs crc_bit_int_def)

interpretation ibm: crc_table "0x8005" CRC16_TABLE
  by (rule CRC16_is_table)

interpretation ccitt: crc_table "0x1021" CRC16_CCITT_TABLE
  by (rule CRC16_CCITT_is_table)

subsection \<open>Burst errors\<close>

lemma xor_right_cancel: "x XOR z = y XOR z \<longleftrightarrow> x = y" for x :: "16 word"
proof
  assume "x XOR z = y XOR z"
  then have "(x XOR z) XOR z = (y XOR z) XOR z" by (rule arg_cong)
  then show "x = y" by (simp add: xor.assoc)
qed simp

lemma xor_left_cancel: "z XOR x = z XOR y \<longleftrightarrow> x = y" for x :: "16 word"
  using xor_right_cancel [of x z y] by (simp only: xor.commute)

lemma crc_bit_inject:
  assumes "bit p 0" and "crc_bit p x = crc_bit p y"
  shows "x = y"
proof -
  define z where "z = x XOR y"
  have z: "crc_bit p z = 0"
    using assms(2) by (simp add: z_def crc_bit_xor)
  have top: "\<not> bit z 15"
  proof
    assume "bit z 15"
    then have "bit (crc_bit p z) 0"
      using assms(1) bit_push_bit_iff [of 1 z 0]
      by (simp only: crc_bit_def bit_xor_iff if_True) simp
    with z show False by simp
  qed
  with z have shift: "push_bit 1 z = 0" by (simp add: crc_bit_def split: if_splits)
  have "\<not> bit z i" if "i < 16" for i
  proof (cases "i = 15")
    case True
    with top show ?thesis by simp
  next
    case False
    from shift have "\<not> bit (push_bit 1 z) (Suc i)" by (metis bit_0_eq bot_apply bot_bool_def)
    with that False show ?thesis by (simp only: bit_push_bit_iff) simp
  qed
  then have "z = 0" by (intro bit_word_eqI) simp
  then show ?thesis using xor_right_cancel [of x y y] by (simp add: z_def)
qed

lemma crc_bits_inject: "bit p 0 \<Longrightarrow> (crc_bit p ^^ n) x = (crc_bit p ^^ n) y \<Longrightarrow> x = y"
  by (induction n) (auto dest: crc_bit_inject)

lemma crc_serial_inject: "bit p 0 \<Longrightarrow> crc_serial p x frame = crc_serial p y frame \<Longrightarrow> x = y"
proof (induction frame arbitrary: x y)
  case Nil
  then show ?case by (simp add: crc_serial_def)
next
  case (Cons b frame)
  then have "crc_byte p x b = crc_byte p y b"
    by (simp add: crc_serial_def)
  with Cons.prems(1) have "x XOR push_bit 8 (ucast b) = y XOR push_bit 8 (ucast b)"
    unfolding crc_byte_def by (rule crc_bits_inject)
  then show ?case by (simp only: xor_right_cancel)
qed

text \<open>Two bytes enter the division as one 16-bit word.\<close>

lemma crc_two_bytes:
  "crc_byte p (crc_byte p r a) b = (crc_bit p ^^ 16) (r XOR (push_bit 8 (ucast a) XOR ucast b))"
proof -
  have "push_bit 8 (ucast b) = (crc_bit p ^^ 8) (ucast b)"
    by (rule crc_bits_low [symmetric]) (auto simp: bit_ucast_iff dest: bit_imp_le_length)
  then have "crc_byte p (crc_byte p r a) b
      = (crc_bit p ^^ 8) ((crc_bit p ^^ 8) (r XOR (push_bit 8 (ucast a) XOR ucast b)))"
    by (simp only: crc_byte_def crc_bits_xor xor.assoc)
  then show ?thesis
    using funpow_add [of 8 8 "crc_bit p"] by simp
qed

lemma two_bytes_inject:
  assumes "push_bit 8 (ucast a) XOR ucast b = (push_bit 8 (ucast c) XOR ucast d :: 16 word)"
  shows "a = (c :: byte) \<and> b = (d :: byte)"
proof
  have high: "bit (push_bit 8 (ucast x) XOR ucast y :: 16 word) (i + 8) \<longleftrightarrow> bit x i"
    if "i < 8" for i and x y :: byte
    using that by (auto simp: bit_xor_iff bit_push_bit_iff bit_ucast_iff dest: bit_imp_le_length)
  have low: "bit (push_bit 8 (ucast x) XOR ucast y :: 16 word) i \<longleftrightarrow> bit y i"
    if "i < 8" for i and x y :: byte
    using that by (auto simp: bit_xor_iff bit_push_bit_iff bit_ucast_iff dest: bit_imp_le_length)
  show "a = c"
    using high [of _ a b] high [of _ c d] assms by (intro bit_word_eqI) auto
  show "b = d"
    using low [of _ a b] low [of _ c d] assms by (intro bit_word_eqI) auto
qed

lemma crc_serial_burst:
  assumes "bit p 0" and "(a, b) \<noteq> (c, d)"
  shows "crc_serial p r (xs @ [a, b] @ ys) \<noteq> crc_serial p r (xs @ [c, d] @ ys)"
proof
  define s where "s = crc_serial p r xs"
  assume "crc_serial p r (xs @ [a, b] @ ys) = crc_serial p r (xs @ [c, d] @ ys)"
  then have "crc_serial p (crc_byte p (crc_byte p s a) b) ys
      = crc_serial p (crc_byte p (crc_byte p s c) d) ys"
    by (simp add: crc_serial_def s_def)
  from crc_serial_inject [OF assms(1) this]
  have "(crc_bit p ^^ 16) (s XOR (push_bit 8 (ucast a) XOR ucast b))
      = (crc_bit p ^^ 16) (s XOR (push_bit 8 (ucast c) XOR ucast d))"
    by (simp only: crc_two_bytes)
  from crc_bits_inject [OF assms(1) this]
  have "push_bit 8 (ucast a) XOR ucast b = (push_bit 8 (ucast c) XOR ucast d :: 16 word)"
    by (simp only: xor_left_cancel)
  from two_bytes_inject [OF this] assms(2) show False by simp
qed

lemma in_byte_simps [simp]: "in_byte CRC16 = rev_byte" "in_byte CRC16_CCITT = (\<lambda>b. b)"
  by (simp_all add: in_byte_def fun_eq_iff CRC16_def CRC16_CCITT_def)

lemma Crc16_call_CRC16:
  "Crc16_call CRC16 frame = Inr (reflect (uint (crc_serial 0x8005 0 (map rev_byte frame))) 16)"
  using ibm.call_serial [of CRC16 0 frame] by (simp add: reflectOut_def) (simp add: CRC16_def)

lemma Crc16_call_CCITT:
  "Crc16_call CRC16_CCITT frame = Inr (uint (crc_serial 0x1021 0xFFFF frame))"
  using ccitt.call_serial [of CRC16_CCITT "0xFFFF" frame]
  by (simp add: reflectOut_def) (simp add: CRC16_CCITT_def)

lemma reflect_inject: "reflect (uint x) 16 = reflect (uint y) 16 \<Longrightarrow> x = (y :: 16 word)"
proof (rule word_uint_eqI)
  assume "reflect (uint x) 16 = reflect (uint y) 16"
  then have "take_bit 16 (uint x) = take_bit 16 (uint y)" by (metis reflect_reflect)
  then show "uint x = uint y"
    using uint_bounded [of x] uint_bounded [of y] by (simp add: take_bit_int_eq_self)
qed

lemma poly_odd [simp]: "bit (0x8005 :: 16 word) 0" "bit (0x1021 :: 16 word) 0"
  by simp_all

lemma burst_changes_crc:
  assumes "(a, b) \<noteq> (c, d)"
  shows "Crc16_call CRC16 (xs @ [a, b] @ ys) \<noteq> Crc16_call CRC16 (xs @ [c, d] @ ys)"
    and "Crc16_call CRC16_CCITT (xs @ [a, b] @ ys) \<noteq> Crc16_call CRC16_CCITT (xs @ [c, d] @ ys)"
proof -
  have "(rev_byte a, rev_byte b) \<noteq> (rev_byte c, rev_byte d)"
    using assms by (metis prod.inject rev_byte_rev_byte)
  from crc_serial_burst [OF poly_odd(1) this]
  show "Crc16_call CRC16 (xs @ [a, b] @ ys) \<noteq> Crc16_call CRC16 (xs @ [c, d] @ ys)"
    by (auto simp: Crc16_call_CRC16 dest: reflect_inject)
  from crc_serial_burst [OF poly_odd(2) assms]
  show "Crc16_call CRC16_CCITT (xs @ [a, b] @ ys) \<noteq> Crc16_call CRC16_CCITT (xs @ [c, d] @ ys)"
    by (simp only: Crc16_call_CCITT sum.inject word_uint_eq_iff [symmetric] not_False_eq_True)
qed

subsection \<open>Sums\<close>

lemma le_int_zeros [simp]: "le_int (bs @ replicate k 0) = le_int bs"
proof (induction bs)
  case Nil
  show ?case by (induction k) simp_all
qed simp_all

lemma struct_unpack_Little: "length bs = n \<Longrightarrow> struct_unpack Little n bs = Inr (le_int bs)"
  by (simp add: struct_unpack_def)

text \<open>Padding adds zero bytes at the most significant end of the last word only.\<close>

lemma padded_words:
  assumes "0 < n"
  shows "rmap (struct_unpack Little n) (chunks n (pad_to_word_size frame n 0))
    = Inr (map le_int (chunks n frame))"
  using assms
proof (induction n frame rule: chunks.induct)
  case (1 n frame)
  consider "frame = []" | "frame \<noteq> []" "length frame < n" | "frame \<noteq> []" "n \<le> length frame"
    by linarith
  then show ?case
  proof cases
    case 1
    then show ?thesis by (simp add: pad_to_word_size_def)
  next
    case 2
    then have "n - length frame < n" and "length frame mod n = length frame"
      by (cases frame, simp_all)
    then have "pad_to_word_size frame n 0 = frame @ replicate (n - length frame) 0"
      by (simp add: pad_to_word_size_def Let_def del: diff_less)
    moreover from 2 have "chunks n (frame @ replicate (n - length frame) 0)
        = [frame @ replicate (n - length frame) 0]"
      by (simp add: chunks_Cons)
    moreover from 2 have "chunks n frame = [frame]" by (simp add: chunks_Cons)
    ultimately show ?thesis using 2 by (simp add: struct_unpack_Little)
  next
    case 3
    then have mod: "length frame mod n = length (drop n frame) mod n"
      by (simp add: le_mod_geq)
    have "pad_to_word_size frame n 0 = take n frame @ pad_to_word_size (drop n frame) n 0"
      unfolding pad_to_word_size_def Let_def mod by simp
    moreover have "length (take n frame) = n" using 3 by simp
    ultimately have "chunks n (pad_to_word_size frame n 0)
        = take n frame # chunks n (pad_to_word_size (drop n frame) n 0)"
      using "1.prems" by (simp add: chunks_append)
    with 1 3 show ?thesis by (simp add: chunks_Cons struct_unpack_Little)
  qed
qed

lemma wordSum_words:
  assumes "step = 2 \<or> step = 4" and "m \<noteq> 0"
  shows "wordSum m step frame = Inr (sum_list (map le_int (chunks (nat step) frame)) mod m)"
  using assms padded_words [of "nat step" frame] by (auto simp: wordSum_def py_mod_def)

lemma chunks_concat:
  "0 < n \<Longrightarrow> n dvd length xs \<Longrightarrow> chunks n (xs @ ys) = chunks n xs @ chunks n ys"
proof (induction n xs rule: chunks.induct)
  case (1 n xs)
  show ?case
  proof (cases "xs = []")
    case False
    with 1 have "n \<le> length xs" by (auto dest: dvd_imp_le)
    with 1 False show ?thesis by (simp add: chunks_Cons dvd_minus_self)
  qed simp
qed

subsection \<open>The methods by name\<close>

text \<open>The width in bits of the checksum of each method that is supported.\<close>

definition checksum_bits :: "(string \<times> nat) list" where
  "checksum_bits = [(''XCP_ADD_11'', 8), (''XCP_ADD_12'', 16), (''XCP_ADD_14'', 32),
     (''XCP_ADD_22'', 16), (''XCP_ADD_24'', 32), (''XCP_ADD_44'', 32),
     (''XCP_CRC_16'', 16), (''XCP_CRC_16_CITT'', 16), (''XCP_CRC_32'', 32)]"

lemma adder_eq: "m \<noteq> 0 \<Longrightarrow> adder m frame = Inr (sum_list (map uint frame) mod m)"
  by (simp add: adder_def py_mod_def)

lemma CRC32_bounds: "0 \<le> CRC32 x" "CRC32 x < 2 ^ 32"
proof -
  have "CRC32 x = take_bit 32 (zlib_crc32 x)"
    by (simp add: CRC32_def take_bit_eq_mask mask_eq_exp_minus_1)
  then show "0 \<le> CRC32 x" "CRC32 x < 2 ^ 32"
    using take_bit_int_less_exp [of 32 "zlib_crc32 x"] by simp_all
qed

lemma crc16_bounds:
  "\<exists>v. Crc16_call CRC16 frame = Inr v \<and> 0 \<le> v \<and> v < 2 ^ 16"
  "\<exists>v. Crc16_call CRC16_CCITT frame = Inr v \<and> 0 \<le> v \<and> v < 2 ^ 16"
  using reflect_bounds [of _ 16] uint_bounded [of "crc_serial 0x1021 0xFFFF frame"]
  by (simp_all add: Crc16_call_CRC16 Crc16_call_CCITT)

text \<open>The outcome of \<open>check\<close> on every branch.\<close>

definition check_outcome_ok :: "algo_ref \<Rightarrow> int result \<Rightarrow> bool" where
  "check_outcome_ok algo r = (case algo of
     AlgoCode _ \<Rightarrow> r = Inl NotImplementedError
   | AlgoName n \<Rightarrow> (case map_of checksum_bits n of
         Some w \<Rightarrow> (case r of Inr v \<Rightarrow> 0 \<le> v \<and> v < 2 ^ w | Inl _ \<Rightarrow> False)
       | None \<Rightarrow> r = Inl (if n = ''XCP_USER_DEFINED'' then NotImplementedError else ValueError)))"

lemma check_known:
  assumes "map_of checksum_bits n = Some w"
  shows "\<exists>v. check frame (AlgoName n) = Inr v \<and> 0 \<le> v \<and> v < 2 ^ w"
  using assms crc16_bounds [of frame] CRC32_bounds [of frame]
  by (auto simp: checksum_bits_def check_def ALGO_def ADD11_def ADD12_def ADD14_def ADD22_def
      ADD24_def ADD44_def adder_eq wordSum_words split: if_splits)

lemma check_unknown:
  "map_of checksum_bits n = None \<Longrightarrow> check frame (AlgoName n)
     = Inl (if n = ''XCP_USER_DEFINED'' then NotImplementedError else ValueError)"
  by (auto simp: checksum_bits_def check_def ALGO_def userDefined_def split: if_splits)

section \<open>Properties\<close>

text \<open>
  C14. The two table-driven CRCs are the bit-serial division by the polynomials 0x8005 (input and
  remainder reflected, initial value 0) and 0x1021 (not reflected, initial value 0xFFFF); no frame
  makes the table lookup fail.
\<close>

theorem crc16_is_polynomial_division:
  "Crc16_call CRC16 frame = Inr (reflect (uint (crc_serial 0x8005 0 (map rev_byte frame))) 16)
   \<and> Crc16_call CRC16_CCITT frame = Inr (uint (crc_serial 0x1021 0xFFFF frame))"
  by (simp add: Crc16_call_CRC16 Crc16_call_CCITT)

text \<open>
  A memory image that differs from the one the slave summed in two adjacent bytes (a burst of
  up to sixteen bits) is rejected by \<open>validate_checksum\<close> with either CRC-16 method.
\<close>

theorem validate_detects_burst:
  assumes "algo = ''XCP_CRC_16'' \<or> algo = ''XCP_CRC_16_CITT''"
    and "checksumType cs = Some (AlgoName algo)"
    and "validate_checksum (xs @ [a, b] @ ys) cs = Inr True"
    and "(a, b) \<noteq> (c, d)"
  shows "validate_checksum (xs @ [c, d] @ ys) cs = Inr False"
proof -
  have "check f (AlgoName algo) =
      Crc16_call (if algo = ''XCP_CRC_16'' then CRC16 else CRC16_CCITT) f" for f
    using assms(1) by (auto simp: check_def ALGO_def)
  then show ?thesis
    using assms burst_changes_crc [OF assms(4), of xs ys]
      crc16_bounds [of "xs @ [a, b] @ ys"] crc16_bounds [of "xs @ [c, d] @ ys"]
    by (auto simp: validate_checksum_def rbind_Inr_iff split: option.splits)
qed

theorem validate_detects_burst_witness:
  "validate_checksum ([0x31, 0x32] @ [0x33, 0x44] @ [0x35])
     \<lparr>checksumType = Some (AlgoName ''XCP_CRC_16_CITT''),
      checksum = Some (uint (crc_serial 0x1021 0xFFFF ([0x31, 0x32] @ [0x33, 0x34] @ [0x35])))\<rparr>
   = Inr False"
  by (rule validate_detects_burst [where algo = "''XCP_CRC_16_CITT''" and a = "0x33" and b = "0x34"])
    (simp_all add: validate_checksum_def check_def ALGO_def Crc16_call_CCITT)

text \<open>
  The word sums are the sum of the frame's little-endian words, a short last word read as if
  zeros followed it, modulo the modulus; and summing a frame in two parts at a word boundary adds
  the two sums.
\<close>

theorem wordSum_is_word_sum:
  assumes "step = 2 \<or> step = 4" and "m \<noteq> 0"
  shows "wordSum m step frame = Inr (sum_list (map le_int (chunks (nat step) frame)) mod m)
    \<and> (step dvd int (length frame) \<longrightarrow> wordSum m step (frame @ rest) =
        rbind (wordSum m step frame) (\<lambda>u. rbind (wordSum m step rest) (\<lambda>v. py_mod (u + v) m)))"
proof -
  have "chunks (nat step) (frame @ rest) = chunks (nat step) frame @ chunks (nat step) rest"
    if "step dvd int (length frame)"
    using assms that by (intro chunks_concat) (auto simp: nat_dvd_iff)
  then show ?thesis
    using assms by (simp add: wordSum_words py_mod_def mod_add_eq)
qed

theorem wordSum_is_word_sum_witness:
  "wordSum (2 ^ 16) 2 [1, 2, 3, 4] = Inr 0x0604 \<and> wordSum (2 ^ 16) 2 [0xFF, 0xFF, 2] = Inr 1"
  using wordSum_is_word_sum [of 2 "2 ^ 16" "[1, 2, 3, 4]" "[]"]
    wordSum_is_word_sum [of 2 "2 ^ 16" "[0xFF, 0xFF, 2]" "[]"]
  by (simp add: chunks_Cons)

text \<open>
  Every branch of \<open>check\<close>: the nine supported methods return a checksum that fits their width,
  the user-defined method and a method code without a name raise \<open>NotImplementedError\<close>, and any
  other name raises \<open>ValueError\<close>.
\<close>

theorem check_outcome: "check_outcome_ok algo (check frame algo)"
proof (cases algo)
  case (AlgoName n)
  show ?thesis
  proof (cases "map_of checksum_bits n")
    case None
    with AlgoName check_unknown [OF None, of frame] show ?thesis
      by (simp add: check_outcome_ok_def)
  next
    case (Some w)
    from check_known [OF Some, of frame] obtain v where
      "check frame (AlgoName n) = Inr v" "0 \<le> v" "v < 2 ^ w" by blast
    with AlgoName Some show ?thesis by (simp add: check_outcome_ok_def)
  qed
next
  case (AlgoCode c)
  then show ?thesis by (simp add: check_outcome_ok_def check_def)
qed

end
