(* ===== verification/Error_Matrix.thy ===== *)
theory Error_Matrix
  imports Xcp_Types
begin

text \<open>
  \<open>pyxcp/errormatrix.py\<close>: for every command and every error code the slave may answer with (or
  the time-out), the pre-actions and the action that the XCP specification prescribes. The
  dictionary is an association list in the order of the source; an entry that is a tuple is
  \<open>Many\<close>, a single member \<open>One\<close>.
\<close>

datatype PreAction = PRE_NONE | PRE_WAIT_T7 | PRE_SYNCH | PRE_GET_SEED_UNLOCK | PRE_SET_MTA
  | PRE_SET_DAQ_PTR | PRE_START_STOP_X | PRE_REINIT_DAQ | PRE_DISPLAY_ERROR | PRE_DOWNLOAD
  | PRE_PROGRAM | PRE_UPLOAD | PRE_UNLOCK_SLAVE

datatype Action = ACT_NONE | ACT_DISPLAY_ERROR | ACT_RETRY_SYNTAX | ACT_RETRY_PARAM | ACT_USE_A2L
  | ACT_USE_ALTERATIVE | ACT_REPEAT | ACT_REPEAT_2_TIMES | ACT_REPEAT_INF_TIMES
  | ACT_RESTART_SESSION | ACT_TERMINATE_SESSION | ACT_SKIP | ACT_NEW_FLASH_WARE

datatype Severity = S0 | S1 | S2 | S3

text \<open>A tuple of members, or one member; \<open>actionIter\<close> walks both.\<close>

datatype 'a actions = One 'a | Many "'a list"

type_synonym matrix_row = "(XcpError \<times> PreAction actions \<times> Action actions) list"
type_synonym error_matrix = "(command \<times> matrix_row) list"

definition ERROR_TABLE :: "(XcpError \<times> string \<times> Severity) list" where
  "ERROR_TABLE = [
     (ERR_CMD_SYNCH, ''Command processor synchronization.'', S0),
     (ERR_CMD_BUSY, ''Command was not executed.'', S2),
     (ERR_DAQ_ACTIVE, ''Command rejected because DAQ is running.'', S2),
     (ERR_PGM_ACTIVE, ''Command rejected because PGM is running.'', S2),
     (ERR_CMD_UNKNOWN, ''Unknown command or not implemented optional command.'', S2),
     (ERR_CMD_SYNTAX, ''Command syntax invalid'', S2),
     (ERR_OUT_OF_RANGE, ''Command syntax valid but command parameter(s) out of range.'', S2),
     (ERR_WRITE_PROTECTED, ''The memory location is write protected.'', S2),
     (ERR_ACCESS_DENIED, ''The memory location is not accessible.'', S2),
     (ERR_ACCESS_LOCKED, ''Access denied, Seed & Key is required'', S2),
     (ERR_PAGE_NOT_VALID, ''Selected page not available'', S2),
     (ERR_MODE_NOT_VALID, ''Selected page mode not available'', S2),
     (ERR_SEGMENT_NOT_VALID, ''Selected segment not valid'', S2),
     (ERR_SEQUENCE, ''Sequence error'', S2),
     (ERR_DAQ_CONFIG, ''DAQ configuration not valid'', S2),
     (ERR_MEMORY_OVERFLOW, ''Memory overflow error'', S2),
     (ERR_GENERIC, ''Generic error.'', S2),
     (ERR_VERIFY, ''The slave internal program verify routine detects an error.'', S3),
     (ERR_RESOURCE_TEMPORARY_NOT_ACCESSIBLE, ''Access to the requested resource is temporary not possible'', S2)]"

definition ERROR_MATRIX_STD_1 :: "error_matrix" where
  "ERROR_MATRIX_STD_1 = [
     (CONNECT, [
        (ERR_TIMEOUT, Many [PRE_NONE], One ACT_REPEAT_INF_TIMES),
        (ERR_RESOURCE_TEMPORARY_NOT_ACCESSIBLE, One PRE_DISPLAY_ERROR, One ACT_REPEAT)]),
     (DISCONNECT, [
        (ERR_TIMEOUT, Many [PRE_SYNCH], One ACT_REPEAT_2_TIMES),
        (ERR_CMD_BUSY, One PRE_WAIT_T7, One ACT_REPEAT_INF_TIMES),
        (ERR_PGM_ACTIVE, One PRE_WAIT_T7, One ACT_REPEAT_INF_TIMES)]),
     (GET_STATUS, [
        (ERR_TIMEOUT, Many [PRE_SYNCH], One ACT_REPEAT_2_TIMES),
        (ERR_RESOURCE_TEMPORARY_NOT_ACCESSIBLE, One PRE_DISPLAY_ERROR, One ACT_REPEAT)]),
     (SYNCH, [
        (ERR_TIMEOUT, Many [PRE_NONE], One ACT_REPEAT_2_TIMES),
        (ERR_CMD_SYNCH, One PRE_NONE, One ACT_SKIP),
        (ERR_CMD_UNKNOWN, One PRE_NONE, One ACT_RESTART_SESSION),
        (ERR_RESOURCE_TEMPORARY_NOT_ACCESSIBLE, One PRE_DISPLAY_ERROR, One ACT_REPEAT)]),
     (GET_COMM_MODE_INFO, [
        (ERR_TIMEOUT, Many [PRE_SYNCH], One ACT_REPEAT_2_TIMES),
        (ERR_CMD_BUSY, One PRE_WAIT_T7, One ACT_REPEAT_INF_TIMES),
        (ERR_CMD_UNKNOWN, One PRE_NONE, One ACT_DISPLAY_ERROR),
        (ERR_CMD_SYNTAX, One PRE_NONE, One ACT_RETRY_SYNTAX),
        (ERR_RESOURCE_TEMPORARY_NOT_ACCESSIBLE, One PRE_NONE, One ACT_SKIP)]),
     (GET_ID, [
        (ERR_TIMEOUT, Many [PRE_SYNCH], One ACT_REPEAT_2_TIMES),
        (ERR_CMD_BUSY, One PRE_WAIT_T7, One ACT_REPEAT_INF_TIMES),
        (ERR_CMD_UNKNOWN, One PRE_NONE, One ACT_DISPLAY_ERROR),
        (ERR_CMD_SYNTAX, One PRE_NONE, One ACT_RETRY_SYNTAX),
        (ERR_OUT_OF_RANGE, One PRE_NONE, One ACT_RETRY_PARAM),
        (ERR_RESOURCE_TEMPORARY_NOT_ACCESSIBLE, One PRE_NONE, One ACT_SKIP)]),
     (SET_REQUEST, [
        (ERR_TIMEOUT, Many [PRE_SYNCH], One ACT_REPEAT_2_TIMES),
        (ERR_CMD_BUSY, One PRE_WAIT_T7, One ACT_REPEAT_INF_TIMES),
        (ERR_PGM_ACTIVE, One PRE_WAIT_T7, One ACT_REPEAT_INF_TIMES),
        (ERR_CMD_UNKNOWN, One PRE_NONE, One ACT_DISPLAY_ERROR),
        (ERR_CMD_SYNTAX, One PRE_NONE, One ACT_RETRY_SYNTAX),
        (ERR_OUT_OF_RANGE, One PRE_NONE, One ACT_RETRY_PARAM),
        (ERR_RESOURCE_TEMPORARY_NOT_ACCESSIBLE, One PRE_DISPLAY_ERROR, One ACT_REPEAT)]),
     (GET_SEED, [
        (ERR_TIMEOUT, Many [PRE_SYNCH], One ACT_REPEAT_2_TIMES),
        (ERR_CMD_BUSY, One PRE_WAIT_T7, One ACT_REPEAT_INF_TIMES),
        (ERR_PGM_ACTIVE, One PRE_WAIT_T7, One ACT_REPEAT_INF_TIMES),
        (ERR_CMD_UNKNOWN, One PRE_NONE, One ACT_DISPLAY_ERROR),
        (ERR_CMD_SYNTAX, One PRE_NONE, One ACT_RETRY_SYNTAX),
        (ERR_OUT_OF_RANGE, One PRE_NONE, One ACT_RETRY_PARAM),
        (ERR_RESOURCE_TEMPORARY_NOT_ACCESSIBLE, One PRE_DISPLAY_ERROR, One ACT_REPEAT)]),
     (UNLOCK, [
        (ERR_TIMEOUT, Many [PRE_SYNCH], One ACT_REPEAT_2_TIMES),
        (ERR_CMD_BUSY, One PRE_WAIT_T7, One ACT_REPEAT_INF_TIMES),
        (ERR_PGM_ACTIVE, One PRE_WAIT_T7, One ACT_REPEAT_INF_TIMES),
        (ERR_CMD_UNKNOWN, One PRE_NONE, One ACT_DISPLAY_ERROR),
        (ERR_CMD_SYNTAX, One PRE_NONE, One ACT_RETRY_SYNTAX),
        (ERR_OUT_OF_RANGE, One PRE_NONE, One ACT_RETRY_PARAM),
        (ERR_ACCESS_LOCKED, One PRE_NONE, One ACT_RESTART_SESSION),
        (ERR_SEQUENCE, One PRE_GET_SEED_UNLOCK, One ACT_REPEAT_2_TIMES),
        (ERR_RESOURCE_TEMPORARY_NOT_ACCESSIBLE, One PRE_DISPLAY_ERROR, One ACT_REPEAT)])]"

definition ERROR_MATRIX_STD_2 :: "error_matrix" where
  "ERROR_MATRIX_STD_2 = [
     (SET_MTA, [
        (ERR_TIMEOUT, Many [PRE_SYNCH], One ACT_REPEAT_2_TIMES),
        (ERR_CMD_BUSY, One PRE_WAIT_T7, One ACT_REPEAT_INF_TIMES),
        (ERR_PGM_ACTIVE, One PRE_WAIT_T7, One ACT_REPEAT_INF_TIMES),
        (ERR_CMD_UNKNOWN, One PRE_NONE, One ACT_DISPLAY_ERROR),
        (ERR_CMD_SYNTAX, One PRE_NONE, One ACT_RETRY_SYNTAX),
        (ERR_OUT_OF_RANGE, One PRE_NONE, One ACT_RETRY_PARAM),
        (ERR_RESOURCE_TEMPORARY_NOT_ACCESSIBLE, One PRE_DISPLAY_ERROR, One ACT_REPEAT)]),
     (UPLOAD, [
        (ERR_TIMEOUT, Many [PRE_SYNCH, PRE_SET_MTA], One ACT_REPEAT_2_TIMES),
        (ERR_CMD_BUSY, One PRE_WAIT_T7, One ACT_REPEAT_INF_TIMES),
        (ERR_PGM_ACTIVE, One PRE_WAIT_T7, One ACT_REPEAT_INF_TIMES),
        (ERR_CMD_UNKNOWN, One PRE_NONE, One ACT_DISPLAY_ERROR),
        (ERR_CMD_SYNTAX, One PRE_NONE, One ACT_RETRY_SYNTAX),
        (ERR_OUT_OF_RANGE, One PRE_NONE, One ACT_RETRY_PARAM),
        (ERR_ACCESS_DENIED, One PRE_NONE, One ACT_DISPLAY_ERROR),
        (ERR_ACCESS_LOCKED, One PRE_UNLOCK_SLAVE, One ACT_REPEAT_2_TIMES),
        (ERR_RESOURCE_TEMPORARY_NOT_ACCESSIBLE, One PRE_DISPLAY_ERROR, One ACT_REPEAT)]),
     (SHORT_UPLOAD, [
        (ERR_TIMEOUT, Many [PRE_SYNCH], One ACT_REPEAT_2_TIMES),
        (ERR_CMD_BUSY, One PRE_WAIT_T7, One ACT_REPEAT_INF_TIMES),
        (ERR_PGM_ACTIVE, One PRE_WAIT_T7, One ACT_REPEAT_INF_TIMES),
        (ERR_CMD_UNKNOWN, One PRE_NONE, One ACT_USE_ALTERATIVE),
        (ERR_CMD_SYNTAX, One PRE_NONE, One ACT_RETRY_SYNTAX),
        (ERR_OUT_OF_RANGE, One PRE_NONE, One ACT_RETRY_PARAM),
        (ERR_ACCESS_DENIED, One PRE_NONE, One ACT_DISPLAY_ERROR),
        (ERR_ACCESS_LOCKED, One PRE_UNLOCK_SLAVE, One ACT_REPEAT_2_TIMES),
        (ERR_RESOURCE_TEMPORARY_NOT_ACCESSIBLE, One PRE_DISPLAY_ERROR, One ACT_REPEAT)]),
     (BUILD_CHECKSUM, [
        (ERR_TIMEOUT, Many [PRE_SYNCH, PRE_SET_MTA], One ACT_REPEAT_2_TIMES),
        (ERR_CMD_BUSY, One PRE_WAIT_T7, One ACT_REPEAT_INF_TIMES),
        (ERR_PGM_ACTIVE, One PRE_WAIT_T7, One ACT_REPEAT_INF_TIMES),
        (ERR_CMD_UNKNOWN, One PRE_NONE, One ACT_DISPLAY_ERROR),
        (ERR_CMD_SYNTAX, One PRE_NONE, One ACT_RETRY_SYNTAX),
        (ERR_OUT_OF_RANGE, One PRE_NONE, One ACT_RETRY_PARAM),
        (ERR_ACCESS_DENIED, One PRE_NONE, One ACT_DISPLAY_ERROR),
        (ERR_ACCESS_LOCKED, One PRE_UNLOCK_SLAVE, One ACT_REPEAT_2_TIMES),
        (ERR_RESOURCE_TEMPORARY_NOT_ACCESSIBLE, One PRE_DISPLAY_ERROR, One ACT_REPEAT)]),
     (TRANSPORT_LAYER_CMD, [
        (ERR_CMD_UNKNOWN, One PRE_NONE, One ACT_DISPLAY_ERROR),
        (ERR_TIMEOUT, Many [PRE_SYNCH], One ACT_REPEAT_2_TIMES),
        (ERR_CMD_BUSY, One PRE_WAIT_T7, One ACT_REPEAT_INF_TIMES),
        (ERR_PGM_ACTIVE, One PRE_WAIT_T7, One ACT_REPEAT_INF_TIMES),
        (ERR_CMD_SYNTAX, One PRE_NONE, One ACT_RETRY_SYNTAX),
        (ERR_OUT_OF_RANGE, One PRE_NONE, One ACT_RETRY_PARAM),
        (ERR_RESOURCE_TEMPORARY_NOT_ACCESSIBLE, One PRE_DISPLAY_ERROR, One ACT_REPEAT)]),
     (USER_CMD, [
        (ERR_CMD_UNKNOWN, One PRE_NONE, One ACT_DISPLAY_ERROR),
        (ERR_TIMEOUT, Many [PRE_SYNCH], One ACT_REPEAT_2_TIMES),
        (ERR_CMD_BUSY, One PRE_WAIT_T7, One ACT_REPEAT_INF_TIMES),
        (ERR_PGM_ACTIVE, One PRE_WAIT_T7, One ACT_REPEAT_INF_TIMES),
        (ERR_CMD_SYNTAX, One PRE_NONE, One ACT_RETRY_SYNTAX),
        (ERR_OUT_OF_RANGE, One PRE_NONE, One ACT_RETRY_PARAM),
        (ERR_RESOURCE_TEMPORARY_NOT_ACCESSIBLE, One PRE_DISPLAY_ERROR, One ACT_REPEAT)])]"

definition ERROR_MATRIX_CAL_1 :: "error_matrix" where
  "ERROR_MATRIX_CAL_1 = [
     (DOWNLOAD, [
        (ERR_TIMEOUT, Many [PRE_SYNCH, PRE_SET_MTA], One ACT_REPEAT_2_TIMES),
        (ERR_CMD_BUSY, One PRE_WAIT_T7, One ACT_REPEAT_INF_TIMES),
        (ERR_PGM_ACTIVE, One PRE_WAIT_T7, One ACT_REPEAT_INF_TIMES),
        (ERR_CMD_SYNTAX, One PRE_NONE, One ACT_RETRY_SYNTAX),
        (ERR_OUT_OF_RANGE, One PRE_NONE, One ACT_RETRY_PARAM),
        (ERR_ACCESS_DENIED, One PRE_NONE, One ACT_DISPLAY_ERROR),
        (ERR_ACCESS_LOCKED, One PRE_UNLOCK_SLAVE, One ACT_REPEAT_2_TIMES),
        (ERR_WRITE_PROTECTED, One PRE_NONE, One ACT_DISPLAY_ERROR),
        (ERR_MEMORY_OVERFLOW, One PRE_NONE, One ACT_DISPLAY_ERROR),
        (ERR_RESOURCE_TEMPORARY_NOT_ACCESSIBLE, One PRE_DISPLAY_ERROR, One ACT_REPEAT)]),
     (DOWNLOAD_NEXT, [
        (ERR_TIMEOUT, Many [PRE_SYNCH, PRE_DOWNLOAD], One ACT_REPEAT_2_TIMES),
        (ERR_CMD_BUSY, One PRE_WAIT_T7, One ACT_REPEAT_INF_TIMES),
        (ERR_PGM_ACTIVE, One PRE_WAIT_T7, One ACT_REPEAT_INF_TIMES),
        (ERR_CMD_UNKNOWN, One PRE_SET_MTA, One ACT_USE_ALTERATIVE),
        (ERR_CMD_SYNTAX, One PRE_NONE, One ACT_RETRY_SYNTAX),
        (ERR_OUT_OF_RANGE, One PRE_NONE, One ACT_RETRY_PARAM),
        (ERR_ACCESS_DENIED, One PRE_NONE, One ACT_DISPLAY_ERROR),
        (ERR_ACCESS_LOCKED, One PRE_UNLOCK_SLAVE, One ACT_REPEAT_2_TIMES),
        (ERR_WRITE_PROTECTED, One PRE_NONE, One ACT_DISPLAY_ERROR),
        (ERR_MEMORY_OVERFLOW, One PRE_NONE, One ACT_DISPLAY_ERROR),
        (ERR_SEQUENCE, One PRE_SET_MTA, One ACT_REPEAT_2_TIMES),
        (ERR_RESOURCE_TEMPORARY_NOT_ACCESSIBLE, One PRE_DISPLAY_ERROR, One ACT_REPEAT)]),
     (DOWNLOAD_MAX, [
        (ERR_TIMEOUT, Many [PRE_SYNCH, PRE_SET_MTA], One ACT_REPEAT_2_TIMES),
        (ERR_CMD_BUSY, One PRE_WAIT_T7, One ACT_REPEAT_INF_TIMES),
        (ERR_PGM_ACTIVE, One PRE_WAIT_T7, One ACT_REPEAT_INF_TIMES),
        (ERR_CMD_UNKNOWN, One PRE_SET_MTA, One ACT_USE_ALTERATIVE),
        (ERR_CMD_SYNTAX, One PRE_NONE, One ACT_RETRY_SYNTAX),
        (ERR_OUT_OF_RANGE, One PRE_NONE, One ACT_RETRY_PARAM),
        (ERR_ACCESS_DENIED, One PRE_NONE, One ACT_DISPLAY_ERROR),
        (ERR_ACCESS_LOCKED, One PRE_UNLOCK_SLAVE, One ACT_REPEAT_2_TIMES),
        (ERR_WRITE_PROTECTED, One PRE_NONE, One ACT_DISPLAY_ERROR),
        (ERR_MEMORY_OVERFLOW, One PRE_NONE, One ACT_DISPLAY_ERROR),
        (ERR_RESOURCE_TEMPORARY_NOT_ACCESSIBLE, One PRE_DISPLAY_ERROR, One ACT_REPEAT)]),
     (SHORT_DOWNLOAD, [
        (ERR_TIMEOUT, Many [PRE_SYNCH], One ACT_REPEAT_2_TIMES),
        (ERR_CMD_BUSY, One PRE_WAIT_T7, One ACT_REPEAT_INF_TIMES),
        (ERR_PGM_ACTIVE, One PRE_WAIT_T7, One ACT_REPEAT_INF_TIMES),
        (ERR_CMD_UNKNOWN, One PRE_NONE, One ACT_USE_ALTERATIVE),
        (ERR_CMD_SYNTAX, One PRE_NONE, One ACT_RETRY_SYNTAX),
        (ERR_OUT_OF_RANGE, One PRE_NONE, One ACT_RETRY_PARAM),
        (ERR_ACCESS_DENIED, One PRE_NONE, One ACT_DISPLAY_ERROR),
        (ERR_ACCESS_LOCKED, One PRE_UNLOCK_SLAVE, One ACT_REPEAT_2_TIMES),
        (ERR_WRITE_PROTECTED, One PRE_NONE, One ACT_DISPLAY_ERROR),
        (ERR_MEMORY_OVERFLOW, One PRE_NONE, One ACT_DISPLAY_ERROR),
        (ERR_RESOURCE_TEMPORARY_NOT_ACCESSIBLE, One PRE_DISPLAY_ERROR, One ACT_REPEAT)]),
     (MODIFY_BITS, [
        (ERR_TIMEOUT, Many [PRE_SYNCH, PRE_SET_MTA], One ACT_REPEAT_2_TIMES),
        (ERR_CMD_BUSY, One PRE_WAIT_T7, One ACT_REPEAT_INF_TIMES),
        (ERR_PGM_ACTIVE, One PRE_WAIT_T7, One ACT_REPEAT_INF_TIMES),
        (ERR_CMD_UNKNOWN, Many [PRE_UPLOAD, PRE_DOWNLOAD], One ACT_USE_ALTERATIVE),
        (ERR_CMD_SYNTAX, One PRE_NONE, One ACT_RETRY_SYNTAX),
        (ERR_OUT_OF_RANGE, One PRE_NONE, One ACT_RETRY_PARAM),
        (ERR_ACCESS_DENIED, One PRE_NONE, One ACT_DISPLAY_ERROR),
        (ERR_ACCESS_LOCKED, One PRE_UNLOCK_SLAVE, One ACT_REPEAT_2_TIMES),
        (ERR_WRITE_PROTECTED, One PRE_NONE, One ACT_DISPLAY_ERROR),
        (ERR_MEMORY_OVERFLOW, One PRE_NONE, One ACT_DISPLAY_ERROR),
        (ERR_RESOURCE_TEMPORARY_NOT_ACCESSIBLE, One PRE_DISPLAY_ERROR, One ACT_REPEAT)])]"

definition ERROR_MATRIX_CAL_2 :: "error_matrix" where
  "ERROR_MATRIX_CAL_2 = [
     (SET_CAL_PAGE, [
        (ERR_TIMEOUT, Many [PRE_SYNCH], One ACT_REPEAT_2_TIMES),
        (ERR_CMD_BUSY, One PRE_WAIT_T7, One ACT_REPEAT_INF_TIMES),
        (ERR_PGM_ACTIVE, One PRE_WAIT_T7, One ACT_REPEAT_INF_TIMES),
        (ERR_CMD_SYNTAX, One PRE_NONE, One ACT_RETRY_SYNTAX),
        (ERR_ACCESS_LOCKED, One PRE_UNLOCK_SLAVE, One ACT_REPEAT_2_TIMES),
        (ERR_PAGE_NOT_VALID, One PRE_NONE, One ACT_RETRY_PARAM),
        (ERR_MODE_NOT_VALID, One PRE_NONE, One ACT_RETRY_PARAM),
        (ERR_SEGMENT_NOT_VALID, One PRE_NONE, One ACT_RETRY_PARAM),
        (ERR_RESOURCE_TEMPORARY_NOT_ACCESSIBLE, One PRE_DISPLAY_ERROR, One ACT_REPEAT)]),
     (GET_CAL_PAGE, [
        (ERR_TIMEOUT, Many [PRE_SYNCH], One ACT_REPEAT_2_TIMES),
        (ERR_CMD_BUSY, One PRE_WAIT_T7, One ACT_REPEAT_INF_TIMES),
        (ERR_PGM_ACTIVE, One PRE_WAIT_T7, One ACT_REPEAT_INF_TIMES),
        (ERR_CMD_SYNTAX, One PRE_NONE, One ACT_RETRY_SYNTAX),
        (ERR_ACCESS_LOCKED, One PRE_UNLOCK_SLAVE, One ACT_REPEAT_2_TIMES),
        (ERR_PAGE_NOT_VALID, One PRE_NONE, One ACT_RETRY_PARAM),
        (ERR_MODE_NOT_VALID, One PRE_NONE, One ACT_RETRY_PARAM),
        (ERR_SEGMENT_NOT_VALID, One PRE_NONE, One ACT_RETRY_PARAM),
        (ERR_RESOURCE_TEMPORARY_NOT_ACCESSIBLE, One PRE_DISPLAY_ERROR, One ACT_REPEAT)]),
     (GET_PAG_PROCESSOR_INFO, [
        (ERR_TIMEOUT, Many [PRE_SYNCH], One ACT_REPEAT_2_TIMES),
        (ERR_CMD_BUSY, One PRE_WAIT_T7, One ACT_REPEAT_INF_TIMES),
        (ERR_PGM_ACTIVE, One PRE_WAIT_T7, One ACT_REPEAT_INF_TIMES),
        (ERR_CMD_UNKNOWN, One PRE_NONE, One ACT_USE_A2L),
        (ERR_CMD_SYNTAX, One PRE_NONE, One ACT_RETRY_SYNTAX),
        (ERR_ACCESS_LOCKED, One PRE_UNLOCK_SLAVE, One ACT_REPEAT_2_TIMES),
        (ERR_RESOURCE_TEMPORARY_NOT_ACCESSIBLE, One PRE_NONE, One ACT_SKIP)]),
     (GET_SEGMENT_INFO, [
        (ERR_TIMEOUT, Many [PRE_SYNCH], One ACT_REPEAT_2_TIMES),
        (ERR_CMD_BUSY, One PRE_WAIT_T7, One ACT_REPEAT_INF_TIMES),
        (ERR_PGM_ACTIVE, One PRE_WAIT_T7, One ACT_REPEAT_INF_TIMES),
        (ERR_CMD_UNKNOWN, One PRE_NONE, One ACT_USE_A2L),
        (ERR_CMD_SYNTAX, One PRE_NONE, One ACT_RETRY_SYNTAX),
        (ERR_OUT_OF_RANGE, One PRE_NONE, One ACT_RETRY_PARAM),
        (ERR_ACCESS_LOCKED, One PRE_UNLOCK_SLAVE, One ACT_REPEAT_2_TIMES),
        (ERR_SEGMENT_NOT_VALID, One PRE_NONE, One ACT_RETRY_PARAM),
        (ERR_RESOURCE_TEMPORARY_NOT_ACCESSIBLE, One PRE_NONE, One ACT_SKIP)]),
     (GET_PAGE_INFO, [
        (ERR_TIMEOUT, Many [PRE_SYNCH], One ACT_REPEAT_2_TIMES),
        (ERR_CMD_BUSY, One PRE_WAIT_T7, One ACT_REPEAT_INF_TIMES),
        (ERR_PGM_ACTIVE, One PRE_WAIT_T7, One ACT_REPEAT_INF_TIMES),
        (ERR_CMD_UNKNOWN, One PRE_NONE, One ACT_USE_A2L),
        (ERR_CMD_SYNTAX, One PRE_NONE, One ACT_RETRY_SYNTAX),
        (ERR_ACCESS_LOCKED, One PRE_UNLOCK_SLAVE, One ACT_REPEAT_2_TIMES),
        (ERR_PAGE_NOT_VALID, One PRE_NONE, One ACT_RETRY_PARAM),
        (ERR_SEGMENT_NOT_VALID, One PRE_NONE, One ACT_RETRY_PARAM),
        (ERR_RESOURCE_TEMPORARY_NOT_ACCESSIBLE, One PRE_NONE, One ACT_SKIP)]),
     (SET_SEGMENT_MODE, [
        (ERR_TIMEOUT, Many [PRE_SYNCH], One ACT_REPEAT_2_TIMES),
        (ERR_CMD_BUSY, One PRE_WAIT_T7, One ACT_REPEAT_INF_TIMES),
        (ERR_PGM_ACTIVE, One PRE_WAIT_T7, One ACT_REPEAT_INF_TIMES),
        (ERR_CMD_UNKNOWN, One PRE_NONE, One ACT_DISPLAY_ERROR),
        (ERR_CMD_SYNTAX, One PRE_NONE, One ACT_RETRY_SYNTAX),
        (ERR_ACCESS_LOCKED, One PRE_UNLOCK_SLAVE, One ACT_REPEAT_2_TIMES),
        (ERR_MODE_NOT_VALID, One PRE_NONE, One ACT_RETRY_PARAM),
        (ERR_SEGMENT_NOT_VALID, One PRE_NONE, One ACT_RETRY_PARAM),
        (ERR_RESOURCE_TEMPORARY_NOT_ACCESSIBLE, One PRE_DISPLAY_ERROR, One ACT_REPEAT)]),
     (GET_SEGMENT_MODE, [
        (ERR_TIMEOUT, Many [PRE_SYNCH], One ACT_REPEAT_2_TIMES),
        (ERR_CMD_BUSY, One PRE_WAIT_T7, One ACT_REPEAT_INF_TIMES),
        (ERR_PGM_ACTIVE, One PRE_WAIT_T7, One ACT_REPEAT_INF_TIMES),
        (ERR_CMD_UNKNOWN, One PRE_NONE, One ACT_DISPLAY_ERROR),
        (ERR_CMD_SYNTAX, One PRE_NONE, One ACT_RETRY_SYNTAX),
        (ERR_ACCESS_LOCKED, One PRE_UNLOCK_SLAVE, One ACT_REPEAT_2_TIMES),
        (ERR_SEGMENT_NOT_VALID, One PRE_NONE, One ACT_RETRY_PARAM),
        (ERR_RESOURCE_TEMPORARY_NOT_ACCESSIBLE, One PRE_DISPLAY_ERROR, One ACT_REPEAT)]),
     (COPY_CAL_PAGE, [
        (ERR_TIMEOUT, Many [PRE_SYNCH], One ACT_REPEAT_2_TIMES),
        (ERR_CMD_BUSY, One PRE_WAIT_T7, One ACT_REPEAT_INF_TIMES),
        (ERR_PGM_ACTIVE, One PRE_WAIT_T7, One ACT_REPEAT_INF_TIMES),
        (ERR_CMD_UNKNOWN, One PRE_NONE, One ACT_DISPLAY_ERROR),
        (ERR_CMD_SYNTAX, One PRE_NONE, One ACT_RETRY_SYNTAX),
        (ERR_ACCESS_LOCKED, One PRE_UNLOCK_SLAVE, One ACT_REPEAT_2_TIMES),
        (ERR_PAGE_NOT_VALID, One PRE_NONE, One ACT_RETRY_PARAM),
        (ERR_SEGMENT_NOT_VALID, One PRE_NONE, One ACT_RETRY_PARAM),
        (ERR_RESOURCE_TEMPORARY_NOT_ACCESSIBLE, One PRE_DISPLAY_ERROR, One ACT_REPEAT)])]"

definition ERROR_MATRIX_DAQ_1 :: "error_matrix" where
  "ERROR_MATRIX_DAQ_1 = [
     (SET_DAQ_PTR, [
        (ERR_TIMEOUT, Many [PRE_SYNCH], One ACT_REPEAT_2_TIMES),
        (ERR_CMD_BUSY, One PRE_WAIT_T7, One ACT_REPEAT_INF_TIMES),
        (ERR_DAQ_ACTIVE, One PRE_NONE, One ACT_REPEAT_2_TIMES),
        (ERR_PGM_ACTIVE, One PRE_WAIT_T7, One ACT_REPEAT_INF_TIMES),
        (ERR_CMD_SYNTAX, One PRE_NONE, One ACT_RETRY_SYNTAX),
        (ERR_OUT_OF_RANGE, One PRE_NONE, One ACT_RETRY_PARAM),
        (ERR_ACCESS_LOCKED, One PRE_UNLOCK_SLAVE, One ACT_REPEAT_2_TIMES),
        (ERR_RESOURCE_TEMPORARY_NOT_ACCESSIBLE, One PRE_DISPLAY_ERROR, One ACT_REPEAT)]),
     (WRITE_DAQ, [
        (ERR_TIMEOUT, Many [PRE_SYNCH, PRE_SET_DAQ_PTR], One ACT_REPEAT_2_TIMES),
        (ERR_CMD_BUSY, One PRE_WAIT_T7, One ACT_REPEAT_INF_TIMES),
        (ERR_DAQ_ACTIVE, One PRE_START_STOP_X, One ACT_REPEAT_2_TIMES),
        (ERR_PGM_ACTIVE, One PRE_WAIT_T7, One ACT_REPEAT_INF_TIMES),
        (ERR_CMD_SYNTAX, One PRE_NONE, One ACT_RETRY_SYNTAX),
        (ERR_OUT_OF_RANGE, One PRE_NONE, One ACT_RETRY_PARAM),
        (ERR_ACCESS_DENIED, One PRE_NONE, One ACT_DISPLAY_ERROR),
        (ERR_ACCESS_LOCKED, One PRE_UNLOCK_SLAVE, One ACT_REPEAT_2_TIMES),
        (ERR_WRITE_PROTECTED, One PRE_NONE, One ACT_DISPLAY_ERROR),
        (ERR_DAQ_CONFIG, One PRE_NONE, One ACT_DISPLAY_ERROR),
        (ERR_RESOURCE_TEMPORARY_NOT_ACCESSIBLE, One PRE_DISPLAY_ERROR, One ACT_REPEAT)]),
     (SET_DAQ_LIST_MODE, [
        (ERR_TIMEOUT, Many [PRE_SYNCH], One ACT_REPEAT_2_TIMES),
        (ERR_CMD_BUSY, One PRE_WAIT_T7, One ACT_REPEAT_INF_TIMES),
        (ERR_DAQ_ACTIVE, One PRE_START_STOP_X, One ACT_REPEAT_2_TIMES),
        (ERR_PGM_ACTIVE, One PRE_WAIT_T7, One ACT_REPEAT_INF_TIMES),
        (ERR_CMD_SYNTAX, One PRE_NONE, One ACT_RETRY_SYNTAX),
        (ERR_OUT_OF_RANGE, One PRE_NONE, One ACT_RETRY_PARAM),
        (ERR_ACCESS_LOCKED, One PRE_UNLOCK_SLAVE, One ACT_REPEAT_2_TIMES),
        (ERR_MODE_NOT_VALID, One PRE_NONE, One ACT_RETRY_PARAM),
        (ERR_RESOURCE_TEMPORARY_NOT_ACCESSIBLE, One PRE_DISPLAY_ERROR, One ACT_REPEAT)]),
     (START_STOP_DAQ_LIST, [
        (ERR_TIMEOUT, Many [PRE_SYNCH], One ACT_REPEAT_2_TIMES),
        (ERR_CMD_BUSY, One PRE_WAIT_T7, One ACT_REPEAT_INF_TIMES),
        (ERR_PGM_ACTIVE, One PRE_WAIT_T7, One ACT_REPEAT_INF_TIMES),
        (ERR_CMD_SYNTAX, One PRE_NONE, One ACT_RETRY_SYNTAX),
        (ERR_OUT_OF_RANGE, One PRE_NONE, One ACT_RETRY_PARAM),
        (ERR_ACCESS_LOCKED, One PRE_UNLOCK_SLAVE, One ACT_REPEAT_2_TIMES),
        (ERR_MODE_NOT_VALID, One PRE_NONE, One ACT_RETRY_PARAM),
        (ERR_DAQ_CONFIG, One PRE_NONE, One ACT_DISPLAY_ERROR),
        (ERR_RESOURCE_TEMPORARY_NOT_ACCESSIBLE, One PRE_DISPLAY_ERROR, One ACT_REPEAT)]),
     (START_STOP_SYNCH, [
        (ERR_TIMEOUT, Many [PRE_SYNCH], One ACT_REPEAT_2_TIMES),
        (ERR_CMD_BUSY, One PRE_WAIT_T7, One ACT_REPEAT_INF_TIMES),
        (ERR_PGM_ACTIVE, One PRE_WAIT_T7, One ACT_REPEAT_INF_TIMES),
        (ERR_CMD_SYNTAX, One PRE_NONE, One ACT_RETRY_SYNTAX),
        (ERR_ACCESS_LOCKED, One PRE_UNLOCK_SLAVE, One ACT_REPEAT_2_TIMES),
        (ERR_MODE_NOT_VALID, One PRE_NONE, One ACT_RETRY_PARAM),
        (ERR_DAQ_CONFIG, One PRE_NONE, One ACT_DISPLAY_ERROR),
        (ERR_RESOURCE_TEMPORARY_NOT_ACCESSIBLE, One PRE_DISPLAY_ERROR, One ACT_REPEAT)]),
     (CLEAR_DAQ_LIST, [
        (ERR_TIMEOUT, Many [PRE_SYNCH], One ACT_REPEAT_2_TIMES),
        (ERR_CMD_BUSY, One PRE_WAIT_T7, One ACT_REPEAT_INF_TIMES),
        (ERR_PGM_ACTIVE, One PRE_WAIT_T7, One ACT_REPEAT_INF_TIMES),
        (ERR_CMD_SYNTAX, One PRE_NONE, One ACT_RETRY_SYNTAX),
        (ERR_OUT_OF_RANGE, One PRE_NONE, One ACT_RETRY_PARAM),
        (ERR_ACCESS_DENIED, One PRE_NONE, One ACT_DISPLAY_ERROR),
        (ERR_ACCESS_LOCKED, One PRE_UNLOCK_SLAVE, One ACT_REPEAT_2_TIMES),
        (ERR_RESOURCE_TEMPORARY_NOT_ACCESSIBLE, One PRE_DISPLAY_ERROR, One ACT_REPEAT)]),
     (GET_DAQ_LIST_INFO, [
        (ERR_TIMEOUT, Many [PRE_SYNCH], One ACT_REPEAT_2_TIMES),
        (ERR_CMD_BUSY, One PRE_WAIT_T7, One ACT_REPEAT_INF_TIMES),
        (ERR_PGM_ACTIVE, One PRE_WAIT_T7, One ACT_REPEAT_INF_TIMES),
        (ERR_CMD_UNKNOWN, One PRE_NONE, One ACT_USE_A2L),
        (ERR_CMD_SYNTAX, One PRE_NONE, One ACT_RETRY_SYNTAX),
        (ERR_OUT_OF_RANGE, One PRE_NONE, One ACT_RETRY_PARAM),
        (ERR_ACCESS_LOCKED, One PRE_UNLOCK_SLAVE, One ACT_REPEAT_2_TIMES),
        (ERR_RESOURCE_TEMPORARY_NOT_ACCESSIBLE, One PRE_NONE, One ACT_SKIP)]),
     (WRITE_DAQ_MULTIPLE, [
        (ERR_TIMEOUT, Many [PRE_SYNCH, PRE_SET_DAQ_PTR], One ACT_REPEAT_2_TIMES),
        (ERR_CMD_UNKNOWN, One PRE_NONE, One ACT_DISPLAY_ERROR),
        (ERR_CMD_BUSY, One PRE_WAIT_T7, One ACT_REPEAT_INF_TIMES),
        (ERR_DAQ_ACTIVE, One PRE_START_STOP_X, One ACT_REPEAT_2_TIMES),
        (ERR_PGM_ACTIVE, One PRE_WAIT_T7, One ACT_REPEAT_INF_TIMES),
        (ERR_CMD_SYNTAX, One PRE_NONE, One ACT_RETRY_SYNTAX),
        (ERR_OUT_OF_RANGE, One PRE_NONE, One ACT_RETRY_PARAM),
        (ERR_ACCESS_DENIED, One PRE_NONE, One ACT_DISPLAY_ERROR),
        (ERR_ACCESS_LOCKED, One PRE_UNLOCK_SLAVE, One ACT_REPEAT_2_TIMES),
        (ERR_WRITE_PROTECTED, One PRE_NONE, One ACT_DISPLAY_ERROR),
        (ERR_DAQ_CONFIG, One PRE_NONE, One ACT_DISPLAY_ERROR),
        (ERR_RESOURCE_TEMPORARY_NOT_ACCESSIBLE, One PRE_DISPLAY_ERROR, One ACT_REPEAT)])]"

definition ERROR_MATRIX_DAQ_2 :: "error_matrix" where
  "ERROR_MATRIX_DAQ_2 = [
     (READ_DAQ, [
        (ERR_TIMEOUT, Many [PRE_SYNCH, PRE_SET_DAQ_PTR], One ACT_REPEAT_2_TIMES),
        (ERR_CMD_BUSY, One PRE_WAIT_T7, One ACT_REPEAT_INF_TIMES),
        (ERR_PGM_ACTIVE, One PRE_WAIT_T7, One ACT_REPEAT_INF_TIMES),
        (ERR_CMD_UNKNOWN, One PRE_NONE, One ACT_DISPLAY_ERROR),
        (ERR_CMD_SYNTAX, One PRE_NONE, One ACT_RETRY_SYNTAX),
        (ERR_ACCESS_LOCKED, One PRE_UNLOCK_SLAVE, One ACT_REPEAT_2_TIMES),
        (ERR_RESOURCE_TEMPORARY_NOT_ACCESSIBLE, One PRE_DISPLAY_ERROR, One ACT_REPEAT)]),
     (GET_DAQ_CLOCK, [
        (ERR_TIMEOUT, Many [PRE_SYNCH], One ACT_REPEAT_2_TIMES),
        (ERR_CMD_BUSY, One PRE_WAIT_T7, One ACT_REPEAT_INF_TIMES),
        (ERR_PGM_ACTIVE, One PRE_WAIT_T7, One ACT_REPEAT_INF_TIMES),
        (ERR_CMD_UNKNOWN, One PRE_NONE, One ACT_DISPLAY_ERROR),
        (ERR_CMD_SYNTAX, One PRE_NONE, One ACT_RETRY_SYNTAX),
        (ERR_ACCESS_LOCKED, One PRE_UNLOCK_SLAVE, One ACT_REPEAT_2_TIMES),
        (ERR_RESOURCE_TEMPORARY_NOT_ACCESSIBLE, One PRE_NONE, One ACT_SKIP)]),
     (GET_DAQ_PROCESSOR_INFO, [
        (ERR_TIMEOUT, Many [PRE_SYNCH], One ACT_REPEAT_2_TIMES),
        (ERR_CMD_BUSY, One PRE_WAIT_T7, One ACT_REPEAT_INF_TIMES),
        (ERR_PGM_ACTIVE, One PRE_WAIT_T7, One ACT_REPEAT_INF_TIMES),
        (ERR_CMD_UNKNOWN, One PRE_NONE, One ACT_USE_A2L),
        (ERR_CMD_SYNTAX, One PRE_NONE, One ACT_RETRY_SYNTAX),
        (ERR_ACCESS_LOCKED, One PRE_UNLOCK_SLAVE, One ACT_REPEAT_2_TIMES),
        (ERR_RESOURCE_TEMPORARY_NOT_ACCESSIBLE, One PRE_NONE, One ACT_SKIP)]),
     (GET_DAQ_RESOLUTION_INFO, [
        (ERR_TIMEOUT, Many [PRE_SYNCH], One ACT_REPEAT_2_TIMES),
        (ERR_CMD_BUSY, One PRE_WAIT_T7, One ACT_REPEAT_INF_TIMES),
        (ERR_PGM_ACTIVE, One PRE_WAIT_T7, One ACT_REPEAT_INF_TIMES),
        (ERR_CMD_UNKNOWN, One PRE_NONE, One ACT_USE_A2L),
        (ERR_CMD_SYNTAX, One PRE_NONE, One ACT_RETRY_SYNTAX),
        (ERR_ACCESS_LOCKED, One PRE_UNLOCK_SLAVE, One ACT_REPEAT_2_TIMES),
        (ERR_RESOURCE_TEMPORARY_NOT_ACCESSIBLE, One PRE_NONE, One ACT_SKIP)]),
     (GET_DAQ_LIST_MODE, [
        (ERR_TIMEOUT, Many [PRE_SYNCH], One ACT_REPEAT_2_TIMES),
        (ERR_CMD_BUSY, One PRE_WAIT_T7, One ACT_REPEAT_INF_TIMES),
        (ERR_PGM_ACTIVE, One PRE_WAIT_T7, One ACT_REPEAT_INF_TIMES),
        (ERR_CMD_SYNTAX, One PRE_NONE, One ACT_RETRY_SYNTAX),
        (ERR_OUT_OF_RANGE, One PRE_NONE, One ACT_RETRY_PARAM),
        (ERR_ACCESS_LOCKED, One PRE_UNLOCK_SLAVE, One ACT_REPEAT_2_TIMES),
        (ERR_RESOURCE_TEMPORARY_NOT_ACCESSIBLE, One PRE_DISPLAY_ERROR, One ACT_REPEAT)]),
     (GET_DAQ_EVENT_INFO, [
        (ERR_TIMEOUT, Many [PRE_SYNCH], One ACT_REPEAT_2_TIMES),
        (ERR_CMD_BUSY, One PRE_WAIT_T7, One ACT_REPEAT_INF_TIMES),
        (ERR_PGM_ACTIVE, One PRE_WAIT_T7, One ACT_REPEAT_INF_TIMES),
        (ERR_CMD_UNKNOWN, One PRE_NONE, One ACT_USE_A2L),
        (ERR_CMD_SYNTAX, One PRE_NONE, One ACT_RETRY_SYNTAX),
        (ERR_OUT_OF_RANGE, One PRE_NONE, One ACT_RETRY_PARAM),
        (ERR_ACCESS_LOCKED, One PRE_UNLOCK_SLAVE, One ACT_REPEAT_2_TIMES),
        (ERR_RESOURCE_TEMPORARY_NOT_ACCESSIBLE, One PRE_NONE, One ACT_SKIP)]),
     (FREE_DAQ, [
        (ERR_TIMEOUT, Many [PRE_SYNCH], One ACT_REPEAT_2_TIMES),
        (ERR_CMD_BUSY, One PRE_WAIT_T7, One ACT_REPEAT_INF_TIMES),
        (ERR_PGM_ACTIVE, One PRE_WAIT_T7, One ACT_REPEAT_INF_TIMES),
        (ERR_CMD_UNKNOWN, One PRE_NONE, One ACT_DISPLAY_ERROR),
        (ERR_CMD_SYNTAX, One PRE_NONE, One ACT_RETRY_SYNTAX),
        (ERR_ACCESS_LOCKED, One PRE_UNLOCK_SLAVE, One ACT_REPEAT_2_TIMES),
        (ERR_RESOURCE_TEMPORARY_NOT_ACCESSIBLE, One PRE_DISPLAY_ERROR, One ACT_REPEAT)]),
     (ALLOC_DAQ, [
        (ERR_TIMEOUT, Many [PRE_SYNCH], One ACT_REPEAT_2_TIMES),
        (ERR_CMD_BUSY, One PRE_WAIT_T7, One ACT_REPEAT_INF_TIMES),
        (ERR_PGM_ACTIVE, One PRE_WAIT_T7, One ACT_REPEAT_INF_TIMES),
        (ERR_CMD_UNKNOWN, One PRE_NONE, One ACT_DISPLAY_ERROR),
        (ERR_CMD_SYNTAX, One PRE_NONE, One ACT_RETRY_SYNTAX),
        (ERR_OUT_OF_RANGE, One PRE_NONE, One ACT_RETRY_PARAM),
        (ERR_ACCESS_LOCKED, One PRE_UNLOCK_SLAVE, One ACT_REPEAT_2_TIMES),
        (ERR_SEQUENCE, One PRE_REINIT_DAQ, One ACT_REPEAT_2_TIMES),
        (ERR_MEMORY_OVERFLOW, One PRE_REINIT_DAQ, One ACT_RETRY_PARAM),
        (ERR_RESOURCE_TEMPORARY_NOT_ACCESSIBLE, One PRE_DISPLAY_ERROR, One ACT_REPEAT)]),
     (ALLOC_ODT, [
        (ERR_TIMEOUT, Many [PRE_SYNCH], One ACT_REPEAT_2_TIMES),
        (ERR_CMD_BUSY, One PRE_WAIT_T7, One ACT_REPEAT_INF_TIMES),
        (ERR_PGM_ACTIVE, One PRE_WAIT_T7, One ACT_REPEAT_INF_TIMES),
        (ERR_CMD_UNKNOWN, One PRE_NONE, One ACT_DISPLAY_ERROR),
        (ERR_CMD_SYNTAX, One PRE_NONE, One ACT_RETRY_SYNTAX),
        (ERR_OUT_OF_RANGE, One PRE_NONE, One ACT_RETRY_PARAM),
        (ERR_ACCESS_LOCKED, One PRE_UNLOCK_SLAVE, One ACT_REPEAT_2_TIMES),
        (ERR_SEQUENCE, One PRE_REINIT_DAQ, One ACT_REPEAT_2_TIMES),
        (ERR_MEMORY_OVERFLOW, One PRE_REINIT_DAQ, One ACT_RETRY_PARAM),
        (ERR_RESOURCE_TEMPORARY_NOT_ACCESSIBLE, One PRE_DISPLAY_ERROR, One ACT_REPEAT)]),
     (ALLOC_ODT_ENTRY, [
        (ERR_TIMEOUT, Many [PRE_SYNCH], One ACT_REPEAT_2_TIMES),
        (ERR_CMD_BUSY, One PRE_WAIT_T7, One ACT_REPEAT_INF_TIMES),
        (ERR_PGM_ACTIVE, One PRE_WAIT_T7, One ACT_REPEAT_INF_TIMES),
        (ERR_CMD_UNKNOWN, One PRE_NONE, One ACT_DISPLAY_ERROR),
        (ERR_CMD_SYNTAX, One PRE_NONE, One ACT_RETRY_SYNTAX),
        (ERR_OUT_OF_RANGE, One PRE_NONE, One ACT_RETRY_PARAM),
        (ERR_ACCESS_LOCKED, One PRE_UNLOCK_SLAVE, One ACT_REPEAT_2_TIMES),
        (ERR_SEQUENCE, One PRE_REINIT_DAQ, One ACT_REPEAT_2_TIMES),
        (ERR_MEMORY_OVERFLOW, One PRE_REINIT_DAQ, One ACT_RETRY_PARAM),
        (ERR_RESOURCE_TEMPORARY_NOT_ACCESSIBLE, One PRE_DISPLAY_ERROR, One ACT_REPEAT)])]"

definition ERROR_MATRIX_PGM_1 :: "error_matrix" where
  "ERROR_MATRIX_PGM_1 = [
     (PROGRAM_START, [
        (ERR_TIMEOUT, Many [PRE_SYNCH], One ACT_REPEAT_2_TIMES),
        (ERR_CMD_BUSY, One PRE_WAIT_T7, One ACT_REPEAT_INF_TIMES),
        (ERR_DAQ_ACTIVE, One PRE_START_STOP_X, One ACT_REPEAT_2_TIMES),
        (ERR_CMD_SYNTAX, One PRE_NONE, One ACT_RETRY_SYNTAX),
        (ERR_ACCESS_LOCKED, One PRE_UNLOCK_SLAVE, One ACT_REPEAT_2_TIMES),
        (ERR_GENERIC, One PRE_NONE, One ACT_RESTART_SESSION),
        (ERR_RESOURCE_TEMPORARY_NOT_ACCESSIBLE, One PRE_DISPLAY_ERROR, One ACT_REPEAT)]),
     (PROGRAM_CLEAR, [
        (ERR_TIMEOUT, Many [PRE_SYNCH, PRE_SET_MTA], One ACT_REPEAT_2_TIMES),
        (ERR_CMD_BUSY, One PRE_WAIT_T7, One ACT_REPEAT_INF_TIMES),
        (ERR_CMD_SYNTAX, One PRE_NONE, One ACT_RETRY_SYNTAX),
        (ERR_OUT_OF_RANGE, One PRE_NONE, One ACT_RETRY_PARAM),
        (ERR_ACCESS_DENIED, One PRE_NONE, One ACT_DISPLAY_ERROR),
        (ERR_ACCESS_LOCKED, One PRE_UNLOCK_SLAVE, One ACT_REPEAT_2_TIMES),
        (ERR_SEQUENCE, One PRE_NONE, One ACT_REPEAT_2_TIMES),
        (ERR_RESOURCE_TEMPORARY_NOT_ACCESSIBLE, One PRE_DISPLAY_ERROR, One ACT_REPEAT)]),
     (PROGRAM, [
        (ERR_TIMEOUT, Many [PRE_SYNCH, PRE_SET_MTA], One ACT_REPEAT_2_TIMES),
        (ERR_CMD_BUSY, One PRE_WAIT_T7, One ACT_REPEAT_INF_TIMES),
        (ERR_CMD_SYNTAX, One PRE_NONE, One ACT_RETRY_SYNTAX),
        (ERR_OUT_OF_RANGE, One PRE_NONE, One ACT_RETRY_PARAM),
        (ERR_ACCESS_DENIED, One PRE_NONE, One ACT_DISPLAY_ERROR),
        (ERR_ACCESS_LOCKED, One PRE_UNLOCK_SLAVE, One ACT_REPEAT_2_TIMES),
        (ERR_SEQUENCE, One PRE_NONE, One ACT_REPEAT_2_TIMES),
        (ERR_MEMORY_OVERFLOW, One PRE_NONE, One ACT_DISPLAY_ERROR),
        (ERR_RESOURCE_TEMPORARY_NOT_ACCESSIBLE, One PRE_DISPLAY_ERROR, One ACT_REPEAT)]),
     (PROGRAM_RESET, [
        (ERR_TIMEOUT, Many [PRE_SYNCH], One ACT_REPEAT_2_TIMES),
        (ERR_CMD_BUSY, One PRE_WAIT_T7, One ACT_REPEAT_INF_TIMES),
        (ERR_PGM_ACTIVE, One PRE_WAIT_T7, One ACT_REPEAT_INF_TIMES),
        (ERR_CMD_SYNTAX, One PRE_NONE, One ACT_RETRY_SYNTAX),
        (ERR_ACCESS_LOCKED, One PRE_UNLOCK_SLAVE, One ACT_REPEAT_2_TIMES),
        (ERR_SEQUENCE, One PRE_NONE, One ACT_REPEAT_2_TIMES),
        (ERR_RESOURCE_TEMPORARY_NOT_ACCESSIBLE, One PRE_DISPLAY_ERROR, One ACT_REPEAT)]),
     (GET_PGM_PROCESSOR_INFO, [
        (ERR_TIMEOUT, Many [PRE_SYNCH], One ACT_REPEAT_2_TIMES),
        (ERR_CMD_BUSY, One PRE_WAIT_T7, One ACT_REPEAT_INF_TIMES),
        (ERR_CMD_UNKNOWN, One PRE_NONE, One ACT_USE_A2L),
        (ERR_CMD_SYNTAX, One PRE_NONE, One ACT_RETRY_SYNTAX),
        (ERR_ACCESS_LOCKED, One PRE_UNLOCK_SLAVE, One ACT_REPEAT_2_TIMES),
        (ERR_RESOURCE_TEMPORARY_NOT_ACCESSIBLE, One PRE_NONE, One ACT_SKIP)])]"

definition ERROR_MATRIX_PGM_2 :: "error_matrix" where
  "ERROR_MATRIX_PGM_2 = [
     (GET_SECTOR_INFO, [
        (ERR_TIMEOUT, Many [PRE_SYNCH], One ACT_REPEAT_2_TIMES),
        (ERR_CMD_BUSY, One PRE_WAIT_T7, One ACT_REPEAT_INF_TIMES),
        (ERR_CMD_UNKNOWN, One PRE_NONE, One ACT_USE_A2L),
        (ERR_CMD_SYNTAX, One PRE_NONE, One ACT_RETRY_SYNTAX),
        (ERR_ACCESS_LOCKED, One PRE_UNLOCK_SLAVE, One ACT_REPEAT_2_TIMES),
        (ERR_MODE_NOT_VALID, One PRE_NONE, One ACT_RETRY_PARAM),
        (ERR_SEGMENT_NOT_VALID, One PRE_NONE, One ACT_RETRY_PARAM),
        (ERR_RESOURCE_TEMPORARY_NOT_ACCESSIBLE, One PRE_NONE, One ACT_SKIP)]),
     (PROGRAM_PREPARE, [
        (ERR_TIMEOUT, Many [PRE_SYNCH, PRE_SET_MTA], One ACT_REPEAT_2_TIMES),
        (ERR_CMD_BUSY, One PRE_WAIT_T7, One ACT_REPEAT_INF_TIMES),
        (ERR_CMD_UNKNOWN, One PRE_NONE, One ACT_DISPLAY_ERROR),
        (ERR_CMD_SYNTAX, One PRE_NONE, One ACT_RETRY_SYNTAX),
        (ERR_OUT_OF_RANGE, One PRE_NONE, One ACT_RETRY_PARAM),
        (ERR_ACCESS_LOCKED, One PRE_UNLOCK_SLAVE, One ACT_REPEAT_2_TIMES),
        (ERR_SEQUENCE, One PRE_NONE, One ACT_REPEAT_2_TIMES),
        (ERR_GENERIC, One PRE_NONE, One ACT_RESTART_SESSION),
        (ERR_RESOURCE_TEMPORARY_NOT_ACCESSIBLE, One PRE_DISPLAY_ERROR, One ACT_REPEAT)]),
     (PROGRAM_FORMAT, [
        (ERR_TIMEOUT, Many [PRE_SYNCH], One ACT_REPEAT_2_TIMES),
        (ERR_CMD_BUSY, One PRE_WAIT_T7, One ACT_REPEAT_INF_TIMES),
        (ERR_CMD_UNKNOWN, One PRE_NONE, One ACT_DISPLAY_ERROR),
        (ERR_CMD_SYNTAX, One PRE_NONE, One ACT_RETRY_SYNTAX),
        (ERR_OUT_OF_RANGE, One PRE_NONE, One ACT_RETRY_PARAM),
        (ERR_ACCESS_LOCKED, One PRE_UNLOCK_SLAVE, One ACT_REPEAT_2_TIMES),
        (ERR_SEQUENCE, One PRE_NONE, One ACT_REPEAT_2_TIMES),
        (ERR_RESOURCE_TEMPORARY_NOT_ACCESSIBLE, One PRE_DISPLAY_ERROR, One ACT_REPEAT)]),
     (PROGRAM_NEXT, [
        (ERR_TIMEOUT, Many [PRE_SYNCH, PRE_PROGRAM], One ACT_REPEAT_2_TIMES),
        (ERR_CMD_BUSY, One PRE_WAIT_T7, One ACT_REPEAT_INF_TIMES),
        (ERR_CMD_UNKNOWN, One PRE_NONE, One ACT_USE_ALTERATIVE),
        (ERR_CMD_SYNTAX, One PRE_NONE, One ACT_RETRY_SYNTAX),
        (ERR_OUT_OF_RANGE, One PRE_NONE, One ACT_RETRY_PARAM),
        (ERR_ACCESS_DENIED, One PRE_NONE, One ACT_DISPLAY_ERROR),
        (ERR_ACCESS_LOCKED, One PRE_UNLOCK_SLAVE, One ACT_REPEAT_2_TIMES),
        (ERR_MEMORY_OVERFLOW, One PRE_NONE, One ACT_DISPLAY_ERROR),
        (ERR_SEQUENCE, One PRE_NONE, One ACT_REPEAT_2_TIMES),
        (ERR_RESOURCE_TEMPORARY_NOT_ACCESSIBLE, One PRE_DISPLAY_ERROR, One ACT_REPEAT)]),
     (PROGRAM_MAX, [
        (ERR_TIMEOUT, Many [PRE_SYNCH, PRE_SET_MTA], One ACT_REPEAT_2_TIMES),
        (ERR_CMD_BUSY, One PRE_WAIT_T7, One ACT_REPEAT_INF_TIMES),
        (ERR_CMD_UNKNOWN, One PRE_NONE, One ACT_USE_ALTERATIVE),
        (ERR_ACCESS_LOCKED, One PRE_UNLOCK_SLAVE, One ACT_REPEAT_2_TIMES),
        (ERR_SEQUENCE, One PRE_NONE, One ACT_REPEAT_2_TIMES),
        (ERR_MEMORY_OVERFLOW, One PRE_NONE, One ACT_DISPLAY_ERROR),
        (ERR_RESOURCE_TEMPORARY_NOT_ACCESSIBLE, One PRE_DISPLAY_ERROR, One ACT_REPEAT)]),
     (PROGRAM_VERIFY, [
        (ERR_TIMEOUT, Many [PRE_SYNCH], One ACT_REPEAT_2_TIMES),
        (ERR_CMD_BUSY, One PRE_WAIT_T7, One ACT_REPEAT_INF_TIMES),
        (ERR_CMD_UNKNOWN, One PRE_NONE, One ACT_DISPLAY_ERROR),
        (ERR_CMD_SYNTAX, One PRE_NONE, One ACT_RETRY_SYNTAX),
        (ERR_OUT_OF_RANGE, One PRE_NONE, One ACT_RETRY_PARAM),
        (ERR_ACCESS_LOCKED, One PRE_UNLOCK_SLAVE, One ACT_REPEAT_2_TIMES),
        (ERR_SEQUENCE, One PRE_NONE, One ACT_REPEAT_2_TIMES),
        (ERR_GENERIC, One PRE_NONE, One ACT_RESTART_SESSION),
        (ERR_VERIFY, One PRE_NONE, One ACT_NEW_FLASH_WARE),
        (ERR_RESOURCE_TEMPORARY_NOT_ACCESSIBLE, One PRE_DISPLAY_ERROR, One ACT_REPEAT)])]"

definition ERROR_MATRIX :: "error_matrix" where
  "ERROR_MATRIX = ERROR_MATRIX_STD_1
     @ ERROR_MATRIX_STD_2
     @ ERROR_MATRIX_CAL_1
     @ ERROR_MATRIX_CAL_2
     @ ERROR_MATRIX_DAQ_1
     @ ERROR_MATRIX_DAQ_2
     @ ERROR_MATRIX_PGM_1
     @ ERROR_MATRIX_PGM_2"

lemmas matrix_defs = ERROR_MATRIX_def ERROR_MATRIX_STD_1_def ERROR_MATRIX_STD_2_def
  ERROR_MATRIX_CAL_1_def ERROR_MATRIX_CAL_2_def ERROR_MATRIX_DAQ_1_def ERROR_MATRIX_DAQ_2_def
  ERROR_MATRIX_PGM_1_def ERROR_MATRIX_PGM_2_def

lemma distinct_matrix: "distinct (map fst ERROR_MATRIX)"
  by (simp add: matrix_defs)

end
