(* ===== verification/Error_Handler.thy ===== *)
theory Error_Handler
  imports Error_Matrix
begin

text \<open>
  \<open>pyxcp/master/errorhandler.py\<close>: the execution of a decorated command. The executor keeps a stack
  of handlers (the command, and above it the pre-actions the error matrix prescribes), executes the
  top one until the stack is empty, and bounds the repetitions. What a handler executes (the
  undecorated methods of the master) is a parameter: the record \<open>instance_ops\<close> gives it, with the
  attributes of the master that the error handling reads. Log messages, diagnostics and the pause of
  \<open>WAIT_T7\<close> are left out. The loop has fuel: \<open>None\<close> says that it has not ended within that many
  rounds.
\<close>

section \<open>Model\<close>

subsection \<open>Arguments, handlers and repeaters\<close>

text \<open>Positional arguments, and keyword arguments in the order of their names.\<close>

record 'v Arguments =
  args :: "'v list"
  kwargs :: "(string \<times> 'v) list"

definition no_arguments :: "'v Arguments" where
  "no_arguments = \<lparr>args = [], kwargs = []\<rparr>"

record 'v Function =
  fn :: string
  fn_arguments :: "'v Arguments"

text \<open>\<open>Repeater\<close>: \<open>REPEAT\<close>, \<open>REPEAT_2_TIMES\<close> and \<open>INFINITE\<close> are its class attributes.\<close>

definition REPEAT :: int where "REPEAT = 1"
definition REPEAT_2_TIMES :: int where "REPEAT_2_TIMES = 2"
definition INFINITE :: int where "INFINITE = -1"

record Repeater =
  counter :: int
  initial_value :: int
  repeater_max_retries :: "int option"

definition mk_Repeater :: "int \<Rightarrow> int option \<Rightarrow> Repeater" where
  "mk_Repeater initial max_retries = \<lparr>
     counter = (case max_retries of
         Some m \<Rightarrow> if m = INFINITE then INFINITE else m
       | None \<Rightarrow> initial),
     initial_value = initial,
     repeater_max_retries = max_retries\<rparr>"

definition repeat :: "Repeater \<Rightarrow> bool \<times> Repeater" where
  "repeat r =
     (if counter r = INFINITE then (True, r)
      else if 0 < counter r then (True, r\<lparr>counter := counter r - 1\<rparr>)
      else (False, r))"

text \<open>
  \<open>Handler\<close>; \<open>error_code\<close> is \<open>None\<close> until an error is handled. Handlers are compared by function and
  arguments (the instance is the same for all handlers of a call).
\<close>

record 'v Handler =
  func :: string
  arguments :: "'v Arguments"
  error_code :: "XcpError option"
  repeater :: "Repeater option"

definition mk_Handler :: "string \<Rightarrow> 'v Arguments \<Rightarrow> XcpError option \<Rightarrow> 'v Handler" where
  "mk_Handler f a ec = \<lparr>func = f, arguments = a, error_code = ec, repeater = None\<rparr>"

definition Handler_eq :: "'v Handler \<Rightarrow> 'v Handler \<Rightarrow> bool" where
  "Handler_eq self other \<longleftrightarrow> func self = func other \<and> arguments self = arguments other"

text \<open>\<open>HandlerStack\<close>; the head of the list is the top of the stack.\<close>

type_synonym 'v HandlerStack = "'v Handler list"

definition tos :: "'v HandlerStack \<Rightarrow> 'v Handler option" where
  "tos st = (case st of [] \<Rightarrow> None | h # _ \<Rightarrow> Some h)"

definition push :: "'v Handler \<Rightarrow> 'v HandlerStack \<Rightarrow> 'v HandlerStack" where
  "push v st = (case tos st of
      Some h \<Rightarrow> if Handler_eq v h then st else v # st
    | None \<Rightarrow> v # st)"

definition pop :: "'v HandlerStack \<Rightarrow> 'v HandlerStack" where
  "pop st = tl st"

subsection \<open>Looking up the actions\<close>

definition getErrorHandler :: "command option \<Rightarrow> matrix_row option" where
  "getErrorHandler service = Option.bind service (map_of ERROR_MATRIX)"

text \<open>A missing \<open>ERR_TIMEOUT\<close> entry is \<open>None\<close> here, and unpacking it raises \<open>TypeError\<close>.\<close>

definition getTimeoutHandler :: "command option \<Rightarrow> (PreAction actions \<times> Action actions) option result" where
  "getTimeoutHandler service =
     (case getErrorHandler service of
        None \<Rightarrow> Inl InternalError
      | Some handler \<Rightarrow> Inr (map_of handler ERR_TIMEOUT))"

definition getActions :: "command option \<Rightarrow> XcpError \<Rightarrow> (PreAction actions \<times> Action actions) result" where
  "getActions service ec =
     (if ec = ERR_TIMEOUT then
        rbind (getTimeoutHandler service) (\<lambda>h. case h of None \<Rightarrow> Inl TypeError | Some pa \<Rightarrow> Inr pa)
      else
        (case getErrorHandler service of
           None \<Rightarrow> Inl (if service = None then TypeError else InternalError)
         | Some eh \<Rightarrow>
             (case map_of eh ec of
                None \<Rightarrow> Inl (SystemExit (Some ec))
              | Some pa \<Rightarrow> Inr pa)))"

fun actionIter :: "'a actions \<Rightarrow> 'a list" where
  "actionIter (Many xs) = xs"
| "actionIter (One x) = [x]"

subsection \<open>The master seen by the error handling\<close>

text \<open>
  \<open>execute\<close> calls a method by name; \<open>mta\<close> is the address pair that \<open>setMta\<close> recorded last. The
  configuration object of the master is its general section; \<open>max_retries\<close> is what
  \<open>instance.config.general.max_retries\<close> yields, \<open>None\<close> when an attribute is missing.
\<close>

record ('s, 'v, 'r) instance_ops =
  execute :: "string \<Rightarrow> 'v Arguments \<Rightarrow> 's \<Rightarrow> 'r result \<times> 's"
  service :: "'s \<Rightarrow> command option"
  mta :: "'s \<Rightarrow> 'v list"
  connect_retries :: "int option"
  max_retries :: "int option"

text \<open>\<open>Handler.actions\<close>: the pre-actions first, then the actions, then the repeater.\<close>

fun pre_action :: "('s, 'v, 'r) instance_ops \<Rightarrow> 's \<Rightarrow> PreAction \<Rightarrow> 'v Function list result" where
  "pre_action inst s PRE_NONE = Inr []"
| "pre_action inst s PRE_WAIT_T7 = Inr []"
| "pre_action inst s PRE_SYNCH = Inr [\<lparr>fn = ''synch'', fn_arguments = no_arguments\<rparr>]"
| "pre_action inst s PRE_GET_SEED_UNLOCK = Inl NotImplementedError"
| "pre_action inst s PRE_SET_MTA =
     Inr [\<lparr>fn = ''setMta'', fn_arguments = \<lparr>args = mta inst s, kwargs = []\<rparr>\<rparr>]"
| "pre_action inst s PRE_SET_DAQ_PTR = Inr []"
| "pre_action inst s PRE_START_STOP_X = Inl NotImplementedError"
| "pre_action inst s PRE_REINIT_DAQ = Inr [\<lparr>fn = ''freeDaq'', fn_arguments = no_arguments\<rparr>]"
| "pre_action inst s PRE_DISPLAY_ERROR = Inr []"
| "pre_action inst s PRE_DOWNLOAD = Inl NotImplementedError"
| "pre_action inst s PRE_PROGRAM = Inl NotImplementedError"
| "pre_action inst s PRE_UPLOAD = Inl NotImplementedError"
| "pre_action inst s PRE_UNLOCK_SLAVE = Inl NotImplementedError"

fun action :: "XcpError option \<Rightarrow> int \<Rightarrow> Action \<Rightarrow> int result" where
  "action ec n ACT_NONE = Inr n"
| "action ec n ACT_DISPLAY_ERROR = Inl (SystemExit ec)"
| "action ec n ACT_RETRY_SYNTAX = Inl (SystemExit ec)"
| "action ec n ACT_RETRY_PARAM = Inl (SystemExit ec)"
| "action ec n ACT_USE_A2L = Inl (SystemExit ec)"
| "action ec n ACT_USE_ALTERATIVE = Inl (SystemExit ec)"
| "action ec n ACT_REPEAT = Inr REPEAT"
| "action ec n ACT_REPEAT_2_TIMES = Inr REPEAT_2_TIMES"
| "action ec n ACT_REPEAT_INF_TIMES = Inr INFINITE"
| "action ec n ACT_RESTART_SESSION = Inl (SystemExit ec)"
| "action ec n ACT_TERMINATE_SESSION = Inl (SystemExit ec)"
| "action ec n ACT_SKIP = Inr n"
| "action ec n ACT_NEW_FLASH_WARE = Inl (SystemExit ec)"

fun repetition_count :: "XcpError option \<Rightarrow> int \<Rightarrow> Action list \<Rightarrow> int result" where
  "repetition_count ec n [] = Inr n"
| "repetition_count ec n (a # as) = rbind (action ec n a) (\<lambda>n'. repetition_count ec n' as)"

definition Handler_actions ::
  "('s, 'v, 'r) instance_ops \<Rightarrow> 's \<Rightarrow> XcpError option \<Rightarrow> PreAction actions \<Rightarrow> Action actions
    \<Rightarrow> ('v Function list \<times> Repeater) result" where
  "Handler_actions inst s ec preActions actions =
     rbind (rmap (pre_action inst s) (actionIter preActions)) (\<lambda>fss.
     rbind (repetition_count ec 0 (actionIter actions)) (\<lambda>repetitionCount.
       Inr (concat fss, mk_Repeater repetitionCount (max_retries inst))))"

subsection \<open>The executor\<close>

text \<open>
  \<open>Executor()\<close> runs \<open>__init__\<close> on the one instance at every call of a decorated command, so a call
  starts from a fresh state. \<open>retries_left\<close> is the local \<open>connect_retries\<close>, \<open>world\<close> the state of the
  master and what it talks to.
\<close>

record ('s, 'v) Executor =
  handlerStack :: "'v HandlerStack"
  current_error :: "XcpError option"
  previous_error_code :: "XcpError option"
  current_func :: "string option"
  current_arguments :: "'v Arguments option"
  retries_left :: "int option"
  world :: 's

datatype ('s, 'v, 'r) outcome =
    Continue "('s, 'v) Executor"
  | Finished "'r result" "('s, 'v) Executor"

text \<open>\<open>handler.actions(*getActions(inst.service, self.error_code))\<close>\<close>

definition recovery ::
  "('s, 'v, 'r) instance_ops \<Rightarrow> 's \<Rightarrow> XcpError option \<Rightarrow> XcpError
    \<Rightarrow> ('v Function list \<times> Repeater) result" where
  "recovery inst s ec c =
     rbind (getActions (service inst s) c) (\<lambda>(preActions, actions).
       Handler_actions inst s ec preActions actions)"

definition push_all :: "XcpError \<Rightarrow> 'v Function list \<Rightarrow> 'v HandlerStack \<Rightarrow> 'v HandlerStack" where
  "push_all c fs st = fold (\<lambda>f. push (mk_Handler (fn f) (fn_arguments f) (Some c))) fs st"

text \<open>The \<open>except\<close> clauses tell a negative response and a time-out from the other exceptions.\<close>

definition response_code :: "pyexn \<Rightarrow> XcpError option" where
  "response_code e = (case e of XcpResponseError c \<Rightarrow> Some c | _ \<Rightarrow> None)"

text \<open>After the call of the handler \<open>h\<close>, with \<open>h\<close> still on the stack iff an error was recorded.\<close>

definition handle_error ::
  "('s, 'v, 'r) instance_ops \<Rightarrow> 'v Handler \<Rightarrow> ('s, 'v) Executor \<Rightarrow> ('s, 'v, 'r) outcome" where
  "handle_error inst h ex =
     (if current_error ex = Some ERR_CMD_SYNCH then Continue ex
      else case current_error ex of
        Some c \<Rightarrow>
          (case recovery inst (world ex) (error_code h) c of
             Inl e \<Rightarrow> Finished (Inl e) ex
           | Inr (preActions, rep) \<Rightarrow>
               (let rep' = (case repeater h of None \<Rightarrow> rep | Some r \<Rightarrow> r);
                    rep'' = snd (repeat rep');
                    stack = h\<lparr>repeater := Some rep''\<rparr> # tl (handlerStack ex);
                    ex' = ex\<lparr>handlerStack := push_all c (rev preActions) stack,
                       previous_error_code := Some c\<rparr>
                in if fst (repeat rep') then Continue ex'
                   else Finished (Inl UnrecoverableError) ex'))
      | None \<Rightarrow>
          (let ex' = ex\<lparr>previous_error_code := None\<rparr>
           in case repeater h of
                None \<Rightarrow> Continue ex'
              | Some rep \<Rightarrow>
                  if fst (repeat rep) then Continue ex' else Finished (Inl UnrecoverableError) ex'))"

text \<open>One round of the loop.\<close>

definition iteration ::
  "('s, 'v, 'r) instance_ops \<Rightarrow> string \<Rightarrow> ('s, 'v) Executor \<Rightarrow> ('s, 'v, 'r) outcome" where
  "iteration inst f ex =
     (case tos (handlerStack ex) of
        None \<Rightarrow> Finished (Inl AttributeError) ex
      | Some h \<Rightarrow>
          (case execute inst (func h) (arguments h) (world ex) of
             (Inr res, w) \<Rightarrow>
               (let ex' = ex\<lparr>world := w, current_error := None, handlerStack := pop (handlerStack ex)\<rparr>
                in if handlerStack ex' = [] then Finished (Inr res) ex' else handle_error inst h ex')
           | (Inl e, w) \<Rightarrow>
               (case response_code e of
                  Some c \<Rightarrow>
                    (let h' = h\<lparr>error_code := Some c\<rparr>
                     in handle_error inst h' (ex\<lparr>world := w, current_error := Some c,
                          handlerStack := h' # tl (handlerStack ex)\<rparr>))
                | None \<Rightarrow>
                    if e = XcpTimeoutError then
                      (let h' = h\<lparr>error_code := Some ERR_TIMEOUT\<rparr>;
                           ex' = ex\<lparr>world := w, current_error := Some ERR_TIMEOUT,
                              handlerStack := h' # tl (handlerStack ex)\<rparr>
                       in if f = ''connect'' \<and> retries_left ex \<noteq> None then
                            if retries_left ex = Some 0 then Finished (Inl XcpTimeoutError) ex'
                            else handle_error inst h'
                              (ex'\<lparr>retries_left := map_option (\<lambda>n. n - 1) (retries_left ex)\<rparr>)
                          else handle_error inst h' ex')
                    else Finished (Inl e) (ex\<lparr>world := w\<rparr>))))"

fun loop ::
  "('s, 'v, 'r) instance_ops \<Rightarrow> string \<Rightarrow> nat \<Rightarrow> ('s, 'v) Executor
    \<Rightarrow> ('r result \<times> ('s, 'v) Executor) option" where
  "loop inst f 0 ex = None"
| "loop inst f (Suc n) ex =
     (case iteration inst f ex of
        Continue ex' \<Rightarrow> loop inst f n ex'
      | Finished r ex' \<Rightarrow> Some (r, ex'))"

text \<open>The \<open>finally\<close> block.\<close>

definition cleanup :: "('s, 'v) Executor \<Rightarrow> ('s, 'v) Executor" where
  "cleanup ex = ex\<lparr>previous_error_code := None, handlerStack := [], current_error := None,
     current_func := None, current_arguments := None\<rparr>"

definition Executor_start ::
  "('s, 'v, 'r) instance_ops \<Rightarrow> string \<Rightarrow> 'v Arguments \<Rightarrow> 's \<Rightarrow> ('s, 'v) Executor" where
  "Executor_start inst f a w = \<lparr>handlerStack = push (mk_Handler f a None) [], current_error = None,
     previous_error_code = None, current_func = Some f, current_arguments = Some a,
     retries_left = connect_retries inst, world = w\<rparr>"

definition Executor_call ::
  "('s, 'v, 'r) instance_ops \<Rightarrow> nat \<Rightarrow> string \<Rightarrow> 'v Arguments \<Rightarrow> 's
    \<Rightarrow> ('r result \<times> ('s, 'v) Executor) option" where
  "Executor_call inst fuel f a w =
     map_option (\<lambda>(r, ex). (r, cleanup ex)) (loop inst f fuel (Executor_start inst f a w))"

text \<open>The decorator \<open>wrapped\<close>; \<open>handle_errors\<close> is the module's flag.\<close>

definition wrapped ::
  "bool \<Rightarrow> ('s, 'v, 'r) instance_ops \<Rightarrow> nat \<Rightarrow> string \<Rightarrow> 'v Arguments \<Rightarrow> 's \<Rightarrow> ('r result \<times> 's) option" where
  "wrapped handle_errors inst fuel f a w =
     (if handle_errors then map_option (\<lambda>(r, ex). (r, world ex)) (Executor_call inst fuel f a w)
      else Some (execute inst f a w))"

definition disable_error_handling :: "bool \<Rightarrow> bool" where
  "disable_error_handling v = (\<not> v)"

section \<open>Lemmas\<close>

subsection \<open>The stack\<close>

lemma push_nonempty [simp]: "push v st \<noteq> []"
  by (cases st) (auto simp: push_def tos_def)

lemma last_push: "st \<noteq> [] \<Longrightarrow> last (push v st) = last st"
  by (cases st) (auto simp: push_def tos_def)

lemma push_all_simps [simp]:
  "push_all c [] st = st"
  "push_all c (f # fs) st = push_all c fs (push (mk_Handler (fn f) (fn_arguments f) (Some c)) st)"
  by (simp_all add: push_all_def)

lemma push_all_nonempty: "st \<noteq> [] \<Longrightarrow> push_all c fs st \<noteq> []"
  by (induction fs arbitrary: st) simp_all

lemma last_push_all: "st \<noteq> [] \<Longrightarrow> last (push_all c fs st) = last st"
  by (induction fs arbitrary: st) (simp_all add: last_push)

lemma tos_simps [simp]: "tos [] = None" "tos (h # st) = Some h"
  by (simp_all add: tos_def)

lemma pop_Cons [simp]: "pop (h # st) = st"
  by (simp add: pop_def)

lemma push_empty [simp]: "push h [] = [h]"
  by (simp add: push_def)

lemma mk_Handler_sel [simp]:
  "func (mk_Handler f a ec) = f" "arguments (mk_Handler f a ec) = a"
  "error_code (mk_Handler f a ec) = ec" "repeater (mk_Handler f a ec) = None"
  by (simp_all add: mk_Handler_def)

lemma response_code_simps [simp]:
  "response_code (XcpResponseError c) = Some c" "response_code XcpTimeoutError = None"
  by (simp_all add: response_code_def)

lemma response_code_Some [simp]: "response_code e = Some c \<longleftrightarrow> e = XcpResponseError c"
  by (cases e) (simp_all add: response_code_def)

subsection \<open>The bottom of the stack is the command\<close>

definition main_bottom :: "string \<Rightarrow> 'v Arguments \<Rightarrow> ('s, 'v) Executor \<Rightarrow> bool" where
  "main_bottom f a ex \<longleftrightarrow> handlerStack ex \<noteq> []
     \<and> func (last (handlerStack ex)) = f \<and> arguments (last (handlerStack ex)) = a"

lemma main_bottom_start: "main_bottom f a (Executor_start inst f a w)"
  by (simp add: main_bottom_def Executor_start_def)

lemma handle_error_cases:
  assumes "handle_error inst h ex = out"
  obtains (synch) "current_error ex = Some ERR_CMD_SYNCH" "out = Continue ex"
  | (actions_raise) c e where "current_error ex = Some c" "out = Finished (Inl e) ex"
      "recovery inst (world ex) (error_code h) c = Inl e"
  | (repetition) c pre rep rep' ex' where "current_error ex = Some c"
      "rep' = (case repeater h of None \<Rightarrow> rep | Some r \<Rightarrow> r)"
      "ex' = ex\<lparr>handlerStack :=
         push_all c (rev pre) (h\<lparr>repeater := Some (snd (repeat rep'))\<rparr> # tl (handlerStack ex)),
         previous_error_code := Some c\<rparr>"
      "recovery inst (world ex) (error_code h) c = Inr (pre, rep)"
      "out = (if fst (repeat rep') then Continue ex' else Finished (Inl UnrecoverableError) ex')"
  | (success) "current_error ex = None"
      "out = Continue (ex\<lparr>previous_error_code := None\<rparr>)
       \<or> out = Finished (Inl UnrecoverableError) (ex\<lparr>previous_error_code := None\<rparr>)"
  using assms
  by (auto simp: handle_error_def Let_def split: if_splits option.splits sum.splits)

text \<open>What \<open>Handler.actions\<close> and the matrix lookup raise.\<close>

definition matrix_exn :: "pyexn \<Rightarrow> bool" where
  "matrix_exn e \<longleftrightarrow> e \<in> {InternalError, TypeError, NotImplementedError}
     \<or> (\<exists>c. e = SystemExit (Some c))"

lemma pre_action_exn: "pre_action inst s p = Inl e \<Longrightarrow> e = NotImplementedError"
  by (cases p) auto

lemma action_exn: "action ec n a = Inl e \<Longrightarrow> e = SystemExit ec"
  by (cases a) auto

lemma repetition_count_exn: "repetition_count ec n as = Inl e \<Longrightarrow> e = SystemExit ec"
  by (induction as arbitrary: n) (auto simp: rbind_Inl_iff dest: action_exn)

lemma rmap_exn: "rmap f xs = Inl e \<Longrightarrow> \<exists>x \<in> set xs. f x = Inl e"
  by (induction xs) (auto simp: rbind_Inl_iff)

lemma actions_exn:
  assumes "recovery inst s (Some c) c = Inl e"
  shows "matrix_exn e"
  using assms
  by (auto simp: recovery_def matrix_exn_def rbind_Inl_iff getActions_def getTimeoutHandler_def
      Handler_actions_def dest!: rmap_exn pre_action_exn repetition_count_exn
      split: if_splits option.splits)

lemma handle_error_bottom:
  assumes "handle_error inst h ex = Continue ex'" and "handlerStack ex \<noteq> []"
    and "current_error ex = None \<or> hd (handlerStack ex) = h"
  shows "handlerStack ex' \<noteq> [] \<and> func (last (handlerStack ex')) = func (last (handlerStack ex))
    \<and> arguments (last (handlerStack ex')) = arguments (last (handlerStack ex))"
  using assms(1)
proof (cases rule: handle_error_cases)
  case (repetition c pre rep rep' ex1)
  from assms(2,3) repetition(1) obtain st where "handlerStack ex = h # st"
    by (cases "handlerStack ex") auto
  with repetition show ?thesis
    by (auto simp: push_all_nonempty last_push_all split: if_splits)
qed (use assms in auto)

lemma iteration_bottom:
  assumes "main_bottom f a ex" and "iteration inst g ex = Continue ex'"
  shows "main_bottom f a ex'"
proof -
  from assms(1) obtain h st where st: "handlerStack ex = h # st"
    by (cases "handlerStack ex") (auto simp: main_bottom_def)
  show ?thesis
    using assms st
    by (auto simp: iteration_def main_bottom_def Let_def
        split: prod.splits sum.splits option.splits if_splits dest!: handle_error_bottom)
qed

lemma iteration_result:
  assumes "main_bottom f a ex" and "iteration inst g ex = Finished (Inr r) ex'"
  shows "execute inst f a (world ex) = (Inr r, world ex')"
proof -
  have no_result: "handle_error inst h e \<noteq> Finished (Inr r) e'" for h e e'
    by (auto elim: handle_error_cases split: if_splits)
  from assms(1) obtain h st where st: "handlerStack ex = h # st"
    by (cases "handlerStack ex") (auto simp: main_bottom_def)
  show ?thesis
    using assms st no_result
    by (auto simp: iteration_def main_bottom_def Let_def
        split: prod.splits sum.splits option.splits if_splits)
qed

lemma loop_result:
  "loop inst g n ex = Some (Inr r, ex') \<Longrightarrow> main_bottom f a ex
    \<Longrightarrow> \<exists>w. execute inst f a w = (Inr r, world ex')"
  by (induction n arbitrary: ex)
    (auto split: outcome.splits dest: iteration_result iteration_bottom)

lemma loop_mono: "loop inst f n ex = Some x \<Longrightarrow> n \<le> m \<Longrightarrow> loop inst f m ex = Some x"
proof (induction n arbitrary: ex m)
  case (Suc n)
  then show ?case by (cases m) (auto split: outcome.splits)
qed simp

subsection \<open>Exceptions\<close>

definition retries_enabled :: "string \<Rightarrow> ('s, 'v) Executor \<Rightarrow> bool" where
  "retries_enabled g ex \<longleftrightarrow> g = ''connect'' \<and> retries_left ex \<noteq> None"

definition transparent_exn :: "pyexn \<Rightarrow> bool" where
  "transparent_exn e \<longleftrightarrow> response_code e = None \<and> e \<noteq> XcpTimeoutError"

lemma handle_error_exn:
  assumes "handle_error inst h ex = Finished (Inl e) ex'"
    and "\<And>c. current_error ex = Some c \<Longrightarrow> error_code h = Some c"
  shows "matrix_exn e \<or> e = UnrecoverableError"
  using assms
  by (auto elim!: handle_error_cases dest: actions_exn split: if_splits)

lemma handle_error_retries:
  assumes "handle_error inst h ex = Continue ex'"
  shows "retries_left ex' = retries_left ex"
  using assms by (cases rule: handle_error_cases) (auto split: if_splits)

lemma iteration_exn:
  assumes "main_bottom f a ex" and "iteration inst g ex = Finished (Inl e) ex'"
  shows "matrix_exn e \<or> e = UnrecoverableError
    \<or> (e = XcpTimeoutError \<and> retries_enabled g ex)
    \<or> (transparent_exn e \<and> (\<exists>f' a'. execute inst f' a' (world ex) = (Inl e, world ex')))"
proof -
  from assms(1) obtain h st where st: "handlerStack ex = h # st"
    by (cases "handlerStack ex") (auto simp: main_bottom_def)
  obtain res w where res: "execute inst (func h) (arguments h) (world ex) = (res, w)"
    by fastforce
  show ?thesis
  proof (cases res)
    case (Inr r)
    with assms(2) st res show ?thesis
      by (auto simp: iteration_def Let_def split: if_splits dest!: handle_error_exn)
  next
    case (Inl e0)
    show ?thesis
    proof (cases "transparent_exn e0")
      case True
      with Inl assms(2) st res show ?thesis
        by (auto simp: iteration_def Let_def transparent_exn_def)
    next
      case False
      with Inl assms(2) st res show ?thesis
        by (auto simp: iteration_def Let_def transparent_exn_def retries_enabled_def
            split: if_splits option.splits dest!: handle_error_exn)
    qed
  qed
qed

lemma iteration_retries:
  assumes "iteration inst g ex = Continue ex'"
  shows "retries_enabled g ex' = retries_enabled g ex"
  using assms
  by (auto simp: iteration_def Let_def retries_enabled_def
      split: prod.splits sum.splits option.splits if_splits dest!: handle_error_retries) metis+

lemma loop_exn:
  assumes "loop inst g n ex = Some (Inl e, ex')" and "main_bottom f a ex"
  shows "matrix_exn e \<or> e = UnrecoverableError
    \<or> (e = XcpTimeoutError \<and> retries_enabled g ex)
    \<or> (transparent_exn e \<and> (\<exists>f' a' w. execute inst f' a' w = (Inl e, world ex')))"
  using assms
proof (induction n arbitrary: ex)
  case (Suc n)
  show ?case
  proof (cases "iteration inst g ex")
    case (Continue ex1)
    with Suc.prems have "loop inst g n ex1 = Some (Inl e, ex')" by simp
    from Suc.IH [OF this iteration_bottom [OF Suc.prems(2) Continue]] show ?thesis
      by (simp add: iteration_retries [OF Continue])
  next
    case (Finished r ex1)
    with Suc.prems have "iteration inst g ex = Finished (Inl e) ex'" by simp
    from iteration_exn [OF Suc.prems(2) this] show ?thesis by blast
  qed
qed simp

subsection \<open>Repetition\<close>

text \<open>An error of the one command on the stack whose matrix entry has no pre-action to execute.\<close>

definition error_of :: "pyexn \<Rightarrow> XcpError \<Rightarrow> bool" where
  "error_of e c \<longleftrightarrow> e = XcpResponseError c \<or> (e = XcpTimeoutError \<and> c = ERR_TIMEOUT)"

definition budget :: "Repeater \<Rightarrow> 'v Handler \<Rightarrow> Repeater" where
  "budget rep h = (case repeater h of None \<Rightarrow> rep | Some r \<Rightarrow> r)"

lemma iteration_error:
  assumes "handlerStack ex = h # st" and "execute inst (func h) (arguments h) (world ex) = (Inl e, w)"
    and "error_of e c" and "c \<noteq> ERR_CMD_SYNCH" and "\<not> retries_enabled g ex"
    and "recovery inst w (Some c) c = Inr (pre, rep)"
  shows "iteration inst g ex =
    (let ex' = ex\<lparr>world := w, current_error := Some c,
           handlerStack := push_all c (rev pre)
             (h\<lparr>error_code := Some c, repeater := Some (snd (repeat (budget rep h)))\<rparr> # st),
           previous_error_code := Some c\<rparr>
     in if fst (repeat (budget rep h)) then Continue ex' else Finished (Inl UnrecoverableError) ex')"
  using assms
  by (auto simp: iteration_def handle_error_def Let_def error_of_def budget_def retries_enabled_def)

lemma iteration_success_last:
  assumes "handlerStack ex = [h]" and "execute inst (func h) (arguments h) (world ex) = (Inr r, w)"
  shows "iteration inst g ex = Finished (Inr r) (ex\<lparr>world := w, current_error := None, handlerStack := []\<rparr>)"
  using assms by (simp add: iteration_def Let_def)

lemma iteration_success_inner:
  assumes "handlerStack ex = h # h' # st"
    and "execute inst (func h) (arguments h) (world ex) = (Inr r, w)"
  shows "iteration inst g ex =
    (let ex' = ex\<lparr>world := w, current_error := None, handlerStack := h' # st, previous_error_code := None\<rparr>
     in if repeater h = None \<or> (\<exists>rep. repeater h = Some rep \<and> fst (repeat rep)) then Continue ex'
        else Finished (Inl UnrecoverableError) ex')"
  using assms by (auto simp: iteration_def handle_error_def Let_def split: option.split)

lemma repeat_counter:
  "0 < counter r \<Longrightarrow> repeat r = (True, r\<lparr>counter := counter r - 1\<rparr>)"
  "counter r = 0 \<Longrightarrow> repeat r = (False, r)"
  "counter r = -1 \<Longrightarrow> repeat r = (True, r)"
  by (simp_all add: repeat_def INFINITE_def)

text \<open>
  The command fails with the same error until the counter \<open>cnt\<close> of the world reaches \<open>j\<close>.
\<close>

definition transient_error ::
  "('s, 'v, 'r) instance_ops \<Rightarrow> string \<Rightarrow> 'v Arguments \<Rightarrow> ('s \<Rightarrow> nat) \<Rightarrow> ('s \<Rightarrow> 's) \<Rightarrow> nat
    \<Rightarrow> XcpError \<Rightarrow> 'r \<Rightarrow> Repeater \<Rightarrow> bool" where
  "transient_error inst f a cnt tick j c r rep \<longleftrightarrow>
     c \<noteq> ERR_CMD_SYNCH
     \<and> (\<exists>e. error_of e c \<and>
          (\<forall>s. execute inst f a s = (if cnt s < j then Inl e else Inr r, tick s)))
     \<and> (\<forall>s. cnt (tick s) = Suc (cnt s))
     \<and> (\<forall>s. recovery inst s (Some c) c = Inr ([], rep))"

definition ready ::
  "string \<Rightarrow> 'v Arguments \<Rightarrow> ('s \<Rightarrow> nat) \<Rightarrow> nat \<Rightarrow> Repeater \<Rightarrow> string \<Rightarrow> int \<Rightarrow> nat
    \<Rightarrow> ('s, 'v) Executor \<Rightarrow> bool" where
  "ready f a cnt j rep g m d ex \<longleftrightarrow> (\<exists>h. handlerStack ex = [h] \<and> func h = f \<and> arguments h = a
     \<and> counter (budget rep h) = m) \<and> \<not> retries_enabled g ex \<and> j - cnt (world ex) = d"

lemma ready_success:
  assumes T: "transient_error inst f a cnt tick j c r rep" and R: "ready f a cnt j rep g m 0 ex"
  shows "\<exists>ex'. iteration inst g ex = Finished (Inr r) ex' \<and> world ex' = tick (world ex)"
proof -
  from R obtain h where h: "handlerStack ex = [h]" "func h = f" "arguments h = a"
    and "j - cnt (world ex) = 0"
    by (auto simp: ready_def)
  with T have "execute inst (func h) (arguments h) (world ex) = (Inr r, tick (world ex))"
    by (auto simp: transient_error_def)
  from iteration_success_last [OF h(1) this] show ?thesis by simp
qed

lemma ready_failure:
  assumes T: "transient_error inst f a cnt tick j c r rep" and R: "ready f a cnt j rep g m (Suc d) ex"
  shows "\<exists>b ex'. counter b = m
    \<and> iteration inst g ex = (if fst (repeat b) then Continue ex'
         else Finished (Inl UnrecoverableError) ex')
    \<and> ready f a cnt j rep g (counter (snd (repeat b))) d ex' \<and> world ex' = tick (world ex)"
proof -
  from T obtain e where err1: "error_of e c"
    and exec: "\<forall>s. execute inst f a s = (if cnt s < j then Inl e else Inr r, tick s)"
    unfolding transient_error_def by blast
  from T have err2: "c \<noteq> ERR_CMD_SYNCH" and cnt_tick: "\<And>s. cnt (tick s) = Suc (cnt s)"
    and rec: "\<And>s. recovery inst s (Some c) c = Inr ([], rep)"
    by (simp_all add: transient_error_def)
  note err = err1 err2
  from R obtain h where h: "handlerStack ex = [h]" "func h = f" "arguments h = a"
    "counter (budget rep h) = m" "\<not> retries_enabled g ex" "j - cnt (world ex) = Suc d"
    by (auto simp: ready_def)
  from h have fail: "execute inst (func h) (arguments h) (world ex) = (Inl e, tick (world ex))"
    by (simp add: exec)
  let ?h' = "h\<lparr>error_code := Some c, repeater := Some (snd (repeat (budget rep h)))\<rparr>"
  let ?ex' = "ex\<lparr>world := tick (world ex), current_error := Some c, handlerStack := [?h'],
    previous_error_code := Some c\<rparr>"
  have it: "iteration inst g ex = (if fst (repeat (budget rep h)) then Continue ?ex'
      else Finished (Inl UnrecoverableError) ?ex')"
    using iteration_error [OF h(1) fail err h(5) rec] by (simp add: Let_def)
  have "ready f a cnt j rep g (counter (snd (repeat (budget rep h)))) d ?ex'"
    using h by (auto simp: ready_def retries_enabled_def cnt_tick budget_def [of _ ?h'])
  with h(4) it show ?thesis
    by (intro exI [of _ "budget rep h"] exI [of _ ?ex']) simp
qed

text \<open>With \<open>m\<close> repetitions left, \<open>d\<close> further failures are survived iff \<open>d \<le> m\<close>.\<close>

lemma loop_recovers:
  assumes T: "transient_error inst f a cnt tick j c r rep"
  shows "ready f a cnt j rep g m d ex \<Longrightarrow> m = -1 \<or> int d \<le> m \<Longrightarrow>
    \<exists>ex'. loop inst g (Suc d) ex = Some (Inr r, ex') \<and> world ex' = (tick ^^ Suc d) (world ex)"
proof (induction d arbitrary: ex m)
  case 0
  then show ?case using ready_success [OF T] by fastforce
next
  case (Suc d)
  from ready_failure [OF T Suc.prems(1)] obtain b ex1 where b: "counter b = m"
    and it: "iteration inst g ex = (if fst (repeat b) then Continue ex1
       else Finished (Inl UnrecoverableError) ex1)"
    and ex1: "ready f a cnt j rep g (counter (snd (repeat b))) d ex1" "world ex1 = tick (world ex)"
    by blast
  from Suc.prems(2) b have again: "fst (repeat b)"
    and m: "counter (snd (repeat b)) = -1 \<or> int d \<le> counter (snd (repeat b))"
    by (auto simp: repeat_counter)
  from Suc.IH [OF ex1(1) m] ex1(2) it again show ?case
    by (auto simp: funpow_swap1)
qed

lemma loop_exhausted:
  assumes T: "transient_error inst f a cnt tick j c r rep"
  shows "ready f a cnt j rep g (int m) d ex \<Longrightarrow> m < d \<Longrightarrow>
    \<exists>ex'. loop inst g (Suc m) ex = Some (Inl UnrecoverableError, ex')
      \<and> world ex' = (tick ^^ Suc m) (world ex)"
proof (induction m arbitrary: ex d)
  case 0
  then obtain d' where "d = Suc d'" by (cases d) auto
  with 0 ready_failure [OF T, of g 0 d' ex] obtain b ex1 where
    "counter b = 0" "iteration inst g ex = (if fst (repeat b) then Continue ex1
       else Finished (Inl UnrecoverableError) ex1)" "world ex1 = tick (world ex)"
    by auto
  then show ?case by (simp add: repeat_counter)
next
  case (Suc m)
  then obtain d' where d: "d = Suc d'" by (cases d) auto
  with Suc.prems(1) have "ready f a cnt j rep g (int (Suc m)) (Suc d') ex" by simp
  from ready_failure [OF T this] obtain b ex1 where b: "counter b = int (Suc m)"
    and it: "iteration inst g ex = (if fst (repeat b) then Continue ex1
       else Finished (Inl UnrecoverableError) ex1)"
    and ex1: "ready f a cnt j rep g (counter (snd (repeat b))) d' ex1" "world ex1 = tick (world ex)"
    by blast
  from b have again: "fst (repeat b)" and "counter (snd (repeat b)) = int m"
    by (auto simp: repeat_counter)
  with ex1 have "ready f a cnt j rep g (int m) d' ex1" by simp
  from Suc.IH [OF this] d Suc.prems(2) it again ex1(2) show ?case
    by (auto simp: funpow_swap1)
qed

subsection \<open>Pre-actions\<close>

text \<open>The pre-actions executed one after the other, none of them failing.\<close>

fun exec_chain :: "('s, 'v, 'r) instance_ops \<Rightarrow> 'v Function list \<Rightarrow> 's \<Rightarrow> 's option" where
  "exec_chain inst [] w = Some w"
| "exec_chain inst (p # ps) w =
     (case execute inst (fn p) (fn_arguments p) w of
        (Inr _, w') \<Rightarrow> exec_chain inst ps w'
      | (Inl _, _) \<Rightarrow> None)"

definition handler_of :: "XcpError \<Rightarrow> 'v Function \<Rightarrow> 'v Handler" where
  "handler_of c p = mk_Handler (fn p) (fn_arguments p) (Some c)"

text \<open>No pre-action is skipped by \<open>push\<close> when neighbours differ.\<close>

fun no_repeats :: "'v Function list \<Rightarrow> 'v Function \<Rightarrow> bool" where
  "no_repeats [] q = True"
| "no_repeats [p] q = (p \<noteq> q)"
| "no_repeats (p # p' # ps) q = (p \<noteq> p' \<and> no_repeats (p' # ps) q)"

lemma push_all_append: "push_all c (xs @ ys) st = push_all c ys (push_all c xs st)"
  by (simp add: push_all_def)

lemma push_all_rev:
  "no_repeats ps \<lparr>fn = func h, fn_arguments = arguments h\<rparr> \<Longrightarrow>
    push_all c (rev ps) (h # st) = map (handler_of c) ps @ h # st"
proof (induction ps "\<lparr>fn = func h, fn_arguments = arguments h\<rparr>" rule: no_repeats.induct)
  case (2 p)
  then show ?case by (cases p) (simp add: push_def Handler_eq_def handler_of_def)
next
  case (3 p p' ps)
  then show ?case
    by (cases p; cases p') (auto simp: push_all_append push_def Handler_eq_def handler_of_def)
qed simp

lemma loop_chain:
  "exec_chain inst ps w = Some w' \<Longrightarrow> handlerStack ex = map (handler_of c) ps @ h # st
    \<Longrightarrow> world ex = w \<Longrightarrow>
    \<exists>ex'. handlerStack ex' = h # st \<and> world ex' = w' \<and> retries_left ex' = retries_left ex
      \<and> (\<forall>n. loop inst g (length ps + n) ex = loop inst g n ex')"
proof (induction ps arbitrary: ex w)
  case Nil
  then show ?case by auto
next
  case (Cons p ps)
  then obtain r w1 where run: "execute inst (fn p) (fn_arguments p) w = (Inr r, w1)"
    and rest: "exec_chain inst ps w1 = Some w'"
    by (auto split: prod.splits sum.splits)
  obtain h' st' where st': "map (handler_of c) ps @ h # st = h' # st'"
    by (cases "map (handler_of c) ps @ h # st") auto
  let ?ex = "ex\<lparr>world := w1, current_error := None, handlerStack := h' # st', previous_error_code := None\<rparr>"
  have "iteration inst g ex = Continue ?ex"
    using iteration_success_inner [of ex "handler_of c p" h' st' inst r w1 g] Cons.prems(2,3) run
    by (simp add: st') (simp add: handler_of_def)
  moreover from Cons.IH [OF rest, of ?ex] st' obtain ex' where
    "handlerStack ex' = h # st" "world ex' = w'" "retries_left ex' = retries_left ex"
    "\<And>n. loop inst g (length ps + n) ?ex = loop inst g n ex'"
    by auto
  ultimately show ?case by auto
qed

section \<open>Properties\<close>

definition clean :: "('s, 'v) Executor \<Rightarrow> bool" where
  "clean ex \<longleftrightarrow> handlerStack ex = [] \<and> current_error ex = None \<and> previous_error_code ex = None
     \<and> current_func ex = None \<and> current_arguments ex = None"

lemma clean_cleanup: "clean (cleanup ex) \<and> world (cleanup ex) = world ex"
  by (simp add: clean_def cleanup_def)

lemma Executor_callI:
  assumes "\<exists>ex'. loop inst f n (Executor_start inst f a w) = Some (r, ex') \<and> world ex' = w'"
  shows "\<exists>ex. Executor_call inst n f a w = Some (r, ex) \<and> world ex = w'"
  using assms by (auto simp: Executor_call_def clean_cleanup)

lemma world_start: "world (Executor_start inst f a w) = w"
  by (simp add: Executor_start_def)

text \<open>
  C2. What a decorated command returns is what the command's own method returned in its last
  execution (never the result of a pre-action), and every exit leaves the executor clean.
\<close>

theorem executor_returns_command_result:
  assumes "Executor_call inst fuel f a w = Some (r, ex)"
  shows "clean ex \<and> (\<forall>v. r = Inr v \<longrightarrow> (\<exists>w'. execute inst f a w' = (Inr v, world ex)))"
  using assms loop_result [OF _ main_bottom_start]
  by (auto simp: Executor_call_def clean_cleanup)

text \<open>A master for the witnesses: its first \<open>j\<close> calls raise \<open>e\<close>, the others return 42.\<close>

definition flaky :: "nat \<Rightarrow> pyexn \<Rightarrow> command \<Rightarrow> int option \<Rightarrow> (nat, int, int) instance_ops" where
  "flaky j e sv retries = \<lparr>execute = (\<lambda>f a s. (if s < j then Inl e else Inr 42, Suc s)),
     service = (\<lambda>s. Some sv), mta = (\<lambda>s. [0x1000, 0]), connect_retries = retries,
     max_retries = None\<rparr>"

lemma flaky_sel [simp]:
  "execute (flaky j e sv n) f a s = (if s < j then Inl e else Inr 42, Suc s)"
  "service (flaky j e sv n) s = Some sv" "mta (flaky j e sv n) s = [0x1000, 0]"
  "connect_retries (flaky j e sv n) = n" "max_retries (flaky j e sv n) = None"
  by (simp_all add: flaky_def)

lemmas recovery_defs = recovery_def getActions_def getTimeoutHandler_def getErrorHandler_def
  Handler_actions_def matrix_defs mk_Repeater_def REPEAT_def REPEAT_2_TIMES_def INFINITE_def

theorem executor_returns_command_result_witness:
  "\<exists>w'. execute (flaky 1 XcpTimeoutError 0xFD None) ''getStatus'' no_arguments w' = (Inr 42, 3)"
proof -
  have "\<exists>ex. Executor_call (flaky 1 XcpTimeoutError 0xFD None) 3 ''getStatus'' no_arguments 0
      = Some (Inr 42, ex) \<and> world ex = 3"
    by (simp add: Executor_call_def Executor_start_def eval_nat_numeral iteration_def
        handle_error_def recovery_defs cleanup_def repeat_def push_def Handler_eq_def)
  then show ?thesis
    using executor_returns_command_result [of "flaky 1 XcpTimeoutError 0xFD None" 3
        "''getStatus''" no_arguments 0 "Inr 42"] by auto
qed





subsection \<open>CONNECT\<close>

text \<open>
  A slave that leaves the first \<open>j\<close> CONNECT requests unanswered. The matrix repeats CONNECT without
  limit, so that only \<open>connect_retries\<close> ends the attempts.
\<close>

definition slow_slave ::
  "('s, 'v, 'r) instance_ops \<Rightarrow> 'v Arguments \<Rightarrow> ('s \<Rightarrow> nat) \<Rightarrow> ('s \<Rightarrow> 's) \<Rightarrow> nat option \<Rightarrow> 'r \<Rightarrow> bool" where
  "slow_slave inst a cnt tick j r \<longleftrightarrow>
     (\<forall>s. execute inst ''connect'' a s =
        (if j = None \<or> cnt s < the j then Inl XcpTimeoutError else Inr r, tick s))
     \<and> (\<forall>s. cnt (tick s) = Suc (cnt s))
     \<and> (\<forall>s. service inst s = Some CONNECT) \<and> max_retries inst = None"

definition connecting :: "'v Arguments \<Rightarrow> int option \<Rightarrow> ('s, 'v) Executor \<Rightarrow> bool" where
  "connecting a n ex \<longleftrightarrow> retries_left ex = n \<and> (\<exists>h. handlerStack ex = [h]
     \<and> func h = ''connect'' \<and> arguments h = a
     \<and> (\<forall>rep. repeater h = Some rep \<longrightarrow> counter rep = -1))"

lemma recovery_connect:
  "service inst s = Some CONNECT \<Longrightarrow> max_retries inst = None \<Longrightarrow>
    recovery inst s (Some ERR_TIMEOUT) ERR_TIMEOUT = Inr ([], mk_Repeater (-1) None)"
  by (simp add: recovery_defs)

lemma connecting_timeout:
  assumes S: "slow_slave inst a cnt tick j r" and C: "connecting a n ex"
    and fails: "j = None \<or> cnt (world ex) < the j"
  shows "if n = Some 0
    then \<exists>ex'. iteration inst ''connect'' ex = Finished (Inl XcpTimeoutError) ex' \<and> world ex' = tick (world ex)
    else \<exists>ex'. iteration inst ''connect'' ex = Continue ex' \<and> world ex' = tick (world ex)
      \<and> connecting a (map_option (\<lambda>k. k - 1) n) ex'"
proof -
  from C obtain h where h: "handlerStack ex = [h]" "func h = ''connect''" "arguments h = a"
    "retries_left ex = n" and rep: "\<And>rep. repeater h = Some rep \<Longrightarrow> counter rep = -1"
    by (auto simp: connecting_def)
  let ?b = "budget (mk_Repeater (-1) None) h"
  have b: "repeat ?b = (True, ?b)" and "counter ?b = -1"
    using rep by (auto simp: budget_def mk_Repeater_def repeat_def INFINITE_def split: option.split)
  moreover have "execute inst (func h) (arguments h) (world ex) = (Inl XcpTimeoutError, tick (world ex))"
    using S fails h by (simp add: slow_slave_def)
  moreover have "recovery inst (tick (world ex)) (Some ERR_TIMEOUT) ERR_TIMEOUT
      = Inr ([], mk_Repeater (-1) None)"
    using S by (intro recovery_connect) (simp_all add: slow_slave_def)
  ultimately show ?thesis
    using h by (auto simp: iteration_def handle_error_def Let_def connecting_def budget_def)
qed

lemma connecting_success:
  assumes S: "slow_slave inst a cnt tick (Some j) r" and C: "connecting a n ex"
    and "\<not> cnt (world ex) < j"
  shows "\<exists>ex'. iteration inst ''connect'' ex = Finished (Inr r) ex' \<and> world ex' = tick (world ex)"
  using assms by (auto simp: connecting_def slow_slave_def iteration_def Let_def)

lemma loop_connect:
  assumes S: "slow_slave inst a cnt tick (Some j) r"
  shows "connecting a n ex \<Longrightarrow> j - cnt (world ex) = d \<Longrightarrow> n = None \<or> n = Some (int m) \<and> d \<le> m \<Longrightarrow>
    \<exists>ex'. loop inst ''connect'' (Suc d) ex = Some (Inr r, ex') \<and> world ex' = (tick ^^ Suc d) (world ex)"
proof (induction d arbitrary: ex n m)
  case 0
  with connecting_success [OF S 0(1)] show ?case by auto
next
  case (Suc d)
  then have "n \<noteq> Some 0" and "cnt (world ex) < j" by auto
  with connecting_timeout [OF S Suc.prems(1)] obtain ex1 where
    it: "iteration inst ''connect'' ex = Continue ex1" and w: "world ex1 = tick (world ex)"
    and c: "connecting a (map_option (\<lambda>k. k - 1) n) ex1"
    by auto
  have "j - cnt (world ex1) = d" using S Suc.prems(2) w by (simp add: slow_slave_def)
  moreover have "map_option (\<lambda>k. k - 1) n = None
      \<or> map_option (\<lambda>k. k - 1) n = Some (int (m - 1)) \<and> d \<le> m - 1"
    using Suc.prems(3) by auto
  ultimately show ?case using Suc.IH [OF c] it w by (auto simp: funpow_swap1)
qed

lemma loop_connect_exhausted:
  assumes S: "slow_slave inst a cnt tick j r"
  shows "connecting a (Some (int m)) ex \<Longrightarrow> (\<forall>j'. j = Some j' \<longrightarrow> m < j' - cnt (world ex)) \<Longrightarrow>
    \<exists>ex'. loop inst ''connect'' (Suc m) ex = Some (Inl XcpTimeoutError, ex')
      \<and> world ex' = (tick ^^ Suc m) (world ex)"
proof (induction m arbitrary: ex)
  case 0
  then have "j = None \<or> cnt (world ex) < the j" by (cases j) auto
  from connecting_timeout [OF S 0(1) this] show ?case by auto
next
  case (Suc m)
  then have "j = None \<or> cnt (world ex) < the j" by (cases j) auto
  from connecting_timeout [OF S Suc.prems(1) this] obtain ex1 where
    it: "iteration inst ''connect'' ex = Continue ex1" and w: "world ex1 = tick (world ex)"
    and c: "connecting a (Some (int m)) ex1"
    by auto
  have "\<forall>j'. j = Some j' \<longrightarrow> m < j' - cnt (world ex1)"
    using S Suc.prems(2) w by (auto simp: slow_slave_def)
  from Suc.IH [OF c this] it w show ?case by (auto simp: funpow_swap1)
qed

lemma loop_connect_forever:
  assumes S: "slow_slave inst a cnt tick None r"
  shows "connecting a None ex \<Longrightarrow> loop inst ''connect'' fuel ex = None"
proof (induction fuel arbitrary: ex)
  case (Suc fuel)
  from connecting_timeout [OF S Suc.prems] Suc.IH show ?case by auto
qed simp

lemma connecting_start: "connecting a (connect_retries inst) (Executor_start inst ''connect'' a w)"
  by (simp add: connecting_def Executor_start_def)

text \<open>
  C5. \<open>connect\<close> with \<open>connect_retries = n\<close> sends exactly \<open>n + 1\<close> CONNECT requests to a slave that does
  not answer, and then raises the time-out; it succeeds when the slave answers one of them; without
  \<open>connect_retries\<close> it goes on for ever.
\<close>

theorem connect_attempts:
  assumes "slow_slave inst a cnt tick j r" and "cnt w = 0"
  shows "(\<forall>n. connect_retries inst = Some (int n) \<and> (\<forall>k. j = Some k \<longrightarrow> n < k) \<longrightarrow>
      (\<exists>ex. Executor_call inst (n + 1) ''connect'' a w = Some (Inl XcpTimeoutError, ex)
        \<and> world ex = (tick ^^ (n + 1)) w))
    \<and> (\<forall>n k. (connect_retries inst = Some (int n) \<and> k \<le> n \<or> connect_retries inst = None) \<and> j = Some k \<longrightarrow>
      (\<exists>ex. Executor_call inst (k + 1) ''connect'' a w = Some (Inr r, ex)
        \<and> world ex = (tick ^^ (k + 1)) w))
    \<and> (connect_retries inst = None \<and> j = None \<longrightarrow>
      (\<forall>fuel. Executor_call inst fuel ''connect'' a w = None))"
proof -
  note start = connecting_start [of a inst w]
  have "\<exists>ex. Executor_call inst (n + 1) ''connect'' a w = Some (Inl XcpTimeoutError, ex)
      \<and> world ex = (tick ^^ (n + 1)) w"
    if "connect_retries inst = Some (int n)" "\<forall>k. j = Some k \<longrightarrow> n < k" for n
    using loop_connect_exhausted [OF assms(1) start [unfolded that(1)]] that(2) assms(2)
    by (intro Executor_callI) (simp add: world_start del: loop.simps)
  moreover have "\<exists>ex. Executor_call inst (k + 1) ''connect'' a w = Some (Inr r, ex)
      \<and> world ex = (tick ^^ (k + 1)) w"
    if "connect_retries inst = Some (int n) \<and> k \<le> n \<or> connect_retries inst = None" "j = Some k" for n k
    using loop_connect [OF assms(1) [unfolded that(2)] start, of k n] that assms(2)
    by (intro Executor_callI) (auto simp: world_start simp del: loop.simps)
  moreover have "Executor_call inst fuel ''connect'' a w = None"
    if "connect_retries inst = None" "j = None" for fuel
    using loop_connect_forever [OF assms(1) [unfolded that(2)] start [unfolded that(1)]]
    by (simp add: Executor_call_def)
  ultimately show ?thesis by blast
qed

theorem connect_attempts_witness:
  "\<exists>ex. Executor_call (flaky 5 XcpTimeoutError 0xFF (Some 2)) 3 ''connect'' no_arguments 0
     = Some (Inl XcpTimeoutError, ex) \<and> world ex = 3"
proof -
  have "slow_slave (flaky 5 XcpTimeoutError 0xFF (Some 2)) no_arguments (\<lambda>s. s) Suc (Some 5) 42"
    by (simp add: slow_slave_def)
  from connect_attempts [OF this, of 0] show ?thesis
    by (auto dest: spec [of _ 2] simp: eval_nat_numeral)
qed

subsection \<open>Recovery\<close>


text \<open>
  The witness: an UPLOAD that times out is preceded, before its repetition, by SYNCH and by a
  SET_MTA to the address that was set last. The world records the calls.
\<close>

definition recorder :: "(string \<times> int list) list \<Rightarrow> command \<Rightarrow> ((string \<times> int list) list, int, int) instance_ops" where
  "recorder bad sv = \<lparr>execute = (\<lambda>f a s.
       (if (f, args a) \<in> set s \<or> (f, args a) \<notin> set bad then Inr 7 else Inl XcpTimeoutError,
        s @ [(f, args a)])),
     service = (\<lambda>s. Some sv), mta = (\<lambda>s. [0x1000, 0]), connect_retries = None, max_retries = None\<rparr>"


text \<open>
  The repeater of a pre-action is asked even after the pre-action has succeeded: a SYNCH
  pre-action that succeeds on the last of its two repetitions makes the whole call fail with
  \<open>UnrecoverableError\<close>, although the recovery worked and the command would be executed next.
\<close>

theorem last_preaction_repetition_is_lost:
  assumes "execute inst f a w = (Inl XcpTimeoutError, w1)" and "f \<noteq> ''connect''"
    and "f \<noteq> ''synch''"
    and "recovery inst w1 (Some ERR_TIMEOUT) ERR_TIMEOUT
      = Inr ([\<lparr>fn = ''synch'', fn_arguments = no_arguments\<rparr>], rep)" and "0 < counter rep"
    and "execute inst ''synch'' no_arguments w1 = (Inl XcpTimeoutError, w2)"
    and "execute inst ''synch'' no_arguments w2 = (Inl XcpTimeoutError, w3)"
    and "execute inst ''synch'' no_arguments w3 = (Inr r, w4)"
    and "service inst w2 = Some SYNCH" and "service inst w3 = Some SYNCH"
    and "max_retries inst = None"
  shows "\<exists>ex. Executor_call inst 4 f a w = Some (Inl UnrecoverableError, ex) \<and> world ex = w4"
proof (rule Executor_callI)
  have synch: "recovery inst s (Some ERR_TIMEOUT) ERR_TIMEOUT = Inr ([], mk_Repeater 2 None)"
    if "service inst s = Some SYNCH" for s
    using that assms(11) by (simp add: recovery_defs)
  have "counter rep \<noteq> -1" using assms(5) by simp
  then show "\<exists>ex'. loop inst f 4 (Executor_start inst f a w) = Some (Inl UnrecoverableError, ex')
      \<and> world ex' = w4"
    using assms synch [OF assms(9)] synch [OF assms(10)]
    by (simp add: Executor_start_def eval_nat_numeral iteration_def handle_error_def Let_def
        push_def Handler_eq_def repeat_def INFINITE_def mk_Repeater_def)
qed

definition flaky_getId :: "(nat, int, int) instance_ops" where
  "flaky_getId = (flaky 3 XcpTimeoutError 0xFC None)
     \<lparr>service := (\<lambda>s. Some (if s = 1 then GET_ID else SYNCH))\<rparr>"

theorem last_preaction_repetition_is_lost_witness:
  "\<exists>ex. Executor_call flaky_getId 4 ''getId'' no_arguments 0 = Some (Inl UnrecoverableError, ex)
     \<and> world ex = 4"
  by (rule last_preaction_repetition_is_lost
        [of flaky_getId "''getId''" no_arguments 0 1 "mk_Repeater 2 None" 2 3 42 4])
    (simp_all add: flaky_getId_def flaky_def recovery_defs)

subsection \<open>The matrix\<close>

text \<open>The commands the slave may be sent although the matrix does not know them.\<close>

definition unhandled_commands :: "command list" where
  "unhandled_commands = [GET_VERSION, DTO_CTR_PROPERTIES, SET_DAQ_PACKED_MODE, GET_DAQ_PACKED_MODE,
     TIME_CORRELATION_PROPERTIES] @ filter (\<lambda>c. 0xC0FC00 \<le> c) Command"

lemma matrix_commands: "map fst ERROR_MATRIX =
    [CONNECT, DISCONNECT, GET_STATUS, SYNCH, GET_COMM_MODE_INFO, GET_ID, SET_REQUEST,
     GET_SEED, UNLOCK, SET_MTA, UPLOAD, SHORT_UPLOAD, BUILD_CHECKSUM, TRANSPORT_LAYER_CMD,
     USER_CMD, DOWNLOAD, DOWNLOAD_NEXT, DOWNLOAD_MAX, SHORT_DOWNLOAD, MODIFY_BITS,
     SET_CAL_PAGE, GET_CAL_PAGE, GET_PAG_PROCESSOR_INFO, GET_SEGMENT_INFO, GET_PAGE_INFO,
     SET_SEGMENT_MODE, GET_SEGMENT_MODE, COPY_CAL_PAGE, SET_DAQ_PTR, WRITE_DAQ,
     SET_DAQ_LIST_MODE, START_STOP_DAQ_LIST, START_STOP_SYNCH, CLEAR_DAQ_LIST,
     GET_DAQ_LIST_INFO, WRITE_DAQ_MULTIPLE, READ_DAQ, GET_DAQ_CLOCK, GET_DAQ_PROCESSOR_INFO,
     GET_DAQ_RESOLUTION_INFO, GET_DAQ_LIST_MODE, GET_DAQ_EVENT_INFO, FREE_DAQ, ALLOC_DAQ,
     ALLOC_ODT, ALLOC_ODT_ENTRY, PROGRAM_START, PROGRAM_CLEAR, PROGRAM, PROGRAM_RESET,
     GET_PGM_PROCESSOR_INFO, GET_SECTOR_INFO, PROGRAM_PREPARE, PROGRAM_FORMAT, PROGRAM_NEXT,
     PROGRAM_MAX, PROGRAM_VERIFY]"
  by (simp add: matrix_defs)

lemma matrix_uncovered: "filter (\<lambda>c. map_of ERROR_MATRIX c = None) Command = unhandled_commands"
  unfolding map_of_eq_None_iff set_map [symmetric] matrix_commands
  by (simp add: Command_def unhandled_commands_def)

definition is_other :: "XcpError \<Rightarrow> bool" where
  "is_other e = (case e of XcpErrorOther _ \<Rightarrow> True | _ \<Rightarrow> False)"

definition has_no_other :: "matrix_row \<Rightarrow> bool" where
  "has_no_other row = list_all (\<lambda>(e, _). \<not> is_other e) row"

lemma has_no_other_map_of: "has_no_other row \<Longrightarrow> map_of row (XcpErrorOther v) = None"
  by (cases "map_of row (XcpErrorOther v)")
    (auto simp: has_no_other_def list_all_iff is_other_def dest!: map_of_SomeD)

lemma matrix_rows: "list_all (\<lambda>(c, row). map_of row ERR_TIMEOUT \<noteq> None \<and> has_no_other row) ERROR_MATRIX"
  by (simp add: matrix_defs has_no_other_def is_other_def)

lemma matrix_row:
  assumes "map_of ERROR_MATRIX c = Some row"
  shows "map_of row ERR_TIMEOUT \<noteq> None" and "map_of row (XcpErrorOther v) = None"
  using matrix_rows map_of_SomeD [OF assms]
  by (auto simp: list_all_iff dest!: bspec has_no_other_map_of)

text \<open>
  The error matrix has no entry for 27 of the commands (GET_VERSION, DTO_CTR_PROPERTIES, the
  packed modes, TIME_CORRELATION_PROPERTIES and the debug commands): any time-out or negative
  response of one of them becomes an \<open>InternalError\<close>. For every other command a time-out has
  its actions, and no row prescribes a pre-action for an unknown error code.
\<close>

theorem matrix_coverage:
  assumes "c \<in> set Command"
  shows "(getErrorHandler (Some c) = None \<longleftrightarrow> c \<in> set unhandled_commands)
    \<and> (c \<in> set unhandled_commands \<longrightarrow> getActions (Some c) ec = Inl InternalError)
    \<and> (c \<notin> set unhandled_commands \<longrightarrow> isOK (getActions (Some c) ERR_TIMEOUT)
        \<and> getActions (Some c) (XcpErrorOther v) = Inl (SystemExit (Some (XcpErrorOther v))))"
proof -
  have iff: "map_of ERROR_MATRIX c = None \<longleftrightarrow> c \<in> set unhandled_commands"
    using assms arg_cong [OF matrix_uncovered, of set] by auto
  show ?thesis
  proof (cases "map_of ERROR_MATRIX c")
    case None
    with iff show ?thesis
      by (simp add: getErrorHandler_def getActions_def getTimeoutHandler_def)
  next
    case (Some row)
    with iff matrix_row [OF Some] show ?thesis
      by (auto simp: getErrorHandler_def getActions_def getTimeoutHandler_def)
  qed
qed

theorem matrix_coverage_witness:
  "getActions (Some GET_VERSION) ERR_TIMEOUT = Inl InternalError
   \<and> isOK (getActions (Some UPLOAD) ERR_TIMEOUT)"
  using matrix_coverage [of GET_VERSION ERR_TIMEOUT 0] matrix_coverage [of UPLOAD ERR_TIMEOUT 0]
  by (simp add: Command_def unhandled_commands_def)

text \<open>
  For WRITE_DAQ, WRITE_DAQ_MULTIPLE and READ_DAQ the matrix answers a time-out with SYNCH and
  SET_DAQ_PTR, but the handler executes SYNCH only: the command is repeated without restoring the
  DAQ pointer.
\<close>

theorem daq_pointer_is_not_restored:
  assumes "sv \<in> {WRITE_DAQ, WRITE_DAQ_MULTIPLE, READ_DAQ}" and "service inst s = Some sv"
    and "max_retries inst = None"
  shows "(\<exists>act. getActions (Some sv) ERR_TIMEOUT = Inr (Many [PRE_SYNCH, PRE_SET_DAQ_PTR], act))
    \<and> recovery inst s (Some ERR_TIMEOUT) ERR_TIMEOUT
      = Inr ([\<lparr>fn = ''synch'', fn_arguments = no_arguments\<rparr>], mk_Repeater 2 None)"
  using assms by (auto simp: recovery_defs)

theorem daq_pointer_is_not_restored_witness:
  "recovery (flaky 1 XcpTimeoutError 0xE1 None) 1 (Some ERR_TIMEOUT) ERR_TIMEOUT
    = Inr ([\<lparr>fn = ''synch'', fn_arguments = no_arguments\<rparr>], mk_Repeater 2 None)"
  using daq_pointer_is_not_restored [of "0xE1" "flaky 1 XcpTimeoutError 0xE1 None" 1] by simp

end
