(* ===== verification/Daq_Optimize.thy ===== *)
theory Daq_Optimize
  imports Xcp_Types "HOL-Library.Multiset" "HOL-Library.Product_Lexorder"
begin

text \<open>
  \<open>pyxcp/daq_stim/optimize\<close>: merging adjacent measurement chunks into continuous blocks
  (\<open>make_continuous_blocks\<close>) and packing the blocks into ODTs (\<open>first_fit_decreasing\<close>). The objects
  they work on, \<open>McObject\<close> and \<open>Bin\<close>, are C++ classes of the package with unsigned fields of 32, 8
  and 16 bits; assigning an integer that does not fit raises \<open>TypeError\<close>. The name and the data
  type of an object play no role here.
\<close>

section \<open>Model\<close>

datatype McObject = McObject (address: int) (ext: int) (mc_length: int) (components: "McObject list")

definition uint16_ok :: "int \<Rightarrow> bool" where
  "uint16_ok v \<longleftrightarrow> 0 \<le> v \<and> v < 2 ^ 16"

definition set_length :: "McObject \<Rightarrow> int \<Rightarrow> McObject result" where
  "set_length obj v =
     (if uint16_ok v then Inr (McObject (address obj) (ext obj) v (components obj)) else Inl TypeError)"

definition add_component :: "McObject \<Rightarrow> McObject \<Rightarrow> McObject" where
  "add_component obj c = McObject (address obj) (ext obj) (mc_length obj) (components obj @ [c])"

subsection \<open>Continuous blocks\<close>

definition key_func :: "McObject \<Rightarrow> int \<times> int" where
  "key_func x = (ext x, address x)"

text \<open>\<open>itertools.groupby\<close>: runs of equal keys. \<open>max\<close> picks the first of the largest elements.\<close>

fun groupby :: "('a \<Rightarrow> 'k) \<Rightarrow> 'a list \<Rightarrow> 'a list list" where
  "groupby k [] = []"
| "groupby k (x # xs) =
     (case groupby k xs of
        (y # g) # gs \<Rightarrow> if k x = k y then (x # y # g) # gs else [x] # (y # g) # gs
      | gs \<Rightarrow> [x] # gs)"

fun max_length :: "McObject list \<Rightarrow> McObject" where
  "max_length [] = McObject 0 0 0 []"
| "max_length [x] = x"
| "max_length (x # y # xs) =
     (let m = max_length (y # xs) in if mc_length m \<le> mc_length x then x else m)"

definition largest_per_address :: "McObject list \<Rightarrow> McObject list" where
  "largest_per_address objs = map max_length (groupby key_func (sort_key key_func objs))"

definition new_section :: "McObject \<Rightarrow> McObject" where
  "new_section s = McObject (address s) (ext s) (mc_length s) [s]"

text \<open>\<open>if upper_bound:\<close> is false for \<open>None\<close> and for zero.\<close>

definition bounded :: "int option \<Rightarrow> bool" where
  "bounded ub \<longleftrightarrow> ub \<noteq> None \<and> ub \<noteq> Some 0"

definition merge :: "McObject \<Rightarrow> McObject \<Rightarrow> int \<Rightarrow> McObject result" where
  "merge last_section section offset =
     rbind (set_length last_section (mc_length last_section + offset)) (\<lambda>l.
       Inr (add_component l section))"

text \<open>
  The loop over \<open>values\<close>; \<open>acc\<close> is \<open>result_sections\<close> with the last section first. The upper bound
  is replaced by the initial one at the first merge that is tried.
\<close>

fun blocks_loop ::
  "int option \<Rightarrow> int option \<Rightarrow> bool \<Rightarrow> McObject list \<Rightarrow> McObject list \<Rightarrow> McObject list result" where
  "blocks_loop initial ub first [] acc = Inr (rev acc)"
| "blocks_loop initial ub first (section # vals) [] =
     blocks_loop initial ub first vals [new_section section]"
| "blocks_loop initial ub first (section # vals) (last_section # acc) =
     (if address section \<le> address last_section + mc_length last_section
         \<and> \<not> ext section \<noteq> ext last_section then
        (let last_end = address last_section + mc_length last_section - 1;
             current_end = address section + mc_length section - 1
         in if last_end > address section then
              blocks_loop initial ub first vals (last_section # acc)
            else
              (let offset = current_end - last_end
               in if bounded ub then
                    (let ub' = (if first then initial else ub)
                     in case ub' of
                          None \<Rightarrow> Inl TypeError
                        | Some bound \<Rightarrow>
                            if mc_length last_section + offset \<le> bound then
                              rbind (merge last_section section offset) (\<lambda>l.
                                blocks_loop initial ub' False vals (l # acc))
                            else
                              blocks_loop initial ub' False vals
                                (new_section section # last_section # acc))
                  else
                    rbind (merge last_section section offset) (\<lambda>l.
                      blocks_loop initial ub first vals (l # acc))))
      else blocks_loop initial ub first vals (new_section section # last_section # acc))"

definition make_continuous_blocks ::
  "McObject list \<Rightarrow> int option \<Rightarrow> int option \<Rightarrow> McObject list result" where
  "make_continuous_blocks objs upper_bound upper_bound_initial =
     (let initial = (if upper_bound_initial = None then upper_bound else upper_bound_initial)
      in blocks_loop initial upper_bound True (largest_per_address objs) [])"

subsection \<open>Bin packing\<close>

record Bin =
  bin_size :: int
  residual_capacity :: int
  entries :: "McObject list"

definition new_Bin :: "int \<Rightarrow> Bin result" where
  "new_Bin sz =
     (if uint16_ok sz then Inr \<lparr>bin_size = sz, residual_capacity = sz, entries = []\<rparr>
      else Inl TypeError)"

definition put :: "McObject \<Rightarrow> Bin \<Rightarrow> Bin" where
  "put item b = b\<lparr>entries := entries b @ [item], residual_capacity := residual_capacity b - mc_length item\<rparr>"

text \<open>The inner loop: the first bin with room, or \<open>None\<close> when the \<open>for\<close> loop ends without a \<open>break\<close>.\<close>

fun first_fit :: "McObject \<Rightarrow> Bin list \<Rightarrow> Bin list option" where
  "first_fit item [] = None"
| "first_fit item (b # bins) =
     (if residual_capacity b \<ge> mc_length item then Some (put item b # bins)
      else map_option ((#) b) (first_fit item bins))"

definition place :: "int \<Rightarrow> McObject \<Rightarrow> Bin list \<Rightarrow> Bin list result" where
  "place sz item bins =
     (if mc_length item > sz then Inl ValueError
      else case first_fit item bins of
             Some bins' \<Rightarrow> Inr bins'
           | None \<Rightarrow> rbind (new_Bin sz) (\<lambda>b. Inr (bins @ [put item b])))"

fun place_all :: "int \<Rightarrow> McObject list \<Rightarrow> Bin list \<Rightarrow> Bin list result" where
  "place_all sz [] bins = Inr bins"
| "place_all sz (item # items) bins =
     rbind (place sz item bins) (\<lambda>bins'. place_all sz items bins')"

definition first_fit_decreasing :: "McObject list \<Rightarrow> int \<Rightarrow> int option \<Rightarrow> Bin list result" where
  "first_fit_decreasing items sz initial_sz =
     (let first_sz = (case initial_sz of None \<Rightarrow> sz | Some i \<Rightarrow> i)
      in rbind (new_Bin first_sz) (\<lambda>b.
           place_all sz (sort_key (\<lambda>x. - mc_length x) items) [b]))"

section \<open>Lemmas\<close>

subsection \<open>First fit\<close>

definition bin_ok :: "Bin \<Rightarrow> bool" where
  "bin_ok b \<longleftrightarrow> 0 \<le> residual_capacity b
     \<and> residual_capacity b + sum_list (map mc_length (entries b)) = bin_size b"

text \<open>No item of a later bin would have fitted into an earlier one.\<close>

definition first_fit_inv :: "Bin list \<Rightarrow> bool" where
  "first_fit_inv bins \<longleftrightarrow>
     (\<forall>i j. i < j \<longrightarrow> j < length bins \<longrightarrow>
        (\<forall>e \<in> set (entries (bins ! j)). residual_capacity (bins ! i) < mc_length e))"

lemma put_sel [simp]:
  "bin_size (put item b) = bin_size b" "entries (put item b) = entries b @ [item]"
  "residual_capacity (put item b) = residual_capacity b - mc_length item"
  by (simp_all add: put_def)

lemma bin_ok_put: "bin_ok b \<Longrightarrow> mc_length item \<le> residual_capacity b \<Longrightarrow> bin_ok (put item b)"
  by (auto simp: bin_ok_def)

text \<open>What one placement does: the bin it chooses, and why not an earlier one.\<close>

lemma first_fit_Some:
  "first_fit item bins = Some bins' \<Longrightarrow>
    \<exists>k < length bins. bins' = bins[k := put item (bins ! k)]
      \<and> mc_length item \<le> residual_capacity (bins ! k)
      \<and> (\<forall>i < k. residual_capacity (bins ! i) < mc_length item)"
proof (induction item bins arbitrary: bins' rule: first_fit.induct)
  case (2 item b bins)
  show ?case
  proof (cases "residual_capacity b \<ge> mc_length item")
    case True
    with 2 show ?thesis by (intro exI [of _ 0]) auto
  next
    case False
    with 2 obtain bins1 k where "first_fit item bins = Some bins1" "bins' = b # bins1"
      "k < length bins" "bins1 = bins[k := put item (bins ! k)]"
      "mc_length item \<le> residual_capacity (bins ! k)"
      "\<forall>i < k. residual_capacity (bins ! i) < mc_length item"
      by fastforce
    with False show ?thesis
      by (intro exI [of _ "Suc k"]) (auto simp: less_Suc_eq_0_disj)
  qed
qed simp

lemma first_fit_None:
  "first_fit item bins = None \<Longrightarrow> b \<in> set bins \<Longrightarrow> residual_capacity b < mc_length item"
  by (induction item bins rule: first_fit.induct) (auto split: if_splits)

definition packed :: "int \<Rightarrow> int \<Rightarrow> McObject list \<Rightarrow> Bin list \<Rightarrow> bool" where
  "packed first_sz sz items bins \<longleftrightarrow> bins \<noteq> [] \<and> bin_size (hd bins) = first_sz
     \<and> (\<forall>b \<in> set (tl bins). bin_size b = sz \<and> entries b \<noteq> [])
     \<and> (\<forall>b \<in> set bins. bin_ok b) \<and> first_fit_inv bins
     \<and> mset (concat (map entries bins)) = mset items"

lemma mset_concat_update:
  "k < length bins \<Longrightarrow> entries b' = entries (bins ! k) @ [item] \<Longrightarrow>
    mset (concat (map entries (bins[k := b']))) = add_mset item (mset (concat (map entries bins)))"
proof (induction bins arbitrary: k)
  case (Cons b bins)
  then show ?case by (cases k) auto
qed simp

lemma packed_place:
  assumes P: "packed first_sz sz items bins" and pos: "0 \<le> mc_length item"
    and le: "mc_length item \<le> sz" and sz: "uint16_ok sz"
  shows "\<exists>bins'. place sz item bins = Inr bins' \<and> packed first_sz sz (items @ [item]) bins'"
proof (cases "first_fit item bins")
  case (Some bins')
  from first_fit_Some [OF Some] obtain k where k: "k < length bins"
    and bins': "bins' = bins[k := put item (bins ! k)]"
    and room: "mc_length item \<le> residual_capacity (bins ! k)"
    and full: "\<forall>i < k. residual_capacity (bins ! i) < mc_length item"
    by blast
  from P k have ok: "bin_ok (put item (bins ! k))" by (simp add: packed_def bin_ok_put room)
  have inv: "first_fit_inv bins'"
    unfolding first_fit_inv_def bins'
  proof (intro allI impI ballI)
    fix i j e
    assume ij: "i < j" "j < length (bins[k := put item (bins ! k)])"
      and e: "e \<in> set (entries (bins[k := put item (bins ! k)] ! j))"
    have old: "e' \<in> set (entries (bins ! j)) \<Longrightarrow> residual_capacity (bins ! i) < mc_length e'" for e'
      using P ij by (simp add: packed_def first_fit_inv_def)
    have "residual_capacity (bins[k := put item (bins ! k)] ! i) \<le> residual_capacity (bins ! i)"
      using ij k pos by (simp add: nth_list_update)
    moreover have "residual_capacity (bins ! i) < mc_length e"
    proof (cases "j = k \<and> e = item")
      case True
      with full ij show ?thesis by simp
    next
      case False
      with e ij k have "e \<in> set (entries (bins ! j))"
        by (auto simp: nth_list_update split: if_splits)
      with old show ?thesis .
    qed
    ultimately show "residual_capacity (bins[k := put item (bins ! k)] ! i) < mc_length e" by simp
  qed
  have "packed first_sz sz (items @ [item]) bins'"
  proof (cases k)
    case 0
    with P ok inv show ?thesis
      by (cases bins) (auto simp: packed_def bins')
  next
    case (Suc k')
    with P k obtain b bs where bs: "bins = b # bs" "k' < length bs" by (cases bins) auto
    have "bin_size (bs ! k') = sz" using P bs by (simp add: packed_def)
    then have "\<forall>b' \<in> set (bs[k' := put item (bs ! k')]). bin_size b' = sz \<and> entries b' \<noteq> []"
      using P bs(1) set_update_subset_insert [of bs k' "put item (bs ! k')"]
      by (fastforce simp: packed_def)
    moreover have "\<forall>b' \<in> set (bs[k' := put item (bs ! k')]). bin_ok b'"
      using P bs ok Suc set_update_subset_insert [of bs k' "put item (bs ! k')"]
      by (auto simp: packed_def)
    moreover have "mset (concat (map entries bins')) = mset (items @ [item])"
      using mset_concat_update [OF k, of "put item (bins ! k)" item] P
      by (simp add: packed_def bins')
    ultimately show ?thesis
      using P inv Suc bs by (auto simp: packed_def bins')
  qed
  with le Some show ?thesis by (simp add: place_def)
next
  case None
  let ?b = "put item \<lparr>bin_size = sz, residual_capacity = sz, entries = []\<rparr>"
  have "first_fit_inv (bins @ [?b])"
    using P first_fit_None [OF None] by (auto simp: packed_def first_fit_inv_def nth_append)
  moreover have "bin_ok ?b" using le by (simp add: bin_ok_def)
  ultimately have "packed first_sz sz (items @ [item]) (bins @ [?b])"
    using P by (cases bins) (auto simp: packed_def)
  with None le sz show ?thesis by (simp add: place_def new_Bin_def)
qed

lemma packed_place_all:
  assumes "packed first_sz sz done bins" and "uint16_ok sz"
    and "\<forall>x \<in> set items. 0 \<le> mc_length x \<and> mc_length x \<le> sz"
  shows "\<exists>bins'. place_all sz items bins = Inr bins' \<and> packed first_sz sz (done @ items) bins'"
  using assms
proof (induction items arbitrary: bins "done")
  case (Cons item items)
  then obtain bins1 where "place sz item bins = Inr bins1"
    and "packed first_sz sz (done @ [item]) bins1"
    using packed_place [of first_sz sz "done" bins item] by auto
  with Cons.IH [of "done @ [item]" bins1] Cons.prems show ?case by auto
qed simp

lemma packed_start: "0 \<le> first_sz \<Longrightarrow>
    packed first_sz sz [] [\<lparr>bin_size = first_sz, residual_capacity = first_sz, entries = []\<rparr>]"
  by (simp add: packed_def bin_ok_def first_fit_inv_def)

lemma packed_items: "mset items = mset items' \<Longrightarrow> packed f sz items bins \<longleftrightarrow> packed f sz items' bins"
  by (simp add: packed_def)

lemma first_fit_decreasing_packed:
  assumes "uint16_ok sz" and "uint16_ok first_sz"
    and "\<forall>x \<in> set items. 0 \<le> mc_length x \<and> mc_length x \<le> sz"
  shows "\<exists>bins. first_fit_decreasing items sz (Some first_sz) = Inr bins \<and> packed first_sz sz items bins"
proof -
  let ?b = "\<lparr>bin_size = first_sz, residual_capacity = first_sz, entries = []\<rparr>"
  let ?items = "sort_key (\<lambda>x. - mc_length x) items"
  have "packed first_sz sz [] [?b]"
    using assms(2) by (intro packed_start) (simp add: uint16_ok_def)
  from packed_place_all [OF this assms(1), of ?items] assms(3) obtain bins where
    "place_all sz ?items [?b] = Inr bins" "packed first_sz sz ?items bins"
    by auto
  with assms(2) packed_items [of ?items items] show ?thesis
    by (simp add: first_fit_decreasing_def new_Bin_def)
qed

lemma place_all_too_large:
  "x \<in> set items \<Longrightarrow> sz < mc_length x \<Longrightarrow> uint16_ok sz \<Longrightarrow> place_all sz items bins = Inl ValueError"
proof (induction items arbitrary: bins)
  case (Cons item items)
  show ?case
  proof (cases "sz < mc_length item")
    case True
    then show ?thesis by (simp add: place_def)
  next
    case False
    with Cons.prems have "isOK (place sz item bins)"
      by (simp add: place_def new_Bin_def split: option.split)
    with False Cons show ?thesis by (auto simp: isOK_iff)
  qed
qed simp

subsection \<open>Sorting and grouping\<close>

lemma concat_groupby: "concat (groupby k xs) = xs"
  by (induction xs) (auto split: list.splits)

lemma groupby_nonempty: "g \<in> set (groupby k xs) \<Longrightarrow> g \<noteq> []"
  by (induction xs arbitrary: g) (auto split: list.splits if_splits)

lemma groupby_distinct: "distinct (map k xs) \<Longrightarrow> groupby k xs = map (\<lambda>x. [x]) xs"
  by (induction xs) (auto split: list.splits)

lemma max_length_in: "g \<noteq> [] \<Longrightarrow> max_length g \<in> set g"
  by (induction g rule: max_length.induct) (auto simp: Let_def)

lemma largest_per_address_subset: "set (largest_per_address objs) \<subseteq> set objs"
proof
  fix x
  assume "x \<in> set (largest_per_address objs)"
  then obtain g where g: "g \<in> set (groupby key_func (sort_key key_func objs))" "x = max_length g"
    by (auto simp: largest_per_address_def)
  then have "x \<in> set (concat (groupby key_func (sort_key key_func objs)))"
    using groupby_nonempty max_length_in by fastforce
  then show "x \<in> set objs" by (simp add: concat_groupby)
qed

lemma largest_per_address_distinct:
  "distinct (map key_func objs) \<Longrightarrow> largest_per_address objs = sort_key key_func objs"
proof -
  assume "distinct (map key_func objs)"
  then have "distinct (map key_func (sort_key key_func objs))"
    by (simp add: distinct_map)
  then show ?thesis
    by (simp add: largest_per_address_def groupby_distinct o_def)
qed

subsection \<open>Blocks\<close>

text \<open>The bytes an object covers.\<close>

definition obj_bytes :: "McObject \<Rightarrow> (int \<times> int) set" where
  "obj_bytes x = {(ext x, a) | a. address x \<le> a \<and> a < address x + mc_length x}"

text \<open>A block covers exactly what its components cover, and keeps the bound.\<close>

definition block_ok :: "int \<Rightarrow> McObject \<Rightarrow> bool" where
  "block_ok bound b \<longleftrightarrow> 0 < mc_length b \<and> mc_length b \<le> bound
     \<and> obj_bytes b = (\<Union>c \<in> set (components b). obj_bytes c)"

lemma new_section_sel [simp]:
  "address (new_section s) = address s" "ext (new_section s) = ext s"
  "mc_length (new_section s) = mc_length s" "components (new_section s) = [s]"
  by (simp_all add: new_section_def)

lemma block_ok_new: "0 < mc_length s \<Longrightarrow> mc_length s \<le> bound \<Longrightarrow> block_ok bound (new_section s)"
  by (simp add: block_ok_def obj_bytes_def)

lemma merge_Inr:
  assumes "merge b s offset = Inr l"
  shows "address l = address b" "ext l = ext b" "mc_length l = mc_length b + offset"
    "components l = components b @ [s]"
  using assms by (auto simp: merge_def set_length_def add_component_def split: if_splits)

lemma merge_total: "uint16_ok (mc_length b + offset) \<Longrightarrow> \<exists>l. merge b s offset = Inr l"
  by (simp add: merge_def set_length_def)

lemma block_ok_merge:
  assumes "block_ok bound b" and "0 < mc_length s" and "ext s = ext b"
    and "address b + mc_length b - 1 \<le> address s" and "address s \<le> address b + mc_length b"
    and off: "offset = (address s + mc_length s - 1) - (address b + mc_length b - 1)"
    and "mc_length b + offset \<le> bound" and m: "merge b s offset = Inr l"
  shows "block_ok bound l"
proof -
  have len: "mc_length l = address s + mc_length s - address b"
    using merge_Inr(3) [OF m] off by simp
  have "0 < mc_length b" using assms(1) by (simp add: block_ok_def)
  then have "obj_bytes l = obj_bytes b \<union> obj_bytes s"
    using assms(2-5) by (auto simp: obj_bytes_def merge_Inr(1,2) [OF m] len)
  then show ?thesis
    using assms merge_Inr [OF m] by (auto simp: block_ok_def)
qed

lemma blocks_loop_ok:
  assumes "bound < 2 ^ 16" and "bound \<noteq> 0"
  shows "\<forall>s \<in> set vals. 0 < mc_length s \<and> mc_length s \<le> bound \<Longrightarrow> \<forall>b \<in> set acc. block_ok bound b
    \<Longrightarrow> initial = Some bound \<Longrightarrow> ub = Some bound \<Longrightarrow>
    \<exists>bs. blocks_loop initial ub first vals acc = Inr bs \<and> (\<forall>b \<in> set bs. block_ok bound b)"
proof (induction initial ub "first" vals acc rule: blocks_loop.induct)
  case (1 initial ub isfirst acc)
  then show ?case by simp
next
  case (2 initial ub isfirst sect vals)
  then show ?case by (simp add: block_ok_new)
next
  case (3 initial ub isfirst sect vals last_section acc)
  let ?last_end = "address last_section + mc_length last_section - 1"
  let ?offset = "address sect + mc_length sect - 1 - ?last_end"
  have bnd: "bounded ub" using assms 3 by (simp add: bounded_def)
  show ?case
  proof (cases "address sect \<le> address last_section + mc_length last_section
      \<and> ext sect = ext last_section")
    case False
    with 3 show ?thesis by (auto simp: block_ok_new)
  next
    case near: True
    show ?thesis
    proof (cases "?last_end > address sect")
      case True
      with 3 near show ?thesis by auto
    next
      case False
      show ?thesis
      proof (cases "mc_length last_section + ?offset \<le> bound")
        case True
        with 3 near False have "0 \<le> mc_length last_section + ?offset"
          by (auto simp: block_ok_def)
        with True assms(1) obtain l where l: "merge last_section sect ?offset = Inr l"
          using merge_total [of last_section ?offset sect] by (auto simp: uint16_ok_def)
        have "block_ok bound l"
          using block_ok_merge [OF _ _ _ _ _ refl True l] near False 3 by auto
        with 3 near False True bnd l show ?thesis by (auto simp: Let_def)
      next
        case too_long: False
        with 3 near False bnd show ?thesis by (auto simp: Let_def block_ok_new)
      qed
    qed
  qed
qed

subsection \<open>Nothing is lost when the chunks do not overlap\<close>

definition overlap :: "McObject \<Rightarrow> McObject \<Rightarrow> bool" where
  "overlap x y \<longleftrightarrow> ext x = ext y
     \<and> address x < address y + mc_length y \<and> address y < address x + mc_length x"

definition no_overlap :: "McObject list \<Rightarrow> bool" where
  "no_overlap xs \<longleftrightarrow> distinct xs \<and> (\<forall>x \<in> set xs. \<forall>y \<in> set xs. x \<noteq> y \<longrightarrow> \<not> overlap x y)"

lemma no_overlap_distinct_keys:
  assumes "no_overlap xs" and "\<forall>x \<in> set xs. 0 < mc_length x"
  shows "distinct (map key_func xs)"
proof -
  have "inj_on key_func (set xs)"
  proof (rule inj_onI)
    fix x y
    assume xy: "x \<in> set xs" "y \<in> set xs" "key_func x = key_func y"
    with assms(2) have "overlap x y" by (simp add: overlap_def key_func_def)
    with assms(1) xy show "x = y" by (auto simp: no_overlap_def)
  qed
  with assms(1) show ?thesis by (simp add: distinct_map no_overlap_def)
qed

text \<open>The blocks made so far with the objects still to come.\<close>

definition loop_inv :: "int \<Rightarrow> McObject list \<Rightarrow> McObject list \<Rightarrow> bool" where
  "loop_inv bound vals acc \<longleftrightarrow> (\<forall>b \<in> set acc. block_ok bound b)
     \<and> (\<forall>v \<in> set vals. 0 < mc_length v \<and> mc_length v \<le> bound)
     \<and> sorted (map key_func (rev acc @ vals)) \<and> no_overlap vals
     \<and> (\<forall>b \<in> set acc. \<forall>c \<in> set (components b). \<forall>v \<in> set vals. \<not> overlap c v)"

lemma loop_inv_new:
  "loop_inv bound (v # vals) acc \<Longrightarrow> loop_inv bound vals (new_section v # acc)"
  by (auto simp: loop_inv_def block_ok_new key_func_def no_overlap_def)

lemma key_same: "address l = address b \<Longrightarrow> ext l = ext b \<Longrightarrow> key_func l = key_func b"
  by (simp add: key_func_def)

lemma sorted_drop_middle: "sorted (xs @ [b] @ v # ys) \<Longrightarrow> sorted (xs @ [b] @ ys)"
  by (auto simp: sorted_append)

lemma loop_inv_merge:
  assumes "loop_inv bound (v # vals) (b # acc)" and "block_ok bound l"
    and "merge b v offset = Inr l"
  shows "loop_inv bound vals (l # acc)"
  using assms merge_Inr [OF assms(3)]
  by (auto simp: loop_inv_def key_same [of l b] no_overlap_def sorted_append)

lemma loop_inv_not_dropped:
  assumes "loop_inv bound (v # vals) (b # acc)" and "ext v = ext b"
  shows "\<not> address b + mc_length b - 1 > address v"
proof
  assume "address b + mc_length b - 1 > address v"
  moreover have "address b \<le> address v"
    using assms by (auto simp: loop_inv_def sorted_append key_func_def)
  ultimately have "(ext b, address v) \<in> obj_bytes b"
    by (auto simp: obj_bytes_def)
  with assms obtain c where "c \<in> set (components b)" "(ext b, address v) \<in> obj_bytes c"
    by (auto simp: loop_inv_def block_ok_def)
  with assms show False
    by (auto simp: loop_inv_def obj_bytes_def overlap_def)
qed

lemma blocks_loop_complete:
  assumes "bound < 2 ^ 16" and "bound \<noteq> 0"
  shows "loop_inv bound vals acc \<Longrightarrow> initial = Some bound \<Longrightarrow> ub = Some bound \<Longrightarrow>
    \<exists>bs. blocks_loop initial ub first vals acc = Inr bs \<and> sorted (map key_func bs)
      \<and> concat (map components bs) = concat (map components (rev acc)) @ vals"
proof (induction initial ub "first" vals acc rule: blocks_loop.induct)
  case (1 initial ub isfirst acc)
  then show ?case by (simp add: loop_inv_def)
next
  case (2 initial ub isfirst v vals)
  from 2(1) [OF loop_inv_new [OF 2(2)] 2(3,4)] show ?case by simp
next
  case (3 initial ub isfirst v vals b acc)
  let ?last_end = "address b + mc_length b - 1"
  let ?offset = "address v + mc_length v - 1 - ?last_end"
  have bnd: "bounded ub" using assms 3 by (simp add: bounded_def)
  show ?case
  proof (cases "address v \<le> address b + mc_length b \<and> ext v = ext b")
    case False
    with 3 loop_inv_new [of bound v vals "b # acc"] show ?thesis by auto
  next
    case near: True
    with 3 have kept: "\<not> ?last_end > address v" by (intro loop_inv_not_dropped) auto
    show ?thesis
    proof (cases "mc_length b + ?offset \<le> bound")
      case True
      have b: "block_ok bound b" "0 < mc_length v" using 3 by (auto simp: loop_inv_def)
      with near kept have "0 \<le> mc_length b + ?offset" by (auto simp: block_ok_def)
      with True assms(1) obtain l where l: "merge b v ?offset = Inr l"
        using merge_total [of b ?offset v] by (auto simp: uint16_ok_def)
      have "block_ok bound l"
        using block_ok_merge [OF _ _ _ _ _ refl True l] near kept b by auto
      with 3 have inv: "loop_inv bound vals (l # acc)" by (intro loop_inv_merge [OF _ _ l]) auto
      have "\<exists>bs. blocks_loop initial (if isfirst then initial else ub) False vals (l # acc) = Inr bs
          \<and> sorted (map key_func bs)
          \<and> concat (map components bs) = concat (map components (rev (l # acc))) @ vals"
      proof (rule "3.IH"(2) [OF _ refl refl kept refl bnd refl])
        show "address v \<le> address b + mc_length b \<and> \<not> ext v \<noteq> ext b" using near by simp
        show "(if isfirst then initial else ub) = Some bound" using 3 by simp
        then show "(if isfirst then initial else ub) = Some bound" .
      qed (use 3 True inv in simp_all)
      with 3 near kept True bnd l merge_Inr [OF l] show ?thesis
        by (auto simp: Let_def)
    next
      case False
      with 3 near kept bnd loop_inv_new [of bound v vals "b # acc"] show ?thesis
        by (auto simp: Let_def)
    qed
  qed
qed

lemma make_blocks_complete:
  assumes "0 < bound" and "bound < 2 ^ 16"
    and "\<forall>x \<in> set objs. 0 < mc_length x \<and> mc_length x \<le> bound"
  shows "\<exists>bs. make_continuous_blocks objs (Some bound) (Some bound) = Inr bs
    \<and> (\<forall>b \<in> set bs. 0 < mc_length b \<and> mc_length b \<le> bound \<and> obj_bytes b = (\<Union>c \<in> set (components b). obj_bytes c))
    \<and> (no_overlap objs \<longrightarrow> sorted (map key_func bs)
         \<and> concat (map components bs) = sort_key key_func objs)"
proof -
  have "\<forall>x \<in> set (largest_per_address objs). 0 < mc_length x \<and> mc_length x \<le> bound"
    using assms(3) largest_per_address_subset [of objs] by blast
  with blocks_loop_ok [OF assms(2), of "largest_per_address objs" "[]" "Some bound" "Some bound" True]
  obtain bs where bs: "make_continuous_blocks objs (Some bound) (Some bound) = Inr bs"
    "\<forall>b \<in> set bs. block_ok bound b"
    using assms(1) by (auto simp: make_continuous_blocks_def)
  moreover have "sorted (map key_func bs) \<and> concat (map components bs) = sort_key key_func objs"
    if "no_overlap objs"
  proof -
    have L: "largest_per_address objs = sort_key key_func objs"
      using that assms(3) by (intro largest_per_address_distinct no_overlap_distinct_keys) auto
    have "loop_inv bound (sort_key key_func objs) []"
      using that assms(3) by (simp add: loop_inv_def no_overlap_def)
    from blocks_loop_complete [OF assms(2) _ this refl refl, of True] assms(1) bs(1) show ?thesis
      by (auto simp: make_continuous_blocks_def L)
  qed
  ultimately show ?thesis by (auto simp: block_ok_def)
qed

subsection \<open>The interface of the layout\<close>

text \<open>What laying measurements out in ODTs relies on: a block maker and a packer.\<close>

locale odt_layout =
  fixes blocks :: "McObject list \<Rightarrow> int \<Rightarrow> McObject list result"
    and pack :: "McObject list \<Rightarrow> int \<Rightarrow> int \<Rightarrow> Bin list result"
  assumes blocks_complete: "0 < bound \<Longrightarrow> bound < 2 ^ 16 \<Longrightarrow> no_overlap objs \<Longrightarrow>
      \<forall>x \<in> set objs. 0 < mc_length x \<and> mc_length x \<le> bound \<Longrightarrow>
      \<exists>bs. blocks objs bound = Inr bs
        \<and> (\<forall>b \<in> set bs. 0 < mc_length b \<and> mc_length b \<le> bound
             \<and> obj_bytes b = (\<Union>c \<in> set (components b). obj_bytes c))
        \<and> mset (concat (map components bs)) = mset objs"
    and pack_complete: "uint16_ok sz \<Longrightarrow> uint16_ok first_sz \<Longrightarrow>
      \<forall>x \<in> set items. 0 \<le> mc_length x \<and> mc_length x \<le> sz \<Longrightarrow>
      \<exists>bins. pack items sz first_sz = Inr bins \<and> packed first_sz sz items bins"
begin

definition layout :: "McObject list \<Rightarrow> int \<Rightarrow> int \<Rightarrow> int \<Rightarrow> Bin list result" where
  "layout objs entry_size sz first_sz = rbind (blocks objs entry_size) (\<lambda>bs. pack bs sz first_sz)"

lemma concat_map_mset: "mset xs = mset ys \<Longrightarrow>
    mset (concat (map f xs)) = mset (concat (map f ys))"
proof -
  assume "mset xs = mset ys"
  then have "image_mset (\<lambda>x. mset (f x)) (mset xs) = image_mset (\<lambda>x. mset (f x)) (mset ys)"
    by simp
  then have "(\<Sum>x \<in># mset xs. mset (f x)) = (\<Sum>x \<in># mset ys. mset (f x))" by simp
  moreover have "mset (concat (map f zs)) = (\<Sum>x \<in># mset zs. mset (f x))" for zs
    by (induction zs) simp_all
  ultimately show ?thesis by simp
qed

text \<open>Every measurement in exactly one entry, every entry within its size, every ODT within its own.\<close>

lemma layout_complete:
  assumes "0 < entry_size" and "entry_size \<le> sz" and "uint16_ok sz" and "uint16_ok first_sz"
    and "no_overlap objs" and "\<forall>x \<in> set objs. 0 < mc_length x \<and> mc_length x \<le> entry_size"
  shows "\<exists>bins. layout objs entry_size sz first_sz = Inr bins
    \<and> mset (concat (map components (concat (map entries bins)))) = mset objs
    \<and> (\<forall>b \<in> set bins. \<forall>e \<in> set (entries b). 0 < mc_length e \<and> mc_length e \<le> entry_size
         \<and> obj_bytes e = (\<Union>c \<in> set (components e). obj_bytes c))
    \<and> bins \<noteq> [] \<and> sum_list (map mc_length (entries (hd bins))) \<le> first_sz
    \<and> (\<forall>b \<in> set (tl bins). sum_list (map mc_length (entries b)) \<le> sz \<and> entries b \<noteq> [])"
proof -
  have "entry_size < 2 ^ 16" using assms(2,3) by (simp add: uint16_ok_def)
  from blocks_complete [OF assms(1) this assms(5,6)] obtain bs where
    bs: "blocks objs entry_size = Inr bs" "mset (concat (map components bs)) = mset objs"
    and ok: "\<forall>b \<in> set bs. 0 < mc_length b \<and> mc_length b \<le> entry_size
      \<and> obj_bytes b = (\<Union>c \<in> set (components b). obj_bytes c)"
    by blast
  have "\<forall>x \<in> set bs. 0 \<le> mc_length x \<and> mc_length x \<le> sz" using ok assms(2) by force
  from pack_complete [OF assms(3,4) this] obtain bins where
    bins: "pack bs sz first_sz = Inr bins" "packed first_sz sz bs bins" by blast
  from bins(2) have m: "mset (concat (map entries bins)) = mset bs" by (simp add: packed_def)
  from concat_map_mset [OF this, of components] bs(2)
  have "mset (concat (map components (concat (map entries bins)))) = mset objs" by simp
  moreover have "\<forall>b \<in> set bins. \<forall>e \<in> set (entries b). e \<in> set bs"
    using mset_eq_setD [OF m] by auto
  moreover have "\<forall>b \<in> set bins. sum_list (map mc_length (entries b)) \<le> bin_size b"
    using bins(2) by (auto simp: packed_def bin_ok_def)
  ultimately show ?thesis
    using bins bs(1) ok by (cases bins) (auto simp: packed_def layout_def)
qed

end

interpretation ffd: odt_layout
  "\<lambda>objs bound. make_continuous_blocks objs (Some bound) (Some bound)"
  "\<lambda>items sz first_sz. first_fit_decreasing items sz (Some first_sz)"
proof
  fix bound objs
  assume "0 < bound" "bound < 2 ^ 16" "no_overlap objs"
    "\<forall>x \<in> set objs. 0 < mc_length x \<and> mc_length x \<le> bound"
  then show "\<exists>bs. make_continuous_blocks objs (Some bound) (Some bound) = Inr bs
      \<and> (\<forall>b \<in> set bs. 0 < mc_length b \<and> mc_length b \<le> bound
           \<and> obj_bytes b = (\<Union>c \<in> set (components b). obj_bytes c))
      \<and> mset (concat (map components bs)) = mset objs"
    using make_blocks_complete [of bound objs] by auto
qed (rule first_fit_decreasing_packed)

section \<open>Properties\<close>





text \<open>
  A chunk that begins more than one byte before the end of the previous chunk is left out, even
  when it reaches beyond that end: the bytes of its tail are in no block.
\<close>

theorem overlapping_chunk_is_dropped:
  assumes "ext b = ext a" and "address a < address b" and "address b < address a + mc_length a - 1"
  shows "make_continuous_blocks [a, b] ub ubi = Inr [new_section a]
    \<and> (\<forall>i. address a + mc_length a \<le> i \<and> i < address b + mc_length b \<longrightarrow>
         (ext b, i) \<in> obj_bytes b \<and> (ext b, i) \<notin> obj_bytes (new_section a))"
proof -
  have "largest_per_address [a, b] = [a, b]"
    using assms by (simp add: largest_per_address_def key_func_def)
  then show ?thesis
    using assms by (auto simp: make_continuous_blocks_def obj_bytes_def)
qed

theorem overlapping_chunk_is_dropped_witness:
  "make_continuous_blocks [McObject 0x1000 0 4 [], McObject 0x1002 0 4 []] None None
     = Inr [McObject 0x1000 0 4 [McObject 0x1000 0 4 []]]
   \<and> (0, 0x1005) \<in> obj_bytes (McObject 0x1002 0 4 [])"
  using overlapping_chunk_is_dropped [of "McObject 0x1002 0 4 []" "McObject 0x1000 0 4 []" None None]
  by (simp add: new_section_def obj_bytes_def)

end
