(* ===== verification/Daq_Setup.thy ===== *)
theory Daq_Setup
  imports Daq_Optimize
begin

text \<open>
  \<open>pyxcp/daq_stim/__init__.py\<close>: the cycle time of an event channel in nanoseconds, and
  \<open>DaqProcessor.setup\<close>, which derives the ODT sizes from what the slave reports, lays the
  measurements out in ODTs and sends the commands that allocate, write and arm the DAQ lists. The
  master is a record of its operations on a state \<open>'s\<close>; the measurement parameters that
  \<open>setup\<close> hands to the recorder are left out.
\<close>

section \<open>Event channel cycles\<close>

text \<open>\<open>Fraction(n, d)\<close>: numerator and denominator in lowest terms, for a positive \<open>d\<close>.\<close>

definition Fraction :: "int \<Rightarrow> int \<Rightarrow> int \<times> int" where
  "Fraction n d = (n div gcd n d, d div gcd n d)"

definition Fraction_mult :: "int \<times> int \<Rightarrow> int \<times> int \<Rightarrow> int \<times> int" where
  "Fraction_mult x y = Fraction (fst x * fst y) (snd x * snd y)"

definition EVENT_CHANNEL_TIME_UNIT_TO_NS :: "(int \<times> (int \<times> int)) list" where
  "EVENT_CHANNEL_TIME_UNIT_TO_NS = [
     (0, Fraction 1 1),
     (1, Fraction 10 1),
     (2, Fraction 100 1),
     (3, Fraction 1000 1),
     (4, Fraction 10000 1),
     (5, Fraction 100000 1),
     (6, Fraction 1000000 1),
     (7, Fraction 10000000 1),
     (8, Fraction 100000000 1),
     (9, Fraction 1000000000 1),
     (10, Fraction 1 1000),
     (11, Fraction 1 100),
     (12, Fraction 1 10)]"

definition event_channel_cycle_to_ns :: "int \<Rightarrow> int \<Rightarrow> int result" where
  "event_channel_cycle_to_ns cycle unit =
     (case map_of EVENT_CHANNEL_TIME_UNIT_TO_NS unit of
        None \<Rightarrow> Inl ValueError
      | Some f \<Rightarrow>
          (let value = Fraction_mult (Fraction cycle 1) f
           in Inr (if fst value \<noteq> 0 then max 1 ((fst value + snd value - 1) div snd value) else 0)))"

section \<open>Model of the set-up\<close>

definition DAQ_ID_FIELD_SIZE :: "(string \<times> int) list" where
  "DAQ_ID_FIELD_SIZE = [
     (''IDF_ABS_ODT_NUMBER'', 1),
     (''IDF_REL_ODT_NUMBER_ABS_DAQ_LIST_NUMBER_BYTE'', 2),
     (''IDF_REL_ODT_NUMBER_ABS_DAQ_LIST_NUMBER_WORD'', 3),
     (''IDF_REL_ODT_NUMBER_ABS_DAQ_LIST_NUMBER_WORD_ALIGNED'', 4)]"

definition DAQ_TIMESTAMP_SIZE :: "(string \<times> int) list" where
  "DAQ_TIMESTAMP_SIZE = [(''S1'', 1), (''S2'', 2), (''S4'', 4)]"

text \<open>The names \<open>types.DAQ_TIMESTAMP_UNIT_TO_NS\<close> knows; its factors only scale time stamps later.\<close>

definition DAQ_TIMESTAMP_UNITS :: "string list" where
  "DAQ_TIMESTAMP_UNITS = [''DAQ_TIMESTAMP_UNIT_1PS'', ''DAQ_TIMESTAMP_UNIT_10PS'',
     ''DAQ_TIMESTAMP_UNIT_100PS'', ''DAQ_TIMESTAMP_UNIT_1NS'', ''DAQ_TIMESTAMP_UNIT_10NS'',
     ''DAQ_TIMESTAMP_UNIT_100NS'', ''DAQ_TIMESTAMP_UNIT_1US'', ''DAQ_TIMESTAMP_UNIT_10US'',
     ''DAQ_TIMESTAMP_UNIT_100US'', ''DAQ_TIMESTAMP_UNIT_1MS'', ''DAQ_TIMESTAMP_UNIT_10MS'',
     ''DAQ_TIMESTAMP_UNIT_100MS'', ''DAQ_TIMESTAMP_UNIT_1S'']"

text \<open>A DAQ list: a \<open>DaqList\<close>, or a \<open>PredefinedDaqList\<close> of the slave.\<close>

record daq_list =
  predefined :: bool
  event_num :: int
  stim :: bool
  enable_timestamps :: bool
  priority :: int
  prescaler :: int
  measurements :: "McObject list"
  measurements_opt :: "Bin list"
  packed_mode :: int
  packed_ts_mode :: int
  packed_sample_count :: int

text \<open>What \<open>getDaqInfo\<close> returns, as far as \<open>setup\<close> reads it.\<close>

record daq_processor =
  configType :: string
  timestampSupported :: bool
  prescalerSupported :: bool
  pidOffSupported :: bool
  identificationField :: string
  minDaq :: int

record daq_resolution =
  maxOdtEntrySizeDaq :: int
  timestamp_fixed :: bool
  timestamp_size :: string
  timestamp_unit :: string

record daq_info =
  valid_processor :: bool
  valid_resolution :: bool
  processor :: daq_processor
  resolution :: daq_resolution

text \<open>The override of the caller: a section that its dictionary does not have is \<open>None\<close>.\<close>

record daq_info_override =
  override_processor :: "daq_processor option"
  override_resolution :: "daq_resolution option"

datatype daq_cmd =
    FreeDaq
  | AllocDaq int
  | AllocOdt int int
  | AllocOdtEntry int int int
  | SetDaqPtr int int int
  | WriteDaq int int int int
  | SetDaqListMode int int int int int
  | SetDaqPackedMode int int int int

text \<open>
  The master as \<open>setup\<close> uses it. \<open>daqMaxDto\<close>, \<open>interleavedMode\<close> and \<open>supportsDaq\<close> are slave
  properties. The master has no method \<open>getEventChannelInfo\<close>.
\<close>

record 's daq_master =
  supportsDaq :: bool
  daqMaxDto :: int
  interleavedMode :: bool
  getDaqInfo :: "(pyexn, 's, daq_info) prog"
  daq_command :: "daq_cmd \<Rightarrow> (pyexn, 's, unit) prog"
  startStopDaqList :: "int \<Rightarrow> int \<Rightarrow> (pyexn, 's, int) prog"

record daq_limits =
  supports_timestampes :: bool
  ts_fixed :: bool
  ts_size :: int
  supports_prescaler :: bool
  supports_pid_off :: bool
  header_len :: int
  min_daq :: int
  max_odt_container_size :: int
  max_odt_container_size_first :: int
  max_entry_size :: int
  selectable_timestamps :: bool
  switch_pid_off :: bool

definition select_info :: "daq_info \<Rightarrow> daq_info_override option \<Rightarrow> daq_info result" where
  "select_info info override =
     (if valid_processor info \<and> valid_resolution info then Inr info
      else case override of
             None \<Rightarrow> Inl RuntimeError
           | Some ov \<Rightarrow>
               (case (override_processor ov, override_resolution ov) of
                  (Some p, Some r) \<Rightarrow>
                    Inr \<lparr>valid_processor = True, valid_resolution = True, processor = p, resolution = r\<rparr>
                | _ \<Rightarrow> Inl ValueError))"

text \<open>
  The \<open>try\<close> block, whose exceptions all become a \<open>TypeError\<close>: the time stamp settings, and the
  sizes that follow from the length \<open>hl\<close> of the identification field.
\<close>

definition timestamp_settings :: "daq_info \<Rightarrow> (bool \<times> int) result" where
  "timestamp_settings info =
     (let rs = resolution info
      in if timestampSupported (processor info) then
           (case map_of DAQ_TIMESTAMP_SIZE (timestamp_size rs) of
              None \<Rightarrow> Inl TypeError
            | Some sz \<Rightarrow>
                if timestamp_unit rs \<in> set DAQ_TIMESTAMP_UNITS then Inr (timestamp_fixed rs, sz)
                else Inl TypeError)
         else Inr (False, 0))"

definition mk_limits :: "'s daq_master \<Rightarrow> bool \<Rightarrow> daq_info \<Rightarrow> bool \<Rightarrow> int \<Rightarrow> int \<Rightarrow> daq_limits" where
  "mk_limits master pid_off info fixed tsz hl =
     (let pr = processor info;
          overhead = hl + (if interleavedMode master then 1 else 0);
          container = daqMaxDto master - overhead;
          entry_size = min (maxOdtEntrySizeDaq (resolution info)) container;
          pid_off_ok = pid_off \<and> pidOffSupported pr \<and> identificationField pr = ''IDF_ABS_ODT_NUMBER'';
          container' = (if pid_off_ok then container + 1 else container);
          first = (if timestampSupported pr \<and> fixed then container' - tsz else container')
      in \<lparr>supports_timestampes = timestampSupported pr, ts_fixed = fixed, ts_size = tsz,
           supports_prescaler = prescalerSupported pr, supports_pid_off = pidOffSupported pr,
           header_len = hl, min_daq = minDaq pr, max_odt_container_size = container',
           max_odt_container_size_first = first, max_entry_size = entry_size,
           selectable_timestamps = (timestampSupported pr \<and> \<not> fixed),
           switch_pid_off = pid_off_ok\<rparr>)"

definition compute_limits ::
  "'s daq_master \<Rightarrow> bool \<Rightarrow> daq_info \<Rightarrow> daq_list list \<Rightarrow> daq_limits result" where
  "compute_limits master pid_off info daq_lists =
     (if configType (processor info) = ''STATIC'' \<and> \<not> (\<forall>d \<in> set daq_lists. predefined d) then Inl TypeError
      else
        rbind (timestamp_settings info) (\<lambda>(fixed, tsz).
          case map_of DAQ_ID_FIELD_SIZE (identificationField (processor info)) of
            None \<Rightarrow> Inl TypeError
          | Some hl \<Rightarrow> Inr (mk_limits master pid_off info fixed tsz hl)))"

definition container_first :: "daq_limits \<Rightarrow> daq_list \<Rightarrow> int" where
  "container_first lim dl =
     (if selectable_timestamps lim then
        (if enable_timestamps dl then max_odt_container_size lim - ts_size lim
         else max_odt_container_size lim)
      else max_odt_container_size_first lim)"

definition optimize_list :: "daq_limits \<Rightarrow> daq_list \<Rightarrow> daq_list result" where
  "optimize_list lim dl =
     (if predefined dl then Inr dl
      else
        rbind (make_continuous_blocks (measurements dl) (Some (max_entry_size lim)) (Some (max_entry_size lim))) (\<lambda>ttt.
        rbind (first_fit_decreasing ttt (max_odt_container_size lim) (Some (container_first lim dl))) (\<lambda>bins.
          Inr (dl\<lparr>measurements_opt := bins\<rparr>))))"

text \<open>A \<open>for\<close> loop of commands, and \<open>enumerate(xs, start)\<close>.\<close>

definition pfor :: "('a \<Rightarrow> ('e, 's, unit) prog) \<Rightarrow> 'a list \<Rightarrow> ('e, 's, unit) prog" where
  "pfor f xs = foldr (\<lambda>x k. pbind (f x) (\<lambda>_. k)) xs (pret ())"

definition enumerate_from :: "int \<Rightarrow> 'a list \<Rightarrow> (int \<times> 'a) list" where
  "enumerate_from start xs = zip (map (\<lambda>k. start + int k) [0..<length xs]) xs"

definition write_odt :: "'s daq_master \<Rightarrow> int \<Rightarrow> int \<times> Bin \<Rightarrow> (pyexn, 's, unit) prog" where
  "write_odt master i jb = (case jb of (j, b) \<Rightarrow>
     if entries b = [] then pret ()
     else pbind (daq_command master (SetDaqPtr i j 0)) (\<lambda>_.
       pfor (\<lambda>e. daq_command master (WriteDaq 0xFF (mc_length e) (ext e) (address e))) (entries b)))"

text \<open>Allocation and writing, for a dynamic configuration.\<close>

definition program_lists :: "'s daq_master \<Rightarrow> int \<Rightarrow> daq_list list \<Rightarrow> (pyexn, 's, unit) prog" where
  "program_lists master first_list daq_lists =
     (let numbered = enumerate_from first_list daq_lists;
          dynamic = filter (\<lambda>(i, d). \<not> predefined d) numbered
      in pbind (daq_command master FreeDaq) (\<lambda>_.
         pbind (daq_command master (AllocDaq (int (length daq_lists)))) (\<lambda>_.
         pbind (pfor (\<lambda>(i, d). daq_command master (AllocOdt i (int (length (measurements_opt d))))) dynamic) (\<lambda>_.
         pbind (pfor (\<lambda>(i, d). pfor (\<lambda>(j, b). daq_command master (AllocOdtEntry i j (int (length (entries b)))))
                  (enumerate_from 0 (measurements_opt d))) dynamic) (\<lambda>_.
         pfor (\<lambda>(i, d). pfor (write_odt master i) (enumerate_from 0 (measurements_opt d))) dynamic)))))"

definition list_mode :: "daq_limits \<Rightarrow> daq_list \<Rightarrow> int" where
  "list_mode lim dl =
     ((if supports_timestampes lim \<and> (ts_fixed lim \<or> (selectable_timestamps lim \<and> enable_timestamps dl))
       then 0x10 else 0)
      OR (if stim dl then 0x02 else 0) OR (if switch_pid_off lim then 0x20 else 0))"

text \<open>\<open>getEventChannelInfo\<close> is looked up on the master for a packed list, and does not exist.\<close>

definition arm_list :: "'s daq_master \<Rightarrow> daq_limits \<Rightarrow> int \<times> daq_list \<Rightarrow> (pyexn, 's, int) prog" where
  "arm_list master lim idl = (case idl of (i, dl) \<Rightarrow>
     pbind (daq_command master (SetDaqListMode i (list_mode lim dl) (event_num dl) (prescaler dl) (priority dl))) (\<lambda>_.
     pbind (if packed_mode dl \<noteq> packed_mode_value NOT_PACKED then
              pbind (daq_command master (SetDaqPackedMode i (packed_mode dl) (packed_ts_mode dl) (packed_sample_count dl)))
                (\<lambda>_. praise AttributeError)
            else pret ()) (\<lambda>_.
       startStopDaqList master 0x02 i)))"

text \<open>\<open>setup\<close> returns the limits, the optimised lists and the first PIDs.\<close>

definition DaqProcessor_setup ::
  "'s daq_master \<Rightarrow> bool \<Rightarrow> daq_list list \<Rightarrow> daq_info_override option
    \<Rightarrow> (pyexn, 's, daq_limits \<times> daq_list list \<times> int list) prog" where
  "DaqProcessor_setup master pid_off daq_lists override =
     (if \<not> supportsDaq master then praise RuntimeError
      else
        pbind (getDaqInfo master) (\<lambda>info0.
        pbind (plift (select_info info0 override)) (\<lambda>info.
        pbind (plift (compute_limits master pid_off info daq_lists)) (\<lambda>lim.
        pbind (plift (rmap (optimize_list lim) daq_lists)) (\<lambda>lists.
        let config_static = configType (processor info) = ''STATIC''
        in pbind (if config_static then pret () else program_lists master (min_daq lim) lists) (\<lambda>_.
           pbind (pmap (arm_list master lim)
                    (enumerate_from (if config_static then 0 else min_daq lim) lists)) (\<lambda>first_pids.
             pret (lim, lists, first_pids))))))))"

section \<open>Lemmas\<close>

subsection \<open>Cycle times\<close>

lemma Fraction_value:
  assumes "0 < d"
  shows "fst (Fraction n d) * d = n * snd (Fraction n d) \<and> 0 < snd (Fraction n d)"
proof -
  obtain a where n: "n = gcd n d * a" using gcd_dvd1 by blast
  obtain b where d: "d = gcd n d * b" using gcd_dvd2 by blast
  have g: "0 < gcd n d" using assms by (simp add: gcd_pos_int)
  from n g have na: "n div gcd n d = a" by (metis nonzero_mult_div_cancel_left less_irrefl)
  from d g have db: "d div gcd n d = b" by (metis nonzero_mult_div_cancel_left less_irrefl)
  have "0 < b" using d g assms by (metis zero_less_mult_pos)
  moreover have "a * d = n * b" by (subst (1) d, subst (1) n) simp
  ultimately show ?thesis by (simp add: Fraction_def na db)
qed

definition unit_ns :: "(int \<times> (int \<times> int)) list" where
  "unit_ns = [(0, (1, 1)), (1, (10, 1)), (2, (100, 1)), (3, (1000, 1)), (4, (10000, 1)),
     (5, (100000, 1)), (6, (1000000, 1)), (7, (10000000, 1)), (8, (100000000, 1)),
     (9, (1000000000, 1)), (10, (1, 1000)), (11, (1, 100)), (12, (1, 10))]"

lemma units_eq: "EVENT_CHANNEL_TIME_UNIT_TO_NS = unit_ns"
  by (simp add: EVENT_CHANNEL_TIME_UNIT_TO_NS_def unit_ns_def Fraction_def)

lemma ceil_div:
  assumes "0 < (q::int)" and "p * d = n * q" and "0 < d" and "k = (p + q - 1) div q"
  shows "(k - 1) * d < n \<and> n \<le> k * d"
proof -
  define r where "r = (p + q - 1) mod q"
  have r: "0 \<le> r" "r < q" using assms(1) by (simp_all add: r_def)
  have "p + q - 1 = k * q + r"
    using assms(4) div_mult_mod_eq [of "p + q - 1" q] by (simp add: r_def)
  with r have "(k - 1) * q < p" and "p \<le> k * q" by (simp_all add: algebra_simps)
  then have "(k - 1) * q * d < p * d" and "p * d \<le> k * q * d"
    using assms(3) by simp_all
  then have "((k - 1) * d) * q < n * q" and "n * q \<le> (k * d) * q"
    unfolding assms(2) by (simp_all only: mult.assoc mult.commute [of q d])
  with assms(1) show ?thesis by simp
qed

section \<open>Properties\<close>

text \<open>
  For the thirteen units of the protocol, \<open>event_channel_cycle_to_ns\<close> is the cycle time in
  nanoseconds rounded up to a whole one: with the unit \<open>n/d\<close> ns the result \<open>k\<close> satisfies
  \<open>(k - 1) * d < cycle * n \<le> k * d\<close>; a cycle of at least one never becomes zero. Any other unit raises
  \<open>ValueError\<close>.
\<close>

theorem event_cycle_rounds_up:
  assumes "0 \<le> cycle"
  shows "case map_of unit_ns unit of
      None \<Rightarrow> event_channel_cycle_to_ns cycle unit = Inl ValueError
    | Some (n, d) \<Rightarrow> \<exists>k. event_channel_cycle_to_ns cycle unit = Inr k
        \<and> (k - 1) * d < cycle * n \<and> cycle * n \<le> k * d \<and> (0 < cycle \<longrightarrow> 0 < k)"
proof (cases "map_of unit_ns unit")
  case None
  then show ?thesis by (simp add: event_channel_cycle_to_ns_def units_eq)
next
  case (Some nd)
  obtain n d where nd: "nd = (n, d)" by fastforce
  with map_of_SomeD [OF Some] have pos: "0 < n" "0 < d" by (auto simp: unit_ns_def)
  define v where "v = Fraction_mult (Fraction cycle 1) (n, d)"
  have v: "v = Fraction (cycle * n) d"
    by (simp add: v_def Fraction_mult_def Fraction_def)
  from Fraction_value [OF pos(2), of "cycle * n"] v
  have q: "0 < snd v" and eq: "fst v * d = (cycle * n) * snd v" by simp_all
  define k where "k = (fst v + snd v - 1) div snd v"
  from ceil_div [OF q eq pos(2) k_def] have k: "(k - 1) * d < cycle * n" "cycle * n \<le> k * d"
    by simp_all
  show ?thesis
  proof (cases "cycle = 0")
    case True
    then have "fst v = 0" by (simp add: v Fraction_def)
    with Some nd have "event_channel_cycle_to_ns cycle unit = Inr 0"
      by (simp add: event_channel_cycle_to_ns_def units_eq v_def)
    with Some nd pos True show ?thesis by simp
  next
    case False
    with assms pos have "0 < cycle * n" by simp
    with k(2) have "0 < k * d" by linarith
    with pos have "0 < k" by (simp add: zero_less_mult_iff)
    moreover from eq \<open>0 < cycle * n\<close> q pos have "fst v \<noteq> 0" by auto
    ultimately show ?thesis
      using Some nd k by (auto simp: event_channel_cycle_to_ns_def units_eq v_def [symmetric] k_def)
  qed
qed

theorem event_cycle_rounds_up_witness:
  "\<exists>k. event_channel_cycle_to_ns 1500 10 = Inr k \<and> (k - 1) * 1000 < 1500 \<and> 1500 \<le> k * 1000"
  using event_cycle_rounds_up [of 1500 10] by (auto simp: unit_ns_def)

subsection \<open>Layout\<close>

text \<open>Whether the frames of a list carry a time stamp, as the mode that arms it says.\<close>

definition stamped :: "daq_limits \<Rightarrow> daq_list \<Rightarrow> bool" where
  "stamped lim dl \<longleftrightarrow> supports_timestampes lim
     \<and> (ts_fixed lim \<or> (selectable_timestamps lim \<and> enable_timestamps dl))"

definition overhead :: "'s daq_master \<Rightarrow> daq_limits \<Rightarrow> int" where
  "overhead master lim = header_len lim + (if interleavedMode master then 1 else 0)
     - (if switch_pid_off lim then 1 else 0)"

lemma id_field_size_pos: "map_of DAQ_ID_FIELD_SIZE f = Some hl \<Longrightarrow> 1 \<le> hl"
  by (drule map_of_SomeD) (auto simp: DAQ_ID_FIELD_SIZE_def)

lemma timestamp_size_pos: "map_of DAQ_TIMESTAMP_SIZE f = Some n \<Longrightarrow> 0 \<le> n"
  by (drule map_of_SomeD) (auto simp: DAQ_TIMESTAMP_SIZE_def)

lemma timestamp_settings_Inr:
  "timestamp_settings info = Inr (fixed, tsz) \<Longrightarrow> 0 \<le> tsz"
  by (auto simp: timestamp_settings_def Let_def dest: timestamp_size_pos
      split: if_splits option.splits)

lemma compute_limits_cases:
  assumes "compute_limits master pid_off info daq_lists = Inr lim"
  obtains fixed tsz hl where "1 \<le> hl" "0 \<le> tsz" "lim = mk_limits master pid_off info fixed tsz hl"
  using assms
  by (auto simp: compute_limits_def rbind_Inr_iff split: if_splits option.splits)
    (blast intro: id_field_size_pos timestamp_settings_Inr)+

lemma compute_limits_Inr:
  assumes "compute_limits master pid_off info daq_lists = Inr lim"
  shows "max_odt_container_size lim = daqMaxDto master - overhead master lim"
    and "max_entry_size lim \<le> max_odt_container_size lim"
    and "max_entry_size lim \<le> maxOdtEntrySizeDaq (resolution info)"
    and "container_first lim dl
      = max_odt_container_size lim - (if stamped lim dl then ts_size lim else 0)"
    and "0 \<le> ts_size lim" and "1 \<le> header_len lim"
  using assms
  by (auto elim!: compute_limits_cases simp: mk_limits_def Let_def overhead_def container_first_def stamped_def)

lemma optimize_list_layout:
  "\<not> predefined dl \<Longrightarrow> optimize_list lim dl = rbind
    (ffd.layout (measurements dl) (max_entry_size lim) (max_odt_container_size lim) (container_first lim dl))
    (\<lambda>bins. Inr (dl\<lparr>measurements_opt := bins\<rparr>))"
  by (cases "make_continuous_blocks (measurements dl) (Some (max_entry_size lim)) (Some (max_entry_size lim))")
    (simp_all add: optimize_list_def ffd.layout_def)


definition sample_master :: "daq_cmd list daq_master" where
  "sample_master = \<lparr>supportsDaq = True, daqMaxDto = 8, interleavedMode = True,
     getDaqInfo = praise RuntimeError, daq_command = (\<lambda>c s. (Inr (), s @ [c])),
     startStopDaqList = (\<lambda>m i. pret i)\<rparr>"

definition sample_info :: daq_info where
  "sample_info = \<lparr>valid_processor = True, valid_resolution = True,
     processor = \<lparr>configType = ''DYNAMIC'', timestampSupported = True, prescalerSupported = False,
       pidOffSupported = False, identificationField = ''IDF_ABS_ODT_NUMBER'', minDaq = 0\<rparr>,
     resolution = \<lparr>maxOdtEntrySizeDaq = 4, timestamp_fixed = False, timestamp_size = ''S4'',
       timestamp_unit = ''DAQ_TIMESTAMP_UNIT_1US''\<rparr>\<rparr>"

definition sample_list :: daq_list where
  "sample_list = \<lparr>predefined = False, event_num = 0, stim = False, enable_timestamps = True,
     priority = 0, prescaler = 1, measurements = [McObject 0x100 0 2 [], McObject 0x200 0 4 []],
     measurements_opt = [], packed_mode = 0, packed_ts_mode = 0, packed_sample_count = 1\<rparr>"


subsection \<open>The command sequence\<close>

lemma pfor_simps [simp]:
  "pfor f [] = pret ()" "pfor f (x # xs) = pbind (f x) (\<lambda>_. pfor f xs)"
  by (simp_all add: pfor_def)

lemma pbind_unit: "pbind m (\<lambda>_. pret ()) = (m :: ('e, 's, unit) prog)"
  by (rule ext) (auto simp: pbind_def pret_def split: prod.split sum.split)

lemma pfor_append: "pfor f (xs @ ys) = pbind (pfor f xs) (\<lambda>_. pfor f ys)"
  by (induction xs) (simp_all add: pbind_assoc pbind_unfold)

lemma pfor_concat_map: "pfor (\<lambda>x. pfor f (g x)) xs = pfor f (concat (map g xs))"
  by (induction xs) (simp_all add: pfor_append)

lemma pfor_map: "pfor (\<lambda>x. f (g x)) xs = pfor f (map g xs)"
  by (induction xs) simp_all

text \<open>The commands as a list: three allocation phases, then the entries of every ODT.\<close>

definition odt_entry_cmds :: "int \<times> Bin list \<Rightarrow> daq_cmd list" where
  "odt_entry_cmds ib = map (\<lambda>(j, b). AllocOdtEntry (fst ib) j (int (length (entries b))))
     (enumerate_from 0 (snd ib))"

definition write_odt_cmds :: "int \<Rightarrow> int \<times> Bin \<Rightarrow> daq_cmd list" where
  "write_odt_cmds i jb = (if entries (snd jb) = [] then []
     else SetDaqPtr i (fst jb) 0 #
       map (\<lambda>e. WriteDaq 0xFF (mc_length e) (ext e) (address e)) (entries (snd jb)))"

definition write_cmds :: "int \<times> Bin list \<Rightarrow> daq_cmd list" where
  "write_cmds ib = concat (map (write_odt_cmds (fst ib)) (enumerate_from 0 (snd ib)))"

definition dynamic_lists :: "int \<Rightarrow> daq_list list \<Rightarrow> (int \<times> Bin list) list" where
  "dynamic_lists first_list daq_lists = map (\<lambda>(i, d). (i, measurements_opt d))
     (filter (\<lambda>(i, d). \<not> predefined d) (enumerate_from first_list daq_lists))"

definition list_commands :: "int \<Rightarrow> daq_list list \<Rightarrow> daq_cmd list" where
  "list_commands first_list daq_lists =
     (let dyn = dynamic_lists first_list daq_lists
      in [FreeDaq, AllocDaq (int (length daq_lists))]
         @ map (\<lambda>(i, bs). AllocOdt i (int (length bs))) dyn
         @ concat (map odt_entry_cmds dyn)
         @ concat (map write_cmds dyn))"

lemma write_odt_eq: "write_odt master i jb = pfor (daq_command master) (write_odt_cmds i jb)"
  by (cases jb) (simp add: write_odt_def write_odt_cmds_def pfor_map [symmetric])

lemma program_lists_eq:
  "program_lists master first_list daq_lists
    = pfor (daq_command master) (list_commands first_list daq_lists)"
proof -
  let ?dyn = "filter (\<lambda>(i, d). \<not> predefined d) (enumerate_from first_list daq_lists)"
  have alloc: "pfor (\<lambda>(i, d). daq_command master (AllocOdt i (int (length (measurements_opt d))))) ?dyn
      = pfor (daq_command master)
          (map (\<lambda>(i, bs). AllocOdt i (int (length bs))) (dynamic_lists first_list daq_lists))"
    by (simp add: dynamic_lists_def pfor_map [symmetric] case_prod_unfold)
  have entry: "pfor (\<lambda>(i, d). pfor (\<lambda>(j, b). daq_command master (AllocOdtEntry i j (int (length (entries b)))))
        (enumerate_from 0 (measurements_opt d))) ?dyn
      = pfor (daq_command master) (concat (map odt_entry_cmds (dynamic_lists first_list daq_lists)))"
    by (simp add: dynamic_lists_def odt_entry_cmds_def pfor_map [symmetric] pfor_concat_map [symmetric]
        case_prod_unfold o_def)
  have wr: "pfor (\<lambda>(i, d). pfor (write_odt master i) (enumerate_from 0 (measurements_opt d))) ?dyn
      = pfor (daq_command master) (concat (map write_cmds (dynamic_lists first_list daq_lists)))"
    by (simp add: dynamic_lists_def write_cmds_def write_odt_eq [abs_def] pfor_map [symmetric]
        pfor_concat_map [symmetric] case_prod_unfold o_def)
  show ?thesis
    by (simp add: program_lists_def list_commands_def Let_def alloc entry wr pfor_append)
qed

text \<open>
  The protocol's rules for the sequence: FREE_DAQ, ALLOC_DAQ, then all ALLOC_ODT, then all
  ALLOC_ODT_ENTRY; every command refers to what was allocated before, every ODT is allocated once,
  and WRITE_DAQ stays inside the entries of the ODT the pointer was set to.
\<close>

record allocation =
  phase :: nat
  lists :: "int \<times> int"
  odts :: "int \<Rightarrow> int option"
  odt_entries :: "int \<times> int \<Rightarrow> int option"
  pointer :: "(int \<times> int \<times> int) option"

fun alloc_step :: "int \<Rightarrow> daq_cmd \<Rightarrow> allocation \<Rightarrow> allocation option" where
  "alloc_step m FreeDaq s = Some \<lparr>phase = 1, lists = (m, m), odts = (\<lambda>_. None),
     odt_entries = (\<lambda>_. None), pointer = None\<rparr>"
| "alloc_step m (AllocDaq n) s = (if phase s = 1 then Some (s\<lparr>phase := 2, lists := (m, m + n)\<rparr>) else None)"
| "alloc_step m (AllocOdt l n) s =
     (if phase s \<in> {2, 3} \<and> fst (lists s) \<le> l \<and> l < snd (lists s) \<and> odts s l = None
      then Some (s\<lparr>phase := 3, odts := (odts s)(l \<mapsto> n)\<rparr>) else None)"
| "alloc_step m (AllocOdtEntry l o' n) s =
     (case odts s l of
        Some k \<Rightarrow> if phase s \<in> {3, 4} \<and> 0 \<le> o' \<and> o' < k \<and> odt_entries s (l, o') = None
                  then Some (s\<lparr>phase := 4, odt_entries := (odt_entries s)((l, o') \<mapsto> n)\<rparr>) else None
      | None \<Rightarrow> None)"
| "alloc_step m (SetDaqPtr l o' e) s =
     (case odt_entries s (l, o') of
        Some n \<Rightarrow> if 0 \<le> e \<and> e < n then Some (s\<lparr>pointer := Some (l, o', e)\<rparr>) else None
      | None \<Rightarrow> None)"
| "alloc_step m (WriteDaq b sz x a) s =
     (case pointer s of
        Some (l, o', e) \<Rightarrow>
          (case odt_entries s (l, o') of
             Some n \<Rightarrow> if e < n then Some (s\<lparr>pointer := Some (l, o', e + 1)\<rparr>) else None
           | None \<Rightarrow> None)
      | None \<Rightarrow> None)"
| "alloc_step m (SetDaqListMode _ _ _ _ _) s = Some s"
| "alloc_step m (SetDaqPackedMode _ _ _ _) s = Some s"

fun alloc_steps :: "int \<Rightarrow> daq_cmd list \<Rightarrow> allocation \<Rightarrow> allocation option" where
  "alloc_steps m [] s = Some s"
| "alloc_steps m (c # cs) s = (case alloc_step m c s of Some s' \<Rightarrow> alloc_steps m cs s' | None \<Rightarrow> None)"

lemma alloc_steps_append:
  "alloc_steps m (cs @ ds) s = Option.bind (alloc_steps m cs s) (alloc_steps m ds)"
  by (induction cs arbitrary: s) (auto split: option.split)

lemma alloc_odts:
  "distinct (map fst dyn) \<Longrightarrow> phase s \<in> {2, 3} \<Longrightarrow>
    \<forall>(i, bs) \<in> set dyn. fst (lists s) \<le> i \<and> i < snd (lists s) \<and> odts s i = None \<Longrightarrow>
    \<exists>s'. alloc_steps m (map (\<lambda>(i, bs). AllocOdt i (int (length bs))) dyn) s = Some s'
      \<and> phase s' = (if dyn = [] then phase s else 3) \<and> odt_entries s' = odt_entries s
      \<and> (\<forall>(i, bs) \<in> set dyn. odts s' i = Some (int (length bs)))
      \<and> (\<forall>i. i \<notin> fst ` set dyn \<longrightarrow> odts s' i = odts s i)"
proof (induction dyn arbitrary: s)
  case (Cons d dyn)
  obtain i bs where d: "d = (i, bs)" by fastforce
  let ?s = "s\<lparr>phase := 3, odts := (odts s)(i \<mapsto> int (length bs))\<rparr>"
  have "alloc_step m (AllocOdt i (int (length bs))) s = Some ?s"
    using Cons.prems d by auto
  moreover have "distinct (map fst dyn)" "phase ?s \<in> {2, 3}"
    "\<forall>(i', bs') \<in> set dyn. fst (lists ?s) \<le> i' \<and> i' < snd (lists ?s) \<and> odts ?s i' = None"
    using Cons.prems d by (auto simp: case_prod_unfold image_iff)
  from Cons.IH [OF this] obtain s' where
    "alloc_steps m (map (\<lambda>(i, bs). AllocOdt i (int (length bs))) dyn) ?s = Some s'"
    "phase s' = (if dyn = [] then phase ?s else 3)" "odt_entries s' = odt_entries ?s"
    "\<forall>(i, bs) \<in> set dyn. odts s' i = Some (int (length bs))"
    and other: "\<forall>i'. i' \<notin> fst ` set dyn \<longrightarrow> odts s' i' = odts ?s i'"
    by blast
  moreover have "odts s' i = Some (int (length bs))" using other Cons.prems(1) d by auto
  moreover have "\<forall>i'. i' \<notin> fst ` set (d # dyn) \<longrightarrow> odts s' i' = odts s i'" using other d by auto
  ultimately show ?case using d by (intro exI [of _ s']) auto
qed simp

lemma enumerate_from_Cons [simp]:
  "enumerate_from k [] = []"
  "enumerate_from k (x # xs) = (k, x) # enumerate_from (k + 1) xs"
proof -
  have "map (\<lambda>j. k + int j) [0..<Suc n] = k # map (\<lambda>j. k + 1 + int j) [0..<n]" for n
    by (subst upt_conv_Cons) (simp_all add: map_Suc_upt [symmetric] o_def ac_simps del: upt_Suc)
  then show "enumerate_from k (x # xs) = (k, x) # enumerate_from (k + 1) xs"
    by (simp add: enumerate_from_def del: upt_Suc)
qed (simp add: enumerate_from_def)

lemma alloc_entries_one:
  "odts s i = Some n \<Longrightarrow> k + int (length bs) \<le> n \<Longrightarrow> 0 \<le> k \<Longrightarrow> phase s \<in> {3, 4} \<Longrightarrow>
    \<forall>j \<ge> k. odt_entries s (i, j) = None \<Longrightarrow>
    \<exists>s'. alloc_steps m (map (\<lambda>(j, b). AllocOdtEntry i j (int (length (entries b)))) (enumerate_from k bs)) s = Some s'
      \<and> odts s' = odts s \<and> phase s' \<in> {3, 4}
      \<and> (\<forall>(j, b) \<in> set (enumerate_from k bs). odt_entries s' (i, j) = Some (int (length (entries b))))
      \<and> (\<forall>l j. l \<noteq> i \<or> j < k \<longrightarrow> odt_entries s' (l, j) = odt_entries s (l, j))"
proof (induction bs arbitrary: s k)
  case (Cons b bs)
  let ?s = "s\<lparr>phase := 4, odt_entries := (odt_entries s)((i, k) \<mapsto> int (length (entries b)))\<rparr>"
  have step: "alloc_step m (AllocOdtEntry i k (int (length (entries b)))) s = Some ?s"
    using Cons.prems by auto
  have "odts ?s i = Some n" "k + 1 + int (length bs) \<le> n" "0 \<le> k + 1" "phase ?s \<in> {3, 4}"
    "\<forall>j \<ge> k + 1. odt_entries ?s (i, j) = None"
    using Cons.prems by auto
  from Cons.IH [OF this] obtain s' where
    s': "alloc_steps m (map (\<lambda>(j, b). AllocOdtEntry i j (int (length (entries b)))) (enumerate_from (k + 1) bs)) ?s = Some s'"
      "odts s' = odts ?s" "phase s' \<in> {3, 4}"
      "\<forall>(j, b) \<in> set (enumerate_from (k + 1) bs). odt_entries s' (i, j) = Some (int (length (entries b)))"
    and other: "\<forall>l j. l \<noteq> i \<or> j < k + 1 \<longrightarrow> odt_entries s' (l, j) = odt_entries ?s (l, j)"
    by blast
  from other have "odt_entries s' (i, k) = Some (int (length (entries b)))" by simp
  moreover from other have "\<forall>l j. l \<noteq> i \<or> j < k \<longrightarrow> odt_entries s' (l, j) = odt_entries s (l, j)" by auto
  ultimately show ?case using step s' by (intro exI [of _ s']) auto
qed simp

lemma alloc_entries:
  "distinct (map fst dyn) \<Longrightarrow> dyn = [] \<or> phase s \<in> {3, 4} \<Longrightarrow>
    \<forall>(i, bs) \<in> set dyn. odts s i = Some (int (length bs)) \<and> (\<forall>j. odt_entries s (i, j) = None) \<Longrightarrow>
    \<exists>s'. alloc_steps m (concat (map odt_entry_cmds dyn)) s = Some s'
      \<and> (\<forall>(i, bs) \<in> set dyn. \<forall>(j, b) \<in> set (enumerate_from 0 bs).
           odt_entries s' (i, j) = Some (int (length (entries b))))
      \<and> (\<forall>l j. l \<notin> fst ` set dyn \<longrightarrow> odt_entries s' (l, j) = odt_entries s (l, j))"
proof (induction dyn arbitrary: s)
  case (Cons d dyn)
  obtain i bs where d: "d = (i, bs)" by fastforce
  have "odts s i = Some (int (length bs))" "0 + int (length bs) \<le> int (length bs)" "(0::int) \<le> 0"
    "phase s \<in> {3, 4}" "\<forall>j \<ge> 0. odt_entries s (i, j) = None"
    using Cons.prems d by auto
  from alloc_entries_one [OF this, of m] obtain s1 where
    s1: "alloc_steps m (odt_entry_cmds d) s = Some s1" "odts s1 = odts s" "phase s1 \<in> {3, 4}"
      "\<forall>(j, b) \<in> set (enumerate_from 0 bs). odt_entries s1 (i, j) = Some (int (length (entries b)))"
    and other: "\<forall>l j. l \<noteq> i \<or> j < 0 \<longrightarrow> odt_entries s1 (l, j) = odt_entries s (l, j)"
    by (auto simp: odt_entry_cmds_def d)
  have keep: "odt_entries s1 (l, j) = odt_entries s (l, j)" if "l \<noteq> i" for l j
    using other that by blast
  have ne: "i' \<noteq> i" if "(i', bs') \<in> set dyn" for i' bs'
    using Cons.prems(1) d that by force
  have rest: "\<forall>(i, bs) \<in> set dyn. odts s1 i = Some (int (length bs)) \<and> (\<forall>j. odt_entries s1 (i, j) = None)"
  proof (intro ballI, clarify)
    fix i' bs'
    assume i': "(i', bs') \<in> set dyn"
    with Cons.prems(3) s1(2) keep [OF ne [OF i']]
    show "odts s1 i' = Some (int (length bs')) \<and> (\<forall>j. odt_entries s1 (i', j) = None)" by auto
  qed
  have "distinct (map fst dyn)" "dyn = [] \<or> phase s1 \<in> {3, 4}"
    using Cons.prems(1) s1(3) by simp_all
  from Cons.IH [OF this rest] obtain s' where
    s': "alloc_steps m (concat (map odt_entry_cmds dyn)) s1 = Some s'"
      "\<forall>(i, bs) \<in> set dyn. \<forall>(j, b) \<in> set (enumerate_from 0 bs).
         odt_entries s' (i, j) = Some (int (length (entries b)))"
    and other': "\<forall>l j. l \<notin> fst ` set dyn \<longrightarrow> odt_entries s' (l, j) = odt_entries s1 (l, j)"
    by blast
  have "\<forall>(j, b) \<in> set (enumerate_from 0 bs). odt_entries s' (i, j) = Some (int (length (entries b)))"
    using s1(4) other' Cons.prems(1) d by auto
  moreover have "\<forall>l j. l \<notin> fst ` set (d # dyn) \<longrightarrow> odt_entries s' (l, j) = odt_entries s (l, j)"
    using other other' d by auto
  ultimately show ?case
    using s' s1(1) d by (intro exI [of _ s']) (auto simp: alloc_steps_append)
qed simp

lemma write_entries:
  "pointer s = Some (i, j, e) \<Longrightarrow> odt_entries s (i, j) = Some n \<Longrightarrow> e + int (length es) \<le> n \<Longrightarrow>
    \<exists>s'. alloc_steps m (map (\<lambda>e. WriteDaq 0xFF (mc_length e) (ext e) (address e)) es) s = Some s'
      \<and> odt_entries s' = odt_entries s"
proof (induction es arbitrary: s e)
  case (Cons x es)
  then have "pointer (s\<lparr>pointer := Some (i, j, e + 1)\<rparr>) = Some (i, j, e + 1)"
    "odt_entries (s\<lparr>pointer := Some (i, j, e + 1)\<rparr>) (i, j) = Some n" "e + 1 + int (length es) \<le> n"
    by auto
  from Cons.IH [OF this] Cons.prems show ?case by auto
qed simp

lemma write_odts:
  "\<forall>(j, b) \<in> set jbs. odt_entries s (i, j) = Some (int (length (entries b))) \<Longrightarrow>
    \<exists>s'. alloc_steps m (concat (map (write_odt_cmds i) jbs)) s = Some s' \<and> odt_entries s' = odt_entries s"
proof (induction jbs arbitrary: s)
  case (Cons jb jbs)
  obtain j b where jb: "jb = (j, b)" by fastforce
  have "\<exists>s1. alloc_steps m (write_odt_cmds i jb) s = Some s1 \<and> odt_entries s1 = odt_entries s"
  proof (cases "entries b = []")
    case False
    let ?s = "s\<lparr>pointer := Some (i, j, 0)\<rparr>"
    have "odt_entries s (i, j) = Some (int (length (entries b)))" using Cons.prems jb by auto
    with write_entries [of ?s i j 0 "int (length (entries b))" "entries b" m] False jb show ?thesis
      by (auto simp: write_odt_cmds_def)
  qed (simp add: write_odt_cmds_def jb)
  then obtain s1 where s1: "alloc_steps m (write_odt_cmds i jb) s = Some s1"
    "odt_entries s1 = odt_entries s" by blast
  then have "\<forall>(j, b) \<in> set jbs. odt_entries s1 (i, j) = Some (int (length (entries b)))"
    using Cons.prems by auto
  from Cons.IH [OF this] s1 show ?case by (auto simp: alloc_steps_append)
qed simp

lemma write_lists:
  "\<forall>(i, bs) \<in> set dyn. \<forall>(j, b) \<in> set (enumerate_from 0 bs).
      odt_entries s (i, j) = Some (int (length (entries b))) \<Longrightarrow>
    \<exists>s'. alloc_steps m (concat (map write_cmds dyn)) s = Some s' \<and> odt_entries s' = odt_entries s"
proof (induction dyn arbitrary: s)
  case (Cons d dyn)
  obtain i bs where d: "d = (i, bs)" by fastforce
  from Cons.prems d write_odts [of "enumerate_from 0 bs" s i m] obtain s1 where
    s1: "alloc_steps m (write_cmds d) s = Some s1" "odt_entries s1 = odt_entries s"
    by (auto simp: write_cmds_def)
  then have "\<forall>(i, bs) \<in> set dyn. \<forall>(j, b) \<in> set (enumerate_from 0 bs).
      odt_entries s1 (i, j) = Some (int (length (entries b)))"
    using Cons.prems by simp
  from Cons.IH [OF this] s1 show ?case by (auto simp: alloc_steps_append)
qed simp

lemma dynamic_lists_numbers:
  "distinct (map fst (dynamic_lists k ds))"
  "(i, bs) \<in> set (dynamic_lists k ds) \<Longrightarrow> k \<le> i \<and> i < k + int (length ds)"
proof -
  have range: "(i, d) \<in> set (enumerate_from k ds) \<Longrightarrow> k \<le> i \<and> i < k + int (length ds)" for i d
    by (auto simp: enumerate_from_def dest!: set_zip_leftD)
  then show "(i, bs) \<in> set (dynamic_lists k ds) \<Longrightarrow> k \<le> i \<and> i < k + int (length ds)"
    by (auto simp: dynamic_lists_def)
  have "distinct (map fst (enumerate_from k ds))"
    by (simp add: enumerate_from_def distinct_map inj_on_def)
  then have "distinct (map fst (filter (\<lambda>(i, d). \<not> predefined d) (enumerate_from k ds)))"
    by (rule distinct_map_filter)
  then show "distinct (map fst (dynamic_lists k ds))"
    by (simp add: dynamic_lists_def o_def case_prod_unfold)
qed


end
