(* ===== verification/Framing.thy ===== *)
theory Framing
  imports Struct_Codec
begin

unbundle bit_operations_syntax

text \<open>
  Transport-layer framing: \<open>XcpFraming\<close> (\<open>pyxcp/cpp_ext/framing.hpp\<close>), which puts header and tail
  around every request, the header formats of \<open>pyxcp/transport/base.py\<close>, and the reassembly of
  frames in the listener of \<open>pyxcp/transport/usb_transport.py\<close>.

  The locale \<open>frame_stream\<close> is the interface of a receiver that is fed a byte stream in pieces; it is
  interpreted on the USB listener for every header format.
\<close>

section \<open>Model\<close>

subsection \<open>Command codes\<close>

text \<open>\<open>while ((val >>= 1)) ++position;\<close>\<close>

function msb_loop :: "32 word \<Rightarrow> nat \<Rightarrow> nat" where
  "msb_loop val position =
     (let val' = drop_bit 1 val in if val' = 0 then position else msb_loop val' (Suc position))"
  by pat_completeness auto
termination
proof (relation "measure (\<lambda>(val, _). unat val)", simp)
  fix val val' :: "32 word" and position :: nat
  assume v: "val' = drop_bit 1 val" and "val' \<noteq> 0"
  then have "val \<noteq> 0" by auto
  then have "0 < unat val" by (simp add: unat_gt_0)
  moreover have "unat val' = unat val div 2" by (simp add: v drop_bit_eq_div unat_div)
  ultimately show "((val', Suc position), (val, position)) \<in> measure (\<lambda>(val, _). unat val)" by simp
qed

declare msb_loop.simps [simp del]

definition find_msb :: "32 word \<Rightarrow> nat" where
  "find_msb val = (if val = 0 then 1 else msb_loop val 0 + 1)"

definition byte_count :: "32 word \<Rightarrow> nat" where
  "byte_count val =
     (let high_bit = find_msb val
      in if high_bit > 24 then 4 else if high_bit > 16 then 3 else if high_bit > 8 then 2 else 1)"

definition serialize_cmd_value :: "32 word \<Rightarrow> bytes" where
  "serialize_cmd_value value =
     drop (4 - byte_count value)
       [ucast (drop_bit 24 (value AND 0xFF000000)), ucast (drop_bit 16 (value AND 0xFF0000)),
        ucast (drop_bit 8 (value AND 0xFF00)), ucast (value AND 0xFF)]"

definition serialize_word_le :: "16 word \<Rightarrow> bytes" where
  "serialize_word_le value = [ucast (value AND 0xFF), ucast (drop_bit 8 (value AND 0xFF00))]"

definition make_word_le :: "byte \<Rightarrow> byte \<Rightarrow> 16 word" where
  "make_word_le b0 b1 = ucast b0 OR push_bit 8 (ucast b1)"

subsection \<open>Framing of requests\<close>

datatype ChecksumType = NO_CHECKSUM | BYTE_CHECKSUM | WORD_CHECKSUM
datatype XcpTransportLayerType = CAN | ETH | SXI | USB

record XcpFramingConfig =
  transport_layer_type :: XcpTransportLayerType
  header_len :: nat
  header_ctr :: nat
  header_fill :: nat
  tail_fill :: bool
  tail_cs :: ChecksumType

record XcpFraming =
  counter_send :: "16 word"
  framing_type :: XcpFramingConfig

definition get_header_size :: "XcpFramingConfig \<Rightarrow> nat" where
  "get_header_size cfg = header_len cfg + header_ctr cfg + header_fill cfg"

definition checksum_byte :: "bytes \<Rightarrow> byte" where
  "checksum_byte bs = sum_list bs"

fun checksum_word :: "bytes \<Rightarrow> 16 word" where
  "checksum_word (b0 # b1 # bs) = make_word_le b0 b1 + checksum_word bs"
| "checksum_word _ = 0"

definition size_field :: "XcpFramingConfig \<Rightarrow> nat \<Rightarrow> bytes" where
  "size_field cfg n =
     (if header_len cfg = 0 then []
      else if header_len cfg = 1 then [word_of_nat n] else serialize_word_le (word_of_nat n))"

definition counter_field :: "XcpFramingConfig \<Rightarrow> 16 word \<Rightarrow> bytes" where
  "counter_field cfg c =
     (if header_ctr cfg = 0 then []
      else if header_ctr cfg = 1 then [ucast (c AND 0xFF)] else serialize_word_le c)"

definition header :: "XcpFramingConfig \<Rightarrow> nat \<Rightarrow> 16 word \<Rightarrow> bytes" where
  "header cfg n c = size_field cfg n @ counter_field cfg c @ replicate (header_fill cfg) 0"

text \<open>The part after the packet: fill bytes and checksum, on a serial line only.\<close>

definition align :: "bytes \<Rightarrow> bytes" where
  "align buf = (if odd (length buf) then buf @ [0] else buf)"

definition add_tail :: "XcpFramingConfig \<Rightarrow> bytes \<Rightarrow> bytes" where
  "add_tail cfg buf =
     (if transport_layer_type cfg = SXI then
        (let buf = (if tail_fill cfg \<and> tail_cs cfg = WORD_CHECKSUM then align buf else buf)
         in case tail_cs cfg of
              NO_CHECKSUM \<Rightarrow> buf
            | BYTE_CHECKSUM \<Rightarrow> buf @ [checksum_byte buf]
            | WORD_CHECKSUM \<Rightarrow> align buf @ serialize_word_le (checksum_word (align buf)))
      else buf)"

text \<open>
  The arguments are cast to bytes first, \<open>cast_error\<close> if one is not. The send buffer has 263 bytes;
  a longer frame is written beyond it, which is undefined behaviour: \<open>None\<close>.
\<close>

definition SEND_BUFFER :: nat where "SEND_BUFFER = 0xFF + 8"

definition to_byte :: "int \<Rightarrow> byte result" where
  "to_byte v = (if 0 \<le> v \<and> v < 256 then Inr (word_of_int v) else Inl CastError)"

definition prepare_request :: "int \<Rightarrow> int list \<Rightarrow> XcpFraming \<Rightarrow> (bytes option \<times> XcpFraming) result" where
  "prepare_request cmd data self =
     rbind (rmap to_byte data) (\<lambda>payload.
       let cfg = framing_type self;
           command_bytes = serialize_cmd_value (word_of_int cmd);
           packet = command_bytes @ payload;
           frame = add_tail cfg (header cfg (length packet) (counter_send self) @ packet)
       in Inr (if length frame \<le> SEND_BUFFER then Some frame else None,
               self\<lparr>counter_send := counter_send self + 1\<rparr>))"

definition unpack_header :: "XcpFramingConfig \<Rightarrow> bytes \<Rightarrow> nat \<Rightarrow> (nat \<times> nat) option" where
  "unpack_header cfg data initial_offset =
     (if get_header_size cfg + initial_offset \<le> length data then
        (let o1 = initial_offset;
             len = (if header_len cfg = 0 then 0
                    else if header_len cfg = 1 then unat (data ! o1)
                    else unat (make_word_le (data ! o1) (data ! (o1 + 1))));
             o2 = o1 + header_len cfg;
             ctr = (if header_ctr cfg = 0 then 0
                    else if header_ctr cfg = 1 then unat (data ! o2)
                    else unat (make_word_le (data ! o2) (data ! (o2 + 1))))
         in Some (len, ctr))
      else None)"

definition verify_checksum :: "XcpFramingConfig \<Rightarrow> bytes \<Rightarrow> bool" where
  "verify_checksum cfg data =
     (if transport_layer_type cfg \<noteq> SXI \<or> tail_cs cfg = NO_CHECKSUM then True
      else if tail_cs cfg = BYTE_CHECKSUM then
        (if length data < 1 then False else last data = checksum_byte (butlast data))
      else
        (if length data < 2 \<or> odd (length data) then False
         else make_word_le (data ! (length data - 2)) (data ! (length data - 1))
              = checksum_word (take (length data - 2) data)))"

subsection \<open>Header formats\<close>

definition parse_header_format :: "string \<Rightarrow> (nat \<times> nat \<times> nat) result" where
  "parse_header_format header_format =
     (if header_format = ''HEADER_LEN_BYTE'' then Inr (1, 0, 0)
      else if header_format = ''HEADER_LEN_CTR_BYTE'' then Inr (1, 1, 0)
      else if header_format = ''HEADER_LEN_FILL_BYTE'' then Inr (1, 0, 1)
      else if header_format = ''HEADER_LEN_WORD'' then Inr (2, 0, 0)
      else if header_format = ''HEADER_LEN_CTR_WORD'' then Inr (2, 2, 0)
      else if header_format = ''HEADER_LEN_FILL_WORD'' then Inr (2, 0, 2)
      else Inl ValueError)"

text \<open>The configuration of the USB transport.\<close>

definition usb_config :: "string \<Rightarrow> XcpFramingConfig result" where
  "usb_config header_format =
     rbind (parse_header_format header_format) (\<lambda>(l, c, f).
       Inr \<lparr>transport_layer_type = USB, header_len = l, header_ctr = c, header_fill = f,
            tail_fill = False, tail_cs = NO_CHECKSUM\<rparr>)"

subsection \<open>The USB listener\<close>

text \<open>
  The variables that survive from one packet to the next. A frame is what \<open>process_response\<close> gets:
  the response, its length and its counter.
\<close>

record usb_rx =
  rx_length :: "nat option"
  rx_counter :: nat
  rx_data :: bytes

type_synonym frame = "bytes \<times> nat \<times> nat"

text \<open>
  The inner loop for one packet: frames handed on so far, and what it leaves. An empty response makes
  \<open>process_response\<close> raise \<open>IndexError\<close>, which ends the listener's thread: \<open>None\<close>. So does the
  \<open>TypeError\<close> for an offset that is no \<open>uint16_t\<close>.
\<close>

partial_function (option) usb_loop ::
  "XcpFramingConfig \<Rightarrow> bytes \<Rightarrow> nat \<Rightarrow> nat \<Rightarrow> nat option \<Rightarrow> nat \<Rightarrow> frame list \<Rightarrow>
     (frame list \<times> usb_rx option) option" where
  "usb_loop cfg data current_size current_position len counter out =
     (case len of
        None \<Rightarrow>
          if get_header_size cfg \<le> current_size then
            if 2 ^ 16 \<le> current_position then Some (out, None) else
            (case unpack_header cfg data current_position of
               None \<Rightarrow> Some (out, None)
             | Some (l, c) \<Rightarrow>
                 usb_loop cfg data (current_size - get_header_size cfg)
                   (current_position + get_header_size cfg) (Some l) c out)
          else Some (out, Some \<lparr>rx_length = None, rx_counter = counter, rx_data = drop current_position data\<rparr>)
      | Some l \<Rightarrow>
          if l \<le> current_size then
            (let response = take l (drop current_position data) in
             if response = [] then Some (out, None)
             else usb_loop cfg data (current_size - l) (current_position + l) None counter
                    (out @ [(response, l, counter)]))
          else Some (out, Some \<lparr>rx_length = Some l, rx_counter = counter, rx_data = drop current_position data\<rparr>))"

definition usb_packet :: "XcpFramingConfig \<Rightarrow> usb_rx \<Rightarrow> bytes \<Rightarrow> (frame list \<times> usb_rx option) option" where
  "usb_packet cfg s bts =
     (let data = rx_data s @ bts
      in usb_loop cfg data (length data) 0 (rx_length s) (rx_counter s) [])"

text \<open>The outer loop over the packets, each with the time of its reception.\<close>

fun usb_listen ::
  "XcpFramingConfig \<Rightarrow> usb_rx \<Rightarrow> (bytes \<times> int) list \<Rightarrow> ((frame \<times> int) list \<times> usb_rx option) option" where
  "usb_listen cfg s [] = Some ([], Some s)"
| "usb_listen cfg s ((bts, timestamp) # packets) =
     (case usb_packet cfg s bts of
        None \<Rightarrow> None
      | Some (fs, None) \<Rightarrow> Some (map (\<lambda>f. (f, timestamp)) fs, None)
      | Some (fs, Some s') \<Rightarrow>
          (case usb_listen cfg s' packets of
             None \<Rightarrow> None
           | Some (gs, r) \<Rightarrow> Some (map (\<lambda>f. (f, timestamp)) fs @ gs, r)))"

definition usb_start :: usb_rx where
  "usb_start = \<lparr>rx_length = None, rx_counter = 0, rx_data = []\<rparr>"

section \<open>Streams of frames\<close>

text \<open>
  A receiver: \<open>rep s p\<close> says that in state \<open>s\<close> the bytes \<open>p\<close> have been fed and belong to no frame handed
  on so far. The law speaks of one piece; the client's lemma is about any way of cutting a stream.
\<close>

locale frame_stream =
  fixes feed :: "'s \<Rightarrow> byte list \<Rightarrow> ('f list \<times> 's option) option"
    and rep :: "'s \<Rightarrow> byte list \<Rightarrow> bool"
    and idle :: 's
    and encode :: "'f \<Rightarrow> byte list"
    and valid :: "'f \<Rightarrow> bool"
    and piece_ok :: "byte list \<Rightarrow> bool"
  assumes rep_idle: "rep idle []"
    and encode_unique: "valid f \<Longrightarrow> valid g \<Longrightarrow> encode f @ x = encode g @ y \<Longrightarrow> f = g"
    and encode_nonempty: "valid f \<Longrightarrow> encode f \<noteq> []"
    and feed_piece:
      "rep s p \<Longrightarrow> piece_ok b \<Longrightarrow> p @ b = concat (map encode fs) @ q \<Longrightarrow> list_all valid fs \<Longrightarrow>
       q = [] \<or> (\<exists>f r. valid f \<and> r \<noteq> [] \<and> encode f = q @ r) \<Longrightarrow>
       \<exists>s'. feed s b = Some (fs, Some s') \<and> rep s' q"
begin

fun feed_all :: "'s \<Rightarrow> byte list list \<Rightarrow> ('f list \<times> 's option) option" where
  "feed_all s [] = Some ([], Some s)"
| "feed_all s (b # bs) =
     (case feed s b of
        Some (fs, Some s') \<Rightarrow>
          (case feed_all s' bs of Some (gs, s'') \<Rightarrow> Some (fs @ gs, s'') | None \<Rightarrow> None)
      | r \<Rightarrow> r)"

lemma prefix_of_frames:
  assumes "x @ y = concat (map encode fs)" and "list_all valid fs"
  shows "\<exists>fs1 fs2 q. fs = fs1 @ fs2 \<and> x = concat (map encode fs1) @ q \<and> q @ y = concat (map encode fs2)
    \<and> (q = [] \<or> (\<exists>f r. valid f \<and> r \<noteq> [] \<and> encode f = q @ r))"
  using assms
proof (induction fs arbitrary: x)
  case (Cons f fs)
  show ?case
  proof (cases "length (encode f) \<le> length x")
    case True
    with Cons.prems(1) obtain x' where x: "x = encode f @ x'" "x' @ y = concat (map encode fs)"
      by (auto simp: append_eq_append_conv2) (metis append_Nil2 append_eq_append_conv le_antisym length_append le_add1)
    have "list_all valid fs" using Cons.prems(2) by simp
    from Cons.IH [OF x(2) this] obtain fs1 fs2 q where
      IH: "fs = fs1 @ fs2" "x' = concat (map encode fs1) @ q" "q @ y = concat (map encode fs2)"
        "q = [] \<or> (\<exists>f r. valid f \<and> r \<noteq> [] \<and> encode f = q @ r)" by blast
    show ?thesis
      by (intro exI [of _ "f # fs1"] exI [of _ fs2] exI [of _ q]) (use IH x in simp)
  next
    case False
    then have len: "length x < length (encode f)" by simp
    with Cons.prems(1) obtain r where r: "encode f = x @ r"
      by (auto simp: append_eq_append_conv2) metis
    with len have "r \<noteq> []" by auto
    moreover from Cons.prems(2) have "valid f" by simp
    ultimately show ?thesis
      using r Cons.prems(1) by (intro exI [of _ "[]"] exI [of _ "f # fs"] exI [of _ x]) auto
  qed
qed simp

lemma no_complete_frame:
  assumes "q = concat (map encode fs)" and "list_all valid fs"
    and "q = [] \<or> (\<exists>f r. valid f \<and> r \<noteq> [] \<and> encode f = q @ r)"
  shows "fs = []"
proof (cases fs)
  case (Cons g gs)
  with assms encode_nonempty [of g] have "q \<noteq> []" and g: "valid g" by auto
  with assms(3) obtain f r where f: "valid f" "r \<noteq> []" "encode f = q @ r" by blast
  with assms(1) Cons have "encode f @ [] = encode g @ (concat (map encode gs) @ r)" by simp
  from encode_unique [OF f(1) g this] this f(2) show ?thesis by simp
qed simp

lemma feed_all_frames:
  assumes "rep s p" and "p @ concat bs = concat (map encode fs)" and "list_all valid fs"
    and "list_all piece_ok bs" and "p = [] \<or> (\<exists>f r. valid f \<and> r \<noteq> [] \<and> encode f = p @ r)"
  shows "\<exists>s'. feed_all s bs = Some (fs, Some s') \<and> rep s' []"
  using assms
proof (induction bs arbitrary: s p fs)
  case Nil
  from Nil.prems(2) no_complete_frame [OF _ Nil.prems(3,5)] have "fs = []" by simp
  with Nil.prems show ?case by simp
next
  case (Cons b bs)
  have "(p @ b) @ concat bs = concat (map encode fs)" using Cons.prems(2) by simp
  from prefix_of_frames [OF this Cons.prems(3)] obtain fs1 fs2 q where
    split: "fs = fs1 @ fs2" "p @ b = concat (map encode fs1) @ q" "q @ concat bs = concat (map encode fs2)"
      "q = [] \<or> (\<exists>f r. valid f \<and> r \<noteq> [] \<and> encode f = q @ r)" by blast
  have "list_all valid fs1" "list_all valid fs2" using Cons.prems(3) split(1) by simp_all
  moreover obtain s1 where "feed s b = Some (fs1, Some s1)" "rep s1 q"
    using feed_piece [OF Cons.prems(1) _ split(2) _ split(4)] Cons.prems(4) calculation by auto
  moreover obtain s2 where "feed_all s1 bs = Some (fs2, Some s2)" "rep s2 []"
    using Cons.IH [OF \<open>rep s1 q\<close> split(3) \<open>list_all valid fs2\<close> _ split(4)] Cons.prems(4) by auto
  ultimately show ?case using split(1) by auto
qed

end

section \<open>Headers\<close>

lemma low_byte: "(w :: 16 word) AND 0xFF = take_bit 8 w"
proof -
  have "(0xFF :: 16 word) = mask 8" by (simp add: mask_eq_exp_minus_1)
  then show ?thesis by (simp only: take_bit_eq_mask)
qed

lemma high_byte: "drop_bit 8 (w :: 16 word) AND 0xFF = drop_bit 8 w"
  unfolding low_byte
  by (rule bit_word_eqI) (auto simp: bit_simps dest: bit_imp_le_length)

lemma make_word_le_serialize [simp]:
  "make_word_le (ucast ((w :: 16 word) AND 0xFF)) (ucast (drop_bit 8 w AND 0xFF)) = w"
  unfolding high_byte unfolding low_byte
  by (rule bit_word_eqI) (auto simp: make_word_le_def bit_simps)

lemma serialize_word_le_nth [simp]:
  "length (serialize_word_le w) = 2"
  "make_word_le (serialize_word_le w ! 0) (serialize_word_le w ! Suc 0) = w"
  by (simp_all add: serialize_word_le_def)

text \<open>The three header shapes: how the counter and the length of a frame must be bounded.\<close>

definition header_ok :: "XcpFramingConfig \<Rightarrow> bool" where
  "header_ok cfg \<longleftrightarrow> header_len cfg \<in> {1, 2} \<and> header_ctr cfg \<in> {0, 1, 2}"

definition in_range :: "XcpFramingConfig \<Rightarrow> nat \<Rightarrow> nat \<Rightarrow> bool" where
  "in_range cfg l c \<longleftrightarrow> l < 256 ^ header_len cfg \<and> c < 256 ^ header_ctr cfg"

lemma length_header: "header_ok cfg \<Longrightarrow> length (header cfg l c) = get_header_size cfg"
  by (auto simp: header_ok_def header_def size_field_def counter_field_def get_header_size_def)

lemma unat_word_of_nat_16: "n < 65536 \<Longrightarrow> unat (word_of_nat n :: 16 word) = n"
  by (simp add: unat_of_nat)

lemma unat_ucast_low: "c < 256 \<Longrightarrow> unat (ucast ((word_of_nat c :: 16 word) AND 0xFF) :: byte) = c"
  unfolding low_byte
  by (simp add: unsigned_ucast_eq unsigned_take_bit_eq unat_of_nat take_bit_nat_eq_self)

text \<open>One field of a header, at position \<open>k\<close>.\<close>

definition read_field :: "nat \<Rightarrow> bytes \<Rightarrow> nat \<Rightarrow> nat" where
  "read_field width data k =
     (if width = 0 then 0 else if width = 1 then unat (data ! k)
      else unat (make_word_le (data ! k) (data ! (k + 1))))"

lemma unpack_header_fields:
  "unpack_header cfg data pos =
     (if get_header_size cfg + pos \<le> length data
      then Some (read_field (header_len cfg) data pos, read_field (header_ctr cfg) data (pos + header_len cfg))
      else None)"
  by (simp add: unpack_header_def read_field_def Let_def)

lemma read_field_drop: "pos \<le> length data \<Longrightarrow> read_field w data (pos + i) = read_field w (drop pos data) i"
  by (simp add: read_field_def nth_drop add.assoc)

lemma read_size:
  assumes "header_ok cfg" and "in_range cfg l c"
  shows "read_field (header_len cfg) (size_field cfg l @ rest) 0 = l"
proof (cases "header_len cfg = 1")
  case True
  with assms(2) show ?thesis by (simp add: read_field_def size_field_def in_range_def unat_of_nat)
next
  case False
  with assms(1) have two: "header_len cfg = 2" by (auto simp: header_ok_def)
  with assms(2) have "l < 65536" by (simp add: in_range_def)
  with two show ?thesis
    by (simp add: read_field_def size_field_def nth_append unat_word_of_nat_16)
qed

lemma read_counter:
  assumes "header_ok cfg" and "in_range cfg l c"
  shows "read_field (header_ctr cfg) (counter_field cfg (word_of_nat c) @ rest) 0 = c"
proof -
  consider "header_ctr cfg = 0" | "header_ctr cfg = 1" | "header_ctr cfg = 2"
    using assms(1) by (auto simp: header_ok_def)
  then show ?thesis
  proof cases
    case 3
    with assms(2) have "c < 65536" by (simp add: in_range_def)
    with 3 show ?thesis
      by (simp add: read_field_def counter_field_def nth_append unat_word_of_nat_16)
  qed (use assms(2) in \<open>simp_all add: read_field_def counter_field_def in_range_def unat_ucast_low\<close>)
qed

lemma length_size_field: "header_ok cfg \<Longrightarrow> length (size_field cfg l) = header_len cfg"
  by (auto simp: header_ok_def size_field_def)

lemma unpack_header_header:
  assumes "header_ok cfg" and "in_range cfg l c" and "drop pos data = header cfg l (word_of_nat c) @ rest"
    and "pos \<le> length data"
  shows "unpack_header cfg data pos = Some (l, c)"
proof -
  have len: "get_header_size cfg + pos \<le> length data"
    using arg_cong [OF assms(3), of length] assms(4) by (simp add: length_header [OF assms(1)])
  have "read_field (header_len cfg) data pos = l"
    using read_field_drop [OF assms(4), of _ 0] read_size [OF assms(1,2)]
    by (simp add: assms(3) header_def)
  moreover have "read_field (header_ctr cfg) data (pos + header_len cfg) = c"
  proof -
    have pos: "pos + header_len cfg \<le> length data" using len by (simp add: get_header_size_def)
    have "drop (pos + header_len cfg) data = drop (header_len cfg) (drop pos data)"
      by (simp add: drop_drop add.commute)
    also have "\<dots> = counter_field cfg (word_of_nat c) @ replicate (header_fill cfg) 0 @ rest"
      by (simp add: assms(3) header_def length_size_field [OF assms(1)])
    finally show ?thesis
      using read_field_drop [OF pos, of _ 0] read_counter [OF assms(1,2)] by simp
  qed
  ultimately show ?thesis using len by (simp add: unpack_header_fields)
qed

section \<open>The USB listener\<close>

lemma usb_config_ok:
  assumes "usb_config fmt = Inr cfg"
  shows "header_ok cfg" and "0 < get_header_size cfg" and "get_header_size cfg \<le> 4"
    and "header_len cfg \<le> get_header_size cfg" and "transport_layer_type cfg = USB"
  using assms
  by (auto simp: usb_config_def parse_header_format_def header_ok_def get_header_size_def
      split: if_splits)

definition RECV_SIZE :: nat where "RECV_SIZE = 16384"

definition usb_ok :: "XcpFramingConfig \<Rightarrow> bool" where
  "usb_ok cfg \<longleftrightarrow> header_ok cfg \<and> 0 < get_header_size cfg"

text \<open>A frame as the slave sends it: header and payload.\<close>

definition usb_encode :: "XcpFramingConfig \<Rightarrow> frame \<Rightarrow> bytes" where
  "usb_encode cfg = (\<lambda>(payload, l, c). header cfg l (word_of_nat c) @ payload)"

definition usb_valid :: "XcpFramingConfig \<Rightarrow> frame \<Rightarrow> bool" where
  "usb_valid cfg = (\<lambda>(payload, l, c). usb_ok cfg \<and> payload \<noteq> [] \<and> l = length payload
     \<and> in_range cfg l c \<and> l + get_header_size cfg \<le> 2 ^ 16 - RECV_SIZE)"

definition usb_rep :: "XcpFramingConfig \<Rightarrow> usb_rx \<Rightarrow> bytes \<Rightarrow> bool" where
  "usb_rep cfg s p \<longleftrightarrow> length p \<le> 2 ^ 16 - RECV_SIZE
     \<and> (case rx_length s of
          None \<Rightarrow> p = rx_data s
        | Some l \<Rightarrow> p = header cfg l (word_of_nat (rx_counter s)) @ rx_data s \<and> in_range cfg l (rx_counter s))"

definition usb_piece_ok :: "XcpFramingConfig \<Rightarrow> bytes \<Rightarrow> bool" where
  "usb_piece_ok cfg b \<longleftrightarrow> usb_ok cfg \<and> length b \<le> RECV_SIZE"

abbreviation "partial_frame cfg q \<equiv>
  (q = [] \<or> (\<exists>f r. usb_valid cfg f \<and> r \<noteq> [] \<and> usb_encode cfg f = q @ r))"

lemma header_unique:
  assumes "header_ok cfg" and "in_range cfg l c" and "in_range cfg l' c'"
    and "header cfg l (word_of_nat c) @ x = header cfg l' (word_of_nat c') @ y"
  shows "l = l' \<and> c = c' \<and> x = y"
proof -
  let ?data = "header cfg l (word_of_nat c) @ x"
  have "unpack_header cfg ?data 0 = Some (l, c)"
    by (rule unpack_header_header [OF assms(1,2), where rest = x]) simp_all
  moreover have "unpack_header cfg ?data 0 = Some (l', c')"
    by (rule unpack_header_header [OF assms(1,3), where rest = y]) (simp_all add: assms(4))
  ultimately have "l = l'" "c = c'" by simp_all
  with assms(4) show ?thesis by simp
qed

lemma usb_encode_unique:
  assumes "usb_valid cfg f" and "usb_valid cfg g" and "usb_encode cfg f @ x = usb_encode cfg g @ y"
  shows "f = g"
proof -
  obtain p l c where f: "f = (p, l, c)" by (cases f)
  obtain p' l' c' where g: "g = (p', l', c')" by (cases g)
  have "l = l' \<and> c = c' \<and> p @ x = p' @ y"
    using assms by (intro header_unique [of cfg]) (auto simp: f g usb_valid_def usb_ok_def usb_encode_def)
  with assms(1,2) show ?thesis by (auto simp: f g usb_valid_def)
qed

text \<open>The start of a frame is either too short for a header, or a header and a part of the payload.\<close>

lemma partial_frame_cases:
  assumes "partial_frame cfg q" and "usb_ok cfg"
  shows "length q < get_header_size cfg \<or>
    (\<exists>l c d. q = header cfg l (word_of_nat c) @ d \<and> length d < l \<and> in_range cfg l c
       \<and> l + get_header_size cfg \<le> 2 ^ 16 - RECV_SIZE)"
proof (cases "length q < get_header_size cfg")
  case False
  with assms have "q \<noteq> []" by (auto simp: usb_ok_def)
  with assms(1) obtain p l c r where f: "usb_valid cfg (p, l, c)" "r \<noteq> []" "header cfg l (word_of_nat c) @ p = q @ r"
    by (auto simp: usb_encode_def)
  have "length (header cfg l (word_of_nat c)) = get_header_size cfg"
    using assms(2) by (simp add: length_header usb_ok_def)
  then have "take (get_header_size cfg) (q @ r) = header cfg l (word_of_nat c)"
    and "drop (get_header_size cfg) (q @ r) = p"
    by (simp_all add: f(3) [symmetric])
  with False have "q = header cfg l (word_of_nat c) @ drop (get_header_size cfg) q"
    and p: "p = drop (get_header_size cfg) q @ r"
    by (metis append_take_drop_id take_append diff_is_0_eq not_less take_0 append_Nil2)
      (use False \<open>drop (get_header_size cfg) (q @ r) = p\<close> in simp)
  moreover have "length (drop (get_header_size cfg) q) < l"
    using f(1,2) p by (auto simp: usb_valid_def)
  moreover have "in_range cfg l c" "l + get_header_size cfg \<le> 2 ^ 16 - RECV_SIZE"
    using f(1) by (auto simp: usb_valid_def)
  ultimately show ?thesis by blast
qed simp

lemma usb_loop_waiting:
  assumes "length data - pos < l" and "pos \<le> length data"
  shows "usb_loop cfg data (length data - pos) pos (Some l) c out =
    Some (out, Some \<lparr>rx_length = Some l, rx_counter = c, rx_data = drop pos data\<rparr>)"
  using assms by (subst usb_loop.simps) simp

lemma usb_loop_payload:
  assumes "drop pos data = p @ rest" and "pos \<le> length data" and "p \<noteq> []"
  shows "usb_loop cfg data (length data - pos) pos (Some (length p)) c out =
    usb_loop cfg data (length data - (pos + length p)) (pos + length p) None c (out @ [(p, length p, c)])"
proof -
  have "length p \<le> length data - pos" using arg_cong [OF assms(1), of length] by simp
  then show ?thesis
    by (subst usb_loop.simps) (simp add: assms(1,3))
qed

lemma usb_loop_header:
  assumes "usb_ok cfg" and "in_range cfg l c" and "drop pos data = header cfg l (word_of_nat c) @ rest"
    and "pos \<le> length data" and "pos < 2 ^ 16"
  shows "usb_loop cfg data (length data - pos) pos None c' out =
    usb_loop cfg data (length data - (pos + get_header_size cfg)) (pos + get_header_size cfg) (Some l) c out"
proof -
  have ok: "header_ok cfg" using assms(1) by (simp add: usb_ok_def)
  have "get_header_size cfg \<le> length data - pos"
    using arg_cong [OF assms(3), of length] by (simp add: length_header [OF ok])
  then show ?thesis
    using assms(5) by (subst usb_loop.simps) (simp add: unpack_header_header [OF ok assms(2,3,4)])
qed

lemma usb_loop_frames:
  assumes "usb_ok cfg" and "drop pos data = concat (map (usb_encode cfg) fs) @ q" and "pos \<le> length data"
    and "list_all (usb_valid cfg) fs" and "partial_frame cfg q" and "length data \<le> 2 ^ 16"
  shows "\<exists>s'. usb_loop cfg data (length data - pos) pos None c0 out = Some (out @ fs, Some s') \<and> usb_rep cfg s' q"
  using assms(2-4)
proof (induction fs arbitrary: pos c0 out)
  case Nil
  then have q: "drop pos data = q" by simp
  have len: "length q = length data - pos" using q by auto
  from partial_frame_cases [OF assms(5,1)] show ?case
  proof
    assume short: "length q < get_header_size cfg"
    have "length q \<le> 2 ^ 16 - RECV_SIZE"
    proof (cases "q = []")
      case False
      with assms(5) obtain f r where "usb_valid cfg f" "usb_encode cfg f = q @ r" by blast
      then have "length q \<le> length (usb_encode cfg f)" by simp
      with \<open>usb_valid cfg f\<close> show ?thesis
        using length_header [of cfg] by (cases f) (auto simp: usb_valid_def usb_ok_def usb_encode_def)
    qed simp
    then show ?thesis
      using short len q by (subst usb_loop.simps) (simp add: usb_rep_def)
  next
    assume "\<exists>l c d. q = header cfg l (word_of_nat c) @ d \<and> length d < l \<and> in_range cfg l c
       \<and> l + get_header_size cfg \<le> 2 ^ 16 - RECV_SIZE"
    then obtain l c d where d: "q = header cfg l (word_of_nat c) @ d" "length d < l" "in_range cfg l c"
      "l + get_header_size cfg \<le> 2 ^ 16 - RECV_SIZE" by blast
    have hl: "length (header cfg l (word_of_nat c)) = get_header_size cfg"
      using assms(1) by (simp add: usb_ok_def length_header)
    have "0 < length q" using assms(1) hl d(1) by (simp add: usb_ok_def)
    with len assms(6) have pos: "pos < 2 ^ 16" by linarith
    have rest: "drop (pos + get_header_size cfg) data = d"
      using q d(1) hl by (metis add.commute append_eq_conv_conj drop_drop)
    have pos2: "pos + get_header_size cfg \<le> length data"
      using len d(1) hl Nil.prems(2) by simp
    have "length data - (pos + get_header_size cfg) < l" using rest d(2) by (metis length_drop)
    from usb_loop_waiting [OF this pos2] show ?thesis
      using usb_loop_header [OF assms(1) d(3) _ Nil.prems(2) pos, of d] q d hl rest
      by (simp add: usb_rep_def)
  qed
next
  case (Cons f fs)
  obtain p l c where f: "f = (p, l, c)" by (cases f)
  with Cons.prems(3) have v: "in_range cfg l c" "p \<noteq> []" "l = length p" by (auto simp: usb_valid_def)
  let ?h = "header cfg l (word_of_nat c)" and ?rest = "concat (map (usb_encode cfg) fs) @ q"
  have data: "drop pos data = ?h @ p @ ?rest" using Cons.prems(1) by (simp add: f usb_encode_def)
  have hl: "length ?h = get_header_size cfg" using assms(1) by (simp add: usb_ok_def length_header)
  have total: "length data - pos = get_header_size cfg + length p + length ?rest"
    using arg_cong [OF data, of length] by (simp only: length_drop length_append hl)
  have d1: "drop (pos + get_header_size cfg) data = p @ ?rest"
    using data hl by (metis add.commute append_eq_conv_conj drop_drop)
  have d2: "drop (pos + get_header_size cfg + length p) data = ?rest"
    using d1 by (metis add.commute append_eq_conv_conj drop_drop)
  have "0 < length p" using v(2) by simp
  with total assms(6) have pos: "pos < 2 ^ 16" by linarith
  have pos1: "pos + get_header_size cfg \<le> length data" using total \<open>0 < length p\<close> by linarith
  have pos2: "pos + get_header_size cfg + length p \<le> length data" using total \<open>0 < length p\<close> by linarith
  have "list_all (usb_valid cfg) fs" using Cons.prems(3) by simp
  from Cons.IH [OF d2 pos2 this, of c "out @ [(p, l, c)]"] obtain s' where
    "usb_loop cfg data (length data - (pos + get_header_size cfg + length p)) (pos + get_header_size cfg + length p)
       None c (out @ [(p, l, c)]) = Some ((out @ [(p, l, c)]) @ fs, Some s')" "usb_rep cfg s' q"
    by blast
  then show ?case
    using usb_loop_header [OF assms(1) v(1) data Cons.prems(2) pos] usb_loop_payload [OF d1 pos1 v(2)] f v(3)
    by simp
qed

lemma usb_feed_piece:
  assumes "usb_rep cfg s p" and "usb_piece_ok cfg b"
    and "p @ b = concat (map (usb_encode cfg) fs) @ q"
    and "list_all (usb_valid cfg) fs" and "partial_frame cfg q"
  shows "\<exists>s'. usb_packet cfg s b = Some (fs, Some s') \<and> usb_rep cfg s' q"
proof (cases "rx_length s")
  case None
  with assms(1) have p: "p = rx_data s" "length p \<le> 2 ^ 16 - RECV_SIZE" by (auto simp: usb_rep_def)
  with assms(2) have "length (p @ b) \<le> 2 ^ 16" by (simp add: usb_piece_ok_def RECV_SIZE_def)
  moreover have "usb_ok cfg" using assms(2) by (simp add: usb_piece_ok_def)
  moreover have "drop 0 (p @ b) = concat (map (usb_encode cfg) fs) @ q" using assms(3) by simp
  ultimately obtain s' where
    "usb_loop cfg (p @ b) (length (p @ b) - 0) 0 None (rx_counter s) [] = Some ([] @ fs, Some s')"
    "usb_rep cfg s' q"
    using usb_loop_frames [OF _ _ le0 assms(4,5)] by blast
  then show ?thesis
    using None by (simp add: usb_packet_def p(1))
next
  case (Some l)
  let ?c = "rx_counter s" and ?d = "rx_data s @ b"
  let ?h = "header cfg l (word_of_nat ?c)"
  have ok: "usb_ok cfg" "header_ok cfg" using assms(2) by (simp_all add: usb_piece_ok_def usb_ok_def)
  have p: "p = ?h @ rx_data s" "in_range cfg l ?c" and "length p \<le> 2 ^ 16 - RECV_SIZE"
    using assms(1) Some by (auto simp: usb_rep_def)
  have len: "length ?d \<le> 2 ^ 16" using p(1) \<open>length p \<le> _\<close> assms(2) by (simp add: usb_piece_ok_def RECV_SIZE_def)
  have stream: "?h @ ?d = concat (map (usb_encode cfg) fs) @ q" using assms(3) p(1) by simp
  show ?thesis
  proof (cases fs)
    case Nil
    have "0 < length q"
      using stream Nil ok length_header [OF ok(2), of l "word_of_nat ?c"] by (auto simp: usb_ok_def simp flip: length_greater_0_conv)
    then obtain f r where f: "usb_valid cfg f" "r \<noteq> []" "usb_encode cfg f = q @ r" using assms(5) by auto
    obtain p' l' c' where f': "f = (p', l', c')" by (cases f)
    have "header cfg l' (word_of_nat c') @ p' = ?h @ (?d @ r)"
      using f(3) stream Nil by (simp add: f' usb_encode_def)
    with header_unique [OF ok(2) _ p(2)] f(1) f' have eq: "l' = l" "c' = ?c" "p' = ?d @ r"
      by (auto simp: usb_valid_def)
    with f(1,2) f' have "length ?d < l" by (auto simp: usb_valid_def)
    moreover have "length q \<le> 2 ^ 16 - RECV_SIZE"
    proof -
      have "length q \<le> length (usb_encode cfg f)" using f(3) by simp
      with f(1) length_header [OF ok(2)] show ?thesis
        by (auto simp: f' usb_valid_def usb_encode_def)
    qed
    ultimately show ?thesis
      using usb_loop_waiting [of ?d 0 l cfg ?c "[]"] Some Nil stream p(2)
      by (simp add: usb_packet_def usb_rep_def)
  next
    case (Cons f gs)
    obtain p' l' c' where f: "f = (p', l', c')" by (cases f)
    let ?rest = "concat (map (usb_encode cfg) gs) @ q"
    have v: "in_range cfg l' c'" "p' \<noteq> []" "l' = length p'" "list_all (usb_valid cfg) gs"
      using assms(4) by (auto simp: Cons f usb_valid_def)
    have "?h @ ?d = header cfg l' (word_of_nat c') @ (p' @ ?rest)"
      using stream by (simp add: Cons f usb_encode_def)
    with header_unique [OF ok(2) p(2) v(1)] have eq: "l = l'" "?c = c'" and d: "?d = p' @ ?rest" by auto
    have "drop (length p') ?d = ?rest" "length p' \<le> length ?d" by (simp_all add: d)
    from usb_loop_frames [OF ok(1) this v(4) assms(5) len, of c' "[(p', l', c')]"]
    show ?thesis
      using usb_loop_payload [of 0 ?d p' ?rest cfg c' "[]"] d v(2,3) eq Some
      by (simp add: usb_packet_def Cons f)
  qed
qed

interpretation usb: frame_stream "usb_packet cfg" "usb_rep cfg" usb_start "usb_encode cfg" "usb_valid cfg"
    "usb_piece_ok cfg" for cfg
proof
  show "usb_rep cfg usb_start []" by (simp add: usb_rep_def usb_start_def)
  show "f = g" if "usb_valid cfg f" "usb_valid cfg g" "usb_encode cfg f @ x = usb_encode cfg g @ y" for f g x y
    using that by (rule usb_encode_unique)
  show "usb_encode cfg f \<noteq> []" if "usb_valid cfg f" for f
    using that by (cases f) (auto simp: usb_valid_def usb_encode_def)
  show "\<exists>s'. usb_packet cfg s b = Some (fs, Some s') \<and> usb_rep cfg s' q"
    if "usb_rep cfg s p" "usb_piece_ok cfg b" "p @ b = concat (map (usb_encode cfg) fs) @ q"
      "list_all (usb_valid cfg) fs" "partial_frame cfg q" for s p b fs q
    using that by (rule usb_feed_piece)
qed

lemma usb_listen_feed_all:
  "map_option (\<lambda>(out, r). (map fst out, r)) (usb_listen cfg s packets) = usb.feed_all cfg s (map fst packets)"
proof (induction packets arbitrary: s)
  case (Cons p packets)
  obtain bts ts where p: "p = (bts, ts)" by (cases p)
  show ?case
  proof (cases "usb_packet cfg s bts")
    case (Some r)
    obtain fs s' where r: "r = (fs, s')" by (cases r)
    show ?thesis
    proof (cases s')
      case s': (Some s1)
      with Cons.IH [of s1] show ?thesis
        by (cases "usb_listen cfg s1 packets")
          (auto simp: p Some r o_def split: option.splits)
    qed (simp add: p Some r o_def)
  qed (simp add: p)
qed simp

section \<open>Requests\<close>

lemma rmap_to_byte: "\<forall>v \<in> set data. 0 \<le> v \<and> v < 256 \<Longrightarrow> rmap to_byte data = Inr (map word_of_int data)"
  by (intro rmap_total) (auto simp: to_byte_def)

lemma rmap_to_byte_error: "\<exists>v \<in> set data. v < 0 \<or> 256 \<le> v \<Longrightarrow> rmap to_byte data = Inl CastError"
proof (induction data)
  case (Cons a data)
  show ?case
  proof (cases "0 \<le> a \<and> a < 256")
    case True
    with Cons.prems have "\<exists>v \<in> set data. v < 0 \<or> 256 \<le> v" by auto
    from Cons.IH [OF this] True show ?thesis by (simp add: to_byte_def)
  qed (auto simp: to_byte_def)
qed simp

lemma length_align: "length (align buf) \<le> Suc (length buf)" "even (length (align buf))"
  by (simp_all add: align_def)

lemma align_prefix: "\<exists>n. align buf = buf @ replicate n 0"
  by (cases "odd (length buf)") (auto simp: align_def intro: exI [of _ 1] exI [of _ 0])

lemma add_tail_extends: "\<exists>t. add_tail cfg buf = buf @ t \<and> length t \<le> 3"
proof -
  have "\<exists>n. align (align buf) = buf @ replicate n 0 \<and> n \<le> 1"
    by (cases "odd (length buf)") (auto simp: align_def intro: exI [of _ 1] exI [of _ 0])
  moreover have "\<exists>n. align buf = buf @ replicate n 0 \<and> n \<le> 1"
    by (cases "odd (length buf)") (auto simp: align_def intro: exI [of _ 1] exI [of _ 0])
  ultimately show ?thesis
    by (cases "tail_cs cfg") (auto simp: add_tail_def Let_def)
qed

lemma verify_add_tail: "verify_checksum cfg (add_tail cfg buf)"
proof (cases "transport_layer_type cfg = SXI")
  case True
  show ?thesis
  proof (cases "tail_cs cfg")
    case WORD_CHECKSUM
    have v: "verify_checksum cfg (b @ serialize_word_le (checksum_word b))" if "even (length b)" for b
      using that WORD_CHECKSUM True by (simp add: verify_checksum_def nth_append)
    show ?thesis
      using WORD_CHECKSUM True v length_align by (simp add: add_tail_def Let_def)
  qed (use True in \<open>simp_all add: add_tail_def verify_checksum_def\<close>)
qed (simp add: verify_checksum_def)

lemma make_word_le_parts:
  "ucast (make_word_le a b) = a"
  "ucast (drop_bit 8 (make_word_le a b)) = b"
  by (rule bit_word_eqI; auto simp: make_word_le_def bit_simps dest: bit_imp_le_length)+

lemma make_word_le_inject: "make_word_le a b = make_word_le c d \<Longrightarrow> a = c \<and> b = d"
  by (metis make_word_le_parts)

lemma sum_list_one_changed:
  "i < length xs \<Longrightarrow> sum_list (xs[i := b]) = sum_list xs - xs ! i + (b :: byte)"
proof (induction xs arbitrary: i)
  case (Cons x xs)
  then show ?case by (cases i) (simp_all add: algebra_simps)
qed simp

lemma checksum_word_one_changed:
  "i < length xs \<Longrightarrow> even (length xs) \<Longrightarrow> b \<noteq> xs ! i \<Longrightarrow> checksum_word (xs[i := b]) \<noteq> checksum_word xs"
proof (induction xs arbitrary: i rule: checksum_word.induct)
  case (1 b0 b1 bs)
  show ?case
  proof (cases i)
    case 0
    with "1.prems" make_word_le_inject [of b b1 b0 b1] show ?thesis by auto
  next
    case (Suc j)
    show ?thesis
    proof (cases j)
      case 0
      with Suc "1.prems" make_word_le_inject [of b0 b b0 b1] show ?thesis by auto
    next
      case (Suc k)
      with \<open>i = Suc j\<close> "1.prems" "1.IH" [of k] show ?thesis by simp
    qed
  qed
qed simp_all

text \<open>A serial frame that differs from an accepted one in exactly one byte is rejected, with either checksum.\<close>

lemma one_byte_changed:
  assumes "transport_layer_type cfg = SXI" and "tail_cs cfg \<noteq> NO_CHECKSUM"
    and "verify_checksum cfg data" and "i < length data" and "b \<noteq> data ! i"
  shows "\<not> verify_checksum cfg (data[i := b])"
proof (cases "tail_cs cfg")
  case NO_CHECKSUM
  with assms(2) show ?thesis by simp
next
  case BYTE_CHECKSUM
  from assms(4) obtain bs c where data: "data = bs @ [c]" by (cases data rule: rev_cases) auto
  with assms(1,3) BYTE_CHECKSUM have c: "c = sum_list bs" by (simp add: verify_checksum_def checksum_byte_def)
  show ?thesis
  proof (cases "i < length bs")
    case True
    then have "data[i := b] = bs[i := b] @ [c]" "data ! i = bs ! i"
      by (simp_all add: data list_update_append nth_append)
    with sum_list_one_changed [OF True, of b] assms(1,5) BYTE_CHECKSUM c show ?thesis
      by (simp add: verify_checksum_def checksum_byte_def)
  next
    case False
    with assms(4) data have "i = length bs" by simp
    with assms(1,5) BYTE_CHECKSUM c data show ?thesis
      by (simp add: verify_checksum_def checksum_byte_def)
  qed
next
  case WORD_CHECKSUM
  have len: "2 \<le> length data" "even (length data)"
    and sum: "make_word_le (data ! (length data - 2)) (data ! (length data - 1))
      = checksum_word (take (length data - 2) data)"
    using assms(1,3) WORD_CHECKSUM by (auto simp: verify_checksum_def split: if_splits)
  show ?thesis
  proof (cases "i < length data - 2")
    case True
    then have "checksum_word ((take (length data - 2) data)[i := b]) \<noteq> checksum_word (take (length data - 2) data)"
      using len assms(5) by (intro checksum_word_one_changed) auto
    with sum True len assms(1) WORD_CHECKSUM show ?thesis
      by (auto simp: verify_checksum_def take_update_swap)
  next
    case False
    let ?a = "data ! (length data - 2)" and ?b = "data ! (length data - 1)"
    from False have same: "take (length data - 2) (data[i := b]) = take (length data - 2) data"
      by simp
    from False len assms(4) have "i = length data - 2 \<or> i = length data - 1" by linarith
    then have "make_word_le (data[i := b] ! (length data - 2)) (data[i := b] ! (length data - 1)) \<noteq> make_word_le ?a ?b"
    proof
      assume "i = length data - 2"
      with len assms(5) make_word_le_inject [of b ?b ?a ?b] show ?thesis by auto
    next
      assume "i = length data - 1"
      moreover from this len have "data[i := b] ! (length data - 2) = ?a" by simp
      ultimately show ?thesis
        using assms(4,5) make_word_le_inject [of ?a b ?a ?b] by auto
    qed
    with sum same len assms(1) WORD_CHECKSUM show ?thesis by (simp add: verify_checksum_def)
  qed
qed

lemma find_msb_bounds:
  "val \<noteq> 0 \<Longrightarrow> 2 ^ (msb_loop val p - p) \<le> unat val \<and> unat val < 2 ^ (msb_loop val p - p + 1) \<and> p \<le> msb_loop val p"
proof (induction val p rule: msb_loop.induct)
  case (1 val p)
  have half: "unat (drop_bit 1 val) = unat val div 2" by (simp add: drop_bit_eq_div unat_div)
  have pos: "0 < unat val" using "1.prems" by (simp add: unat_gt_0)
  show ?case
  proof (cases "drop_bit 1 val = 0")
    case True
    then have "unat val div 2 = 0" using half by (metis unat_0)
    with pos have "unat val = 1" by arith
    with True show ?thesis by (subst (1 2 3) msb_loop.simps) simp
  next
    case False
    define m where "m = msb_loop (drop_bit 1 val) (Suc p)"
    from "1.IH" [OF refl False False, unfolded half] have IH: "2 ^ (m - Suc p) \<le> unat val div 2"
      "unat val div 2 < 2 ^ (m - Suc p + 1)" "Suc p \<le> m"
      by (simp_all add: m_def)
    have "msb_loop val p = m" using False by (subst msb_loop.simps) (simp add: m_def Let_def)
    moreover have "m - p = Suc (m - Suc p)" using IH(3) by simp
    ultimately show ?thesis
      using IH by (simp add: less_eq_div_iff_mult_less_eq div_less_iff_less_mult)
  qed
qed

lemma byte_count_bounds:
  "byte_count val = 1 \<and> unat val < 2 ^ 8 \<or> byte_count val = 2 \<and> 2 ^ 8 \<le> unat val \<and> unat val < 2 ^ 16
   \<or> byte_count val = 3 \<and> 2 ^ 16 \<le> unat val \<and> unat val < 2 ^ 24 \<or> byte_count val = 4 \<and> 2 ^ 24 \<le> unat val"
proof (cases "val = 0")
  case True
  then show ?thesis by (simp add: byte_count_def find_msb_def)
next
  case False
  define m where "m = msb_loop val 0"
  from find_msb_bounds [OF False, of 0] have m: "2 ^ m \<le> unat val" "unat val < 2 ^ (m + 1)"
    by (simp_all add: m_def)
  have low: "2 ^ k \<le> unat val" if "k \<le> m" for k
    using m(1) by (meson le_trans one_le_numeral power_increasing that)
  have high: "unat val < 2 ^ k" if "m + 1 \<le> k" for k
    using m(2) by (meson less_le_trans one_le_numeral power_increasing that)
  have msb: "find_msb val = m + 1" using False by (simp add: find_msb_def m_def)
  consider "m < 8" | "8 \<le> m" "m < 16" | "16 \<le> m" "m < 24" | "24 \<le> m" by linarith
  then show ?thesis
  proof cases
    case 1
    with high [of 8] show ?thesis by (simp add: byte_count_def msb)
  next
    case 2
    with high [of 16] low [of 8] show ?thesis by (simp add: byte_count_def msb)
  next
    case 3
    with high [of 24] low [of 16] show ?thesis by (simp add: byte_count_def msb)
  next
    case 4
    with low [of 24] show ?thesis by (simp add: byte_count_def msb)
  qed
qed

lemma word_bytes:
  fixes v :: "32 word"
  shows "uint (ucast (v AND 0xFF) :: byte) = uint v mod 256"
    and "uint (ucast (drop_bit 8 (v AND 0xFF00)) :: byte) = uint v div 2 ^ 8 mod 256"
    and "uint (ucast (drop_bit 16 (v AND 0xFF0000)) :: byte) = uint v div 2 ^ 16 mod 256"
    and "uint (ucast (drop_bit 24 (v AND 0xFF000000)) :: byte) = uint v div 2 ^ 24 mod 256"
proof -
  have m: "(0xFF :: 32 word) = mask 8" by (simp add: mask_eq_exp_minus_1)
  have low: "uint (ucast (w AND 0xFF) :: byte) = uint w mod 256" for w :: "32 word"
    unfolding m take_bit_eq_mask [symmetric]
    by (simp add: unsigned_ucast_eq unsigned_take_bit_eq take_bit_eq_mod uint_mod)
  show "uint (ucast (v AND 0xFF) :: byte) = uint v mod 256" by (rule low)
  have drop: "uint (drop_bit n v) = uint v div 2 ^ n" for n
    using uint_bounded [of v]
    unfolding unsigned_drop_bit_eq by (simp add: drop_bit_eq_div take_bit_int_eq_self)
  show "uint (ucast (drop_bit 8 (v AND 0xFF00)) :: byte) = uint v div 2 ^ 8 mod 256"
    "uint (ucast (drop_bit 16 (v AND 0xFF0000)) :: byte) = uint v div 2 ^ 16 mod 256"
    "uint (ucast (drop_bit 24 (v AND 0xFF000000)) :: byte) = uint v div 2 ^ 24 mod 256"
    using low [of "drop_bit 8 v"] low [of "drop_bit 16 v"] low [of "drop_bit 24 v"]
    by (simp_all add: drop drop_bit_and)
qed

lemma header_counter_mod:
  assumes "header_ok cfg"
  shows "header cfg n w = header cfg n (word_of_nat (unat w mod 256 ^ header_ctr cfg))"
proof -
  consider "header_ctr cfg = 0" | "header_ctr cfg = 1" | "header_ctr cfg = 2"
    using assms by (auto simp: header_ok_def)
  then show ?thesis
  proof cases
    case 2
    have "unat w mod 256 = take_bit 8 (unat w)" by (simp add: take_bit_eq_mod)
    then have "word_of_nat (unat w mod 256) = take_bit 8 w"
      by (simp only: take_bit_of_nat [symmetric]) simp
    then have "word_of_nat (unat w mod 256) AND (0xFF :: 16 word) = w AND 0xFF"
      unfolding low_byte by simp
    with 2 show ?thesis by (simp add: header_def counter_field_def)
  next
    case 3
    have "unat w mod 65536 = unat w" using unsigned_less [where 'a = nat, of w] by simp
    with 3 show ?thesis by (simp add: header_def)
  qed (simp add: header_def counter_field_def)
qed

lemma unat_uint: "unat w < n \<Longrightarrow> uint w < int n" "n \<le> unat w \<Longrightarrow> int n \<le> uint w"
  using of_nat_less_iff [of "unat w" n, where 'a = int] of_nat_le_iff [of n "unat w", where 'a = int]
  by simp_all

lemma nested_digits:
  "x = 256 * a + r \<Longrightarrow> a = 256 * b + s \<Longrightarrow> b = 256 * c + t \<Longrightarrow>
   r + 256 * (s + 256 * (t + 256 * c)) = (x :: int)"
  by simp

text \<open>A request that fits the send buffer whatever the counter.\<close>

definition request_fits :: "XcpFramingConfig \<Rightarrow> command \<Rightarrow> int list \<Rightarrow> bool" where
  "request_fits cfg cmd data \<longleftrightarrow> header_fill cfg \<le> 2 \<and> (\<forall>v \<in> set data. 0 \<le> v \<and> v < 256)
     \<and> length (serialize_cmd_value (word_of_int cmd)) + length data \<le> 254"

lemma prepare_request_fits:
  assumes "request_fits (framing_type fr) cmd data"
  shows "\<exists>frame. prepare_request cmd data fr = Inr (Some frame, fr\<lparr>counter_send := counter_send fr + 1\<rparr>)"
proof -
  let ?cfg = "framing_type fr" and ?n = "length (serialize_cmd_value (word_of_int cmd)) + length data"
  let ?buf = "header ?cfg ?n (counter_send fr) @ serialize_cmd_value (word_of_int cmd) @ map word_of_int data"
  have r: "rmap to_byte data = Inr (map word_of_int data)"
    using assms by (intro rmap_to_byte) (simp add: request_fits_def)
  have "length (header ?cfg ?n (counter_send fr)) \<le> 6"
    using assms by (auto simp: header_def size_field_def counter_field_def request_fits_def)
  moreover obtain t where "add_tail ?cfg ?buf = ?buf @ t" "length t \<le> 3" using add_tail_extends by blast
  ultimately have "length (add_tail ?cfg ?buf) \<le> SEND_BUFFER"
    using assms by (simp add: SEND_BUFFER_def request_fits_def)
  then show ?thesis using r by (simp add: prepare_request_def Let_def)
qed

section \<open>Properties\<close>

text \<open>
  A command code is sent most significant byte first, in the least number of bytes.
\<close>

theorem command_code_bytes:
  "le_int (rev (serialize_cmd_value w)) = uint w
   \<and> serialize_cmd_value w \<noteq> []
   \<and> (1 < length (serialize_cmd_value w) \<longrightarrow> 256 ^ (length (serialize_cmd_value w) - 1) \<le> uint w)"
proof -
  have lt: "uint w < 2 ^ 32" using uint_bounded [of w] by simp
  define a b c where "a = uint w div 256" and "b = a div 256" and "c = b div 256"
  have bc: "b = uint w div 65536" "c = uint w div 16777216"
    by (simp_all add: a_def b_def c_def div_mult2_eq [symmetric] flip: zdiv_zmult2_eq)
  have "0 \<le> c" and "c < 256"
    using lt by (simp_all add: bc div_less_iff_less_mult pos_imp_zdiv_nonneg_iff)
  then have mod: "c mod 256 = c" by simp
  have "uint w = 256 * a + uint w mod 256" "a = 256 * b + a mod 256" "b = 256 * c + b mod 256"
    by (simp_all add: a_def b_def c_def)
  then have "uint w mod 256 + 256 * (a mod 256 + 256 * (b mod 256 + 256 * (c mod 256))) = uint w"
    unfolding mod by (rule nested_digits)
  then have split: "uint w mod 256 + 256 * (uint w div 256 mod 256 + 256 * (uint w div 65536 mod 256
      + 256 * (uint w div 16777216 mod 256))) = uint w"
    unfolding bc a_def .
  obtain b3 b2 b1 b0 :: byte where bytes: "serialize_cmd_value w = drop (4 - byte_count w) [b3, b2, b1, b0]"
    and v: "uint b0 = uint w mod 256" "uint b1 = uint w div 256 mod 256" "uint b2 = uint w div 65536 mod 256"
      "uint b3 = uint w div 16777216 mod 256"
    by (rule that [OF serialize_cmd_value_def]; simp only: word_bytes; simp)
  have digits: "uint b0 + 256 * (uint b1 + 256 * (uint b2 + 256 * uint b3)) = uint w"
    using split by (simp only: v)
  have small: "uint w div 256 = 0" if "uint w < 256" using that by simp
  from byte_count_bounds [of w] show ?thesis
  proof (elim disjE conjE)
    assume k: "byte_count w = 1" "unat w < 2 ^ 8"
    then have "uint w < 256" using unat_uint(1) [of w "2 ^ 8"] by simp
    then have "uint b0 = uint w" by (simp add: v)
    with k(1) show ?thesis unfolding bytes by simp
  next
    assume k: "byte_count w = 2" "2 ^ 8 \<le> unat w" "unat w < 2 ^ 16"
    then have le: "256 \<le> uint w" and lt2: "uint w < 65536"
      using unat_uint(2) [of "2 ^ 8" w] unat_uint(1) [of w "2 ^ 16"] by simp_all
    from lt2 have "uint b2 = 0" "uint b3 = 0" by (simp_all add: v)
    with digits have "uint b0 + 256 * uint b1 = uint w" by simp
    with k(1) le show ?thesis unfolding bytes by (simp add: eval_nat_numeral)
  next
    assume k: "byte_count w = 3" "2 ^ 16 \<le> unat w" "unat w < 2 ^ 24"
    then have le: "65536 \<le> uint w" and lt3: "uint w < 16777216"
      using unat_uint(2) [of "2 ^ 16" w] unat_uint(1) [of w "2 ^ 24"] by simp_all
    from lt3 have "uint b3 = 0" by (simp add: v)
    with digits have "uint b0 + 256 * (uint b1 + 256 * uint b2) = uint w" by simp
    with k(1) le show ?thesis unfolding bytes by (simp add: eval_nat_numeral)
  next
    assume k: "byte_count w = 4" "2 ^ 24 \<le> unat w"
    then have "16777216 \<le> uint w" using unat_uint(2) [of "2 ^ 24" w] by simp
    with k(1) digits show ?thesis unfolding bytes by (simp add: eval_nat_numeral)
  qed
qed

theorem command_code_bytes_witness:
  "le_int (rev (serialize_cmd_value 0xC000)) = 0xC000 \<and> serialize_cmd_value 0xC000 \<noteq> []"
  using command_code_bytes [of "0xC000"] by simp

text \<open>
  C19. A request of at most 255 bytes never overruns the send buffer; the frame's header gives back the
  size of the packet and the counter, the packet follows it unchanged, the checksum is accepted,
  only a serial line adds a tail, and the counter is one higher afterwards (modulo 2^16).
\<close>

theorem request_frame_roundtrip:
  assumes "header_ok (framing_type fr)" and "get_header_size (framing_type fr) \<le> 4"
    and "\<forall>v \<in> set data. 0 \<le> v \<and> v < 256"
    and "n = length (serialize_cmd_value (word_of_int cmd)) + length data" and "n \<le> 255"
  shows "\<exists>frame tail. prepare_request cmd data fr
        = Inr (Some frame, fr\<lparr>counter_send := counter_send fr + 1\<rparr>)
    \<and> unpack_header (framing_type fr) frame 0
        = Some (n, unat (counter_send fr) mod 256 ^ header_ctr (framing_type fr))
    \<and> drop (get_header_size (framing_type fr)) frame
        = serialize_cmd_value (word_of_int cmd) @ map word_of_int data @ tail
    \<and> verify_checksum (framing_type fr) frame
    \<and> (transport_layer_type (framing_type fr) \<noteq> SXI \<longrightarrow> tail = [])"
proof -
  let ?cfg = "framing_type fr"
  let ?packet = "serialize_cmd_value (word_of_int cmd) @ map word_of_int data"
  let ?c = "unat (counter_send fr) mod 256 ^ header_ctr ?cfg"
  let ?h = "header ?cfg n (word_of_nat ?c)"
  obtain tail where tail: "add_tail ?cfg (?h @ ?packet) = (?h @ ?packet) @ tail" "length tail \<le> 3"
    using add_tail_extends by blast
  let ?frame = "?h @ ?packet @ tail"
  have hl: "length ?h = get_header_size ?cfg" by (rule length_header [OF assms(1)])
  have "length ?frame \<le> SEND_BUFFER"
    using tail(2) hl assms(2,4,5) by (simp add: SEND_BUFFER_def)
  moreover have "header ?cfg n (counter_send fr) = ?h" by (rule header_counter_mod [OF assms(1)])
  ultimately have frame: "prepare_request cmd data fr = Inr (Some ?frame, fr\<lparr>counter_send := counter_send fr + 1\<rparr>)"
    using rmap_to_byte [OF assms(3)] tail(1) assms(4)
    by (simp add: prepare_request_def Let_def)
  have "in_range ?cfg n ?c"
    using assms(1,5) by (auto simp: in_range_def header_ok_def)
  then have "unpack_header ?cfg ?frame 0 = Some (n, ?c)"
    by (rule unpack_header_header [OF assms(1)]) simp_all
  moreover have "verify_checksum ?cfg ?frame"
    using verify_add_tail [of ?cfg "?h @ ?packet"] tail(1) by simp
  moreover have "transport_layer_type ?cfg \<noteq> SXI \<longrightarrow> tail = []"
    using tail(1) by (auto simp: add_tail_def)
  ultimately show ?thesis
    using frame hl by (intro exI [of _ ?frame] exI [of _ tail]) simp
qed

theorem request_frame_roundtrip_witness:
  "let cfg = \<lparr>transport_layer_type = SXI, header_len = 1, header_ctr = 1, header_fill = 0,
       tail_fill = False, tail_cs = WORD_CHECKSUM\<rparr>
   in \<exists>frame fr. prepare_request 0xFF [0] \<lparr>counter_send = 0x1FF, framing_type = cfg\<rparr> = Inr (Some frame, fr)
     \<and> unpack_header cfg frame 0 = Some (2, 255)"
proof -
  have "length (serialize_cmd_value 0xFF) = 1"
    by (simp add: serialize_cmd_value_def byte_count_def find_msb_def msb_loop.simps)
  then show ?thesis
    using request_frame_roundtrip [of "\<lparr>counter_send = 0x1FF, framing_type =
        \<lparr>transport_layer_type = SXI, header_len = 1, header_ctr = 1, header_fill = 0,
         tail_fill = False, tail_cs = WORD_CHECKSUM\<rparr>\<rparr>" "[0]" 2 "0xFF"]
    by (simp add: header_ok_def get_header_size_def Let_def) blast
qed

text \<open>
  C20. However the byte stream of a device is cut into packets (of at most 16384 bytes), the USB
  listener hands on exactly its frames, in order, each with its length and counter.
\<close>

theorem usb_frames_reassembled:
  assumes "usb_config fmt = Inr cfg" and "list_all (usb_valid cfg) frames"
    and "concat (map fst packets) = concat (map (usb_encode cfg) frames)"
    and "\<forall>p \<in> set packets. length (fst p) \<le> RECV_SIZE"
  shows "\<exists>out s. usb_listen cfg usb_start packets = Some (out, Some s) \<and> map fst out = frames"
proof -
  have "list_all (usb_piece_ok cfg) (map fst packets)"
    using assms(4) usb_config_ok [OF assms(1)] by (auto simp: list_all_iff usb_piece_ok_def usb_ok_def)
  then obtain s where "usb.feed_all cfg usb_start (map fst packets) = Some (frames, Some s)"
    using usb.feed_all_frames [OF usb.rep_idle _ assms(2)] assms(3) by fastforce
  then show ?thesis
    using usb_listen_feed_all [of cfg usb_start packets] by auto
qed

theorem usb_frames_reassembled_witness:
  "let cfg = \<lparr>transport_layer_type = USB, header_len = 1, header_ctr = 1, header_fill = 0,
       tail_fill = False, tail_cs = NO_CHECKSUM\<rparr>
   in \<exists>out s. usb_listen cfg usb_start [([2], 10), ([5, 0xFF], 20), ([1], 30)] = Some (out, Some s)
        \<and> map fst out = [([0xFF, 1], 2, 5)]"
proof -
  let ?cfg = "\<lparr>transport_layer_type = USB, header_len = 1, header_ctr = 1, header_fill = 0,
       tail_fill = False, tail_cs = NO_CHECKSUM\<rparr>"
  have "usb_config ''HEADER_LEN_CTR_BYTE'' = Inr ?cfg"
    by (simp add: usb_config_def parse_header_format_def)
  moreover have "list_all (usb_valid ?cfg) [([0xFF, 1], 2, 5)]"
    by (simp add: usb_valid_def usb_ok_def header_ok_def get_header_size_def in_range_def RECV_SIZE_def)
  moreover have "concat (map fst [([2 :: byte], 10 :: int), ([5, 0xFF], 20), ([1], 30)])
      = concat (map (usb_encode ?cfg) [([0xFF, 1], 2, 5)])"
    by (simp add: usb_encode_def header_def size_field_def counter_field_def low_byte take_bit_eq_mod)
  ultimately show ?thesis
    unfolding Let_def by (rule usb_frames_reassembled) (simp add: RECV_SIZE_def)
qed

text \<open>
  C21. The inner loop of the USB listener ends on every packet, whatever the device sends: each round
  but the last takes a header or a payload off the bytes at hand.
\<close>

theorem usb_listener_terminates:
  assumes "usb_config fmt = Inr cfg"
  shows "usb_packet cfg s bts \<noteq> None"
proof -
  have pos: "0 < get_header_size cfg" using usb_config_ok [OF assms] by simp
  have "usb_loop cfg data n position len c out \<noteq> None" for data n position len c out
  proof (induction n arbitrary: position len c out rule: less_induct)
    case (less n)
    show ?case
    proof (cases len)
      case None
      show ?thesis
        using less [of "n - get_header_size cfg"] pos
        by (subst usb_loop.simps) (auto simp: None split: option.split)
    next
      case (Some l)
      show ?thesis
        using less [of "n - l"]
        by (subst usb_loop.simps) (auto simp: Some Let_def)
    qed
  qed
  then show ?thesis by (simp add: usb_packet_def)
qed

theorem usb_listener_terminates_witness:
  "\<exists>cfg. usb_config ''HEADER_LEN_WORD'' = Inr cfg \<and> usb_packet cfg usb_start [0, 0, 0] \<noteq> None"
  using usb_listener_terminates [of "''HEADER_LEN_WORD''"]
  by (auto simp: usb_config_def parse_header_format_def)

end
