(* ===== verification/Events.thy ===== *)
theory Events
  imports Struct_Codec
begin

unbundle bit_operations_syntax

text \<open>
  \<open>pyxcp/events.py\<close>: the EV_TIME_SYNC packet in its three layouts, and the chain of handlers an event
  packet runs through. What the handlers change is the transport's restart flag and the last time
  synchronisation; log messages are left out.
\<close>

section \<open>Model\<close>

subsection \<open>Time synchronisation packets\<close>

datatype TriggerInitiator =
    HW_TRIGGER | INDEPENDENT_TIME_SYNC | TI_GET_DAQ_CLOCK_MULTICAST | GET_DAQ_CLOCK_VIA_BRIDGE
  | SYNC_STATE_CHANGE | LEAP_SECOND | ECU_RESET_RELEASE | TI_RESERVED

definition TriggerInitiator_of :: "int \<Rightarrow> TriggerInitiator result" where
  "TriggerInitiator_of v = py_index ValueError
     [HW_TRIGGER, INDEPENDENT_TIME_SYNC, TI_GET_DAQ_CLOCK_MULTICAST, GET_DAQ_CLOCK_VIA_BRIDGE,
      SYNC_STATE_CHANGE, LEAP_SECOND, ECU_RESET_RELEASE, TI_RESERVED] v"

datatype TimeOfTsSampling =
  PROTOCOL_LAYER | LOW_JITTER_INTERRUPT | PHYSICAL_TRANSMISSION | PHYSICAL_RECEPTION

definition TimeOfTsSampling_of :: "int \<Rightarrow> TimeOfTsSampling result" where
  "TimeOfTsSampling_of v = py_index ValueError
     [PROTOCOL_LAYER, LOW_JITTER_INTERRUPT, PHYSICAL_TRANSMISSION, PHYSICAL_RECEPTION] v"

datatype ClockFormat = NOT_PRESENT | DWORD | DLONG | CF_RESERVED

definition ClockFormat_of :: "int \<Rightarrow> ClockFormat result" where
  "ClockFormat_of v = py_index ValueError [NOT_PRESENT, DWORD, DLONG, CF_RESERVED] v"

record TriggerInfo =
  initiator :: TriggerInitiator
  time_of_sampling :: TimeOfTsSampling
  trigger_raw :: int

definition TriggerInfo_parse :: "int \<Rightarrow> TriggerInfo result" where
  "TriggerInfo_parse v =
     rbind (TriggerInitiator_of (v AND 0x07)) (\<lambda>i.
     rbind (TimeOfTsSampling_of (drop_bit 3 v AND 0x03)) (\<lambda>t.
       Inr \<lparr>initiator = i, time_of_sampling = t, trigger_raw = v\<rparr>))"

record PayloadFormat =
  xcp_slave_fmt :: ClockFormat
  grandmaster_fmt :: ClockFormat
  ecu_fmt :: ClockFormat
  cluster_identifier :: bool
  payload_raw :: int

definition PayloadFormat_parse :: "int \<Rightarrow> PayloadFormat result" where
  "PayloadFormat_parse v =
     rbind (ClockFormat_of (v AND 0x03)) (\<lambda>x.
     rbind (ClockFormat_of (drop_bit 2 v AND 0x03)) (\<lambda>g.
     rbind (ClockFormat_of (drop_bit 4 v AND 0x03)) (\<lambda>e.
       Inr \<lparr>xcp_slave_fmt = x, grandmaster_fmt = g, ecu_fmt = e,
            cluster_identifier = (v AND 0x40 \<noteq> 0), payload_raw = v\<rparr>)))"

record TimeSyncEvent =
  is_legacy :: bool
  trigger_info :: TriggerInfo
  payload_fmt :: "PayloadFormat option"
  sync_counter :: "int option"
  xcp_slave_timestamp :: "int option"
  grandmaster_timestamp :: "int option"
  ecu_timestamp :: "int option"
  cluster_id :: "int option"
  sync_state :: "int option"

definition order_of :: "string \<Rightarrow> byteorder" where
  "order_of byte_order = (if byte_order = ''little'' then Little else Big)"

text \<open>\<open>read_timestamp\<close>: the value and the new offset.\<close>

definition read_timestamp :: "byteorder \<Rightarrow> bytes \<Rightarrow> ClockFormat \<Rightarrow> nat \<Rightarrow> (int option \<times> nat) result" where
  "read_timestamp order packet fmt offset =
     (case fmt of
        NOT_PRESENT \<Rightarrow> Inr (None, offset)
      | DWORD \<Rightarrow>
          if length packet < offset + 4 then Inl ValueError
          else rbind (struct_unpack order 4 (take 4 (drop offset packet))) (\<lambda>v. Inr (Some v, offset + 4))
      | DLONG \<Rightarrow>
          if length packet < offset + 8 then Inl ValueError
          else rbind (struct_unpack order 8 (take 8 (drop offset packet))) (\<lambda>v. Inr (Some v, offset + 8))
      | CF_RESERVED \<Rightarrow> Inr (None, offset))"

definition read_cluster :: "byteorder \<Rightarrow> bytes \<Rightarrow> bool \<Rightarrow> nat \<Rightarrow> ((int \<times> int) option \<times> nat) result" where
  "read_cluster order packet present offset =
     (if present then
        (if length packet < offset + 3 then Inl ValueError
         else rbind (struct_unpack order 2 (take 2 (drop offset packet))) (\<lambda>c.
           Inr (Some (c, int_of_byte (packet ! (offset + 2))), offset + 3)))
      else Inr (None, offset))"

definition parse_extended :: "byteorder \<Rightarrow> bytes \<Rightarrow> TriggerInfo \<Rightarrow> PayloadFormat \<Rightarrow> TimeSyncEvent result" where
  "parse_extended order packet ti pf =
     rbind (read_timestamp order packet (xcp_slave_fmt pf) 4) (\<lambda>(x, o1).
     rbind (read_timestamp order packet (grandmaster_fmt pf) o1) (\<lambda>(g, o2).
     rbind (read_timestamp order packet (ecu_fmt pf) o2) (\<lambda>(e, o3).
     rbind (read_cluster order packet (cluster_identifier pf) o3) (\<lambda>(c, o4).
       Inr \<lparr>is_legacy = False, trigger_info = ti, payload_fmt = Some pf,
            sync_counter = map_option snd c, xcp_slave_timestamp = x, grandmaster_timestamp = g,
            ecu_timestamp = e, cluster_id = map_option fst c,
            sync_state = (if o4 < length packet then Some (int_of_byte (packet ! o4)) else None)\<rparr>))))"

definition legacy_event :: "TriggerInfo \<Rightarrow> PayloadFormat option \<Rightarrow> int option \<Rightarrow> int \<Rightarrow> TimeSyncEvent" where
  "legacy_event ti pf c ts = \<lparr>is_legacy = True, trigger_info = ti, payload_fmt = pf, sync_counter = c,
     xcp_slave_timestamp = Some ts, grandmaster_timestamp = None, ecu_timestamp = None,
     cluster_id = None, sync_state = None\<rparr>"

definition TimeSyncEvent_parse :: "bytes \<Rightarrow> int \<Rightarrow> string \<Rightarrow> TimeSyncEvent result" where
  "TimeSyncEvent_parse packet max_cto byte_order =
     (let order = order_of byte_order in
      if length packet < 8 then Inl ValueError
      else if packet ! 0 \<noteq> 0xFD \<or> packet ! 1 \<noteq> 0x08 then Inl ValueError
      else
        rbind (TriggerInfo_parse (int_of_byte (packet ! 2))) (\<lambda>ti.
        if max_cto = 8 then
          rbind (struct_unpack order 4 (take 4 (drop 4 packet))) (\<lambda>ts.
            Inr (legacy_event ti None (Some (int_of_byte (packet ! 3))) ts))
        else
          rbind (PayloadFormat_parse (int_of_byte (packet ! 3))) (\<lambda>pf.
          if payload_raw pf = 0 then
            rbind (struct_unpack order 4 (take 4 (drop 4 packet))) (\<lambda>ts.
              Inr (legacy_event ti (Some pf) None ts))
          else parse_extended order packet ti pf)))"

subsection \<open>The chain of handlers\<close>

text \<open>
  \<open>slave_keys\<close> is the master's \<open>slaveProperties\<close> dictionary, \<open>None\<close> without a parent: a missing key
  raises \<open>KeyError\<close>, which \<open>getattr\<close> with a default lets through. The transports have neither
  \<open>max_cto\<close> nor \<open>byte_order\<close>.
\<close>

record slave_keys =
  key_maxCto :: "int option"
  key_byteOrder :: "string option"

record event_state =
  timer_restart_event :: bool
  last_sync_event :: "TimeSyncEvent option"
  slave_properties :: "slave_keys option"

datatype EventHandler =
    TransportEventHandler | TimeSyncEventHandler | SessionStateEventHandler | DaqStimEventHandler
  | UserEventHandler

fun can_handle :: "EventHandler \<Rightarrow> int \<Rightarrow> bool" where
  "can_handle TransportEventHandler ec = (ec \<in> {EV_CMD_PENDING, EV_TRANSPORT})"
| "can_handle TimeSyncEventHandler ec = (ec = EV_TIME_SYNC)"
| "can_handle SessionStateEventHandler ec =
     (ec \<in> {EV_SLEEP, EV_WAKE_UP, EV_SESSION_TERMINATED, EV_RESUME_MODE})"
| "can_handle DaqStimEventHandler ec =
     (ec \<in> {EV_DAQ_OVERLOAD, EV_STIM_TIMEOUT, EV_CLEAR_DAQ, EV_STORE_DAQ})"
| "can_handle UserEventHandler ec = True"

definition parse_options :: "event_state \<Rightarrow> (int \<times> string) result" where
  "parse_options s =
     (case slave_properties s of
        None \<Rightarrow> Inr (255, ''little'')
      | Some p \<Rightarrow>
          (case key_maxCto p of
             None \<Rightarrow> Inl KeyError
           | Some max_cto \<Rightarrow>
               (case key_byteOrder p of
                  None \<Rightarrow> Inl KeyError
                | Some b \<Rightarrow> Inr (max_cto, if b = ''MOTOROLA'' then ''big'' else ''little''))))"

text \<open>The result of \<open>handle\<close> and the new state; the packet has at least two bytes.\<close>

fun handle :: "EventHandler \<Rightarrow> int \<Rightarrow> bytes \<Rightarrow> event_state \<Rightarrow> bool \<times> event_state" where
  "handle TransportEventHandler ec packet s =
     (if ec = EV_CMD_PENDING then (True, s\<lparr>timer_restart_event := True\<rparr>)
      else if ec = EV_TRANSPORT then (True, s)
      else (False, s))"
| "handle TimeSyncEventHandler ec packet s =
     (case rbind (parse_options s) (\<lambda>(max_cto, byte_order). TimeSyncEvent_parse packet max_cto byte_order) of
        Inr e \<Rightarrow> (True, s\<lparr>last_sync_event := Some e\<rparr>)
      | Inl _ \<Rightarrow> (True, s))"
| "handle SessionStateEventHandler ec packet s =
     (ec \<in> {EV_SLEEP, EV_WAKE_UP, EV_SESSION_TERMINATED, EV_RESUME_MODE}, s)"
| "handle DaqStimEventHandler ec packet s =
     (ec \<in> {EV_DAQ_OVERLOAD, EV_STIM_TIMEOUT, EV_CLEAR_DAQ, EV_STORE_DAQ}, s)"
| "handle UserEventHandler ec packet s = (True, s)"

fun process :: "EventHandler list \<Rightarrow> int \<Rightarrow> bytes \<Rightarrow> event_state \<Rightarrow> bool \<times> event_state" where
  "process [] ec packet s = (False, s)"
| "process (h # hs) ec packet s =
     (if can_handle h ec then
        (let (handled, s') = handle h ec packet s
         in if handled then (True, s') else process hs ec packet s')
      else process hs ec packet s)"

definition create_default_event_chain :: "EventHandler list" where
  "create_default_event_chain =
     [TransportEventHandler, TimeSyncEventHandler, SessionStateEventHandler, DaqStimEventHandler,
      UserEventHandler]"

section \<open>Lemmas\<close>

lemma struct_packD: "struct_pack order n v = Inr bs \<Longrightarrow> length bs = n \<and> struct_unpack order n bs = Inr v"
  using struct_unpack_pack [of order n v bs] struct_pack_length [of order n v bs] by simp

lemma struct_unpack_total: "length bs = n \<Longrightarrow> \<exists>v. struct_unpack order n bs = Inr v"
  by (simp add: struct_unpack_def)

text \<open>A clock as the slave writes it: nothing, four or eight bytes.\<close>

definition clock_bytes :: "byteorder \<Rightarrow> ClockFormat \<Rightarrow> int option \<Rightarrow> bytes result" where
  "clock_bytes order fmt v =
     (case (fmt, v) of
        (DWORD, Some t) \<Rightarrow> struct_pack order 4 t
      | (DLONG, Some t) \<Rightarrow> struct_pack order 8 t
      | (DWORD, None) \<Rightarrow> Inl ValueError
      | (DLONG, None) \<Rightarrow> Inl ValueError
      | (_, None) \<Rightarrow> Inr []
      | (_, Some t) \<Rightarrow> Inl ValueError)"

lemma read_timestamp_clock:
  assumes "clock_bytes order fmt v = Inr bs" and "drop offset packet = bs @ rest" and "offset \<le> length packet"
  shows "read_timestamp order packet fmt offset = Inr (v, offset + length bs)
    \<and> drop (offset + length bs) packet = rest \<and> offset + length bs \<le> length packet"
proof -
  have len: "length packet = offset + length bs + length rest"
    using arg_cong [OF assms(2), of length] assms(3) by simp
  moreover have "drop (offset + length bs) packet = rest"
    using assms(2) by (metis add.commute append_eq_conv_conj drop_drop)
  moreover have "read_timestamp order packet fmt offset = Inr (v, offset + length bs)"
    using assms(1) len
    by (auto simp: clock_bytes_def read_timestamp_def assms(2) dest!: struct_packD
        split: ClockFormat.splits option.splits)
  ultimately show ?thesis by simp
qed

text \<open>The cluster identifier with the counter, if the format announces it.\<close>

definition cluster_bytes :: "byteorder \<Rightarrow> bool \<Rightarrow> (int \<times> byte) option \<Rightarrow> bytes result" where
  "cluster_bytes order present v =
     (case (present, v) of
        (True, Some (c, n)) \<Rightarrow> rbind (struct_pack order 2 c) (\<lambda>bs. Inr (bs @ [n]))
      | (False, None) \<Rightarrow> Inr []
      | _ \<Rightarrow> Inl ValueError)"

lemma read_cluster_bytes:
  assumes "cluster_bytes order present v = Inr bs" and "drop offset packet = bs @ rest" and "offset \<le> length packet"
  shows "read_cluster order packet present offset =
      Inr (map_option (\<lambda>(c, n). (c, int_of_byte n)) v, offset + length bs)
    \<and> drop (offset + length bs) packet = rest \<and> offset + length bs \<le> length packet"
proof -
  have len: "length packet = offset + length bs + length rest"
    using arg_cong [OF assms(2), of length] assms(3) by simp
  moreover have "drop (offset + length bs) packet = rest"
    using assms(2) by (metis add.commute append_eq_conv_conj drop_drop)
  moreover have "read_cluster order packet present offset =
      Inr (map_option (\<lambda>(c, n). (c, int_of_byte n)) v, offset + length bs)"
  proof (cases v)
    case None
    with assms(1) show ?thesis by (auto simp: cluster_bytes_def read_cluster_def split: bool.splits)
  next
    case (Some p)
    obtain c n where p: "p = (c, n)" by (cases p)
    with Some assms(1) obtain cs where cs: "present" "struct_pack order 2 c = Inr cs" "bs = cs @ [n]"
      by (auto simp: cluster_bytes_def rbind_Inr_iff split: bool.splits)
    from struct_packD [OF cs(2)] have l2: "length cs = 2" and un: "struct_unpack order 2 cs = Inr c" by simp_all
    have "packet ! (offset + 2) = (bs @ rest) ! 2"
      using nth_drop [OF assms(3), of 2] assms(2) by simp
    then have "packet ! (offset + 2) = n" using cs(3) l2 by (simp add: nth_append)
    with cs l2 un len show ?thesis
      by (simp add: read_cluster_def assms(2) Some p)
  qed
  ultimately show ?thesis by simp
qed

lemma low_bits: "(v :: int) AND 0x07 = v mod 8" "(v :: int) AND 0x03 = v mod 4"
proof -
  have "(0x07 :: int) = mask 3" "(0x03 :: int) = mask 2" by (simp_all add: mask_eq_exp_minus_1)
  then show "v AND 0x07 = v mod 8" "v AND 0x03 = v mod 4"
    by (simp_all only: take_bit_eq_mask [symmetric] take_bit_eq_mod) simp_all
qed

lemma of_total:
  "0 \<le> v \<Longrightarrow> v < 8 \<Longrightarrow> \<exists>x. TriggerInitiator_of v = Inr x"
  "0 \<le> v \<Longrightarrow> v < 4 \<Longrightarrow> \<exists>y. TimeOfTsSampling_of v = Inr y"
  "0 \<le> v \<Longrightarrow> v < 4 \<Longrightarrow> \<exists>z. ClockFormat_of v = Inr z"
  by (simp_all add: TriggerInitiator_of_def TimeOfTsSampling_of_def ClockFormat_of_def py_index_def)

lemma TriggerInfo_parse_total: "\<exists>ti. TriggerInfo_parse v = Inr ti \<and> trigger_raw ti = v"
proof -
  obtain x y where "TriggerInitiator_of (v mod 8) = Inr x" "TimeOfTsSampling_of (drop_bit 3 v mod 4) = Inr y"
    using of_total by (metis pos_mod_bound pos_mod_sign zero_less_numeral)
  then show ?thesis by (simp add: TriggerInfo_parse_def low_bits)
qed

lemma PayloadFormat_parse_total: "\<exists>pf. PayloadFormat_parse v = Inr pf \<and> payload_raw pf = v"
proof -
  obtain x y z where "ClockFormat_of (v mod 4) = Inr x" "ClockFormat_of (drop_bit 2 v mod 4) = Inr y"
    "ClockFormat_of (drop_bit 4 v mod 4) = Inr z"
    using of_total(3) by (metis pos_mod_bound pos_mod_sign zero_less_numeral)
  then show ?thesis by (simp add: PayloadFormat_parse_def low_bits)
qed

lemma read_timestamp_error: "read_timestamp order packet fmt offset = Inl e \<Longrightarrow> e = ValueError"
  by (auto simp: read_timestamp_def rbind_Inl_iff struct_unpack_def split: ClockFormat.splits if_splits)

lemma read_cluster_error: "read_cluster order packet present offset = Inl e \<Longrightarrow> e = ValueError"
  by (auto simp: read_cluster_def rbind_Inl_iff struct_unpack_def split: if_splits)

lemma parse_extended_error: "parse_extended order packet ti pf = Inl e \<Longrightarrow> e = ValueError"
  unfolding parse_extended_def rbind_Inl_iff
  by (auto dest: read_timestamp_error read_cluster_error simp: rbind_Inl_iff)

lemma parse_error: "TimeSyncEvent_parse packet max_cto byte_order = Inl e \<Longrightarrow> e = ValueError"
proof -
  assume err: "TimeSyncEvent_parse packet max_cto byte_order = Inl e"
  let ?order = "order_of byte_order"
  obtain ti where ti: "TriggerInfo_parse (int_of_byte (packet ! 2)) = Inr ti"
    using TriggerInfo_parse_total by blast
  obtain pf where pf: "PayloadFormat_parse (int_of_byte (packet ! 3)) = Inr pf"
    using PayloadFormat_parse_total by blast
  show ?thesis
  proof (cases "length packet < 8 \<or> packet ! 0 \<noteq> 0xFD \<or> packet ! 1 \<noteq> 0x08")
    case True
    with err show ?thesis by (auto simp: TimeSyncEvent_parse_def Let_def split: if_splits)
  next
    case False
    then have "length (take 4 (drop 4 packet)) = 4" by auto
    from struct_unpack_total [OF this, of ?order] obtain ts where
      "struct_unpack ?order 4 (take 4 (drop 4 packet)) = Inr ts" ..
    with False err ti pf show ?thesis
      by (auto simp: TimeSyncEvent_parse_def Let_def dest: parse_extended_error split: if_splits)
  qed
qed

section \<open>Properties\<close>

text \<open>
  C22. An EV_TIME_SYNC packet of the extended layout, built from any clocks its format byte announces, a
  cluster identifier and a trailing state, is parsed back to exactly these; whatever the packet, the
  only exception is \<open>ValueError\<close>.
\<close>

theorem time_sync_roundtrip:
  assumes "max_cto \<noteq> 8" and "f \<noteq> 0" and "PayloadFormat_parse (int_of_byte f) = Inr pf"
    and "clock_bytes (order_of ord) (xcp_slave_fmt pf) x = Inr xs"
    and "clock_bytes (order_of ord) (grandmaster_fmt pf) g = Inr gs"
    and "clock_bytes (order_of ord) (ecu_fmt pf) e = Inr es"
    and "cluster_bytes (order_of ord) (cluster_identifier pf) c = Inr cs"
    and "8 \<le> length (xs @ gs @ es @ cs @ rest) + 4"
  shows "\<exists>ti. TriggerInfo_parse (int_of_byte t) = Inr ti
    \<and> TimeSyncEvent_parse ([0xFD, 0x08, t, f] @ xs @ gs @ es @ cs @ rest) max_cto ord =
      Inr \<lparr>is_legacy = False, trigger_info = ti, payload_fmt = Some pf,
           sync_counter = map_option (\<lambda>(c, n). int_of_byte n) c, xcp_slave_timestamp = x,
           grandmaster_timestamp = g, ecu_timestamp = e, cluster_id = map_option fst c,
           sync_state = (case rest of [] \<Rightarrow> None | b # _ \<Rightarrow> Some (int_of_byte b))\<rparr>
    \<and> (\<forall>packet m b err. TimeSyncEvent_parse packet m b = Inl err \<longrightarrow> err = ValueError)"
proof -
  let ?p = "[0xFD, 0x08, t, f] @ xs @ gs @ es @ cs @ rest"
  let ?o = "order_of ord"
  obtain ti where ti: "TriggerInfo_parse (int_of_byte t) = Inr ti" using TriggerInfo_parse_total by blast
  have raw: "payload_raw pf = int_of_byte f" using PayloadFormat_parse_total [of "int_of_byte f"] assms(3) by auto
  have f: "int_of_byte f \<noteq> 0" using assms(2) by (simp add: uint_0_iff)
  have "drop 4 ?p = xs @ gs @ es @ cs @ rest" "4 \<le> length ?p" by simp_all
  note r1 = read_timestamp_clock [OF assms(4) this]
  note r2 = read_timestamp_clock [OF assms(5) r1 [THEN conjunct2, THEN conjunct1] r1 [THEN conjunct2, THEN conjunct2]]
  note r3 = read_timestamp_clock [OF assms(6) r2 [THEN conjunct2, THEN conjunct1] r2 [THEN conjunct2, THEN conjunct2]]
  note r4 = read_cluster_bytes [OF assms(7) r3 [THEN conjunct2, THEN conjunct1] r3 [THEN conjunct2, THEN conjunct2]]
  let ?o4 = "4 + length xs + length gs + length es + length cs"
  have len: "length ?p = ?o4 + length rest" by simp
  have sync_state_ok: "(if ?o4 < length ?p then Some (int_of_byte (?p ! ?o4)) else None)
      = (case rest of [] \<Rightarrow> None | b # _ \<Rightarrow> Some (int_of_byte b))"
  proof (cases rest)
    case (Cons b bs)
    have "?p ! ?o4 = drop ?o4 ?p ! 0" using len Cons by (intro nth_via_drop [symmetric]) (use r4 in auto)
    with r4 Cons show ?thesis by simp
  qed simp
  have "parse_extended ?o ?p ti pf = Inr \<lparr>is_legacy = False, trigger_info = ti, payload_fmt = Some pf,
      sync_counter = map_option (\<lambda>(c, n). int_of_byte n) c, xcp_slave_timestamp = x,
      grandmaster_timestamp = g, ecu_timestamp = e, cluster_id = map_option fst c,
      sync_state = (case rest of [] \<Rightarrow> None | b # _ \<Rightarrow> Some (int_of_byte b))\<rparr>"
    using r1 r2 r3 r4 sync_state_ok
    unfolding parse_extended_def
    by (simp only: rbind_simps split_conv option.map_comp o_def snd_conv fst_conv)
      (simp add: case_prod_unfold option.map_comp o_def)
  then have "TimeSyncEvent_parse ?p max_cto ord = Inr \<lparr>is_legacy = False, trigger_info = ti, payload_fmt = Some pf,
      sync_counter = map_option (\<lambda>(c, n). int_of_byte n) c, xcp_slave_timestamp = x,
      grandmaster_timestamp = g, ecu_timestamp = e, cluster_id = map_option fst c,
      sync_state = (case rest of [] \<Rightarrow> None | b # _ \<Rightarrow> Some (int_of_byte b))\<rparr>"
    using assms(1,3,8) ti raw f by (simp add: TimeSyncEvent_parse_def Let_def numeral_2_eq_2 numeral_3_eq_3)
  with ti parse_error show ?thesis by blast
qed

theorem time_sync_roundtrip_witness:
  "\<exists>ti pf. TimeSyncEvent_parse [0xFD, 0x08, 0x1A, 0x41, 1, 0, 0, 0, 2, 0, 7] 255 ''little'' =
     Inr \<lparr>is_legacy = False, trigger_info = ti, payload_fmt = Some pf, sync_counter = Some 7,
       xcp_slave_timestamp = Some 1, grandmaster_timestamp = None, ecu_timestamp = None,
       cluster_id = Some 2, sync_state = None\<rparr>"
proof -
  have pf: "PayloadFormat_parse (int_of_byte 0x41) = Inr \<lparr>xcp_slave_fmt = DWORD, grandmaster_fmt = NOT_PRESENT,
      ecu_fmt = NOT_PRESENT, cluster_identifier = True, payload_raw = 0x41\<rparr>"
    by (simp add: PayloadFormat_parse_def ClockFormat_of_def py_index_def)
  have "struct_pack Little 4 1 = Inr [1, 0, 0, 0]" "struct_pack Little 2 2 = Inr [2, 0]"
    by (simp_all add: struct_pack_def eval_nat_numeral)
  then show ?thesis
    using time_sync_roundtrip [OF _ _ pf, of 255 "''little''" "Some 1" "[1, 0, 0, 0]" None "[]" None "[]"
        "Some (2, 7)" "[2, 0, 7]" "[]" "0x1A"]
    by (auto simp: clock_bytes_def cluster_bytes_def order_of_def)
qed

text \<open>
  The default chain consumes every event packet: EV_CMD_PENDING restarts the time-out, EV_TIME_SYNC
  stores the parsed packet or, when it cannot be parsed or the slave's properties are not yet known,
  changes nothing, and every other event changes nothing.
\<close>

theorem event_chain_effect:
  "process create_default_event_chain ec packet s =
     (True,
      if ec = EV_CMD_PENDING then s\<lparr>timer_restart_event := True\<rparr>
      else if ec = EV_TIME_SYNC then
        (case slave_properties s of
           None \<Rightarrow> (case TimeSyncEvent_parse packet 255 ''little'' of
               Inl _ \<Rightarrow> s | Inr e \<Rightarrow> s\<lparr>last_sync_event := Some e\<rparr>)
         | Some p \<Rightarrow>
             (case (key_maxCto p, key_byteOrder p) of
                (Some m, Some b) \<Rightarrow>
                  (case TimeSyncEvent_parse packet m (if b = ''MOTOROLA'' then ''big'' else ''little'') of
                     Inl _ \<Rightarrow> s | Inr e \<Rightarrow> s\<lparr>last_sync_event := Some e\<rparr>)
              | _ \<Rightarrow> s))
      else s)"
  by (simp add: create_default_event_chain_def parse_options_def split: option.split sum.split)

end
