(* ===== verification/Transport_Base.thy ===== *)
theory Transport_Base
  imports Events Framing
begin

text \<open>
  \<open>pyxcp/transport/base.py\<close>: requests, the queue of responses, time-outs, and what the listener's
  thread does with an incoming packet. The passing of time and the packets that arrive meanwhile are
  a schedule: one tick per call of \<open>Condition.wait\<close>, with the time it takes and the packets that
  \<open>process_response\<close> gets during it. A result \<open>None\<close> says that the schedule has ended before the call
  returned (or that the request overruns the send buffer). The policy is external; the model records
  what it is fed. Log and time-out messages, and with them the METADATA feed, are left out.
\<close>

section \<open>Model\<close>

datatype FrameCategory =
  FC_METADATA | FC_CMD | FC_RESPONSE | FC_ERROR | FC_EVENT | FC_SERV | FC_DAQ | FC_STIM

record pdu_entry =
  pdu_cat :: FrameCategory
  pdu_ctr :: int
  pdu_ts :: int
  pdu_len :: int

record transport =
  resQueue :: "bytes list"
  counter_received :: int
  create_daq_timestamps :: bool
  timeout_ns :: int
  now :: int
  first_daq_timestamp :: "int option"
  response_timestamp :: int
  frames_sent :: nat
  frames_received :: nat
  last_command_sent :: "command option"
  last_pdus :: "pdu_entry list"
  policy_feeds :: "(FrameCategory \<times> int \<times> int \<times> bytes) list"
  event_part :: event_state
  parent_service :: "command option"
  framing :: XcpFraming
  wire :: "bytes list"

text \<open>\<open>__init__\<close>, at time \<open>time\<close>, for a time-out given in nanoseconds.\<close>

definition new_transport :: "XcpFramingConfig \<Rightarrow> bool \<Rightarrow> int \<Rightarrow> int \<Rightarrow> transport" where
  "new_transport framing_config daq_timestamps timeout time =
     \<lparr>resQueue = [], counter_received = - 1, create_daq_timestamps = daq_timestamps, timeout_ns = timeout,
      now = time, first_daq_timestamp = None, response_timestamp = time, frames_sent = 0,
      frames_received = 0, last_command_sent = None, last_pdus = [], policy_feeds = [],
      event_part = \<lparr>timer_restart_event = False, last_sync_event = None, slave_properties = None\<rparr>,
      parent_service = None, framing = \<lparr>counter_send = 0, framing_type = framing_config\<rparr>, wire = []\<rparr>"

text \<open>What the receiver hands to \<open>process_response\<close>: response, length, counter, time of reception.\<close>

type_synonym incoming = "bytes \<times> int \<times> int \<times> int"
type_synonym tick = "int \<times> incoming list"

definition feed_policy :: "FrameCategory \<Rightarrow> int \<Rightarrow> int \<Rightarrow> bytes \<Rightarrow> transport \<Rightarrow> transport" where
  "feed_policy cat ctr ts payload t = t\<lparr>policy_feeds := policy_feeds t @ [(cat, ctr, ts, payload)]\<rparr>"

text \<open>\<open>deque(maxlen=200)\<close>\<close>

definition record_pdu :: "FrameCategory \<Rightarrow> int \<Rightarrow> int \<Rightarrow> int \<Rightarrow> transport \<Rightarrow> transport" where
  "record_pdu cat ctr ts len t =
     (let pdus = last_pdus t @ [\<lparr>pdu_cat = cat, pdu_ctr = ctr, pdu_ts = ts, pdu_len = len\<rparr>]
      in t\<lparr>last_pdus := drop (length pdus - 200) pdus\<rparr>)"

subsection \<open>Incoming packets\<close>

definition process_event_packet :: "bytes \<Rightarrow> transport \<Rightarrow> transport" where
  "process_event_packet packet t =
     (if length packet < 2 then t
      else t\<lparr>event_part :=
        snd (process create_default_event_chain (int_of_byte (packet ! 1)) packet (event_part t))\<rparr>)"

definition process_command_packet :: "int \<Rightarrow> incoming \<Rightarrow> transport \<Rightarrow> transport" where
  "process_command_packet pid = (\<lambda>(response, len, ctr, ts) t.
     (let payload = py_slice response 0 len;
          cat = (if pid \<ge> 0xFE then FC_RESPONSE else if pid = 0xFC then FC_SERV else FC_EVENT);
          t1 = record_pdu cat ctr ts len (t\<lparr>counter_received := ctr\<rparr>)
      in if pid \<ge> 0xFE then
           (feed_policy FC_RESPONSE ctr (now t1) payload (t1\<lparr>resQueue := resQueue t1 @ [payload]\<rparr>))
             \<lparr>response_timestamp := ts\<rparr>
         else if pid = 0xFD then feed_policy FC_EVENT ctr (now t1) payload (process_event_packet payload t1)
         else feed_policy FC_SERV ctr (now t1) payload t1))"

definition restart_timer :: "transport \<Rightarrow> transport" where
  "restart_timer t = t\<lparr>event_part := (event_part t)\<lparr>timer_restart_event := True\<rparr>\<rparr>"

definition process_daq_packet :: "incoming \<Rightarrow> transport \<Rightarrow> transport" where
  "process_daq_packet = (\<lambda>(response, len, ctr, ts) t.
     (let t1 = (if ctr = counter_received t then restart_timer t else t);
          first = (if first_daq_timestamp t = None then Some ts else first_daq_timestamp t);
          t2 = t1\<lparr>counter_received := ctr, first_daq_timestamp := first\<rparr>;
          timestamp = (if create_daq_timestamps t then ts else 0)
      in feed_policy FC_DAQ ctr timestamp (py_slice response 0 len)
           (restart_timer (record_pdu FC_DAQ ctr timestamp len t2))))"

text \<open>An empty response raises \<open>IndexError\<close>.\<close>

definition process_response :: "incoming \<Rightarrow> (pyexn, transport, unit) prog" where
  "process_response = (\<lambda>(response, len, ctr, ts) t.
     (case response of
        [] \<Rightarrow> (Inl IndexError, t)
      | b # _ \<Rightarrow>
          (Inr (), if int_of_byte b \<ge> 0xFC then process_command_packet (int_of_byte b) (response, len, ctr, ts) t
                   else process_daq_packet (response, len, ctr, ts) t)))"

text \<open>The listener's thread; an exception of one packet is logged.\<close>

definition deliver :: "incoming list \<Rightarrow> transport \<Rightarrow> transport" where
  "deliver = fold (\<lambda>p t. snd (process_response p t))"

definition advance :: "tick \<Rightarrow> transport \<Rightarrow> transport" where
  "advance = (\<lambda>(dt, ps) t. deliver ps (t\<lparr>now := now t + dt\<rparr>))"

subsection \<open>Requests\<close>

definition clear_restart :: "transport \<Rightarrow> transport" where
  "clear_restart t = t\<lparr>event_part := (event_part t)\<lparr>timer_restart_event := False\<rparr>\<rparr>"

definition restart_set :: "transport \<Rightarrow> bool" where
  "restart_set t = timer_restart_event (event_part t)"

text \<open>\<open>get\<close>: one tick of the schedule per round of the loop.\<close>

fun get_loop :: "int \<Rightarrow> tick list \<Rightarrow> transport \<Rightarrow> (bytes result \<times> tick list \<times> transport) option" where
  "get_loop start sched t =
     (case resQueue t of
        item # q \<Rightarrow> Some (Inr item, sched, t\<lparr>resQueue := q\<rparr>)
      | [] \<Rightarrow>
          (let start' = (if restart_set t then now t else start);
               t' = (if restart_set t then clear_restart t else t)
           in if now t' - start' > timeout_ns t' then Some (Inl EmptyFrameError, sched, t')
              else case sched of
                [] \<Rightarrow> None
              | tick # rest \<Rightarrow> get_loop start' rest (advance tick t')))"

declare get_loop.simps [simp del]

definition get_item :: "tick list \<Rightarrow> transport \<Rightarrow> (bytes result \<times> tick list \<times> transport) option" where
  "get_item sched t = get_loop (now t) sched t"

definition prepare :: "command \<Rightarrow> int list \<Rightarrow> transport \<Rightarrow> bytes option result \<times> transport" where
  "prepare cmd data t =
     (let t1 = t\<lparr>parent_service := Some cmd\<rparr>
      in case prepare_request cmd data (framing t) of
           Inl e \<Rightarrow> (Inl e, t1)
         | Inr (frame, fr) \<Rightarrow> (Inr frame, t1\<lparr>framing := fr\<rparr>))"

definition send :: "bytes \<Rightarrow> transport \<Rightarrow> transport" where
  "send frame t = t\<lparr>wire := wire t @ [frame]\<rparr>"

definition XcpError_names :: "XcpError list" where
  "XcpError_names =
     [ERR_CMD_SYNCH, ERR_CMD_BUSY, ERR_DAQ_ACTIVE, ERR_PGM_ACTIVE, ERR_CMD_UNKNOWN, ERR_CMD_SYNTAX,
      ERR_OUT_OF_RANGE, ERR_WRITE_PROTECTED, ERR_ACCESS_DENIED, ERR_ACCESS_LOCKED, ERR_PAGE_NOT_VALID,
      ERR_MODE_NOT_VALID, ERR_SEGMENT_NOT_VALID, ERR_SEQUENCE, ERR_DAQ_CONFIG, ERR_MEMORY_OVERFLOW,
      ERR_GENERIC, ERR_VERIFY, ERR_RESOURCE_TEMPORARY_NOT_ACCESSIBLE, ERR_TIMEOUT]"

definition XcpError_of :: "int \<Rightarrow> XcpError" where
  "XcpError_of v = (case find (\<lambda>e. XcpError_value e = v) XcpError_names of
     Some e \<Rightarrow> e | None \<Rightarrow> XcpErrorOther v)"

text \<open>\<open>types.Response.parse(xcpPDU).type\<close> and the error code; both raise on an empty stream.\<close>

definition is_negative :: "bytes \<Rightarrow> bool result" where
  "is_negative pdu = (case pdu of [] \<Rightarrow> Inl StreamError | b # _ \<Rightarrow> Inr (b = 0xFE))"

definition negative_code :: "bytes \<Rightarrow> pyexn" where
  "negative_code rest = (case rest of [] \<Rightarrow> StreamError | c # _ \<Rightarrow> XcpResponseError (XcpError_of (int_of_byte c)))"

definition evaluate :: "command \<Rightarrow> bytes \<Rightarrow> (pyexn, transport, bytes option) prog" where
  "evaluate cmd pdu t =
     (case is_negative pdu of
        Inl e \<Rightarrow> (Inl e, t)
      | Inr neg \<Rightarrow>
          if neg \<and> cmd \<noteq> SYNCH then
            (Inl (negative_code (tl pdu)), feed_policy FC_ERROR (counter_received t) (now t) (tl pdu) t)
          else (Inr (Some (tl pdu)), t))"

definition request_internal ::
  "command \<Rightarrow> bool \<Rightarrow> int list \<Rightarrow> tick list \<Rightarrow> transport \<Rightarrow> (bytes option result \<times> tick list \<times> transport) option" where
  "request_internal cmd ignore_timeout data sched t =
     (case prepare cmd data t of
        (Inl e, t1) \<Rightarrow> Some (Inl e, sched, t1)
      | (Inr None, t1) \<Rightarrow> None
      | (Inr (Some frame), t1) \<Rightarrow>
          (let t2 = feed_policy FC_CMD (uint (counter_send (framing t1))) (now t1) frame t1;
               t3 = send frame (t2\<lparr>last_command_sent := Some cmd, frames_sent := frames_sent t2 + 1\<rparr>)
           in case get_item sched t3 of
                None \<Rightarrow> None
              | Some (Inl _, sched', t4) \<Rightarrow>
                  Some (if ignore_timeout then Inr None else Inl XcpTimeoutError, sched', t4)
              | Some (Inr pdu, sched', t4) \<Rightarrow>
                  (let (r, t5) = evaluate cmd pdu (t4\<lparr>frames_received := frames_received t4 + 1\<rparr>)
                   in Some (r, sched', t5))))"

definition request where "request cmd data = request_internal cmd False data"
definition request_optional_response where "request_optional_response cmd data = request_internal cmd True data"

subsection \<open>Block communication\<close>

text \<open>\<open>None\<close>: the frame overruns the send buffer.\<close>

definition block_request :: "command \<Rightarrow> int list \<Rightarrow> transport \<Rightarrow> (unit result \<times> transport) option" where
  "block_request cmd data t =
     (let (pending, t1) =
        (case resQueue t of
           [] \<Rightarrow> (Inr False, t)
         | pdu # q \<Rightarrow> (rbind (is_negative pdu) (\<lambda>neg.
             if neg \<and> cmd \<noteq> SYNCH then Inl (negative_code (tl pdu)) else Inr True), t\<lparr>resQueue := q\<rparr>))
      in case pending of
           Inl e \<Rightarrow> Some (Inl e, t1)
         | Inr _ \<Rightarrow>
             (case prepare cmd data t1 of
                (Inl e, t2) \<Rightarrow> Some (Inl e, t2)
              | (Inr None, t2) \<Rightarrow> None
              | (Inr (Some frame), t2) \<Rightarrow>
                  Some (Inr (), send frame (feed_policy (if cmd \<ge> 0xC0 then FC_CMD else FC_STIM)
                    (uint (counter_send (framing t2))) (now t2) frame t2))))"

function block_receive_loop ::
  "int \<Rightarrow> int \<Rightarrow> bytes \<Rightarrow> tick list \<Rightarrow> transport \<Rightarrow> (bytes result \<times> tick list \<times> transport) option" where
  "block_receive_loop length_required start block_response sched t =
     (if length_required \<le> int (length block_response) then Some (Inr block_response, sched, t)
      else case resQueue t of
        partial # q \<Rightarrow>
          block_receive_loop length_required start (block_response @ tl partial) sched (t\<lparr>resQueue := q\<rparr>)
      | [] \<Rightarrow>
          if now t - start > timeout_ns t then Some (Inl XcpTimeoutError, sched, t)
          else (case sched of
            [] \<Rightarrow> None
          | tick # rest \<Rightarrow> block_receive_loop length_required start block_response rest (advance tick t)))"
  by pat_completeness auto
termination
  by (relation "measures [\<lambda>(_, _, _, sched, _). length sched, \<lambda>(_, _, _, _, t). length (resQueue t)]") auto

declare block_receive_loop.simps [simp del]

definition block_receive :: "int \<Rightarrow> tick list \<Rightarrow> transport \<Rightarrow> (bytes result \<times> tick list \<times> transport) option" where
  "block_receive length_required sched t = block_receive_loop length_required (now t) [] sched t"

section \<open>Lemmas\<close>

subsection \<open>Incoming packets\<close>

definition is_response :: "incoming \<Rightarrow> bool" where
  "is_response = (\<lambda>(r, len, ctr, ts). case r of [] \<Rightarrow> False | b # _ \<Rightarrow> int_of_byte b \<ge> 0xFE)"

definition payload_of :: "incoming \<Rightarrow> bytes" where
  "payload_of = (\<lambda>(r, len, ctr, ts). py_slice r 0 len)"

definition responses :: "incoming list \<Rightarrow> bytes list" where
  "responses ps = map payload_of (filter is_response ps)"

lemma responses_simps [simp]:
  "responses [] = []"
  "responses (p # ps) = (if is_response p then payload_of p # responses ps else responses ps)"
  "responses (ps @ qs) = responses ps @ responses qs"
  by (simp_all add: responses_def)

text \<open>What a frame is, but for the time stamp.\<close>

definition without_stamp :: "incoming \<Rightarrow> bytes \<times> int \<times> int" where
  "without_stamp = (\<lambda>(p, l, c, ts). (p, l, c))"

lemma responses_without_stamp:
  "responses ps = [py_slice p 0 l. (p, l, c) \<leftarrow> map without_stamp ps, p \<noteq> [] \<and> 254 \<le> uint (hd p)]"
proof (induction ps)
  case (Cons a ps)
  obtain p l c ts where "a = (p, l, c, ts)" by (cases a) auto
  with Cons show ?case by (cases p) (auto simp: is_response_def payload_of_def without_stamp_def)
qed simp

text \<open>A packet that restarts the time-out: DAQ data, or the event EV_CMD_PENDING.\<close>

definition restarts :: "incoming \<Rightarrow> bool" where
  "restarts = (\<lambda>(r, len, ctr, ts). case r of [] \<Rightarrow> False
     | b # _ \<Rightarrow> int_of_byte b < 0xFC \<or>
         int_of_byte b = 0xFD \<and> 2 \<le> length (py_slice r 0 len) \<and> py_slice r 0 len ! 1 = 5)"

definition category :: "byte \<Rightarrow> FrameCategory" where
  "category b = (if int_of_byte b \<ge> 0xFE then FC_RESPONSE else if b = 0xFD then FC_EVENT
     else if b = 0xFC then FC_SERV else FC_DAQ)"

definition policy_entry :: "int \<Rightarrow> bool \<Rightarrow> incoming \<Rightarrow> (FrameCategory \<times> int \<times> int \<times> bytes) list" where
  "policy_entry time stamps = (\<lambda>(r, len, ctr, ts). case r of [] \<Rightarrow> []
     | b # _ \<Rightarrow> [(category b, ctr, if category b = FC_DAQ then (if stamps then ts else 0) else time, py_slice r 0 len)])"

text \<open>What processing a packet leaves alone.\<close>

definition sending_part where
  "sending_part t = (timeout_ns t, now t, create_daq_timestamps t, framing t, wire t, frames_sent t,
     frames_received t, parent_service t, last_command_sent t)"

lemma uint_byte_eq: "(b :: byte) = c \<longleftrightarrow> uint b = uint c"
  by (simp add: word_uint_eq_iff)

lemma restart_chain:
  "timer_restart_event (snd (process create_default_event_chain ec packet s))
     \<longleftrightarrow> timer_restart_event s \<or> ec = EV_CMD_PENDING"
  by (simp add: create_default_event_chain_def split: sum.split)

lemma process_response_effect:
  assumes "t' = snd (process_response p t)"
  shows "resQueue t' = resQueue t @ responses [p]"
    and "policy_feeds t' = policy_feeds t @ policy_entry (now t) (create_daq_timestamps t) p"
    and "restart_set t' \<longleftrightarrow> restart_set t \<or> restarts p"
    and "sending_part t' = sending_part t"
    and "length (last_pdus t') \<le> max 200 (length (last_pdus t))"
proof -
  obtain r len ctr ts where p: "p = (r, len, ctr, ts)" by (cases p) auto
  have "resQueue t' = resQueue t @ responses [p]
    \<and> policy_feeds t' = policy_feeds t @ policy_entry (now t) (create_daq_timestamps t) p
    \<and> (restart_set t' \<longleftrightarrow> restart_set t \<or> restarts p)
    \<and> sending_part t' = sending_part t
    \<and> length (last_pdus t') \<le> max 200 (length (last_pdus t))"
  proof (cases r)
    case Nil
    then show ?thesis
      using assms by (simp add: p process_response_def is_response_def policy_entry_def restarts_def)
  next
    case (Cons b bs)
    consider "uint b < 252" | "uint b = 252" | "uint b = 253" | "254 \<le> uint b" by linarith
    then show ?thesis
    proof cases
      case 1
      then show ?thesis
        using assms Cons
        by (simp add: p process_response_def process_daq_packet_def is_response_def policy_entry_def
            restarts_def category_def uint_byte_eq Let_def feed_policy_def restart_timer_def
            record_pdu_def restart_set_def sending_part_def)
    next
      case 2
      then show ?thesis
        using assms Cons
        by (simp add: p process_response_def process_command_packet_def is_response_def policy_entry_def
            restarts_def category_def uint_byte_eq Let_def feed_policy_def
            record_pdu_def restart_set_def sending_part_def)
    next
      case 3
      then show ?thesis
        using assms Cons
        by (simp add: p process_response_def process_command_packet_def is_response_def policy_entry_def
            restarts_def category_def uint_byte_eq Let_def feed_policy_def process_event_packet_def
            record_pdu_def restart_set_def sending_part_def restart_chain)
    next
      case 4
      then show ?thesis
        using assms Cons
        by (simp add: p process_response_def process_command_packet_def is_response_def policy_entry_def
            restarts_def category_def uint_byte_eq Let_def feed_policy_def payload_of_def
            record_pdu_def restart_set_def sending_part_def)
    qed
  qed
  then show "resQueue t' = resQueue t @ responses [p]"
    and "policy_feeds t' = policy_feeds t @ policy_entry (now t) (create_daq_timestamps t) p"
    and "restart_set t' \<longleftrightarrow> restart_set t \<or> restarts p"
    and "sending_part t' = sending_part t"
    and "length (last_pdus t') \<le> max 200 (length (last_pdus t))"
    by blast+
qed

lemma deliver_simps [simp]:
  "deliver [] t = t"
  "deliver (p # ps) t = deliver ps (snd (process_response p t))"
  by (simp_all add: deliver_def)

lemma deliver_effect:
  "resQueue (deliver ps t) = resQueue t @ responses ps"
  "policy_feeds (deliver ps t) = policy_feeds t @ concat (map (policy_entry (now t) (create_daq_timestamps t)) ps)"
  "restart_set (deliver ps t) \<longleftrightarrow> restart_set t \<or> (\<exists>p \<in> set ps. restarts p)"
  "sending_part (deliver ps t) = sending_part t"
  "length (last_pdus (deliver ps t)) \<le> max 200 (length (last_pdus t))"
proof -
  have "resQueue (deliver ps t) = resQueue t @ responses ps
    \<and> policy_feeds (deliver ps t) = policy_feeds t @ concat (map (policy_entry (now t) (create_daq_timestamps t)) ps)
    \<and> (restart_set (deliver ps t) \<longleftrightarrow> restart_set t \<or> (\<exists>p \<in> set ps. restarts p))
    \<and> sending_part (deliver ps t) = sending_part t
    \<and> length (last_pdus (deliver ps t)) \<le> max 200 (length (last_pdus t))"
  proof (induction ps arbitrary: t)
    case (Cons p ps)
    note e = process_response_effect [OF refl, where p = p and t = t]
    have "now (snd (process_response p t)) = now t"
      "create_daq_timestamps (snd (process_response p t)) = create_daq_timestamps t"
      using e(4) by (simp_all add: sending_part_def)
    then show ?case using e Cons.IH [of "snd (process_response p t)"] by auto
  qed simp
  then show "resQueue (deliver ps t) = resQueue t @ responses ps"
    "policy_feeds (deliver ps t) = policy_feeds t @ concat (map (policy_entry (now t) (create_daq_timestamps t)) ps)"
    "restart_set (deliver ps t) \<longleftrightarrow> restart_set t \<or> (\<exists>p \<in> set ps. restarts p)"
    "sending_part (deliver ps t) = sending_part t"
    "length (last_pdus (deliver ps t)) \<le> max 200 (length (last_pdus t))"
    by blast+
qed

lemma advance_effect:
  "resQueue (advance (dt, ps) t) = resQueue t @ responses ps"
  "restart_set (advance (dt, ps) t) \<longleftrightarrow> restart_set t \<or> (\<exists>p \<in> set ps. restarts p)"
  "sending_part (advance (dt, ps) t) = sending_part (t\<lparr>now := now t + dt\<rparr>)"
  using deliver_effect [where ps = ps and t = "t\<lparr>now := now t + dt\<rparr>"]
  by (simp_all add: advance_def restart_set_def)

lemma clear_restart_simps [simp]:
  "resQueue (clear_restart t) = resQueue t" "\<not> restart_set (clear_restart t)"
  "sending_part (clear_restart t) = sending_part t" "now (clear_restart t) = now t"
  "timeout_ns (clear_restart t) = timeout_ns t" "wire (clear_restart t) = wire t"
  by (simp_all add: clear_restart_def restart_set_def sending_part_def)

subsection \<open>Waiting for a response\<close>

lemma get_loop_item: "resQueue t = item # q \<Longrightarrow> get_loop start sched t = Some (Inr item, sched, t\<lparr>resQueue := q\<rparr>)"
  by (subst get_loop.simps) simp

lemma get_loop_wait:
  assumes "resQueue t = []"
  shows "get_loop start (tick # rest) t =
    (if restart_set t then
       (if 0 > timeout_ns t then Some (Inl EmptyFrameError, tick # rest, clear_restart t)
        else get_loop (now t) rest (advance tick (clear_restart t)))
     else if now t - start > timeout_ns t then Some (Inl EmptyFrameError, tick # rest, t)
     else get_loop start rest (advance tick t))"
  using assms by (subst get_loop.simps) (simp add: Let_def)

text \<open>A tick in which nothing arrives that a waiting request notices.\<close>

definition quiet :: "tick \<Rightarrow> bool" where
  "quiet = (\<lambda>(dt, ps). 0 \<le> dt \<and> responses ps = [] \<and> (\<forall>p \<in> set ps. \<not> restarts p))"

lemma advance_quiet:
  assumes "quiet (dt, ps)"
  shows "resQueue (advance (dt, ps) t) = resQueue t" "restart_set (advance (dt, ps) t) = restart_set t"
    "sending_part (advance (dt, ps) t) = sending_part (t\<lparr>now := now t + dt\<rparr>)"
  using assms by (auto simp: advance_effect quiet_def)

lemma sum_quiet_nonneg: "list_all quiet ts \<Longrightarrow> 0 \<le> sum_list (map fst ts)"
  by (induction ts) (auto simp: quiet_def)

lemma get_loop_quiet:
  assumes "list_all quiet ts" and "resQueue t = []" and "\<not> restart_set t"
    and "now t - start + sum_list (map fst ts) \<le> timeout_ns t"
  shows "\<exists>t'. get_loop start (ts @ rest) t = get_loop start rest t'
    \<and> resQueue t' = [] \<and> \<not> restart_set t'
    \<and> sending_part t' = sending_part (t\<lparr>now := now t + sum_list (map fst ts)\<rparr>)"
  using assms
proof (induction ts arbitrary: t)
  case Nil
  then show ?case by auto
next
  case (Cons tick ts)
  obtain dt ps where tick: "tick = (dt, ps)" by (cases tick)
  let ?t = "advance tick t"
  have q: "quiet (dt, ps)" using Cons.prems(1) tick by simp
  have nn: "0 \<le> sum_list (map fst ts)" "0 \<le> dt"
    using Cons.prems(1) q by (auto simp: quiet_def intro: sum_quiet_nonneg)
  have part: "sending_part ?t = sending_part (t\<lparr>now := now t + dt\<rparr>)" using advance_quiet [OF q] tick by simp
  then have n: "now ?t = now t + dt" "timeout_ns ?t = timeout_ns t" by (simp_all add: sending_part_def)
  have step: "get_loop start ((tick # ts) @ rest) t = get_loop start (ts @ rest) ?t"
    using Cons.prems(2,3,4) nn by (simp add: get_loop_wait tick)
  have "list_all quiet ts" "resQueue ?t = []" "\<not> restart_set ?t"
    "now ?t - start + sum_list (map fst ts) \<le> timeout_ns ?t"
    using Cons.prems advance_quiet [OF q] tick n by (simp_all add: algebra_simps)
  from Cons.IH [OF this] obtain t' where
    t': "get_loop start (ts @ rest) ?t = get_loop start rest t'" "resQueue t' = []" "\<not> restart_set t'"
      "sending_part t' = sending_part (?t\<lparr>now := now ?t + sum_list (map fst ts)\<rparr>)" by blast
  have "sending_part (?t\<lparr>now := now ?t + sum_list (map fst ts)\<rparr>)
      = sending_part (t\<lparr>now := now t + sum_list (map fst (tick # ts))\<rparr>)"
    using part by (simp add: sending_part_def tick algebra_simps)
  with step t' show ?case by metis
qed

subsection \<open>Sending\<close>

text \<open>The state after the frame has been handed over.\<close>

definition sent :: "command \<Rightarrow> bytes \<Rightarrow> transport \<Rightarrow> transport" where
  "sent cmd frame t =
     (let t' = feed_policy FC_CMD (uint (counter_send (framing t))) (now t) frame t
      in send frame (t'\<lparr>last_command_sent := Some cmd, frames_sent := frames_sent t' + 1\<rparr>))"

lemma sent_simps [simp]:
  "resQueue (sent cmd frame t) = resQueue t" "restart_set (sent cmd frame t) = restart_set t"
  "wire (sent cmd frame t) = wire t @ [frame]" "frames_sent (sent cmd frame t) = frames_sent t + 1"
  "frames_received (sent cmd frame t) = frames_received t" "now (sent cmd frame t) = now t"
  "timeout_ns (sent cmd frame t) = timeout_ns t" "framing (sent cmd frame t) = framing t"
  by (simp_all add: sent_def Let_def feed_policy_def send_def restart_set_def)

lemma prepare_frame:
  assumes "prepare_request cmd data (framing t) = Inr (Some frame, fr)"
  shows "prepare cmd data t = (Inr (Some frame), t\<lparr>parent_service := Some cmd, framing := fr\<rparr>)"
  using assms by (simp add: prepare_def Let_def)

lemma restart_set_parts [simp]:
  "restart_set (t\<lparr>parent_service := x, framing := fr\<rparr>) = restart_set t"
  "restart_set (t\<lparr>resQueue := q\<rparr>) = restart_set t"
  "restart_set (t\<lparr>now := n\<rparr>) = restart_set t"
  by (simp_all add: restart_set_def)

lemma request_internal_sends:
  assumes "prepare_request cmd data (framing t) = Inr (Some frame, fr)"
  shows "request_internal cmd ign data sched t =
    (case get_item sched (sent cmd frame (t\<lparr>parent_service := Some cmd, framing := fr\<rparr>)) of
       None \<Rightarrow> None
     | Some (Inl _, sched', t4) \<Rightarrow> Some (if ign then Inr None else Inl XcpTimeoutError, sched', t4)
     | Some (Inr pdu, sched', t4) \<Rightarrow>
         (let (r, t5) = evaluate cmd pdu (t4\<lparr>frames_received := frames_received t4 + 1\<rparr>)
          in Some (r, sched', t5)))"
  by (simp add: request_internal_def prepare_frame [OF assms] sent_def Let_def)

definition answer :: "command \<Rightarrow> bytes \<Rightarrow> bytes option result" where
  "answer cmd pdu =
     (if pdu = [] then Inl StreamError
      else if hd pdu = 0xFE \<and> cmd \<noteq> SYNCH then Inl (negative_code (tl pdu))
      else Inr (Some (tl pdu)))"

lemma evaluate_answer:
  "\<exists>t'. evaluate cmd pdu t = (answer cmd pdu, t') \<and> resQueue t' = resQueue t \<and> sending_part t' = sending_part t"
  by (cases pdu) (auto simp: evaluate_def is_negative_def answer_def feed_policy_def sending_part_def)

subsection \<open>Traffic that keeps a request waiting\<close>

definition busy :: "int \<Rightarrow> tick \<Rightarrow> bool" where
  "busy timeout = (\<lambda>(dt, ps). 0 \<le> dt \<and> dt \<le> timeout \<and> responses ps = [] \<and> (\<exists>p \<in> set ps. restarts p))"

lemma get_loop_busy:
  assumes "list_all (busy (timeout_ns t)) sched" and "resQueue t = []" and "0 \<le> timeout_ns t"
    and "restart_set t \<or> now t - start \<le> timeout_ns t"
  shows "get_loop start sched t = None"
  using assms
proof (induction sched arbitrary: start t)
  case Nil
  then show ?case by (subst get_loop.simps) (auto simp: Let_def)
next
  case (Cons tick sched)
  obtain dt ps where tick: "tick = (dt, ps)" by (cases tick)
  have b: "responses ps = []" "\<exists>p \<in> set ps. restarts p" using Cons.prems(1) tick by (auto simp: busy_def)
  have adv: "get_loop start' sched (advance tick t') = None"
    if "sending_part t' = sending_part t" "resQueue t' = []" for start' t'
  proof (rule Cons.IH)
    have s: "sending_part (advance tick t') = sending_part (t'\<lparr>now := now t' + dt\<rparr>)"
      by (simp add: tick advance_effect)
    show "list_all (busy (timeout_ns (advance tick t'))) sched" "0 \<le> timeout_ns (advance tick t')"
      using s that(1) Cons.prems(1,3) by (simp_all add: sending_part_def)
    show "resQueue (advance tick t') = []" using that(2) b by (simp add: tick advance_effect)
    show "restart_set (advance tick t') \<or> now (advance tick t') - start' \<le> timeout_ns (advance tick t')"
      using b by (simp add: tick advance_effect)
  qed
  show ?case
    using Cons.prems(2-4) adv by (auto simp: get_loop_wait)
qed

subsection \<open>Block reception\<close>

definition content :: "bytes list \<Rightarrow> bytes" where
  "content pdus = concat (map tl pdus)"

lemma content_simps [simp]:
  "content [] = []" "content (p # ps) = tl p @ content ps" "content (ps @ qs) = content ps @ content qs"
  by (simp_all add: content_def)

definition arrivals :: "tick list \<Rightarrow> bytes list" where
  "arrivals ts = concat (map (responses \<circ> snd) ts)"

lemma arrivals_simps [simp]: "arrivals [] = []" "arrivals (t # ts) = responses (snd t) @ arrivals ts"
  by (simp_all add: arrivals_def)

lemma block_receive_loop_collects:
  assumes "n \<le> int (length (acc @ content (resQueue t @ arrivals sched)))"
    and "\<forall>i \<le> length sched. now t + sum_list (map fst (take i sched)) - start \<le> timeout_ns t"
  shows "\<exists>k sched' t'. block_receive_loop n start acc sched t
      = Some (Inr (acc @ content (take k (resQueue t @ arrivals sched))), sched', t')
    \<and> n \<le> int (length (acc @ content (take k (resQueue t @ arrivals sched))))
    \<and> (0 < k \<longrightarrow> int (length (acc @ content (take (k - 1) (resQueue t @ arrivals sched)))) < n)
    \<and> resQueue t' @ arrivals sched' = drop k (resQueue t @ arrivals sched) \<and> wire t' = wire t"
  using assms
proof (induction n start acc sched t rule: block_receive_loop.induct)
  case (1 n start acc sched t)
  let ?all = "resQueue t @ arrivals sched"
  show ?case
  proof (cases "n \<le> int (length acc)")
    case True
    then show ?thesis
      by (intro exI [of _ 0] exI [of _ sched] exI [of _ t]) (subst block_receive_loop.simps, simp)
  next
    case more: False
    show ?thesis
    proof (cases "resQueue t")
      case queue: (Cons p q)
      have "\<exists>k sched' t'. block_receive_loop n start (acc @ tl p) sched (t\<lparr>resQueue := q\<rparr>)
          = Some (Inr ((acc @ tl p) @ content (take k (q @ arrivals sched))), sched', t')
        \<and> n \<le> int (length ((acc @ tl p) @ content (take k (q @ arrivals sched))))
        \<and> (0 < k \<longrightarrow> int (length ((acc @ tl p) @ content (take (k - 1) (q @ arrivals sched)))) < n)
        \<and> resQueue t' @ arrivals sched' = drop k (q @ arrivals sched) \<and> wire t' = wire t"
        using "1.IH"(2) [OF more queue] "1.prems" by (simp add: queue)
      then obtain k sched' t' where k: "block_receive_loop n start (acc @ tl p) sched (t\<lparr>resQueue := q\<rparr>)
          = Some (Inr ((acc @ tl p) @ content (take k (q @ arrivals sched))), sched', t')"
        "n \<le> int (length ((acc @ tl p) @ content (take k (q @ arrivals sched))))"
        "0 < k \<longrightarrow> int (length ((acc @ tl p) @ content (take (k - 1) (q @ arrivals sched)))) < n"
        "resQueue t' @ arrivals sched' = drop k (q @ arrivals sched)" "wire t' = wire t"
        by blast
      have step: "block_receive_loop n start acc sched t
          = block_receive_loop n start (acc @ tl p) sched (t\<lparr>resQueue := q\<rparr>)"
        using more queue by (subst block_receive_loop.simps) simp
      have pre: "int (length (acc @ content (take k (p # q @ arrivals sched)))) < n"
        using k(3) more by (cases k) simp_all
      show ?thesis
        using k pre step by (intro exI [of _ "Suc k"] exI [of _ sched'] exI [of _ t']) (simp add: queue)
    next
      case queue: Nil
      have time: "now t - start \<le> timeout_ns t" using "1.prems"(2) by (auto dest: spec [of _ 0])
      show ?thesis
      proof (cases sched)
        case Nil
        with "1.prems"(1) queue more show ?thesis by simp
      next
        case (Cons tick rest)
        obtain dt ps where tick: "tick = (dt, ps)" by (cases tick)
        let ?t = "advance tick t"
        have part: "sending_part ?t = sending_part (t\<lparr>now := now t + dt\<rparr>)" by (simp add: tick advance_effect)
        have all: "resQueue ?t @ arrivals rest = ?all" by (simp add: tick Cons advance_effect)
        have step: "block_receive_loop n start acc sched t = block_receive_loop n start acc rest ?t"
          using more queue Cons time by (subst block_receive_loop.simps) simp
        have time': "\<forall>i \<le> length rest. now ?t + sum_list (map fst (take i rest)) - start \<le> timeout_ns ?t"
        proof (intro allI impI)
          fix i assume "i \<le> length rest"
          then show "now ?t + sum_list (map fst (take i rest)) - start \<le> timeout_ns ?t"
            using "1.prems"(2) [rule_format, of "Suc i"] part by (simp add: Cons tick sending_part_def)
        qed
        have "wire ?t = wire t" using part by (simp add: sending_part_def)
        with "1.IH"(1) [OF more queue _ Cons] time time' "1.prems"(1) step all show ?thesis by simp
      qed
    qed
  qed
qed

subsection \<open>Conversations\<close>

text \<open>
  Requests one after the other. The schedule of each is the one tick in which its response arrives;
  a tick that the request does not wait for passes after it.
\<close>

fun conversation :: "(command \<times> int list \<times> tick) list \<Rightarrow> transport \<Rightarrow> (bytes option result list \<times> transport) option" where
  "conversation [] t = Some ([], t)"
| "conversation ((cmd, data, tick) # rest) t =
     (case request cmd data [tick] t of
        None \<Rightarrow> None
      | Some (r, left, t') \<Rightarrow>
          map_option (apfst ((#) r)) (conversation rest (fold advance left t')))"

lemma request_in_conversation:
  assumes "request_fits (framing_type (framing t)) cmd data" and "0 \<le> timeout_ns t"
    and "responses ps = [pdu]" and "queued = resQueue t @ [pdu]"
  shows "\<exists>left t'. request cmd data [(dt, ps)] t = Some (answer cmd (hd queued), left, t')
    \<and> resQueue (fold advance left t') = tl queued
    \<and> framing_type (framing (fold advance left t')) = framing_type (framing t)
    \<and> timeout_ns (fold advance left t') = timeout_ns t"
proof -
  let ?fr = "framing t\<lparr>counter_send := counter_send (framing t) + 1\<rparr>"
  obtain frame where f: "prepare_request cmd data (framing t) = Inr (Some frame, ?fr)"
    using prepare_request_fits [OF assms(1)] by blast
  let ?t = "sent cmd frame (t\<lparr>parent_service := Some cmd, framing := ?fr\<rparr>)"
  have adv: "resQueue (advance (dt, ps) u) = resQueue u @ [pdu]"
    "framing (advance (dt, ps) u) = framing u" "timeout_ns (advance (dt, ps) u) = timeout_ns u" for u
    using advance_effect(3) [of dt ps u] by (simp_all add: advance_effect assms(3) sending_part_def)
  let ?clear = "if restart_set ?t then clear_restart ?t else ?t"
  have "sending_part ?clear = sending_part ?t" by simp
  then have clear: "framing ?clear = framing ?t" "timeout_ns ?clear = timeout_ns ?t"
    by (simp_all add: sending_part_def)
  obtain left u where u: "get_item [(dt, ps)] ?t = Some (Inr (hd queued), left, u)"
    "resQueue (fold advance left u) = tl queued" "framing u = ?fr" "timeout_ns u = timeout_ns t"
    "left = [] \<or> left = [(dt, ps)]" "resQueue u @ (if left = [] then [] else [pdu]) = tl queued"
  proof (cases "resQueue t")
    case (Cons item q)
    show ?thesis
    proof (rule that)
      show "get_item [(dt, ps)] ?t = Some (Inr (hd queued), [(dt, ps)], ?t\<lparr>resQueue := q\<rparr>)"
        using Cons by (simp add: get_item_def get_loop_item assms(4))
    qed (use Cons in \<open>simp_all add: adv assms(4)\<close>)
  next
    case Nil
    let ?u = "advance (dt, ps) ?clear"
    show ?thesis
    proof (rule that)
      show "get_item [(dt, ps)] ?t = Some (Inr (hd queued), [], ?u\<lparr>resQueue := []\<rparr>)"
        using Nil assms(2) by (simp add: get_item_def get_loop_wait get_loop_item adv assms(4))
    qed (use Nil clear in \<open>simp_all add: adv assms(4)\<close>)
  qed
  let ?u = "u\<lparr>frames_received := frames_received u + 1\<rparr>"
  obtain t' where e: "evaluate cmd (hd queued) ?u = (answer cmd (hd queued), t')"
    "resQueue t' = resQueue u" "sending_part t' = sending_part ?u"
    using evaluate_answer [of cmd "hd queued" ?u] by auto
  have "framing t' = ?fr" "timeout_ns t' = timeout_ns t"
    using e(3) u(3,4) by (simp_all add: sending_part_def)
  moreover have "request cmd data [(dt, ps)] t = Some (answer cmd (hd queued), left, t')"
    using e(1) by (simp add: request_def request_internal_sends [OF f] u(1))
  ultimately show ?thesis
    using u(5,6) e(2) by (auto simp: adv)
qed

subsection \<open>A concrete transport\<close>

definition eth_framing :: XcpFramingConfig where
  "eth_framing = \<lparr>transport_layer_type = ETH, header_len = 2, header_ctr = 2, header_fill = 0,
     tail_fill = False, tail_cs = NO_CHECKSUM\<rparr>"

definition example :: transport where "example = new_transport eth_framing False 2000 0"

lemma example_simps [simp]:
  "resQueue example = []" "\<not> restart_set example" "timeout_ns example = 2000" "wire example = []"
  "now example = 0" "framing_type (framing example) = eth_framing"
  by (simp_all add: example_def new_transport_def restart_set_def)

lemma example_fits: "request_fits eth_framing CONNECT [0]" "request_fits eth_framing GET_STATUS []"
  by (simp_all add: request_fits_def eth_framing_def serialize_cmd_value_def byte_count_def find_msb_def msb_loop.simps)

text \<open>A positive and a negative response, an event, and a packet of measurements.\<close>

definition pos :: incoming where "pos = ([0xFF, 1, 0xAA], 2, 7, 0)"
definition neg :: incoming where "neg = ([0xFE, 0x10], 2, 8, 0)"
definition sleep :: incoming where "sleep = ([0xFD, 0x0A], 2, 9, 0)"
definition daq :: incoming where "daq = ([0, 1, 2], 3, 9, 0)"

lemma example_packets [simp]:
  "responses [pos] = [[0xFF, 1]]" "responses [neg] = [[0xFE, 0x10]]" "responses [pos, neg] = [[0xFF, 1], [0xFE, 0x10]]"
  "is_response pos" "is_response neg" "payload_of pos = [0xFF, 1]" "payload_of neg = [0xFE, 0x10]"
  "\<not> is_response sleep" "\<not> restarts sleep" "\<not> is_response daq" "restarts daq"
  by (simp_all add: pos_def neg_def sleep_def daq_def is_response_def payload_of_def py_slice_def py_clip_def Let_def restarts_def)

lemma example_frame: "\<exists>frame fr. prepare_request CONNECT [0] (framing example) = Inr (Some frame, fr)"
  using prepare_request_fits [of "framing example" CONNECT "[0]"] example_fits(1) by (auto simp only: example_simps)

section \<open>Properties\<close>

text \<open>
  C8. The listener: the packets of one burst with identifiers from 0xFE up are queued as responses, in
  order and cut to their length; every non-empty packet is fed to the policy once, under the category
  of its identifier; DAQ data and EV_CMD_PENDING restart a waiting request's time-out, nothing else
  does; the sending side is left alone, and the diagnostics keep at most 200 entries.
\<close>

theorem incoming_packets_classified:
  "resQueue (deliver ps t) = resQueue t @ responses ps
   \<and> policy_feeds (deliver ps t) = policy_feeds t @ concat (map (policy_entry (now t) (create_daq_timestamps t)) ps)
   \<and> (restart_set (deliver ps t) \<longleftrightarrow> restart_set t \<or> (\<exists>p \<in> set ps. restarts p))
   \<and> sending_part (deliver ps t) = sending_part t
   \<and> length (last_pdus (deliver ps t)) \<le> max 200 (length (last_pdus t))"
  by (intro conjI deliver_effect)

text \<open>
  C6. A request with an empty queue, when nothing else arrives within the time-out but the response:
  the frame goes out exactly once, and the result is the content of the first response, or the error it
  names; later responses stay in the queue.
\<close>

theorem request_answered:
  assumes "prepare_request cmd data (framing t) = Inr (Some frame, fr)"
    and "resQueue t = []" and "\<not> restart_set t" and "list_all quiet ts"
    and "sum_list (map fst ts) \<le> timeout_ns t" and "responses ps = pdu # q"
  shows "\<exists>t'. request_internal cmd ign data (ts @ (dt, ps) # rest) t = Some (answer cmd pdu, rest, t')
    \<and> wire t' = wire t @ [frame] \<and> framing t' = fr \<and> resQueue t' = q
    \<and> frames_sent t' = frames_sent t + 1 \<and> frames_received t' = frames_received t + 1
    \<and> now t' = now t + sum_list (map fst ts) + dt"
proof -
  let ?t = "sent cmd frame (t\<lparr>parent_service := Some cmd, framing := fr\<rparr>)"
  obtain t1 where t1: "get_loop (now t) (ts @ (dt, ps) # rest) ?t = get_loop (now t) ((dt, ps) # rest) t1"
    "resQueue t1 = []" "\<not> restart_set t1"
    "sending_part t1 = sending_part (?t\<lparr>now := now ?t + sum_list (map fst ts)\<rparr>)"
    using get_loop_quiet [of ts ?t "now t" "(dt, ps) # rest"] assms(2-5) by auto
  let ?t2 = "advance (dt, ps) t1"
  have n: "now t1 - now t \<le> timeout_ns t1" using t1(4) assms(5) by (simp add: sending_part_def)
  have "get_loop (now t) ((dt, ps) # rest) t1 = Some (Inr pdu, rest, ?t2\<lparr>resQueue := q\<rparr>)"
    using t1(2,3) n assms(6) by (simp add: get_loop_wait get_loop_item advance_effect)
  then have g: "get_item (ts @ (dt, ps) # rest) ?t = Some (Inr pdu, rest, ?t2\<lparr>resQueue := q\<rparr>)"
    using t1(1) by (simp add: get_item_def)
  let ?t3 = "?t2\<lparr>resQueue := q, frames_received := frames_received ?t2 + 1\<rparr>"
  obtain t' where e: "evaluate cmd pdu ?t3 = (answer cmd pdu, t')"
    "resQueue t' = q" "sending_part t' = sending_part ?t3"
    using evaluate_answer [of cmd pdu ?t3] by auto
  have "sending_part ?t2 = sending_part (t1\<lparr>now := now t1 + dt\<rparr>)" by (rule advance_effect)
  then show ?thesis
    using e t1(4) by (simp add: request_internal_sends [OF assms(1)] g sending_part_def)
qed

theorem request_answered_witness:
  "\<exists>frame t'. request_internal CONNECT False [0] [(500, [sleep]), (300, [pos, neg])] example
      = Some (Inr (Some [1]), [], t') \<and> wire t' = [frame] \<and> resQueue t' = [[0xFE, 0x10]]"
proof -
  obtain frame fr where "prepare_request CONNECT [0] (framing example) = Inr (Some frame, fr)"
    using example_frame by blast
  from request_answered [OF this, of "[(500, [sleep])]" "[pos, neg]" "[0xFF, 1]" "[[0xFE, 0x10]]" False 300 "[]"]
  show ?thesis by (auto simp: quiet_def answer_def)
qed

text \<open>
  A silent slave: the request ends with the time-out error (the request of an optional response
  with no response) after the first wait that passes the time-out, having sent its frame once.
\<close>

theorem silent_slave_times_out:
  assumes "prepare_request cmd data (framing t) = Inr (Some frame, fr)"
    and "resQueue t = []" and "\<not> restart_set t" and "list_all quiet ts" and "quiet tick"
    and "sum_list (map fst ts) \<le> timeout_ns t" and "timeout_ns t < sum_list (map fst ts) + fst tick"
  shows "\<exists>t'. request_internal cmd ign data (ts @ tick # rest) t
      = Some (if ign then Inr None else Inl XcpTimeoutError, rest, t')
    \<and> wire t' = wire t @ [frame] \<and> resQueue t' = [] \<and> frames_received t' = frames_received t
    \<and> now t' = now t + sum_list (map fst ts) + fst tick"
proof -
  let ?t = "sent cmd frame (t\<lparr>parent_service := Some cmd, framing := fr\<rparr>)"
  obtain dt ps where tick: "tick = (dt, ps)" by (cases tick)
  have q: "quiet (dt, ps)" using assms(5) tick by simp
  obtain t1 where t1: "get_loop (now t) (ts @ (dt, ps) # rest) ?t = get_loop (now t) ((dt, ps) # rest) t1"
    "resQueue t1 = []" "\<not> restart_set t1"
    "sending_part t1 = sending_part (?t\<lparr>now := now ?t + sum_list (map fst ts)\<rparr>)"
    using get_loop_quiet [of ts ?t "now t" "(dt, ps) # rest"] assms(2-4,6) by auto
  let ?t2 = "advance (dt, ps) t1"
  have s2: "sending_part ?t2 = sending_part (t1\<lparr>now := now t1 + dt\<rparr>)" by (rule advance_effect)
  have a2: "resQueue ?t2 = []" "\<not> restart_set ?t2" using advance_quiet [OF q] t1(2,3) by simp_all
  have "now t1 - now t \<le> timeout_ns t1" using t1(4) assms(6) by (simp add: sending_part_def)
  then have "get_loop (now t) ((dt, ps) # rest) t1 = get_loop (now t) rest ?t2"
    using t1(2,3) by (simp add: get_loop_wait)
  also have "now ?t2 - now t > timeout_ns ?t2"
    using s2 t1(4) assms(7) tick by (simp add: sending_part_def)
  then have "get_loop (now t) rest ?t2 = Some (Inl EmptyFrameError, rest, ?t2)"
    using a2 by (subst get_loop.simps) (simp add: Let_def)
  finally have g: "get_item (ts @ tick # rest) ?t = Some (Inl EmptyFrameError, rest, ?t2)"
    using t1(1) tick by (simp add: get_item_def)
  then show ?thesis
    using s2 t1(4) a2 tick by (simp add: request_internal_sends [OF assms(1)] sending_part_def)
qed

theorem silent_slave_times_out_witness:
  "\<exists>t'. request_internal CONNECT False [0] [(500, [sleep]), (1600, []), (7, [pos])] example
      = Some (Inl XcpTimeoutError, [(7, [pos])], t') \<and> resQueue t' = [] \<and> now t' = 2100"
proof -
  obtain frame fr where "prepare_request CONNECT [0] (framing example) = Inr (Some frame, fr)"
    using example_frame by blast
  from silent_slave_times_out [OF this, of "[(500, [sleep])]" "(1600, [])" False "[(7, [pos])]"]
  show ?thesis by (auto simp: quiet_def)
qed

text \<open>
  While DAQ data or EV_CMD_PENDING arrive in every wait of at most the time-out's length, an
  unanswered request never ends, however long that goes on.
\<close>

theorem daq_traffic_suspends_timeout:
  assumes "prepare_request cmd data (framing t) = Inr (Some frame, fr)"
    and "resQueue t = []" and "0 \<le> timeout_ns t" and "list_all (busy (timeout_ns t)) sched"
  shows "request_internal cmd ign data sched t = None"
proof -
  let ?t = "sent cmd frame (t\<lparr>parent_service := Some cmd, framing := fr\<rparr>)"
  have "get_loop (now ?t) sched ?t = None"
    using assms(2-4) by (intro get_loop_busy) simp_all
  then show ?thesis by (simp add: request_internal_sends [OF assms(1)] get_item_def)
qed

theorem daq_traffic_suspends_timeout_witness:
  "request_internal CONNECT False [0] (replicate 100 (2000, [daq])) example = None"
proof -
  obtain frame fr where "prepare_request CONNECT [0] (framing example) = Inr (Some frame, fr)"
    using example_frame by blast
  from daq_traffic_suspends_timeout [OF this, of "replicate 100 (2000, [daq])" False]
  show ?thesis by (simp add: busy_def list_all_iff)
qed

text \<open>
  Block reception: when the packets that arrive in time carry enough bytes, the result is the
  content of the fewest packets that reach the length, in the order received; the rest stays queued.
  What a packet is (an error packet, say) is not looked at.
\<close>

theorem block_receive_collects:
  assumes "\<forall>i \<le> length sched. sum_list (map fst (take i sched)) \<le> timeout_ns t"
    and "all = resQueue t @ arrivals sched" and "n \<le> int (length (content all))"
  shows "\<exists>k sched' t'. block_receive n sched t = Some (Inr (content (take k all)), sched', t')
    \<and> n \<le> int (length (content (take k all)))
    \<and> (0 < k \<longrightarrow> int (length (content (take (k - 1) all))) < n)
    \<and> resQueue t' @ arrivals sched' = drop k all \<and> wire t' = wire t"
  using block_receive_loop_collects [of n "[]" t sched "now t"] assms
  by (simp add: block_receive_def)

theorem block_receive_collects_witness:
  "\<exists>k sched' t'. block_receive 2 [(100, [pos]), (200, [pos, neg])] example
     = Some (Inr (content (take k [[0xFF, 1], [0xFF, 1], [0xFE, 0x10]])), sched', t')"
proof -
  have "\<forall>i \<le> length [(100, [pos]), (200, [pos, neg])].
      sum_list (map fst (take i [(100, [pos]), (200, [pos, neg])])) \<le> timeout_ns example"
    by (auto simp: le_Suc_eq numeral_2_eq_2)
  from block_receive_collects [OF this refl, of 2] show ?thesis by auto
qed

text \<open>
  C7. Nothing ties a response to its request. When every request fits the send buffer and gets one
  response in time, the i-th request returns the i-th response of the queue: in step when the queue is
  empty at the start, but with one stale response in it (that of a request that timed out) every
  request gets its predecessor's response, and one stays behind.
\<close>

theorem responses_in_order:
  assumes "\<forall>(cmd, data, tick) \<in> set reqs. request_fits (framing_type (framing t)) cmd data
      \<and> (\<exists>pdu. responses (snd tick) = [pdu])"
    and "0 \<le> timeout_ns t"
    and "all = resQueue t @ arrivals (map (snd \<circ> snd) reqs)"
  shows "\<exists>t'. conversation reqs t = Some (map2 answer (map fst reqs) all, t')
    \<and> resQueue t' = drop (length reqs) all"
  using assms
proof (induction reqs arbitrary: t all)
  case (Cons req reqs)
  obtain cmd data dt ps where req: "req = (cmd, data, dt, ps)" by (cases req) auto
  obtain pdu where pdu: "responses ps = [pdu]" using Cons.prems(1) req by auto
  have fits: "request_fits (framing_type (framing t)) cmd data" using Cons.prems(1) req by auto
  obtain left t' where t': "request cmd data [(dt, ps)] t = Some (answer cmd (hd (resQueue t @ [pdu])), left, t')"
    "resQueue (fold advance left t') = tl (resQueue t @ [pdu])"
    "framing_type (framing (fold advance left t')) = framing_type (framing t)"
    "timeout_ns (fold advance left t') = timeout_ns t"
    using request_in_conversation [OF fits Cons.prems(2) pdu refl] by blast
  have all: "all = (resQueue t @ [pdu]) @ arrivals (map (snd \<circ> snd) reqs)"
    using Cons.prems(3) by (simp add: req pdu comp_def)
  then have tl_all: "tl all = tl (resQueue t @ [pdu]) @ arrivals (map (snd \<circ> snd) reqs)"
    and hd_all: "all = hd (resQueue t @ [pdu]) # tl all"
    by (cases "resQueue t", simp_all)+
  have "\<forall>(cmd, data, tick) \<in> set reqs. request_fits (framing_type (framing (fold advance left t'))) cmd data
      \<and> (\<exists>pdu. responses (snd tick) = [pdu])"
    unfolding t'(3) using Cons.prems(1) by simp
  moreover have "0 \<le> timeout_ns (fold advance left t')" using Cons.prems(2) t'(4) by simp
  moreover have "tl all = resQueue (fold advance left t') @ arrivals (map (snd \<circ> snd) reqs)"
    unfolding t'(2) by (rule tl_all)
  ultimately obtain t'' where
    "conversation reqs (fold advance left t') = Some (map2 answer (map fst reqs) (tl all), t'')"
    "resQueue t'' = drop (length reqs) (tl all)"
    using Cons.IH by blast
  then show ?case
    using t'(1) by (subst (1 2) hd_all) (simp add: req)
qed simp

theorem responses_in_order_witness:
  "\<exists>t'. conversation [(CONNECT, [0], (5, [pos])), (GET_STATUS, [], (5, [neg]))]
       (example\<lparr>resQueue := [[0xFF, 9]]\<rparr>)
     = Some ([Inr (Some [9]), Inr (Some [1])], t') \<and> resQueue t' = [[0xFE, 0x10]]"
  using responses_in_order [OF _ _ refl, of "[(CONNECT, [0], (5, [pos])), (GET_STATUS, [], (5, [neg]))]"
      "example\<lparr>resQueue := [[0xFF, 9]]\<rparr>"] example_fits
  by (simp add: answer_def)

text \<open>
  A block request looks at one queued packet first: a negative response is raised and nothing is
  sent; a positive one is thrown away, unseen, and the frame is sent without waiting.
\<close>

theorem block_request_pending:
  assumes "resQueue t = pdu # q" and "pdu \<noteq> []" and "cmd \<noteq> SYNCH"
    and "request_fits (framing_type (framing t)) cmd data"
  shows "\<exists>t'. block_request cmd data t
      = Some (if hd pdu = 0xFE then Inl (negative_code (tl pdu)) else Inr (), t')
    \<and> resQueue t' = q
    \<and> (if hd pdu = 0xFE then wire t' = wire t \<and> framing t' = framing t
       else \<exists>frame. prepare_request cmd data (framing t) = Inr (Some frame, framing t')
              \<and> wire t' = wire t @ [frame])"
proof -
  obtain frame where "prepare_request cmd data (framing t)
      = Inr (Some frame, framing t\<lparr>counter_send := counter_send (framing t) + 1\<rparr>)"
    using prepare_request_fits [OF assms(4)] by blast
  then show ?thesis
    using assms(1-3)
    by (cases pdu) (auto simp: block_request_def is_negative_def prepare_def Let_def feed_policy_def send_def)
qed

theorem block_request_pending_witness:
  "\<exists>t'. block_request DOWNLOAD_NEXT [1, 2] (example\<lparr>resQueue := [[0xFE, 0x29], [0xFF]]\<rparr>)
     = Some (Inl (XcpResponseError ERR_SEQUENCE), t') \<and> wire t' = [] \<and> resQueue t' = [[0xFF]]"
proof -
  have "request_fits eth_framing DOWNLOAD_NEXT [1, 2]"
    by (simp add: request_fits_def eth_framing_def serialize_cmd_value_def byte_count_def find_msb_def msb_loop.simps)
  then show ?thesis
    using block_request_pending [of "example\<lparr>resQueue := [[0xFE, 0x29], [0xFF]]\<rparr>" "[0xFE, 0x29]" "[[0xFF]]"
        DOWNLOAD_NEXT "[1, 2]"]
    by (auto simp: negative_code_def XcpError_of_def XcpError_names_def)
qed

end
