(* ===== verification/Can_Frames.thy ===== *)
theory Can_Frames
  imports Xcp_Types
begin

unbundle bit_operations_syntax

text \<open>
  \<open>pyxcp/transport/can.py\<close>: identifiers, hardware and software filters, padding to the lengths CAN
  and CAN-FD know, the wrapper that reads and filters frames, and the step of the listener that
  translates an identifier to a PID. The bus is python-can's: reading gives a message, nothing
  (time-out), or a \<open>CanError\<close>; the filters handed to it are recorded in the state.
\<close>

section \<open>Model\<close>

definition CAN_EXTENDED_ID :: int where "CAN_EXTENDED_ID = 0x80000000"
definition MAX_11_BIT_IDENTIFIER :: int where "MAX_11_BIT_IDENTIFIER = 2 ^ 11 - 1"
definition MAX_29_BIT_IDENTIFIER :: int where "MAX_29_BIT_IDENTIFIER = 2 ^ 29 - 1"
definition MAX_DLC_CLASSIC :: nat where "MAX_DLC_CLASSIC = 8"
definition CAN_FD_DLCS :: "nat list" where "CAN_FD_DLCS = [12, 16, 20, 24, 32, 48, 64]"

definition is_extended_identifier :: "int \<Rightarrow> bool" where
  "is_extended_identifier identifier \<longleftrightarrow> identifier AND CAN_EXTENDED_ID = CAN_EXTENDED_ID"

definition stripIdentifier :: "int \<Rightarrow> int" where
  "stripIdentifier identifier = identifier AND (NOT 0xE0000000)"

subsection \<open>Padding\<close>

text \<open>\<open>bisect.bisect_left\<close> on a sorted sequence.\<close>

definition bisect_left :: "nat list \<Rightarrow> nat \<Rightarrow> nat" where
  "bisect_left xs v = length (takeWhile (\<lambda>x. x < v) xs)"

text \<open>\<open>bytes([v])\<close> raises \<open>ValueError\<close> unless \<open>v\<close> is a byte.\<close>

definition pad_frame :: "bytes \<Rightarrow> bool \<Rightarrow> int \<Rightarrow> bytes result" where
  "pad_frame frame pad padding_value =
     rbind (if length frame \<le> MAX_DLC_CLASSIC then
              Inr (if pad then MAX_DLC_CLASSIC else length frame)
            else
              py_index IndexError CAN_FD_DLCS (int (bisect_left CAN_FD_DLCS (length frame)))) (\<lambda>actual_len.
       if length frame < actual_len then
         (if 0 \<le> padding_value \<and> padding_value < 256 then
            Inr (frame @ replicate (actual_len - length frame) (word_of_int padding_value))
          else Inl ValueError)
       else Inr frame)"

definition set_DLC :: "int \<Rightarrow> int result" where
  "set_DLC len =
     (if len < 0 then Inl ValueError
      else if len \<le> int MAX_DLC_CLASSIC then Inr len
      else if len \<le> 64 then
        (case find (\<lambda>dlc. len \<le> int dlc) CAN_FD_DLCS of
           Some dlc \<Rightarrow> Inr (int dlc)
         | None \<Rightarrow> Inl TypeError)
      else Inl ValueError)"

subsection \<open>Identifiers\<close>

record Identifier =
  raw_id :: int
  can_ident :: int
  is_extended :: bool

definition mk_Identifier :: "int \<Rightarrow> Identifier result" where
  "mk_Identifier raw =
     (let i = stripIdentifier raw; e = is_extended_identifier raw
      in if (e \<and> i > MAX_29_BIT_IDENTIFIER) \<or> (\<not> e \<and> i > MAX_11_BIT_IDENTIFIER)
         then Inl IdentifierOutOfRangeError
         else Inr \<lparr>raw_id = raw, can_ident = i, is_extended = e\<rparr>)"

definition type_str :: "Identifier \<Rightarrow> string" where
  "type_str i = (if is_extended i then ''E'' else ''S'')"

definition make_identifier :: "int \<Rightarrow> bool \<Rightarrow> Identifier result" where
  "make_identifier identifier extended =
     mk_Identifier (if \<not> extended then identifier else identifier OR CAN_EXTENDED_ID)"

text \<open>A filter dictionary; without the key \<open>extended\<close> its value is \<open>None\<close>.\<close>

record can_filter =
  can_id :: int
  can_mask :: int
  extended :: "bool option"

definition create_filter_from_id :: "Identifier \<Rightarrow> can_filter" where
  "create_filter_from_id i = \<lparr>can_id = can_ident i,
     can_mask = (if is_extended i then MAX_29_BIT_IDENTIFIER else MAX_11_BIT_IDENTIFIER),
     extended = Some (is_extended i)\<rparr>"

definition Identifier_eq :: "Identifier \<Rightarrow> Identifier \<Rightarrow> bool" where
  "Identifier_eq self other \<longleftrightarrow> can_ident self = can_ident other \<and> is_extended self = is_extended other"

subsection \<open>Software filters\<close>

datatype FilterState = REJECT_ALL | ACCEPT_ALL | FILTERING

record SoftwareFilter =
  filters :: "can_filter list option"
  filter_state :: FilterState

definition new_SoftwareFilter :: SoftwareFilter where
  "new_SoftwareFilter = \<lparr>filters = None, filter_state = REJECT_ALL\<rparr>"

definition set_filters :: "can_filter list \<Rightarrow> SoftwareFilter \<Rightarrow> SoftwareFilter" where
  "set_filters fs self = self\<lparr>filters := Some fs, filter_state := FILTERING\<rparr>"

definition accept_all :: "SoftwareFilter \<Rightarrow> SoftwareFilter" where
  "accept_all self = self\<lparr>filter_state := ACCEPT_ALL\<rparr>"

definition reject_all :: "SoftwareFilter \<Rightarrow> SoftwareFilter" where
  "reject_all self = self\<lparr>filter_state := REJECT_ALL\<rparr>"

text \<open>A \<open>can.Message\<close>.\<close>

record Message =
  arbitration_id :: int
  is_extended_id :: bool
  dlc :: nat
  msg_data :: bytes

fun accept_any :: "can_filter list \<Rightarrow> Message \<Rightarrow> bool" where
  "accept_any [] msg = False"
| "accept_any (f # fs) msg =
     (if extended f \<noteq> None \<and> extended f \<noteq> Some (is_extended_id msg) then accept_any fs msg
      else if (can_id f XOR arbitration_id msg) AND can_mask f = 0 then True
      else accept_any fs msg)"

definition accept :: "SoftwareFilter \<Rightarrow> Message \<Rightarrow> bool" where
  "accept self msg =
     (case filter_state self of
        REJECT_ALL \<Rightarrow> False
      | ACCEPT_ALL \<Rightarrow> True
      | FILTERING \<Rightarrow> (case filters self of None \<Rightarrow> True | Some fs \<Rightarrow> accept_any fs msg))"

definition calculate_filter :: "int list \<Rightarrow> (int \<times> int) result" where
  "calculate_filter ids =
     (case map stripIdentifier ids of
        [] \<Rightarrow> Inl TypeError
      | r # rs \<Rightarrow>
          (let any_extended_ids = list_ex is_extended_identifier ids;
               cfilter = foldl (AND) r rs;
               cmask = foldl (OR) r rs XOR cfilter
           in Inr (cfilter, cmask XOR (if any_extended_ids then 0x1FFFFFFF else 0x7FF))))"

subsection \<open>The python-can wrapper\<close>

text \<open>
  \<open>bus_filters\<close> are the filters the bus was given last; \<open>has_user_supplied_interface\<close>, the slave's
  identifier and the DAQ identifiers belong to the parent.
\<close>

record PythonCanWrapper =
  has_user_supplied_interface :: bool
  can_id_slave :: Identifier
  daq_identifier :: "Identifier list"
  bus_filters :: "can_filter list option"
  connected :: bool
  software_filter :: SoftwareFilter
  saved_filters :: "can_filter list"
  bus_open :: bool

definition slave_filters :: "PythonCanWrapper \<Rightarrow> Identifier list \<Rightarrow> can_filter list" where
  "slave_filters w daq_ids = create_filter_from_id (can_id_slave w) # map create_filter_from_id daq_ids"

fun merge_filters :: "can_filter list \<Rightarrow> can_filter list \<Rightarrow> can_filter list" where
  "merge_filters merged [] = merged"
| "merge_filters merged (f # fs) =
     merge_filters (if f \<in> set merged then merged else merged @ [f]) fs"

definition wrapper_connect :: "PythonCanWrapper \<Rightarrow> PythonCanWrapper" where
  "wrapper_connect w =
     (if connected w then w
      else let can_filters = slave_filters w (daq_identifier w)
           in if has_user_supplied_interface w then
                (let saved = (case bus_filters w of None \<Rightarrow> [] | Some fs \<Rightarrow> fs)
                 in w\<lparr>saved_filters := saved,
                      bus_filters := Some (merge_filters can_filters saved),
                      software_filter := set_filters can_filters (software_filter w),
                      connected := True\<rparr>)
              else w\<lparr>bus_filters := Some can_filters, bus_open := True,
                     software_filter := accept_all (software_filter w), connected := True\<rparr>)"

definition update_daq_filters :: "Identifier list \<Rightarrow> PythonCanWrapper \<Rightarrow> PythonCanWrapper" where
  "update_daq_filters ids w =
     (if \<not> connected w \<or> ids = [] then w
      else let can_filters = slave_filters w ids
           in if has_user_supplied_interface w then
                w\<lparr>bus_filters := Some (merge_filters can_filters (saved_filters w)),
                  software_filter := set_filters can_filters (software_filter w)\<rparr>
              else w\<lparr>software_filter := set_filters can_filters (software_filter w)\<rparr>)"

definition wrapper_close :: "PythonCanWrapper \<Rightarrow> PythonCanWrapper" where
  "wrapper_close w =
     (let w1 = (if connected w \<and> \<not> has_user_supplied_interface w then w\<lparr>bus_open := False\<rparr> else w);
          w2 = (if saved_filters w \<noteq> [] then w1\<lparr>bus_filters := Some (saved_filters w)\<rparr> else w1)
      in w2\<lparr>connected := False\<rparr>)"

text \<open>What \<open>recv\<close> yields.\<close>

datatype recv = Received Message | RecvTimeout | RecvError

record Frame =
  frame_id :: Identifier
  frame_dlc :: nat
  frame_data :: bytes

definition wrapper_read :: "PythonCanWrapper \<Rightarrow> recv \<Rightarrow> Frame option result" where
  "wrapper_read w r =
     (if \<not> connected w then Inr None
      else case r of
             RecvError \<Rightarrow> Inr None
           | RecvTimeout \<Rightarrow> Inr None
           | Received msg \<Rightarrow>
               if msg_data msg = [] \<or> \<not> accept (software_filter w) msg then Inr None
               else rbind (make_identifier (arbitration_id msg) (is_extended_id msg)) (\<lambda>i.
                 Inr (Some \<lparr>frame_id = i, frame_dlc = dlc msg, frame_data = msg_data msg\<rparr>)))"

text \<open>\<open>can_id_pid_map\<close>: identifiers of the configuration, numbered; \<open>bytes([idx])\<close> needs a byte.\<close>

definition can_id_pid_map :: "int list \<Rightarrow> (int \<times> bytes) list result" where
  "can_id_pid_map ids =
     (if length ids \<le> 256 then Inr (rev (zip ids (map (\<lambda>k. [word_of_nat k]) [0..<length ids])))
      else Inl ValueError)"

text \<open>One round of \<open>listen\<close>: the payload handed to \<open>data_received\<close>; exceptions are logged.\<close>

definition listen_step :: "PythonCanWrapper \<Rightarrow> (int \<times> bytes) list \<Rightarrow> recv \<Rightarrow> bytes option" where
  "listen_step w pid_map r =
     (case wrapper_read w r of
        Inl _ \<Rightarrow> None
      | Inr None \<Rightarrow> None
      | Inr (Some frame) \<Rightarrow>
          (case map_of pid_map (raw_id (frame_id frame)) of
             Some pid \<Rightarrow> Some (pid @ frame_data frame)
           | None \<Rightarrow> Some (frame_data frame)))"

section \<open>Lemmas\<close>

lemma and_max: "x AND MAX_11_BIT_IDENTIFIER = take_bit 11 x" "x AND MAX_29_BIT_IDENTIFIER = take_bit 29 x"
  by (simp_all add: MAX_11_BIT_IDENTIFIER_def MAX_29_BIT_IDENTIFIER_def take_bit_eq_mask mask_eq_exp_minus_1)

lemma take_bit_xor_0: "take_bit n (x XOR y) = 0 \<longleftrightarrow> take_bit n x = take_bit n (y::int)"
proof
  assume "take_bit n (x XOR y) = 0"
  then have "take_bit n x XOR take_bit n y = 0" by simp
  then have "(take_bit n x XOR take_bit n y) XOR take_bit n y = take_bit n y" by simp
  then show "take_bit n x = take_bit n y" by (simp add: xor.assoc)
qed simp

definition valid_id :: "int \<Rightarrow> bool \<Rightarrow> bool" where
  "valid_id i e \<longleftrightarrow> 0 \<le> i \<and> i \<le> (if e then MAX_29_BIT_IDENTIFIER else MAX_11_BIT_IDENTIFIER)"

lemma valid_id_take_bit: "valid_id i e \<Longrightarrow> take_bit (if e then 29 else 11) i = i"
  by (auto simp: valid_id_def MAX_11_BIT_IDENTIFIER_def MAX_29_BIT_IDENTIFIER_def take_bit_int_eq_self_iff)

lemma accept_created:
  assumes "valid_id (arbitration_id msg) (is_extended_id msg)"
    and "valid_id (can_ident i) (is_extended i)"
  shows "(extended (create_filter_from_id i) = Some (is_extended_id msg)
       \<and> (can_id (create_filter_from_id i) XOR arbitration_id msg) AND can_mask (create_filter_from_id i) = 0)
    \<longleftrightarrow> can_ident i = arbitration_id msg \<and> is_extended i = is_extended_id msg"
  using valid_id_take_bit [OF assms(1)] valid_id_take_bit [OF assms(2)]
  by (auto simp: create_filter_from_id_def and_max take_bit_xor_0 simp del: take_bit_xor)

lemma accept_any_created:
  assumes "valid_id (arbitration_id msg) (is_extended_id msg)"
    and "\<forall>i \<in> set ids. valid_id (can_ident i) (is_extended i)"
  shows "accept_any (map create_filter_from_id ids) msg
    \<longleftrightarrow> (\<exists>i \<in> set ids. can_ident i = arbitration_id msg \<and> is_extended i = is_extended_id msg)"
  using assms(2)
proof (induction ids)
  case (Cons i ids)
  have "extended (create_filter_from_id i) \<noteq> None" by (simp add: create_filter_from_id_def)
  with Cons accept_created [OF assms(1), of i] show ?case by auto
qed simp

subsection \<open>Identifier bits\<close>

lemma bit_strip_mask: "bit (0xE0000000 :: int) n \<longleftrightarrow> n \<in> {29, 30, 31}"
proof -
  have "(0xE0000000 :: int) = push_bit 29 (mask 3)"
    by (simp add: push_bit_eq_mult mask_eq_exp_minus_1)
  then have "bit (0xE0000000 :: int) n \<longleftrightarrow> 29 \<le> n \<and> n - 29 < 3"
    by (simp only: bit_push_bit_iff bit_mask_iff possible_bit_def) simp
  then show ?thesis by auto
qed

lemma bit_stripIdentifier: "bit (stripIdentifier x) n \<longleftrightarrow> bit x n \<and> n \<notin> {29, 30, 31}"
  unfolding stripIdentifier_def bit_and_iff bit_not_iff bit_strip_mask by simp

lemma bit_CAN_EXTENDED_ID: "bit CAN_EXTENDED_ID n \<longleftrightarrow> n = 31"
proof -
  have "CAN_EXTENDED_ID = 2 ^ 31" by (simp add: CAN_EXTENDED_ID_def)
  then show ?thesis by (metis bit_exp_iff possible_bit_def UNIV_I top_greatest possible_bit)
qed

lemma is_extended_bit: "is_extended_identifier x \<longleftrightarrow> bit x 31"
  unfolding is_extended_identifier_def bit_eq_iff
  by (auto simp: bit_and_iff bit_CAN_EXTENDED_ID)

lemma high_bits_clear:
  fixes i :: int
  assumes "0 \<le> i" and "i < 2 ^ m" and "m \<le> n"
  shows "\<not> bit i n"
  using assms
  by (metis bit_take_bit_iff not_less take_bit_int_eq_self)

lemma strip_small: "0 \<le> i \<Longrightarrow> i < 2 ^ 29 \<Longrightarrow> stripIdentifier i = i"
  using high_bits_clear [where i = i and m = 29] by (intro bit_eqI) (auto simp: bit_stripIdentifier simp del: power_numeral)

lemma strip_extended: "0 \<le> i \<Longrightarrow> i < 2 ^ 29 \<Longrightarrow> stripIdentifier (i OR CAN_EXTENDED_ID) = i"
  using high_bits_clear [where i = i and m = 29]
  by (intro bit_eqI) (auto simp: bit_stripIdentifier bit_or_iff bit_CAN_EXTENDED_ID simp del: power_numeral)

lemma make_identifier_valid:
  assumes "valid_id i e"
  shows "make_identifier i e =
    Inr \<lparr>raw_id = (if e then i OR CAN_EXTENDED_ID else i), can_ident = i, is_extended = e\<rparr>"
proof -
  have i: "0 \<le> i" "i < 2 ^ 29" "\<not> e \<Longrightarrow> i < 2 ^ 11"
    using assms by (auto simp: valid_id_def MAX_11_BIT_IDENTIFIER_def MAX_29_BIT_IDENTIFIER_def split: if_splits)
  show ?thesis
  proof (cases e)
    case True
    with i show ?thesis
      by (simp add: make_identifier_def mk_Identifier_def strip_extended is_extended_bit bit_or_iff
          bit_CAN_EXTENDED_ID MAX_29_BIT_IDENTIFIER_def)
  next
    case False
    with i high_bits_clear [where i = i and m = 29 and n = 31] show ?thesis
      by (simp add: make_identifier_def mk_Identifier_def strip_small is_extended_bit
          MAX_11_BIT_IDENTIFIER_def)
  qed
qed

subsection \<open>Filters\<close>

lemma merge_filters_set: "set (merge_filters m fs) = set m \<union> set fs"
  by (induction fs arbitrary: m) auto

lemma foldl_and_bit: "bit (foldl (AND) r rs) n \<longleftrightarrow> (\<forall>x \<in> set (r # rs). bit (x :: int) n)"
  by (induction rs arbitrary: r) (auto simp: bit_and_iff)

lemma foldl_or_bit: "bit (foldl (OR) r rs) n \<longleftrightarrow> (\<exists>x \<in> set (r # rs). bit (x :: int) n)"
  by (induction rs arbitrary: r) (auto simp: bit_or_iff)

lemma bit_low_mask: "bit (0x7FF :: int) n \<longleftrightarrow> n < 11" "bit (0x1FFFFFFF :: int) n \<longleftrightarrow> n < 29"
proof -
  have "(0x7FF :: int) = mask 11" "(0x1FFFFFFF :: int) = mask 29"
    by (simp_all add: mask_eq_exp_minus_1)
  then show "bit (0x7FF :: int) n \<longleftrightarrow> n < 11" "bit (0x1FFFFFFF :: int) n \<longleftrightarrow> n < 29"
    by (simp_all only: bit_mask_iff possible_bit_def) simp_all
qed

lemma wrapper_read_connected:
  assumes "\<not> connected w" and "has_user_supplied_interface w"
    and "\<forall>i \<in> set (can_id_slave w # daq_identifier w). valid_id (can_ident i) (is_extended i)"
    and msg: "valid_id (arbitration_id msg) (is_extended_id msg)" and "msg_data msg \<noteq> []"
  shows "wrapper_read (wrapper_connect w) (Received msg) =
      Inr (if \<exists>i \<in> set (can_id_slave w # daq_identifier w).
             can_ident i = arbitration_id msg \<and> is_extended i = is_extended_id msg
           then Some \<lparr>frame_id = \<lparr>raw_id = (if is_extended_id msg then arbitration_id msg OR CAN_EXTENDED_ID
                  else arbitration_id msg), can_ident = arbitration_id msg, is_extended = is_extended_id msg\<rparr>,
                frame_dlc = dlc msg, frame_data = msg_data msg\<rparr>
           else None)
    \<and> (\<forall>fs. bus_filters w = Some fs \<longrightarrow> (\<exists>fs'. bus_filters (wrapper_connect w) = Some fs' \<and> set fs \<subseteq> set fs'))"
proof -
  have acc: "accept (software_filter (wrapper_connect w)) msg \<longleftrightarrow>
      (\<exists>i \<in> set (can_id_slave w # daq_identifier w).
         can_ident i = arbitration_id msg \<and> is_extended i = is_extended_id msg)"
    using accept_any_created [OF msg assms(3)] assms(1,2)
    by (simp add: accept_def wrapper_connect_def Let_def set_filters_def slave_filters_def del: accept_any.simps)
  have "connected (wrapper_connect w)"
    using assms(1,2) by (simp add: wrapper_connect_def Let_def)
  then have "wrapper_read (wrapper_connect w) (Received msg) =
      (if accept (software_filter (wrapper_connect w)) msg
       then rbind (make_identifier (arbitration_id msg) (is_extended_id msg)) (\<lambda>i.
          Inr (Some \<lparr>frame_id = i, frame_dlc = dlc msg, frame_data = msg_data msg\<rparr>))
       else Inr None)"
    using \<open>msg_data msg \<noteq> []\<close> by (simp add: wrapper_read_def)
  moreover have "\<exists>fs'. bus_filters (wrapper_connect w) = Some fs' \<and> set fs \<subseteq> set fs'"
    if "bus_filters w = Some fs" for fs
    using assms(1,2) that by (simp add: wrapper_connect_def Let_def merge_filters_set)
  ultimately show ?thesis
    unfolding acc make_identifier_valid [OF msg] rbind_simps by (simp split: if_split)
qed

section \<open>Properties\<close>

text \<open>
  \<open>pad_frame\<close> keeps the frame as a prefix and appends padding bytes only; the padded length is
  the frame's (or 8 on request) up to eight bytes and the least CAN-FD length that holds the
  frame above, in agreement with \<open>set_DLC\<close>; a frame of more than 64 bytes raises \<open>IndexError\<close>.
\<close>

theorem pad_frame_correct:
  assumes "0 \<le> v" and "v < 256"
  shows "if 64 < length frame then pad_frame frame pad v = Inl IndexError
    else \<exists>n. pad_frame frame pad v = Inr (frame @ replicate n (word_of_int v))
      \<and> (length frame \<le> 8 \<longrightarrow> length frame + n = (if pad then 8 else length frame))
      \<and> (8 < length frame \<longrightarrow> length frame + n \<in> set CAN_FD_DLCS
           \<and> (\<forall>d \<in> set CAN_FD_DLCS. length frame \<le> d \<longrightarrow> length frame + n \<le> d))
      \<and> (pad \<and> length frame < 8 \<or> set_DLC (int (length frame)) = Inr (int (length frame + n)))"
proof -
  let ?l = "length frame"
  consider "?l \<le> 8" | "8 < ?l" "?l \<le> 12" | "12 < ?l" "?l \<le> 16" | "16 < ?l" "?l \<le> 20"
    | "20 < ?l" "?l \<le> 24" | "24 < ?l" "?l \<le> 32" | "32 < ?l" "?l \<le> 48" | "48 < ?l" "?l \<le> 64"
    | "64 < ?l"
    by linarith
  then show ?thesis
    using assms
    by cases
      (auto simp: pad_frame_def MAX_DLC_CLASSIC_def bisect_left_def CAN_FD_DLCS_def set_DLC_def
        py_index_def intro!: exI [of _ "_ - ?l"])
qed

theorem pad_frame_correct_witness:
  "\<exists>n. pad_frame (replicate 13 7) False 0xAA = Inr (replicate 13 7 @ replicate n 0xAA)
     \<and> 13 + n \<in> set CAN_FD_DLCS"
  using pad_frame_correct [of "0xAA" "replicate 13 7" False] by auto

text \<open>
  \<open>make_identifier\<close> of a valid identifier yields exactly that identifier and kind, and building it
  again from its XCP-formatted form gives the same identifier.
\<close>

theorem identifier_roundtrip:
  assumes "valid_id i e"
  shows "\<exists>x. make_identifier i e = Inr x \<and> can_ident x = i \<and> is_extended x = e
    \<and> mk_Identifier (raw_id x) = Inr x"
  using make_identifier_valid [OF assms] by (auto simp: make_identifier_def split: if_splits)

theorem identifier_roundtrip_witness:
  "\<exists>x. make_identifier 0x123 True = Inr x \<and> can_ident x = 0x123 \<and> is_extended x"
  using identifier_roundtrip [of "0x123" True] by (auto simp: valid_id_def MAX_29_BIT_IDENTIFIER_def)

text \<open>
  After connecting to an interface supplied by the user, reading returns a non-empty message iff
  its identifier is the slave's or one of the DAQ identifiers, with that identifier and unchanged
  data; and connecting keeps every filter the user had set on the bus.
\<close>

theorem connected_wrapper_filters:
  assumes "\<not> connected w" and "has_user_supplied_interface w"
    and "\<forall>i \<in> set (can_id_slave w # daq_identifier w). valid_id (can_ident i) (is_extended i)"
    and msg: "valid_id (arbitration_id msg) (is_extended_id msg)" and "msg_data msg \<noteq> []"
  shows "wrapper_read (wrapper_connect w) (Received msg) =
      Inr (if \<exists>i \<in> set (can_id_slave w # daq_identifier w).
             can_ident i = arbitration_id msg \<and> is_extended i = is_extended_id msg
           then Some \<lparr>frame_id = \<lparr>raw_id = (if is_extended_id msg then arbitration_id msg OR CAN_EXTENDED_ID
                  else arbitration_id msg), can_ident = arbitration_id msg, is_extended = is_extended_id msg\<rparr>,
                frame_dlc = dlc msg, frame_data = msg_data msg\<rparr>
           else None)
    \<and> (\<forall>fs. bus_filters w = Some fs \<longrightarrow> (\<exists>fs'. bus_filters (wrapper_connect w) = Some fs' \<and> set fs \<subseteq> set fs'))"
  by (rule wrapper_read_connected [OF assms])

theorem connected_wrapper_filters_witness:
  "let slave = \<lparr>raw_id = 5, can_ident = 5, is_extended = False\<rparr>;
       w = \<lparr>has_user_supplied_interface = True, can_id_slave = slave, daq_identifier = [],
            bus_filters = Some [], connected = False, software_filter = new_SoftwareFilter,
            saved_filters = [], bus_open = True\<rparr>
   in wrapper_read (wrapper_connect w)
        (Received \<lparr>arbitration_id = 5, is_extended_id = False, dlc = 1, msg_data = [255]\<rparr>)
      = Inr (Some \<lparr>frame_id = slave, frame_dlc = 1, frame_data = [255]\<rparr>)"
  using connected_wrapper_filters [of "\<lparr>has_user_supplied_interface = True,
        can_id_slave = \<lparr>raw_id = 5, can_ident = 5, is_extended = False\<rparr>, daq_identifier = [],
        bus_filters = Some [], connected = False, software_filter = new_SoftwareFilter,
        saved_filters = [], bus_open = True\<rparr>"
      "\<lparr>arbitration_id = 5, is_extended_id = False, dlc = 1, msg_data = [255]\<rparr>"]
  by (simp add: valid_id_def MAX_11_BIT_IDENTIFIER_def Let_def)

text \<open>
  The filter and mask of \<open>calculate_filter\<close> let every identifier of the list pass, and the mask has
  no bit in which two of them differ; an empty list raises \<open>TypeError\<close>.
\<close>

theorem calculate_filter_accepts_all:
  assumes "ids \<noteq> []"
    and "\<forall>i \<in> set ids. 0 \<le> i \<and> i < 2 ^ 32"
    and "(\<forall>i \<in> set ids. \<not> is_extended_identifier i) \<longrightarrow> (\<forall>i \<in> set ids. stripIdentifier i < 2 ^ 11)"
  shows "\<exists>cfilter cmask. calculate_filter ids = Inr (cfilter, cmask)
    \<and> (\<forall>i \<in> set ids. (stripIdentifier i XOR cfilter) AND cmask = 0)
    \<and> (\<forall>n. bit cmask n \<longleftrightarrow> n < (if \<exists>i \<in> set ids. is_extended_identifier i then 29 else 11)
         \<and> (\<forall>i \<in> set ids. \<forall>j \<in> set ids. bit (stripIdentifier i) n = bit (stripIdentifier j) n))"
proof -
  obtain r rs where r: "map stripIdentifier ids = r # rs" using assms(1) by (cases ids) auto
  then have elems: "set (r # rs) = stripIdentifier ` set ids" by (metis set_map)
  define W :: nat where "W = (if \<exists>i \<in> set ids. is_extended_identifier i then 29 else 11)"
  define f where "f = foldl (AND) r rs"
  define m where "m = foldl (OR) r rs XOR f XOR (if list_ex is_extended_identifier ids then 0x1FFFFFFF else 0x7FF)"
  have calc: "calculate_filter ids = Inr (f, m)"
    by (simp add: calculate_filter_def r f_def m_def Let_def xor.assoc)
  have wide: "\<not> bit (stripIdentifier i) n" if "i \<in> set ids" "W \<le> n" for i n
  proof (cases "\<exists>i \<in> set ids. is_extended_identifier i")
    case True
    with that have n: "29 \<le> n" by (simp add: W_def)
    show ?thesis
    proof (cases "n < 32")
      case True
      with n have "n \<in> {29, 30, 31}" by auto
      then show ?thesis by (simp add: bit_stripIdentifier)
    next
      case False
      with that assms(2) high_bits_clear [where i = i and m = 32 and n = n] show ?thesis by (simp add: bit_stripIdentifier)
    qed
  next
    case False
    with that assms(2,3) have "stripIdentifier i < 2 ^ 11" and "0 \<le> i" by auto
    moreover from this have "0 \<le> stripIdentifier i" by (simp add: stripIdentifier_def)
    ultimately show ?thesis using False that by (intro high_bits_clear [where m = 11]) (auto simp: W_def)
  qed
  have fbit: "bit f n \<longleftrightarrow> (\<forall>i \<in> set ids. bit (stripIdentifier i) n)" for n
    using elems by (simp add: f_def foldl_and_bit)
  have "bit m n \<longleftrightarrow> n < W \<and> (\<forall>i \<in> set ids. \<forall>j \<in> set ids. bit (stripIdentifier i) n = bit (stripIdentifier j) n)" for n
  proof -
    have "bit m n \<longleftrightarrow> ((\<exists>i \<in> set ids. bit (stripIdentifier i) n) \<noteq> (\<forall>i \<in> set ids. bit (stripIdentifier i) n)) \<noteq> (n < W)"
      using elems by (auto simp: m_def bit_xor_iff fbit foldl_or_bit bit_low_mask W_def list_ex_iff)
    moreover have "\<exists>i. i \<in> set ids" using assms(1) by (cases ids) auto
    ultimately show ?thesis using wide [where n = n] by (meson not_le)
  qed
  moreover from this have "\<forall>i \<in> set ids. (stripIdentifier i XOR f) AND m = 0"
    by (intro ballI bit_eqI) (auto simp: bit_and_iff bit_xor_iff fbit)
  ultimately show ?thesis using calc unfolding W_def by blast
qed

theorem calculate_filter_accepts_all_witness:
  "\<exists>cfilter cmask. calculate_filter [0x101, 0x102] = Inr (cfilter, cmask)
     \<and> (0x101 XOR cfilter) AND cmask = 0 \<and> (0x102 XOR cfilter) AND cmask = 0"
proof -
  have s: "stripIdentifier 0x101 = 0x101" "stripIdentifier 0x102 = 0x102"
    by (simp_all add: strip_small)
  have e: "\<not> is_extended_identifier 0x101" "\<not> is_extended_identifier 0x102"
    using high_bits_clear [where i = "0x101" and m = 9 and n = 31]
      high_bits_clear [where i = "0x102" and m = 9 and n = 31]
    by (simp_all add: is_extended_bit)
  show ?thesis
    using calculate_filter_accepts_all [of "[0x101, 0x102]"] s e by auto
qed

lemma update_daq_filters_keeps:
  "saved_filters (update_daq_filters ids w) = saved_filters w
   \<and> connected (update_daq_filters ids w) = connected w
   \<and> can_id_slave (update_daq_filters ids w) = can_id_slave w
   \<and> has_user_supplied_interface (update_daq_filters ids w) = has_user_supplied_interface w"
  by (simp add: update_daq_filters_def Let_def)

lemma fold_update_daq_filters_keeps:
  "saved_filters (fold update_daq_filters idss w) = saved_filters w
   \<and> connected (fold update_daq_filters idss w) = connected w
   \<and> can_id_slave (fold update_daq_filters idss w) = can_id_slave w
   \<and> has_user_supplied_interface (fold update_daq_filters idss w) = has_user_supplied_interface w"
  by (induction idss arbitrary: w) (simp_all add: update_daq_filters_keeps)

lemma merge_filters_head: "\<exists>fs'. merge_filters (f # m) fs = f # fs'"
  by (induction fs arbitrary: m) auto

lemma fold_update_head:
  assumes "\<exists>fs. bus_filters w = Some (create_filter_from_id (can_id_slave w) # fs)"
  shows "\<exists>fs. bus_filters (fold update_daq_filters idss w) = Some (create_filter_from_id (can_id_slave w) # fs)"
  using assms
proof (induction idss arbitrary: w)
  case (Cons ids idss)
  have "\<exists>fs. bus_filters (update_daq_filters ids w) = Some (create_filter_from_id (can_id_slave w) # fs)"
    using Cons.prems by (auto simp: update_daq_filters_def Let_def slave_filters_def merge_filters_head)
  with Cons.IH [of "update_daq_filters ids w"] show ?case by (simp add: update_daq_filters_keeps)
qed simp

text \<open>
  Connecting, any number of DAQ filter updates and closing gives a bus supplied by the user its
  filters back if it had any; a bus that had none, which received every frame, is left with the
  slave's filter first.
\<close>

theorem user_filters_after_close:
  assumes "\<not> connected w" and "has_user_supplied_interface w"
  shows "case bus_filters w of
      Some (f # fs) \<Rightarrow> bus_filters (wrapper_close (fold update_daq_filters idss (wrapper_connect w))) = Some (f # fs)
    | _ \<Rightarrow> \<exists>fs'. bus_filters (wrapper_close (fold update_daq_filters idss (wrapper_connect w)))
          = Some (create_filter_from_id (can_id_slave w) # fs')"
proof -
  let ?c = "wrapper_connect w"
  have saved: "saved_filters ?c = (case bus_filters w of None \<Rightarrow> [] | Some fs \<Rightarrow> fs)"
    and keep: "can_id_slave ?c = can_id_slave w" "has_user_supplied_interface ?c" "connected ?c"
    using assms by (simp_all add: wrapper_connect_def Let_def)
  have "\<exists>fs. bus_filters ?c = Some (create_filter_from_id (can_id_slave ?c) # fs)"
    using assms by (auto simp: wrapper_connect_def Let_def slave_filters_def merge_filters_head)
  from fold_update_head [OF this, of idss] saved keep show ?thesis
    by (auto simp: wrapper_close_def Let_def fold_update_daq_filters_keeps split: option.splits list.splits)
qed

theorem user_filters_after_close_witness:
  "let slave = \<lparr>raw_id = 5, can_ident = 5, is_extended = False\<rparr>;
       w = \<lparr>has_user_supplied_interface = True, can_id_slave = slave, daq_identifier = [],
            bus_filters = None, connected = False, software_filter = new_SoftwareFilter,
            saved_filters = [], bus_open = True\<rparr>
   in \<exists>fs'. bus_filters (wrapper_close (wrapper_connect w)) = Some (create_filter_from_id slave # fs')"
  using user_filters_after_close [of "\<lparr>has_user_supplied_interface = True,
        can_id_slave = \<lparr>raw_id = 5, can_ident = 5, is_extended = False\<rparr>, daq_identifier = [],
        bus_filters = None, connected = False, software_filter = new_SoftwareFilter,
        saved_filters = [], bus_open = True\<rparr>" "[]"]
  by (simp add: Let_def)

text \<open>
  On a bus opened by the wrapper itself \<open>update_daq_filters\<close> leaves the filters the bus was opened
  with, those of the slave and of the DAQ identifiers configured before, although the software
  filter now lets the new identifiers pass.
\<close>

theorem own_bus_filters_not_widened:
  assumes "\<not> connected w" and "\<not> has_user_supplied_interface w"
    and "\<forall>i \<in> set (can_id_slave w # ids). valid_id (can_ident i) (is_extended i)"
    and "valid_id (arbitration_id msg) (is_extended_id msg)"
    and "ids \<noteq> []"
  shows "bus_filters (update_daq_filters ids (wrapper_connect w)) = Some (slave_filters w (daq_identifier w))
    \<and> (accept (software_filter (update_daq_filters ids (wrapper_connect w))) msg \<longleftrightarrow>
        (\<exists>i \<in> set (can_id_slave w # ids).
           can_ident i = arbitration_id msg \<and> is_extended i = is_extended_id msg))"
  using accept_any_created [OF assms(4) assms(3)] assms(1,2,5)
  by (simp add: wrapper_connect_def update_daq_filters_def Let_def accept_def set_filters_def
      slave_filters_def del: accept_any.simps)

theorem own_bus_filters_not_widened_witness:
  "let slave = \<lparr>raw_id = 5, can_ident = 5, is_extended = False\<rparr>;
       w = \<lparr>has_user_supplied_interface = False, can_id_slave = slave, daq_identifier = [],
            bus_filters = None, connected = False, software_filter = new_SoftwareFilter,
            saved_filters = [], bus_open = False\<rparr>
   in bus_filters (update_daq_filters [\<lparr>raw_id = 6, can_ident = 6, is_extended = False\<rparr>] (wrapper_connect w))
      = Some [create_filter_from_id slave]"
  using own_bus_filters_not_widened [of "\<lparr>has_user_supplied_interface = False,
        can_id_slave = \<lparr>raw_id = 5, can_ident = 5, is_extended = False\<rparr>, daq_identifier = [],
        bus_filters = None, connected = False, software_filter = new_SoftwareFilter,
        saved_filters = [], bus_open = False\<rparr>" "[\<lparr>raw_id = 6, can_ident = 6, is_extended = False\<rparr>]"
      "\<lparr>arbitration_id = 5, is_extended_id = False, dlc = 1, msg_data = [255]\<rparr>"]
  by (simp add: valid_id_def MAX_11_BIT_IDENTIFIER_def Let_def slave_filters_def)

subsection \<open>The listener\<close>

lemma map_of_enumeration_last:
  "k < length ids \<Longrightarrow> ids ! k = x \<Longrightarrow> \<forall>j. k < j \<and> j < length ids \<longrightarrow> ids ! j \<noteq> x \<Longrightarrow>
   map_of (rev (zip ids (map g [0..<length ids]))) x = Some (g k)"
proof (induction ids rule: rev_induct)
  case (snoc y ids)
  have z: "zip (ids @ [y]) (map g [0..<length (ids @ [y])]) = zip ids (map g [0..<length ids]) @ [(y, g (length ids))]"
    by simp
  show ?case
  proof (cases "k = length ids")
    case True
    with snoc.prems(2) show ?thesis unfolding z by simp
  next
    case False
    with snoc.prems(1) have k: "k < length ids" by simp
    moreover have "ids ! k = x" using snoc.prems(2) k by (simp add: nth_append)
    moreover have "\<forall>j. k < j \<and> j < length ids \<longrightarrow> ids ! j \<noteq> x"
      using snoc.prems(3) by (metis length_append_singleton less_SucI nth_append)
    moreover have "y \<noteq> x"
      using snoc.prems(3) k by (metis length_append_singleton lessI nth_append_length)
    ultimately show ?thesis unfolding z using snoc.IH by simp
  qed
qed simp

lemma map_of_enumeration_none:
  "x \<notin> set ids \<Longrightarrow> map_of (rev (zip ids (map g [0..<length ids]))) x = None"
  unfolding map_of_eq_None_iff by (auto dest: set_zip_leftD)

text \<open>
  A non-empty message that passes the software filter is handed on with the number of the last
  configured DAQ identifier equal to its XCP-formatted identifier in front, and unchanged if there
  is none: whether PID_OFF was asked for plays no role, and an identifier configured with a bit
  other than the extended flag above its 29 bits is never recognised.
\<close>

theorem listen_translates_pid:
  assumes "can_id_pid_map ids = Inr m" and "connected w" and "accept (software_filter w) msg"
    and "valid_id (arbitration_id msg) (is_extended_id msg)" and "msg_data msg \<noteq> []"
    and "raw = (if is_extended_id msg then arbitration_id msg OR CAN_EXTENDED_ID else arbitration_id msg)"
  shows "(raw \<notin> set ids \<longrightarrow> listen_step w m (Received msg) = Some (msg_data msg))
    \<and> (\<forall>k < length ids. ids ! k = raw \<and> (\<forall>j. k < j \<and> j < length ids \<longrightarrow> ids ! j \<noteq> raw)
         \<longrightarrow> listen_step w m (Received msg) = Some (word_of_nat k # msg_data msg))
    \<and> (\<forall>x \<in> set ids. bit x 29 \<or> bit x 30 \<longrightarrow> x \<noteq> raw)"
proof -
  have m: "m = rev (zip ids (map (\<lambda>k. [word_of_nat k]) [0..<length ids]))"
    using assms(1) by (simp add: can_id_pid_map_def split: if_splits)
  have read: "wrapper_read w (Received msg) = Inr (Some \<lparr>frame_id =
      \<lparr>raw_id = raw, can_ident = arbitration_id msg, is_extended = is_extended_id msg\<rparr>,
      frame_dlc = dlc msg, frame_data = msg_data msg\<rparr>)"
    using assms(2-6) make_identifier_valid [OF assms(4)] by (simp add: wrapper_read_def)
  have small: "0 \<le> arbitration_id msg" "arbitration_id msg < 2 ^ 29"
    using assms(4) by (auto simp: valid_id_def MAX_11_BIT_IDENTIFIER_def MAX_29_BIT_IDENTIFIER_def split: if_splits)
  have "\<not> bit raw 29 \<and> \<not> bit raw 30"
    using high_bits_clear [OF small, of 29] high_bits_clear [OF small, of 30] assms(6)
    by (auto simp: bit_or_iff bit_CAN_EXTENDED_ID)
  moreover have "map_of m raw = None" if "raw \<notin> set ids"
    using that by (simp add: m map_of_enumeration_none)
  moreover have "map_of m raw = Some [word_of_nat k]"
    if "k < length ids" "ids ! k = raw" "\<forall>j. k < j \<and> j < length ids \<longrightarrow> ids ! j \<noteq> raw" for k
    using map_of_enumeration_last [OF that] by (simp add: m)
  ultimately show ?thesis
    by (auto simp: listen_step_def read)
qed

theorem listen_translates_pid_witness:
  "let w = \<lparr>has_user_supplied_interface = True,
            can_id_slave = \<lparr>raw_id = 5, can_ident = 5, is_extended = False\<rparr>, daq_identifier = [],
            bus_filters = None, connected = True, software_filter = accept_all new_SoftwareFilter,
            saved_filters = [], bus_open = True\<rparr>;
       msg = \<lparr>arbitration_id = 7, is_extended_id = False, dlc = 1, msg_data = [255]\<rparr>
   in listen_step w [(7, [1]), (6, [0])] (Received msg) = Some [1, 255]"
  using listen_translates_pid [of "[6, 7]" "[(7, [1]), (6, [0])]"
      "\<lparr>has_user_supplied_interface = True,
            can_id_slave = \<lparr>raw_id = 5, can_ident = 5, is_extended = False\<rparr>, daq_identifier = [],
            bus_filters = None, connected = True, software_filter = accept_all new_SoftwareFilter,
            saved_filters = [], bus_open = True\<rparr>"
      "\<lparr>arbitration_id = 7, is_extended_id = False, dlc = 1, msg_data = [255]\<rparr>" 7]
  by (auto simp: can_id_pid_map_def valid_id_def MAX_11_BIT_IDENTIFIER_def Let_def accept_def
      accept_all_def numeral_2_eq_2 less_Suc_eq)

end
