(* ===== verification/Time_Correlation.thy ===== *)
theory Time_Correlation
  imports Events
begin

unbundle bit_operations_syntax

text \<open>
  \<open>pyxcp/time_correlation.py\<close>: the bytes of TIME_CORRELATION_PROPERTIES and its response, the clock
  information blocks and the response of GET_DAQ_CLOCK. The byte order is the one the slave reported, of
  which only the letter for \<open>struct\<close> matters here. The texts for display are left out.
\<close>

section \<open>Model\<close>

subsection \<open>Enumerations\<close>

text \<open>\<open>E(v)\<close> for an \<open>IntEnum\<close> \<open>E\<close>: a value without a member raises \<open>ValueError\<close>.\<close>

definition enum_of :: "(int \<times> 'a) list \<Rightarrow> int \<Rightarrow> 'a result" where
  "enum_of members v = (case map_of members v of None \<Rightarrow> Inl ValueError | Some x \<Rightarrow> Inr x)"

datatype ResponseFormat = RF_LEGACY | TRIGGER_2_3_ONLY | ALL_TRIGGERS | RF_RESERVED

definition ResponseFormat_members :: "(int \<times> ResponseFormat) list" where
  "ResponseFormat_members = [(0, RF_LEGACY), (1, TRIGGER_2_3_ONLY), (2, ALL_TRIGGERS), (3, RF_RESERVED)]"

datatype TimeSyncBridge = BRIDGE_NOT_AVAILABLE | AVAILABLE_DISABLED | AVAILABLE_ENABLED | BRIDGE_RESERVED

definition TimeSyncBridge_members :: "(int \<times> TimeSyncBridge) list" where
  "TimeSyncBridge_members =
     [(0, BRIDGE_NOT_AVAILABLE), (1, AVAILABLE_DISABLED), (2, AVAILABLE_ENABLED), (3, BRIDGE_RESERVED)]"

datatype DaqTimestampRelation = XCP_SLAVE_CLOCK | ECU_CLOCK

definition DaqTimestampRelation_members :: "(int \<times> DaqTimestampRelation) list" where
  "DaqTimestampRelation_members = [(0, XCP_SLAVE_CLOCK), (1, ECU_CLOCK)]"

datatype ClockAvailabilitySLV = XCP_FREE_RUNNING | XCP_SYNC_CAPABLE | XCP_NOT_AVAILABLE | XCP_RESERVED

definition ClockAvailabilitySLV_members :: "(int \<times> ClockAvailabilitySLV) list" where
  "ClockAvailabilitySLV_members =
     [(0, XCP_FREE_RUNNING), (1, XCP_SYNC_CAPABLE), (2, XCP_NOT_AVAILABLE), (3, XCP_RESERVED)]"

datatype ClockAvailabilityGM = GRANDM_NOT_AVAILABLE | GRANDM_CAN_READ | GRANDM_AUTONOMOUS_EVENTS | GRANDM_RESERVED

definition ClockAvailabilityGM_members :: "(int \<times> ClockAvailabilityGM) list" where
  "ClockAvailabilityGM_members =
     [(0, GRANDM_NOT_AVAILABLE), (1, GRANDM_CAN_READ), (2, GRANDM_AUTONOMOUS_EVENTS), (3, GRANDM_RESERVED)]"

datatype ClockAvailabilityECU = ECU_NOT_AVAILABLE | ECU_CAN_READ | ECU_AUTONOMOUS_EVENTS | ECU_CANNOT_READ

definition ClockAvailabilityECU_members :: "(int \<times> ClockAvailabilityECU) list" where
  "ClockAvailabilityECU_members =
     [(0, ECU_NOT_AVAILABLE), (1, ECU_CAN_READ), (2, ECU_AUTONOMOUS_EVENTS), (3, ECU_CANNOT_READ)]"

datatype SlavClockSyncState = SYNCHRONIZING | SLV_SYNCHRONIZED | SYNTONIZING | SYNTONIZED | SYNC_NOT_SUPPORTED

definition SlavClockSyncState_members :: "(int \<times> SlavClockSyncState) list" where
  "SlavClockSyncState_members =
     [(0, SYNCHRONIZING), (1, SLV_SYNCHRONIZED), (2, SYNTONIZING), (3, SYNTONIZED), (7, SYNC_NOT_SUPPORTED)]"

datatype GrandmClockSyncState = GM_NOT_SYNCHRONIZED | GM_SYNCHRONIZED

definition GrandmClockSyncState_members :: "(int \<times> GrandmClockSyncState) list" where
  "GrandmClockSyncState_members = [(0, GM_NOT_SYNCHRONIZED), (1, GM_SYNCHRONIZED)]"

datatype EcuClockSyncState = ECU_NOT_SYNCHRONIZED | ECU_SYNCHRONIZED | ECU_SYNC_UNKNOWN | ECU_SYNC_RESERVED

definition EcuClockSyncState_members :: "(int \<times> EcuClockSyncState) list" where
  "EcuClockSyncState_members =
     [(0, ECU_NOT_SYNCHRONIZED), (1, ECU_SYNCHRONIZED), (2, ECU_SYNC_UNKNOWN), (3, ECU_SYNC_RESERVED)]"

datatype TimestampUnit =
    UNIT_1NS | UNIT_10NS | UNIT_100NS | UNIT_1US | UNIT_10US | UNIT_100US | UNIT_1MS | UNIT_10MS
  | UNIT_100MS | UNIT_1S | UNIT_1PS | UNIT_10PS | UNIT_100PS

definition TimestampUnit_members :: "(int \<times> TimestampUnit) list" where
  "TimestampUnit_members =
     [(0, UNIT_1NS), (1, UNIT_10NS), (2, UNIT_100NS), (3, UNIT_1US), (4, UNIT_10US), (5, UNIT_100US),
      (6, UNIT_1MS), (7, UNIT_10MS), (8, UNIT_100MS), (9, UNIT_1S), (10, UNIT_1PS), (11, UNIT_10PS),
      (12, UNIT_100PS)]"

datatype Epoch = TAI | UTC | ARBITRARY

definition Epoch_members :: "(int \<times> Epoch) list" where
  "Epoch_members = [(0, TAI), (1, UTC), (2, ARBITRARY)]"

datatype NativeTimestampSize = NATIVE_DWORD | NATIVE_DLONG

definition NativeTimestampSize_members :: "(int \<times> NativeTimestampSize) list" where
  "NativeTimestampSize_members = [(4, NATIVE_DWORD), (8, NATIVE_DLONG)]"

subsection \<open>Bit fields\<close>

definition SetProperties_encode :: "int \<Rightarrow> int \<Rightarrow> bool \<Rightarrow> int" where
  "SetProperties_encode response_fmt time_sync_bridge set_cluster_id =
     (response_fmt AND 0x03) OR push_bit 2 (time_sync_bridge AND 0x03)
     OR push_bit 4 (if set_cluster_id then 1 else 0)"

definition GetPropertiesRequest_encode :: "bool \<Rightarrow> int" where
  "GetPropertiesRequest_encode get_clk_info = (if get_clk_info then 1 else 0)"

record SlaveConfig =
  response_fmt :: ResponseFormat
  daq_ts_relation :: DaqTimestampRelation
  time_sync_bridge :: TimeSyncBridge

definition SlaveConfig_parse :: "int \<Rightarrow> SlaveConfig result" where
  "SlaveConfig_parse v =
     rbind (enum_of ResponseFormat_members (v AND 0x03)) (\<lambda>f.
     rbind (enum_of DaqTimestampRelation_members (drop_bit 2 v AND 0x01)) (\<lambda>r.
     rbind (enum_of TimeSyncBridge_members (drop_bit 3 v AND 0x03)) (\<lambda>b.
     Inr \<lparr>response_fmt = f, daq_ts_relation = r, time_sync_bridge = b\<rparr>)))"

record ObservableClocks =
  xcp_slv_clk :: ClockAvailabilitySLV
  grandm_clk :: ClockAvailabilityGM
  ecu_clk :: ClockAvailabilityECU

definition ObservableClocks_parse :: "int \<Rightarrow> ObservableClocks result" where
  "ObservableClocks_parse v =
     rbind (enum_of ClockAvailabilitySLV_members (v AND 0x03)) (\<lambda>x.
     rbind (enum_of ClockAvailabilityGM_members (drop_bit 2 v AND 0x03)) (\<lambda>g.
     rbind (enum_of ClockAvailabilityECU_members (drop_bit 4 v AND 0x03)) (\<lambda>e.
     Inr \<lparr>xcp_slv_clk = x, grandm_clk = g, ecu_clk = e\<rparr>)))"

record SyncState =
  slv_clk_sync_state :: SlavClockSyncState
  grandm_clk_sync_state :: GrandmClockSyncState
  ecu_clk_sync_state :: EcuClockSyncState

definition SyncState_parse :: "int \<Rightarrow> SyncState result" where
  "SyncState_parse v =
     rbind (enum_of SlavClockSyncState_members (v AND 0x07)) (\<lambda>s.
     rbind (enum_of GrandmClockSyncState_members (drop_bit 3 v AND 0x01)) (\<lambda>g.
     rbind (enum_of EcuClockSyncState_members (drop_bit 4 v AND 0x03)) (\<lambda>e.
     Inr \<lparr>slv_clk_sync_state = s, grandm_clk_sync_state = g, ecu_clk_sync_state = e\<rparr>)))"

record ClockInfo =
  slv_clk_info :: bool
  grandm_clk_info :: bool
  clk_relation :: bool
  ecu_clk_info :: bool
  ecu_grandm_clk_info :: bool

definition ClockInfo_parse :: "int \<Rightarrow> ClockInfo" where
  "ClockInfo_parse v =
     \<lparr>slv_clk_info = (v AND 0x01 \<noteq> 0), grandm_clk_info = (v AND 0x02 \<noteq> 0), clk_relation = (v AND 0x04 \<noteq> 0),
      ecu_clk_info = (v AND 0x08 \<noteq> 0), ecu_grandm_clk_info = (v AND 0x10 \<noteq> 0)\<rparr>"

subsection \<open>Responses and clock information\<close>

record TimeCorrelationPropertiesResponse =
  slave_config :: SlaveConfig
  observable_clocks :: ObservableClocks
  tcp_sync_state :: SyncState
  clock_info :: ClockInfo
  tcp_cluster_id :: int

definition TimeCorrelationPropertiesResponse_parse ::
  "bytes \<Rightarrow> byteorder \<Rightarrow> TimeCorrelationPropertiesResponse result" where
  "TimeCorrelationPropertiesResponse_parse response order =
     (if length response < 7 then Inl ValueError
      else
        rbind (SlaveConfig_parse (uint (response ! 0))) (\<lambda>c.
        rbind (ObservableClocks_parse (uint (response ! 1))) (\<lambda>clks.
        rbind (SyncState_parse (uint (response ! 2))) (\<lambda>s.
        rbind (struct_unpack order 2 (take 2 (drop 5 response))) (\<lambda>cluster.
        Inr \<lparr>slave_config = c, observable_clocks = clks, tcp_sync_state = s,
             clock_info = ClockInfo_parse (uint (response ! 3)), tcp_cluster_id = cluster\<rparr>)))))"

record ClockInformation =
  clk_uuid :: bytes
  timestamp_ticks :: int
  timestamp_unit :: TimestampUnit
  stratum_level :: int
  native_timestamp_size :: NativeTimestampSize
  epoch :: "Epoch option"
  max_timestamp_before_wrap :: int

definition ClockInformation_parse :: "bytes \<Rightarrow> byteorder \<Rightarrow> bool \<Rightarrow> ClockInformation result" where
  "ClockInformation_parse data order has_epoch =
     (if length data < 24 then Inl ValueError
      else
        rbind (struct_unpack order 2 (take 2 (drop 8 data))) (\<lambda>ticks.
        rbind (enum_of TimestampUnit_members (uint (data ! 10))) (\<lambda>unit.
        rbind (enum_of NativeTimestampSize_members (uint (data ! 12))) (\<lambda>native.
        rbind (if has_epoch then rbind (enum_of Epoch_members (uint (data ! 13))) (\<lambda>e. Inr (Some e)) else Inr None) (\<lambda>ep.
        rbind (struct_unpack order 8 (take 8 (drop 16 data))) (\<lambda>wrap.
        Inr \<lparr>clk_uuid = take 8 data, timestamp_ticks = ticks, timestamp_unit = unit,
             stratum_level = uint (data ! 11), native_timestamp_size = native, epoch = ep,
             max_timestamp_before_wrap = wrap\<rparr>))))))"

record ClockRelation =
  origin_in_grandmaster_domain :: int
  xcp_slave_relation_timestamp :: int

definition ClockRelation_parse :: "bytes \<Rightarrow> byteorder \<Rightarrow> ClockRelation result" where
  "ClockRelation_parse data order =
     (if length data < 16 then Inl ValueError
      else
        rbind (struct_unpack order 8 (take 8 data)) (\<lambda>origin.
        rbind (struct_unpack order 8 (take 8 (drop 8 data))) (\<lambda>ts.
        Inr \<lparr>origin_in_grandmaster_domain = origin, xcp_slave_relation_timestamp = ts\<rparr>)))"

definition EcuGrandmasterClockInfo_parse :: "bytes \<Rightarrow> bytes result" where
  "EcuGrandmasterClockInfo_parse data = (if length data < 8 then Inl ValueError else Inr (take 8 data))"

text \<open>\<open>uuid_string\<close>: two upper-case hexadecimal digits per byte, separated by colons.\<close>

definition hex_digit :: "nat \<Rightarrow> char" where
  "hex_digit d = (if d < 10 then char_of (48 + d) else char_of (55 + d))"

fun uuid_string :: "bytes \<Rightarrow> string" where
  "uuid_string [] = []"
| "uuid_string [b] = [hex_digit (unat b div 16), hex_digit (unat b mod 16)]"
| "uuid_string (b # bs) = hex_digit (unat b div 16) # hex_digit (unat b mod 16) # CHR '':'' # uuid_string bs"

text \<open>\<open>GetDaqClockResponse\<close>\<close>

record GetDaqClockResponse =
  extended_format :: bool
  clock_trigger_info :: TriggerInfo
  clock_payload_fmt :: PayloadFormat
  clock_timestamp :: int
  timestamp_grandm :: "int option"
  timestamp_ecu :: "int option"
  clock_sync_state :: "SyncState option"

definition clock_length :: "ClockFormat \<Rightarrow> nat" where
  "clock_length fmt = (if fmt = DLONG then 8 else 4)"

text \<open>The time stamp of an observable clock, if the payload has it, and the offset behind it.\<close>

definition optional_clock :: "byteorder \<Rightarrow> bytes \<Rightarrow> bool \<Rightarrow> ClockFormat \<Rightarrow> nat \<Rightarrow> (int option \<times> nat) result" where
  "optional_clock order response observable fmt offset =
     (if observable \<and> fmt \<noteq> NOT_PRESENT \<and> fmt \<noteq> CF_RESERVED then
        rbind (struct_unpack order (clock_length fmt) (take (clock_length fmt) (drop offset response)))
          (\<lambda>v. Inr (Some v, offset + clock_length fmt))
      else Inr (None, offset))"

definition extended_clock :: "TimeCorrelationPropertiesResponse option \<Rightarrow> bool" where
  "extended_clock props =
     (case props of None \<Rightarrow> False | Some p \<Rightarrow> response_fmt (slave_config p) \<noteq> RF_LEGACY)"

definition GetDaqClockResponse_parse ::
  "bytes \<Rightarrow> byteorder \<Rightarrow> TimeCorrelationPropertiesResponse option \<Rightarrow> GetDaqClockResponse result" where
  "GetDaqClockResponse_parse response order props =
     rbind (py_index IndexError response 1) (\<lambda>t.
     rbind (TriggerInfo_parse (uint t)) (\<lambda>ti.
     rbind (py_index IndexError response 2) (\<lambda>f.
     rbind (PayloadFormat_parse (uint f)) (\<lambda>pf.
     case (if extended_clock props then props else None) of
       None \<Rightarrow>
         rbind (struct_unpack order 4 (take 4 (drop 3 response))) (\<lambda>ts.
         Inr \<lparr>extended_format = False, clock_trigger_info = ti, clock_payload_fmt = pf, clock_timestamp = ts,
              timestamp_grandm = None, timestamp_ecu = None, clock_sync_state = None\<rparr>)
     | Some p \<Rightarrow>
         let len = clock_length (xcp_slave_fmt pf);
             clk_gm = (grandm_clk (observable_clocks p) \<noteq> GRANDM_NOT_AVAILABLE);
             clk_ecu = (ecu_clk (observable_clocks p) \<noteq> ECU_NOT_AVAILABLE)
         in rbind (struct_unpack order len (take len (drop 3 response))) (\<lambda>ts.
            rbind (optional_clock order response clk_gm (grandmaster_fmt pf) (3 + len)) (\<lambda>(g, o1).
            rbind (optional_clock order response clk_ecu (ecu_fmt pf) o1) (\<lambda>(e, o2).
            rbind (if length response = o2 + 1 then rbind (SyncState_parse (uint (response ! o2))) (\<lambda>s. Inr (Some s))
                   else Inr None) (\<lambda>s.
            Inr \<lparr>extended_format = True, clock_trigger_info = ti, clock_payload_fmt = pf, clock_timestamp = ts,
                 timestamp_grandm = g, timestamp_ecu = e, clock_sync_state = s\<rparr>))))))))"

section \<open>Lemmas\<close>

text \<open>The value of a member, and the bytes as the slave writes them.\<close>

definition member_value :: "(int \<times> 'a) list \<Rightarrow> 'a \<Rightarrow> int" where
  "member_value members x = the (map_of (map (\<lambda>(v, y). (y, v)) members) x)"

lemmas members_defs = ResponseFormat_members_def TimeSyncBridge_members_def DaqTimestampRelation_members_def
  ClockAvailabilitySLV_members_def ClockAvailabilityGM_members_def ClockAvailabilityECU_members_def
  SlavClockSyncState_members_def GrandmClockSyncState_members_def EcuClockSyncState_members_def

definition slave_config_byte :: "SlaveConfig \<Rightarrow> int" where
  "slave_config_byte c = member_value ResponseFormat_members (response_fmt c)
     + 4 * member_value DaqTimestampRelation_members (daq_ts_relation c)
     + 8 * member_value TimeSyncBridge_members (time_sync_bridge c)"

definition observable_clocks_byte :: "ObservableClocks \<Rightarrow> int" where
  "observable_clocks_byte c = member_value ClockAvailabilitySLV_members (xcp_slv_clk c)
     + 4 * member_value ClockAvailabilityGM_members (grandm_clk c)
     + 16 * member_value ClockAvailabilityECU_members (ecu_clk c)"

definition sync_state_byte :: "SyncState \<Rightarrow> int" where
  "sync_state_byte s = member_value SlavClockSyncState_members (slv_clk_sync_state s)
     + 8 * member_value GrandmClockSyncState_members (grandm_clk_sync_state s)
     + 16 * member_value EcuClockSyncState_members (ecu_clk_sync_state s)"

definition clock_info_byte :: "ClockInfo \<Rightarrow> int" where
  "clock_info_byte c = of_bool (slv_clk_info c) + 2 * of_bool (grandm_clk_info c) + 4 * of_bool (clk_relation c)
     + 8 * of_bool (ecu_clk_info c) + 16 * of_bool (ecu_grandm_clk_info c)"

lemma slave_config_roundtrip:
  "SlaveConfig_parse (slave_config_byte c) = Inr c" "0 \<le> slave_config_byte c \<and> slave_config_byte c < 256"
proof -
  obtain f r b where c: "c = \<lparr>response_fmt = f, daq_ts_relation = r, time_sync_bridge = b\<rparr>" by (cases c)
  show "SlaveConfig_parse (slave_config_byte c) = Inr c" "0 \<le> slave_config_byte c \<and> slave_config_byte c < 256"
    unfolding c by (cases f; cases r; cases b;
      simp add: SlaveConfig_parse_def slave_config_byte_def member_value_def enum_of_def members_defs)+
qed

lemma observable_clocks_roundtrip:
  "ObservableClocks_parse (observable_clocks_byte c) = Inr c"
  "0 \<le> observable_clocks_byte c \<and> observable_clocks_byte c < 256"
proof -
  obtain x g e where c: "c = \<lparr>xcp_slv_clk = x, grandm_clk = g, ecu_clk = e\<rparr>" by (cases c)
  show "ObservableClocks_parse (observable_clocks_byte c) = Inr c"
    "0 \<le> observable_clocks_byte c \<and> observable_clocks_byte c < 256"
    unfolding c by (cases x; cases g; cases e;
      simp add: ObservableClocks_parse_def observable_clocks_byte_def member_value_def enum_of_def members_defs)+
qed

lemma sync_state_roundtrip:
  "SyncState_parse (sync_state_byte s) = Inr s" "0 \<le> sync_state_byte s \<and> sync_state_byte s < 256"
proof -
  obtain x g e where s: "s = \<lparr>slv_clk_sync_state = x, grandm_clk_sync_state = g, ecu_clk_sync_state = e\<rparr>" by (cases s)
  show "SyncState_parse (sync_state_byte s) = Inr s" "0 \<le> sync_state_byte s \<and> sync_state_byte s < 256"
    unfolding s by (cases x; cases g; cases e;
      simp add: SyncState_parse_def sync_state_byte_def member_value_def enum_of_def members_defs)+
qed

lemma clock_info_roundtrip:
  "ClockInfo_parse (clock_info_byte c) = c" "0 \<le> clock_info_byte c \<and> clock_info_byte c < 256"
proof -
  obtain a b d e f where c: "c = \<lparr>slv_clk_info = a, grandm_clk_info = b, clk_relation = d, ecu_clk_info = e, ecu_grandm_clk_info = f\<rparr>"
    by (cases c)
  show "ClockInfo_parse (clock_info_byte c) = c" "0 \<le> clock_info_byte c \<and> clock_info_byte c < 256"
    unfolding c by (cases a; cases b; cases d; cases e; cases f; simp add: ClockInfo_parse_def clock_info_byte_def)+
qed

lemma uint_byte: "0 \<le> v \<and> v < 256 \<Longrightarrow> uint (word_of_int v :: byte) = v"
  by (simp add: uint_word_of_int take_bit_eq_mod)

definition encode_properties :: "byteorder \<Rightarrow> TimeCorrelationPropertiesResponse \<Rightarrow> bytes result" where
  "encode_properties order p = rbind (struct_pack order 2 (tcp_cluster_id p)) (\<lambda>c. Inr
     ([word_of_int (slave_config_byte (slave_config p)), word_of_int (observable_clocks_byte (observable_clocks p)),
       word_of_int (sync_state_byte (tcp_sync_state p)), word_of_int (clock_info_byte (clock_info p)), 0] @ c))"

lemma enum_of_total:
  "0 \<le> v \<Longrightarrow> v < 4 \<Longrightarrow> \<exists>x. enum_of ResponseFormat_members v = Inr x"
  "0 \<le> v \<Longrightarrow> v < 4 \<Longrightarrow> \<exists>x. enum_of TimeSyncBridge_members v = Inr x"
  "0 \<le> v \<Longrightarrow> v < 2 \<Longrightarrow> \<exists>x. enum_of DaqTimestampRelation_members v = Inr x"
  "0 \<le> v \<Longrightarrow> v < 4 \<Longrightarrow> \<exists>x. enum_of ClockAvailabilitySLV_members v = Inr x"
  "0 \<le> v \<Longrightarrow> v < 4 \<Longrightarrow> \<exists>x. enum_of ClockAvailabilityGM_members v = Inr x"
  "0 \<le> v \<Longrightarrow> v < 4 \<Longrightarrow> \<exists>x. enum_of ClockAvailabilityECU_members v = Inr x"
  "0 \<le> v \<Longrightarrow> v < 2 \<Longrightarrow> \<exists>x. enum_of GrandmClockSyncState_members v = Inr x"
  "0 \<le> v \<Longrightarrow> v < 4 \<Longrightarrow> \<exists>x. enum_of EcuClockSyncState_members v = Inr x"
  "0 \<le> v \<Longrightarrow> v < 8 \<Longrightarrow> (\<exists>x. enum_of SlavClockSyncState_members v = Inr x) = (v \<notin> {4, 5, 6})"
  by (auto simp: enum_of_def members_defs)

lemma enum_of_error: "enum_of members v = Inl e \<Longrightarrow> e = ValueError"
  by (auto simp: enum_of_def split: option.splits)

lemma SlaveConfig_parse_total: "\<exists>c. SlaveConfig_parse v = Inr c"
proof -
  have "(v AND 0x01) = v mod 2" by (rule and_one_eq)
  then show ?thesis
    using enum_of_total(1) [of "v mod 4"] enum_of_total(3) [of "drop_bit 2 v mod 2"] enum_of_total(2) [of "drop_bit 3 v mod 4"]
    by (auto simp: SlaveConfig_parse_def low_bits and_one_eq)
qed

lemma ObservableClocks_parse_total: "\<exists>c. ObservableClocks_parse v = Inr c"
  using enum_of_total(4) [of "v mod 4"] enum_of_total(5) [of "drop_bit 2 v mod 4"] enum_of_total(6) [of "drop_bit 4 v mod 4"]
  by (auto simp: ObservableClocks_parse_def low_bits)

lemma SyncState_parse_total:
  "(\<exists>s. SyncState_parse v = Inr s) = (v mod 8 \<notin> {4, 5, 6})" "SyncState_parse v = Inl e \<Longrightarrow> e = ValueError"
proof -
  obtain g where g: "enum_of GrandmClockSyncState_members (drop_bit 3 v mod 2) = Inr g"
    using enum_of_total(7) [of "drop_bit 3 v mod 2"] by auto
  obtain x where x: "enum_of EcuClockSyncState_members (drop_bit 4 v mod 4) = Inr x"
    using enum_of_total(8) [of "drop_bit 4 v mod 4"] by auto
  have "(\<exists>y. enum_of SlavClockSyncState_members (v mod 8) = Inr y) = (v mod 8 \<notin> {4, 5, 6})"
    by (rule enum_of_total(9)) simp_all
  then show "(\<exists>s. SyncState_parse v = Inr s) = (v mod 8 \<notin> {4, 5, 6})"
    by (auto simp: SyncState_parse_def low_bits and_one_eq g x rbind_Inr_iff)
  show "SyncState_parse v = Inl e \<Longrightarrow> e = ValueError"
    by (auto simp: SyncState_parse_def low_bits and_one_eq g x rbind_Inl_iff dest: enum_of_error)
qed

text \<open>A clock of GET_DAQ_CLOCK.\<close>

lemma optional_clock_bytes:
  assumes "clock_bytes order fmt v = Inr bs" and "drop offset packet = bs @ rest" and "offset \<le> length packet"
    and "v \<noteq> None \<longrightarrow> observable"
  shows "optional_clock order packet observable fmt offset = Inr (v, offset + length bs)
    \<and> drop (offset + length bs) packet = rest \<and> offset + length bs \<le> length packet"
proof -
  have len: "length packet = offset + length bs + length rest"
    using arg_cong [OF assms(2), of length] assms(3) by simp
  moreover have "drop (offset + length bs) packet = rest"
    using assms(2) by (metis add.commute append_eq_conv_conj drop_drop)
  moreover have "optional_clock order packet observable fmt offset = Inr (v, offset + length bs)"
    using assms(1,4)
    by (auto simp: clock_bytes_def optional_clock_def clock_length_def assms(2) dest!: struct_packD
        split: ClockFormat.splits option.splits)
  ultimately show ?thesis by simp
qed

section \<open>Properties\<close>

text \<open>
  The answer to TIME_CORRELATION_PROPERTIES is parsed back to the configuration, clocks, states and
  cluster it was built from, in either byte order and with anything behind it; a response is refused, with
  \<open>ValueError\<close>, iff it has less than 7 bytes or a reserved synchronisation state of the slave's clock.
\<close>

theorem properties_response_roundtrip:
  assumes "encode_properties order p = Inr bs"
  shows "TimeCorrelationPropertiesResponse_parse (bs @ rest) order = Inr p
    \<and> (\<forall>r. (\<exists>q. TimeCorrelationPropertiesResponse_parse r order = Inr q) \<longleftrightarrow> 7 \<le> length r \<and> uint (r ! 2) mod 8 \<notin> {4, 5, 6})
    \<and> (\<forall>r e. TimeCorrelationPropertiesResponse_parse r order = Inl e \<longrightarrow> e = ValueError)"
proof (intro conjI allI impI)
  obtain c where c: "struct_pack order 2 (tcp_cluster_id p) = Inr c"
    "bs = [word_of_int (slave_config_byte (slave_config p)), word_of_int (observable_clocks_byte (observable_clocks p)),
       word_of_int (sync_state_byte (tcp_sync_state p)), word_of_int (clock_info_byte (clock_info p)), 0] @ c"
    using assms by (auto simp: encode_properties_def rbind_Inr_iff)
  have len: "length c = 2" "struct_unpack order 2 c = Inr (tcp_cluster_id p)" using struct_packD [OF c(1)] by simp_all
  have "take 2 (drop 5 (bs @ rest)) = c" "length (bs @ rest) \<ge> 7"
    "(bs @ rest) ! 0 = word_of_int (slave_config_byte (slave_config p))"
    "(bs @ rest) ! 1 = word_of_int (observable_clocks_byte (observable_clocks p))"
    "(bs @ rest) ! 2 = word_of_int (sync_state_byte (tcp_sync_state p))"
    "(bs @ rest) ! 3 = word_of_int (clock_info_byte (clock_info p))"
    using len(1) by (simp_all add: c(2))
  then show "TimeCorrelationPropertiesResponse_parse (bs @ rest) order = Inr p"
    unfolding TimeCorrelationPropertiesResponse_parse_def
    by (simp only:) (simp add: len(2) uint_byte slave_config_roundtrip observable_clocks_roundtrip sync_state_roundtrip clock_info_roundtrip)
next
  fix r :: bytes
  obtain c where c: "SlaveConfig_parse (uint (r ! 0)) = Inr c" using SlaveConfig_parse_total by blast
  obtain k where k: "ObservableClocks_parse (uint (r ! Suc 0)) = Inr k" using ObservableClocks_parse_total by blast
  have unpack: "\<exists>v. struct_unpack order 2 (take 2 (drop 5 r)) = Inr v" if "7 \<le> length r"
    using that by (intro struct_unpack_total) simp
  show "(\<exists>q. TimeCorrelationPropertiesResponse_parse r order = Inr q) \<longleftrightarrow> 7 \<le> length r \<and> uint (r ! 2) mod 8 \<notin> {4, 5, 6}"
    unfolding SyncState_parse_total(1) [symmetric]
    using unpack by (auto simp: TimeCorrelationPropertiesResponse_parse_def c k rbind_Inr_iff not_less)
  show "e = ValueError" if "TimeCorrelationPropertiesResponse_parse r order = Inl e" for e
    using that unpack
    by (auto simp: TimeCorrelationPropertiesResponse_parse_def c k rbind_Inl_iff rbind_Inr_iff dest: SyncState_parse_total(2) split: if_splits)
qed


theorem properties_response_roundtrip_witness:
  "TimeCorrelationPropertiesResponse_parse [0x0A, 0x06, 0x11, 0x05, 0, 1, 0, 9] Little =
     Inr \<lparr>slave_config = \<lparr>response_fmt = ALL_TRIGGERS, daq_ts_relation = XCP_SLAVE_CLOCK, time_sync_bridge = AVAILABLE_DISABLED\<rparr>,
       observable_clocks = \<lparr>xcp_slv_clk = XCP_NOT_AVAILABLE, grandm_clk = GRANDM_CAN_READ, ecu_clk = ECU_NOT_AVAILABLE\<rparr>,
       tcp_sync_state = \<lparr>slv_clk_sync_state = SLV_SYNCHRONIZED, grandm_clk_sync_state = GM_NOT_SYNCHRONIZED,
         ecu_clk_sync_state = ECU_SYNCHRONIZED\<rparr>,
       clock_info = \<lparr>slv_clk_info = True, grandm_clk_info = False, clk_relation = True, ecu_clk_info = False,
         ecu_grandm_clk_info = False\<rparr>,
       tcp_cluster_id = 1\<rparr>" (is "_ = Inr ?p")
proof -
  have "struct_pack Little 2 1 = Inr [1, 0]" by (simp add: struct_pack_def eval_nat_numeral)
  then have "encode_properties Little ?p = Inr [0x0A, 0x06, 0x11, 0x05, 0, 1, 0]"
    by (simp add: encode_properties_def slave_config_byte_def observable_clocks_byte_def sync_state_byte_def
        clock_info_byte_def member_value_def members_defs)
  from properties_response_roundtrip [OF this, of "[9]"] show ?thesis by simp
qed

text \<open>
  The answer to GET_DAQ_CLOCK is parsed back to the clocks it was built from: in the extended format
  the slave's clock in its announced width, the grandmaster's and the ECU's where they are observable and
  in the payload, and the synchronisation state when one byte is left; without time correlation
  properties, or with the legacy format, the 32-bit time stamp behind the first three bytes.
\<close>

theorem daq_clock_roundtrip:
  assumes "PayloadFormat_parse (uint f) = Inr pf" and "xcp_slave_fmt pf \<in> {DWORD, DLONG}"
    and "clock_bytes order (xcp_slave_fmt pf) (Some x) = Inr xs"
    and "clock_bytes order (grandmaster_fmt pf) g = Inr gs" and "clock_bytes order (ecu_fmt pf) e = Inr es"
    and "g \<noteq> None \<longrightarrow> grandm_clk (observable_clocks p) \<noteq> GRANDM_NOT_AVAILABLE"
    and "e \<noteq> None \<longrightarrow> ecu_clk (observable_clocks p) \<noteq> ECU_NOT_AVAILABLE"
    and "extended_clock (Some p)" and "struct_pack order 4 y = Inr ys"
  shows "\<exists>ti. TriggerInfo_parse (uint t) = Inr ti
    \<and> GetDaqClockResponse_parse ([r, t, f] @ xs @ gs @ es @ (case st of None \<Rightarrow> [] | Some s \<Rightarrow> [word_of_int (sync_state_byte s)]))
        order (Some p) =
      Inr \<lparr>extended_format = True, clock_trigger_info = ti, clock_payload_fmt = pf, clock_timestamp = x,
           timestamp_grandm = g, timestamp_ecu = e, clock_sync_state = st\<rparr>
    \<and> (\<forall>q rest. \<not> extended_clock q \<longrightarrow> GetDaqClockResponse_parse ([r, t, f] @ ys @ rest) order q =
      Inr \<lparr>extended_format = False, clock_trigger_info = ti, clock_payload_fmt = pf, clock_timestamp = y,
           timestamp_grandm = None, timestamp_ecu = None, clock_sync_state = None\<rparr>)"
proof -
  obtain ti where ti: "TriggerInfo_parse (uint t) = Inr ti" using TriggerInfo_parse_total by blast
  let ?tail = "case st of None \<Rightarrow> [] | Some s \<Rightarrow> [word_of_int (sync_state_byte s)]"
  let ?p = "[r, t, f] @ xs @ gs @ es @ ?tail"
  let ?n = "clock_length (xcp_slave_fmt pf)"
  have index: "py_index IndexError ([r, t, f] @ ws) 1 = Inr t" "py_index IndexError ([r, t, f] @ ws) 2 = Inr f" for ws
    by (simp_all add: py_index_def)
  have xs: "length xs = ?n" "struct_unpack order ?n xs = Inr x"
    using assms(2,3) by (auto simp: clock_bytes_def clock_length_def dest!: struct_packD split: ClockFormat.splits)
  have "drop (3 + ?n) ?p = gs @ es @ ?tail" "3 + ?n \<le> length ?p"
    using xs(1) [symmetric] by (simp_all add: numeral_3_eq_3)
  note gm = optional_clock_bytes [OF assms(4) this assms(6)]
  note ecu = optional_clock_bytes [OF assms(5) gm [THEN conjunct2, THEN conjunct1] gm [THEN conjunct2, THEN conjunct2] assms(7)]
  let ?o2 = "3 + ?n + length gs + length es"
  have st: "(if length ?p = ?o2 + 1 then rbind (SyncState_parse (uint (?p ! ?o2))) (\<lambda>s. Inr (Some s)) else Inr None) = Inr st"
  proof (cases st)
    case (Some s)
    have "?p ! ?o2 = word_of_int (sync_state_byte s)" using ecu Some by (intro nth_via_drop) simp
    moreover have "length ?p = ?o2 + 1" using Some xs by simp
    ultimately show ?thesis using Some by (simp only: simp_thms if_True uint_byte sync_state_roundtrip rbind_simps)
  qed (simp add: xs)
  have "take ?n (drop 3 ?p) = xs" using xs by simp
  with ti gm ecu st xs assms(1,8) have extended: "GetDaqClockResponse_parse ?p order (Some p) =
      Inr \<lparr>extended_format = True, clock_trigger_info = ti, clock_payload_fmt = pf, clock_timestamp = x,
           timestamp_grandm = g, timestamp_ecu = e, clock_sync_state = st\<rparr>"
    unfolding GetDaqClockResponse_parse_def index
    by (simp only: rbind_simps if_True option.case Let_def split_conv)
  have "take 4 (drop 3 ([r, t, f] @ ys @ rest)) = ys" "struct_unpack order 4 ys = Inr y" for rest
    using struct_packD [OF assms(9)] by simp_all
  then have "GetDaqClockResponse_parse ([r, t, f] @ ys @ rest) order q =
      Inr \<lparr>extended_format = False, clock_trigger_info = ti, clock_payload_fmt = pf, clock_timestamp = y,
           timestamp_grandm = None, timestamp_ecu = None, clock_sync_state = None\<rparr>" if "\<not> extended_clock q" for q rest
    using that ti assms(1) unfolding GetDaqClockResponse_parse_def index by simp
  with ti extended show ?thesis by blast
qed


definition example_properties :: TimeCorrelationPropertiesResponse where
  "example_properties =
     \<lparr>slave_config = \<lparr>response_fmt = ALL_TRIGGERS, daq_ts_relation = ECU_CLOCK, time_sync_bridge = BRIDGE_NOT_AVAILABLE\<rparr>,
      observable_clocks = \<lparr>xcp_slv_clk = XCP_FREE_RUNNING, grandm_clk = GRANDM_NOT_AVAILABLE, ecu_clk = ECU_CAN_READ\<rparr>,
      tcp_sync_state = \<lparr>slv_clk_sync_state = SLV_SYNCHRONIZED, grandm_clk_sync_state = GM_NOT_SYNCHRONIZED,
        ecu_clk_sync_state = ECU_SYNCHRONIZED\<rparr>,
      clock_info = ClockInfo_parse 5, tcp_cluster_id = 1\<rparr>"

theorem daq_clock_roundtrip_witness:
  "\<exists>ti pf. GetDaqClockResponse_parse [0, 0x1A, 0x11, 5, 0, 0, 0, 7, 0, 0, 0, 0x11] Little (Some example_properties) =
     Inr \<lparr>extended_format = True, clock_trigger_info = ti, clock_payload_fmt = pf, clock_timestamp = 5,
       timestamp_grandm = None, timestamp_ecu = Some 7, clock_sync_state = Some (tcp_sync_state example_properties)\<rparr>"
proof -
  have pf: "PayloadFormat_parse (uint (0x11 :: byte)) = Inr \<lparr>xcp_slave_fmt = DWORD, grandmaster_fmt = NOT_PRESENT,
      ecu_fmt = DWORD, cluster_identifier = False, payload_raw = 0x11\<rparr>"
    by (simp add: PayloadFormat_parse_def ClockFormat_of_def py_index_def)
  have pack: "struct_pack Little 4 5 = Inr [5, 0, 0, 0]" "struct_pack Little 4 7 = Inr [7, 0, 0, 0]"
    by (simp_all add: struct_pack_def eval_nat_numeral)
  have "word_of_int (sync_state_byte (tcp_sync_state example_properties)) = (0x11 :: byte)"
    by (simp add: example_properties_def sync_state_byte_def member_value_def members_defs)
  then show ?thesis
    using daq_clock_roundtrip [OF pf, of Little 5 "[5, 0, 0, 0]" None "[]" "Some 7" "[7, 0, 0, 0]" example_properties
        5 "[5, 0, 0, 0]" "0x1A" 0 "Some (tcp_sync_state example_properties)"]
    by (auto simp: clock_bytes_def pack extended_clock_def example_properties_def)
qed

end
