(* ===== verification/Master_Base.thy ===== *)
theory Master_Base
  imports Transport_Base Checksum Time_Correlation
begin

text \<open>
  The state of \<open>pyxcp/master/master.py\<close>'s \<open>Master\<close> and what its methods are made of. A method is a
  \<open>proc\<close>: it returns or raises, leaving a new state, or does not return at all (\<open>None\<close>).

  The methods use the transport through five operations, the record \<open>link\<close>; \<open>transport_link\<close> is that of
  \<open>Transport_Base\<close>. The responses are parsed by \<open>construct\<close> from the declarations in \<open>types.py\<close>: a
  record per declaration has its fields, and the record \<open>parsers\<close> stands for the parsing. The \<open>Stim\<close>
  object is a C++ class; the model records the calls it gets.
\<close>

section \<open>Procedures\<close>

type_synonym ('s, 'a) proc = "'s \<Rightarrow> ('a result \<times> 's) option"

definition mret :: "'a \<Rightarrow> ('s, 'a) proc" where
  "mret x = (\<lambda>s. Some (Inr x, s))"

definition mraise :: "pyexn \<Rightarrow> ('s, 'a) proc" where
  "mraise e = (\<lambda>s. Some (Inl e, s))"

definition mlift :: "'a result \<Rightarrow> ('s, 'a) proc" where
  "mlift r = (\<lambda>s. Some (r, s))"

definition mget :: "('s \<Rightarrow> 'a) \<Rightarrow> ('s, 'a) proc" where
  "mget f = (\<lambda>s. Some (Inr (f s), s))"

definition mput :: "('s \<Rightarrow> 's) \<Rightarrow> ('s, unit) proc" where
  "mput f = (\<lambda>s. Some (Inr (), f s))"

definition mbind :: "('s, 'a) proc \<Rightarrow> ('a \<Rightarrow> ('s, 'b) proc) \<Rightarrow> ('s, 'b) proc" where
  "mbind m f = (\<lambda>s. case m s of
     None \<Rightarrow> None
   | Some (Inl e, s') \<Rightarrow> Some (Inl e, s')
   | Some (Inr x, s') \<Rightarrow> f x s')"

definition mthen :: "('s, 'a) proc \<Rightarrow> ('s, 'b) proc \<Rightarrow> ('s, 'b) proc" where
  "mthen m n = mbind m (\<lambda>_. n)"

text \<open>\<open>try: m except Exception as e: h e\<close>\<close>

definition mcatch :: "('s, 'a) proc \<Rightarrow> (pyexn \<Rightarrow> ('s, 'a) proc) \<Rightarrow> ('s, 'a) proc" where
  "mcatch m h = (\<lambda>s. case m s of
     None \<Rightarrow> None
   | Some (Inl e, s') \<Rightarrow> h e s'
   | Some (Inr x, s') \<Rightarrow> Some (Inr x, s'))"

fun mmap :: "('a \<Rightarrow> ('s, 'b) proc) \<Rightarrow> 'a list \<Rightarrow> ('s, 'b list) proc" where
  "mmap f [] = mret []"
| "mmap f (x # xs) = mbind (f x) (\<lambda>y. mbind (mmap f xs) (\<lambda>ys. mret (y # ys)))"

fun mfor :: "('a \<Rightarrow> ('s, unit) proc) \<Rightarrow> 'a list \<Rightarrow> ('s, unit) proc" where
  "mfor f [] = mret ()"
| "mfor f (x # xs) = mthen (f x) (mfor f xs)"

named_theorems proc_simps

lemma mret_apply [proc_simps, simp]: "mret x s = Some (Inr x, s)" by (simp add: mret_def)
lemma mraise_apply [proc_simps, simp]: "mraise e s = Some (Inl e, s)" by (simp add: mraise_def)
lemma mlift_apply [proc_simps, simp]: "mlift r s = Some (r, s)" by (simp add: mlift_def)
lemma mget_apply [proc_simps, simp]: "mget f s = Some (Inr (f s), s)" by (simp add: mget_def)
lemma mput_apply [proc_simps, simp]: "mput f s = Some (Inr (), f s)" by (simp add: mput_def)

lemma mbind_return [simp]:
  "mbind (mret x) f = f x" "mbind (mlift (Inr x)) f = f x" "mbind (mraise e) f = mraise e"
  "mbind (mlift (Inl e)) f = mraise e"
  by (simp_all add: mbind_def mret_def mlift_def mraise_def)

lemma mthen_apply: "mthen m n s = mbind m (\<lambda>_. n) s"
  by (simp add: mthen_def)

lemma mbind_apply [proc_simps]:
  "m s = None \<Longrightarrow> mbind m f s = None"
  "m s = Some (Inl e, s') \<Longrightarrow> mbind m f s = Some (Inl e, s')"
  "m s = Some (Inr x, s') \<Longrightarrow> mbind m f s = f x s'"
  by (simp_all add: mbind_def)

lemma mthen_simps [proc_simps]:
  "m s = None \<Longrightarrow> mthen m n s = None"
  "m s = Some (Inl e, s') \<Longrightarrow> mthen m n s = Some (Inl e, s')"
  "m s = Some (Inr x, s') \<Longrightarrow> mthen m n s = n s'"
  by (simp_all add: mthen_def mbind_def)

lemma mbind_get [simp]: "mbind (mget f) g s = g (f s) s" by (simp add: mbind_def)
lemma mthen_put [simp]: "mthen (mput f) m s = m (f s)" by (simp add: mthen_def mbind_def)

section \<open>The declarations of responses\<close>

datatype AddressGranularity = AG_BYTE | AG_WORD | AG_DWORD | AG_RESERVED

datatype ByteOrder = INTEL | MOTOROLA

record ResourceType =
  res_dbg :: bool
  res_pgm :: bool
  res_stim :: bool
  res_daq :: bool
  res_calpag :: bool

record CommModeBasic =
  optional_info :: bool
  slave_block :: bool
  granularity :: AddressGranularity
  byte_order :: ByteOrder

record ConnectResponse =
  cr_resource :: ResourceType
  cr_commModeBasic :: CommModeBasic
  cr_maxCto :: int
  cr_maxDto :: int
  cr_protocolLayerVersion :: int
  cr_transportLayerVersion :: int

record GetVersionResponse =
  ver_protocolMajor :: int
  ver_protocolMinor :: int
  ver_transportMajor :: int
  ver_transportMinor :: int

record SessionStatus =
  ss_resume :: bool
  ss_daqRunning :: bool
  ss_DaqCfgLost :: bool
  ss_clearDaqRequest :: bool
  ss_storeDaqRequest :: bool
  ss_calPagCfgLost :: bool
  ss_storeCalRequest :: bool

record GetStatusResponse =
  gs_sessionStatus :: SessionStatus
  gs_resourceProtectionStatus :: ResourceType
  gs_stateNumber :: int
  gs_sessionConfiguration :: int

record GetCommModeInfoResponse =
  cmi_interleavedMode :: bool
  cmi_masterBlockMode :: bool
  cmi_maxBs :: int
  cmi_minSt :: int
  cmi_queueSize :: int
  cmi_xcpDriverVersionNumber :: int

record GetIDResponse =
  id_mode :: int
  id_length :: int
  id_identification :: "bytes option"

record GetSeedResponse =
  seed_length :: int
  seed_bytes :: "bytes option"

record BuildChecksumResponse =
  bc_checksumType :: algo_ref
  bc_checksum :: int

record GetPagProcessorInfoResponse =
  pag_maxSegments :: int
  pag_freezeSupported :: bool

record GetSegmentInfoMode1Response =
  sg_maxPages :: int
  sg_addressExtension :: int
  sg_maxMapping :: int
  sg_compressionMethod :: int
  sg_encryptionMethod :: int

record PageProperties =
  pp_xcpWriteAccessWithEcu :: bool
  pp_xcpWriteAccessWithoutEcu :: bool
  pp_xcpReadAccessWithEcu :: bool
  pp_xcpReadAccessWithoutEcu :: bool
  pp_ecuAccessWithXcp :: bool
  pp_ecuAccessWithoutXcp :: bool

record GetPageInfoResponse =
  pg_properties :: PageProperties
  pg_initSegment :: int

record CommModePgm =
  pgm_slaveBlockMode :: bool
  pgm_interleavedMode :: bool
  pgm_masterBlockMode :: bool

record ProgramStartResponse =
  ps_commModePgm :: CommModePgm
  ps_maxCtoPgm :: int
  ps_maxBsPgm :: int
  ps_minStPgm :: int
  ps_queueSizePgm :: int

record PgmProperties =
  nonSeqPgmRequired :: bool
  nonSeqPgmSupported :: bool
  encryptionRequired :: bool
  encryptionSupported :: bool
  compressionRequired :: bool
  compressionSupported :: bool
  functionalMode :: bool
  absoluteMode :: bool

record GetPgmProcessorInfoResponse =
  pi_pgmProperties :: PgmProperties
  pi_maxSector :: int

record GetSectorInfoResponseMode01 =
  si_clearSequenceNumber :: int
  si_programSequenceNumber :: int
  si_programmingMethod :: int
  si_sectorInfo :: int

text \<open>
  \<open>parse_value\<close> parses, by the name of its declaration, a response that a method only returns to its
  caller; \<open>build_DaqElement\<close> is the one declaration that is built.
\<close>

record 'v parsers =
  parse_ConnectResponsePartial :: "bytes \<Rightarrow> (ResourceType \<times> CommModeBasic) result"
  parse_ConnectResponse :: "ByteOrder \<Rightarrow> bytes \<Rightarrow> ConnectResponse result"
  parse_GetStatusResponse :: "ByteOrder \<Rightarrow> bytes \<Rightarrow> GetStatusResponse result"
  parse_GetCommModeInfoResponse :: "ByteOrder \<Rightarrow> bytes \<Rightarrow> GetCommModeInfoResponse result"
  parse_GetIDResponse :: "ByteOrder \<Rightarrow> bytes \<Rightarrow> GetIDResponse result"
  parse_GetSeedResponse :: "ByteOrder \<Rightarrow> bytes \<Rightarrow> GetSeedResponse result"
  parse_ResourceType :: "ByteOrder \<Rightarrow> bytes \<Rightarrow> ResourceType result"
  parse_BuildChecksumResponse :: "ByteOrder \<Rightarrow> bytes \<Rightarrow> BuildChecksumResponse result"
  parse_GetVersionResponse :: "ByteOrder \<Rightarrow> bytes \<Rightarrow> GetVersionResponse result"
  parse_GetPagProcessorInfoResponse :: "ByteOrder \<Rightarrow> bytes \<Rightarrow> GetPagProcessorInfoResponse result"
  parse_GetSegmentInfoMode0Response :: "ByteOrder \<Rightarrow> bytes \<Rightarrow> int result"
  parse_GetSegmentInfoMode1Response :: "ByteOrder \<Rightarrow> bytes \<Rightarrow> GetSegmentInfoMode1Response result"
  parse_GetSegmentInfoMode2Response :: "ByteOrder \<Rightarrow> bytes \<Rightarrow> int result"
  parse_GetPageInfoResponse :: "ByteOrder \<Rightarrow> bytes \<Rightarrow> GetPageInfoResponse result"
  parse_StartStopDaqListResponse :: "ByteOrder \<Rightarrow> bytes \<Rightarrow> int result"
  parse_ProgramStartResponse :: "ByteOrder \<Rightarrow> bytes \<Rightarrow> ProgramStartResponse result"
  parse_GetPgmProcessorInfoResponse :: "ByteOrder \<Rightarrow> bytes \<Rightarrow> GetPgmProcessorInfoResponse result"
  parse_GetSectorInfoResponseMode01 :: "ByteOrder \<Rightarrow> bytes \<Rightarrow> GetSectorInfoResponseMode01 result"
  parse_GetSectorInfoResponseMode2 :: "ByteOrder \<Rightarrow> bytes \<Rightarrow> int result"
  parse_value :: "string \<Rightarrow> ByteOrder \<Rightarrow> bytes \<Rightarrow> 'v result"
  parse_with_width :: "string \<Rightarrow> ByteOrder \<Rightarrow> int \<Rightarrow> bytes \<Rightarrow> 'v result"
  build_DaqElement :: "ByteOrder \<Rightarrow> int \<times> int \<times> int \<times> int \<Rightarrow> bytes result"

section \<open>State\<close>

text \<open>
  \<open>SlaveProperties\<close> is a dictionary: a key that has not been set raises \<open>KeyError\<close> and is \<open>None\<close> here.
  The value of \<open>bytesPerElement\<close> may be Python's \<open>None\<close>.
\<close>

record pgm_properties =
  pgm_commModePgm :: "CommModePgm option"
  pgm_maxCtoPgm :: "int option"
  pgm_maxBsPgm :: "int option"
  pgm_minStPgm :: "int option"
  pgm_queueSizePgm :: "int option"
  pgm_slave_block :: "bool option"
  pgm_interleaved :: "bool option"
  pgm_master_block :: "bool option"
  pgm_pgmProperties :: "PgmProperties option"
  pgm_maxSector :: "int option"

record SlaveProperties =
  sp_byteOrder :: "ByteOrder option"
  sp_maxCto :: "int option"
  sp_maxDto :: "int option"
  sp_supportsPgm :: "bool option"
  sp_supportsStim :: "bool option"
  sp_supportsDaq :: "bool option"
  sp_supportsCalpag :: "bool option"
  sp_slaveBlockMode :: "bool option"
  sp_addressGranularity :: "AddressGranularity option"
  sp_optionalCommMode :: "bool option"
  sp_protocolLayerVersion :: "int option"
  sp_transportLayerVersion :: "int option"
  sp_maxWriteDaqMultipleElements :: "int option"
  sp_bytesPerElement :: "int option option"
  sp_interleavedMode :: "bool option"
  sp_masterBlockMode :: "bool option"
  sp_maxBs :: "int option"
  sp_minSt :: "int option"
  sp_queueSize :: "int option"
  sp_xcpDriverVersionNumber :: "int option"
  sp_protocolMajor :: "int option"
  sp_protocolMinor :: "int option"
  sp_transportMajor :: "int option"
  sp_transportMinor :: "int option"
  sp_pgmProcessor :: pgm_properties

text \<open>\<open>DaqEventInfo\<close>, which is handed to \<open>Stim\<close>: the unit is an exponent of ten.\<close>

record DaqEventInfo =
  ev_name :: string
  ev_unit_exp :: int
  ev_cycle :: int
  ev_maxDaqList :: int
  ev_priority :: int
  ev_consistency :: string
  ev_daq_supported :: bool
  ev_stim_supported :: bool
  ev_packed_supported :: bool

datatype stim_call =
    StimSetDaqPtr int int int
  | StimClearDaqList int
  | StimWriteDaq int int int int
  | StimSetDaqListMode int int int int int
  | StimStartStopDaqList int int
  | StimSetFirstPid int int
  | StimStartStopSynch int
  | StimFreeDaq
  | StimAllocDaq int
  | StimAllocOdt int int
  | StimAllocOdtEntry int int int
  | StimSetDaqEventInfo "DaqEventInfo list"

text \<open>
  The packers are functions of the byte order CONNECT reported, \<open>None\<close> before; \<open>ag_codec\<close> is that of
  \<open>AG_pack\<close>, byte order and size.
\<close>

record 't master =
  transport_name :: string
  disconnect_response_optional :: bool
  slaveProperties :: SlaveProperties
  packers :: "byteorder option"
  ag_codec :: "(byteorder \<times> nat) option"
  mta_addr :: "(int \<times> int) option"
  currentDaqPtr :: "(int \<times> int \<times> int) option"
  currentProtectionStatus :: "ResourceType option"
  time_correlation_properties :: "TimeCorrelationPropertiesResponse option"
  dbg_width :: "int option"
  stim_calls :: "stim_call list"
  suppress_error_log :: bool
  tl :: 't

definition no_pgm_properties :: pgm_properties where
  "no_pgm_properties = \<lparr>pgm_commModePgm = None, pgm_maxCtoPgm = None, pgm_maxBsPgm = None,
     pgm_minStPgm = None, pgm_queueSizePgm = None, pgm_slave_block = None, pgm_interleaved = None,
     pgm_master_block = None, pgm_pgmProperties = None, pgm_maxSector = None\<rparr>"

definition no_properties :: SlaveProperties where
  "no_properties = \<lparr>sp_byteOrder = None, sp_maxCto = None, sp_maxDto = None, sp_supportsPgm = None,
     sp_supportsStim = None, sp_supportsDaq = None, sp_supportsCalpag = None, sp_slaveBlockMode = None,
     sp_addressGranularity = None, sp_optionalCommMode = None, sp_protocolLayerVersion = None,
     sp_transportLayerVersion = None, sp_maxWriteDaqMultipleElements = None, sp_bytesPerElement = None,
     sp_interleavedMode = None, sp_masterBlockMode = None, sp_maxBs = None, sp_minSt = None,
     sp_queueSize = None, sp_xcpDriverVersionNumber = None, sp_protocolMajor = None,
     sp_protocolMinor = None, sp_transportMajor = None, sp_transportMinor = None,
     sp_pgmProcessor = no_pgm_properties\<rparr>"

text \<open>\<open>__init__\<close>, with the name of the transport in lower case.\<close>

definition new_master :: "string \<Rightarrow> bool \<Rightarrow> 't \<Rightarrow> 't master" where
  "new_master name optional_disconnect t =
     \<lparr>transport_name = name, disconnect_response_optional = optional_disconnect,
      slaveProperties = no_properties, packers = None, ag_codec = None, mta_addr = None,
      currentDaqPtr = None, currentProtectionStatus = None, time_correlation_properties = None, dbg_width = None, stim_calls = [],
      suppress_error_log = False, tl = t\<rparr>"

section \<open>What methods use\<close>

record 't link =
  lk_request :: "command \<Rightarrow> int list \<Rightarrow> ('t, bytes) proc"
  lk_request_optional :: "command \<Rightarrow> int list \<Rightarrow> ('t, bytes option) proc"
  lk_block_request :: "command \<Rightarrow> int list \<Rightarrow> ('t, unit) proc"
  lk_block_receive :: "int \<Rightarrow> ('t, bytes) proc"
  lk_popleft :: "('t, bytes option) proc"

text \<open>
  The transport of \<open>Transport_Base\<close> with the schedule of its waits. \<open>lk_popleft\<close> takes a queued packet,
  or sleeps for one tick when there is none.
\<close>

type_synonym timed_transport = "tick list \<times> transport"

definition content_result :: "bytes option result \<Rightarrow> bytes result" where
  "content_result r = (case r of Inl e \<Rightarrow> Inl e | Inr None \<Rightarrow> Inl TypeError | Inr (Some c) \<Rightarrow> Inr c)"

definition transport_link :: "timed_transport link" where
  "transport_link =
     \<lparr>lk_request = (\<lambda>cmd data (sched, t).
        map_option (\<lambda>(r, sched', t'). (content_result r, (sched', t'))) (request cmd data sched t)),
      lk_request_optional = (\<lambda>cmd data (sched, t).
        map_option (\<lambda>(r, sched', t'). (r, (sched', t'))) (request_optional_response cmd data sched t)),
      lk_block_request = (\<lambda>cmd data (sched, t).
        map_option (\<lambda>(r, t'). (r, (sched, t'))) (block_request cmd data t)),
      lk_block_receive = (\<lambda>n (sched, t).
        map_option (\<lambda>(r, sched', t'). (r, (sched', t'))) (block_receive n sched t)),
      lk_popleft = (\<lambda>(sched, t).
        case resQueue t of
          p # q \<Rightarrow> Some (Inr (Some p), (sched, t\<lparr>resQueue := q\<rparr>))
        | [] \<Rightarrow> (case sched of
              [] \<Rightarrow> None
            | tick # rest \<Rightarrow> Some (Inr None, (rest, advance tick t))))\<rparr>"

definition via :: "('t, 'a) proc \<Rightarrow> ('t master, 'a) proc" where
  "via p m = map_option (\<lambda>(r, t). (r, m\<lparr>tl := t\<rparr>)) (p (tl m))"

definition req :: "'t link \<Rightarrow> command \<Rightarrow> int list \<Rightarrow> ('t master, bytes) proc" where
  "req L cmd data = via (lk_request L cmd data)"

definition req_optional :: "'t link \<Rightarrow> command \<Rightarrow> int list \<Rightarrow> ('t master, bytes option) proc" where
  "req_optional L cmd data = via (lk_request_optional L cmd data)"

definition block_req :: "'t link \<Rightarrow> command \<Rightarrow> int list \<Rightarrow> ('t master, unit) proc" where
  "block_req L cmd data = via (lk_block_request L cmd data)"

text \<open>An attribute of the slave's properties.\<close>

definition attr :: "(SlaveProperties \<Rightarrow> 'a option) \<Rightarrow> ('t master, 'a) proc" where
  "attr f = mbind (mget (\<lambda>m. f (slaveProperties m))) (\<lambda>v.
     case v of None \<Rightarrow> mraise KeyError | Some x \<Rightarrow> mret x)"

text \<open>Arithmetic on \<open>bytesPerElement\<close>: \<open>None\<close> raises \<open>TypeError\<close>.\<close>

definition bytes_per_element :: "('t master, int) proc" where
  "bytes_per_element = mbind (attr sp_bytesPerElement) (\<lambda>v.
     case v of None \<Rightarrow> mraise TypeError | Some n \<Rightarrow> mret n)"

definition ints :: "bytes result \<Rightarrow> int list result" where
  "ints r = rbind r (\<lambda>bs. Inr (map uint bs))"

definition pack_with :: "(byteorder \<Rightarrow> int \<Rightarrow> bytes result) \<Rightarrow> int \<Rightarrow> ('t master, int list) proc" where
  "pack_with pk v = mbind (mget packers) (\<lambda>o'.
     case o' of None \<Rightarrow> mraise TypeError | Some ord \<Rightarrow> mlift (ints (pk ord v)))"

definition BYTE_pack where "BYTE_pack = pack_with makeBytePacker"
definition WORD_pack where "WORD_pack = pack_with makeWordPacker"
definition DWORD_pack where "DWORD_pack = pack_with makeDWordPacker"
definition DLONG_pack where "DLONG_pack = pack_with makeDLongPacker"

definition AG_pack :: "int \<Rightarrow> ('t master, int list) proc" where
  "AG_pack v = mbind (mget ag_codec) (\<lambda>c.
     case c of None \<Rightarrow> mraise TypeError | Some (ord, n) \<Rightarrow> mlift (ints (struct_pack ord n v)))"

definition DWORD_unpack :: "bytes \<Rightarrow> ('t master, int) proc" where
  "DWORD_unpack bs = mbind (mget packers) (\<lambda>o'.
     case o' of None \<Rightarrow> mraise TypeError | Some ord \<Rightarrow> mlift (makeDWordUnpacker ord bs))"

text \<open>\<open>types.X.parse(response, byteOrder=self.slaveProperties.byteOrder)\<close>\<close>

definition parsed :: "(ByteOrder \<Rightarrow> bytes \<Rightarrow> 'a result) \<Rightarrow> bytes \<Rightarrow> ('t master, 'a) proc" where
  "parsed p response = mbind (attr sp_byteOrder) (\<lambda>bo. mlift (p bo response))"

text \<open>A byte appended to a \<open>bytearray\<close>.\<close>

definition byte_item :: "int \<Rightarrow> ('t master, int list) proc" where
  "byte_item v = (if 0 \<le> v \<and> v < 256 then mret [v] else mraise ValueError)"

definition stim :: "stim_call \<Rightarrow> ('t master, unit) proc" where
  "stim c = mput (\<lambda>m. m\<lparr>stim_calls := stim_calls m @ [c]\<rparr>)"

section \<open>Lemmas\<close>

lemma mbind_assoc: "mbind (mbind p f) g = mbind p (\<lambda>x. mbind (f x) g)"
  by (rule ext) (simp add: mbind_def split: option.split sum.split prod.split)

lemma mbind_Some_iff:
  "mbind p f s = Some (r, s') \<longleftrightarrow>
     (\<exists>e. p s = Some (Inl e, s') \<and> r = Inl e) \<or> (\<exists>x t. p s = Some (Inr x, t) \<and> f x t = Some (r, s'))"
proof (cases "p s")
  case (Some o')
  obtain v u where "o' = (v, u)" by (cases o')
  then show ?thesis using Some by (cases v) (auto simp: mbind_def)
qed (simp add: mbind_def)

lemma attr_bind:
  "f (slaveProperties m) = Some x \<Longrightarrow> mbind (attr f) g m = g x m"
  "f (slaveProperties m) = None \<Longrightarrow> mbind (attr f) g m = Some (Inl KeyError, m)"
  by (simp_all add: attr_def mbind_assoc)

end
