(* ===== verification/Master_Commands.thy ===== *)
theory Master_Commands
  imports Master_Base
begin

text \<open>
  The commands of \<open>Master\<close>: the request each one sends, how it reads the response, and what it stores.
  These are the methods inside the decorator \<open>wrapped\<close>, which \<open>Error_Handler\<close> models. A parameter that
  the code spreads over a request (\<open>*data\<close>) is the list of integers that iterating over it yields.

  The invariant \<open>consistent\<close> ties the packers to the slave's properties; every command preserves it.
\<close>

section \<open>Standard commands\<close>

definition setup_slave_properties :: "ConnectResponse \<Rightarrow> ByteOrder \<Rightarrow> SlaveProperties \<Rightarrow> SlaveProperties" where
  "setup_slave_properties result bo sp = sp
     \<lparr>sp_byteOrder := Some bo, sp_maxCto := Some (cr_maxCto result), sp_maxDto := Some (cr_maxDto result),
      sp_supportsPgm := Some (res_pgm (cr_resource result)), sp_supportsStim := Some (res_stim (cr_resource result)),
      sp_supportsDaq := Some (res_daq (cr_resource result)), sp_supportsCalpag := Some (res_calpag (cr_resource result)),
      sp_slaveBlockMode := Some (slave_block (cr_commModeBasic result)),
      sp_addressGranularity := Some (granularity (cr_commModeBasic result)),
      sp_optionalCommMode := Some (optional_info (cr_commModeBasic result)),
      sp_protocolLayerVersion := Some (cr_protocolLayerVersion result),
      sp_transportLayerVersion := Some (cr_transportLayerVersion result),
      sp_maxWriteDaqMultipleElements :=
        Some (if cr_maxCto result < 10 then 0 else (cr_maxCto result - 2) div 8),
      sp_bytesPerElement := Some None\<rparr>"

definition byte_order_prefix :: "ByteOrder \<Rightarrow> byteorder" where
  "byte_order_prefix bo = (if bo = INTEL then Little else Big)"

definition setup_packers_and_unpackers :: "ByteOrder \<Rightarrow> 't master \<Rightarrow> 't master" where
  "setup_packers_and_unpackers bo m = m\<lparr>packers := Some (byte_order_prefix bo)\<rparr>"

definition setup_address_granularity :: "'t master \<Rightarrow> 't master" where
  "setup_address_granularity m =
     (let codec = (\<lambda>c n. m\<lparr>ag_codec := c,
            slaveProperties := (slaveProperties m)\<lparr>sp_bytesPerElement := Some (Some n)\<rparr>\<rparr>)
      in case sp_addressGranularity (slaveProperties m) of
           Some AG_BYTE \<Rightarrow> codec (Some (Little, 1)) 1
         | Some AG_WORD \<Rightarrow> codec (map_option (\<lambda>b. (b, 2)) (packers m)) 2
         | Some AG_DWORD \<Rightarrow> codec (map_option (\<lambda>b. (b, 4)) (packers m)) 4
         | _ \<Rightarrow> m)"

definition connect :: "'t link \<Rightarrow> 'v parsers \<Rightarrow> int \<Rightarrow> ('t master, ConnectResponse) proc" where
  "connect L P mode =
     mbind (req L CONNECT [mode mod 256]) (\<lambda>response.
     mbind (mlift (parse_ConnectResponsePartial P response)) (\<lambda>partial.
     let bo = byte_order (snd partial) in
     mbind (mlift (parse_ConnectResponse P bo response)) (\<lambda>result.
     mthen (mput (\<lambda>m. m\<lparr>slaveProperties := setup_slave_properties result bo (slaveProperties m)\<rparr>))
     (mthen (mput (setup_packers_and_unpackers bo))
     (mthen (mput setup_address_granularity)
     (mret result))))))"

definition disconnect :: "'t link \<Rightarrow> ('t master, bytes option) proc" where
  "disconnect L =
     mbind (mget disconnect_response_optional) (\<lambda>opt.
     if opt then req_optional L DISCONNECT []
     else mbind (req L DISCONNECT []) (\<lambda>response. mret (Some response)))"

definition setProtectionStatus :: "ResourceType \<Rightarrow> ('t master, unit) proc" where
  "setProtectionStatus protection = mput (\<lambda>m. m\<lparr>currentProtectionStatus := Some protection\<rparr>)"

definition getStatus :: "'t link \<Rightarrow> 'v parsers \<Rightarrow> ('t master, GetStatusResponse) proc" where
  "getStatus L P =
     mbind (req L GET_STATUS []) (\<lambda>response.
     mbind (parsed (parse_GetStatusResponse P) response) (\<lambda>result.
     mthen (setProtectionStatus (gs_resourceProtectionStatus result))
     (mret result)))"

definition synch :: "'t link \<Rightarrow> ('t master, bytes) proc" where
  "synch L = req L SYNCH []"

definition update_comm_mode_properties :: "GetCommModeInfoResponse \<Rightarrow> SlaveProperties \<Rightarrow> SlaveProperties" where
  "update_comm_mode_properties result sp = sp
     \<lparr>sp_interleavedMode := Some (cmi_interleavedMode result),
      sp_masterBlockMode := Some (cmi_masterBlockMode result),
      sp_maxBs := Some (cmi_maxBs result), sp_minSt := Some (cmi_minSt result),
      sp_queueSize := Some (cmi_queueSize result),
      sp_xcpDriverVersionNumber := Some (cmi_xcpDriverVersionNumber result)\<rparr>"

definition getCommModeInfo :: "'t link \<Rightarrow> 'v parsers \<Rightarrow> ('t master, GetCommModeInfoResponse) proc" where
  "getCommModeInfo L P =
     mbind (req L GET_COMM_MODE_INFO []) (\<lambda>response.
     mbind (parsed (parse_GetCommModeInfoResponse P) response) (\<lambda>result.
     mthen (mput (\<lambda>m. m\<lparr>slaveProperties := update_comm_mode_properties result (slaveProperties m)\<rparr>))
     (mret result)))"

definition getId :: "'t link \<Rightarrow> 'v parsers \<Rightarrow> int \<Rightarrow> ('t master, GetIDResponse) proc" where
  "getId L P mode =
     mbind (req L GET_ID [mode]) (\<lambda>response.
     mbind (parsed (parse_GetIDResponse P) response) (\<lambda>result.
     mbind (DWORD_unpack (py_slice response 3 7)) (\<lambda>len.
     mret (result\<lparr>id_length := len\<rparr>))))"

definition setRequest :: "'t link \<Rightarrow> int \<Rightarrow> int \<Rightarrow> ('t master, bytes) proc" where
  "setRequest L mode session_configuration_id =
     mbind (mlift (ints (struct_pack Big 2 session_configuration_id))) (\<lambda>session_cfg_be.
     req L SET_REQUEST (mode # session_cfg_be))"

text \<open>
  On CAN the padding of the frame is cut off; the object is made by parsing what \<open>build\<close> yields for
  the length and a seed of zeros.
\<close>

definition getSeed :: "'t link \<Rightarrow> 'v parsers \<Rightarrow> int \<Rightarrow> int \<Rightarrow> ('t master, GetSeedResponse) proc" where
  "getSeed L P first resource =
     mbind (req L GET_SEED [first, resource]) (\<lambda>response.
     mbind (mget transport_name) (\<lambda>name.
     if name = ''can'' then
       (case response of
          [] \<Rightarrow> mraise IndexError
        | sz # seed \<Rightarrow>
            mbind (parsed (parse_GetSeedResponse P) (sz # replicate (unat sz) 0)) (\<lambda>reply.
            mret (reply\<lparr>seed_bytes := Some (if unat sz < length seed then take (unat sz) seed else seed)\<rparr>)))
     else parsed (parse_GetSeedResponse P) response))"

definition unlock :: "'t link \<Rightarrow> 'v parsers \<Rightarrow> int \<Rightarrow> int list \<Rightarrow> ('t master, ResourceType) proc" where
  "unlock L P len key =
     mbind (req L UNLOCK (len # key)) (\<lambda>response.
     mbind (parsed (parse_ResourceType P) response) (\<lambda>result.
     mthen (setProtectionStatus result)
     (mret result)))"

definition setMta :: "'t link \<Rightarrow> int \<Rightarrow> int \<Rightarrow> ('t master, bytes) proc" where
  "setMta L address address_ext =
     mthen (mput (\<lambda>m. m\<lparr>mta_addr := Some (address, address_ext)\<rparr>))
     (mbind (DWORD_pack address) (\<lambda>addr.
     req L SET_MTA ([0, 0, address_ext] @ addr)))"

text \<open>The loop of \<open>upload\<close> on CAN, which has no time-out.\<close>

partial_function (option) can_fill :: "'t link \<Rightarrow> int \<Rightarrow> bytes \<Rightarrow> 't \<Rightarrow> (bytes result \<times> 't) option" where
  "can_fill L wanted response t =
     (if wanted - int (length response) > 0 then
        (case lk_popleft L t of
           None \<Rightarrow> None
         | Some (r, t') \<Rightarrow>
             (case r of
                Inl e \<Rightarrow> Some (Inl e, t')
              | Inr None \<Rightarrow> can_fill L wanted response t'
              | Inr (Some data) \<Rightarrow>
                  can_fill L wanted
                    (response @ py_slice data 1 (wanted - int (length response) + 1)) t'))
      else Some (Inr response, t))"

definition upload :: "'t link \<Rightarrow> int \<Rightarrow> ('t master, bytes) proc" where
  "upload L len =
     mbind bytes_per_element (\<lambda>bpe.
     mbind (req L UPLOAD [len]) (\<lambda>response.
     mbind (attr sp_maxCto) (\<lambda>maxCto.
     mbind (mget transport_name) (\<lambda>name.
     if len * bpe > maxCto - 1 then
       mbind (via (lk_block_receive L (len * bpe - int (length response)))) (\<lambda>block_response.
       mret (response @ block_response))
     else if name = ''can'' then via (can_fill L (len * bpe) response)
     else mret response))))"

definition shortUpload :: "'t link \<Rightarrow> int \<Rightarrow> int \<Rightarrow> int \<Rightarrow> ('t master, bytes) proc" where
  "shortUpload L len address address_ext =
     mbind (DWORD_pack address) (\<lambda>addr.
     mbind bytes_per_element (\<lambda>bpe.
     mbind (attr sp_maxCto) (\<lambda>_.
     mbind (req L SHORT_UPLOAD ([len, 0, address_ext] @ addr)) (\<lambda>response.
     mret (py_slice response 0 (len * bpe))))))"

definition buildChecksum :: "'t link \<Rightarrow> 'v parsers \<Rightarrow> int \<Rightarrow> ('t master, BuildChecksumResponse) proc" where
  "buildChecksum L P blocksize =
     mbind (DWORD_pack blocksize) (\<lambda>bs.
     mbind (req L BUILD_CHECKSUM ([0, 0, 0] @ bs)) (\<lambda>response.
     parsed (parse_BuildChecksumResponse P) response))"

definition transportLayerCmd :: "'t link \<Rightarrow> int \<Rightarrow> int list \<Rightarrow> ('t master, bytes option) proc" where
  "transportLayerCmd L sub_command data = req_optional L TRANSPORT_LAYER_CMD (sub_command # data)"

definition userCmd :: "'t link \<Rightarrow> int \<Rightarrow> int list \<Rightarrow> ('t master, bytes) proc" where
  "userCmd L sub_command data = req L USER_CMD (sub_command # data)"

definition update_version_properties :: "GetVersionResponse \<Rightarrow> SlaveProperties \<Rightarrow> SlaveProperties" where
  "update_version_properties result sp = sp
     \<lparr>sp_protocolMajor := Some (ver_protocolMajor result), sp_protocolMinor := Some (ver_protocolMinor result),
      sp_transportMajor := Some (ver_transportMajor result), sp_transportMinor := Some (ver_transportMinor result)\<rparr>"

definition getVersion :: "'t link \<Rightarrow> 'v parsers \<Rightarrow> ('t master, GetVersionResponse) proc" where
  "getVersion L P =
     mbind (req L GET_VERSION []) (\<lambda>response.
     mbind (parsed (parse_GetVersionResponse P) response) (\<lambda>result.
     mthen (mput (\<lambda>m. m\<lparr>slaveProperties := update_version_properties result (slaveProperties m)\<rparr>))
     (mret result)))"

section \<open>Calibration commands\<close>

text \<open>\<open>block_mode_length\<close> may be \<open>None\<close>.\<close>

definition download :: "'t link \<Rightarrow> int list \<Rightarrow> int option \<Rightarrow> bool \<Rightarrow> ('t master, bytes option) proc" where
  "download L data block_mode_length last_packet =
     (case (block_mode_length, last_packet) of
        (Some n, False) \<Rightarrow> mthen (block_req L DOWNLOAD (n # data)) (mret None)
      | _ \<Rightarrow> mbind (req L DOWNLOAD (int (length data) # data)) (\<lambda>response. mret (Some response)))"

definition downloadNext :: "'t link \<Rightarrow> int list \<Rightarrow> int \<Rightarrow> bool \<Rightarrow> ('t master, bytes option) proc" where
  "downloadNext L data remaining_block_length last_packet =
     (if last_packet then
        mbind (req L DOWNLOAD_NEXT (remaining_block_length # data)) (\<lambda>response. mret (Some response))
      else mthen (block_req L DOWNLOAD_NEXT (remaining_block_length # data)) (mret None))"

definition downloadMax :: "'t link \<Rightarrow> int list \<Rightarrow> ('t master, bytes) proc" where
  "downloadMax L data = req L DOWNLOAD_MAX data"

definition shortDownload :: "'t link \<Rightarrow> int \<Rightarrow> int \<Rightarrow> int list \<Rightarrow> ('t master, bytes) proc" where
  "shortDownload L address address_ext data =
     mbind (DWORD_pack address) (\<lambda>addr.
     req L SHORT_DOWNLOAD ([int (length data), 0, address_ext] @ addr @ data))"

definition modifyBits :: "'t link \<Rightarrow> int \<Rightarrow> int \<Rightarrow> int \<Rightarrow> ('t master, bytes) proc" where
  "modifyBits L shift_value and_mask xor_mask =
     mbind (WORD_pack and_mask) (\<lambda>am.
     mbind (WORD_pack xor_mask) (\<lambda>xm.
     req L MODIFY_BITS (shift_value # am @ xm)))"

definition setCalPage :: "'t link \<Rightarrow> int \<Rightarrow> int \<Rightarrow> int \<Rightarrow> ('t master, bytes) proc" where
  "setCalPage L mode logical_data_segment logical_data_page =
     req L SET_CAL_PAGE [mode, logical_data_segment, logical_data_page]"

definition getCalPage :: "'t link \<Rightarrow> int \<Rightarrow> int \<Rightarrow> ('t master, byte) proc" where
  "getCalPage L mode logical_data_segment =
     mbind (req L GET_CAL_PAGE [mode, logical_data_segment]) (\<lambda>response.
     mlift (py_index IndexError response 2))"

definition getPagProcessorInfo :: "'t link \<Rightarrow> 'v parsers \<Rightarrow> ('t master, GetPagProcessorInfoResponse) proc" where
  "getPagProcessorInfo L P =
     mbind (req L GET_PAG_PROCESSOR_INFO []) (\<lambda>response.
     parsed (parse_GetPagProcessorInfoResponse P) response)"

datatype segment_info =
  SegmentMode0 int | SegmentMode1 GetSegmentInfoMode1Response | SegmentMode2 int | SegmentNone

definition getSegmentInfo :: "'t link \<Rightarrow> 'v parsers \<Rightarrow> int \<Rightarrow> int \<Rightarrow> int \<Rightarrow> int \<Rightarrow> ('t master, segment_info) proc" where
  "getSegmentInfo L P mode segment_number info mapping_index =
     mbind (req L GET_SEGMENT_INFO [mode, segment_number, info, mapping_index]) (\<lambda>response.
     if mode = 0 then mbind (parsed (parse_GetSegmentInfoMode0Response P) response) (\<lambda>r. mret (SegmentMode0 r))
     else if mode = 1 then mbind (parsed (parse_GetSegmentInfoMode1Response P) response) (\<lambda>r. mret (SegmentMode1 r))
     else if mode = 2 then mbind (parsed (parse_GetSegmentInfoMode2Response P) response) (\<lambda>r. mret (SegmentMode2 r))
     else mret SegmentNone)"

text \<open>\<open>PagePropertiesInfo.from_raw\<close>\<close>

definition from_raw :: "PageProperties \<Rightarrow> PagePropertiesInfo" where
  "from_raw raw =
     \<lparr>ecu_access_with_xcp = pp_ecuAccessWithXcp raw, ecu_access_without_xcp = pp_ecuAccessWithoutXcp raw,
      xcp_read_access_with_ecu = pp_xcpReadAccessWithEcu raw,
      xcp_read_access_without_ecu = pp_xcpReadAccessWithoutEcu raw,
      xcp_write_access_with_ecu = pp_xcpWriteAccessWithEcu raw,
      xcp_write_access_without_ecu = pp_xcpWriteAccessWithoutEcu raw\<rparr>"

definition getPageInfo :: "'t link \<Rightarrow> 'v parsers \<Rightarrow> int \<Rightarrow> int \<Rightarrow> ('t master, PageInfo) proc" where
  "getPageInfo L P segment_number page_number =
     mbind (req L GET_PAGE_INFO [0, segment_number, page_number]) (\<lambda>response.
     mbind (parsed (parse_GetPageInfoResponse P) response) (\<lambda>raw.
     mret \<lparr>properties = from_raw (pg_properties raw), init_segment = pg_initSegment raw\<rparr>))"

definition setSegmentMode :: "'t link \<Rightarrow> int \<Rightarrow> int \<Rightarrow> ('t master, bytes) proc" where
  "setSegmentMode L mode segment_number = req L SET_SEGMENT_MODE [mode, segment_number]"

definition getSegmentMode :: "'t link \<Rightarrow> int \<Rightarrow> ('t master, byte option) proc" where
  "getSegmentMode L segment_number =
     mbind (req L GET_SEGMENT_MODE [0, segment_number]) (\<lambda>response.
     if response = [] then mret None
     else mbind (mlift (py_index IndexError response 1)) (\<lambda>b. mret (Some b)))"

definition copyCalPage :: "'t link \<Rightarrow> int \<Rightarrow> int \<Rightarrow> int \<Rightarrow> int \<Rightarrow> ('t master, bytes) proc" where
  "copyCalPage L src_segment src_page dst_segment dst_page =
     req L COPY_CAL_PAGE [src_segment, src_page, dst_segment, dst_page]"

section \<open>DAQ commands\<close>

definition setDaqPtr :: "'t link \<Rightarrow> int \<Rightarrow> int \<Rightarrow> int \<Rightarrow> ('t master, bytes) proc" where
  "setDaqPtr L daq_list_number odt_number odt_entry_number =
     mthen (mput (\<lambda>m. m\<lparr>currentDaqPtr := Some (daq_list_number, odt_number, odt_entry_number)\<rparr>))
     (mbind (WORD_pack daq_list_number) (\<lambda>daq_list.
     mbind (req L SET_DAQ_PTR (0 # daq_list @ [odt_number, odt_entry_number])) (\<lambda>response.
     mthen (stim (StimSetDaqPtr daq_list_number odt_number odt_entry_number))
     (mret response))))"

definition clearDaqList :: "'t link \<Rightarrow> int \<Rightarrow> ('t master, bytes) proc" where
  "clearDaqList L daq_list_number =
     mbind (WORD_pack daq_list_number) (\<lambda>daq_list.
     mbind (req L CLEAR_DAQ_LIST (0 # daq_list)) (\<lambda>result.
     mthen (stim (StimClearDaqList daq_list_number))
     (mret result)))"

definition writeDaq :: "'t link \<Rightarrow> int \<Rightarrow> int \<Rightarrow> int \<Rightarrow> int \<Rightarrow> ('t master, bytes) proc" where
  "writeDaq L bit_offset entry_size address_ext address =
     mbind (DWORD_pack address) (\<lambda>addr.
     mbind (req L WRITE_DAQ ([bit_offset, entry_size, address_ext] @ addr)) (\<lambda>result.
     mthen (stim (StimWriteDaq bit_offset entry_size address_ext address))
     (mret result)))"

definition setDaqListMode :: "'t link \<Rightarrow> int \<Rightarrow> int \<Rightarrow> int \<Rightarrow> int \<Rightarrow> int \<Rightarrow> ('t master, bytes) proc" where
  "setDaqListMode L mode daq_list_number event_channel_number prescaler priority =
     mbind (WORD_pack daq_list_number) (\<lambda>dln.
     mbind (WORD_pack event_channel_number) (\<lambda>ecn.
     mthen (stim (StimSetDaqListMode mode daq_list_number event_channel_number prescaler priority))
     (req L SET_DAQ_LIST_MODE (mode # dln @ ecn @ [prescaler, priority]))))"

definition getDaqListMode :: "'t link \<Rightarrow> 'v parsers \<Rightarrow> int \<Rightarrow> ('t master, 'v) proc" where
  "getDaqListMode L P daq_list_number =
     mbind (WORD_pack daq_list_number) (\<lambda>dln.
     mbind (req L GET_DAQ_LIST_MODE (0 # dln)) (\<lambda>response.
     parsed (parse_value P ''GetDaqListModeResponse'') response))"

definition startStopDaqList :: "'t link \<Rightarrow> 'v parsers \<Rightarrow> int \<Rightarrow> int \<Rightarrow> ('t master, int) proc" where
  "startStopDaqList L P mode daq_list_number =
     mbind (WORD_pack daq_list_number) (\<lambda>dln.
     mbind (req L START_STOP_DAQ_LIST (mode # dln)) (\<lambda>response.
     mthen (stim (StimStartStopDaqList mode daq_list_number))
     (mbind (parsed (parse_StartStopDaqListResponse P) response) (\<lambda>first_pid.
     mthen (stim (StimSetFirstPid daq_list_number first_pid))
     (mret first_pid)))))"

definition startStopSynch :: "'t link \<Rightarrow> int \<Rightarrow> ('t master, bytes) proc" where
  "startStopSynch L mode =
     mbind (req L START_STOP_SYNCH [mode]) (\<lambda>res.
     mthen (stim (StimStartStopSynch mode))
     (mret res))"

text \<open>An element is bit offset, size, address, address extension.\<close>

definition writeDaqMultiple ::
  "'t link \<Rightarrow> 'v parsers \<Rightarrow> (int \<times> int \<times> int \<times> int) list \<Rightarrow> ('t master, bytes) proc" where
  "writeDaqMultiple L P daq_elements =
     mbind (attr sp_maxWriteDaqMultipleElements) (\<lambda>limit.
     if int (length daq_elements) > limit then mraise ValueError
     else
       mbind (byte_item (int (length daq_elements))) (\<lambda>count.
       mbind (mmap (\<lambda>e. parsed (\<lambda>bo _. ints (build_DaqElement P bo e)) []) daq_elements) (\<lambda>items.
       req L WRITE_DAQ_MULTIPLE (count @ concat items))))"

definition readDaq :: "'t link \<Rightarrow> 'v parsers \<Rightarrow> ('t master, 'v) proc" where
  "readDaq L P =
     mbind (req L READ_DAQ []) (\<lambda>response. parsed (parse_value P ''ReadDaqResponse'') response)"

definition getDaqProcessorInfo :: "'t link \<Rightarrow> 'v parsers \<Rightarrow> ('t master, 'v) proc" where
  "getDaqProcessorInfo L P =
     mbind (req L GET_DAQ_PROCESSOR_INFO []) (\<lambda>response.
     parsed (parse_value P ''GetDaqProcessorInfoResponse'') response)"

definition getDaqResolutionInfo :: "'t link \<Rightarrow> 'v parsers \<Rightarrow> ('t master, 'v) proc" where
  "getDaqResolutionInfo L P =
     mbind (req L GET_DAQ_RESOLUTION_INFO []) (\<lambda>response.
     parsed (parse_value P ''GetDaqResolutionInfoResponse'') response)"

definition getDaqListInfo :: "'t link \<Rightarrow> 'v parsers \<Rightarrow> int \<Rightarrow> ('t master, 'v) proc" where
  "getDaqListInfo L P daq_list_number =
     mbind (WORD_pack daq_list_number) (\<lambda>dln.
     mbind (req L GET_DAQ_LIST_INFO (0 # dln)) (\<lambda>response.
     parsed (parse_value P ''GetDaqListInfoResponse'') response))"

definition getDaqEventInfo :: "'t link \<Rightarrow> 'v parsers \<Rightarrow> int \<Rightarrow> ('t master, 'v) proc" where
  "getDaqEventInfo L P event_channel_number =
     mbind (WORD_pack event_channel_number) (\<lambda>ecn.
     mbind (req L GET_DAQ_EVENT_INFO (0 # ecn)) (\<lambda>response.
     parsed (parse_value P ''GetEventChannelInfoResponse'') response))"

definition dtoCtrProperties ::
  "'t link \<Rightarrow> 'v parsers \<Rightarrow> int \<Rightarrow> int \<Rightarrow> int \<Rightarrow> int \<Rightarrow> ('t master, 'v) proc" where
  "dtoCtrProperties L P modifier event_channel related_event_channel mode =
     mbind (byte_item modifier) (\<lambda>md.
     mbind (WORD_pack event_channel) (\<lambda>ec.
     mbind (WORD_pack related_event_channel) (\<lambda>rec.
     mbind (byte_item mode) (\<lambda>mo.
     mbind (req L DTO_CTR_PROPERTIES (md @ ec @ rec @ mo)) (\<lambda>response.
     parsed (parse_value P ''DtoCtrPropertiesResponse'') response)))))"

definition setDaqPackedMode ::
  "'t link \<Rightarrow> int \<Rightarrow> DaqPackedModeType \<Rightarrow> int \<Rightarrow> int \<Rightarrow> ('t master, bytes) proc" where
  "setDaqPackedMode L daq_list_number daq_packed_mode dpm_timestamp_mode dpm_sample_count =
     mbind (WORD_pack daq_list_number) (\<lambda>dln.
     mbind (byte_item (packed_mode_value daq_packed_mode)) (\<lambda>pm.
     mbind (if daq_packed_mode = NOT_PACKED then mret []
            else mbind (byte_item dpm_timestamp_mode) (\<lambda>tm.
                 mbind (WORD_pack dpm_sample_count) (\<lambda>dsc. mret (tm @ dsc)))) (\<lambda>packed.
     req L SET_DAQ_PACKED_MODE (dln @ pm @ packed))))"

definition getDaqPackedMode :: "'t link \<Rightarrow> 'v parsers \<Rightarrow> int \<Rightarrow> ('t master, 'v) proc" where
  "getDaqPackedMode L P daq_list_number =
     mbind (WORD_pack daq_list_number) (\<lambda>dln.
     mbind (req L GET_DAQ_PACKED_MODE dln) (\<lambda>response.
     parsed (parse_value P ''GetDaqPackedModeResponse'') response))"

definition freeDaq :: "'t link \<Rightarrow> ('t master, bytes) proc" where
  "freeDaq L =
     mbind (req L FREE_DAQ []) (\<lambda>result.
     mthen (stim StimFreeDaq)
     (mret result))"

definition allocDaq :: "'t link \<Rightarrow> int \<Rightarrow> ('t master, bytes) proc" where
  "allocDaq L daq_count =
     mbind (WORD_pack daq_count) (\<lambda>dq.
     mbind (req L ALLOC_DAQ (0 # dq)) (\<lambda>result.
     mthen (stim (StimAllocDaq daq_count))
     (mret result)))"

definition allocOdt :: "'t link \<Rightarrow> int \<Rightarrow> int \<Rightarrow> ('t master, bytes) proc" where
  "allocOdt L daq_list_number odt_count =
     mbind (WORD_pack daq_list_number) (\<lambda>dln.
     mbind (req L ALLOC_ODT (0 # dln @ [odt_count])) (\<lambda>result.
     mthen (stim (StimAllocOdt daq_list_number odt_count))
     (mret result)))"

definition allocOdtEntry :: "'t link \<Rightarrow> int \<Rightarrow> int \<Rightarrow> int \<Rightarrow> ('t master, bytes) proc" where
  "allocOdtEntry L daq_list_number odt_number odt_entries_count =
     mbind (WORD_pack daq_list_number) (\<lambda>dln.
     mbind (req L ALLOC_ODT_ENTRY (0 # dln @ [odt_number, odt_entries_count])) (\<lambda>result.
     mthen (stim (StimAllocOdtEntry daq_list_number odt_number odt_entries_count))
     (mret result)))"

section \<open>Programming commands\<close>

definition programStart :: "'t link \<Rightarrow> 'v parsers \<Rightarrow> ('t master, ProgramStartResponse) proc" where
  "programStart L P =
     mbind (req L PROGRAM_START []) (\<lambda>response.
     mbind (parsed (parse_ProgramStartResponse P) response) (\<lambda>result.
     mthen (mput (\<lambda>m. m\<lparr>slaveProperties := (slaveProperties m)\<lparr>sp_pgmProcessor :=
         (sp_pgmProcessor (slaveProperties m))
           \<lparr>pgm_commModePgm := Some (ps_commModePgm result), pgm_maxCtoPgm := Some (ps_maxCtoPgm result),
            pgm_maxBsPgm := Some (ps_maxBsPgm result), pgm_minStPgm := Some (ps_minStPgm result),
            pgm_queueSizePgm := Some (ps_queueSizePgm result),
            pgm_slave_block := Some (pgm_slaveBlockMode (ps_commModePgm result)),
            pgm_interleaved := Some (pgm_interleavedMode (ps_commModePgm result)),
            pgm_master_block := Some (pgm_masterBlockMode (ps_commModePgm result))\<rparr>\<rparr>\<rparr>))
     (mret result)))"

definition programClear :: "'t link \<Rightarrow> int \<Rightarrow> int \<Rightarrow> ('t master, bytes) proc" where
  "programClear L mode clear_range =
     mbind (DWORD_pack clear_range) (\<lambda>cr.
     req L PROGRAM_CLEAR ([mode, 0, 0] @ cr))"

definition program :: "'t link \<Rightarrow> int list \<Rightarrow> int \<Rightarrow> bool \<Rightarrow> ('t master, bytes option) proc" where
  "program L data block_length last_packet =
     (if last_packet then mbind (req L PROGRAM (block_length # data)) (\<lambda>response. mret (Some response))
      else mthen (block_req L PROGRAM (block_length # data)) (mret None))"

definition programReset :: "'t link \<Rightarrow> bool \<Rightarrow> ('t master, bytes option) proc" where
  "programReset L wait_for_optional_response =
     (if wait_for_optional_response then req_optional L PROGRAM_RESET []
      else mbind (req L PROGRAM_RESET []) (\<lambda>response. mret (Some response)))"

definition getPgmProcessorInfo :: "'t link \<Rightarrow> 'v parsers \<Rightarrow> ('t master, GetPgmProcessorInfoResponse) proc" where
  "getPgmProcessorInfo L P =
     mbind (req L GET_PGM_PROCESSOR_INFO []) (\<lambda>response.
     mbind (parsed (parse_GetPgmProcessorInfoResponse P) response) (\<lambda>result.
     mthen (mput (\<lambda>m. m\<lparr>slaveProperties := (slaveProperties m)\<lparr>sp_pgmProcessor :=
         (sp_pgmProcessor (slaveProperties m))
           \<lparr>pgm_pgmProperties := Some (pi_pgmProperties result), pgm_maxSector := Some (pi_maxSector result)\<rparr>\<rparr>\<rparr>))
     (mret result)))"

datatype sector_info = SectorMode01 GetSectorInfoResponseMode01 | SectorMode2 int | SectorNone

definition getSectorInfo :: "'t link \<Rightarrow> 'v parsers \<Rightarrow> int \<Rightarrow> int \<Rightarrow> ('t master, sector_info) proc" where
  "getSectorInfo L P mode sector_number =
     mbind (req L GET_SECTOR_INFO [mode, sector_number]) (\<lambda>response.
     if mode = 0 \<or> mode = 1 then
       mbind (parsed (parse_GetSectorInfoResponseMode01 P) response) (\<lambda>r. mret (SectorMode01 r))
     else if mode = 2 then
       mbind (parsed (parse_GetSectorInfoResponseMode2 P) response) (\<lambda>r. mret (SectorMode2 r))
     else mret SectorNone)"

definition programPrepare :: "'t link \<Rightarrow> int \<Rightarrow> ('t master, bytes) proc" where
  "programPrepare L codesize =
     mbind (WORD_pack codesize) (\<lambda>cs. req L PROGRAM_PREPARE (0 # cs))"

definition programFormat :: "'t link \<Rightarrow> int \<Rightarrow> int \<Rightarrow> int \<Rightarrow> int \<Rightarrow> ('t master, bytes) proc" where
  "programFormat L compression_method encryption_method programming_method access_method =
     req L PROGRAM_FORMAT [compression_method, encryption_method, programming_method, access_method]"

definition programNext :: "'t link \<Rightarrow> int list \<Rightarrow> int \<Rightarrow> bool \<Rightarrow> ('t master, bytes option) proc" where
  "programNext L data remaining_block_length last_packet =
     (if last_packet then
        mbind (req L PROGRAM_NEXT (remaining_block_length # data)) (\<lambda>response. mret (Some response))
      else mthen (block_req L PROGRAM_NEXT (remaining_block_length # data)) (mret None))"

definition programMax :: "'t link \<Rightarrow> int list \<Rightarrow> ('t master, bytes) proc" where
  "programMax L data =
     mbind (attr sp_addressGranularity) (\<lambda>ag.
     let alignment = (case ag of AG_WORD \<Rightarrow> [0] | AG_DWORD \<Rightarrow> [0, 0, 0] | _ \<Rightarrow> []) in
     mbind (mmap AG_pack data) (\<lambda>items.
     req L PROGRAM_MAX (alignment @ concat items)))"

definition programVerify :: "'t link \<Rightarrow> int \<Rightarrow> int \<Rightarrow> int \<Rightarrow> ('t master, bytes) proc" where
  "programVerify L ver_mode ver_type ver_value =
     mbind (WORD_pack ver_type) (\<lambda>t.
     mbind (DWORD_pack ver_value) (\<lambda>v.
     req L PROGRAM_VERIFY (ver_mode # t @ v)))"

section \<open>Debug commands\<close>

definition dbgAttach :: "'t link \<Rightarrow> 'v parsers \<Rightarrow> ('t master, 'v) proc" where
  "dbgAttach L P =
     mbind (req L DBG_ATTACH []) (\<lambda>response. parsed (parse_value P ''DbgAttachResponse'') response)"

definition dbgGetVendorInfo :: "'t link \<Rightarrow> 'v parsers \<Rightarrow> ('t master, 'v) proc" where
  "dbgGetVendorInfo L P =
     mbind (req L DBG_GET_VENDOR_INFO []) (\<lambda>response.
     parsed (parse_value P ''DbgGetVendorInfoResponse'') response)"

definition dbgGetModeInfo :: "'t link \<Rightarrow> 'v parsers \<Rightarrow> ('t master, 'v) proc" where
  "dbgGetModeInfo L P =
     mbind (req L DBG_GET_MODE_INFO []) (\<lambda>response.
     parsed (parse_value P ''DbgGetModeInfoResponse'') response)"

definition dbgGetJtagId :: "'t link \<Rightarrow> 'v parsers \<Rightarrow> ('t master, 'v) proc" where
  "dbgGetJtagId L P =
     mbind (req L DBG_GET_JTAG_ID []) (\<lambda>response.
     parsed (parse_value P ''DbgGetJtagIdResponse'') response)"

definition dbgHaltAfterReset :: "'t link \<Rightarrow> ('t master, bytes) proc" where
  "dbgHaltAfterReset L = req L DBG_HALT_AFTER_RESET []"

definition dbgGetHwioInfo :: "'t link \<Rightarrow> 'v parsers \<Rightarrow> int \<Rightarrow> ('t master, 'v) proc" where
  "dbgGetHwioInfo L P index =
     mbind (req L DBG_GET_HWIO_INFO [index]) (\<lambda>response.
     parsed (parse_value P ''DbgGetHwioInfoResponse'') response)"

definition dbgSetHwioEvent :: "'t link \<Rightarrow> int \<Rightarrow> int \<Rightarrow> ('t master, bytes) proc" where
  "dbgSetHwioEvent L index trigger = req L DBG_SET_HWIO_EVENT [index, trigger]"

text \<open>A pin is index, state, frequency.\<close>

definition dbgHwioControl :: "'t link \<Rightarrow> 'v parsers \<Rightarrow> (int \<times> int \<times> int) list \<Rightarrow> ('t master, 'v) proc" where
  "dbgHwioControl L P pins =
     mbind (BYTE_pack (int (length pins))) (\<lambda>count.
     mbind (mmap (\<lambda>(index, state, frequency).
         mbind (BYTE_pack index) (\<lambda>i.
         mbind (BYTE_pack state) (\<lambda>s.
         mbind (WORD_pack frequency) (\<lambda>f. mret (i @ s @ f))))) pins) (\<lambda>items.
     mbind (req L DBG_HWIO_CONTROL (count @ concat items)) (\<lambda>response.
     parsed (parse_value P ''DbgHwioControlResponse'') response)))"

definition dbgExclusiveTargetAccess :: "'t link \<Rightarrow> int \<Rightarrow> int \<Rightarrow> ('t master, bytes) proc" where
  "dbgExclusiveTargetAccess L mode context_id = req L DBG_EXCLUSIVE_TARGET_ACCESS [mode, context_id]"

datatype seq_item = SeqBytes bytes | SeqByte int

definition dbgSequenceMultiple :: "'t link \<Rightarrow> 'v parsers \<Rightarrow> int \<Rightarrow> int \<Rightarrow> seq_item list \<Rightarrow> ('t master, 'v) proc" where
  "dbgSequenceMultiple L P mode num seq =
     mbind (byte_item mode) (\<lambda>md.
     mbind (WORD_pack num) (\<lambda>n.
     mbind (mmap (\<lambda>s. case s of SeqBytes bs \<Rightarrow> mret (map uint bs) | SeqByte b \<Rightarrow> byte_item b) seq) (\<lambda>items.
     mbind (req L DBG_SEQUENCE_MULTIPLE (md @ n @ concat items)) (\<lambda>response.
     parsed (parse_value P ''DbgSequenceMultipleResponse'') response))))"

definition dbgLlt :: "'t link \<Rightarrow> 'v parsers \<Rightarrow> int \<Rightarrow> int \<Rightarrow> int list \<Rightarrow> ('t master, 'v) proc" where
  "dbgLlt L P num mode llts =
     mbind (req L DBG_LLT (num # mode # llts)) (\<lambda>response.
     parsed (parse_value P ''DbgLltResponse'') response)"

text \<open>The packing by element width that several commands repeat; another width packs nothing.\<close>

definition pack_width :: "int \<Rightarrow> int \<Rightarrow> ('t master, int list) proc" where
  "pack_width width v =
     (if width = 1 then BYTE_pack v else if width = 2 then WORD_pack v
      else if width = 4 then DWORD_pack v else if width = 8 then DLONG_pack v else mret [])"

definition dbgReadModifyWrite ::
  "'t link \<Rightarrow> 'v parsers \<Rightarrow> int \<Rightarrow> int \<Rightarrow> int \<Rightarrow> int \<Rightarrow> int \<Rightarrow> ('t master, 'v) proc" where
  "dbgReadModifyWrite L P tri width address mask_value data =
     mbind (byte_item tri) (\<lambda>t.
     mbind (byte_item width) (\<lambda>w.
     mbind (DLONG_pack address) (\<lambda>a.
     mbind (pack_width width mask_value) (\<lambda>mk.
     mbind (pack_width width data) (\<lambda>d.
     mbind (req L DBG_READ_MODIFY_WRITE ([0] @ t @ w @ [0, 0] @ a @ mk @ d)) (\<lambda>response.
     parsed (\<lambda>bo. parse_with_width P ''DbgReadModifyWriteResponse'' bo width) response))))))"

definition set_dbg_width :: "int \<Rightarrow> ('t master, unit) proc" where
  "set_dbg_width width = mput (\<lambda>m. m\<lparr>dbg_width := Some width\<rparr>)"

definition dbgWrite :: "'t link \<Rightarrow> int \<Rightarrow> int \<Rightarrow> int \<Rightarrow> int list \<Rightarrow> ('t master, bytes) proc" where
  "dbgWrite L tri width address data =
     mbind (byte_item tri) (\<lambda>t.
     mthen (set_dbg_width width)
     (mbind (byte_item width) (\<lambda>w.
     mbind (WORD_pack (int (length data))) (\<lambda>n.
     mbind (DLONG_pack address) (\<lambda>a.
     mbind (mmap (pack_width width) data) (\<lambda>items.
     req L DBG_WRITE ([0] @ t @ w @ n @ a @ concat items)))))))"

text \<open>\<open>data[i]\<close> for \<open>i\<close> in \<open>range(num)\<close>, packed by the width of the last command that set one.\<close>

definition pack_items :: "int \<Rightarrow> int list \<Rightarrow> ('t master, int list) proc" where
  "pack_items num data =
     mbind (mmap (\<lambda>i.
        mbind (mget dbg_width) (\<lambda>w.
        case w of
          None \<Rightarrow> mraise AttributeError
        | Some width \<Rightarrow>
            if width \<in> {1, 2, 4, 8} then
              mbind (mlift (py_index IndexError data (int i))) (\<lambda>v. pack_width width v)
            else mret [])) [0..<nat num]) (\<lambda>items.
     mret (concat items))"

definition dbgWriteNext :: "'t link \<Rightarrow> int \<Rightarrow> int list \<Rightarrow> ('t master, bytes) proc" where
  "dbgWriteNext L num data =
     mbind (WORD_pack num) (\<lambda>n.
     mbind (pack_items num data) (\<lambda>items.
     req L DBG_WRITE_NEXT ([0] @ n @ [0, 0] @ items)))"

definition dbgWriteCan1 :: "'t link \<Rightarrow> int \<Rightarrow> int \<Rightarrow> ('t master, bytes) proc" where
  "dbgWriteCan1 L tri address =
     mbind (BYTE_pack tri) (\<lambda>t.
     mbind (DWORD_pack address) (\<lambda>a.
     req L DBG_WRITE_CAN1 (t @ a)))"

definition dbgWriteCan2 :: "'t link \<Rightarrow> int \<Rightarrow> int \<Rightarrow> ('t master, bytes) proc" where
  "dbgWriteCan2 L width num =
     mthen (set_dbg_width width)
     (mbind (byte_item width) (\<lambda>w.
     mbind (BYTE_pack num) (\<lambda>n.
     req L DBG_WRITE_CAN2 (w @ n))))"

definition dbgWriteCanNext :: "'t link \<Rightarrow> int \<Rightarrow> int list \<Rightarrow> ('t master, bytes) proc" where
  "dbgWriteCanNext L num data =
     mbind (BYTE_pack num) (\<lambda>n.
     mbind (pack_items num data) (\<lambda>items.
     req L DBG_WRITE_CAN_NEXT (n @ items)))"

definition dbgRead :: "'t link \<Rightarrow> 'v parsers \<Rightarrow> int \<Rightarrow> int \<Rightarrow> int \<Rightarrow> int \<Rightarrow> ('t master, 'v) proc" where
  "dbgRead L P tri width num address =
     mbind (BYTE_pack tri) (\<lambda>t.
     mthen (set_dbg_width width)
     (mbind (BYTE_pack width) (\<lambda>w.
     mbind (WORD_pack num) (\<lambda>n.
     mbind (DLONG_pack address) (\<lambda>a.
     mbind (req L DBG_READ ([0] @ t @ w @ n @ a)) (\<lambda>response.
     parsed (\<lambda>bo. parse_with_width P ''DbgReadResponse'' bo width) response))))))"

definition dbgReadCan1 :: "'t link \<Rightarrow> int \<Rightarrow> int \<Rightarrow> ('t master, bytes) proc" where
  "dbgReadCan1 L tri address =
     mbind (BYTE_pack tri) (\<lambda>t.
     mbind (DWORD_pack address) (\<lambda>a.
     req L DBG_READ_CAN1 (t @ a)))"

definition dbgReadCan2 :: "'t link \<Rightarrow> int \<Rightarrow> int \<Rightarrow> ('t master, bytes) proc" where
  "dbgReadCan2 L width num =
     mthen (set_dbg_width width)
     (mbind (BYTE_pack width) (\<lambda>w.
     mbind (BYTE_pack num) (\<lambda>n.
     req L DBG_READ_CAN2 (w @ n))))"

definition dbgLlbt :: "'t link \<Rightarrow> 'v parsers \<Rightarrow> int list \<Rightarrow> ('t master, 'v) proc" where
  "dbgLlbt L P data =
     mbind (WORD_pack (int (length data))) (\<lambda>n.
     mbind (mmap BYTE_pack data) (\<lambda>items.
     mbind (req L DBG_LLBT ([0] @ n @ concat items)) (\<lambda>response.
     parsed (parse_value P ''DbgLlbtResponse'') response)))"

section \<open>Transport layer commands\<close>

text \<open>They call the decorated \<open>transportLayerCmd\<close>, a parameter; a missing response is parsed as an empty one.\<close>

definition optional_content :: "bytes option \<Rightarrow> bytes" where
  "optional_content r = (case r of None \<Rightarrow> [] | Some c \<Rightarrow> c)"

definition getSlaveID ::
  "(int \<Rightarrow> int list \<Rightarrow> ('t master, bytes option) proc) \<Rightarrow> 'v parsers \<Rightarrow> int \<Rightarrow> ('t master, 'v) proc" where
  "getSlaveID tlc P mode =
     mbind (tlc GET_SLAVE_ID [0x58, 0x43, 0x50, mode]) (\<lambda>response.
     parsed (parse_value P ''GetSlaveIdResponse'') (optional_content response))"

definition getDaqId ::
  "(int \<Rightarrow> int list \<Rightarrow> ('t master, bytes option) proc) \<Rightarrow> 'v parsers \<Rightarrow> int \<Rightarrow> ('t master, 'v) proc" where
  "getDaqId tlc P daq_list_number =
     mbind (WORD_pack daq_list_number) (\<lambda>dln.
     mbind (tlc GET_DAQ_ID dln) (\<lambda>response.
     parsed (parse_value P ''GetDaqIdResponse'') (optional_content response)))"

definition setDaqId ::
  "(int \<Rightarrow> int list \<Rightarrow> ('t master, bytes option) proc) \<Rightarrow> int \<Rightarrow> int \<Rightarrow> ('t master, bytes option) proc" where
  "setDaqId tlc daq_list_number identifier =
     mbind (WORD_pack daq_list_number) (\<lambda>dln.
     mbind (DWORD_pack identifier) (\<lambda>idn.
     tlc SET_DAQ_ID (dln @ idn)))"

section \<open>Lemmas\<close>

subsection \<open>Invariants of the master\<close>

text \<open>What a procedure keeps on every outcome.\<close>

definition preserves :: "('s \<Rightarrow> bool) \<Rightarrow> ('s, 'a) proc \<Rightarrow> bool" where
  "preserves I p \<longleftrightarrow> (\<forall>s r s'. I s \<longrightarrow> p s = Some (r, s') \<longrightarrow> I s')"

named_theorems preserves_rules

lemma preserves_basic [preserves_rules]:
  "preserves I (mret x)" "preserves I (mraise e)" "preserves I (mlift r)" "preserves I (mget f)"
  by (simp_all add: preserves_def)

lemma preserves_bind [preserves_rules]:
  assumes "preserves I p" and "\<And>x. preserves I (f x)"
  shows "preserves I (mbind p f)"
  unfolding preserves_def
proof (intro allI impI)
  fix s r s'
  assume I: "I s" and run: "mbind p f s = Some (r, s')"
  show "I s'"
  proof (cases "p s")
    case (Some o')
    obtain v u where o': "o' = (v, u)" by (cases o')
    have u: "I u" using assms(1) I Some o' by (auto simp: preserves_def)
    show ?thesis
      using run Some o' u assms(2) by (cases v) (auto simp: mbind_def preserves_def)
  qed (use run in \<open>simp add: mbind_def\<close>)
qed

lemma preserves_then [preserves_rules]: "preserves I p \<Longrightarrow> preserves I q \<Longrightarrow> preserves I (mthen p q)"
  by (simp add: mthen_def preserves_bind)

lemma preserves_map [preserves_rules]:
  assumes "\<And>x. preserves I (f x)" shows "preserves I (mmap f xs)"
  by (induction xs) (simp_all only: mmap.simps preserves_rules assms)

lemma preserves_if [preserves_rules]:
  "preserves I p \<Longrightarrow> preserves I q \<Longrightarrow> preserves I (if b then p else q)"
  by simp

lemma preserves_let [preserves_rules]: "(\<And>x. preserves I (f x)) \<Longrightarrow> preserves I (let x = v in f x)"
  by simp

lemma preserves_case [preserves_rules]:
  "preserves I p \<Longrightarrow> (\<And>x. preserves I (f x)) \<Longrightarrow> preserves I (case v of None \<Rightarrow> p | Some x \<Rightarrow> f x)"
  "(\<And>a b. preserves I (h a b)) \<Longrightarrow> preserves I (case w of (a, b) \<Rightarrow> h a b)"
  "preserves I p \<Longrightarrow> (\<And>x xs. preserves I (g x xs)) \<Longrightarrow> preserves I (case l of [] \<Rightarrow> p | x # xs \<Rightarrow> g x xs)"
  "preserves I p \<Longrightarrow> preserves I q \<Longrightarrow> preserves I (case b of True \<Rightarrow> p | False \<Rightarrow> q)"
  by (auto split: option.split prod.split list.split bool.split)

lemma preserves_seq_item [preserves_rules]:
  "(\<And>bs. preserves I (f bs)) \<Longrightarrow> (\<And>b. preserves I (g b)) \<Longrightarrow>
     preserves I (case s of SeqBytes bs \<Rightarrow> f bs | SeqByte b \<Rightarrow> g b)"
  by (cases s) auto

text \<open>
  The packers belong to the byte order of the slave's properties, the codec of elements and the bytes
  per element to the address granularity, and the number of elements of WRITE_DAQ_MULTIPLE to MAX_CTO.
\<close>

definition granularity_bytes :: "AddressGranularity \<Rightarrow> int option" where
  "granularity_bytes ag = (case ag of AG_BYTE \<Rightarrow> Some 1 | AG_WORD \<Rightarrow> Some 2 | AG_DWORD \<Rightarrow> Some 4 | AG_RESERVED \<Rightarrow> None)"

definition consistent :: "'t master \<Rightarrow> bool" where
  "consistent m =
     (let sp = slaveProperties m
      in packers m = map_option byte_order_prefix (sp_byteOrder sp)
       \<and> sp_bytesPerElement sp = map_option granularity_bytes (sp_addressGranularity sp)
       \<and> sp_maxWriteDaqMultipleElements sp =
           map_option (\<lambda>c. if c < 10 then 0 else (c - 2) div 8) (sp_maxCto sp)
       \<and> (sp_addressGranularity sp = Some AG_BYTE \<longrightarrow> ag_codec m = Some (Little, 1))
       \<and> (sp_addressGranularity sp = Some AG_WORD \<longrightarrow> ag_codec m = map_option (\<lambda>b. (b, 2)) (packers m))
       \<and> (sp_addressGranularity sp = Some AG_DWORD \<longrightarrow> ag_codec m = map_option (\<lambda>b. (b, 4)) (packers m))
       \<and> (sp_byteOrder sp = None \<longleftrightarrow> sp_addressGranularity sp = None))"

lemma consistent_updates [simp]:
  "consistent (m\<lparr>tl := t\<rparr>) = consistent m" "consistent (m\<lparr>mta_addr := a\<rparr>) = consistent m"
  "consistent (m\<lparr>currentDaqPtr := d\<rparr>) = consistent m" "consistent (m\<lparr>currentProtectionStatus := p\<rparr>) = consistent m"
  "consistent (m\<lparr>dbg_width := w\<rparr>) = consistent m" "consistent (m\<lparr>stim_calls := c\<rparr>) = consistent m"
  "consistent (m\<lparr>suppress_error_log := b\<rparr>) = consistent m"
  "consistent (m\<lparr>time_correlation_properties := q\<rparr>) = consistent m"
  by (simp_all add: consistent_def Let_def)

lemma consistent_info [simp]:
  "consistent (m\<lparr>slaveProperties := update_comm_mode_properties r (slaveProperties m)\<rparr>) = consistent m"
  "consistent (m\<lparr>slaveProperties := update_version_properties v (slaveProperties m)\<rparr>) = consistent m"
  "consistent (m\<lparr>slaveProperties := (slaveProperties m)\<lparr>sp_pgmProcessor := p\<rparr>\<rparr>) = consistent m"
  by (simp_all add: consistent_def Let_def update_comm_mode_properties_def update_version_properties_def)

lemma consistent_setup:
  "consistent (setup_address_granularity (setup_packers_and_unpackers bo
     (m\<lparr>slaveProperties := setup_slave_properties r bo (slaveProperties m)\<rparr>)))"
  by (cases "granularity (cr_commModeBasic r)")
    (simp_all add: consistent_def setup_address_granularity_def setup_packers_and_unpackers_def
      setup_slave_properties_def granularity_bytes_def Let_def)

lemma preserves_consistent [preserves_rules]:
  "preserves consistent (via p)"
  "preserves consistent (mput (\<lambda>m. m\<lparr>mta_addr := a m\<rparr>))"
  "preserves consistent (mput (\<lambda>m. m\<lparr>currentDaqPtr := d m\<rparr>))"
  "preserves consistent (mput (\<lambda>m. m\<lparr>currentProtectionStatus := c m\<rparr>))"
  "preserves consistent (mput (\<lambda>m. m\<lparr>dbg_width := w m\<rparr>))"
  "preserves consistent (mput (\<lambda>m. m\<lparr>stim_calls := sc m\<rparr>))"
  "preserves consistent (mput (\<lambda>m. m\<lparr>slaveProperties := update_comm_mode_properties r (slaveProperties m)\<rparr>))"
  "preserves consistent (mput (\<lambda>m. m\<lparr>slaveProperties := update_version_properties v (slaveProperties m)\<rparr>))"
  "preserves consistent (mput (\<lambda>m. m\<lparr>slaveProperties := (slaveProperties m)\<lparr>sp_pgmProcessor := pg m\<rparr>\<rparr>))"
  by (auto simp: preserves_def via_def)

lemmas building_blocks = req_def req_optional_def block_req_def attr_def bytes_per_element_def pack_with_def
  BYTE_pack_def WORD_pack_def DWORD_pack_def DLONG_pack_def AG_pack_def DWORD_unpack_def parsed_def
  byte_item_def stim_def setProtectionStatus_def set_dbg_width_def pack_width_def pack_items_def

lemma preserves_blocks [preserves_rules]:
  "preserves consistent (req L c d)" "preserves consistent (req_optional L c d)"
  "preserves consistent (block_req L c d)" "preserves consistent (attr f)"
  "preserves consistent bytes_per_element" "preserves consistent (BYTE_pack v)"
  "preserves consistent (WORD_pack v)" "preserves consistent (DWORD_pack v)"
  "preserves consistent (DLONG_pack v)" "preserves consistent (AG_pack v)"
  "preserves consistent (DWORD_unpack bs)" "preserves consistent (parsed p r)"
  "preserves consistent (byte_item v)" "preserves consistent (stim sc)"
  "preserves consistent (setProtectionStatus pr)" "preserves consistent (set_dbg_width w)"
  "preserves consistent (pack_width w v)" "preserves consistent (pack_items n ds)"
  unfolding building_blocks by (intro preserves_rules)+

lemma connect_consistent: "preserves consistent (connect L P mode)"
proof -
  have "preserves consistent
      (mthen (mput (\<lambda>m. m\<lparr>slaveProperties := setup_slave_properties r bo (slaveProperties m)\<rparr>))
      (mthen (mput (setup_packers_and_unpackers bo)) (mthen (mput setup_address_granularity) (mret r))))" for r bo
    by (simp add: preserves_def consistent_setup)
  then show ?thesis unfolding connect_def Let_def by (intro preserves_bind preserves_basic preserves_blocks)
qed

lemmas std_commands = disconnect_def getStatus_def synch_def getCommModeInfo_def getId_def setRequest_def
  getSeed_def unlock_def setMta_def upload_def shortUpload_def buildChecksum_def transportLayerCmd_def
  userCmd_def getVersion_def
lemmas cal_commands = download_def downloadNext_def downloadMax_def shortDownload_def modifyBits_def
  setCalPage_def getCalPage_def getPagProcessorInfo_def getSegmentInfo_def getPageInfo_def
  setSegmentMode_def getSegmentMode_def copyCalPage_def
lemmas daq_commands = setDaqPtr_def clearDaqList_def writeDaq_def setDaqListMode_def getDaqListMode_def
  startStopDaqList_def startStopSynch_def writeDaqMultiple_def readDaq_def getDaqProcessorInfo_def
  getDaqResolutionInfo_def getDaqListInfo_def getDaqEventInfo_def dtoCtrProperties_def
  setDaqPackedMode_def getDaqPackedMode_def freeDaq_def allocDaq_def allocOdt_def allocOdtEntry_def
lemmas pgm_commands = programStart_def programClear_def program_def programReset_def
  getPgmProcessorInfo_def getSectorInfo_def programPrepare_def programFormat_def programNext_def
  programMax_def programVerify_def
lemmas dbg_commands = dbgAttach_def dbgGetVendorInfo_def dbgGetModeInfo_def dbgGetJtagId_def
  dbgHaltAfterReset_def dbgGetHwioInfo_def dbgSetHwioEvent_def dbgHwioControl_def
  dbgExclusiveTargetAccess_def dbgSequenceMultiple_def dbgLlt_def dbgReadModifyWrite_def dbgWrite_def
  dbgWriteNext_def dbgWriteCan1_def dbgWriteCan2_def dbgWriteCanNext_def dbgRead_def dbgReadCan1_def
  dbgReadCan2_def dbgLlbt_def

subsection \<open>Sizes of requests\<close>

definition packet_size :: "command \<Rightarrow> int list \<Rightarrow> nat" where
  "packet_size cmd data = length (serialize_cmd_value (word_of_int cmd)) + length data"

lemma packet_size_bounds:
  assumes "0 \<le> cmd"
  shows "cmd < 2 ^ 8 \<Longrightarrow> packet_size cmd data = 1 + length data"
    and "cmd < 2 ^ 16 \<Longrightarrow> packet_size cmd data \<le> 2 + length data"
    and "cmd < 2 ^ 24 \<Longrightarrow> packet_size cmd data \<le> 3 + length data"
proof -
  let ?w = "word_of_int cmd :: 32 word"
  have len: "length (serialize_cmd_value ?w) = byte_count ?w"
    using byte_count_bounds [of ?w] by (auto simp: serialize_cmd_value_def)
  have w: "unat ?w = nat cmd" if "cmd < 2 ^ 32"
    using assms that by (simp add: unsigned_of_int nat_take_bit_eq take_bit_nat_eq_self_iff nat_less_iff)
  show "cmd < 2 ^ 8 \<Longrightarrow> packet_size cmd data = 1 + length data"
    "cmd < 2 ^ 16 \<Longrightarrow> packet_size cmd data \<le> 2 + length data"
    "cmd < 2 ^ 24 \<Longrightarrow> packet_size cmd data \<le> 3 + length data"
    using byte_count_bounds [of ?w] len w by (auto simp: packet_size_def)
qed

text \<open>A transport that refuses requests of more than \<open>n\<close> bytes.\<close>

definition limited :: "nat \<Rightarrow> 't link \<Rightarrow> 't link" where
  "limited n L = L
     \<lparr>lk_request := (\<lambda>cmd data. if packet_size cmd data \<le> n then lk_request L cmd data else mraise FrameSizeError),
      lk_request_optional :=
        (\<lambda>cmd data. if packet_size cmd data \<le> n then lk_request_optional L cmd data else mraise FrameSizeError),
      lk_block_request :=
        (\<lambda>cmd data. if packet_size cmd data \<le> n then lk_block_request L cmd data else mraise FrameSizeError)\<rparr>"

lemma limited_fits:
  assumes "packet_size cmd data \<le> n"
  shows "req (limited n L) cmd data = req L cmd data" "req_optional (limited n L) cmd data = req_optional L cmd data"
    "block_req (limited n L) cmd data = block_req L cmd data"
  using assms by (simp_all add: req_def req_optional_def block_req_def limited_def)

lemma limited_small:
  assumes "0 \<le> cmd" and "cmd < 2 ^ 8 \<and> 1 + length data \<le> n \<or> cmd < 2 ^ 16 \<and> 2 + length data \<le> n
      \<or> cmd < 2 ^ 24 \<and> 3 + length data \<le> n"
  shows "req (limited n L) cmd data = req L cmd data" "req_optional (limited n L) cmd data = req_optional L cmd data"
    "block_req (limited n L) cmd data = block_req L cmd data"
proof -
  have "packet_size cmd data \<le> n" using packet_size_bounds [OF assms(1), of data] assms(2) by auto
  then show "req (limited n L) cmd data = req L cmd data"
    "req_optional (limited n L) cmd data = req_optional L cmd data"
    "block_req (limited n L) cmd data = block_req L cmd data"
    by (rule limited_fits)+
qed

text \<open>The values a procedure may return, for congruences that know the length of a packed value.\<close>

definition attained :: "('s, 'a) proc \<Rightarrow> 'a \<Rightarrow> bool" where
  "attained p x \<longleftrightarrow> (\<exists>s s'. p s = Some (Inr x, s'))"

definition may_return :: "('s, 'a) proc \<Rightarrow> 'a \<Rightarrow> bool" where
  "may_return p x \<longleftrightarrow> attained p x"

lemma mbind_cong:
  assumes "p = p'" and "\<And>x. may_return p' x = Q x" and "\<And>x. Q x \<Longrightarrow> f x = g x"
  shows "mbind p f = mbind p' g"
proof
  fix s
  show "mbind p f s = mbind p' g s"
  proof (cases "p' s")
    case (Some o')
    obtain v u where "o' = (v, u)" by (cases o')
    then show ?thesis
    proof (cases v)
      case (Inr x)
      then have "may_return p' x" using Some \<open>o' = (v, u)\<close> by (auto simp: may_return_def attained_def)
      then have "f x = g x" using assms(2,3) by simp
      then show ?thesis using Some \<open>o' = (v, u)\<close> Inr assms(1) by (simp add: mbind_def)
    qed (use Some assms(1) in \<open>simp add: mbind_def\<close>)
  qed (simp add: mbind_def assms(1))
qed

lemma attained_pack_with:
  assumes "attained (pack_with pk v :: ('t master, int list) proc) bs"
    and "\<And>ord xs. pk ord v = Inr xs \<Longrightarrow> length xs = n"
  shows "length bs = n"
proof -
  obtain s s' :: "'t master" where run: "pack_with pk v s = Some (Inr bs, s')"
    using assms(1) by (auto simp: attained_def)
  then obtain ord where "packers s = Some ord" by (cases "packers s") (simp_all add: pack_with_def)
  with run obtain xs where "pk ord v = Inr xs" "bs = map uint xs"
    by (cases "pk ord v") (auto simp: pack_with_def ints_def)
  then show ?thesis using assms(2) by simp
qed

lemma may_return_pack [simp]:
  fixes P1 P2 P4 P8 :: "int \<Rightarrow> ('t master, int list) proc"
  defines "P1 \<equiv> BYTE_pack" and "P2 \<equiv> WORD_pack" and "P4 \<equiv> DWORD_pack" and "P8 \<equiv> DLONG_pack"
  shows "may_return (P1 v) bs \<longleftrightarrow> length bs = 1 \<and> attained (P1 v) bs"
    "may_return (P2 v) bs \<longleftrightarrow> length bs = 2 \<and> attained (P2 v) bs"
    "may_return (P4 v) bs \<longleftrightarrow> length bs = 4 \<and> attained (P4 v) bs"
    "may_return (P8 v) bs \<longleftrightarrow> length bs = 8 \<and> attained (P8 v) bs"
  unfolding may_return_def P1_def P2_def P4_def P8_def BYTE_pack_def WORD_pack_def DWORD_pack_def DLONG_pack_def
  by (auto intro!: attained_pack_with simp: packer_defs dest: struct_pack_length)

lemma may_return_item [simp]:
  shows "may_return (byte_item v :: ('t master, int list) proc) xs \<longleftrightarrow>
      length xs = 1 \<and> attained (byte_item v :: ('t master, int list) proc) xs"
    "may_return (mlift (ints (struct_pack ord n v)) :: ('s, int list) proc) xs \<longleftrightarrow>
      length xs = n \<and> attained (mlift (ints (struct_pack ord n v)) :: ('s, int list) proc) xs"
  by (auto simp: may_return_def attained_def byte_item_def ints_def rbind_def
      dest: struct_pack_length split: if_splits sum.splits)

lemma attained_bind: "attained (mbind p f) y \<Longrightarrow> \<exists>x. attained (f x) y"
  by (auto simp: attained_def mbind_Some_iff)

lemma attained_lift: "attained (mlift r) y \<Longrightarrow> r = Inr y"
  by (auto simp: attained_def)

lemma attained_parsed: "attained (parsed p r) y \<Longrightarrow> \<exists>bo. p bo r = Inr y"
  unfolding parsed_def by (drule attained_bind) (auto simp: attained_def)

lemma mmap_lengths:
  assumes "mmap f xs s = Some (Inr ys, s')" and "\<And>x y. x \<in> set xs \<Longrightarrow> attained (f x) y \<Longrightarrow> length y = n"
  shows "length (concat ys) = n * length xs"
  using assms
proof (induction xs arbitrary: s ys)
  case (Cons x xs)
  from Cons.prems(1) obtain y s1 zs where "f x s = Some (Inr y, s1)" "mmap f xs s1 = Some (Inr zs, s')" "ys = y # zs"
    by (auto simp: mbind_def split: option.splits sum.splits prod.splits)
  moreover have "length y = n" using Cons.prems(2) calculation(1) by (auto simp: attained_def)
  moreover have "length (concat zs) = n * length xs"
    by (rule Cons.IH [OF calculation(2)]) (use Cons.prems(2) in auto)
  ultimately show ?case by simp
qed simp

subsection \<open>A concrete master\<close>

definition no_parsers :: "unit parsers" where
  "no_parsers = \<lparr>parse_ConnectResponsePartial = (\<lambda>_. Inl StreamError),
     parse_ConnectResponse = (\<lambda>_ _. Inl StreamError), parse_GetStatusResponse = (\<lambda>_ _. Inl StreamError),
     parse_GetCommModeInfoResponse = (\<lambda>_ _. Inl StreamError), parse_GetIDResponse = (\<lambda>_ _. Inl StreamError),
     parse_GetSeedResponse = (\<lambda>_ _. Inl StreamError), parse_ResourceType = (\<lambda>_ _. Inl StreamError),
     parse_BuildChecksumResponse = (\<lambda>_ _. Inl StreamError), parse_GetVersionResponse = (\<lambda>_ _. Inl StreamError),
     parse_GetPagProcessorInfoResponse = (\<lambda>_ _. Inl StreamError),
     parse_GetSegmentInfoMode0Response = (\<lambda>_ _. Inl StreamError),
     parse_GetSegmentInfoMode1Response = (\<lambda>_ _. Inl StreamError),
     parse_GetSegmentInfoMode2Response = (\<lambda>_ _. Inl StreamError), parse_GetPageInfoResponse = (\<lambda>_ _. Inl StreamError),
     parse_StartStopDaqListResponse = (\<lambda>_ _. Inl StreamError), parse_ProgramStartResponse = (\<lambda>_ _. Inl StreamError),
     parse_GetPgmProcessorInfoResponse = (\<lambda>_ _. Inl StreamError),
     parse_GetSectorInfoResponseMode01 = (\<lambda>_ _. Inl StreamError),
     parse_GetSectorInfoResponseMode2 = (\<lambda>_ _. Inl StreamError), parse_value = (\<lambda>_ _ _. Inl StreamError),
     parse_with_width = (\<lambda>_ _ _ _. Inl StreamError),
     build_DaqElement = (\<lambda>bo (o', s, a, e). Inr (replicate 8 (word_of_int s)))\<rparr>"

definition sample_connect :: ConnectResponse where
  "sample_connect = \<lparr>cr_resource = \<lparr>res_dbg = False, res_pgm = True, res_stim = False, res_daq = True, res_calpag = True\<rparr>,
     cr_commModeBasic = \<lparr>optional_info = False, slave_block = True, granularity = AG_BYTE, byte_order = INTEL\<rparr>,
     cr_maxCto = 32, cr_maxDto = 64, cr_protocolLayerVersion = 1, cr_transportLayerVersion = 1\<rparr>"

definition connected_master :: "'t \<Rightarrow> 't master" where
  "connected_master t =
     (let m = new_master ''usb'' False t
      in setup_address_granularity (setup_packers_and_unpackers INTEL
           (m\<lparr>slaveProperties := setup_slave_properties sample_connect INTEL (slaveProperties m)\<rparr>)))"

lemma connected_master_consistent: "consistent (connected_master t)"
  by (simp only: connected_master_def Let_def consistent_setup)

lemma connected_master_props [simp]:
  "sp_maxCto (slaveProperties (connected_master t)) = Some 32"
  "sp_bytesPerElement (slaveProperties (connected_master t)) = Some (Some 1)"
  "sp_slaveBlockMode (slaveProperties (connected_master t)) = Some True"
  "packers (connected_master t) = Some Little" "tl (connected_master t) = t"
  "transport_name (connected_master t) = ''usb''"
  by (simp_all add: connected_master_def Let_def setup_address_granularity_def setup_packers_and_unpackers_def
      setup_slave_properties_def sample_connect_def byte_order_prefix_def new_master_def)

section \<open>Properties\<close>


text \<open>
  The requests with a fixed list of parameters have at most 8 bytes, the least MAX_CTO a slave may
  report, whatever their arguments.
\<close>

theorem fixed_requests_fit:
  "connect (limited 8 L) P mode = connect L P mode
   \<and> disconnect (limited 8 L) = disconnect L \<and> getStatus (limited 8 L) P = getStatus L P
   \<and> synch (limited 8 L) = synch L \<and> getCommModeInfo (limited 8 L) P = getCommModeInfo L P
   \<and> getId (limited 8 L) P mode = getId L P mode \<and> setRequest (limited 8 L) mode n = setRequest L mode n
   \<and> getSeed (limited 8 L) P mode n = getSeed L P mode n \<and> setMta (limited 8 L) a e = setMta L a e
   \<and> shortUpload (limited 8 L) n a e = shortUpload L n a e
   \<and> buildChecksum (limited 8 L) P n = buildChecksum L P n \<and> getVersion (limited 8 L) P = getVersion L P
   \<and> modifyBits (limited 8 L) n a e = modifyBits L n a e
   \<and> setDaqPtr (limited 8 L) n a e = setDaqPtr L n a e \<and> writeDaq (limited 8 L) n i e a = writeDaq L n i e a
   \<and> setDaqListMode (limited 8 L) mode n i e a = setDaqListMode L mode n i e a
   \<and> dtoCtrProperties (limited 8 L) P n i e mode = dtoCtrProperties L P n i e mode
   \<and> setDaqPackedMode (limited 8 L) n pm i e = setDaqPackedMode L n pm i e
   \<and> allocDaq (limited 8 L) n = allocDaq L n \<and> allocOdt (limited 8 L) n i = allocOdt L n i
   \<and> allocOdtEntry (limited 8 L) n i e = allocOdtEntry L n i e
   \<and> programClear (limited 8 L) mode n = programClear L mode n
   \<and> programVerify (limited 8 L) mode n i = programVerify L mode n i
   \<and> dbgWriteCan1 (limited 8 L) n a = dbgWriteCan1 L n a \<and> dbgReadCan1 (limited 8 L) n a = dbgReadCan1 L n a"
  by (intro conjI)
    (simp_all add: connect_def std_commands modifyBits_def daq_commands programClear_def programVerify_def
      dbgWriteCan1_def dbgReadCan1_def limited_small mthen_def mbind_assoc cong: mbind_cong if_cong)

text \<open>
  On a consistent master WRITE_DAQ_MULTIPLE never exceeds the slave's MAX_CTO: an element takes 8
  bytes, and a list that would not fit is refused before anything is sent.
\<close>

theorem write_daq_multiple_fits:
  fixes m :: "'t master"
  assumes "consistent m" and "sp_maxCto (slaveProperties m) = Some c" and "2 \<le> c"
    and "\<forall>bo e bs. build_DaqElement P bo e = Inr bs \<longrightarrow> length bs = 8"
  shows "writeDaqMultiple (limited (nat c) L) P es m = writeDaqMultiple L P es m
    \<and> (c < 10 + 8 * (int (length es) - 1) \<and> es \<noteq> [] \<longrightarrow> writeDaqMultiple L P es m = Some (Inl ValueError, m))"
proof -
  let ?limit = "if c < 10 then 0 else (c - 2) div 8"
  have limit: "sp_maxWriteDaqMultipleElements (slaveProperties m) = Some ?limit"
    using assms(1,2) by (simp add: consistent_def Let_def)
  show ?thesis
  proof (cases "int (length es) > ?limit")
    case True
    then show ?thesis using limit by (simp add: writeDaqMultiple_def attr_bind)
  next
    case False
    let ?item = "\<lambda>e. parsed (\<lambda>bo _. ints (build_DaqElement P bo e)) [] :: ('t master, int list) proc"
    let ?items = "mmap ?item es"
    have small: "8 * int (length es) + 2 \<le> c" using False assms(3) by (auto split: if_splits)
    have item: "length y = 8" if packed: "attained (?item e) y" for e y
    proof -
      obtain bo where "ints (build_DaqElement P bo e) = Inr y"
        using attained_parsed [OF packed] by auto
      then obtain bs where "build_DaqElement P bo e = Inr bs" "y = map uint bs"
        by (cases "build_DaqElement P bo e") (auto simp: ints_def)
      then show ?thesis using assms(4) [rule_format, of bo e bs] by simp
    qed
    have "mbind ?items (\<lambda>items. req (limited (nat c) L) WRITE_DAQ_MULTIPLE ([n] @ concat items))
        = mbind ?items (\<lambda>items. req L WRITE_DAQ_MULTIPLE ([n] @ concat items))" for n
    proof (rule mbind_cong [OF refl refl])
      fix items assume "may_return ?items items"
      then obtain s s' where "?items s = Some (Inr items, s')"
        by (auto simp: may_return_def attained_def)
      then have "length (concat items) = 8 * length es" by (rule mmap_lengths) (rule item)
      then show "req (limited (nat c) L) WRITE_DAQ_MULTIPLE ([n] @ concat items)
          = req L WRITE_DAQ_MULTIPLE ([n] @ concat items)"
        using small by (intro limited_small) auto
    qed
    then have "writeDaqMultiple (limited (nat c) L) P es m = writeDaqMultiple L P es m"
      using False limit by (simp add: writeDaqMultiple_def attr_bind byte_item_def)
    then show ?thesis using small by auto
  qed
qed

theorem write_daq_multiple_fits_witness:
  "writeDaqMultiple (limited 32 transport_link) no_parsers [(0xFF, 4, 0x1000, 0)] (connected_master ([], example))
     = writeDaqMultiple transport_link no_parsers [(0xFF, 4, 0x1000, 0)] (connected_master ([], example))"
proof -
  have "\<forall>bo e bs. build_DaqElement no_parsers bo e = Inr bs \<longrightarrow> length bs = 8"
    by (auto simp: no_parsers_def)
  then have "writeDaqMultiple (limited (nat 32) L) no_parsers es (connected_master t)
      = writeDaqMultiple L no_parsers es (connected_master t)" for L es t
    by (intro conjunct1 [OF write_daq_multiple_fits [OF connected_master_consistent]]) simp_all
  then show ?thesis by simp
qed

end
