(* ===== verification/Master_Transfer.thy ===== *)
theory Master_Transfer
  imports Master_Commands
begin

text \<open>
  The transfers of \<open>Master\<close> that take several commands: \<open>fetch\<close>, \<open>push\<close>, \<open>flash_program\<close> and \<open>verify\<close>.
  They call decorated commands (\<open>self.upload\<close>, \<open>self.download\<close>, ...), which are parameters: the
  properties take the commands of \<open>Master_Commands\<close> for them. The progress callback of a download is
  left out (\<open>callback=None\<close>), and so is the waiting time between packets, which has no other effect.
\<close>

section \<open>Model\<close>

subsection \<open>Upload\<close>

definition fetch :: "(int \<Rightarrow> ('t master, bytes) proc) \<Rightarrow> int \<Rightarrow> int option \<Rightarrow> ('t master, bytes) proc" where
  "fetch upl len limit_payload =
     (if (case limit_payload of None \<Rightarrow> False | Some l \<Rightarrow> l < 8) then mraise ValueError
      else
        mbind (attr sp_slaveBlockMode) (\<lambda>slave_block_mode.
        mbind (if slave_block_mode then mret 255 else mbind (attr sp_maxCto) (\<lambda>c. mret (c - 1))) (\<lambda>max_payload.
        let chunk_size = (case limit_payload of None \<Rightarrow> max_payload | Some l \<Rightarrow> min l max_payload);
            remaining = len mod chunk_size
        in if chunk_size = 0 then mraise ZeroDivisionError
           else
             mbind (mmap (\<lambda>_. mbind (upl chunk_size) (\<lambda>data. mret (py_slice data 0 chunk_size)))
               [0..<nat (len div chunk_size)]) (\<lambda>result.
             if remaining \<noteq> 0 then
               mbind (upl remaining) (\<lambda>data. mret (concat result @ py_slice data 0 remaining))
             else mret (concat result)))))"

subsection \<open>Download\<close>

text \<open>The packets of a block; \<open>dl_func\<close> and \<open>dl_next_func\<close> take data, length and \<open>last\<close>.\<close>

type_synonym 't downloader = "int list \<Rightarrow> int \<Rightarrow> bool \<Rightarrow> ('t master, bytes option) proc"

fun packet_loop ::
  "'t downloader \<Rightarrow> 't downloader \<Rightarrow> int \<Rightarrow> int list \<Rightarrow> nat list \<Rightarrow> int \<Rightarrow> int \<Rightarrow> ('t master, int) proc" where
  "packet_loop dl_func dl_next_func max_packet_size data [] offset remaining_block_size = mret offset"
| "packet_loop dl_func dl_next_func max_packet_size data (index # packets) offset remaining_block_size =
     (let packet_data = py_slice data offset (offset + max_packet_size);
          last_packet = (remaining_block_size - max_packet_size = 0)
      in mthen (if index = 0 then dl_func packet_data (int (length data)) last_packet
                else dl_next_func packet_data remaining_block_size last_packet)
           (packet_loop dl_func dl_next_func max_packet_size data packets (offset + max_packet_size)
             (remaining_block_size - max_packet_size)))"

definition block_downloader :: "'t downloader \<Rightarrow> 't downloader \<Rightarrow> int list \<Rightarrow> ('t master, unit) proc" where
  "block_downloader dl_func dl_next_func data =
     mbind (attr sp_maxCto) (\<lambda>maxCto.
     let len = int (length data);
         max_packet_size = maxCto - 2;
         packets = nat (len div max_packet_size);
         remaining = len mod max_packet_size
     in if max_packet_size = 0 then mraise ZeroDivisionError
        else
          mbind (packet_loop dl_func dl_next_func max_packet_size data [0..<packets] 0 len) (\<lambda>offset.
          if remaining \<noteq> 0 then
            (let packet_data = py_slice data offset (offset + remaining);
                 index = packets - 1
             in mthen (if index = 0 then dl_func packet_data remaining True
                       else dl_next_func packet_data remaining True) (mret ()))
          else mret ()))"

definition download_master_block_mode ::
  "int list \<Rightarrow> int \<Rightarrow> (int list \<Rightarrow> ('t master, unit) proc) \<Rightarrow> ('t master, unit) proc" where
  "download_master_block_mode data max_payload block_down =
     (let total_length = int (length data);
          remaining_block_size = total_length mod max_payload;
          blocks = nat (total_length div max_payload)
      in if max_payload = 0 then mraise ZeroDivisionError
         else
           mthen (mfor (\<lambda>i. block_down (py_slice data (int i * max_payload) (int i * max_payload + max_payload)))
             [0..<blocks])
           (if remaining_block_size \<noteq> 0 then
              block_down (py_slice data (int blocks * max_payload) (int blocks * max_payload + remaining_block_size))
            else mret ()))"

definition download_normal_mode :: "int list \<Rightarrow> int \<Rightarrow> 't downloader \<Rightarrow> ('t master, unit) proc" where
  "download_normal_mode data max_payload dl_func =
     (let total_length = int (length data);
          remaining = total_length mod max_payload;
          chunks = nat (total_length div max_payload)
      in if max_payload = 0 then mraise ZeroDivisionError
         else
           mthen (mfor (\<lambda>i. mthen (dl_func (py_slice data (int i * max_payload) (int i * max_payload + max_payload))
               max_payload False) (mret ())) [0..<chunks])
           (if remaining \<noteq> 0 then
              mthen (dl_func (py_slice data (int chunks * max_payload) (int chunks * max_payload + remaining))
                remaining True) (mret ())
            else mret ()))"

definition generalized_downloader ::
  "(int \<Rightarrow> int \<Rightarrow> ('t master, bytes) proc) \<Rightarrow> int \<Rightarrow> int \<Rightarrow> int list \<Rightarrow> int \<Rightarrow> int \<Rightarrow> bool
    \<Rightarrow> 't downloader \<Rightarrow> 't downloader \<Rightarrow> ('t master, unit) proc" where
  "generalized_downloader set_mta address address_ext data maxCto maxBs master_block_mode dl_func dl_next_func =
     mthen (set_mta address address_ext)
     (if master_block_mode then
        download_master_block_mode data (min (maxBs * (maxCto - 2)) 255) (block_downloader dl_func dl_next_func)
      else download_normal_mode data (maxCto - 2) dl_func)"

text \<open>\<open>self.download(data, length, last)\<close>\<close>

definition as_downloader ::
  "(int list \<Rightarrow> int option \<Rightarrow> bool \<Rightarrow> ('t master, bytes option) proc) \<Rightarrow> 't downloader" where
  "as_downloader dl = (\<lambda>data len last_packet. dl data (Some len) last_packet)"

definition push ::
  "(int \<Rightarrow> int \<Rightarrow> ('t master, bytes) proc) \<Rightarrow> (int list \<Rightarrow> int option \<Rightarrow> bool \<Rightarrow> ('t master, bytes option) proc)
    \<Rightarrow> 't downloader \<Rightarrow> int \<Rightarrow> int \<Rightarrow> int list \<Rightarrow> ('t master, unit) proc" where
  "push set_mta dl dl_next address address_ext data =
     mbind (attr sp_maxCto) (\<lambda>maxCto.
     mbind (attr sp_maxBs) (\<lambda>maxBs.
     mbind (attr sp_minSt) (\<lambda>_.
     mbind (attr sp_masterBlockMode) (\<lambda>master_block_mode.
     generalized_downloader set_mta address address_ext data maxCto maxBs master_block_mode
       (as_downloader dl) dl_next))))"

definition pgm_attr :: "(pgm_properties \<Rightarrow> 'a option) \<Rightarrow> ('t master, 'a) proc" where
  "pgm_attr f = attr (\<lambda>sp. f (sp_pgmProcessor sp))"

definition flash_program ::
  "(int \<Rightarrow> int \<Rightarrow> ('t master, bytes) proc) \<Rightarrow> 't downloader \<Rightarrow> 't downloader \<Rightarrow> int \<Rightarrow> int list
    \<Rightarrow> ('t master, unit) proc" where
  "flash_program set_mta prog prog_next address data =
     mbind (pgm_attr pgm_maxCtoPgm) (\<lambda>maxCto.
     mbind (pgm_attr pgm_maxBsPgm) (\<lambda>maxBs.
     mbind (pgm_attr pgm_minStPgm) (\<lambda>_.
     mbind (pgm_attr pgm_master_block) (\<lambda>master_block_mode.
     generalized_downloader set_mta address 0 data maxCto maxBs master_block_mode prog prog_next))))"

subsection \<open>Verification\<close>

definition verify ::
  "(int \<Rightarrow> int \<Rightarrow> ('t master, bytes) proc) \<Rightarrow> (int \<Rightarrow> ('t master, BuildChecksumResponse) proc)
    \<Rightarrow> (int \<Rightarrow> ('t master, bytes) proc) \<Rightarrow> int \<Rightarrow> int \<Rightarrow> ('t master, bool) proc" where
  "verify set_mta build_checksum upl addr len =
     mthen (set_mta addr 0)
     (mbind (build_checksum len) (\<lambda>cs.
     mthen (set_mta addr 0)
     (mbind (fetch upl len None) (\<lambda>data.
     mbind (mlift (check data (bc_checksumType cs))) (\<lambda>cc.
     mret (bc_checksum cs = cc))))))"

section \<open>Lemmas\<close>

subsection \<open>A slave that answers everything\<close>

text \<open>The requests sent: whether the answer is awaited, the command, its parameters.\<close>

datatype sent_request = Sent bool command "int list"

definition recorder :: "sent_request list link" where
  "recorder =
     \<lparr>lk_request = (\<lambda>cmd data t. Some (Inr [], t @ [Sent True cmd data])),
      lk_request_optional = (\<lambda>cmd data t. Some (Inr (Some []), t @ [Sent True cmd data])),
      lk_block_request = (\<lambda>cmd data t. Some (Inr (), t @ [Sent False cmd data])),
      lk_block_receive = (\<lambda>n t. Some (Inr [], t)),
      lk_popleft = (\<lambda>t. Some (Inr None, t))\<rparr>"

definition sends :: "sent_request list \<Rightarrow> sent_request list master \<Rightarrow> sent_request list master" where
  "sends rs m = m\<lparr>tl := tl m @ rs\<rparr>"

lemma sends_simps [simp]:
  "sends [] m = m" "sends rs (sends qs m) = sends (qs @ rs) m"
  "slaveProperties (sends rs m) = slaveProperties m" "packers (sends rs m) = packers m"
  "tl (sends rs m) = tl m @ rs"
  by (simp_all add: sends_def)

lemma recorder_req [simp]:
  "req recorder cmd data m = Some (Inr [], sends [Sent True cmd data] m)"
  "block_req recorder cmd data m = Some (Inr (), sends [Sent False cmd data] m)"
  by (simp_all add: req_def block_req_def via_def recorder_def sends_def)

lemma download_recorder:
  "as_downloader (download recorder) data n last_packet m =
     Some (Inr (if last_packet then Some [] else None),
       sends [Sent last_packet DOWNLOAD ((if last_packet then int (length data) else n) # data)] m)"
  "downloadNext recorder data n last_packet m =
     Some (Inr (if last_packet then Some [] else None), sends [Sent last_packet DOWNLOAD_NEXT (n # data)] m)"
  by (simp_all add: as_downloader_def download_def downloadNext_def mbind_def mthen_def)

lemma mfor_sends:
  assumes "\<And>x m. slaveProperties m = sp \<Longrightarrow> x \<in> set xs \<Longrightarrow> body x m = Some (Inr (), sends (g x) m)"
    and "slaveProperties m = sp"
  shows "mfor body xs m = Some (Inr (), sends (concat (map g xs)) m)"
  using assms by (induction xs arbitrary: m) (simp_all add: mthen_simps)

subsection \<open>Chunks by index\<close>

definition chunk :: "nat \<Rightarrow> 'a list \<Rightarrow> nat \<Rightarrow> 'a list" where
  "chunk n xs i = take n (drop (i * n) xs)"

definition chunk_count :: "nat \<Rightarrow> 'a list \<Rightarrow> nat" where
  "chunk_count n xs = length xs div n + (if length xs mod n = 0 then 0 else 1)"

lemma chunks_by_index: "0 < n \<Longrightarrow> map (chunk n xs) [0..<chunk_count n xs] = chunks n xs"
proof (induction n xs rule: chunks.induct)
  case (1 n xs)
  show ?case
  proof (cases "xs = []")
    case True
    then show ?thesis by (simp add: chunk_count_def)
  next
    case False
    have "chunk_count n xs = Suc (chunk_count n (drop n xs))"
    proof (cases "n \<le> length xs")
      case True
      then show ?thesis using "1.prems" by (simp add: chunk_count_def le_div_geq le_mod_geq)
    qed (use False in \<open>simp add: chunk_count_def\<close>)
    moreover have "chunk n xs (Suc i) = chunk n (drop n xs) i" for i
      by (simp add: chunk_def add.commute)
    ultimately have "map (chunk n xs) [0..<chunk_count n xs]
        = take n xs # map (chunk n (drop n xs)) [0..<chunk_count n (drop n xs)]"
      by (simp add: upt_rec [of 0] chunk_def map_Suc_upt [symmetric] comp_def del: upt_Suc)
    then show ?thesis using "1.IH" "1.prems" False by (simp add: chunks_Cons)
  qed
qed

lemma py_slice_chunk:
  "py_slice xs (int i * int n) (int i * int n + int n) = chunk n xs i"
  using py_slice_nat [of xs "i * n" "i * n + n"] by (simp add: chunk_def)

subsection \<open>Blocks\<close>

definition packet :: "command \<Rightarrow> command \<Rightarrow> nat \<Rightarrow> int list \<Rightarrow> nat \<Rightarrow> sent_request" where
  "packet cmd cmd_next n block i =
     (let c = chunk n block i; last_packet = (length block \<le> Suc i * n)
      in if i = 0 \<or> i = 1 \<and> length block < 2 * n
         then Sent last_packet cmd ((if last_packet then int (length c) else int (length block)) # c)
         else Sent last_packet cmd_next (int (length block - i * n) # c))"

definition block_frames :: "command \<Rightarrow> command \<Rightarrow> nat \<Rightarrow> int list \<Rightarrow> sent_request list" where
  "block_frames cmd cmd_next n block = map (packet cmd cmd_next n block) [0..<chunk_count n block]"

text \<open>
  What the block downloader relies on: the first command and its continuation send a packet under their
  code, with the number they are given; a packet that ends the block is given its own length.
\<close>

locale packet_sender =
  fixes dl dl_next :: "sent_request list downloader"
    and cmd cmd_next :: command
  assumes dl: "last_packet \<longrightarrow> n = int (length data) \<Longrightarrow>
      \<exists>v. dl data n last_packet m = Some (Inr v, sends [Sent last_packet cmd (n # data)] m)"
    and dl_next: "\<exists>v. dl_next data n last_packet m = Some (Inr v, sends [Sent last_packet cmd_next (n # data)] m)"

context packet_sender
begin

lemma packet_loop_sends:
  assumes "0 < n" and "k \<le> length block div n"
  shows "packet_loop dl dl_next (int n) block [k..<length block div n] (int (k * n)) (int (length block) - int (k * n)) m
    = Some (Inr (int (length block div n * n)), sends (map (packet cmd cmd_next n block) [k..<length block div n]) m)"
  using assms(2)
proof (induction "length block div n - k" arbitrary: k m)
  case 0
  then show ?case by simp
next
  case (Suc d)
  let ?q = "length block div n"
  have k: "k < ?q" using Suc.hyps(2) by simp
  have full: "Suc k * n \<le> length block"
    using k assms(1) by (metis Suc_leI div_times_less_eq_dividend le_trans mult_le_mono1)
  have upt: "[k..<?q] = k # [Suc k..<?q]" using k by (simp add: upt_rec)
  have slice: "py_slice block (int (k * n)) (int (k * n) + int n) = chunk n block k"
    using py_slice_chunk [of block k n] by simp
  have len: "length (chunk n block k) = n" using full by (simp add: chunk_def)
  have sub: "int (length block) - int (k * n) = int (length block - k * n)"
    using full by simp
  have rest: "packet_loop dl dl_next (int n) block [Suc k..<?q] (int (k * n) + int n)
      (int (length block - k * n) - int n) m'
      = Some (Inr (int (?q * n)), sends (map (packet cmd cmd_next n block) [Suc k..<?q]) m')" for m'
    using Suc.hyps(1) [of "Suc k" m'] Suc.hyps(2) k full by (simp add: algebra_simps of_nat_diff)
  have last_iff: "int (length block - k * n) - int n = 0 \<longleftrightarrow> length block \<le> Suc k * n"
  proof -
    have "int (length block - k * n) - int n = int (length block - Suc k * n)"
      using full by (simp add: of_nat_diff)
    then show ?thesis by simp
  qed
  let ?p = "if k = 0 then dl (chunk n block k) (int (length block)) (length block \<le> Suc k * n)
      else dl_next (chunk n block k) (int (length block - k * n)) (length block \<le> Suc k * n)"
  have k0: "k = 0 \<longrightarrow> length block \<le> Suc k * n \<longrightarrow> length block = n" using full by simp
  have "length block < 2 * n \<longrightarrow> k \<noteq> 1" using full by auto
  then have "\<exists>v. ?p m = Some (Inr v, sends [packet cmd cmd_next n block k] m)"
    using dl [of "length block \<le> Suc k * n" "int (length block)" "chunk n block k" m] dl_next len k0
    by (cases "k = 0") (auto simp: packet_def Let_def)
  then have step: "mthen ?p c m = c (sends [packet cmd cmd_next n block k] m)" for c :: "(sent_request list master, int) proc"
    by (elim exE) (rule mthen_simps(3))
  show ?case
    unfolding upt packet_loop.simps Let_def slice sub last_iff step rest by simp
qed

lemma block_downloader_sends:
  assumes "0 < n" and "sp_maxCto (slaveProperties m) = Some (int n + 2)"
  shows "block_downloader dl dl_next block m = Some (Inr (), sends (block_frames cmd cmd_next n block) m)"
proof -
  let ?q = "length block div n" and ?r = "length block mod n"
  have loop: "packet_loop dl dl_next (int n) block [0..<nat (int (length block) div int n)] 0 (int (length block)) m
      = Some (Inr (int (?q * n)), sends (map (packet cmd cmd_next n block) [0..<?q]) m)"
    using packet_loop_sends [OF assms(1), of 0 block m] by (simp add: nat_div_distrib)
  show ?thesis
  proof (cases "?r = 0")
    case True
    then have "int (length block) mod int n = 0" by (simp flip: of_nat_mod)
    then show ?thesis
      using assms loop True
      by (simp add: block_downloader_def attr_bind mbind_apply Let_def block_frames_def chunk_count_def)
  next
    case False
    then have r: "int (length block) mod int n = int ?r" "int ?r \<noteq> 0" by (simp_all flip: of_nat_mod)
    have len: "length block = ?q * n + ?r" by simp
    have rn: "?r < n" using assms(1) by simp
    have chunk: "chunk n block ?q = drop (?q * n) block"
      using rn minus_div_mult_eq_mod [of "length block" n] by (simp add: chunk_def)
    have slice: "py_slice block (int (?q * n)) (int (?q * n) + int ?r) = chunk n block ?q"
    proof -
      have "py_slice block (int (?q * n)) (int (?q * n + ?r)) = take ?r (drop (?q * n) block)"
        unfolding py_slice_nat by (simp only: add_diff_cancel_left')
      moreover have "length (drop (?q * n) block) = ?r" by (simp add: modulo_nat_def)
      ultimately show ?thesis by (simp only: chunk of_nat_add take_all order_refl)
    qed
    have clen: "length (chunk n block ?q) = ?r" by (simp add: chunk modulo_nat_def)
    have last_packet: "(length block \<le> Suc ?q * n) = True"
      using len rn by (metis add.commute add_le_mono1 less_imp_le mult_Suc)
    have first: "(?q = 0 \<or> ?q = 1 \<and> length block < 2 * n) = (?q - 1 = 0)"
      using len rn by (cases ?q) auto
    have sub: "length block - ?q * n = ?r" by (rule minus_div_mult_eq_mod)
    have "packet cmd cmd_next n block ?q = (if ?q - 1 = 0 then Sent True cmd (int ?r # chunk n block ?q)
        else Sent True cmd_next (int ?r # chunk n block ?q))"
      unfolding packet_def Let_def last_packet first clen sub by simp
    then have "?q \<le> Suc 0 \<Longrightarrow> mthen (dl (chunk n block ?q) (int ?r) True) (mret ()) m'
        = Some (Inr (), sends [packet cmd cmd_next n block ?q] m')"
      "\<not> ?q \<le> Suc 0 \<Longrightarrow> mthen (dl_next (chunk n block ?q) (int ?r) True) (mret ()) m'
        = Some (Inr (), sends [packet cmd cmd_next n block ?q] m')" for m'
      using dl [of True "int ?r" "chunk n block ?q" m'] dl_next [of "chunk n block ?q" "int ?r" True m'] clen
      by (auto simp: mthen_simps)
    moreover have "block_frames cmd cmd_next n block = map (packet cmd cmd_next n block) [0..<?q] @ [packet cmd cmd_next n block ?q]"
      using False by (simp add: block_frames_def chunk_count_def)
    ultimately show ?thesis
      using assms loop r slice
      by (simp add: block_downloader_def attr_bind mbind_apply Let_def nat_div_distrib)
  qed
qed

end

interpretation downloads: packet_sender "as_downloader (download recorder)" "downloadNext recorder" DOWNLOAD DOWNLOAD_NEXT
  by unfold_locales (auto simp: download_recorder)

interpretation programs: packet_sender "program recorder" "programNext recorder" PROGRAM PROGRAM_NEXT
  by unfold_locales (auto simp: program_def programNext_def mbind_apply mthen_simps)

text \<open>
  What a slave makes of the packets of a block: the first announces the number of bytes, each further
  one the number still missing, and the packet that completes the block is answered.
\<close>

fun slave_next :: "command \<Rightarrow> nat \<Rightarrow> sent_request list \<Rightarrow> int list option" where
  "slave_next cmd_next missing [] = (if missing = 0 then Some [] else None)"
| "slave_next cmd_next missing (Sent awaited c params # frames) =
     (case params of
        n # d \<Rightarrow>
          if c = cmd_next \<and> 0 < missing \<and> n = int missing \<and> length d \<le> missing
              \<and> awaited = (length d = missing)
          then map_option ((@) d) (slave_next cmd_next (missing - length d) frames) else None
      | [] \<Rightarrow> None)"

fun slave_block :: "command \<Rightarrow> command \<Rightarrow> sent_request list \<Rightarrow> int list option" where
  "slave_block cmd cmd_next (Sent awaited c (n # d) # frames) =
     (if c = cmd \<and> int (length d) \<le> n \<and> awaited = (int (length d) = n)
      then map_option ((@) d) (slave_next cmd_next (nat n - length d) frames) else None)"
| "slave_block _ _ _ = None"

lemma chunk_count_less:
  assumes "0 < n" shows "k < chunk_count n xs \<longleftrightarrow> k * n < length xs"
proof
  assume "k < chunk_count n xs"
  then consider "k < length xs div n" | "k = length xs div n" "length xs mod n \<noteq> 0"
    by (auto simp: chunk_count_def less_Suc_eq split: if_splits)
  then show "k * n < length xs"
  proof cases
    case 1
    then have "Suc k * n \<le> length xs"
      by (metis Suc_leI div_times_less_eq_dividend le_trans mult_le_mono1)
    then show ?thesis using assms by simp
  next
    case 2
    then show ?thesis unfolding 2(1) using div_mult_mod_eq [of "length xs" n] by linarith
  qed
next
  assume less: "k * n < length xs"
  have "k \<le> length xs div n" using less assms by (simp add: less_eq_div_iff_mult_less_eq less_imp_le)
  moreover have "k < length xs div n" if "length xs mod n = 0"
    using less that assms by (metis div_mult_mod_eq add_0_right mult_less_cancel2)
  ultimately show "k < chunk_count n xs" by (cases "length xs mod n = 0") (auto simp: chunk_count_def)
qed

lemma length_chunk: "length (chunk n xs i) = min n (length xs - i * n)"
  by (simp add: chunk_def min.commute)

lemma chunk_last: "length xs \<le> Suc i * n \<Longrightarrow> chunk n xs i = drop (i * n) xs"
  by (simp add: chunk_def)

lemma slave_next_frames:
  assumes "0 < n" and "1 \<le> k" and "\<not> (n < length block \<and> length block < 2 * n)"
  shows "slave_next cmd_next (length block - k * n) (map (packet cmd cmd_next n block) [k..<chunk_count n block])
    = Some (drop (k * n) block)"
  using assms(2)
proof (induction "chunk_count n block - k" arbitrary: k)
  case 0
  then have "\<not> k < chunk_count n block" by simp
  then have "length block \<le> k * n" unfolding chunk_count_less [OF assms(1)] by (simp add: not_less)
  then show ?case using 0 by simp
next
  case (Suc d)
  then have k: "k < chunk_count n block" by simp
  then have less: "k * n < length block" using chunk_count_less [OF assms(1)] by blast
  have no: "(k = 0 \<or> k = 1 \<and> length block < 2 * n) = False" using Suc.prems less assms(3) by auto
  then have pk: "packet cmd cmd_next n block k
      = Sent (length block \<le> Suc k * n) cmd_next (int (length block - k * n) # chunk n block k)"
    unfolding packet_def Let_def no by simp
  have upt: "[k..<chunk_count n block] = k # [Suc k..<chunk_count n block]" using k by (simp add: upt_rec)
  have IH: "slave_next cmd_next (length block - Suc k * n) (map (packet cmd cmd_next n block) [Suc k..<chunk_count n block])
      = Some (drop (Suc k * n) block)"
    using Suc.hyps(1) [of "Suc k"] Suc.hyps(2) by simp
  have complete: "(length block \<le> Suc k * n) = (length (chunk n block k) = length block - k * n)"
    using less by (auto simp: length_chunk)
  have rest: "length block - k * n - length (chunk n block k) = length block - Suc k * n"
    by (simp add: length_chunk)
  have "chunk n block k @ drop (Suc k * n) block = drop (k * n) block"
    by (simp add: chunk_def drop_drop [symmetric] add.commute del: drop_drop)
  moreover have "length (chunk n block k) \<le> length block - k * n" by (simp add: length_chunk)
  ultimately show ?case
    using less by (simp add: upt pk IH rest complete del: mult_Suc diff_diff_left)
qed

lemma slave_block_frames:
  assumes "0 < n" and "block \<noteq> []" and "cmd \<noteq> cmd_next"
  shows "slave_block cmd cmd_next (block_frames cmd cmd_next n block)
    = (if n < length block \<and> length block < 2 * n then None else Some block)"
proof -
  have "0 < chunk_count n block" using chunk_count_less [OF assms(1), of 0 block] assms(2) by simp
  then have upt: "[0..<chunk_count n block] = 0 # [1..<chunk_count n block]" by (simp add: upt_rec)
  have first: "packet cmd cmd_next n block 0 = Sent (length block \<le> n) cmd (int (length block) # chunk n block 0)"
    by (auto simp: packet_def Let_def length_chunk)
  have c0: "length (chunk n block 0) = min n (length block)" by (simp add: length_chunk)
  show ?thesis
  proof (cases "n < length block \<and> length block < 2 * n")
    case True
    then have "1 < chunk_count n block" using chunk_count_less [OF assms(1), of 1 block] by simp
    then have "[1..<chunk_count n block] = 1 # [2..<chunk_count n block]" by (simp add: upt_rec numeral_2_eq_2)
    moreover have "packet cmd cmd_next n block 1 = Sent True cmd (int (length (chunk n block 1)) # chunk n block 1)"
      using True by (simp add: packet_def Let_def)
    ultimately show ?thesis using True assms(3) by (simp add: block_frames_def upt first c0)
  next
    case False
    have "slave_next cmd_next (length block - n) (map (packet cmd cmd_next n block) [1..<chunk_count n block]) = Some (drop n block)"
      using slave_next_frames [OF assms(1) _ False, of 1] by simp
    moreover have "chunk n block 0 @ drop n block = block" by (simp add: chunk_def)
    moreover have "length block - min n (length block) = length block - n" by simp
    moreover have "(length block \<le> n) = (min n (length block) = length block)" by auto
    ultimately show ?thesis using False by (auto simp: block_frames_def upt first c0 nat_diff_distrib)
  qed
qed

subsection \<open>Data in chunks\<close>

lemma send_chunks:
  assumes "0 < p" and "slaveProperties m = sp"
    and full: "\<And>c m. slaveProperties m = sp \<Longrightarrow> length c = p \<Longrightarrow> body c m = Some (Inr (), sends (F c) m)"
    and part: "\<And>c m. slaveProperties m = sp \<Longrightarrow> length c < p \<Longrightarrow> rest c (int (length c)) m = Some (Inr (), sends (F c) m)"
  shows "mthen (mfor (\<lambda>i. body (py_slice data (int i * int p) (int i * int p + int p))) [0..<length data div p])
      (if length data mod p \<noteq> 0
       then rest (py_slice data (int (length data div p) * int p)
              (int (length data div p) * int p + int (length data mod p))) (int (length data mod p))
       else mret ()) m
    = Some (Inr (), sends (concat (map F (chunks p data))) m)"
proof -
  let ?q = "length data div p" and ?r = "length data mod p"
  have slice: "py_slice data (int i * int p) (int i * int p + int p) = chunk p data i" for i
    by (rule py_slice_chunk)
  have len: "length (chunk p data i) = p" if "i < ?q" for i
  proof -
    have "Suc i * p \<le> length data"
      using that by (metis Suc_leI div_times_less_eq_dividend le_trans mult_le_mono1)
    then show ?thesis by (simp add: length_chunk)
  qed
  have loop: "mfor (\<lambda>i. body (py_slice data (int i * int p) (int i * int p + int p))) [0..<?q] m
      = Some (Inr (), sends (concat (map F (map (chunk p data) [0..<?q]))) m)"
    unfolding slice by (subst mfor_sends [where g = "\<lambda>i. F (chunk p data i)", OF _ assms(2)])
      (simp_all add: full len comp_def)
  show ?thesis
  proof (cases "?r = 0")
    case True
    then show ?thesis
      using loop by (simp add: mthen_simps chunks_by_index [OF assms(1), symmetric] chunk_count_def)
  next
    case False
    have "Suc ?q * p = ?q * p + p" by simp
    then have "length data \<le> Suc ?q * p" using div_mult_mod_eq [of "length data" p] assms(1)
      by (metis add_le_cancel_left less_imp_le mod_less_divisor)
    then have rl: "length (chunk p data ?q) = ?r" "chunk p data ?q = drop (?q * p) data"
      by (simp_all add: chunk_last modulo_nat_def)
    have "py_slice data (int (?q * p)) (int (?q * p + ?r)) = chunk p data ?q"
      unfolding py_slice_nat by (simp add: rl(2) modulo_nat_def)
    then have sl: "py_slice data (int ?q * int p) (int ?q * int p + int ?r) = chunk p data ?q"
      by (simp only: of_nat_add of_nat_mult)
    have "length (chunk p data ?q) < p" using rl(1) assms(1) by simp
    then have "rest (chunk p data ?q) (int ?r) m' = Some (Inr (), sends (F (chunk p data ?q)) m')"
      if "slaveProperties m' = sp" for m'
      using part [OF that, of "chunk p data ?q"] by (simp only: rl(1))
    moreover have "chunks p data = map (chunk p data) [0..<?q] @ [chunk p data ?q]"
      using False by (simp add: chunks_by_index [OF assms(1), symmetric] chunk_count_def)
    ultimately show ?thesis
      using False loop sl assms(2) by (simp add: mthen_simps)
  qed
qed

lemma int_div_mod [simp]:
  "nat (int a div int b) = a div b" "int (nat (int a div int b)) = int (a div b)"
  "(int a mod int b \<noteq> 0) = (a mod b \<noteq> 0)" "int a mod int b = int (a mod b)"
  by (simp_all add: nat_div_distrib flip: of_nat_mod of_nat_div)

lemma master_block_mode_sends:
  assumes "0 < p" and "slaveProperties m = sp"
    and "\<And>b m. slaveProperties m = sp \<Longrightarrow> down b m = Some (Inr (), sends (F b) m)"
  shows "download_master_block_mode data (int p) down m = Some (Inr (), sends (concat (map F (chunks p data))) m)"
  using send_chunks [of p m sp down F "\<lambda>c _. down c" data] assms
  by (cases "length data mod p = 0") (simp_all add: download_master_block_mode_def Let_def)

lemma normal_mode_sends:
  assumes "0 < p"
  shows "download_normal_mode data (int p) (as_downloader (download recorder)) m = Some (Inr (),
    sends (map (\<lambda>c. Sent (length c < p) DOWNLOAD (int (length c) # c)) (chunks p data)) m)"
proof -
  let ?F = "\<lambda>c. [Sent (length c < p) DOWNLOAD (int (length c) # c)]"
  have "mthen (as_downloader (download recorder) c (int p) False) (mret ()) m' = Some (Inr (), sends (?F c) m')" if "length c = p" for c m'
    using that by (simp add: mthen_simps download_recorder)
  moreover have "mthen (as_downloader (download recorder) c (int (length c)) True) (mret ()) m' = Some (Inr (), sends (?F c) m')"
    if "length c < p" for c m'
    using that by (simp add: mthen_simps download_recorder)
  moreover have "concat (map ?F cs) = map (\<lambda>c. Sent (length c < p) DOWNLOAD (int (length c) # c)) cs" for cs
    by (induction cs) simp_all
  ultimately show ?thesis
    using send_chunks [OF assms refl, of m "\<lambda>c. mthen (as_downloader (download recorder) c (int p) False) (mret ())" ?F
        "\<lambda>c n. mthen (as_downloader (download recorder) c n True) (mret ())" data] assms
    by (cases "length data mod p = 0") (simp_all add: download_normal_mode_def Let_def)
qed

lemma set_mta_sends:
  assumes "packers m = Some ord" and "0 \<le> a" and "a < 2 ^ 32"
  shows "\<exists>addr. setMta recorder a e m = Some (Inr [], sends [Sent True SET_MTA ([0, 0, e] @ map uint addr)]
      (m\<lparr>mta_addr := Some (a, e)\<rparr>)) \<and> makeDWordPacker ord a = Inr addr"
proof -
  obtain addr where "makeDWordPacker ord a = Inr addr"
    using assms(2,3) by (simp add: makeDWordPacker_def struct_pack_def)
  then show ?thesis
    using assms(1) by (simp add: setMta_def DWORD_pack_def pack_with_def mbind_assoc ints_def)
qed

lemma packet_in_frames:
  "Sent w c ps \<in> set (block_frames cmd cmd_next n b) \<Longrightarrow> 1 + length ps \<le> n + 2"
  by (auto simp: block_frames_def packet_def Let_def length_chunk split: if_splits)

text \<open>A transfer in master block mode: SET_MTA and the blocks.\<close>

definition mta_frame :: "bytes \<Rightarrow> int \<Rightarrow> sent_request" where
  "mta_frame addr e = Sent True SET_MTA ([0, 0, e] @ map uint addr)"

context packet_sender
begin

lemma blocks_sent:
  assumes "sp_maxCto (slaveProperties m) = Some (int n + 2)" and "packers m = Some ord" and "0 \<le> a" and "a < 2 ^ 32"
    and "0 < n" and "0 < p" and "min (maxBs * (maxCto - 2)) 255 = int p" and "cmd \<noteq> cmd_next"
  shows "\<exists>addr blocks. generalized_downloader (setMta recorder) a e data maxCto maxBs True dl dl_next m
      = Some (Inr (), sends (mta_frame addr e # concat (map (block_frames cmd cmd_next n) blocks)) (m\<lparr>mta_addr := Some (a, e)\<rparr>))
    \<and> makeDWordPacker ord a = Inr addr \<and> concat blocks = data
    \<and> (\<forall>b \<in> set blocks. length b \<le> p
        \<and> (\<forall>f \<in> set (block_frames cmd cmd_next n b). \<exists>w c ps. f = Sent w c ps \<and> 1 + length ps \<le> n + 2)
        \<and> slave_block cmd cmd_next (block_frames cmd cmd_next n b)
            = (if n < length b \<and> length b < 2 * n then None else Some b))"
proof -
  let ?m = "m\<lparr>mta_addr := Some (a, e)\<rparr>"
  obtain addr where mta: "setMta recorder a e m = Some (Inr [], sends [mta_frame addr e] ?m)" "makeDWordPacker ord a = Inr addr"
    using set_mta_sends [OF assms(2-4)] by (auto simp: mta_frame_def)
  have "download_master_block_mode data (int p) (block_downloader dl dl_next) m'
      = Some (Inr (), sends (concat (map (block_frames cmd cmd_next n) (chunks p data))) m')"
    if "slaveProperties m' = slaveProperties m" for m'
    using that assms(1,5) by (intro master_block_mode_sends [OF assms(6) that] block_downloader_sends) simp_all
  then have "generalized_downloader (setMta recorder) a e data maxCto maxBs True dl dl_next m
      = Some (Inr (), sends (mta_frame addr e # concat (map (block_frames cmd cmd_next n) (chunks p data))) ?m)"
    using mta(1) assms(7) by (simp add: generalized_downloader_def mthen_simps)
  moreover have "\<forall>f \<in> set (block_frames cmd cmd_next n b). \<exists>w c ps. f = Sent w c ps \<and> 1 + length ps \<le> n + 2" for b
    using packet_in_frames by (metis sent_request.exhaust)
  moreover have "b \<noteq> [] \<and> length b \<le> p" if "b \<in> set (chunks p data)" for b
    using length_in_chunks [OF that] by auto
  ultimately show ?thesis
    using mta(2) concat_chunks [OF assms(6), of data] slave_block_frames [OF assms(5) _ assms(8)]
    by (intro exI [of _ addr] exI [of _ "chunks p data"]) auto
qed

end

subsection \<open>Reading\<close>

text \<open>
  What \<open>fetch\<close> relies on: an upload of \<open>n\<close> elements at position \<open>p\<close> returns their bytes and moves the
  position behind them.
\<close>

locale uploader =
  fixes upl :: "int \<Rightarrow> ('t master, bytes) proc"
    and mem :: bytes
    and el :: nat
    and at_position :: "nat \<Rightarrow> 't master \<Rightarrow> bool"
  assumes upl: "at_position p m \<Longrightarrow> 0 < n \<Longrightarrow> n \<le> 255 \<Longrightarrow> p + n * el \<le> length mem \<Longrightarrow>
    \<exists>m'. upl (int n) m = Some (Inr (take (n * el) (drop p mem)), m') \<and> at_position (p + n * el) m'
      \<and> slaveProperties m' = slaveProperties m"
    and element: "at_position p m \<Longrightarrow> 0 < el"

text \<open>Chunks of \<open>c\<close> elements, of each of which the first \<open>c\<close> bytes are kept.\<close>

fun read_chunks :: "bytes \<Rightarrow> nat \<Rightarrow> nat \<Rightarrow> nat list \<Rightarrow> bytes" where
  "read_chunks mem el p [] = []"
| "read_chunks mem el p (c # cs) = take c (drop p mem) @ read_chunks mem el (p + c * el) cs"

lemma read_chunks_append:
  "read_chunks mem el p (cs @ ds) = read_chunks mem el p cs @ read_chunks mem el (p + sum_list cs * el) ds"
  by (induction cs arbitrary: p) (simp_all add: algebra_simps)

lemma read_chunks_bytes: "read_chunks mem 1 p cs = take (sum_list cs) (drop p mem)"
  by (induction cs arbitrary: p) (simp_all add: take_add add.commute)

lemma length_read_chunks: "0 < el \<Longrightarrow> p + sum_list cs * el \<le> length mem \<Longrightarrow> length (read_chunks mem el p cs) = sum_list cs"
proof (induction cs arbitrary: p)
  case (Cons c cs)
  have "c \<le> c * el" using Cons.prems(1) by simp
  moreover have "p + (c * el + sum_list cs * el) \<le> length mem" using Cons.prems(2) by (simp add: algebra_simps)
  ultimately have "c \<le> length mem - p" by linarith
  then show ?case using Cons by (simp add: algebra_simps min_def)
qed simp

definition chunk_lengths :: "nat \<Rightarrow> nat \<Rightarrow> nat list" where
  "chunk_lengths c n = replicate (n div c) c @ (if n mod c = 0 then [] else [n mod c])"

lemma sum_chunk_lengths: "sum_list (chunk_lengths c n) = n"
  using div_mult_mod_eq [of n c] by (auto simp: chunk_lengths_def sum_list_replicate)

context uploader
begin

lemma kept: "at_position q m \<Longrightarrow> 0 < n \<Longrightarrow> py_slice (take (n * el) (drop p mem)) 0 (int n) = take n (drop p mem)"
  using element [of q m] py_slice_nat [of "take (n * el) (drop p mem)" 0 n] by (simp add: min_def)

lemma uploads:
  assumes "0 < c" and "c \<le> 255" and "at_position p m" and "p + length xs * c * el \<le> length mem"
  shows "\<exists>ys m'. mmap (\<lambda>_. mbind (upl (int c)) (\<lambda>data. mret (py_slice data 0 (int c)))) xs m = Some (Inr ys, m')
    \<and> concat ys = read_chunks mem el p (replicate (length xs) c)
    \<and> at_position (p + length xs * c * el) m' \<and> slaveProperties m' = slaveProperties m"
  using assms(3,4)
proof (induction xs arbitrary: p m)
  case Nil
  then show ?case by simp
next
  case (Cons x xs)
  have fits: "p + c * el \<le> length mem" using Cons.prems(2) by (simp add: algebra_simps)
  obtain m1 where m1: "upl (int c) m = Some (Inr (take (c * el) (drop p mem)), m1)"
    "at_position (p + c * el) m1" "slaveProperties m1 = slaveProperties m"
    using upl [OF Cons.prems(1) assms(1,2) fits] by blast
  have "p + c * el + length xs * c * el \<le> length mem" using Cons.prems(2) by (simp add: algebra_simps)
  from Cons.IH [OF m1(2) this] obtain ys m' where rest:
    "mmap (\<lambda>_. mbind (upl (int c)) (\<lambda>data. mret (py_slice data 0 (int c)))) xs m1 = Some (Inr ys, m')"
    "concat ys = read_chunks mem el (p + c * el) (replicate (length xs) c)"
    "at_position (p + c * el + length xs * c * el) m'" "slaveProperties m' = slaveProperties m1" by blast
  let ?b = "mbind (upl (int c)) (\<lambda>data. mret (py_slice data 0 (int c)))"
  have "?b m = Some (Inr (take c (drop p mem)), m1)"
    using m1(1) kept [OF Cons.prems(1) assms(1)] by (simp add: mbind_apply)
  then have first: "mbind ?b f m = f (take c (drop p mem)) m1" for f :: "bytes \<Rightarrow> ('t master, bytes list) proc"
    by (rule mbind_apply(3))
  have second: "mbind (mmap (\<lambda>_. ?b) xs) f m1 = f ys m'" for f :: "bytes list \<Rightarrow> ('t master, bytes list) proc"
    using rest(1) by (rule mbind_apply(3))
  have "mmap (\<lambda>_. mbind (upl (int c)) (\<lambda>data. mret (py_slice data 0 (int c)))) (x # xs) m
      = Some (Inr (take c (drop p mem) # ys), m')"
    unfolding mmap.simps first second by simp
  then show ?case
    using rest(2-4) m1(3)
    by (intro exI [of _ "take c (drop p mem) # ys"] exI [of _ m'] conjI) (simp_all only:, simp_all add: algebra_simps)
qed

lemma fetch_chunks:
  assumes "at_position p m" and "sp_slaveBlockMode (slaveProperties m) = Some block"
    and "sp_maxCto (slaveProperties m) = Some (int cto + 1)" and "0 < cto" and "cto \<le> 255"
    and "\<forall>l. limit = Some l \<longrightarrow> 8 \<le> l" and "p + n * el \<le> length mem"
    and "c = (case limit of None \<Rightarrow> (if block then 255 else cto) | Some l \<Rightarrow> min (nat l) (if block then 255 else cto))"
  shows "\<exists>m'. fetch upl (int n) limit m = Some (Inr (read_chunks mem el p (chunk_lengths c n)), m')
    \<and> at_position (p + n * el) m' \<and> slaveProperties m' = slaveProperties m"
proof -
  have c: "0 < c" "c \<le> 255" using assms(4-6,8) by (auto split: option.splits)
  have chunk_size: "(case limit of None \<Rightarrow> (if block then 255 else int cto)
      | Some l \<Rightarrow> min l (if block then 255 else int cto)) = int c"
    using assms(6,8) by (auto simp: min_def split: option.splits)
  have ok: "(case limit of None \<Rightarrow> False | Some l \<Rightarrow> l < 8) = False" using assms(6) by (auto split: option.splits)
  have payload: "mbind (if block then mret 255 else mbind (attr sp_maxCto) (\<lambda>c. mret (c - 1))) f m
      = f (if block then 255 else int cto) m" for f :: "int \<Rightarrow> ('t master, bytes) proc"
    using assms(3) by (simp add: mbind_assoc attr_bind)
  have q: "n div c * c \<le> n" by simp
  have "p + (n div c) * c * el \<le> length mem"
    using assms(7) mult_le_mono1 [OF q, of el] by linarith
  then obtain ys m1 where m1: "mmap (\<lambda>_. mbind (upl (int c)) (\<lambda>data. mret (py_slice data 0 (int c)))) [0..<n div c] m
        = Some (Inr ys, m1)" "concat ys = read_chunks mem el p (replicate (n div c) c)"
    "at_position (p + n div c * c * el) m1" "slaveProperties m1 = slaveProperties m"
    using uploads [OF c assms(1), of "[0..<n div c]"] by auto
  show ?thesis
  proof (cases "n mod c = 0")
    case True
    then have "n div c * c = n" using div_mult_mod_eq [of n c] by simp
    then show ?thesis
      using m1 True c assms(2)
      by (simp add: fetch_def ok attr_bind(1) [where x = block] payload chunk_size Let_def mbind_apply chunk_lengths_def
          flip: of_nat_mod of_nat_div)
  next
    case False
    have n: "p + n div c * c * el + n mod c * el = p + n * el"
      using div_mult_mod_eq [of n c] by (metis add.assoc add_mult_distrib)
    have r: "0 < n mod c" "n mod c \<le> 255" using False c by (simp, metis less_imp_le le_trans mod_less_divisor)
    have fits: "p + n div c * c * el + n mod c * el \<le> length mem" using assms(7) n by simp
    obtain m2 where m2: "upl (int (n mod c)) m1 = Some (Inr (take (n mod c * el) (drop (p + n div c * c * el) mem)), m2)"
      "at_position (p + n div c * c * el + n mod c * el) m2" "slaveProperties m2 = slaveProperties m1"
      using upl [OF m1(3) r fits] by blast
    show ?thesis
      using m1 m2 False c assms(2) n kept [OF assms(1) r(1)]
      by (simp add: fetch_def ok attr_bind(1) [where x = block] payload chunk_size Let_def mbind_apply chunk_lengths_def
          read_chunks_append sum_list_replicate flip: of_nat_mod of_nat_div)
  qed
qed

end

text \<open>
  A slave with a memory: UPLOAD returns a first packet of at most \<open>cto\<close> bytes, and the rest of the block
  in the packets that follow.
\<close>

record memory_slave =
  ms_memory :: bytes
  ms_position :: nat
  ms_pending :: bytes
  ms_payload :: nat
  ms_element :: nat

definition memory_link :: "memory_slave link" where
  "memory_link =
     \<lparr>lk_request = (\<lambda>cmd data s.
        (case data of
           [n] \<Rightarrow>
             if cmd = UPLOAD \<and> 0 < n \<and> n \<le> 255 \<and> ms_position s + nat n * ms_element s \<le> length (ms_memory s) then
               (let block = take (nat n * ms_element s) (drop (ms_position s) (ms_memory s))
                in Some (Inr (take (ms_payload s) block),
                     s\<lparr>ms_position := ms_position s + nat n * ms_element s, ms_pending := drop (ms_payload s) block\<rparr>))
             else Some (Inl (XcpResponseError ERR_OUT_OF_RANGE), s)
         | _ \<Rightarrow> Some (Inl (XcpResponseError ERR_CMD_SYNTAX), s))),
      lk_request_optional = (\<lambda>cmd data s. Some (Inr None, s)),
      lk_block_request = (\<lambda>cmd data s. Some (Inr (), s)),
      lk_block_receive = (\<lambda>n s.
        if n \<le> int (length (ms_pending s)) then Some (Inr (ms_pending s), s\<lparr>ms_pending := []\<rparr>)
        else Some (Inl XcpTimeoutError, s)),
      lk_popleft = (\<lambda>s. Some (Inr None, s))\<rparr>"

definition at_memory :: "bytes \<Rightarrow> nat \<Rightarrow> nat \<Rightarrow> nat \<Rightarrow> memory_slave master \<Rightarrow> bool" where
  "at_memory mem el cto p m \<longleftrightarrow>
     tl m = \<lparr>ms_memory = mem, ms_position = p, ms_pending = [], ms_payload = cto, ms_element = el\<rparr>
     \<and> sp_maxCto (slaveProperties m) = Some (int cto + 1)
     \<and> sp_bytesPerElement (slaveProperties m) = Some (Some (int el)) \<and> 0 < el"

lemma upload_memory:
  assumes "at_memory mem el cto p m" and "0 < n" and "n \<le> 255" and "p + n * el \<le> length mem"
  shows "upload memory_link (int n) m = Some (Inr (take (n * el) (drop p mem)),
    m\<lparr>tl := (tl m)\<lparr>ms_position := p + n * el\<rparr>\<rparr>)"
proof -
  let ?b = "take (n * el) (drop p mem)"
  have len: "length ?b = n * el" using assms(4) by simp
  have bpe: "mbind bytes_per_element f m = f (int el) m" for f :: "int \<Rightarrow> (memory_slave master, bytes) proc"
    using assms(1) by (simp add: bytes_per_element_def mbind_assoc attr_bind at_memory_def)
  have rq: "req memory_link UPLOAD [int n] m = Some (Inr (take cto ?b),
      m\<lparr>tl := (tl m)\<lparr>ms_position := p + n * el, ms_pending := drop cto ?b\<rparr>\<rparr>)"
    using assms by (simp add: req_def via_def memory_link_def at_memory_def Let_def)
  have fill: "can_fill memory_link w r s = Some (Inr r, s)" if "w \<le> int (length r)" for w r s
    using that by (subst can_fill.simps) simp
  have cto: "sp_maxCto (slaveProperties (m\<lparr>tl := x\<rparr>)) = Some (int cto + 1)" for x
    using assms(1) by (simp add: at_memory_def)
  have pend: "ms_pending (tl m) = []" "tl m\<lparr>ms_pending := []\<rparr> = tl m" using assms(1) by (simp_all add: at_memory_def)
  show ?thesis
  proof (cases "int n * int el > int cto")
    case True
    then have gt: "cto < n * el" by (simp flip: of_nat_mult)
    then have "length (take cto ?b) = cto" using len by simp
    then have "via (lk_block_receive memory_link (int n * int el - int (length (take cto ?b))))
        (m\<lparr>tl := (tl m)\<lparr>ms_position := p + n * el, ms_pending := drop cto ?b\<rparr>\<rparr>)
      = Some (Inr (drop cto ?b), m\<lparr>tl := (tl m)\<lparr>ms_position := p + n * el, ms_pending := []\<rparr>\<rparr>)"
      using len gt by (simp add: via_def memory_link_def of_nat_diff)
    moreover have "take cto ?b @ drop cto ?b = ?b" by (rule append_take_drop_id)
    ultimately show ?thesis
      using True assms(1) by (simp add: upload_def bpe mbind_apply rq attr_bind cto at_memory_def)
  next
    case False
    then have "n * el \<le> cto" by (simp flip: of_nat_mult)
    then show ?thesis
      using False len assms(1)
      by (simp add: upload_def bpe mbind_apply rq attr_bind cto at_memory_def via_def fill)
  qed
qed

interpretation memory_reader: uploader "upload memory_link" mem el "at_memory mem el cto" for mem el cto
  by unfold_locales (auto simp: upload_memory at_memory_def)

definition with_transfer :: "bool \<Rightarrow> int \<Rightarrow> sent_request list master" where
  "with_transfer master_block bs =
     (let m = connected_master []
      in m\<lparr>slaveProperties := (slaveProperties m)\<lparr>sp_masterBlockMode := Some master_block, sp_maxBs := Some bs, sp_minSt := Some 0,
          sp_pgmProcessor := no_pgm_properties\<lparr>pgm_maxCtoPgm := Some 8, pgm_maxBsPgm := Some bs, pgm_minStPgm := Some 0,
            pgm_master_block := Some master_block\<rparr>\<rparr>\<rparr>)"

lemma with_transfer_simps [simp]:
  "sp_maxCto (slaveProperties (with_transfer b bs)) = Some 32" "sp_maxBs (slaveProperties (with_transfer b bs)) = Some bs"
  "sp_minSt (slaveProperties (with_transfer b bs)) = Some 0" "sp_masterBlockMode (slaveProperties (with_transfer b bs)) = Some b"
  "packers (with_transfer b bs) = Some Little"
  "pgm_maxCtoPgm (sp_pgmProcessor (slaveProperties (with_transfer b bs))) = Some 8"
  "pgm_maxBsPgm (sp_pgmProcessor (slaveProperties (with_transfer b bs))) = Some bs"
  "pgm_minStPgm (sp_pgmProcessor (slaveProperties (with_transfer b bs))) = Some 0"
  "pgm_master_block (sp_pgmProcessor (slaveProperties (with_transfer b bs))) = Some b"
  by (simp_all add: with_transfer_def Let_def)

definition memory_at :: "bytes \<Rightarrow> nat \<Rightarrow> nat \<Rightarrow> memory_slave" where
  "memory_at mem p cto = \<lparr>ms_memory = mem, ms_position = p, ms_pending = [], ms_payload = cto, ms_element = 1\<rparr>"

section \<open>Properties\<close>

text \<open>
  C10. \<open>push\<close> with master block mode, to a slave that accepts everything: SET_MTA, then the data in blocks of
  at most MAX_BS packets and 255 bytes, each packet within MAX_CTO. A slave that reassembles blocks as the
  standard says gets every block, and so the data, except a block of one full packet and a shorter one:
  its second packet is sent as a new DOWNLOAD.
\<close>

theorem push_in_block_mode:
  assumes "sp_maxCto (slaveProperties m) = Some (int n + 2)" and "sp_maxBs (slaveProperties m) = Some (int bs)"
    and "sp_minSt (slaveProperties m) = Some st" and "sp_masterBlockMode (slaveProperties m) = Some True"
    and "packers m = Some ord" and "0 \<le> a" and "a < 2 ^ 32" and "0 < n" and "0 < bs"
  shows "\<exists>addr blocks. push (setMta recorder) (download recorder) (downloadNext recorder) a e data m
      = Some (Inr (), sends (mta_frame addr e # concat (map (block_frames DOWNLOAD DOWNLOAD_NEXT n) blocks))
          (m\<lparr>mta_addr := Some (a, e)\<rparr>))
    \<and> makeDWordPacker ord a = Inr addr \<and> concat blocks = data
    \<and> (\<forall>b \<in> set blocks. length b \<le> min (bs * n) 255
        \<and> (\<forall>f \<in> set (block_frames DOWNLOAD DOWNLOAD_NEXT n b). \<exists>w c ps. f = Sent w c ps \<and> 1 + length ps \<le> n + 2)
        \<and> slave_block DOWNLOAD DOWNLOAD_NEXT (block_frames DOWNLOAD DOWNLOAD_NEXT n b)
            = (if n < length b \<and> length b < 2 * n then None else Some b))"
proof -
  have "min (int bs * (int n + 2 - 2)) 255 = int (min (bs * n) 255)" "0 < min (bs * n) 255"
    using assms(8,9) by (simp_all add: of_nat_min)
  from downloads.blocks_sent [OF assms(1,5-8) this(2,1), of e data] show ?thesis
    using assms(1-4) by (simp add: push_def attr_bind)
qed

theorem push_in_block_mode_witness:
  "\<exists>addr blocks. concat blocks = replicate 40 7 \<and> push (setMta recorder) (download recorder) (downloadNext recorder)
      0x1000 0 (replicate 40 7) (with_transfer True 4)
    = Some (Inr (), sends (mta_frame addr 0 # concat (map (block_frames DOWNLOAD DOWNLOAD_NEXT 30) blocks))
        ((with_transfer True 4)\<lparr>mta_addr := Some (0x1000, 0)\<rparr>))"
  using push_in_block_mode [where m = "with_transfer True 4" and n = 30 and bs = 4 and st = 0 and ord = Little and a = "0x1000" and e = 0 and data = "replicate 40 7"] by auto

text \<open>
  \<open>push\<close> without master block mode: SET_MTA, then the data in packets of MAX_CTO - 2 bytes. The slave
  answers each of them, but only a last, shorter packet is a request that waits for its answer.
\<close>

theorem push_without_block_mode:
  assumes "sp_maxCto (slaveProperties m) = Some (int n + 2)" and "sp_maxBs (slaveProperties m) = Some bs"
    and "sp_minSt (slaveProperties m) = Some st" and "sp_masterBlockMode (slaveProperties m) = Some False"
    and "packers m = Some ord" and "0 \<le> a" and "a < 2 ^ 32" and "0 < n"
  shows "\<exists>addr packets. push (setMta recorder) (download recorder) (downloadNext recorder) a e data m
      = Some (Inr (), sends (mta_frame addr e
          # map (\<lambda>c. Sent (length c < n) DOWNLOAD (int (length c) # c)) packets) (m\<lparr>mta_addr := Some (a, e)\<rparr>))
    \<and> makeDWordPacker ord a = Inr addr \<and> concat packets = data
    \<and> (\<forall>c \<in> set packets. 0 < length c \<and> length c \<le> n)"
proof -
  let ?m = "m\<lparr>mta_addr := Some (a, e)\<rparr>"
  obtain addr where mta: "setMta recorder a e m = Some (Inr [], sends [mta_frame addr e] ?m)"
    "makeDWordPacker ord a = Inr addr"
    using set_mta_sends [OF assms(5-7)] by (auto simp: mta_frame_def)
  have "push (setMta recorder) (download recorder) (downloadNext recorder) a e data m
      = Some (Inr (), sends (mta_frame addr e
          # map (\<lambda>c. Sent (length c < n) DOWNLOAD (int (length c) # c)) (chunks n data)) ?m)"
    using assms(1-4) mta(1) normal_mode_sends [OF assms(8)]
    by (simp add: push_def attr_bind attr_bind(1) [where f = sp_masterBlockMode and x = False] generalized_downloader_def mthen_simps)
  then show ?thesis
    using mta(2) concat_chunks [OF assms(8), of data] length_in_chunks [of _ n data]
    by (intro exI [of _ addr] exI [of _ "chunks n data"]) auto
qed

theorem push_without_block_mode_witness:
  "\<exists>addr packets. concat packets = replicate 40 7 \<and> push (setMta recorder) (download recorder) (downloadNext recorder)
      0x1000 0 (replicate 40 7) (with_transfer False 4)
    = Some (Inr (), sends (mta_frame addr 0 # map (\<lambda>c. Sent (length c < 30) DOWNLOAD (int (length c) # c)) packets)
        ((with_transfer False 4)\<lparr>mta_addr := Some (0x1000, 0)\<rparr>))"
  using push_without_block_mode [where m = "with_transfer False 4" and n = 30 and bs = 4 and st = 0 and ord = Little and a = "0x1000" and e = 0 and data = "replicate 40 7"] by auto

text \<open>
  \<open>flash_program\<close> in the slave's master block mode: SET_MTA, then the data in blocks of at most
  MAX_BS_PGM packets of MAX_CTO_PGM bytes; but the packets of a block are as long as MAX_CTO, the limit of
  the other commands, allows.
\<close>

theorem flash_program_blocks:
  assumes "sp_maxCto (slaveProperties m) = Some (int n + 2)" and "packers m = Some ord" and "0 \<le> a" and "a < 2 ^ 32"
    and "sp_pgmProcessor (slaveProperties m) = pg" and "pgm_maxCtoPgm pg = Some (int n' + 2)" and "pgm_maxBsPgm pg = Some (int bs)"
    and "pgm_minStPgm pg = Some st" and "pgm_master_block pg = Some True" and "0 < n" and "0 < n'" and "0 < bs"
  shows "\<exists>addr blocks. flash_program (setMta recorder) (program recorder) (programNext recorder) a data m
      = Some (Inr (), sends (mta_frame addr 0 # concat (map (block_frames PROGRAM PROGRAM_NEXT n) blocks))
          (m\<lparr>mta_addr := Some (a, 0)\<rparr>))
    \<and> makeDWordPacker ord a = Inr addr \<and> concat blocks = data
    \<and> (\<forall>b \<in> set blocks. length b \<le> min (bs * n') 255
        \<and> (\<forall>f \<in> set (block_frames PROGRAM PROGRAM_NEXT n b). \<exists>w c ps. f = Sent w c ps \<and> 1 + length ps \<le> n + 2)
        \<and> slave_block PROGRAM PROGRAM_NEXT (block_frames PROGRAM PROGRAM_NEXT n b)
            = (if n < length b \<and> length b < 2 * n then None else Some b))"
proof -
  have "min (int bs * (int n' + 2 - 2)) 255 = int (min (bs * n') 255)" "0 < min (bs * n') 255"
    using assms(11,12) by (simp_all add: of_nat_min)
  from programs.blocks_sent [OF assms(1-4,10) this(2,1), of 0 data] show ?thesis
    using assms(5-9) by (simp add: flash_program_def pgm_attr_def attr_bind)
qed

theorem flash_program_blocks_witness:
  "\<exists>addr blocks. concat blocks = replicate 40 7 \<and> flash_program (setMta recorder) (program recorder) (programNext recorder)
      0x1000 (replicate 40 7) (with_transfer True 4)
    = Some (Inr (), sends (mta_frame addr 0 # concat (map (block_frames PROGRAM PROGRAM_NEXT 30) blocks))
        ((with_transfer True 4)\<lparr>mta_addr := Some (0x1000, 0)\<rparr>))"
  using flash_program_blocks [where m = "with_transfer True 4" and n = 30 and ord = Little and a = "0x1000" and n' = 6 and bs = 4 and st = 0 and data = "replicate 40 7", OF _ _ _ _ refl]
  by auto

text \<open>
  C9. \<open>fetch\<close> refines the reading of a slave's memory: whatever the block mode, the payload limit and the
  chunks that follow from them, \<open>n\<close> elements at the memory transfer address are uploaded, the address moves
  behind them, and \<open>n\<close> bytes are returned. They are the memory's when an element is a byte; otherwise each
  chunk keeps only as many bytes as it has elements.
\<close>

theorem fetch_reads_memory:
  assumes "at_memory mem el cto p m" and "sp_slaveBlockMode (slaveProperties m) = Some block" and "0 < cto" and "cto \<le> 255"
    and "\<forall>l. limit = Some l \<longrightarrow> 8 \<le> l" and "p + n * el \<le> length mem"
  shows "\<exists>r m' c. fetch (upload memory_link) (int n) limit m = Some (Inr r, m') \<and> at_memory mem el cto (p + n * el) m'
    \<and> length r = n \<and> r = read_chunks mem el p (chunk_lengths c n) \<and> (el = 1 \<longrightarrow> r = take n (drop p mem))"
proof -
  have "0 < el" using assms(1) by (simp add: at_memory_def)
  have "sp_maxCto (slaveProperties m) = Some (int cto + 1)" using assms(1) by (simp add: at_memory_def)
  let ?c = "case limit of None \<Rightarrow> (if block then 255 else cto) | Some l \<Rightarrow> min (nat l) (if block then 255 else cto)"
  obtain m' where m': "fetch (upload memory_link) (int n) limit m = Some (Inr (read_chunks mem el p (chunk_lengths ?c n)), m')"
    "at_memory mem el cto (p + n * el) m'"
    using memory_reader.fetch_chunks [OF assms(1,2) \<open>sp_maxCto (slaveProperties m) = Some (int cto + 1)\<close> assms(3-6) refl] by blast
  moreover have "length (read_chunks mem el p (chunk_lengths ?c n)) = n"
    using length_read_chunks [OF \<open>0 < el\<close>, of p "chunk_lengths ?c n" mem] assms(6) by (simp only: sum_chunk_lengths)
  moreover have "el = 1 \<longrightarrow> read_chunks mem el p (chunk_lengths ?c n) = take n (drop p mem)"
    by (intro impI) (simp only: read_chunks_bytes sum_chunk_lengths)
  ultimately show ?thesis by blast
qed

theorem fetch_reads_memory_witness:
  "\<exists>r m'. fetch (upload memory_link) 300 None (connected_master (memory_at (replicate 400 7) 50 31))
      = Some (Inr r, m') \<and> r = replicate 300 7"
  using fetch_reads_memory [of "replicate 400 7" 1 31 50 "connected_master (memory_at (replicate 400 7) 50 31)" True None 300]
  by (auto simp: at_memory_def memory_at_def)

end
