(* ===== verification/Master_Unlock.thy ===== *)
theory Master_Unlock
  imports Master_Transfer
begin

text \<open>
  Seed and key: \<open>getCurrentProtectionStatus\<close> and \<open>cond_unlock\<close> of \<open>pyxcp/master/master.py\<close>. The decorated
  commands GET_STATUS, GET_SEED and UNLOCK, the user's seed-and-key function and the seed-and-key DLL are
  parameters; the strings of resource names are ASCII.
\<close>

section \<open>Model\<close>

text \<open>The dictionary with the value \<open>None\<close> for every resource is \<open>None\<close>.\<close>

definition getCurrentProtectionStatus ::
  "('t master, GetStatusResponse) proc \<Rightarrow> ('t master, ResourceType option) proc" where
  "getCurrentProtectionStatus get_status =
     mbind (mget currentProtectionStatus) (\<lambda>current.
     case current of
       Some status \<Rightarrow> mret (Some status)
     | None \<Rightarrow>
         mbind (mcatch (mbind get_status (\<lambda>status. mret (Some status))) (\<lambda>_. mret None)) (\<lambda>answer.
         case answer of
           None \<Rightarrow> mret None
         | Some status \<Rightarrow>
             mthen (setProtectionStatus (gs_resourceProtectionStatus status))
             (mget currentProtectionStatus)))"

text \<open>\<open>protection_status[name]\<close> for a name of \<open>RESOURCE_VALUES\<close>, and \<open>any(protection_status.values())\<close>\<close>

definition resource_locked :: "ResourceType option \<Rightarrow> string \<Rightarrow> bool" where
  "resource_locked protection name =
     (case protection of
        None \<Rightarrow> False
      | Some p \<Rightarrow>
          (name = ''dbg'' \<and> res_dbg p) \<or> (name = ''pgm'' \<and> res_pgm p) \<or> (name = ''stim'' \<and> res_stim p)
          \<or> (name = ''daq'' \<and> res_daq p) \<or> (name = ''calpag'' \<and> res_calpag p))"

definition any_locked :: "ResourceType option \<Rightarrow> bool" where
  "any_locked protection = (\<exists>name \<in> set (map fst RESOURCE_VALUES). resource_locked protection name)"

text \<open>The names of the resources: \<open>re.split(r"[ ,]", resources)\<close>, without empty parts, in lower case.\<close>

fun re_split :: "string \<Rightarrow> string list" where
  "re_split [] = [[]]"
| "re_split (c # cs) =
     (if c = CHR '' '' \<or> c = CHR '','' then [] # re_split cs
      else case re_split cs of [] \<Rightarrow> [[c]] | w # ws \<Rightarrow> (c # w) # ws)"

definition lower_char :: "char \<Rightarrow> char" where
  "lower_char c = (let n = of_char c :: nat in if 65 \<le> n \<and> n \<le> 90 then char_of (n + 32) else c)"

definition resource_names :: "string \<Rightarrow> string list" where
  "resource_names resources = map (map lower_char) (filter (\<lambda>r. r \<noteq> []) (re_split resources))"

fun join_names :: "string list \<Rightarrow> string" where
  "join_names [] = []"
| "join_names [w] = w"
| "join_names (w # v # ws) = w @ CHR '','' # join_names (v # ws)"

definition available_resources :: "('t master, string) proc" where
  "available_resources =
     mbind (attr sp_supportsCalpag) (\<lambda>calpag.
     mbind (attr sp_supportsDaq) (\<lambda>daq.
     mbind (attr sp_supportsStim) (\<lambda>stm.
     mbind (attr sp_supportsPgm) (\<lambda>pgm.
     mret (join_names ((if calpag then [''calpag''] else []) @ (if daq then [''daq''] else [])
       @ (if stm then [''stim''] else []) @ (if pgm then [''pgm''] else [])))))))"

text \<open>\<open>types.XcpGetSeedMode\<close> and \<open>dllif.SeedNKeyResult\<close>\<close>

abbreviation (input) FIRST_PART :: int where "FIRST_PART \<equiv> 0"
abbreviation (input) REMAINING :: int where "REMAINING \<equiv> 1"

abbreviation (input) SEED_ACK :: int where "SEED_ACK \<equiv> 0"

definition SeedNKeyResult_values :: "int list" where
  "SeedNKeyResult_values = [0, 1, 2, 3, 16, 17]"

definition seed_list :: "GetSeedResponse \<Rightarrow> ('t master, bytes) proc" where
  "seed_list result = (case seed_bytes result of None \<Rightarrow> mraise TypeError | Some seed \<Rightarrow> mret seed)"

partial_function (option) more_seed ::
  "(int \<Rightarrow> int \<Rightarrow> ('t master, GetSeedResponse) proc) \<Rightarrow> int \<Rightarrow> int \<Rightarrow> bytes \<Rightarrow> 't master \<Rightarrow> (bytes result \<times> 't master) option"
where
  "more_seed get_seed resource_value remaining seed m =
     (if remaining > 0 then
        (case mbind (get_seed REMAINING resource_value) (\<lambda>result.
              mbind (seed_list result) (\<lambda>part. mret (result, part))) m of
           None \<Rightarrow> None
         | Some (r, m') \<Rightarrow>
             (case r of
                Inl e \<Rightarrow> Some (Inl e, m')
              | Inr (result, part) \<Rightarrow>
                  more_seed get_seed resource_value (remaining - seed_length result) (seed @ part) m'))
      else Some (Inr seed, m))"

partial_function (option) send_key ::
  "(int \<Rightarrow> int list \<Rightarrow> ('t master, ResourceType) proc) \<Rightarrow> int \<Rightarrow> int \<Rightarrow> int list \<Rightarrow> 't master
    \<Rightarrow> (unit result \<times> 't master) option"
where
  "send_key unl max_payload remaining key m =
     (if key = [] then Some (Inr (), m)
      else
        (let data = py_slice key 0 max_payload
         in case unl remaining data m of
              None \<Rightarrow> None
            | Some (r, m') \<Rightarrow>
                (case r of
                   Inl e \<Rightarrow> Some (Inl e, m')
                 | Inr _ \<Rightarrow>
                     send_key unl max_payload (remaining - int (length data)) (py_from key max_payload) m')))"

text \<open>
  The user's function returns the key or raises; the DLL returns a code and the key or \<open>None\<close>. Without
  both, \<open>result\<close> is still the response of GET_SEED, which is no \<open>SeedNKeyResult\<close>.
\<close>

record key_source =
  seed_n_key_function :: "(int \<Rightarrow> bytes \<Rightarrow> bytes result) option"
  seed_n_key_dll :: "(int \<Rightarrow> bytes \<Rightarrow> (int \<times> bytes option) result) option"

definition compute_key :: "key_source \<Rightarrow> int \<Rightarrow> bytes \<Rightarrow> ('t master, int list) proc" where
  "compute_key ks resource_value seed =
     (case seed_n_key_function ks of
        Some f \<Rightarrow> mbind (mlift (f resource_value seed)) (\<lambda>key. mret (map uint key))
      | None \<Rightarrow>
          (case seed_n_key_dll ks of
             None \<Rightarrow> mraise ValueError
           | Some getKey \<Rightarrow>
               mbind (mlift (getKey resource_value seed)) (\<lambda>(result, key).
               if result = SEED_ACK then
                 (case key of None \<Rightarrow> mraise TypeError | Some k \<Rightarrow> mret (map uint k))
               else if result \<in> set SeedNKeyResult_values then mraise SeedNKeyError
               else mraise ValueError)))"

definition unlock_resource ::
  "(int \<Rightarrow> int \<Rightarrow> ('t master, GetSeedResponse) proc) \<Rightarrow> (int \<Rightarrow> int list \<Rightarrow> ('t master, ResourceType) proc)
    \<Rightarrow> key_source \<Rightarrow> int \<Rightarrow> ResourceType option \<Rightarrow> string \<Rightarrow> ('t master, unit) proc" where
  "unlock_resource get_seed unl ks max_payload protection_status name =
     (case map_of RESOURCE_VALUES name of
        None \<Rightarrow> mraise ValueError
      | Some resource_value \<Rightarrow>
          if \<not> resource_locked protection_status name then mret ()
          else
            mbind (get_seed FIRST_PART resource_value) (\<lambda>result.
            mbind (seed_list result) (\<lambda>seed.
            let len = seed_length result
            in if len = 0 then mret ()
               else
                 mbind (if len > max_payload then more_seed get_seed resource_value (len - int (length seed)) seed
                        else mret seed) (\<lambda>seed'.
                 mbind (compute_key ks resource_value seed') (\<lambda>key.
                 send_key unl max_payload (int (length key)) key)))))"

definition cond_unlock ::
  "('t master, GetStatusResponse) proc \<Rightarrow> (int \<Rightarrow> int \<Rightarrow> ('t master, GetSeedResponse) proc)
    \<Rightarrow> (int \<Rightarrow> int list \<Rightarrow> ('t master, ResourceType) proc) \<Rightarrow> key_source \<Rightarrow> string option
    \<Rightarrow> ('t master, unit) proc" where
  "cond_unlock get_status get_seed unl ks resources =
     mbind (attr sp_maxCto) (\<lambda>maxCto.
     mbind (getCurrentProtectionStatus get_status) (\<lambda>protection_status.
     if any_locked protection_status \<and> seed_n_key_dll ks = None \<and> seed_n_key_function ks = None
     then mraise RuntimeError
     else
       mbind (case resources of Some r \<Rightarrow> mret r | None \<Rightarrow> available_resources) (\<lambda>names.
       mfor (unlock_resource get_seed unl ks (maxCto - 2) protection_status) (resource_names names))))"

section \<open>Lemmas\<close>

text \<open>
  A CAN slave with a seed: GET_SEED returns the next \<open>n\<close> bytes of it, padded, after the number of bytes
  not yet returned; the keys of UNLOCK are recorded.
\<close>

record seed_slave =
  sd_seed :: bytes
  sd_position :: nat
  sd_unlocks :: "(int \<times> int list) list"

definition seed_link :: "nat \<Rightarrow> seed_slave link" where
  "seed_link n =
     \<lparr>lk_request = (\<lambda>cmd data s.
        if cmd = GET_SEED then
          (let pos = (if hd data = 0 then 0 else sd_position s); part = take n (drop pos (sd_seed s))
           in Some (Inr (word_of_nat (length (sd_seed s) - pos) # part @ replicate (n - length part) 0),
                s\<lparr>sd_position := pos + length part\<rparr>))
        else if cmd = UNLOCK \<and> data \<noteq> [] then
          Some (Inr [0], s\<lparr>sd_unlocks := sd_unlocks s @ [(hd data, List.tl data)]\<rparr>)
        else Some (Inl (XcpResponseError ERR_CMD_UNKNOWN), s)),
      lk_request_optional = (\<lambda>cmd data s. Some (Inr None, s)),
      lk_block_request = (\<lambda>cmd data s. Some (Inr (), s)),
      lk_block_receive = (\<lambda>n s. Some (Inr [], s)),
      lk_popleft = (\<lambda>s. Some (Inr None, s))\<rparr>"

text \<open>What \<open>construct\<close> makes of the two responses.\<close>

definition seed_parsers :: "'v parsers \<Rightarrow> bool" where
  "seed_parsers P \<longleftrightarrow>
     (\<forall>bo sz. sz \<noteq> 0 \<longrightarrow> parse_GetSeedResponse P bo (sz # replicate (unat sz) 0)
        = Inr \<lparr>seed_length = uint sz, seed_bytes = Some (replicate (unat sz) 0)\<rparr>)
     \<and> (\<forall>bo b. \<exists>r. parse_ResourceType P bo [b] = Inr r)"

lemma get_seed_part:
  fixes S :: bytes and start :: "int \<Rightarrow> seed_slave master \<Rightarrow> nat"
  defines "start \<equiv> \<lambda>mode m. if mode = 0 then 0 else sd_position (tl m)"
  assumes "seed_parsers P" and "transport_name m = ''can''" and "sp_byteOrder (slaveProperties m) = Some bo"
    and "sd_seed (tl m) = S" and "start mode m < length S" and "length S \<le> 255"
  shows "getSeed (seed_link n) P mode v m
    = Some (Inr \<lparr>seed_length = int (length S - start mode m), seed_bytes = Some (take n (drop (start mode m) S))\<rparr>,
        m\<lparr>tl := (tl m)\<lparr>sd_position := start mode m + min n (length S - start mode m)\<rparr>\<rparr>)"
proof -
  let ?p = "start mode m" and ?L = "length S - start mode m"
  have L: "?L < 256" "0 < ?L" using assms(6,7) by linarith+
  have sz: "unat (word_of_nat ?L :: 8 word) = ?L" "uint (word_of_nat ?L :: 8 word) = int ?L"
    using L(1) by (simp_all add: unat_of_nat uint_nat)
  have nz: "(word_of_nat ?L :: 8 word) \<noteq> 0" using sz(1) L(2) by (metis unat_0 less_irrefl)
  let ?part = "take n (drop ?p S)"
  have rq: "req (seed_link n) GET_SEED [mode, v] m = Some (Inr (word_of_nat ?L # ?part @ replicate (n - length ?part) 0),
      m\<lparr>tl := (tl m)\<lparr>sd_position := ?p + length ?part\<rparr>\<rparr>)"
    using assms(5) by (simp add: req_def via_def seed_link_def start_def Let_def)
  have parse: "parse_GetSeedResponse P bo (word_of_nat ?L # replicate ?L 0)
      = Inr \<lparr>seed_length = int ?L, seed_bytes = Some (replicate ?L 0)\<rparr>"
    using assms(2) nz sz unfolding seed_parsers_def by metis
  show ?thesis
    using assms(3,4) by (simp add: getSeed_def mbind_apply rq parsed_def mbind_assoc attr_bind sz parse)
qed

lemma whole_seed:
  assumes "seed_parsers P" and "transport_name m = ''can''" and "sp_byteOrder (slaveProperties m) = Some bo"
    and "sd_seed (tl m) = S" and "S \<noteq> []" and "length S \<le> 255" and "0 < n"
  shows "\<exists>q. mbind (getSeed (seed_link n) P FIRST_PART v) (\<lambda>result. mbind (seed_list result) (\<lambda>seed.
      let len = seed_length result
      in if len = 0 then mret ()
         else mbind (if len > int n then more_seed (getSeed (seed_link n) P) v (len - int (length seed)) seed else mret seed) f)) m
    = f (take (2 * n) S) (m\<lparr>tl := (tl m)\<lparr>sd_position := q\<rparr>\<rparr>)"
proof -
  have pos: "0 < length S" using assms(5) by simp
  have first: "getSeed (seed_link n) P 0 v m = Some (Inr \<lparr>seed_length = int (length S), seed_bytes = Some (take n S)\<rparr>,
      m\<lparr>tl := (tl m)\<lparr>sd_position := min n (length S)\<rparr>\<rparr>)"
    using get_seed_part [OF assms(1-4) _ assms(6), of 0 n v] pos by simp
  show ?thesis
  proof (cases "length S \<le> n")
    case True
    then show ?thesis using pos
      by (intro exI [of _ "min n (length S)"]) (simp add: mbind_apply first seed_list_def)
  next
    case False
    let ?m = "m\<lparr>tl := (tl m)\<lparr>sd_position := n\<rparr>\<rparr>"
    have second: "getSeed (seed_link n) P 1 v ?m = Some (Inr \<lparr>seed_length = int (length S - n), seed_bytes = Some (take n (drop n S))\<rparr>,
      m\<lparr>tl := (tl m)\<lparr>sd_position := n + min n (length S - n)\<rparr>\<rparr>)"
      using get_seed_part [OF assms(1), of ?m bo S 1 n v] assms(2-6) False by simp
    have stop: "more_seed g v r s m' = Some (Inr s, m')" if "r \<le> 0" for g r s m'
      using that by (subst more_seed.simps) simp
    have "more_seed (getSeed (seed_link n) P) v (int (length S) - int (length (take n S))) (take n S) ?m
      = Some (Inr (take n S @ take n (drop n S)), m\<lparr>tl := (tl m)\<lparr>sd_position := n + min n (length S - n)\<rparr>\<rparr>)"
      using False by (subst more_seed.simps) (simp add: mbind_apply second seed_list_def stop of_nat_diff)
    moreover have "take n S @ take n (drop n S) = take (2 * n) S" by (simp add: take_add [symmetric] mult_2)
    ultimately show ?thesis using False assms(5,7)
      by (intro exI [of _ "n + min n (length S - n)"]) (simp add: mbind_apply first seed_list_def Let_def)
  qed
qed

text \<open>The UNLOCK requests of a key.\<close>

function key_parts :: "nat \<Rightarrow> int list \<Rightarrow> (int \<times> int list) list" where
  "key_parts n key = (if n = 0 \<or> key = [] then [] else (int (length key), take n key) # key_parts n (drop n key))"
  by auto
termination by (relation "measure (\<lambda>(n, key). length key)") auto

declare key_parts.simps [simp del]

lemma key_parts_Cons:
  "0 < n \<Longrightarrow> key \<noteq> [] \<Longrightarrow> key_parts n key = (int (length key), take n key) # key_parts n (drop n key)"
  by (subst key_parts.simps) simp

lemma key_parts_Nil [simp]: "key_parts n [] = []"
  by (subst key_parts.simps) simp

lemma key_parts_correct:
  "0 < n \<Longrightarrow> concat (map snd (key_parts n key)) = key
    \<and> (\<forall>i < length (key_parts n key). fst (key_parts n key ! i) = int (length (concat (map snd (drop i (key_parts n key)))))
        \<and> snd (key_parts n key ! i) \<noteq> [] \<and> length (snd (key_parts n key ! i)) \<le> n)"
proof (induction n key rule: key_parts.induct)
  case (1 n key)
  show ?case
  proof (cases "key = []")
    case False
    have IH: "concat (map snd (key_parts n (drop n key))) = drop n key"
      "\<And>i. i < length (key_parts n (drop n key)) \<Longrightarrow> fst (key_parts n (drop n key) ! i)
          = int (length (concat (map snd (drop i (key_parts n (drop n key))))))
        \<and> snd (key_parts n (drop n key) ! i) \<noteq> [] \<and> length (snd (key_parts n (drop n key) ! i)) \<le> n"
      using "1.IH" "1.prems" False by auto
    show ?thesis
      unfolding key_parts_Cons [OF "1.prems" False]
      using IH False "1.prems" by (auto simp: nth_Cons drop_Cons split: nat.split)
  qed simp
qed

lemma send_key_parts:
  assumes "seed_parsers P" and "0 < n" and "sp_byteOrder (slaveProperties m) = Some bo"
  shows "\<exists>m'. send_key (unlock (seed_link k) P) (int n) (int (length key)) key m = Some (Inr (), m')
    \<and> sd_unlocks (tl m') = sd_unlocks (tl m) @ key_parts n key"
  using assms(2,3)
proof (induction n key arbitrary: m rule: key_parts.induct)
  case (1 n key)
  show ?case
  proof (cases "key = []")
    case True
    then show ?thesis by (subst send_key.simps) simp
  next
    case False
    obtain r where r: "parse_ResourceType P bo [0] = Inr r" using assms(1) unfolding seed_parsers_def by metis
    let ?t = "(tl m)\<lparr>sd_unlocks := sd_unlocks (tl m) @ [(int (length key), take n key)]\<rparr>"
    let ?m = "m\<lparr>tl := ?t, currentProtectionStatus := Some r\<rparr>"
    have rq: "req (seed_link k) UNLOCK (int (length key) # take n key) m = Some (Inr [0], m\<lparr>tl := ?t\<rparr>)"
      by (simp add: req_def via_def seed_link_def)
    have one: "unlock (seed_link k) P (int (length key)) (take n key) m = Some (Inr r, ?m)"
      using "1.prems" by (simp add: unlock_def mbind_apply rq parsed_def mbind_assoc attr_bind r setProtectionStatus_def)
    obtain m' where m': "send_key (unlock (seed_link k) P) (int n) (int (length (drop n key))) (drop n key) ?m = Some (Inr (), m')"
      "sd_unlocks (tl m') = sd_unlocks (tl ?m) @ key_parts n (drop n key)"
      using "1.IH" [of ?m] "1.prems" False by auto
    have "int (length key) - int (length (take n key)) = int (length (drop n key))" by simp
    then show ?thesis
      using m' False "1.prems"(1) py_slice_nat [of key 0 n]
      by (subst send_key.simps) (simp add: one Let_def py_from_pos key_parts_Cons)
  qed
qed

lemma resource_names_single:
  "name \<in> set (map fst RESOURCE_VALUES) \<Longrightarrow> resource_names name = [name]"
  by (auto simp: RESOURCE_VALUES_def resource_names_def lower_char_def Let_def)

text \<open>A locked master on CAN, with MAX_CTO 8.\<close>

definition seed_only_parsers :: "unit parsers" where
  "seed_only_parsers = no_parsers
     \<lparr>parse_GetSeedResponse := (\<lambda>bo bs. case bs of
          [] \<Rightarrow> Inl StreamError
        | sz # seed \<Rightarrow>
            if length seed < unat sz then Inl StreamError
            else Inr \<lparr>seed_length = uint sz, seed_bytes = (if sz = 0 then None else Some (take (unat sz) seed))\<rparr>),
      parse_ResourceType := (\<lambda>bo bs. Inr \<lparr>res_dbg = False, res_pgm = False, res_stim = False, res_daq = False, res_calpag = False\<rparr>)\<rparr>"

lemma seed_only_parsers: "seed_parsers seed_only_parsers"
  by (simp add: seed_parsers_def seed_only_parsers_def)

definition locked_master :: "bytes \<Rightarrow> seed_slave master" where
  "locked_master S =
     (let m = connected_master \<lparr>sd_seed = S, sd_position = 0, sd_unlocks = []\<rparr>
      in m\<lparr>transport_name := ''can'', slaveProperties := (slaveProperties m)\<lparr>sp_maxCto := Some 8, sp_byteOrder := Some INTEL\<rparr>,
           currentProtectionStatus := Some \<lparr>res_dbg = False, res_pgm = False, res_stim = False, res_daq = True, res_calpag = False\<rparr>\<rparr>)"

lemma locked_master_simps [simp]:
  "transport_name (locked_master S) = ''can''" "sp_maxCto (slaveProperties (locked_master S)) = Some 8"
  "sp_byteOrder (slaveProperties (locked_master S)) = Some INTEL"
  "currentProtectionStatus (locked_master S)
     = Some \<lparr>res_dbg = False, res_pgm = False, res_stim = False, res_daq = True, res_calpag = False\<rparr>"
  "tl (locked_master S) = \<lparr>sd_seed = S, sd_position = 0, sd_unlocks = []\<rparr>"
  by (simp_all add: locked_master_def Let_def)

lemma valid_name: "name \<in> set (map fst RESOURCE_VALUES) \<longleftrightarrow> map_of RESOURCE_VALUES name \<noteq> None"
  by (simp add: map_of_eq_None_iff)

lemma skip_resources:
  "\<forall>name \<in> set names. name \<in> set (map fst RESOURCE_VALUES) \<and> \<not> resource_locked prot name \<Longrightarrow>
    mfor (unlock_resource get_seed unl ks c prot) names m = Some (Inr (), m)"
  by (induction names) (auto simp: unlock_resource_def valid_name mthen_simps simp del: set_map)

section \<open>Properties\<close>

text \<open>
  C12. \<open>cond_unlock\<close> of a locked resource on CAN: the key function is given the first two parts of the
  slave's seed, which is all of it when it has at most twice MAX_CTO - 2 bytes; the key it returns is sent
  in parts of at most MAX_CTO - 2 bytes, in order, each announced with the number of bytes still missing.
\<close>

theorem cond_unlock_seed_and_key:
  assumes "seed_parsers P" and "transport_name m = ''can''" and "sp_byteOrder (slaveProperties m) = Some bo"
    and "sp_maxCto (slaveProperties m) = Some (int n + 2)" and "0 < n"
    and "currentProtectionStatus m = Some prot" and "resource_locked (Some prot) name"
    and "map_of RESOURCE_VALUES name = Some v"
    and "sd_seed (tl m) = S" and "S \<noteq> []" and "length S \<le> 255" and "f v (take (2 * n) S) = Inr key"
  shows "\<exists>m' us. cond_unlock get_status (getSeed (seed_link n) P) (unlock (seed_link n) P)
      \<lparr>seed_n_key_function = Some f, seed_n_key_dll = dll\<rparr> (Some name) m = Some (Inr (), m')
    \<and> sd_unlocks (tl m') = sd_unlocks (tl m) @ us \<and> concat (map snd us) = map uint key
    \<and> (\<forall>i < length us. fst (us ! i) = int (length (concat (map snd (drop i us))))
        \<and> snd (us ! i) \<noteq> [] \<and> length (snd (us ! i)) \<le> n)
    \<and> (length S \<le> 2 * n \<longrightarrow> take (2 * n) S = S)"
proof -
  let ?ks = "\<lparr>seed_n_key_function = Some f, seed_n_key_dll = dll\<rparr>"
  have name: "resource_names name = [name]"
    using assms(8) by (intro resource_names_single) (auto dest: map_of_SomeD intro: rev_image_eqI)
  have status: "getCurrentProtectionStatus get_status m = Some (Inr (Some prot), m)"
    using assms(6) by (simp add: getCurrentProtectionStatus_def)
  let ?send = "\<lambda>seed'. mbind (compute_key ?ks v seed') (\<lambda>key. send_key (unlock (seed_link n) P) (int n) (int (length key)) key)"
  obtain q where q: "unlock_resource (getSeed (seed_link n) P) (unlock (seed_link n) P) ?ks (int n) (Some prot) name m
      = ?send (take (2 * n) S) (m\<lparr>tl := (tl m)\<lparr>sd_position := q\<rparr>\<rparr>)"
    using whole_seed [OF assms(1-3,9-11,5), of v ?send] assms(7,8) by (auto simp: unlock_resource_def)
  obtain m' where m': "send_key (unlock (seed_link n) P) (int n) (int (length (map uint key))) (map uint key)
        (m\<lparr>tl := (tl m)\<lparr>sd_position := q\<rparr>\<rparr>) = Some (Inr (), m')"
    "sd_unlocks (tl m') = sd_unlocks (tl m) @ key_parts n (map uint key)"
    using send_key_parts [OF assms(1,5), of "m\<lparr>tl := (tl m)\<lparr>sd_position := q\<rparr>\<rparr>" bo n "map uint key"] assms(3) by auto
  have key: "compute_key ?ks v (take (2 * n) S) = mret (map uint key)"
    using assms(12) by (intro ext) (simp add: compute_key_def)
  have "unlock_resource (getSeed (seed_link n) P) (unlock (seed_link n) P) ?ks (int n) (Some prot) name m = Some (Inr (), m')"
    unfolding q key mbind_return(1) by (rule m'(1))
  then have "cond_unlock get_status (getSeed (seed_link n) P) (unlock (seed_link n) P) ?ks (Some name) m = Some (Inr (), m')"
    using assms(4) by (simp add: cond_unlock_def attr_bind mbind_apply status name mthen_simps)
  then show ?thesis using m'(2) key_parts_correct [OF assms(5), of "map uint key"] by auto
qed

theorem cond_unlock_seed_and_key_witness:
  "\<exists>m' us. cond_unlock (mraise KeyError) (getSeed (seed_link 6) seed_only_parsers) (unlock (seed_link 6) seed_only_parsers)
      \<lparr>seed_n_key_function = Some (\<lambda>v seed. Inr seed), seed_n_key_dll = None\<rparr> (Some ''daq'') (locked_master (replicate 14 7)) = Some (Inr (), m')
    \<and> sd_unlocks (tl m') = us \<and> concat (map snd us) = replicate 12 7"
  using cond_unlock_seed_and_key [OF seed_only_parsers, where m = "locked_master (replicate 14 7)" and bo = INTEL and n = 6
      and name = "''daq''" and v = 4 and S = "replicate 14 7" and f = "\<lambda>v seed. Inr seed" and key = "replicate 12 7"
      and prot = "\<lparr>res_dbg = False, res_pgm = False, res_stim = False, res_daq = True, res_calpag = False\<rparr>"
      and get_status = "mraise KeyError" and dll = None]
  by (auto simp: resource_locked_def RESOURCE_VALUES_def)

text \<open>
  \<open>cond_unlock\<close> sends nothing for a resource that is not locked; and when the protection status cannot be
  read it takes every resource for unlocked: it returns without an error and without unlocking anything.
\<close>

theorem cond_unlock_skips:
  assumes "sp_maxCto (slaveProperties m) = Some c"
    and "\<forall>name \<in> set (resource_names r). name \<in> set (map fst RESOURCE_VALUES)"
  shows "(\<forall>p. currentProtectionStatus m = Some p \<and> (\<forall>name \<in> set (resource_names r). \<not> resource_locked (Some p) name)
          \<and> (any_locked (Some p) \<longrightarrow> seed_n_key_dll ks \<noteq> None \<or> seed_n_key_function ks \<noteq> None) \<longrightarrow>
        cond_unlock get_status get_seed unl ks (Some r) m = Some (Inr (), m))
    \<and> (\<forall>e m1. currentProtectionStatus m = None \<and> get_status m = Some (Inl e, m1) \<longrightarrow>
        cond_unlock get_status get_seed unl ks (Some r) m = Some (Inr (), m1))"
proof -
  have known: "getCurrentProtectionStatus get_status m = Some (Inr (Some p), m)" if "currentProtectionStatus m = Some p" for p
    using that by (simp add: getCurrentProtectionStatus_def)
  have unknown: "getCurrentProtectionStatus get_status m = Some (Inr None, m1)"
    if "currentProtectionStatus m = None" "get_status m = Some (Inl e, m1)" for e m1
    using that by (simp add: getCurrentProtectionStatus_def mbind_apply mcatch_def)
  have none: "\<not> any_locked None" "\<not> resource_locked None name" for name
    by (simp_all add: any_locked_def resource_locked_def)
  show ?thesis
  proof (intro conjI allI impI)
    fix p assume p: "currentProtectionStatus m = Some p \<and> (\<forall>name \<in> set (resource_names r). \<not> resource_locked (Some p) name)
        \<and> (any_locked (Some p) \<longrightarrow> seed_n_key_dll ks \<noteq> None \<or> seed_n_key_function ks \<noteq> None)"
    then show "cond_unlock get_status get_seed unl ks (Some r) m = Some (Inr (), m)"
      using assms by (auto simp: cond_unlock_def attr_bind mbind_apply known skip_resources)
  next
    fix e m1 assume "currentProtectionStatus m = None \<and> get_status m = Some (Inl e, m1)"
    then show "cond_unlock get_status get_seed unl ks (Some r) m = Some (Inr (), m1)"
      using assms unknown [of e m1] by (auto simp: cond_unlock_def attr_bind mbind_apply none skip_resources)
  qed
qed

theorem cond_unlock_skips_witness:
  "cond_unlock (mraise KeyError) (getSeed (seed_link 6) seed_only_parsers) (unlock (seed_link 6) seed_only_parsers)
      \<lparr>seed_n_key_function = None, seed_n_key_dll = None\<rparr> (Some ''DAQ, pgm'') ((locked_master [1, 2])\<lparr>currentProtectionStatus := None\<rparr>)
    = Some (Inr (), (locked_master [1, 2])\<lparr>currentProtectionStatus := None\<rparr>)"
proof -
  have "resource_names ''DAQ, pgm'' = [''daq'', ''pgm'']"
    by code_simp
  then show ?thesis
    using cond_unlock_skips [of "(locked_master [1, 2])\<lparr>currentProtectionStatus := None\<rparr>" 8 "''DAQ, pgm''"]
    by (simp add: RESOURCE_VALUES_def)
qed

end
