(* ===== verification/Master_Info.thy ===== *)
theory Master_Info
  imports Master_Unlock "HOL-Library.AList"
begin

text \<open>
  The information methods of \<open>Master\<close>: \<open>try_command\<close>, \<open>identifier\<close>, \<open>id_scanner\<close>, \<open>getPagInfo\<close>,
  \<open>getPgmInfo\<close> and \<open>getDaqInfo\<close>. The decorated commands they call are parameters, and so is
  \<open>decode_bytes\<close>, which guesses an encoding with \<open>chardet\<close>. Dictionaries with fixed keys are records; a
  key that may be missing is an option. Warnings are left out.
\<close>

section \<open>Model\<close>

subsection \<open>Trying a command\<close>

record try_kws =
  kw_extra_msg :: "string option"
  kw_silent :: "bool option"

definition no_kws :: try_kws where
  "no_kws = \<lparr>kw_extra_msg = None, kw_silent = None\<rparr>"

text \<open>A command that takes no keyword arguments.\<close>

definition without_kws :: "('s, 'a) proc \<Rightarrow> try_kws \<Rightarrow> ('s, 'a) proc" where
  "without_kws cmd kws = (if kws = no_kws then cmd else mraise TypeError)"

definition set_suppress_xcp_error_log :: "bool \<Rightarrow> ('t master, unit) proc" where
  "set_suppress_xcp_error_log v = mput (\<lambda>m. m\<lparr>suppress_error_log := v\<rparr>)"

text \<open>The \<open>try\<close> statement: the command's outcome as a value.\<close>

definition outcome :: "('s, 'a) proc \<Rightarrow> ('s, 'a result) proc" where
  "outcome p = (\<lambda>s. map_option (\<lambda>(r, s'). (Inr r, s')) (p s))"

definition classify :: "'a result \<Rightarrow> TryCommandResult" where
  "classify r = (case r of
     Inr _ \<Rightarrow> TRY_OK
   | Inl e \<Rightarrow>
       (case e of
          SystemExit ec \<Rightarrow> (if ec = Some ERR_CMD_UNKNOWN then TRY_NOT_IMPLEMENTED else TRY_XCP_ERROR)
        | _ \<Rightarrow> TRY_OTHER_ERROR))"

text \<open>The keywords that are left after \<open>extra_msg\<close> and \<open>silent\<close> have been taken out, if they are true.\<close>

definition passed_kws :: "try_kws \<Rightarrow> try_kws" where
  "passed_kws kws =
     (let kws1 = (if kw_extra_msg kws \<in> {None, Some []} then kws else kws\<lparr>kw_extra_msg := None\<rparr>)
      in if kw_silent kws = Some True then kws1\<lparr>kw_silent := None\<rparr> else kws1)"

definition try_command ::
  "(try_kws \<Rightarrow> ('t master, 'a) proc) \<Rightarrow> try_kws \<Rightarrow> ('t master, TryCommandResult \<times> 'a result) proc" where
  "try_command cmd kws =
     mbind (mget suppress_error_log) (\<lambda>prev_suppress.
     mthen (set_suppress_xcp_error_log True)
     (mbind (outcome (cmd (passed_kws kws))) (\<lambda>r.
      mthen (set_suppress_xcp_error_log prev_suppress)
      (mret (classify r, r)))))"

subsection \<open>Identification\<close>

definition STD_IDS :: "(int \<times> string) list" where
  "STD_IDS = [(0, ''ASCII_TEXT''), (1, ''FILENAME''), (2, ''FILE_AND_PATH''), (3, ''URL''),
     (4, ''FILE_TO_UPLOAD''), (5, ''EPK''), (6, ''ECU''), (7, ''SYSID''), (0xDB, ''VECTOR_MAPNAMES''),
     (0xDC, ''VECTOR_MDI'')]"

definition identifier_of ::
  "(int \<Rightarrow> ('t master, GetIDResponse) proc) \<Rightarrow> (int \<Rightarrow> ('t master, bytes) proc) \<Rightarrow> (bytes \<Rightarrow> string result)
    \<Rightarrow> int \<Rightarrow> ('t master, string) proc" where
  "identifier_of get_id fetch_bytes decode_bytes id_value =
     mbind (get_id id_value) (\<lambda>gid.
     mbind (if id_mode gid mod 2 = 1 then mret (case id_identification gid of None \<Rightarrow> [] | Some v \<Rightarrow> v)
            else fetch_bytes (id_length gid)) (\<lambda>v.
     mlift (decode_bytes v)))"

text \<open>The range, value or list of an element of \<open>scan_ranges\<close>.\<close>

definition scan_element :: "int list \<Rightarrow> int list result" where
  "scan_element element =
     (case element of
        [] \<Rightarrow> Inl ValueError
      | [start, stop] \<Rightarrow> Inr [start..stop]
      | _ \<Rightarrow> Inr element)"

fun scan_elements :: "int list list \<Rightarrow> int list result" where
  "scan_elements [] = Inr []"
| "scan_elements (element # elements) =
     rbind (scan_element element) (\<lambda>range. rbind (scan_elements elements) (\<lambda>rest. Inr (range @ rest)))"

definition scan_range :: "int list list option \<Rightarrow> int list result" where
  "scan_range scan_ranges =
     rbind (case scan_ranges of None \<Rightarrow> Inr (map fst STD_IDS) | Some sr \<Rightarrow> scan_elements sr)
       (\<lambda>ids. Inr (sort (remdups ids)))"

fun decimal :: "nat \<Rightarrow> string" where
  "decimal n = (if n < 10 then [char_of (48 + n)] else decimal (n div 10) @ [char_of (48 + n mod 10)])"

declare decimal.simps [simp del]

definition id_name :: "nat \<Rightarrow> int \<Rightarrow> string" where
  "id_name idx id_value =
     (case map_of STD_IDS id_value of Some name \<Rightarrow> name | None \<Rightarrow> ''USER_'' @ decimal idx)"

definition generate :: "int list \<Rightarrow> (int \<times> string) list" where
  "generate ids = map (\<lambda>(idx, id_value). (id_value, id_name idx id_value)) (List.enumerate 0 ids)"

fun scan_loop ::
  "(int \<Rightarrow> ('t master, string) proc) \<Rightarrow> (int \<times> string) list \<Rightarrow> (string \<times> string) list
    \<Rightarrow> ('t master, (string \<times> string) list) proc" where
  "scan_loop ident [] result = mret result"
| "scan_loop ident ((id_value, name) # gen) result =
     mbind (try_command (without_kws (ident id_value)) (no_kws\<lparr>kw_silent := Some True\<rparr>)) (\<lambda>(status, response).
     case response of
       Inr s \<Rightarrow> scan_loop ident gen (if s \<noteq> [] then AList.update name s result else result)
     | Inl _ \<Rightarrow>
         if status = TRY_NOT_IMPLEMENTED then mret result
         else if status = TRY_XCP_ERROR then scan_loop ident gen result
         else mraise RuntimeError)"

definition id_scanner ::
  "(int \<Rightarrow> ('t master, string) proc) \<Rightarrow> int list list option \<Rightarrow> ('t master, (string \<times> string) list) proc" where
  "id_scanner ident scan_ranges =
     mbind (mlift (scan_range scan_ranges)) (\<lambda>ids. scan_loop ident (generate ids) [])"

subsection \<open>Calibration pages and sectors\<close>

text \<open>The attributes the methods read from a segment or sector information: a missing one raises.\<close>

definition standard_info :: "segment_info \<Rightarrow> ('s, GetSegmentInfoMode1Response) proc" where
  "standard_info info = (case info of SegmentMode1 r \<Rightarrow> mret r | _ \<Rightarrow> mraise AttributeError)"

definition basicInfo :: "segment_info \<Rightarrow> ('s, int) proc" where
  "basicInfo info = (case info of SegmentMode0 v \<Rightarrow> mret v | _ \<Rightarrow> mraise AttributeError)"

definition mappingInfo :: "segment_info \<Rightarrow> ('s, int) proc" where
  "mappingInfo info = (case info of SegmentMode2 v \<Rightarrow> mret v | _ \<Rightarrow> mraise AttributeError)"

definition sector_mode01 :: "sector_info \<Rightarrow> ('s, GetSectorInfoResponseMode01) proc" where
  "sector_mode01 info = (case info of SectorMode01 r \<Rightarrow> mret r | _ \<Rightarrow> mraise AttributeError)"

text \<open>No declaration of a sector information has the attribute \<open>nameLength\<close>.\<close>

definition nameLength :: "sector_info \<Rightarrow> ('s, int) proc" where
  "nameLength info = mraise AttributeError"

text \<open>\<open>if status == OK: x = attribute(response)\<close>\<close>

definition tried :: "('t master, 'a) proc \<Rightarrow> ('a \<Rightarrow> ('t master, 'b) proc) \<Rightarrow> ('t master, 'b option) proc" where
  "tried cmd f =
     mbind (try_command (without_kws cmd) no_kws) (\<lambda>(status, response).
     case response of Inl _ \<Rightarrow> mret None | Inr x \<Rightarrow> mbind (f x) (\<lambda>y. mret (Some y)))"

record mapping_info =
  map_index :: int
  sourceAddress :: "int option"
  destinationAddress :: "int option"
  map_length :: "int option"

record page_info =
  page_index :: int
  page_properties :: PagePropertiesInfo
  page_initSegment :: int

record segment =
  seg_index :: int
  seg_standard :: GetSegmentInfoMode1Response
  seg_address :: "int option"
  seg_length :: "int option"
  seg_mappings :: "mapping_info list option"
  seg_pages :: "page_info list"

record pag_info =
  pag_info_maxSegments :: int
  pag_info_freezeSupported :: bool
  segments :: "segment list"

definition get_mapping ::
  "(int \<Rightarrow> int \<Rightarrow> int \<Rightarrow> int \<Rightarrow> ('t master, segment_info) proc) \<Rightarrow> int \<Rightarrow> int \<Rightarrow> ('t master, mapping_info) proc" where
  "get_mapping seg_info i n =
     mbind (tried (seg_info 2 i 0 n) mappingInfo) (\<lambda>src.
     mbind (tried (seg_info 2 i 1 n) mappingInfo) (\<lambda>dst.
     mbind (tried (seg_info 2 i 2 n) mappingInfo) (\<lambda>len.
     mret \<lparr>map_index = n, sourceAddress = src, destinationAddress = dst, map_length = len\<rparr>)))"

definition get_pages ::
  "(int \<Rightarrow> int \<Rightarrow> ('t master, PageInfo) proc) \<Rightarrow> int \<Rightarrow> int \<Rightarrow> ('t master, page_info list) proc" where
  "get_pages page_info i count =
     mbind (mmap (\<lambda>p. tried (page_info i p) (\<lambda>pgi. mret
         \<lparr>page_index = p, page_properties = properties pgi, page_initSegment = init_segment pgi\<rparr>)) [0..count - 1]) (\<lambda>pages.
     mret (List.map_filter id pages))"

fun get_segments ::
  "(int \<Rightarrow> int \<Rightarrow> int \<Rightarrow> int \<Rightarrow> ('t master, segment_info) proc) \<Rightarrow> (int \<Rightarrow> int \<Rightarrow> ('t master, PageInfo) proc)
    \<Rightarrow> int list \<Rightarrow> ('t master, segment list) proc" where
  "get_segments seg_info page_info [] = mret []"
| "get_segments seg_info page_info (i # is) =
     mbind (tried (seg_info 1 i 0 0) standard_info) (\<lambda>standard.
     case standard of
       None \<Rightarrow> mret []
     | Some std_info \<Rightarrow>
         mbind (tried (seg_info 0 i 0 0) basicInfo) (\<lambda>address.
         mbind (tried (seg_info 0 i 1 0) basicInfo) (\<lambda>len.
         mbind (if sg_maxMapping std_info > 0 then
                  mbind (mmap (get_mapping seg_info i) [0..sg_maxMapping std_info - 1]) (\<lambda>ms. mret (Some ms))
                else mret None) (\<lambda>mappings.
         mbind (get_pages page_info i (sg_maxPages std_info)) (\<lambda>pages.
         mbind (get_segments seg_info page_info is) (\<lambda>rest.
         mret (\<lparr>seg_index = i, seg_standard = std_info, seg_address = address, seg_length = len,
                seg_mappings = mappings, seg_pages = pages\<rparr> # rest)))))))"

text \<open>The empty dictionary is \<open>None\<close>.\<close>

definition getPagInfo ::
  "('t master, GetPagProcessorInfoResponse) proc \<Rightarrow> (int \<Rightarrow> int \<Rightarrow> int \<Rightarrow> int \<Rightarrow> ('t master, segment_info) proc)
    \<Rightarrow> (int \<Rightarrow> int \<Rightarrow> ('t master, PageInfo) proc) \<Rightarrow> ('t master, pag_info option) proc" where
  "getPagInfo pag_processor_info seg_info page_info =
     mbind (attr sp_supportsCalpag) (\<lambda>calpag.
     if \<not> calpag then mret None
     else
       tried pag_processor_info (\<lambda>pag.
       mbind (get_segments seg_info page_info [0..pag_maxSegments pag - 1]) (\<lambda>segs.
       mret \<lparr>pag_info_maxSegments = pag_maxSegments pag, pag_info_freezeSupported = pag_freezeSupported pag,
             segments = segs\<rparr>)))"

record sector =
  sec_index :: int
  sec_clearSequenceNumber :: int
  sec_programSequenceNumber :: int
  sec_programmingMethod :: int
  sec_address :: int
  sec_length :: "int option"
  sec_nameLength :: "int option"

record pgm_info =
  pgm_info_properties :: PgmProperties
  pgm_info_maxSector :: int
  sectors :: "sector list"

fun get_sectors ::
  "(int \<Rightarrow> int \<Rightarrow> ('t master, sector_info) proc) \<Rightarrow> int list \<Rightarrow> ('t master, sector list) proc" where
  "get_sectors sec_info [] = mret []"
| "get_sectors sec_info (i # is) =
     mbind (tried (sec_info 0 i) sector_mode01) (\<lambda>info0.
     case info0 of
       None \<Rightarrow> mret []
     | Some r \<Rightarrow>
         mbind (tried (sec_info 1 i) (\<lambda>info1. mbind (sector_mode01 info1) (\<lambda>r1. mret (si_sectorInfo r1)))) (\<lambda>len.
         mbind (tried (sec_info 2 i) nameLength) (\<lambda>name_len.
         mbind (get_sectors sec_info is) (\<lambda>rest.
         mret (\<lparr>sec_index = i, sec_clearSequenceNumber = si_clearSequenceNumber r,
                sec_programSequenceNumber = si_programSequenceNumber r,
                sec_programmingMethod = si_programmingMethod r, sec_address = si_sectorInfo r,
                sec_length = len, sec_nameLength = name_len\<rparr> # rest)))))"

definition getPgmInfo ::
  "('t master, GetPgmProcessorInfoResponse) proc \<Rightarrow> (int \<Rightarrow> int \<Rightarrow> ('t master, sector_info) proc)
    \<Rightarrow> ('t master, pgm_info option) proc" where
  "getPgmInfo pgm_processor_info sec_info =
     mbind (attr sp_supportsPgm) (\<lambda>pgm.
     if \<not> pgm then mret None
     else
       tried pgm_processor_info (\<lambda>info.
       mbind (get_sectors sec_info [0..pi_maxSector info - 1]) (\<lambda>secs.
       mret \<lparr>pgm_info_properties = pi_pgmProperties info, pgm_info_maxSector = pi_maxSector info, sectors = secs\<rparr>)))"

section \<open>Lemmas\<close>

text \<open>A command that has the outcome \<open>r\<close> whenever it is called, and leaves the master's own state alone.\<close>

definition answers :: "('t master, 'a) proc \<Rightarrow> 'a result \<Rightarrow> bool" where
  "answers cmd r \<longleftrightarrow> (\<forall>m. \<exists>t. cmd m = Some (r, m\<lparr>tl := t\<rparr>))"

lemma tl_same [simp]: "m\<lparr>tl := tl m\<rparr> = m" "m\<lparr>suppress_error_log := suppress_error_log m\<rparr> = m"
  by simp_all

lemma answers_pure:
  fixes r :: "'a result" and x :: 'b
  shows "answers (mlift r :: ('t master, 'a) proc) r" "answers (mret x :: ('t master, 'b) proc) (Inr x)"
proof -
  have "\<exists>t. m = m\<lparr>tl := t\<rparr>" for m :: "'t master"
    by (rule exI [of _ "tl m"]) simp
  then show "answers (mlift r :: ('t master, 'a) proc) r" "answers (mret x :: ('t master, 'b) proc) (Inr x)"
    by (simp_all add: answers_def)
qed

lemma try_command_eq:
  assumes "kw_silent kws \<noteq> Some False" and "kw_extra_msg kws \<noteq> Some []"
  shows "try_command (without_kws cmd) kws m =
    map_option (\<lambda>(r, m'). (Inr (classify r, r), m'\<lparr>suppress_error_log := suppress_error_log m\<rparr>))
      (cmd (m\<lparr>suppress_error_log := True\<rparr>))"
proof -
  obtain a b where kws: "kws = \<lparr>kw_extra_msg = a, kw_silent = b\<rparr>" by (cases kws)
  have "passed_kws kws = no_kws"
    using assms by (cases a; cases b) (auto simp: kws no_kws_def passed_kws_def)
  then have "try_command (without_kws cmd) kws m =
      mbind (outcome cmd) (\<lambda>r. mthen (set_suppress_xcp_error_log (suppress_error_log m)) (mret (classify r, r)))
        (m\<lparr>suppress_error_log := True\<rparr>)"
    by (simp add: try_command_def without_kws_def set_suppress_xcp_error_log_def)
  then show ?thesis
    by (cases "cmd (m\<lparr>suppress_error_log := True\<rparr>)") (auto simp: mbind_def outcome_def set_suppress_xcp_error_log_def)
qed

lemma try_answers:
  assumes "answers cmd r" and "kw_silent kws \<noteq> Some False" and "kw_extra_msg kws \<noteq> Some []"
  shows "\<exists>t. try_command (without_kws cmd) kws m = Some (Inr (classify r, r), m\<lparr>tl := t\<rparr>)"
proof -
  obtain t where "cmd (m\<lparr>suppress_error_log := True\<rparr>) = Some (r, m\<lparr>suppress_error_log := True, tl := t\<rparr>)"
    using assms(1) by (auto simp: answers_def)
  then show ?thesis by (intro exI [of _ t]) (simp add: try_command_eq [OF assms(2,3)])
qed

lemma kws_simps [simp]: "kw_silent no_kws = None" "kw_extra_msg no_kws = None"
  by (simp_all add: no_kws_def)

lemma classify_ok [simp]: "classify (Inr x) = TRY_OK"
  by (simp add: classify_def)

lemma classify_error:
  "classify (Inl e :: 'a result) = TRY_NOT_IMPLEMENTED \<or> classify (Inl e :: 'a result) = TRY_XCP_ERROR
    \<or> classify (Inl e :: 'a result) = TRY_OTHER_ERROR"
  by (simp add: classify_def split: pyexn.split)

lemma tried_answers:
  assumes "answers cmd r"
  shows "\<exists>t. tried cmd f m = (case r of Inl _ \<Rightarrow> mret None | Inr x \<Rightarrow> mbind (f x) (\<lambda>y. mret (Some y))) (m\<lparr>tl := t\<rparr>)"
proof -
  obtain t where "try_command (without_kws cmd) no_kws m = Some (Inr (classify r, r), m\<lparr>tl := t\<rparr>)"
    using try_answers [OF assms, of no_kws] by auto
  then show ?thesis by (auto simp: tried_def mbind_apply)
qed

subsection \<open>Names\<close>

definition numeral_value :: "string \<Rightarrow> nat" where
  "numeral_value = foldl (\<lambda>a c. 10 * a + (of_char c - 48)) 0"

lemma numeral_value_decimal: "numeral_value (decimal n) = n"
proof (induction n rule: decimal.induct)
  case (1 n)
  have digit: "of_char (char_of (48 + d) :: char) - (48 :: nat) = d" if "d < 10" for d :: nat
    using that by simp
  show ?case
  proof (cases "n < 10")
    case True
    then show ?thesis using digit [OF True] by (simp add: decimal.simps [of n] numeral_value_def)
  next
    case False
    then have "numeral_value (decimal n) = 10 * numeral_value (decimal (n div 10)) + n mod 10"
      using digit [of "n mod 10"] by (simp add: decimal.simps [of n] numeral_value_def)
    then show ?thesis using "1.IH" False by simp
  qed
qed

lemma decimal_inj [simp]: "decimal a = decimal b \<longleftrightarrow> a = b"
  using numeral_value_decimal by metis

lemma std_ids_distinct: "distinct (map fst STD_IDS)" "distinct (map snd STD_IDS)"
  "name \<in> set (map snd STD_IDS) \<Longrightarrow> name \<noteq> ''USER_'' @ ds"
  by (auto simp: STD_IDS_def)

lemma std_name: "map_of STD_IDS v = Some name \<Longrightarrow> map_of STD_IDS w = Some name \<Longrightarrow> v = w"
  by (auto simp: STD_IDS_def split: if_splits)

lemma id_name_inj:
  assumes "id_name i v = id_name j w" and "(i = j) = (v = w)"
  shows "v = w"
proof (rule ccontr)
  assume "v \<noteq> w"
  have std: "name \<noteq> ''USER_'' @ ds" if "map_of STD_IDS u = Some name" for u name ds
    using that by (intro std_ids_distinct(3)) (auto dest: map_of_SomeD intro: rev_image_eqI)
  from \<open>v \<noteq> w\<close> show False
    using assms std std_name [of v _ w]
    by (cases "map_of STD_IDS v"; cases "map_of STD_IDS w") (auto simp: id_name_def)
qed

lemma generate_names:
  assumes "distinct ids"
  shows "distinct (map snd (generate ids))"
proof -
  have "id_name i (ids ! i) \<noteq> id_name j (ids ! j)" if "i < length ids" "j < length ids" "i \<noteq> j" for i j
    using that assms id_name_inj [of i "ids ! i" j "ids ! j"] by (auto simp: nth_eq_iff_index_eq)
  then show ?thesis
    by (auto simp: distinct_conv_nth generate_def nth_enumerate_eq)
qed

lemma update_new: "k \<notin> fst ` set al \<Longrightarrow> AList.update k v al = al @ [(k, v)]"
  by (induction al) auto

section \<open>Properties\<close>

text \<open>
  \<open>try_command\<close> never raises: it returns what the command returned or raised, classified, with the
  suppression of error logs restored. With \<open>silent=False\<close> the command is not run at all: the keyword is
  passed on to it and the result is its \<open>TypeError\<close>.
\<close>

theorem try_command_outcome:
  "(kw_silent kws \<noteq> Some False \<and> kw_extra_msg kws \<noteq> Some [] \<longrightarrow>
      try_command (without_kws cmd) kws m =
        map_option (\<lambda>(r, m'). (Inr (classify r, r), m'\<lparr>suppress_error_log := suppress_error_log m\<rparr>))
          (cmd (m\<lparr>suppress_error_log := True\<rparr>)))
   \<and> (kw_silent kws = Some False \<longrightarrow>
      try_command (without_kws cmd) kws m = Some (Inr (TRY_OTHER_ERROR, Inl TypeError), m))"
proof -
  obtain a b where kws: "kws = \<lparr>kw_extra_msg = a, kw_silent = b\<rparr>" by (cases kws)
  have "try_command (without_kws cmd) kws m = Some (Inr (TRY_OTHER_ERROR, Inl TypeError), m)" if "b = Some False"
    using that by (simp add: try_command_def without_kws_def no_kws_def kws passed_kws_def outcome_def mbind_def mthen_def
        set_suppress_xcp_error_log_def classify_def)
  then show ?thesis using try_command_eq [of kws cmd m] by (auto simp: kws)
qed

text \<open>
  \<open>id_scanner\<close>: identifications are tried in ascending order until the slave does not know GET_ID, and
  the dictionary has, in that order and under pairwise different names, those that returned a text; an
  exception that is no negative response ends the scan with a \<open>RuntimeError\<close>.
\<close>

theorem id_scanner_result:
  fixes ident :: "int \<Rightarrow> ('t master, string) proc"
  assumes "\<And>v. answers (ident v) (o' v)" and "scan_range scan_ranges = Inr ids"
  defines "tries \<equiv> takeWhile (\<lambda>(v, name). classify (o' v) \<noteq> TRY_NOT_IMPLEMENTED) (generate ids)"
  shows "\<exists>t. id_scanner ident scan_ranges m =
      Some (if \<exists>(v, name) \<in> set tries. classify (o' v) = TRY_OTHER_ERROR then Inl RuntimeError
            else Inr (List.map_filter (\<lambda>(v, name). case o' v of Inr (c # s) \<Rightarrow> Some (name, c # s) | _ \<Rightarrow> None) tries),
        m\<lparr>tl := t\<rparr>)
    \<and> sorted ids \<and> distinct (map snd (generate ids)) \<and> map fst (generate ids) = ids"
proof -
  let ?names = "List.map_filter (\<lambda>(v, name). case o' v of Inr (c # s) \<Rightarrow> Some (name, c # s) | _ \<Rightarrow> None)"
  let ?tries = "takeWhile (\<lambda>(v, name). classify (o' v) \<noteq> TRY_NOT_IMPLEMENTED)"
  have loop: "distinct (map fst acc @ map snd gen) \<Longrightarrow> \<exists>t. scan_loop ident gen acc m =
      Some (if \<exists>(v, name) \<in> set (?tries gen). classify (o' v) = TRY_OTHER_ERROR then Inl RuntimeError
            else Inr (acc @ ?names (?tries gen)), m\<lparr>tl := t\<rparr>)" for gen acc m
  proof (induction gen arbitrary: acc m)
    case Nil
    show ?case by (intro exI [of _ "tl m"]) (simp add: List.map_filter_simps)
  next
    case (Cons x gen)
    obtain v name where x: "x = (v, name)" by (cases x)
    obtain t where t: "try_command (without_kws (ident v)) (no_kws\<lparr>kw_silent := Some True\<rparr>) m
        = Some (Inr (classify (o' v), o' v), m\<lparr>tl := t\<rparr>)"
      using try_answers [OF assms(1), of "no_kws\<lparr>kw_silent := Some True\<rparr>"] by auto
    have fresh: "name \<notin> fst ` set acc" using Cons.prems x by auto
    show ?case
    proof (cases "o' v")
      case (Inl e)
      have "distinct (map fst acc @ map snd gen)" using Cons.prems by simp
      from Cons.IH [OF this, of "m\<lparr>tl := t\<rparr>"] obtain ta where
        IH: "scan_loop ident gen acc (m\<lparr>tl := t\<rparr>) =
          Some (if \<exists>(v, name) \<in> set (?tries gen). classify (o' v) = TRY_OTHER_ERROR then Inl RuntimeError
                else Inr (acc @ ?names (?tries gen)), m\<lparr>tl := ta\<rparr>)" by auto
      have "\<exists>t' \<in> {t, ta}. scan_loop ident (x # gen) acc m =
          Some (if \<exists>(v, name) \<in> set (?tries (x # gen)). classify (o' v) = TRY_OTHER_ERROR then Inl RuntimeError
                else Inr (acc @ ?names (?tries (x # gen))), m\<lparr>tl := t'\<rparr>)"
        using t Inl classify_error [of e, where 'a = string]
        by (elim disjE) (simp_all add: x mbind_apply List.map_filter_simps IH)
      then show ?thesis by blast
    next
      case (Inr s)
      let ?acc = "if s \<noteq> [] then AList.update name s acc else acc"
      have acc: "?acc = acc @ (case s of [] \<Rightarrow> [] | c # r \<Rightarrow> [(name, s)])"
        by (simp add: update_new fresh split: list.split)
      have "distinct (map fst ?acc @ map snd gen)" using Cons.prems x fresh unfolding acc by (auto split: list.split)
      from Cons.IH [OF this, of "m\<lparr>tl := t\<rparr>"] obtain ta where
        IH: "scan_loop ident gen ?acc (m\<lparr>tl := t\<rparr>) =
          Some (if \<exists>(v, name) \<in> set (?tries gen). classify (o' v) = TRY_OTHER_ERROR then Inl RuntimeError
                else Inr (?acc @ ?names (?tries gen)), m\<lparr>tl := ta\<rparr>)" by auto
      have step: "scan_loop ident (x # gen) acc m = scan_loop ident gen ?acc (m\<lparr>tl := t\<rparr>)"
        using t Inr by (simp add: x mbind_apply)
      have "scan_loop ident (x # gen) acc m =
          Some (if \<exists>(v, name) \<in> set (?tries (x # gen)). classify (o' v) = TRY_OTHER_ERROR then Inl RuntimeError
                else Inr (acc @ ?names (?tries (x # gen))), m\<lparr>tl := ta\<rparr>)"
        unfolding trans [OF step IH] acc using Inr by (cases s) (simp_all add: x List.map_filter_simps)
      then show ?thesis by blast
    qed
  qed
  have ids: "sorted ids" "distinct ids"
    using assms(2) by (auto simp: scan_range_def rbind_def split: option.splits sum.splits)
  have "distinct (map fst [] @ map snd (generate ids))" using generate_names [OF ids(2)] by simp
  from loop [OF this, of m, unfolded append_Nil] obtain t where
    "scan_loop ident (generate ids) [] m =
      Some (if \<exists>(v, name) \<in> set tries. classify (o' v) = TRY_OTHER_ERROR then Inl RuntimeError else Inr (?names tries), m\<lparr>tl := t\<rparr>)"
    unfolding tries_def by blast
  moreover have "id_scanner ident scan_ranges m = scan_loop ident (generate ids) [] m"
    using assms(2) by (simp add: id_scanner_def)
  moreover have "map fst (generate ids) = ids" by (simp add: generate_def comp_def split_def)
  ultimately show ?thesis
    using ids(1) generate_names [OF ids(2)] by (intro exI [of _ t] conjI) (simp_all only:)
qed

theorem id_scanner_result_witness:
  "\<exists>t. id_scanner (\<lambda>v. mlift (if v < 3 then Inr ''text'' else Inl (SystemExit (Some ERR_CMD_UNKNOWN)))) (Some [[1, 4], [0]]) (connected_master [])
    = Some (Inr [(''ASCII_TEXT'', ''text''), (''FILENAME'', ''text''), (''FILE_AND_PATH'', ''text'')], (connected_master [])\<lparr>tl := t\<rparr>)"
proof -
  have range: "scan_range (Some [[1, 4], [0]]) = Inr [0, 1, 2, 3, 4]" by code_simp
  have names: "generate [0, 1, 2, 3, 4] = [(0, ''ASCII_TEXT''), (1, ''FILENAME''), (2, ''FILE_AND_PATH''), (3, ''URL''), (4, ''FILE_TO_UPLOAD'')]"
    by (simp add: generate_def id_name_def STD_IDS_def numeral_eq_Suc)
  show ?thesis
    using id_scanner_result [OF answers_pure(1) range, of "\<lambda>v. if v < 3 then Inr ''text'' else Inl (SystemExit (Some ERR_CMD_UNKNOWN))" "connected_master []"]
    by (simp add: names classify_def List.map_filter_simps)
qed

text \<open>
  \<open>getPgmInfo\<close> fails with \<open>AttributeError\<close> on every slave that answers GET_SECTOR_INFO for the first
  sector: it reads the name's length under another name than the one it is declared with.
\<close>

theorem get_pgm_info_fails:
  assumes "sp_supportsPgm (slaveProperties m) = Some True" and "answers pgm_processor_info (Inr info)" and "0 < pi_maxSector info"
    and "answers (sec_info 0 0) (Inr (SectorMode01 r))" and "answers (sec_info 1 0) r1" and "answers (sec_info 2 0) (Inr r2)"
  shows "\<exists>t. getPgmInfo pgm_processor_info sec_info m = Some (Inl AttributeError, m\<lparr>tl := t\<rparr>)"
proof -
  have upto: "[0..pi_maxSector info - 1] = 0 # [1..pi_maxSector info - 1]"
    using assms(3) by (subst upto.simps) simp
  let ?body = "\<lambda>info. mbind (get_sectors sec_info [0..pi_maxSector info - 1]) (\<lambda>secs.
      mret \<lparr>pgm_info_properties = pi_pgmProperties info, pgm_info_maxSector = pi_maxSector info, sectors = secs\<rparr>)"
  obtain t1 where t1: "tried pgm_processor_info ?body m = mbind (?body info) (\<lambda>y. mret (Some y)) (m\<lparr>tl := t1\<rparr>)"
    using tried_answers [OF assms(2), of ?body m] by auto
  obtain t2 where t2: "tried (sec_info 0 0) sector_mode01 (m\<lparr>tl := t1\<rparr>) = Some (Inr (Some r), m\<lparr>tl := t2\<rparr>)"
    using tried_answers [OF assms(4), of sector_mode01 "m\<lparr>tl := t1\<rparr>"] by (auto simp: sector_mode01_def)
  let ?len = "\<lambda>info1. mbind (sector_mode01 info1) (\<lambda>r1. mret (si_sectorInfo r1))"
  obtain t3 v where t3: "tried (sec_info 1 0) ?len (m\<lparr>tl := t2\<rparr>) = Some (v, m\<lparr>tl := t3\<rparr>)" "v = Inl AttributeError \<or> (\<exists>l. v = Inr l)"
    using tried_answers [OF assms(5), of ?len "m\<lparr>tl := t2\<rparr>"] by (cases r1) (auto simp: sector_mode01_def mbind_apply split: sector_info.splits)
  obtain t4 where t4: "tried (sec_info 2 0) nameLength (m\<lparr>tl := t3\<rparr>) = Some (Inl AttributeError, m\<lparr>tl := t4\<rparr>)"
    using tried_answers [OF assms(6), of nameLength "m\<lparr>tl := t3\<rparr>"] by (auto simp: nameLength_def)
  have "\<exists>t. ?body info (m\<lparr>tl := t1\<rparr>) = Some (Inl AttributeError, m\<lparr>tl := t\<rparr>)"
    using t3(2) by (auto simp: upto mbind_assoc mbind_apply t2 t3(1) t4)
  then show ?thesis
    using assms(1) t1 by (auto simp: getPgmInfo_def attr_bind mbind_apply)
qed

theorem get_pgm_info_fails_witness:
  "\<exists>t. getPgmInfo (mret \<lparr>pi_pgmProperties = \<lparr>nonSeqPgmRequired = False, nonSeqPgmSupported = False, encryptionRequired = False,
        encryptionSupported = False, compressionRequired = False, compressionSupported = False, functionalMode = False,
        absoluteMode = True\<rparr>, pi_maxSector = 2\<rparr>)
      (\<lambda>mode n. mret (if mode = 2 then SectorMode2 0 else SectorMode01 \<lparr>si_clearSequenceNumber = 0, si_programSequenceNumber = 0,
        si_programmingMethod = 0, si_sectorInfo = 0x8000\<rparr>)) (connected_master [])
    = Some (Inl AttributeError, (connected_master [])\<lparr>tl := t\<rparr>)"
proof -
  have pgm: "sp_supportsPgm (slaveProperties (connected_master [])) = Some True"
    by (simp add: connected_master_def Let_def setup_address_granularity_def setup_packers_and_unpackers_def
      setup_slave_properties_def sample_connect_def)
  show ?thesis by (rule get_pgm_info_fails [OF pgm answers_pure(2)]) (simp, (simp, rule answers_pure)+)
qed

end
