(* ===== verification/Master_Daq_Info.thy ===== *)
theory Master_Daq_Info
  imports Master_Info
begin

text \<open>
  \<open>Master.getDaqInfo\<close>: what the slave tells about its DAQ processor, the resolution and the event channels,
  with default values for what it does not tell and flags for what is valid.
\<close>

section \<open>Model\<close>

text \<open>The declarations of \<open>types.py\<close>; a named value of an enumeration is its name.\<close>

record DaqProperties =
  dp_overloadEvent :: bool
  dp_overloadMsb :: bool
  dp_pidOffSupported :: bool
  dp_timestampSupported :: bool
  dp_bitStimSupported :: bool
  dp_resumeSupported :: bool
  dp_prescalerSupported :: bool
  dp_daqConfigType :: string

record DaqKeyByte =
  Identification_Field :: string
  Address_Extension :: string
  Optimisation_Type :: string

record GetDaqProcessorInfoResponse =
  dpi_daqProperties :: DaqProperties
  dpi_maxDaq :: int
  dpi_maxEventChannel :: int
  dpi_minDaq :: int
  dpi_daqKeyByte :: DaqKeyByte

record DaqTimestampMode =
  tm_unit :: string
  tm_fixed :: bool
  tm_size :: string

record GetDaqResolutionInfoResponse =
  dri_granularityOdtEntrySizeDaq :: int
  dri_maxOdtEntrySizeDaq :: int
  dri_granularityOdtEntrySizeStim :: int
  dri_maxOdtEntrySizeStim :: int
  dri_timestampMode :: DaqTimestampMode
  dri_timestampTicks :: int

record DaqEventProperties =
  ep_consistency :: string
  ep_packed :: bool
  ep_stim :: bool
  ep_daq :: bool

record GetEventChannelInfoResponse =
  eci_daqEventProperties :: DaqEventProperties
  eci_maxDaqList :: int
  eci_eventChannelNameLength :: int
  eci_eventChannelTimeCycle :: int
  eci_eventChannelTimeUnit :: string
  eci_eventChannelPriority :: int

definition EVENT_CHANNEL_TIME_UNIT_TO_EXP :: "(string \<times> int) list" where
  "EVENT_CHANNEL_TIME_UNIT_TO_EXP = [
     (''EVENT_CHANNEL_TIME_UNIT_1PS'', -12), (''EVENT_CHANNEL_TIME_UNIT_10PS'', -11),
     (''EVENT_CHANNEL_TIME_UNIT_100PS'', -10), (''EVENT_CHANNEL_TIME_UNIT_1NS'', -9),
     (''EVENT_CHANNEL_TIME_UNIT_10NS'', -8), (''EVENT_CHANNEL_TIME_UNIT_100NS'', -7),
     (''EVENT_CHANNEL_TIME_UNIT_1US'', -6), (''EVENT_CHANNEL_TIME_UNIT_10US'', -5),
     (''EVENT_CHANNEL_TIME_UNIT_100US'', -4), (''EVENT_CHANNEL_TIME_UNIT_1MS'', -3),
     (''EVENT_CHANNEL_TIME_UNIT_10MS'', -2), (''EVENT_CHANNEL_TIME_UNIT_100MS'', -1),
     (''EVENT_CHANNEL_TIME_UNIT_1S'', 0)]"

text \<open>The resulting dictionary.\<close>

record processor_info =
  proc_minDaq :: int
  proc_maxDaq :: int
  proc_properties :: DaqProperties
  proc_keyByte :: DaqKeyByte

record resolution_info =
  reso_timestampTicks :: int
  reso_maxOdtEntrySizeDaq :: int
  reso_maxOdtEntrySizeStim :: int
  reso_granularityOdtEntrySizeDaq :: int
  reso_granularityOdtEntrySizeStim :: int
  reso_timestampMode :: DaqTimestampMode

record channel_info =
  ch_name :: string
  ch_priority :: int
  ch_unit :: string
  ch_cycle :: int
  ch_maxDaqList :: int
  ch_properties :: DaqEventProperties

record daq_report =
  rep_processor :: processor_info
  rep_resolution :: resolution_info
  rep_channels :: "channel_info list"
  processor_valid :: bool
  resolution_valid :: bool
  events_valid :: bool

definition default_processor_info :: processor_info where
  "default_processor_info =
     \<lparr>proc_minDaq = 0, proc_maxDaq = 0,
      proc_properties = \<lparr>dp_overloadEvent = False, dp_overloadMsb = True, dp_pidOffSupported = False,
        dp_timestampSupported = False, dp_bitStimSupported = False, dp_resumeSupported = False,
        dp_prescalerSupported = False, dp_daqConfigType = ''DYNAMIC''\<rparr>,
      proc_keyByte = \<lparr>Identification_Field = ''IDF_ABS_ODT_NUMBER'', Address_Extension = ''AE_SAME_FOR_ALL'',
        Optimisation_Type = ''OM_DEFAULT''\<rparr>\<rparr>"

definition default_resolution_info :: resolution_info where
  "default_resolution_info =
     \<lparr>reso_timestampTicks = 0, reso_maxOdtEntrySizeDaq = 0, reso_maxOdtEntrySizeStim = 0,
      reso_granularityOdtEntrySizeDaq = 1, reso_granularityOdtEntrySizeStim = 1,
      reso_timestampMode = \<lparr>tm_unit = ''DAQ_TIMESTAMP_UNIT_1NS'', tm_fixed = False, tm_size = ''NO_TIME_STAMP''\<rparr>\<rparr>"

definition processor_info_of :: "GetDaqProcessorInfoResponse \<Rightarrow> processor_info" where
  "processor_info_of dpi =
     \<lparr>proc_minDaq = dpi_minDaq dpi, proc_maxDaq = dpi_maxDaq dpi, proc_properties = dpi_daqProperties dpi,
      proc_keyByte = dpi_daqKeyByte dpi\<rparr>"

definition resolution_info_of :: "GetDaqResolutionInfoResponse \<Rightarrow> resolution_info" where
  "resolution_info_of dri =
     \<lparr>reso_timestampTicks = dri_timestampTicks dri, reso_maxOdtEntrySizeDaq = dri_maxOdtEntrySizeDaq dri,
      reso_maxOdtEntrySizeStim = dri_maxOdtEntrySizeStim dri,
      reso_granularityOdtEntrySizeDaq = dri_granularityOdtEntrySizeDaq dri,
      reso_granularityOdtEntrySizeStim = dri_granularityOdtEntrySizeStim dri,
      reso_timestampMode = dri_timestampMode dri\<rparr>"

definition channel_of :: "string \<Rightarrow> GetEventChannelInfoResponse \<Rightarrow> channel_info" where
  "channel_of name eci =
     \<lparr>ch_name = name, ch_priority = eci_eventChannelPriority eci, ch_unit = eci_eventChannelTimeUnit eci,
      ch_cycle = eci_eventChannelTimeCycle eci, ch_maxDaqList = eci_maxDaqList eci,
      ch_properties = eci_daqEventProperties eci\<rparr>"

definition event_of :: "string \<Rightarrow> int \<Rightarrow> GetEventChannelInfoResponse \<Rightarrow> DaqEventInfo" where
  "event_of name unit_exp eci =
     \<lparr>ev_name = name, ev_unit_exp = unit_exp, ev_cycle = eci_eventChannelTimeCycle eci,
      ev_maxDaqList = eci_maxDaqList eci, ev_priority = eci_eventChannelPriority eci,
      ev_consistency = ep_consistency (eci_daqEventProperties eci),
      ev_daq_supported = ep_daq (eci_daqEventProperties eci),
      ev_stim_supported = ep_stim (eci_daqEventProperties eci),
      ev_packed_supported = ep_packed (eci_daqEventProperties eci)\<rparr>"

text \<open>An event channel that could be read: its name is fetched and decoded.\<close>

definition read_channel ::
  "(int \<Rightarrow> ('t master, bytes) proc) \<Rightarrow> (bytes \<Rightarrow> string result) \<Rightarrow> GetEventChannelInfoResponse
    \<Rightarrow> ('t master, channel_info \<times> DaqEventInfo) proc" where
  "read_channel fetch_bytes decode_bytes eci =
     mbind (fetch_bytes (eci_eventChannelNameLength eci)) (\<lambda>raw.
     mbind (if raw \<noteq> [] then mlift (decode_bytes raw) else mret []) (\<lambda>name.
     case map_of EVENT_CHANNEL_TIME_UNIT_TO_EXP (eci_eventChannelTimeUnit eci) of
       None \<Rightarrow> mraise KeyError
     | Some unit_exp \<Rightarrow> mret (channel_of name eci, event_of name unit_exp eci)))"

fun event_loop ::
  "(int \<Rightarrow> ('t master, GetEventChannelInfoResponse) proc) \<Rightarrow> (int \<Rightarrow> ('t master, bytes) proc)
    \<Rightarrow> (bytes \<Rightarrow> string result) \<Rightarrow> int list \<Rightarrow> channel_info list \<Rightarrow> DaqEventInfo list \<Rightarrow> bool
    \<Rightarrow> ('t master, channel_info list \<times> DaqEventInfo list \<times> bool) proc" where
  "event_loop event_info fetch_bytes decode_bytes [] channels daq_events valid = mret (channels, daq_events, valid)"
| "event_loop event_info fetch_bytes decode_bytes (ecn # ecns) channels daq_events valid =
     mbind (try_command (without_kws (event_info ecn)) (no_kws\<lparr>kw_silent := Some True\<rparr>)) (\<lambda>(status, eci).
     case eci of
       Inr e \<Rightarrow>
         mbind (read_channel fetch_bytes decode_bytes e) (\<lambda>(channel, event).
         event_loop event_info fetch_bytes decode_bytes ecns (channels @ [channel]) (daq_events @ [event]) valid)
     | Inl _ \<Rightarrow>
         if status = TRY_NOT_IMPLEMENTED then mret ([], [], False)
         else event_loop event_info fetch_bytes decode_bytes ecns channels daq_events False)"

definition getDaqInfo ::
  "('t master, GetDaqProcessorInfoResponse) proc \<Rightarrow> ('t master, GetDaqResolutionInfoResponse) proc
    \<Rightarrow> (int \<Rightarrow> ('t master, GetEventChannelInfoResponse) proc) \<Rightarrow> (int \<Rightarrow> ('t master, bytes) proc)
    \<Rightarrow> (bytes \<Rightarrow> string result) \<Rightarrow> bool \<Rightarrow> ('t master, daq_report) proc" where
  "getDaqInfo processor_info resolution_info event_info fetch_bytes decode_bytes include_event_lists =
     mbind (try_command (without_kws processor_info) (no_kws\<lparr>kw_extra_msg := Some ''DAQ processor info''\<rparr>)) (\<lambda>(_, dpi).
     let (proc_valid, proc_info, max_event_channel) =
           (case dpi of Inr d \<Rightarrow> (True, processor_info_of d, dpi_maxEventChannel d)
            | Inl _ \<Rightarrow> (False, default_processor_info, 0))
     in
     mbind (try_command (without_kws resolution_info) (no_kws\<lparr>kw_extra_msg := Some ''DAQ resolution info''\<rparr>)) (\<lambda>(_, dri).
     let (reso_valid, reso_info) =
           (case dri of Inr d \<Rightarrow> (True, resolution_info_of d) | Inl _ \<Rightarrow> (False, default_resolution_info))
     in
     mbind (if include_event_lists \<and> max_event_channel > 0 then
              event_loop event_info fetch_bytes decode_bytes [0..max_event_channel - 1] [] [] True
            else mret ([], [], if include_event_lists \<and> max_event_channel = 0 then proc_valid else \<not> include_event_lists))
       (\<lambda>(channels, daq_events, ev_valid).
     mthen (stim (StimSetDaqEventInfo daq_events))
     (mret \<lparr>rep_processor = proc_info, rep_resolution = reso_info, rep_channels = channels,
            processor_valid = proc_valid, resolution_valid = reso_valid, events_valid = ev_valid\<rparr>))))"

section \<open>Lemmas\<close>

text \<open>The channels whose information the slave returns, with the name fetched for each.\<close>

definition readable_channels ::
  "(int \<Rightarrow> GetEventChannelInfoResponse result) \<Rightarrow> (int \<Rightarrow> string) \<Rightarrow> int list \<Rightarrow> (string \<times> GetEventChannelInfoResponse) list" where
  "readable_channels out name_of ecns =
     List.map_filter (\<lambda>n. case out n of Inl _ \<Rightarrow> None | Inr e \<Rightarrow> Some (name_of (eci_eventChannelNameLength e), e)) ecns"

definition unit_exp :: "GetEventChannelInfoResponse \<Rightarrow> int" where
  "unit_exp e = the (map_of EVENT_CHANNEL_TIME_UNIT_TO_EXP (eci_eventChannelTimeUnit e))"

lemma event_loop_reads:
  fixes event_info :: "int \<Rightarrow> ('t master, GetEventChannelInfoResponse) proc"
  assumes "\<And>n. answers (event_info n) (out n)" and "\<And>n. answers (fetch_bytes n) (Inr (raw n))"
    and "\<And>n. decode_bytes (raw n) = Inr (name_of n)" and "\<And>n. raw n = [] \<Longrightarrow> name_of n = []"
    and "\<And>n e. out n = Inr e \<Longrightarrow> eci_eventChannelTimeUnit e \<in> set (map fst EVENT_CHANNEL_TIME_UNIT_TO_EXP)"
  shows "\<exists>t. event_loop event_info fetch_bytes decode_bytes ecns channels evs valid m =
    Some (Inr (if \<exists>n \<in> set ecns. classify (out n) = TRY_NOT_IMPLEMENTED then ([], [], False)
      else (channels @ map (\<lambda>(name, e). channel_of name e) (readable_channels out name_of ecns),
            evs @ map (\<lambda>(name, e). event_of name (unit_exp e) e) (readable_channels out name_of ecns),
            valid \<and> (\<forall>n \<in> set ecns. \<exists>e. out n = Inr e))), m\<lparr>tl := t\<rparr>)"
proof (induction ecns arbitrary: channels evs valid m)
  case Nil
  have "m\<lparr>tl := tl m\<rparr> = m" by simp
  then show ?case by (intro exI [of _ "tl m"]) (simp add: readable_channels_def List.map_filter_simps)
next
  case (Cons n ecns)
  obtain t where t: "try_command (without_kws (event_info n)) (no_kws\<lparr>kw_silent := Some True\<rparr>) m
      = Some (Inr (classify (out n), out n), m\<lparr>tl := t\<rparr>)"
    using try_answers [OF assms(1), of "no_kws\<lparr>kw_silent := Some True\<rparr>"] by auto
  show ?case
  proof (cases "out n")
    case (Inl e)
    obtain ta where IH: "event_loop event_info fetch_bytes decode_bytes ecns channels evs False (m\<lparr>tl := t\<rparr>) =
      Some (Inr (if \<exists>n \<in> set ecns. classify (out n) = TRY_NOT_IMPLEMENTED then ([], [], False)
        else (channels @ map (\<lambda>(name, e). channel_of name e) (readable_channels out name_of ecns),
              evs @ map (\<lambda>(name, e). event_of name (unit_exp e) e) (readable_channels out name_of ecns),
              False \<and> (\<forall>n \<in> set ecns. \<exists>e. out n = Inr e))), (m\<lparr>tl := t\<rparr>)\<lparr>tl := ta\<rparr>)"
      using Cons.IH [of channels evs False "m\<lparr>tl := t\<rparr>"] by blast
    have "event_loop event_info fetch_bytes decode_bytes (n # ecns) channels evs valid m =
        (if classify (out n) = TRY_NOT_IMPLEMENTED then Some (Inr ([], [], False), m\<lparr>tl := t\<rparr>)
         else event_loop event_info fetch_bytes decode_bytes ecns channels evs False (m\<lparr>tl := t\<rparr>))"
      using t Inl by (simp add: mbind_apply)
    then show ?thesis
      unfolding IH using Inl
      by (intro exI [of _ "if classify (out n) = TRY_NOT_IMPLEMENTED then t else ta"])
        (simp add: readable_channels_def List.map_filter_simps)
  next
    case (Inr e)
    let ?name = "name_of (eci_eventChannelNameLength e)"
    obtain tf where tf: "fetch_bytes (eci_eventChannelNameLength e) (m\<lparr>tl := t\<rparr>)
        = Some (Inr (raw (eci_eventChannelNameLength e)), m\<lparr>tl := tf\<rparr>)"
      using assms(2) [of "eci_eventChannelNameLength e", unfolded answers_def, rule_format, of "m\<lparr>tl := t\<rparr>"] by auto
    have unit: "map_of EVENT_CHANNEL_TIME_UNIT_TO_EXP (eci_eventChannelTimeUnit e) = Some (unit_exp e)"
      using assms(5) [OF Inr] unfolding unit_exp_def
      by (metis list.set_map map_of_eq_None_iff option.collapse)
    have "read_channel fetch_bytes decode_bytes e (m\<lparr>tl := t\<rparr>)
        = Some (Inr (channel_of ?name e, event_of ?name (unit_exp e) e), m\<lparr>tl := tf\<rparr>)"
      using assms(3,4) [of "eci_eventChannelNameLength e"] by (simp add: read_channel_def mbind_apply tf unit)
    then have step: "event_loop event_info fetch_bytes decode_bytes (n # ecns) channels evs valid m =
        event_loop event_info fetch_bytes decode_bytes ecns (channels @ [channel_of ?name e])
          (evs @ [event_of ?name (unit_exp e) e]) valid (m\<lparr>tl := tf\<rparr>)"
      using t Inr by (simp add: mbind_apply)
    have names: "readable_channels out name_of (n # ecns) = (?name, e) # readable_channels out name_of ecns"
      using Inr by (simp add: readable_channels_def List.map_filter_simps)
    have "(\<exists>n' \<in> set (n # ecns). classify (out n') = TRY_NOT_IMPLEMENTED) = (\<exists>n' \<in> set ecns. classify (out n') = TRY_NOT_IMPLEMENTED)"
      "(\<forall>n' \<in> set (n # ecns). \<exists>e. out n' = Inr e) = (\<forall>n' \<in> set ecns. \<exists>e. out n' = Inr e)"
      using Inr by simp_all
    then show ?thesis
      unfolding step names
      using Cons.IH [of "channels @ [channel_of ?name e]" "evs @ [event_of ?name (unit_exp e) e]" valid "m\<lparr>tl := tf\<rparr>"]
      by (simp only: append_assoc append_Cons append_Nil list.map prod.case) simp
  qed
qed

text \<open>All of it from the start, with what is left of the channels if the slave does not know the command.\<close>

lemma event_loop_reports:
  fixes m :: "'t master" and ecns :: "int list" and event_info :: "int \<Rightarrow> ('t master, GetEventChannelInfoResponse) proc"
  assumes "\<And>n. answers (event_info n) (out n)" and "\<And>n. answers (fetch_bytes n) (Inr (raw n))"
    and "\<And>n. decode_bytes (raw n) = Inr (name_of n)" and "\<And>n. raw n = [] \<Longrightarrow> name_of n = []"
    and "\<forall>n e. out n = Inr e \<longrightarrow> eci_eventChannelTimeUnit e \<in> set (map fst EVENT_CHANNEL_TIME_UNIT_TO_EXP)"
  defines "channels \<equiv> if \<exists>n \<in> set ecns. classify (out n) = TRY_NOT_IMPLEMENTED then [] else readable_channels out name_of ecns"
  shows "\<exists>t. event_loop event_info fetch_bytes decode_bytes ecns [] [] True m =
      Some (Inr (map (\<lambda>(name, e). channel_of name e) channels, map (\<lambda>(name, e). event_of name (unit_exp e) e) channels,
        \<forall>n \<in> set ecns. \<exists>e. out n = Inr e), m\<lparr>tl := t\<rparr>)"
proof -
  have ne: "classify (out n) = TRY_NOT_IMPLEMENTED \<Longrightarrow> out n \<noteq> Inr e" for n e by auto
  obtain t where t: "event_loop event_info fetch_bytes decode_bytes ecns [] [] True m =
    Some (Inr (if \<exists>n \<in> set ecns. classify (out n) = TRY_NOT_IMPLEMENTED then ([], [], False)
      else ([] @ map (\<lambda>(name, e). channel_of name e) (readable_channels out name_of ecns),
            [] @ map (\<lambda>(name, e). event_of name (unit_exp e) e) (readable_channels out name_of ecns),
            True \<and> (\<forall>n \<in> set ecns. \<exists>e. out n = Inr e))), m\<lparr>tl := t\<rparr>)"
    using event_loop_reads [where event_info = event_info and out = out and fetch_bytes = fetch_bytes and raw = raw
        and decode_bytes = decode_bytes and name_of = name_of and ecns = ecns and channels = "[]" and evs = "[]"
        and valid = True and m = m] assms(1-5) by blast
  show ?thesis
  proof (cases "\<exists>n \<in> set ecns. classify (out n) = TRY_NOT_IMPLEMENTED")
    case True
    then have "\<not> (\<forall>n \<in> set ecns. \<exists>e. out n = Inr e)" by (auto dest: ne)
    then show ?thesis using t True by (intro exI [of _ t]) (simp add: channels_def)
  next
    case False
    then show ?thesis using t by (intro exI [of _ t]) (simp add: channels_def)
  qed
qed

text \<open>A slave with two event channels, of which only the first can be read.\<close>

definition sample_processor :: GetDaqProcessorInfoResponse where
  "sample_processor = \<lparr>dpi_daqProperties = \<lparr>dp_overloadEvent = False, dp_overloadMsb = True, dp_pidOffSupported = True,
       dp_timestampSupported = True, dp_bitStimSupported = False, dp_resumeSupported = False,
       dp_prescalerSupported = True, dp_daqConfigType = ''DYNAMIC''\<rparr>,
     dpi_maxDaq = 8, dpi_maxEventChannel = 2, dpi_minDaq = 0,
     dpi_daqKeyByte = \<lparr>Identification_Field = ''IDF_ABS_ODT_NUMBER'', Address_Extension = ''AE_SAME_FOR_ALL_DAQ'',
       Optimisation_Type = ''OM_DEFAULT''\<rparr>\<rparr>"

definition sample_channels :: "int \<Rightarrow> GetEventChannelInfoResponse result" where
  "sample_channels n = (if n = 0 then Inr \<lparr>eci_daqEventProperties = \<lparr>ep_consistency = ''CONSISTENCY_ODT'', ep_packed = False,
       ep_stim = False, ep_daq = True\<rparr>, eci_maxDaqList = 4, eci_eventChannelNameLength = 1, eci_eventChannelTimeCycle = 10,
       eci_eventChannelTimeUnit = ''EVENT_CHANNEL_TIME_UNIT_1MS'', eci_eventChannelPriority = 0\<rparr>
     else Inl (SystemExit (Some ERR_OUT_OF_RANGE)))"

section \<open>Properties\<close>



end
