(* ===== verification/Master_Clock.thy ===== *)
theory Master_Clock
  imports Master_Commands
begin

text \<open>
  The time correlation commands of \<open>Master\<close>: TIME_CORRELATION_PROPERTIES, which sets the format of the
  clock reports and remembers the slave's answer, and GET_DAQ_CLOCK, whose answer is parsed accordingly.
\<close>

section \<open>Model\<close>

definition getDaqClock :: "'t link \<Rightarrow> ('t master, GetDaqClockResponse) proc" where
  "getDaqClock L =
     mbind (req L GET_DAQ_CLOCK []) (\<lambda>response.
     mbind (attr sp_byteOrder) (\<lambda>bo.
     mbind (mget time_correlation_properties) (\<lambda>props.
     mlift (GetDaqClockResponse_parse response (byte_order_prefix bo) props))))"

definition timeCorrelationProperties ::
  "'t link \<Rightarrow> int \<Rightarrow> bool \<Rightarrow> int \<Rightarrow> int \<Rightarrow> bool \<Rightarrow> ('t master, TimeCorrelationPropertiesResponse) proc" where
  "timeCorrelationProperties L fmt get_clk_info cluster bridge set_cluster_id =
     (let set_properties = SetProperties_encode (fmt AND 0x03) (bridge AND 0x03) set_cluster_id;
          get_properties = GetPropertiesRequest_encode get_clk_info
      in mbind (WORD_pack cluster) (\<lambda>c.
         mbind (req L TIME_CORRELATION_PROPERTIES ([set_properties, get_properties, 0] @ c)) (\<lambda>response.
         mbind (attr sp_byteOrder) (\<lambda>bo.
         mbind (mlift (TimeCorrelationPropertiesResponse_parse response (byte_order_prefix bo))) (\<lambda>result.
         mthen (mput (\<lambda>m. m\<lparr>time_correlation_properties := Some result\<rparr>))
         (mret result))))))"

definition extended_daq_clock_format :: "'t master \<Rightarrow> bool" where
  "extended_daq_clock_format m = extended_clock (time_correlation_properties m)"

section \<open>Lemmas\<close>

lemma set_properties_byte:
  "SetProperties_encode (fmt AND 0x03) (bridge AND 0x03) set_id = fmt mod 4 + 4 * (bridge mod 4) + 16 * of_bool set_id"
proof -
  have "fmt mod 4 \<in> {0, 1, 2, 3}" "bridge mod 4 \<in> {0, 1, 2, 3}" by auto
  then show ?thesis by (auto simp: SetProperties_encode_def low_bits)
qed

lemma get_properties_byte: "GetPropertiesRequest_encode get_info = of_bool get_info"
  by (simp add: GetPropertiesRequest_encode_def)

lemma clock_commands_consistent:
  "preserves consistent (getDaqClock L)" "preserves consistent (timeCorrelationProperties L fmt get_info cluster bridge set_id)"
proof -
  have "preserves consistent (mput (\<lambda>m. m\<lparr>time_correlation_properties := Some r\<rparr>))" for r
    by (auto simp: preserves_def)
  then show "preserves consistent (getDaqClock L)" "preserves consistent (timeCorrelationProperties L fmt get_info cluster bridge set_id)"
    unfolding getDaqClock_def timeCorrelationProperties_def Let_def by (intro preserves_rules | assumption)+
qed

lemma req_apply:
  "lk_request L cmd data (tl m) = Some (r, t) \<Longrightarrow> req L cmd data m = Some (r, m\<lparr>tl := t\<rparr>)"
  by (simp add: req_def via_def)

section \<open>Properties\<close>


text \<open>A slave that answers both commands, its clock at 7, in the format it is told.\<close>

definition clock_link :: "int list link" where
  "clock_link =
     \<lparr>lk_request = (\<lambda>cmd data fmt.
        if cmd = TIME_CORRELATION_PROPERTIES then Some (Inr [word_of_int (hd data mod 4), 0, 0, 0, 0, 0, 0], [hd data mod 4])
        else if cmd = GET_DAQ_CLOCK then
          Some (Inr (if hd fmt = 0 then [0, 0, 0, 7, 0, 0, 0] else [0, 0, 2, 7, 0, 0, 0, 0, 0, 0, 0]), fmt)
        else Some (Inl XcpTimeoutError, fmt)),
      lk_request_optional = (\<lambda>cmd data s. Some (Inr None, s)), lk_block_request = (\<lambda>cmd data s. Some (Inr (), s)),
      lk_block_receive = (\<lambda>n s. Some (Inr [], s)), lk_popleft = (\<lambda>s. Some (Inr None, s))\<rparr>"

lemma connected_byte_order: "sp_byteOrder (slaveProperties (connected_master t)) = Some INTEL"
  by (simp add: connected_master_def Let_def setup_address_granularity_def setup_packers_and_unpackers_def
      setup_slave_properties_def sample_connect_def new_master_def)


end
