(* ===== verification/Calibration.thy ===== *)
theory Calibration
  imports Master_Info
begin

unbundle bit_operations_syntax

text \<open>
  \<open>pyxcp/master/calibration.py\<close>: the segments and pages of the slave, read once and cached, and the page
  switching operations on top of them. The object refers to a master: its state is a part of the object's
  state here, and the commands it calls, which are decorated with the error handling, are the record
  \<open>cal_commands\<close>. A dictionary is an association list in the order of its insertions.
\<close>

section \<open>Model\<close>

definition CAL_PAGE_MODE_ECU :: int where "CAL_PAGE_MODE_ECU = 0x01"
definition CAL_PAGE_MODE_XCP :: int where "CAL_PAGE_MODE_XCP = 0x02"
definition CAL_PAGE_MODE_ALL :: int where "CAL_PAGE_MODE_ALL = 0x80"

record Page =
  p_segment_number :: int
  p_page_number :: int
  p_properties :: "PagePropertiesInfo option"
  p_init_segment :: int

definition can_xcp_write :: "Page \<Rightarrow> bool" where
  "can_xcp_write p = (case p_properties p of None \<Rightarrow> False | Some q \<Rightarrow> xcp_write_access q)"

definition can_xcp_read :: "Page \<Rightarrow> bool" where
  "can_xcp_read p = (case p_properties p of None \<Rightarrow> False | Some q \<Rightarrow> xcp_read_access q)"

definition can_ecu_access :: "Page \<Rightarrow> bool" where
  "can_ecu_access p = (case p_properties p of None \<Rightarrow> False | Some q \<Rightarrow> ecu_access q)"

record Segment =
  s_number :: int
  s_max_pages :: int
  s_address_extension :: int
  s_max_mapping :: int
  s_compression_method :: int
  s_encryption_method :: int
  s_pages :: "(int \<times> Page) list"
  s_address :: "int option"
  s_length :: "int option"
  s_mode :: int

record 'm cal_commands =
  cc_getPagProcessorInfo :: "('m, GetPagProcessorInfoResponse) proc"
  cc_getSegmentInfo :: "int \<Rightarrow> int \<Rightarrow> int \<Rightarrow> int \<Rightarrow> ('m, segment_info) proc"
  cc_getPageInfo :: "int \<Rightarrow> int \<Rightarrow> ('m, PageInfo) proc"
  cc_getSegmentMode :: "int \<Rightarrow> ('m, byte option) proc"
  cc_setSegmentMode :: "int \<Rightarrow> int \<Rightarrow> ('m, bytes) proc"
  cc_setCalPage :: "int \<Rightarrow> int \<Rightarrow> int \<Rightarrow> ('m, bytes) proc"
  cc_getCalPage :: "int \<Rightarrow> int \<Rightarrow> ('m, byte) proc"
  cc_copyCalPage :: "int \<Rightarrow> int \<Rightarrow> int \<Rightarrow> int \<Rightarrow> ('m, bytes) proc"
  cc_setRequest :: "int \<Rightarrow> int \<Rightarrow> ('m, bytes) proc"

text \<open>The commands of \<open>Master_Commands\<close>, undecorated.\<close>

definition master_cal_commands :: "'t link \<Rightarrow> 'v parsers \<Rightarrow> 't master cal_commands" where
  "master_cal_commands L P =
     \<lparr>cc_getPagProcessorInfo = getPagProcessorInfo L P, cc_getSegmentInfo = getSegmentInfo L P,
      cc_getPageInfo = getPageInfo L P, cc_getSegmentMode = getSegmentMode L, cc_setSegmentMode = setSegmentMode L,
      cc_setCalPage = setCalPage L, cc_getCalPage = getCalPage L, cc_copyCalPage = copyCalPage L,
      cc_setRequest = setRequest L\<rparr>"

record 'm calibration =
  cal_master :: 'm
  cal_segments :: "(int \<times> Segment) list"
  cal_max_segments :: int
  cal_freeze_supported :: bool
  cal_initialized :: bool

definition new_calibration :: "'m \<Rightarrow> 'm calibration" where
  "new_calibration m = \<lparr>cal_master = m, cal_segments = [], cal_max_segments = 0, cal_freeze_supported = False,
     cal_initialized = False\<rparr>"

definition on_master :: "('m, 'a) proc \<Rightarrow> ('m calibration, 'a) proc" where
  "on_master p = (\<lambda>c. map_option (\<lambda>(r, m). (r, c\<lparr>cal_master := m\<rparr>)) (p (cal_master c)))"

text \<open>\<open>try: x = p except Exception: pass\<close>\<close>

definition attempt :: "('s, 'a) proc \<Rightarrow> ('s, 'a option) proc" where
  "attempt p = mcatch (mbind p (\<lambda>x. mret (Some x))) (\<lambda>e. mret None)"

subsection \<open>Discovery\<close>

text \<open>The address, and the length unless the address could not be read.\<close>

definition read_location :: "'m cal_commands \<Rightarrow> int \<Rightarrow> ('m calibration, int option \<times> int option) proc" where
  "read_location C i =
     mbind (attempt (mbind (on_master (cc_getSegmentInfo C 0 i 0 0)) basicInfo)) (\<lambda>address.
     case address of
       None \<Rightarrow> mret (None, None)
     | Some a \<Rightarrow>
         mbind (attempt (mbind (on_master (cc_getSegmentInfo C 0 i 1 0)) basicInfo)) (\<lambda>len. mret (Some a, len)))"

fun read_pages :: "'m cal_commands \<Rightarrow> int \<Rightarrow> int list \<Rightarrow> (int \<times> Page) list \<Rightarrow> ('m calibration, (int \<times> Page) list) proc" where
  "read_pages C i [] pages = mret pages"
| "read_pages C i (p # ps) pages =
     mbind (attempt (on_master (cc_getPageInfo C i p))) (\<lambda>info.
     read_pages C i ps
       (case info of
          None \<Rightarrow> pages
        | Some page_info \<Rightarrow>
            AList.update p \<lparr>p_segment_number = i, p_page_number = p, p_properties = Some (properties page_info),
              p_init_segment = init_segment page_info\<rparr> pages))"

definition read_segment :: "'m cal_commands \<Rightarrow> int \<Rightarrow> ('m calibration, Segment) proc" where
  "read_segment C i =
     mbind (on_master (cc_getSegmentInfo C 1 i 0 0)) (\<lambda>info.
     mbind (read_location C i) (\<lambda>(address, len).
     mbind (standard_info info) (\<lambda>seg_info.
     mbind (read_pages C i [0..sg_maxPages seg_info - 1] []) (\<lambda>pages.
     mbind (attempt (on_master (cc_getSegmentMode C i))) (\<lambda>mode.
     mret
       \<lparr>s_number = i, s_max_pages = sg_maxPages seg_info, s_address_extension = sg_addressExtension seg_info,
        s_max_mapping = sg_maxMapping seg_info, s_compression_method = sg_compressionMethod seg_info,
        s_encryption_method = sg_encryptionMethod seg_info, s_pages = pages, s_address = address, s_length = len,
        s_mode = (case mode of Some (Some b) \<Rightarrow> uint b | _ \<Rightarrow> 0)\<rparr>)))))"

definition store_segment :: "int \<Rightarrow> Segment \<Rightarrow> 'm calibration \<Rightarrow> 'm calibration" where
  "store_segment i s c = c\<lparr>cal_segments := AList.update i s (cal_segments c)\<rparr>"

definition discover_segment :: "'m cal_commands \<Rightarrow> int \<Rightarrow> ('m calibration, unit) proc" where
  "discover_segment C i =
     mbind (attempt (read_segment C i)) (\<lambda>s.
     case s of None \<Rightarrow> mret () | Some segment \<Rightarrow> mput (store_segment i segment))"

definition refresh :: "'m cal_commands \<Rightarrow> ('m calibration, unit) proc" where
  "refresh C =
     mbind (mcatch (on_master (cc_getPagProcessorInfo C)) (\<lambda>e. mraise RuntimeError)) (\<lambda>pag_info.
     mthen (mput (\<lambda>c. c\<lparr>cal_max_segments := pag_maxSegments pag_info, cal_freeze_supported := pag_freezeSupported pag_info,
       cal_segments := []\<rparr>))
     (mthen (mfor (discover_segment C) [0..pag_maxSegments pag_info - 1])
     (mput (\<lambda>c. c\<lparr>cal_initialized := True\<rparr>))))"

definition check_initialized :: "'m cal_commands \<Rightarrow> ('m calibration, unit) proc" where
  "check_initialized C = mbind (mget cal_initialized) (\<lambda>b. if b then mret () else refresh C)"

subsection \<open>Pages\<close>

definition set_page :: "'m cal_commands \<Rightarrow> int \<Rightarrow> int \<Rightarrow> int \<Rightarrow> ('m calibration, unit) proc" where
  "set_page C segment page mode =
     mthen (check_initialized C)
     (mbind (mget cal_segments) (\<lambda>segs.
      case map_of segs segment of
        None \<Rightarrow> mraise ValueError
      | Some s \<Rightarrow>
          (case map_of (s_pages s) page of
             None \<Rightarrow> mraise ValueError
           | Some pg \<Rightarrow>
               if p_properties pg \<noteq> None \<and> mode AND CAL_PAGE_MODE_XCP \<noteq> 0 \<and> \<not> can_xcp_write pg then mraise PermissionError
               else if p_properties pg \<noteq> None \<and> mode AND CAL_PAGE_MODE_ECU \<noteq> 0 \<and> \<not> can_ecu_access pg then mraise PermissionError
               else mbind (on_master (cc_setCalPage C mode segment page)) (\<lambda>_. mret ()))))"

definition set_ecu_page :: "'m cal_commands \<Rightarrow> int \<Rightarrow> int \<Rightarrow> ('m calibration, unit) proc" where
  "set_ecu_page C segment page = set_page C segment page CAL_PAGE_MODE_ECU"

definition set_xcp_page :: "'m cal_commands \<Rightarrow> int \<Rightarrow> int \<Rightarrow> ('m calibration, unit) proc" where
  "set_xcp_page C segment page = set_page C segment page CAL_PAGE_MODE_XCP"

definition set_all_pages :: "'m cal_commands \<Rightarrow> int \<Rightarrow> int \<Rightarrow> ('m calibration, unit) proc" where
  "set_all_pages C page mode =
     mbind (on_master (cc_setCalPage C (mode OR CAL_PAGE_MODE_ALL) 0 page)) (\<lambda>_. mret ())"

definition set_all_segments_page :: "'m cal_commands \<Rightarrow> int \<Rightarrow> int \<Rightarrow> ('m calibration, unit) proc" where
  "set_all_segments_page C page mode = set_all_pages C page mode"

definition get_page :: "'m cal_commands \<Rightarrow> int \<Rightarrow> int \<Rightarrow> ('m calibration, int) proc" where
  "get_page C segment mode = mbind (on_master (cc_getCalPage C mode segment)) (\<lambda>b. mret (uint b))"

text \<open>The ECU page and the XCP page of a segment.\<close>

definition config_of :: "'m cal_commands \<Rightarrow> int \<Rightarrow> ('m calibration, int \<times> int) proc" where
  "config_of C seg_idx =
     mbind (get_page C seg_idx CAL_PAGE_MODE_ECU) (\<lambda>ecu_page.
     mbind (get_page C seg_idx CAL_PAGE_MODE_XCP) (\<lambda>xcp_page. mret (ecu_page, xcp_page)))"

fun read_config :: "'m cal_commands \<Rightarrow> int list \<Rightarrow> (int \<times> int \<times> int) list \<Rightarrow> ('m calibration, (int \<times> int \<times> int) list) proc" where
  "read_config C [] config = mret config"
| "read_config C (seg_idx # rest) config =
     mbind (attempt (config_of C seg_idx)) (\<lambda>pages.
     read_config C rest (case pages of None \<Rightarrow> config | Some p \<Rightarrow> AList.update seg_idx p config))"

definition get_current_config :: "'m cal_commands \<Rightarrow> ('m calibration, (int \<times> int \<times> int) list) proc" where
  "get_current_config C =
     mthen (check_initialized C) (mbind (mget cal_segments) (\<lambda>segs. read_config C (map fst segs) []))"

definition copy_page :: "'m cal_commands \<Rightarrow> int \<Rightarrow> int \<Rightarrow> int \<Rightarrow> int \<Rightarrow> ('m calibration, unit) proc" where
  "copy_page C src_segment src_page dst_segment dst_page =
     mbind (on_master (cc_copyCalPage C src_segment src_page dst_segment dst_page)) (\<lambda>_. mret ())"

definition copy_segment :: "'m cal_commands \<Rightarrow> int \<Rightarrow> int \<Rightarrow> ('m calibration, unit) proc" where
  "copy_segment C src_segment dst_segment =
     mthen (check_initialized C)
     (mbind (mget cal_segments) (\<lambda>segs.
      case (map_of segs src_segment, map_of segs dst_segment) of
        (Some src, Some dst) \<Rightarrow>
          mfor (\<lambda>page_nr.
              if map_of (s_pages dst) page_nr \<noteq> None then copy_page C src_segment page_nr dst_segment page_nr
              else mret ())
            (map fst (s_pages src))
      | _ \<Rightarrow> mraise ValueError))"

subsection \<open>Freezing\<close>

definition set_freeze_mode :: "'m cal_commands \<Rightarrow> int \<Rightarrow> bool \<Rightarrow> ('m calibration, unit) proc" where
  "set_freeze_mode C segment enabled =
     mthen (check_initialized C)
     (mbind (mget cal_freeze_supported) (\<lambda>supported.
      if \<not> supported then mraise RuntimeError
      else
        let mode = (if enabled then 1 else 0)
        in mbind (on_master (cc_setSegmentMode C mode segment)) (\<lambda>_.
           mput (\<lambda>c. case map_of (cal_segments c) segment of
                       None \<Rightarrow> c
                     | Some s \<Rightarrow> store_segment segment (s\<lparr>s_mode := mode\<rparr>) c))))"

definition is_frozen :: "'m cal_commands \<Rightarrow> int \<Rightarrow> ('m calibration, bool) proc" where
  "is_frozen C segment =
     mbind (on_master (cc_getSegmentMode C segment)) (\<lambda>mode.
     case mode of None \<Rightarrow> mraise TypeError | Some b \<Rightarrow> mret (uint b AND 0x01 \<noteq> 0))"

definition save_all :: "'m cal_commands \<Rightarrow> ('m calibration, unit) proc" where
  "save_all C = mbind (on_master (cc_setRequest C 0x01 0)) (\<lambda>_. mret ())"

definition cached_page_properties :: "'m cal_commands \<Rightarrow> int \<Rightarrow> int \<Rightarrow> ('m calibration, PagePropertiesInfo option) proc" where
  "cached_page_properties C segment page =
     mthen (check_initialized C)
     (mbind (mget cal_segments) (\<lambda>segs.
      mret (case map_of segs segment of
              None \<Rightarrow> None
            | Some s \<Rightarrow> (case map_of (s_pages s) page of None \<Rightarrow> None | Some pg \<Rightarrow> p_properties pg))))"

section \<open>Lemmas\<close>

lemma preserves_catch [preserves_rules]:
  assumes "preserves I p" and "\<And>e. preserves I (h e)" shows "preserves I (mcatch p h)"
  unfolding preserves_def
proof (intro allI impI)
  fix s r s'
  assume I: "I s" and run: "mcatch p h s = Some (r, s')"
  show "I s'"
  proof (cases "p s")
    case (Some o')
    obtain v u where o': "o' = (v, u)" by (cases o')
    have "I u" using assms(1) I Some o' by (auto simp: preserves_def)
    then show ?thesis using run Some o' assms(2) by (cases v) (auto simp: mcatch_def preserves_def)
  qed (use run in \<open>simp add: mcatch_def\<close>)
qed

lemma preserves_for [preserves_rules]:
  assumes "\<And>x. x \<in> set xs \<Longrightarrow> preserves I (f x)" shows "preserves I (mfor f xs)"
  using assms by (induction xs) (simp_all add: preserves_rules)

lemma preserves_attempt [preserves_rules]: "preserves I p \<Longrightarrow> preserves I (attempt p)"
  unfolding attempt_def by (intro preserves_rules)

lemma preservesD: "preserves I p \<Longrightarrow> I s \<Longrightarrow> p s = Some (r, s') \<Longrightarrow> I s'"
  unfolding preserves_def by blast

text \<open>What the value of a procedure satisfies when it returns one.\<close>

definition yields :: "('a \<Rightarrow> bool) \<Rightarrow> ('s, 'a) proc \<Rightarrow> bool" where
  "yields Q p \<longleftrightarrow> (\<forall>s x s'. p s = Some (Inr x, s') \<longrightarrow> Q x)"

lemma yields_ret: "yields Q (mret x) \<longleftrightarrow> Q x"
  by (simp add: yields_def)

lemma yields_bind: "(\<And>x. yields Q (f x)) \<Longrightarrow> yields Q (mbind p f)"
  by (auto simp: yields_def mbind_Some_iff)

lemma preserves_bind_yields:
  assumes "preserves I p" and "yields Q p" and "\<And>x. Q x \<Longrightarrow> preserves I (f x)"
  shows "preserves I (mbind p f)"
  using assms unfolding preserves_def yields_def mbind_Some_iff by blast

subsection \<open>The cache\<close>

definition page_ok :: "int \<Rightarrow> int \<Rightarrow> Page \<Rightarrow> bool" where
  "page_ok i p pg \<longleftrightarrow> p_segment_number pg = i \<and> p_page_number pg = p \<and> p_properties pg \<noteq> None"

definition segment_ok :: "int \<Rightarrow> Segment \<Rightarrow> bool" where
  "segment_ok i s \<longleftrightarrow> s_number s = i \<and> distinct (map fst (s_pages s))
     \<and> (\<forall>p pg. map_of (s_pages s) p = Some pg \<longrightarrow> 0 \<le> p \<and> p < s_max_pages s \<and> page_ok i p pg)"

text \<open>The keys of the cache are the numbers of its segments and pages, within what the slave announced.\<close>

definition cache_ok :: "'m calibration \<Rightarrow> bool" where
  "cache_ok c \<longleftrightarrow> distinct (map fst (cal_segments c))
     \<and> (\<forall>i s. map_of (cal_segments c) i = Some s \<longrightarrow> 0 \<le> i \<and> i < cal_max_segments c \<and> segment_ok i s)"

lemma preserves_on_master [preserves_rules]: "preserves cache_ok (on_master p)"
  by (auto simp: preserves_def on_master_def cache_ok_def)

lemma read_pages_ok:
  assumes "distinct (map fst pages)" and "\<forall>p pg. map_of pages p = Some pg \<longrightarrow> 0 \<le> p \<and> p < n \<and> page_ok i p pg"
    and "set ps \<subseteq> {0..<n}" and "read_pages C i ps pages c = Some (Inr pages', c')"
  shows "distinct (map fst pages') \<and> (\<forall>p pg. map_of pages' p = Some pg \<longrightarrow> 0 \<le> p \<and> p < n \<and> page_ok i p pg)"
  using assms
proof (induction ps arbitrary: pages c)
  case (Cons p ps)
  obtain info :: "PageInfo option" and d where rest: "read_pages C i ps (case info of None \<Rightarrow> pages
        | Some page_info \<Rightarrow> AList.update p \<lparr>p_segment_number = i, p_page_number = p,
            p_properties = Some (properties page_info), p_init_segment = init_segment page_info\<rparr> pages) d = Some (Inr pages', c')"
    using Cons.prems(4) by (clarsimp simp: mbind_Some_iff)
  have p: "0 \<le> p" "p < n" "set ps \<subseteq> {0..<n}" using Cons.prems(3) by auto
  show ?case
  proof (cases info)
    case None
    with Cons.IH [OF Cons.prems(1,2) p(3)] rest show ?thesis by simp
  next
    case (Some page_info)
    let ?pages = "AList.update p \<lparr>p_segment_number = i, p_page_number = p,
        p_properties = Some (properties page_info), p_init_segment = init_segment page_info\<rparr> pages"
    have "distinct (map fst ?pages)" by (rule distinct_update) (rule Cons.prems(1))
    moreover have "\<forall>q pg. map_of ?pages q = Some pg \<longrightarrow> 0 \<le> q \<and> q < n \<and> page_ok i q pg"
      using Cons.prems(2) p by (simp add: update_conv' page_ok_def)
    moreover have "read_pages C i ps ?pages d = Some (Inr pages', c')" using rest Some by simp
    ultimately show ?thesis using p(3) by (intro Cons.IH)
  qed
qed simp

lemma read_segment_ok: "yields (segment_ok i) (read_segment C i)"
  unfolding yields_def
proof (intro allI impI)
  fix c s c'
  assume run: "read_segment C i c = Some (Inr s, c')"
  then obtain r :: GetSegmentInfoMode1Response and pages d d' where pages: "read_pages C i [0..sg_maxPages r - 1] [] d = Some (Inr pages, d')"
    and s: "s_number s = i" "s_max_pages s = sg_maxPages r" "s_pages s = pages"
    by (clarsimp simp: read_segment_def mbind_Some_iff split: prod.splits)
  have "distinct (map fst pages) \<and> (\<forall>p pg. map_of pages p = Some pg \<longrightarrow> 0 \<le> p \<and> p < sg_maxPages r \<and> page_ok i p pg)"
    by (rule read_pages_ok [OF _ _ _ pages]) auto
  then show "segment_ok i s" by (simp add: segment_ok_def s)
qed

lemma store_segment_ok:
  "cache_ok c \<Longrightarrow> segment_ok i s \<Longrightarrow> 0 \<le> i \<Longrightarrow> i < cal_max_segments c \<Longrightarrow> cache_ok (store_segment i s c)"
  by (auto simp: cache_ok_def store_segment_def distinct_update update_conv')

lemma preserves_read_pages: "(\<And>p. preserves I (on_master (cc_getPageInfo C i p))) \<Longrightarrow> preserves I (read_pages C i ps pages)"
  by (induction ps arbitrary: pages) (auto simp: preserves_basic intro!: preserves_bind preserves_attempt)

lemma preserves_read_segment:
  assumes "\<And>q :: ('m, segment_info) proc. preserves I (on_master q)" and "\<And>q :: ('m, PageInfo) proc. preserves I (on_master q)"
    and "\<And>q :: ('m, byte option) proc. preserves I (on_master q)"
  shows "preserves I (read_segment (C :: 'm cal_commands) i)"
proof -
  have info: "preserves I (basicInfo x)" "preserves I (standard_info x)" for x
    by (simp_all add: basicInfo_def standard_info_def preserves_basic split: segment_info.split)
  show ?thesis
    unfolding read_segment_def read_location_def
    by (intro preserves_bind preserves_attempt preserves_case preserves_basic preserves_read_pages info assms)
qed

lemma refresh_ok:
  fixes C :: "'m cal_commands"
  shows "preserves cache_ok (refresh C)"
proof -
  have step: "preserves (\<lambda>c. cache_ok c \<and> cal_max_segments c = n) (discover_segment C i)"
    if "0 \<le> i" "i < n" for i n
    unfolding discover_segment_def
  proof (rule preserves_bind_yields [where Q = "\<lambda>s. \<forall>x. s = Some x \<longrightarrow> segment_ok i x"])
    show "preserves (\<lambda>c. cache_ok c \<and> cal_max_segments c = n) (attempt (read_segment C i))"
      by (intro preserves_attempt preserves_read_segment) (auto simp: preserves_def on_master_def cache_ok_def)
    show "yields (\<lambda>s. \<forall>x. s = Some x \<longrightarrow> segment_ok i x) (attempt (read_segment C i))"
      using read_segment_ok [of i C]
      by (auto simp: yields_def attempt_def mcatch_def mbind_def split: option.splits sum.splits)
    show "preserves (\<lambda>c. cache_ok c \<and> cal_max_segments c = n)
        (case s of None \<Rightarrow> mret () | Some segment \<Rightarrow> mput (store_segment i segment))"
      if "\<forall>x. s = Some x \<longrightarrow> segment_ok i x" for s
      using that \<open>0 \<le> i\<close> \<open>i < n\<close>
      by (cases s) (auto simp: preserves_def store_segment_ok, simp add: store_segment_def)
  qed
  have loop: "preserves (\<lambda>c. cache_ok c \<and> cal_max_segments c = n)
      (mfor (discover_segment C)
        [0..n - 1])" for n
    by (intro preserves_for step) auto
  have "preserves (\<lambda>c :: 'm calibration. cache_ok c \<and> cal_max_segments c = n) (mput (\<lambda>c. c\<lparr>cal_initialized := True\<rparr>))" for n
    by (auto simp: preserves_def cache_ok_def)
  note rest = preserves_then [OF loop this]
  have "preserves cache_ok (mthen (mput (\<lambda>c. c\<lparr>cal_max_segments := n, cal_freeze_supported := f, cal_segments := []\<rparr>))
      (mthen (mfor (discover_segment C)
        [0..n - 1]) (mput (\<lambda>c. c\<lparr>cal_initialized := True\<rparr>))))" for n f
    unfolding preserves_def mthen_put
  proof (intro allI impI)
    fix c :: "'m calibration" and r c'
    assume run: "mthen (mfor (discover_segment C)
        [0..n - 1]) (mput (\<lambda>c. c\<lparr>cal_initialized := True\<rparr>))
      (c\<lparr>cal_max_segments := n, cal_freeze_supported := f, cal_segments := []\<rparr>) = Some (r, c')"
    have "cache_ok c' \<and> cal_max_segments c' = n"
      by (rule preservesD [OF rest [of n] _ run]) (simp add: cache_ok_def)
    then show "cache_ok c'" ..
  qed
  then show ?thesis unfolding refresh_def by (intro preserves_bind preserves_catch preserves_on_master preserves_basic)
qed

lemma check_initialized_ok: "preserves cache_ok (check_initialized C)"
  unfolding check_initialized_def by (intro preserves_rules refresh_ok)

subsection \<open>Discovery\<close>

text \<open>
  A slave whose answers to the questions of \<open>refresh\<close> do not depend on what was asked before, and what the
  cache says of a segment of it.
\<close>

definition cal_answers :: "'m cal_commands \<Rightarrow> GetPagProcessorInfoResponse result \<Rightarrow> (int \<Rightarrow> int \<Rightarrow> int \<Rightarrow> segment_info result)
    \<Rightarrow> (int \<Rightarrow> int \<Rightarrow> PageInfo result) \<Rightarrow> (int \<Rightarrow> byte option result) \<Rightarrow> bool" where
  "cal_answers C pag seg page mode \<longleftrightarrow>
     (\<forall>m. \<exists>m'. cc_getPagProcessorInfo C m = Some (pag, m'))
   \<and> (\<forall>a i b m. \<exists>m'. cc_getSegmentInfo C a i b 0 m = Some (seg a i b, m'))
   \<and> (\<forall>i p m. \<exists>m'. cc_getPageInfo C i p m = Some (page i p, m'))
   \<and> (\<forall>i m. \<exists>m'. cc_getSegmentMode C i m = Some (mode i, m'))"

definition page_entry :: "int \<Rightarrow> (int \<Rightarrow> int \<Rightarrow> PageInfo result) \<Rightarrow> int \<Rightarrow> (int \<times> Page) option" where
  "page_entry i page p = (case page i p of
     Inl _ \<Rightarrow> None
   | Inr info \<Rightarrow> Some (p, \<lparr>p_segment_number = i, p_page_number = p, p_properties = Some (properties info),
       p_init_segment = init_segment info\<rparr>))"

definition basic_value :: "segment_info result \<Rightarrow> int option" where
  "basic_value r = (case r of Inr (SegmentMode0 v) \<Rightarrow> Some v | _ \<Rightarrow> None)"

definition segment_entry :: "(int \<Rightarrow> int \<Rightarrow> int \<Rightarrow> segment_info result) \<Rightarrow> (int \<Rightarrow> int \<Rightarrow> PageInfo result)
    \<Rightarrow> (int \<Rightarrow> byte option result) \<Rightarrow> int \<Rightarrow> (int \<times> Segment) option" where
  "segment_entry seg page mode i = (case seg 1 i 0 of
     Inr (SegmentMode1 r) \<Rightarrow> Some (i,
       \<lparr>s_number = i, s_max_pages = sg_maxPages r, s_address_extension = sg_addressExtension r,
        s_max_mapping = sg_maxMapping r, s_compression_method = sg_compressionMethod r,
        s_encryption_method = sg_encryptionMethod r,
        s_pages = List.map_filter (page_entry i page) [0..sg_maxPages r - 1],
        s_address = basic_value (seg 0 i 0),
        s_length = (if basic_value (seg 0 i 0) = None then None else basic_value (seg 0 i 1)),
        s_mode = (case mode i of Inr (Some b) \<Rightarrow> uint b | _ \<Rightarrow> 0)\<rparr>)
   | _ \<Rightarrow> None)"

definition runs :: "('m calibration, 'a) proc \<Rightarrow> 'm calibration \<Rightarrow> 'a result \<Rightarrow> bool" where
  "runs p c r \<longleftrightarrow> (\<exists>m. p c = Some (r, c\<lparr>cal_master := m\<rparr>))"

lemma runs_on_master: "\<exists>m'. p (cal_master c) = Some (r, m') \<Longrightarrow> runs (on_master p) c r"
  by (auto simp: runs_def on_master_def)

lemma runs_ret: "runs (mret x) c (Inr x)" "runs (mraise e :: ('m calibration, 'a) proc) c (Inl e)"
  by (auto simp: runs_def intro: exI [of _ "cal_master c"])

lemma runs_bind:
  assumes "runs p c r" and "\<And>x m. r = Inr x \<Longrightarrow> runs (f x) (c\<lparr>cal_master := m\<rparr>) (g x)"
  shows "runs (mbind p f) c (rbind r g)"
proof -
  obtain m where m: "p c = Some (r, c\<lparr>cal_master := m\<rparr>)" using assms(1) by (auto simp: runs_def)
  show ?thesis
  proof (cases r)
    case (Inr x)
    with assms(2) [OF Inr, of m] m show ?thesis by (auto simp: runs_def mbind_apply)
  qed (use m in \<open>auto simp: runs_def mbind_apply\<close>)
qed

lemma runs_value:
  assumes "runs p c (Inr x)" and "\<And>m. runs (f x) (c\<lparr>cal_master := m\<rparr>) r"
  shows "runs (mbind p f) c r"
proof -
  obtain m where "p c = Some (Inr x, c\<lparr>cal_master := m\<rparr>)" using assms(1) by (auto simp: runs_def)
  moreover obtain m' where "f x (c\<lparr>cal_master := m\<rparr>) = Some (r, c\<lparr>cal_master := m\<rparr>\<lparr>cal_master := m'\<rparr>)"
    using assms(2) [of m] by (auto simp: runs_def)
  ultimately show ?thesis by (auto simp: runs_def mbind_apply)
qed

lemma runs_error: "runs p c (Inl e) \<Longrightarrow> runs (mbind p f) c (Inl e)"
  by (auto simp: runs_def mbind_apply)

lemma runs_attempt: "runs p c r \<Longrightarrow> runs (attempt p) c (Inr (case r of Inl _ \<Rightarrow> None | Inr x \<Rightarrow> Some x))"
  by (auto simp: runs_def attempt_def mcatch_def mbind_def split: sum.splits)

lemma runs_basic: "runs (basicInfo info) c (case info of SegmentMode0 v \<Rightarrow> Inr v | _ \<Rightarrow> Inl AttributeError)"
  "runs (standard_info info) c (case info of SegmentMode1 v \<Rightarrow> Inr v | _ \<Rightarrow> Inl AttributeError)"
  by (simp_all add: basicInfo_def standard_info_def runs_ret split: segment_info.split)

lemma runs_basic_value:
  assumes "cal_answers C pag seg page mode"
  shows "runs (attempt (mbind (on_master (cc_getSegmentInfo C 0 i b 0)) basicInfo)) c (Inr (basic_value (seg 0 i b)))"
proof -
  have "runs (mbind (on_master (cc_getSegmentInfo C 0 i b 0)) basicInfo) c
      (rbind (seg 0 i b) (\<lambda>info. case info of SegmentMode0 v \<Rightarrow> Inr v | _ \<Rightarrow> Inl AttributeError))"
    by (rule runs_bind [OF runs_on_master runs_basic(1)]) (use assms in \<open>simp add: cal_answers_def\<close>)
  from runs_attempt [OF this] show ?thesis
    by (simp add: basic_value_def rbind_def split: sum.split segment_info.split) (auto split: sum.splits segment_info.splits)
qed

lemma runs_read_location:
  assumes "cal_answers C pag seg page mode"
  shows "runs (read_location C i) c
    (Inr (basic_value (seg 0 i 0), if basic_value (seg 0 i 0) = None then None else basic_value (seg 0 i 1)))"
proof -
  have "runs (case address of None \<Rightarrow> mret (None, None)
        | Some a \<Rightarrow> mbind (attempt (mbind (on_master (cc_getSegmentInfo C 0 i 1 0)) basicInfo)) (\<lambda>len. mret (Some a, len))) d
      (Inr (address, if address = None then None else basic_value (seg 0 i 1)))" for address d
  proof (cases address)
    case (Some a)
    then show ?thesis by (auto intro!: runs_value [OF runs_basic_value [OF assms]] simp: runs_ret)
  qed (simp add: runs_ret)
  then show ?thesis unfolding read_location_def by (intro runs_value [OF runs_basic_value [OF assms]])
qed

lemma map_filter_nil [simp]: "List.map_filter f [] = []"
  by (simp add: List.map_filter_def)

lemma map_filter_single: "List.map_filter f [x] = (case f x of None \<Rightarrow> [] | Some y \<Rightarrow> [y])"
  by (simp add: List.map_filter_def split: option.split)

lemma map_filter_cons: "List.map_filter f (x # xs) = List.map_filter f [x] @ List.map_filter f xs"
  by (simp add: List.map_filter_def)

lemma runs_read_pages:
  assumes "cal_answers C pag seg page mode" and "distinct ps" and "set ps \<inter> fst ` set pages = {}"
  shows "runs (read_pages C i ps pages) c (Inr (pages @ List.map_filter (page_entry i page) ps))"
  using assms(2,3)
proof (induction ps arbitrary: pages c)
  case (Cons p ps)
  let ?info = "case page i p of Inl _ \<Rightarrow> None | Inr x \<Rightarrow> Some x"
  let ?next = "\<lambda>info. case info of None \<Rightarrow> pages
        | Some page_info \<Rightarrow> AList.update p \<lparr>p_segment_number = i, p_page_number = p,
            p_properties = Some (properties page_info), p_init_segment = init_segment page_info\<rparr> pages"
  have one: "runs (attempt (on_master (cc_getPageInfo C i p))) c (Inr ?info)"
    by (intro runs_attempt runs_on_master) (use assms(1) in \<open>simp add: cal_answers_def\<close>)
  have next_pages: "?next ?info = pages @ List.map_filter (page_entry i page) [p]"
    using Cons.prems(2) by (auto simp: page_entry_def List.map_filter_def update_new split: sum.split)
  have "set ps \<inter> fst ` set (pages @ List.map_filter (page_entry i page) [p]) = {}"
    using Cons.prems by (auto simp: page_entry_def List.map_filter_def split: sum.splits)
  then have "runs (read_pages C i ps (pages @ List.map_filter (page_entry i page) [p])) d
      (Inr ((pages @ List.map_filter (page_entry i page) [p]) @ List.map_filter (page_entry i page) ps))" for d
    using Cons.IH [of "pages @ List.map_filter (page_entry i page) [p]"] Cons.prems(1) by simp
  then have "runs (read_pages C i ps (?next ?info)) d
      (Inr (pages @ List.map_filter (page_entry i page) (p # ps)))" for d
    unfolding next_pages map_filter_cons [of _ p ps] append_assoc .
  then show ?case unfolding read_pages.simps by (intro runs_value [OF one])
qed (simp add: runs_ret List.map_filter_def)

lemma runs_read_segment:
  assumes ans: "cal_answers C pag seg page mode"
  shows "\<exists>r. runs (read_segment C i) c r \<and> (case r of Inl _ \<Rightarrow> None | Inr s \<Rightarrow> Some (i, s)) = segment_entry seg page mode i"
proof -
  have info: "runs (on_master (cc_getSegmentInfo C 1 i 0 0)) c (seg 1 i 0)"
    by (rule runs_on_master) (use ans in \<open>simp add: cal_answers_def\<close>)
  show ?thesis
  proof (cases "seg 1 i 0")
    case (Inl e)
    with info have "runs (read_segment C i) c (Inl e)" by (simp add: read_segment_def runs_error)
    with Inl show ?thesis by (intro exI [of _ "Inl e"]) (simp add: segment_entry_def)
  next
    case (Inr x)
    note loc = runs_read_location [OF ans, of i]
    show ?thesis
    proof (cases "\<exists>r. x = SegmentMode1 r")
      case True
      then obtain r where r: "x = SegmentMode1 r" by blast
      have md: "runs (attempt (on_master (cc_getSegmentMode C i))) d (Inr (case mode i of Inl _ \<Rightarrow> None | Inr x \<Rightarrow> Some x))" for d
        by (intro runs_attempt runs_on_master) (use ans in \<open>simp add: cal_answers_def\<close>)
      have pages: "runs (read_pages C i [0..sg_maxPages r - 1] []) d
          (Inr (List.map_filter (page_entry i page) [0..sg_maxPages r - 1]))" for d
        using runs_read_pages [OF ans, of "[0..sg_maxPages r - 1]" "[]"] by simp
      have std: "runs (standard_info x) d (Inr r)" for d using runs_basic(2) [of x d] r by simp
      have "runs (read_segment C i) c (Inr (snd (the (segment_entry seg page mode i))))"
        unfolding read_segment_def
        by (rule runs_value [OF info [unfolded Inr]], rule runs_value [OF loc], unfold split_conv, rule runs_value [OF std],
            rule runs_value [OF pages], rule runs_value [OF md])
          (auto simp: segment_entry_def Inr r runs_ret split: sum.split option.split)
      then show ?thesis by (intro exI conjI) (auto simp: segment_entry_def Inr r)
    next
      case False
      then have std: "runs (standard_info x) d (Inl AttributeError)" for d
        using runs_basic(2) [of x d] by (cases x) auto
      have "runs (read_segment C i) c (Inl AttributeError)"
        unfolding read_segment_def
        by (rule runs_value [OF info [unfolded Inr]], rule runs_value [OF loc], unfold split_conv, rule runs_error [OF std])
      then show ?thesis
        by (intro exI conjI) (use False in \<open>auto simp: segment_entry_def Inr split: segment_info.split\<close>)
    qed
  qed
qed

lemma segments_loop:
  assumes "cal_answers C pag seg page mode" and "distinct is" and "set is \<inter> fst ` set (cal_segments c) = {}"
  shows "\<exists>m. mfor (discover_segment C) is c
    = Some (Inr (), c\<lparr>cal_master := m, cal_segments := cal_segments c @ List.map_filter (segment_entry seg page mode) is\<rparr>)"
  using assms(2,3)
proof (induction "is" arbitrary: c)
  case Nil
  show ?case by (auto intro: exI [of _ "cal_master c"])
next
  case (Cons i "is")
  obtain r where r: "runs (read_segment C i) c r" "(case r of Inl _ \<Rightarrow> None | Inr s \<Rightarrow> Some (i, s)) = segment_entry seg page mode i"
    using runs_read_segment [OF assms(1)] by blast
  obtain m where m: "attempt (read_segment C i) c = Some (Inr (case r of Inl _ \<Rightarrow> None | Inr x \<Rightarrow> Some x), c\<lparr>cal_master := m\<rparr>)"
    using runs_attempt [OF r(1)] by (auto simp: runs_def)
  let ?d = "c\<lparr>cal_master := m, cal_segments := cal_segments c @ List.map_filter (segment_entry seg page mode) [i]\<rparr>"
  have "store_segment i s (c\<lparr>cal_master := m\<rparr>) = c\<lparr>cal_master := m, cal_segments := cal_segments c @ [(i, s)]\<rparr>" for s
    using Cons.prems(2) by (simp add: store_segment_def update_new)
  then have "discover_segment C i c = Some (Inr (), ?d)"
    using r(2) [symmetric] m unfolding discover_segment_def by (cases r) (simp_all add: mbind_apply map_filter_single)
  then have step: "mfor (discover_segment C) (i # is) c = mfor (discover_segment C) is ?d"
    unfolding mfor.simps by (rule mthen_simps(3))
  have "set is \<inter> fst ` set (cal_segments ?d) = {}"
    using Cons.prems r(2) by (auto simp: List.map_filter_def split: sum.splits)
  then obtain m' where rest: "mfor (discover_segment C) is ?d
    = Some (Inr (), ?d\<lparr>cal_master := m', cal_segments := cal_segments ?d @ List.map_filter (segment_entry seg page mode) is\<rparr>)"
    using Cons.IH [of ?d] Cons.prems(1) by auto
  show ?case unfolding step map_filter_cons [of _ i "is"] using rest by (intro exI [of _ m']) simp
qed

text \<open>The cache after a discovery.\<close>

definition discovered where
  "discovered pag seg page mode = List.map_filter (segment_entry seg page mode) [0..pag_maxSegments pag - 1]"

lemma refresh_eq:
  assumes "cal_answers C pag seg page mode"
  shows "\<exists>m. refresh C c = Some (case pag of
      Inl e \<Rightarrow> (Inl RuntimeError, c\<lparr>cal_master := m\<rparr>)
    | Inr p \<Rightarrow> (Inr (), \<lparr>cal_master = m, cal_segments = discovered p seg page mode, cal_max_segments = pag_maxSegments p,
        cal_freeze_supported = pag_freezeSupported p, cal_initialized = True\<rparr>))"
proof -
  obtain m where m: "on_master (cc_getPagProcessorInfo C) c = Some (pag, c\<lparr>cal_master := m\<rparr>)"
    using assms by (fastforce simp: cal_answers_def on_master_def)
  show ?thesis
  proof (cases pag)
    case (Inl e)
    with m have "mcatch (on_master (cc_getPagProcessorInfo C)) (\<lambda>e. mraise RuntimeError) c = Some (Inl RuntimeError, c\<lparr>cal_master := m\<rparr>)"
      by (simp add: mcatch_def)
    then show ?thesis by (auto simp: refresh_def mbind_apply Inl)
  next
    case (Inr p)
    with m have pag: "mcatch (on_master (cc_getPagProcessorInfo C)) (\<lambda>e. mraise RuntimeError) c = Some (Inr p, c\<lparr>cal_master := m\<rparr>)"
      by (simp add: mcatch_def)
    let ?c = "c\<lparr>cal_master := m, cal_max_segments := pag_maxSegments p, cal_freeze_supported := pag_freezeSupported p, cal_segments := []\<rparr>"
    obtain m' where loop: "mfor (discover_segment C)
        [0..pag_maxSegments p - 1] ?c = Some (Inr (), ?c\<lparr>cal_master := m', cal_segments := discovered p seg page mode\<rparr>)"
      using segments_loop [OF assms, of "[0..pag_maxSegments p - 1]" ?c] by (auto simp: discovered_def)
    show ?thesis
      using loop by (intro exI [of _ m']) (simp add: refresh_def mbind_apply mthen_simps pag Inr)
  qed
qed

lemma map_of_map_filter:
  assumes "\<And>x k v. f x = Some (k, v) \<Longrightarrow> k = x"
  shows "map_of (List.map_filter f xs) k = (if k \<in> set xs then map_option snd (f k) else None)"
proof (induction xs)
  case (Cons x xs)
  show ?case
  proof (cases "f x")
    case (Some y)
    then obtain v where "f x = Some (x, v)" using assms by (cases y) auto
    with Cons.IH show ?thesis by (auto simp: map_filter_cons [of f x xs] map_filter_single)
  qed (use Cons.IH in \<open>auto simp: map_filter_cons [of f x xs] map_filter_single\<close>)
qed simp

lemma map_of_discovered:
  "map_of (discovered pag seg page mode) i =
     (if 0 \<le> i \<and> i < pag_maxSegments pag then map_option snd (segment_entry seg page mode i) else None)"
proof -
  have "k = x" if "segment_entry seg page mode x = Some (k, v)" for x k v
    using that by (auto simp: segment_entry_def split: sum.splits segment_info.splits)
  then show ?thesis unfolding discovered_def by (subst map_of_map_filter) auto
qed

text \<open>The page information the slave gives for a page of a segment it describes.\<close>

definition reported_page :: "GetPagProcessorInfoResponse \<Rightarrow> (int \<Rightarrow> int \<Rightarrow> int \<Rightarrow> segment_info result)
    \<Rightarrow> (int \<Rightarrow> int \<Rightarrow> PageInfo result) \<Rightarrow> int \<Rightarrow> int \<Rightarrow> PageInfo option" where
  "reported_page pag seg page s p =
     (if 0 \<le> s \<and> s < pag_maxSegments pag then
        (case seg 1 s 0 of
           Inr (SegmentMode1 r) \<Rightarrow>
             (if 0 \<le> p \<and> p < sg_maxPages r then (case page s p of Inr info \<Rightarrow> Some info | Inl _ \<Rightarrow> None) else None)
         | _ \<Rightarrow> None)
      else None)"

definition granted :: "int \<Rightarrow> PagePropertiesInfo \<Rightarrow> bool" where
  "granted mode props \<longleftrightarrow> (mode AND 2 \<noteq> 0 \<longrightarrow> xcp_write_access props) \<and> (mode AND 1 \<noteq> 0 \<longrightarrow> ecu_access props)"

lemma cached_page:
  "(case map_of (discovered pag seg page md) s of None \<Rightarrow> None | Some seg_entry \<Rightarrow> map_of (s_pages seg_entry) p) =
   map_option (\<lambda>info. \<lparr>p_segment_number = s, p_page_number = p, p_properties = Some (properties info),
     p_init_segment = init_segment info\<rparr>) (reported_page pag seg page s p)"
proof -
  have pages: "map_of (List.map_filter (page_entry s page) ps) p = (if p \<in> set ps then map_option snd (page_entry s page p) else None)" for ps
    by (rule map_of_map_filter) (auto simp: page_entry_def split: sum.splits)
  show ?thesis
    by (auto simp: map_of_discovered reported_page_def segment_entry_def pages page_entry_def
        split: sum.split segment_info.split)
qed

lemma set_page_eq:
  assumes "cal_initialized c"
  shows "set_page C s p mode c =
    (case (case map_of (cal_segments c) s of None \<Rightarrow> None | Some e \<Rightarrow> map_of (s_pages e) p) of
       None \<Rightarrow> Some (Inl ValueError, c)
     | Some pg \<Rightarrow>
         if p_properties pg = None \<or> granted mode (the (p_properties pg)) then
           mbind (on_master (cc_setCalPage C mode s p)) (\<lambda>_. mret ()) c
         else Some (Inl PermissionError, c))"
proof -
  have "check_initialized C c = Some (Inr (), c)" using assms by (simp add: check_initialized_def)
  then show ?thesis
    by (auto simp: set_page_def mthen_simps granted_def CAL_PAGE_MODE_ECU_def CAL_PAGE_MODE_XCP_def can_xcp_write_def
        can_ecu_access_def split: option.split)
qed

lemma uninitialized_first:
  assumes "\<not> cal_initialized c" and "refresh C c = Some (Inr (), d)" and "cal_initialized d"
  shows "mthen (check_initialized C) p c = mthen (check_initialized C) p d"
  using assms by (simp add: check_initialized_def mthen_simps)

lemma on_master_for:
  "mfor (\<lambda>x. if P x then mbind (on_master (f x)) (\<lambda>_. mret ()) else mret ()) xs =
    on_master (mfor (\<lambda>x. mbind (f x) (\<lambda>_. mret ())) (filter P xs))"
proof (induction xs)
  case Nil
  show ?case by (rule ext) (simp add: on_master_def)
next
  case (Cons x xs)
  show ?case
    by (rule ext) (auto simp: Cons.IH on_master_def mthen_def mbind_def split: option.split sum.split)
qed

section \<open>Properties\<close>


text \<open>
  C25. Against a slave whose answers do not depend on the order of the questions, the first \<open>set_page\<close> of an
  object reads all segments and pages, and then sends SET_CAL_PAGE only for a page the slave described, and
  only if that page grants write access to the XCP master or access to the ECU, as the mode asks; other
  pages raise ValueError or PermissionError with nothing sent. \<open>page_properties\<close> returns the slave's answer.
\<close>

theorem set_page_follows_the_slave:
  fixes C :: "'m cal_commands"
  assumes "cal_answers C (Inr pag) seg page md" and "\<not> cal_initialized c"
  shows "\<exists>m. let d = \<lparr>cal_master = m, cal_segments = discovered pag seg page md, cal_max_segments = pag_maxSegments pag,
        cal_freeze_supported = pag_freezeSupported pag, cal_initialized = True\<rparr>
      in set_page C s p mode c =
          (case reported_page pag seg page s p of
             None \<Rightarrow> Some (Inl ValueError, d)
           | Some info \<Rightarrow>
               if granted mode (properties info) then
                 map_option (\<lambda>(r, m'). (rbind r (\<lambda>_. Inr ()), d\<lparr>cal_master := m'\<rparr>)) (cc_setCalPage C mode s p m)
               else Some (Inl PermissionError, d))
        \<and> cached_page_properties C s p c = Some (Inr (map_option properties (reported_page pag seg page s p)), d)"
proof -
  obtain m where refresh: "refresh C c = Some (Inr (), \<lparr>cal_master = m, cal_segments = discovered pag seg page md,
      cal_max_segments = pag_maxSegments pag, cal_freeze_supported = pag_freezeSupported pag, cal_initialized = True\<rparr>)"
    using refresh_eq [OF assms(1), of c] by auto
  let ?d = "\<lparr>cal_master = m, cal_segments = discovered pag seg page md, cal_max_segments = pag_maxSegments pag,
      cal_freeze_supported = pag_freezeSupported pag, cal_initialized = True\<rparr>"
  have first: "mthen (check_initialized C) p c = mthen (check_initialized C) p ?d" for p :: "('m calibration, 'x) proc"
    by (rule uninitialized_first [OF assms(2) refresh]) simp
  have page: "(case map_of (cal_segments ?d) s of None \<Rightarrow> None | Some e \<Rightarrow> map_of (s_pages e) p) =
      map_option (\<lambda>info. \<lparr>p_segment_number = s, p_page_number = p, p_properties = Some (properties info),
        p_init_segment = init_segment info\<rparr>) (reported_page pag seg page s p)"
    by (simp add: cached_page)
  have init: "cal_initialized ?d" by simp
  have "set_page C s p mode c = set_page C s p mode ?d" unfolding set_page_def by (rule first)
  also have "\<dots> = (case reported_page pag seg page s p of
             None \<Rightarrow> Some (Inl ValueError, ?d)
           | Some info \<Rightarrow>
               if granted mode (properties info) then
                 map_option (\<lambda>(r, m'). (rbind r (\<lambda>_. Inr ()), ?d\<lparr>cal_master := m'\<rparr>)) (cc_setCalPage C mode s p m)
               else Some (Inl PermissionError, ?d))"
    unfolding set_page_eq [OF init] page
    by (cases "cc_setCalPage C mode s p m") (auto simp: on_master_def mbind_def rbind_def split: option.split sum.split)
  finally have set: "set_page C s p mode c = \<dots>" .
  have "cached_page_properties C s p c = Some (Inr (map_option properties (reported_page pag seg page s p)), ?d)"
    unfolding cached_page_properties_def first using page
    by (cases "reported_page pag seg page s p") (auto simp: check_initialized_def mthen_simps split: option.splits)
  with set show ?thesis by (intro exI [of _ m]) (simp add: Let_def)
qed

text \<open>A slave with one segment of two pages, the second of them read-only; it keeps what it is told to do.\<close>

definition read_only :: "int \<Rightarrow> PagePropertiesInfo" where
  "read_only p = \<lparr>ecu_access_with_xcp = True, ecu_access_without_xcp = True, xcp_read_access_with_ecu = True,
     xcp_read_access_without_ecu = True, xcp_write_access_with_ecu = (p = 0), xcp_write_access_without_ecu = False\<rparr>"

definition two_pages :: "(int \<times> int \<times> int) list cal_commands" where
  "two_pages =
     \<lparr>cc_getPagProcessorInfo = (\<lambda>m. Some (Inr \<lparr>pag_maxSegments = 1, pag_freezeSupported = False\<rparr>, m)),
      cc_getSegmentInfo = (\<lambda>a i b n m. Some (Inr (if a = 1 then SegmentMode1 \<lparr>sg_maxPages = 2, sg_addressExtension = 0,
        sg_maxMapping = 0, sg_compressionMethod = 0, sg_encryptionMethod = 0\<rparr> else SegmentMode0 64), m)),
      cc_getPageInfo = (\<lambda>i p m. Some (Inr \<lparr>properties = read_only p, init_segment = 0\<rparr>, m)),
      cc_getSegmentMode = (\<lambda>i m. Some (Inr (Some 0), m)), cc_setSegmentMode = (\<lambda>x i m. Some (Inr [], m)),
      cc_setCalPage = (\<lambda>x s p m. Some (Inr [], m @ [(x, s, p)])), cc_getCalPage = (\<lambda>x s m. Some (Inr 0, m)),
      cc_copyCalPage = (\<lambda>s p s' p' m. Some (Inr [], m)), cc_setRequest = (\<lambda>a b m. Some (Inr [], m))\<rparr>"

theorem set_page_follows_the_slave_witness:
  "\<exists>d m. set_page two_pages 0 1 3 (new_calibration []) = Some (Inl PermissionError, d)
    \<and> set_page two_pages 0 0 3 (new_calibration []) = Some (Inr (), d\<lparr>cal_master := m @ [(3, 0, 0)]\<rparr>)"
proof -
  let ?pag = "\<lparr>pag_maxSegments = 1, pag_freezeSupported = False\<rparr>"
  let ?seg = "\<lambda>a i b. Inr (if a = 1 then SegmentMode1 \<lparr>sg_maxPages = 2, sg_addressExtension = 0,
        sg_maxMapping = 0, sg_compressionMethod = 0, sg_encryptionMethod = 0\<rparr> else SegmentMode0 64)"
  let ?page = "\<lambda>i p. Inr \<lparr>properties = read_only p, init_segment = 0\<rparr>"
  have ans: "cal_answers two_pages (Inr ?pag) ?seg ?page (\<lambda>i. Inr (Some 0))"
    by (simp add: cal_answers_def two_pages_def)
  have new: "\<not> cal_initialized (new_calibration [] :: (int \<times> int \<times> int) list calibration)" by (simp add: new_calibration_def)
  define D where "D = discovered ?pag ?seg ?page (\<lambda>i. Inr (Some 0))"
  have reported: "reported_page ?pag ?seg ?page 0 1 = Some \<lparr>properties = read_only 1, init_segment = 0\<rparr>"
    "reported_page ?pag ?seg ?page 0 0 = Some \<lparr>properties = read_only 0, init_segment = 0\<rparr>"
    by (simp_all add: reported_page_def)
  have grants: "\<not> granted 3 (read_only 1)" "granted 3 (read_only 0)"
    by (simp_all add: granted_def read_only_def xcp_write_access_def ecu_access_def)
  have sends: "cc_setCalPage two_pages 3 0 0 m = Some (Inr [], m @ [(3, 0, 0)])" for m by (simp add: two_pages_def)
  obtain m1 where "set_page two_pages 0 1 3 (new_calibration []) = Some (Inl PermissionError,
      \<lparr>cal_master = m1, cal_segments = D, cal_max_segments = 1, cal_freeze_supported = False, cal_initialized = True\<rparr>)"
    using set_page_follows_the_slave [OF ans new, of 0 1 3] by (auto simp: reported grants Let_def D_def [symmetric])
  moreover obtain m2 where "set_page two_pages 0 0 3 (new_calibration []) = Some (Inr (),
      \<lparr>cal_master = m2 @ [(3, 0, 0)], cal_segments = D, cal_max_segments = 1, cal_freeze_supported = False, cal_initialized = True\<rparr>)"
    using set_page_follows_the_slave [OF ans new, of 0 0 3] by (auto simp: reported grants sends Let_def D_def [symmetric])
  ultimately show ?thesis by (intro exI conjI) (assumption, simp)
qed

text \<open>
  \<open>copy_segment\<close> copies, in the order of the cache, the pages of the source that the destination has too, and
  stops at the first copy that fails; for a segment that is not known it raises ValueError with nothing sent.
\<close>

theorem copy_segment_copies_common_pages:
  assumes "cal_initialized c"
  shows "copy_segment C s s' c =
    (case (map_of (cal_segments c) s, map_of (cal_segments c) s') of
       (Some src, Some dst) \<Rightarrow>
         on_master (mfor (\<lambda>p. mbind (cc_copyCalPage C s p s' p) (\<lambda>_. mret ()))
           [p \<leftarrow> map fst (s_pages src). p \<in> fst ` set (s_pages dst)]) c
     | _ \<Rightarrow> Some (Inl ValueError, c))"
proof -
  have known: "(map_of ps p \<noteq> None) = (p \<in> fst ` set ps)" for ps :: "(int \<times> Page) list" and p
    by (auto simp: map_of_eq_None_iff)
  have "check_initialized C c = Some (Inr (), c)" using assms by (simp add: check_initialized_def)
  then show ?thesis
    unfolding copy_segment_def copy_page_def known on_master_for
    by (auto simp: mthen_simps split: option.split)
qed

end
