(* ===== verification/Eth_Transport.thy ===== *)
theory Eth_Transport
  imports Transport_Base
begin

unbundle bit_operations_syntax

text \<open>
  XCP on Ethernet: the receiver that cuts the byte stream into frames (\<open>EthReceiver\<close> in
  \<open>pyxcp/cpp_ext/eth_framing.hpp\<close>), and of \<open>pyxcp/transport/eth.py\<close> the two listener threads, the time
  stamps the kernel attaches to packets, and GET_DAQ_CLOCK_MULTICAST. The sockets are the system's: what
  they return is an argument, what is sent on them is recorded. Log messages are left out.
\<close>

section \<open>Model\<close>

text \<open>The framing of \<open>Eth.__init__\<close>.\<close>

definition eth_config :: XcpFramingConfig where
  "eth_config = \<lparr>transport_layer_type = ETH, header_len = 2, header_ctr = 2, header_fill = 0, tail_fill = False,
     tail_cs = NO_CHECKSUM\<rparr>"

subsection \<open>Frames from a stream\<close>

datatype EthState = EthIdle | EthUntilHeader | EthUntilPayload

record EthReceiver =
  eth_state :: EthState
  m_expected_len :: "16 word"
  m_counter :: "16 word"
  m_timestamp :: int
  m_buffer :: bytes

definition new_EthReceiver :: EthReceiver where
  "new_EthReceiver = \<lparr>eth_state = EthIdle, m_expected_len = 0, m_counter = 0, m_timestamp = 0, m_buffer = []\<rparr>"

text \<open>
  The loop of \<open>feed_frame\<close>, with what it has handed on so far: payload, length, counter and time stamp. The
  buffer never has more bytes than are needed, so the subtractions do not wrap; were nothing needed, the
  loop would not end, hence the option.
\<close>

partial_function (option) eth_feed ::
  "EthReceiver \<Rightarrow> bytes \<Rightarrow> int \<Rightarrow> incoming list \<Rightarrow> (incoming list \<times> EthReceiver) option" where
  "eth_feed r data timestamp out =
     (if data = [] then Some (out, r)
      else case eth_state r of
        EthUntilPayload \<Rightarrow>
          (let to_copy = min (length data) (unat (m_expected_len r) - length (m_buffer r));
               buffer = m_buffer r @ take to_copy data
           in if length buffer = unat (m_expected_len r) then
                eth_feed (r\<lparr>m_buffer := [], eth_state := EthIdle\<rparr>) (drop to_copy data) timestamp
                  (out @ [(buffer, uint (m_expected_len r), uint (m_counter r), m_timestamp r)])
              else eth_feed (r\<lparr>m_buffer := buffer\<rparr>) (drop to_copy data) timestamp out)
      | _ \<Rightarrow>
          (let r1 = (if m_buffer r = [] then r\<lparr>m_timestamp := timestamp\<rparr> else r);
               to_copy = min (length data) (4 - length (m_buffer r));
               buffer = m_buffer r @ take to_copy data
           in if length buffer = 4 then
                (let n = make_word_le (buffer ! 0) (buffer ! 1)
                 in eth_feed (r1\<lparr>m_expected_len := n, m_counter := make_word_le (buffer ! 2) (buffer ! 3), m_buffer := [],
                        eth_state := (if n = 0 then EthIdle else EthUntilPayload)\<rparr>)
                      (drop to_copy data) timestamp out)
              else eth_feed (r1\<lparr>m_buffer := buffer, eth_state := EthUntilHeader\<rparr>) (drop to_copy data) timestamp out))"

definition feed_frame :: "EthReceiver \<Rightarrow> bytes \<Rightarrow> int \<Rightarrow> (incoming list \<times> EthReceiver) option" where
  "feed_frame r data timestamp = eth_feed r data timestamp []"

definition reset_EthReceiver :: "EthReceiver \<Rightarrow> EthReceiver" where
  "reset_EthReceiver r = r\<lparr>m_buffer := [], eth_state := EthIdle, m_expected_len := 0, m_counter := 0\<rparr>"

subsection \<open>The listener threads\<close>

text \<open>What the two threads share: the connection's status and the packets that are still to be processed.\<close>

record eth_link =
  eth_status :: nat
  sock_closed :: bool
  eth_packets :: "(bytes \<times> int) list"
  eth_receiver :: EthReceiver

definition new_eth_link :: eth_link where
  "new_eth_link = \<lparr>eth_status = 0, sock_closed = False, eth_packets = [], eth_receiver = new_EthReceiver\<rparr>"

definition eth_connect :: "eth_link \<Rightarrow> eth_link" where
  "eth_connect l = (if eth_status l = 0 then l\<lparr>eth_status := 1\<rparr> else l)"

text \<open>
  One readable event of \<open>_packet_listen\<close>: the socket's data, or the exception it raised, and the time of
  reception. Empty data are the end of the connection; \<open>False\<close> ends the thread.
\<close>

definition packet_listen_step :: "bytes result \<Rightarrow> int \<Rightarrow> eth_link \<Rightarrow> bool \<times> eth_link" where
  "packet_listen_step received recv_timestamp l =
     (case received of
        Inl _ \<Rightarrow> (False, l\<lparr>eth_status := 0\<rparr>)
      | Inr response \<Rightarrow>
          if response = [] then (True, l\<lparr>sock_closed := True, eth_status := 0\<rparr>)
          else (True, l\<lparr>eth_packets := eth_packets l @ [(response, recv_timestamp)]\<rparr>))"

text \<open>The packets of one round of \<open>listen\<close>: the frames go to \<open>process_response\<close>.\<close>

fun feed_packets :: "EthReceiver \<Rightarrow> (bytes \<times> int) list \<Rightarrow> (incoming list \<times> EthReceiver) option" where
  "feed_packets r [] = Some ([], r)"
| "feed_packets r ((bts, timestamp) # packets) =
     (case feed_frame r bts timestamp of
        None \<Rightarrow> None
      | Some (fs, r') \<Rightarrow>
          (case feed_packets r' packets of None \<Rightarrow> None | Some (gs, r'') \<Rightarrow> Some (fs @ gs, r'')))"

definition eth_listen_round :: "eth_link \<Rightarrow> transport \<Rightarrow> (eth_link \<times> transport) option" where
  "eth_listen_round l t =
     (case feed_packets (eth_receiver l) (eth_packets l) of
        None \<Rightarrow> None
      | Some (fs, r) \<Rightarrow> Some (l\<lparr>eth_packets := [], eth_receiver := r\<rparr>, deliver fs t))"

text \<open>
  The time stamps of \<open>SO_TIMESTAMPING\<close>: the hardware's if it has seconds, else the software's. The struct
  has six signed 64-bit numbers in the byte order of the machine.
\<close>

definition signed_64 :: "byteorder \<Rightarrow> bytes \<Rightarrow> int result" where
  "signed_64 order bs = rbind (struct_unpack order 8 bs) (\<lambda>v. Inr (if v < 2 ^ 63 then v else v - 2 ^ 64))"

definition timespec_value :: "byteorder \<Rightarrow> bytes \<Rightarrow> nat \<Rightarrow> int result" where
  "timespec_value order data i = signed_64 order (take 8 (drop (8 * i) data))"

fun extract_linux_timestamp :: "byteorder \<Rightarrow> (bool \<times> bytes) list \<Rightarrow> int option result" where
  "extract_linux_timestamp order [] = Inr None"
| "extract_linux_timestamp order ((is_timestamping, data) # ancdata) =
     (if is_timestamping \<and> 48 \<le> length data then
        (if length data \<noteq> 48 then Inl StructError
         else
           rbind (timespec_value order data 4) (\<lambda>hw_s.
           if hw_s \<noteq> 0 then rbind (timespec_value order data 5) (\<lambda>hw_ns. Inr (Some (hw_s * 1000000000 + hw_ns)))
           else
             rbind (timespec_value order data 0) (\<lambda>sw_s.
             rbind (timespec_value order data 1) (\<lambda>sw_ns. Inr (Some (sw_s * 1000000000 + sw_ns))))))
      else extract_linux_timestamp order ancdata)"

subsection \<open>GET_DAQ_CLOCK_MULTICAST\<close>

definition DEFAULT_XCP_MULTICAST_PORT :: nat where "DEFAULT_XCP_MULTICAST_PORT = 5557"

text \<open>The address 239.255.HIGH.LOW, as its four numbers.\<close>

definition cluster_id_to_multicast_address :: "int \<Rightarrow> int list" where
  "cluster_id_to_multicast_address cluster =
     [239, 255, drop_bit 8 cluster AND 0xFF, cluster AND 0xFF]"

record multicast =
  multicast_sock :: bool
  multicast_enabled :: bool
  multicast_address :: "int list"
  multicast_port :: nat
  multicast_cluster :: int
  multicast_sent :: "(bytes \<times> int list \<times> nat) list"

definition no_multicast :: multicast where
  "no_multicast = \<lparr>multicast_sock = False, multicast_enabled = False, multicast_address = [], multicast_port = 0,
     multicast_cluster = 0, multicast_sent = []\<rparr>"

text \<open>\<open>socket_ok\<close>: whether the socket can be created and configured.\<close>

definition enable_multicast :: "bool \<Rightarrow> int \<Rightarrow> multicast \<Rightarrow> multicast" where
  "enable_multicast socket_ok cluster s =
     (if multicast_enabled s then s
      else if socket_ok then
        s\<lparr>multicast_sock := True, multicast_address := cluster_id_to_multicast_address cluster,
          multicast_port := DEFAULT_XCP_MULTICAST_PORT, multicast_cluster := cluster, multicast_enabled := True\<rparr>
      else s\<lparr>multicast_sock := False\<rparr>)"

definition disable_multicast :: "multicast \<Rightarrow> multicast" where
  "disable_multicast s = s\<lparr>multicast_sock := False, multicast_enabled := False\<rparr>"

text \<open>\<open>send_error\<close>: the exception of \<open>sendto\<close>, if it raises one.\<close>

definition send_multicast ::
  "bool \<Rightarrow> pyexn option \<Rightarrow> int \<Rightarrow> int \<Rightarrow> multicast \<times> XcpFraming \<Rightarrow> (unit result \<times> multicast \<times> XcpFraming) option" where
  "send_multicast socket_ok send_error cluster counter = (\<lambda>(s, fr).
     (let s1 = (if multicast_enabled s then s else enable_multicast socket_ok cluster s)
      in if \<not> multicast_sock s1 then Some (Inl RuntimeError, s1, fr)
         else
           (let cluster_le = cluster AND 0xFFFF
            in case prepare_request TRANSPORT_LAYER_CMD
                 [0xFA, cluster_le AND 0xFF, drop_bit 8 cluster_le AND 0xFF, counter AND 0xFF] fr of
                 Inl e \<Rightarrow> Some (Inl e, s1, fr)
               | Inr (None, fr') \<Rightarrow> None
               | Inr (Some packet, fr') \<Rightarrow>
                   (case send_error of
                      Some e \<Rightarrow> Some (Inl e, s1, fr')
                    | None \<Rightarrow>
                        Some (Inr (), s1\<lparr>multicast_sent := multicast_sent s1 @
                          [(packet, cluster_id_to_multicast_address cluster, DEFAULT_XCP_MULTICAST_PORT)]\<rparr>, fr')))))"

definition close_connection :: "multicast \<Rightarrow> multicast" where
  "close_connection s = (if multicast_enabled s then disable_multicast s else s)"

definition getDaqClockMulticast ::
  "string \<Rightarrow> bool \<Rightarrow> pyexn option \<Rightarrow> int \<Rightarrow> int \<Rightarrow> multicast \<times> XcpFraming \<Rightarrow> (unit result \<times> multicast \<times> XcpFraming) option" where
  "getDaqClockMulticast transport_class socket_ok send_error cluster counter = (\<lambda>(s, fr).
     (if transport_class \<noteq> ''eth'' then Some (Inl RuntimeError, s, fr)
      else send_multicast socket_ok send_error cluster counter (s, fr)))"

section \<open>Lemmas\<close>

subsection \<open>The frames of a stream\<close>

text \<open>
  What a receiver should hand on of a stream of bytes, each with the time it was received: length, counter
  and payload one after the other, stamped with the time of the frame's first byte; frames without a
  payload are passed over, and so is an incomplete frame at the end.
\<close>

type_synonym stamped = "(byte \<times> int) list"

definition frame_length :: "stamped \<Rightarrow> nat" where
  "frame_length s = unat (make_word_le (fst (s ! 0)) (fst (s ! 1)))"

definition frame_of :: "stamped \<Rightarrow> incoming" where
  "frame_of s = (map fst (take (frame_length s) (drop 4 s)), int (frame_length s),
     uint (make_word_le (fst (s ! 2)) (fst (s ! 3))), snd (s ! 0))"

function eth_frames :: "stamped \<Rightarrow> incoming list" where
  "eth_frames s =
     (if length s < 4 then []
      else if frame_length s = 0 then eth_frames (drop 4 s)
      else if length s < 4 + frame_length s then []
      else frame_of s # eth_frames (drop (4 + frame_length s) s))"
  by pat_completeness auto
termination by (relation "measure length") auto

declare eth_frames.simps [simp del]

lemma frame_length_append: "4 \<le> length s \<Longrightarrow> frame_length (s @ x) = frame_length s"
  by (cases s) (auto simp: frame_length_def nth_append)

lemma eth_frames_short: "length s < 4 \<Longrightarrow> eth_frames s = []"
  by (simp add: eth_frames.simps [of s])

lemma eth_frames_partial: "length s < 4 + frame_length s \<Longrightarrow> 0 < frame_length s \<Longrightarrow> eth_frames s = []"
  by (simp add: eth_frames.simps [of s])

lemma eth_frames_empty: "length s = 4 \<Longrightarrow> frame_length s = 0 \<Longrightarrow> eth_frames (s @ x) = eth_frames x"
proof -
  assume s: "length s = 4" "frame_length s = 0"
  then have "frame_length (s @ x) = 0" by (simp add: frame_length_append)
  with s show ?thesis by (simp add: eth_frames.simps [of "s @ x"])
qed

lemma eth_frames_complete:
  assumes "4 \<le> length s" and "length s = 4 + frame_length s" and "0 < frame_length s"
  shows "eth_frames (s @ x) = frame_of s # eth_frames x"
proof -
  have len: "frame_length (s @ x) = frame_length s" using assms(1) by (rule frame_length_append)
  have "frame_of (s @ x) = frame_of s" using assms by (simp add: frame_of_def len nth_append)
  with assms show ?thesis by (simp add: eth_frames.simps [of "s @ x"] len)
qed

text \<open>In state \<open>r\<close> the receiver has got the bytes \<open>p\<close> of a frame that is not complete.\<close>

definition eth_rep :: "EthReceiver \<Rightarrow> stamped \<Rightarrow> bool" where
  "eth_rep r p \<longleftrightarrow> (p \<noteq> [] \<longrightarrow> m_timestamp r = snd (hd p)) \<and>
     (if eth_state r = EthUntilPayload then
        4 \<le> length p \<and> length p < 4 + frame_length p \<and> m_buffer r = map fst (drop 4 p)
        \<and> unat (m_expected_len r) = frame_length p \<and> m_counter r = make_word_le (fst (p ! 2)) (fst (p ! 3))
      else length p < 4 \<and> m_buffer r = map fst p)"

lemma eth_rep_new: "eth_rep new_EthReceiver []"
  by (simp add: eth_rep_def new_EthReceiver_def)

lemma eth_rep_partial: "eth_rep r p \<Longrightarrow> eth_frames p = []"
  by (auto simp: eth_rep_def eth_frames_short eth_frames_partial split: if_splits)

definition stamp :: "int \<Rightarrow> bytes \<Rightarrow> stamped" where
  "stamp ts = map (\<lambda>b. (b, ts))"

lemma stamp_simps [simp]:
  "map fst (stamp ts bs) = bs" "length (stamp ts bs) = length bs" "stamp ts bs = [] \<longleftrightarrow> bs = []"
  "stamp ts (a @ b) = stamp ts a @ stamp ts b" "stamp ts [] = []"
  by (simp_all add: stamp_def comp_def)

lemma stamp_take_drop: "stamp ts (take n bs) @ stamp ts (drop n bs) = stamp ts bs"
  by (simp add: stamp_def flip: map_append)

lemma eth_feed_end: "eth_feed r [] ts out = Some (out, r)"
  by (subst eth_feed.simps) simp

lemma eth_feed_in_payload:
  assumes "data \<noteq> []" and "eth_state r = EthUntilPayload"
    and "min (length data) (unat (m_expected_len r) - length (m_buffer r)) = k" and "m_buffer r @ take k data = b"
  shows "eth_feed r data ts out =
    (if length b = unat (m_expected_len r) then
       eth_feed (r\<lparr>m_buffer := [], eth_state := EthIdle\<rparr>) (drop k data) ts
         (out @ [(b, uint (m_expected_len r), uint (m_counter r), m_timestamp r)])
     else eth_feed (r\<lparr>m_buffer := b\<rparr>) (drop k data) ts out)"
  unfolding eth_feed.simps [of r data] using assms(1,2)
  by (simp only: if_False EthState.case Let_def assms(3,4))

lemma eth_feed_in_header:
  assumes "data \<noteq> []" and "eth_state r \<noteq> EthUntilPayload"
    and "min (length data) (4 - length (m_buffer r)) = k" and "m_buffer r @ take k data = b"
    and "r1 = (if m_buffer r = [] then r\<lparr>m_timestamp := ts\<rparr> else r)"
  shows "eth_feed r data ts out =
    (if length b = 4 then
       eth_feed (r1\<lparr>m_expected_len := make_word_le (b ! 0) (b ! 1), m_counter := make_word_le (b ! 2) (b ! 3), m_buffer := [],
           eth_state := (if make_word_le (b ! 0) (b ! 1) = 0 then EthIdle else EthUntilPayload)\<rparr>) (drop k data) ts out
     else eth_feed (r1\<lparr>m_buffer := b, eth_state := EthUntilHeader\<rparr>) (drop k data) ts out)"
  unfolding eth_feed.simps [of r data] using assms(1,2)
  by (cases "eth_state r") (simp_all only: if_False EthState.case Let_def assms(3,4) assms(5) [symmetric] simp_thms)

lemma eth_feed_payload:
  assumes rep: "eth_rep r p" "eth_state r = EthUntilPayload" and "data \<noteq> []"
    and to_copy: "k = min (length data) (4 + frame_length p - length p)" and p': "p' = p @ stamp ts (take k data)"
  shows "0 < k \<and> (if length p' = 4 + frame_length p then
      eth_feed r data ts out = eth_feed (r\<lparr>m_buffer := [], eth_state := EthIdle\<rparr>) (drop k data) ts (out @ [frame_of p'])
      \<and> frame_length p' = frame_length p
    else k = length data \<and> (\<exists>r'. eth_feed r data ts out = eth_feed r' [] ts out \<and> eth_rep r' p'))"
proof -
  have p: "4 \<le> length p" "length p < 4 + frame_length p" "m_buffer r = map fst (drop 4 p)"
    "unat (m_expected_len r) = frame_length p" "m_counter r = make_word_le (fst (p ! 2)) (fst (p ! 3))"
    "m_timestamp r = snd (hd p)"
    using rep by (auto simp: eth_rep_def)
  have k: "min (length data) (unat (m_expected_len r) - length (m_buffer r)) = k" using p to_copy by simp
  have buffer: "m_buffer r @ take k data = map fst (drop 4 p')" using p by (simp add: p')
  have len: "frame_length p' = frame_length p" using p(1) unfolding p' by (rule frame_length_append)
  have "length p' \<le> 4 + frame_length p" using p to_copy by (simp add: p')
  have nth_p: "hd p = p ! 0" using p(1) by (intro hd_conv_nth) auto
  have nth: "p' ! i = p ! i" if "i < 4" for i using that p(1) by (simp add: p' nth_append)
  have "(length (map fst (drop 4 p')) = unat (m_expected_len r)) = (length p' = 4 + frame_length p)"
    using p \<open>length p' \<le> 4 + frame_length p\<close> by (auto simp: p')
  then have run: "eth_feed r data ts out =
      (if length p' = 4 + frame_length p then
         eth_feed (r\<lparr>m_buffer := [], eth_state := EthIdle\<rparr>) (drop k data) ts
           (out @ [(map fst (drop 4 p'), int (frame_length p), uint (m_counter r), m_timestamp r)])
       else eth_feed (r\<lparr>m_buffer := map fst (drop 4 p')\<rparr>) (drop k data) ts out)"
    unfolding eth_feed_in_payload [OF assms(3) rep(2) k buffer] by (simp only: uint_nat p(4))
  show ?thesis
  proof (cases "length p' = 4 + frame_length p")
    case True
    have "frame_of p' = (map fst (drop 4 p'), int (frame_length p), uint (m_counter r), m_timestamp r)"
      using True p nth nth_p by (simp add: frame_of_def len)
    with True run p to_copy assms(3) show ?thesis by (auto simp: len)
  next
    case False
    then have "k = length data" using to_copy p p' by (auto simp: min_def split: if_splits)
    moreover have "eth_rep (r\<lparr>m_buffer := map fst (drop 4 p')\<rparr>) p'"
      using rep(2) p nth False \<open>length p' \<le> 4 + frame_length p\<close>
      by (auto simp: eth_rep_def len [unfolded p'] p' hd_append)
    ultimately show ?thesis using False run assms(3) by auto
  qed
qed

lemma eth_feed_header:
  assumes rep: "eth_rep r p" "eth_state r \<noteq> EthUntilPayload" and "data \<noteq> []"
    and to_copy: "k = min (length data) (4 - length p)" and p': "p' = p @ stamp ts (take k data)"
  shows "0 < k \<and> (if length p' = 4 then
      \<exists>r'. eth_feed r data ts out = eth_feed r' (drop k data) ts out \<and> eth_rep r' (if frame_length p' = 0 then [] else p')
    else k = length data \<and> (\<exists>r'. eth_feed r data ts out = eth_feed r' [] ts out \<and> eth_rep r' p'))"
proof -
  have p: "length p < 4" "m_buffer r = map fst p" "p \<noteq> [] \<longrightarrow> m_timestamp r = snd (hd p)"
    using rep by (auto simp: eth_rep_def)
  let ?r = "if p = [] then r\<lparr>m_timestamp := ts\<rparr> else r"
  have buffer: "m_buffer r @ take k data = map fst p'" using p by (simp add: p')
  have k: "0 < k" using p(1) assms(3) to_copy by simp
  then obtain d ds where "take k data = d # ds" using assms(3) by (cases data; cases k) auto
  then have stamp_p: "m_timestamp ?r = snd (hd p')" "p' \<noteq> []" using p(3) by (auto simp: p' stamp_def hd_append)
  have four: "make_word_le (map fst p' ! 0) (map fst p' ! 1) = make_word_le (fst (p' ! 0)) (fst (p' ! 1))"
    "make_word_le (map fst p' ! 2) (map fst p' ! 3) = make_word_le (fst (p' ! 2)) (fst (p' ! 3))" if "length p' = 4"
    using that by simp_all
  have run: "eth_feed r data ts out =
      (if length p' = 4 then
         eth_feed (?r\<lparr>m_expected_len := make_word_le (fst (p' ! 0)) (fst (p' ! 1)),
             m_counter := make_word_le (fst (p' ! 2)) (fst (p' ! 3)), m_buffer := [],
             eth_state := (if frame_length p' = 0 then EthIdle else EthUntilPayload)\<rparr>) (drop k data) ts out
       else eth_feed (?r\<lparr>m_buffer := map fst p', eth_state := EthUntilHeader\<rparr>) (drop k data) ts out)"
  proof -
    have zero: "(make_word_le (fst (p' ! 0)) (fst (p' ! 1)) = 0) = (frame_length p' = 0)"
      by (simp add: frame_length_def unat_eq_0)
    have copy: "min (length data) (4 - length (m_buffer r)) = k" and r: "?r = (if m_buffer r = [] then r\<lparr>m_timestamp := ts\<rparr> else r)"
      using p(2) to_copy by simp_all
    show ?thesis
      unfolding eth_feed_in_header [OF assms(3) rep(2) copy buffer r]
      by (cases "length p' = 4") (simp_all only: length_map if_True if_False four zero simp_thms)
  qed
  show ?thesis
  proof (cases "length p' = 4")
    case True
    have "eth_rep (?r\<lparr>m_expected_len := make_word_le (fst (p' ! 0)) (fst (p' ! 1)),
        m_counter := make_word_le (fst (p' ! 2)) (fst (p' ! 3)), m_buffer := [],
        eth_state := (if frame_length p' = 0 then EthIdle else EthUntilPayload)\<rparr>) (if frame_length p' = 0 then [] else p')"
      using True stamp_p by (simp add: eth_rep_def frame_length_def)
    with True run k show ?thesis by auto
  next
    case False
    then have all: "k = length data" using to_copy p p' by (auto simp: min_def split: if_splits)
    have "length p' \<le> 4" using p to_copy by (simp add: p')
    with False have "length p' < 4" by simp
    then have "eth_rep (?r\<lparr>m_buffer := map fst p', eth_state := EthUntilHeader\<rparr>) p'"
      using stamp_p by (simp add: eth_rep_def)
    with False run k all show ?thesis by auto
  qed
qed

text \<open>Whatever is fed, the receiver hands on the frames of the stream, and the rest of it is what it represents.\<close>

lemma eth_feed_frames:
  assumes "eth_rep r p"
  shows "\<exists>fs r' q. eth_feed r data ts out = Some (out @ fs, r') \<and> eth_rep r' q
    \<and> (\<forall>x. eth_frames (p @ stamp ts data @ x) = fs @ eth_frames (q @ x))"
  using assms
proof (induction "length data" arbitrary: r p data out rule: less_induct)
  case less
  show ?case
  proof (cases "data = []")
    case True
    then have "eth_feed r data ts out = Some (out, r)" by (simp add: eth_feed_end)
    with True less.prems show ?thesis by (intro exI [of _ "[]"] exI [of _ r] exI [of _ p]) simp
  next
    case False
    have shorter: "length (drop k data) < length data" if "0 < k" for k using that False by simp
    have stop: "\<exists>fs r' q. eth_feed r data ts out = Some (out @ fs, r') \<and> eth_rep r' q
        \<and> (\<forall>x. eth_frames (p @ stamp ts data @ x) = fs @ eth_frames (q @ x))"
      if "eth_feed r data ts out = eth_feed r1 [] ts out" "eth_rep r1 (p @ stamp ts data)" for r1
      using that by (intro exI [of _ "[]"] exI [of _ r1] exI [of _ "p @ stamp ts data"]) (simp add: eth_feed_end)
    show ?thesis
    proof (cases "eth_state r = EthUntilPayload")
      case True
      define k where "k = min (length data) (4 + frame_length p - length p)"
      define p' where "p' = p @ stamp ts (take k data)"
      note step = eth_feed_payload [OF less.prems True False k_def p'_def, of out]
      show ?thesis
      proof (cases "length p' = 4 + frame_length p")
        case complete: True
        then have len: "frame_length p' = frame_length p" "0 < k" using step by auto
        have "4 \<le> length p" "length p < 4 + frame_length p" using less.prems True by (auto simp: eth_rep_def)
        with complete len have frames: "eth_frames (p' @ y) = frame_of p' # eth_frames y" for y
          by (intro eth_frames_complete) (auto simp: p'_def)
        have "eth_rep (r\<lparr>m_buffer := [], eth_state := EthIdle\<rparr>) []" by (simp add: eth_rep_def)
        then obtain fs r' q where IH: "eth_feed (r\<lparr>m_buffer := [], eth_state := EthIdle\<rparr>) (drop k data) ts (out @ [frame_of p'])
            = Some ((out @ [frame_of p']) @ fs, r')" "eth_rep r' q" "\<forall>x. eth_frames ([] @ stamp ts (drop k data) @ x) = fs @ eth_frames (q @ x)"
          using less.hyps [OF shorter [OF len(2)], of "r\<lparr>m_buffer := [], eth_state := EthIdle\<rparr>" "[]"] by blast
        have "eth_frames (p @ stamp ts data @ x) = (frame_of p' # fs) @ eth_frames (q @ x)" for x
          using frames [of "stamp ts (drop k data) @ x"] IH(3) stamp_take_drop [of ts k data]
          by (metis append_Cons append_Nil append_assoc p'_def)
        with IH(1,2) step complete show ?thesis by (intro exI [of _ "frame_of p' # fs"] exI [of _ r'] exI [of _ q]) auto
      next
        case False
        with step obtain r1 where "k = length data" "eth_feed r data ts out = eth_feed r1 [] ts out" "eth_rep r1 p'" by auto
        then show ?thesis by (intro stop [of r1]) (simp_all add: p'_def)
      qed
    next
      case idle: False
      define k where "k = min (length data) (4 - length p)"
      define p' where "p' = p @ stamp ts (take k data)"
      note step = eth_feed_header [OF less.prems idle False k_def p'_def, of out]
      show ?thesis
      proof (cases "length p' = 4")
        case True
        with step obtain r1 where r1: "0 < k" "eth_feed r data ts out = eth_feed r1 (drop k data) ts out"
          "eth_rep r1 (if frame_length p' = 0 then [] else p')" by auto
        obtain fs r' q where IH: "eth_feed r1 (drop k data) ts out = Some (out @ fs, r')" "eth_rep r' q"
          "\<forall>x. eth_frames ((if frame_length p' = 0 then [] else p') @ stamp ts (drop k data) @ x) = fs @ eth_frames (q @ x)"
          using less.hyps [OF shorter [OF r1(1)] r1(3)] by blast
        have "eth_frames (p' @ y) = eth_frames ((if frame_length p' = 0 then [] else p') @ y)" for y
          using True by (simp add: eth_frames_empty)
        then have "eth_frames (p @ stamp ts data @ x) = fs @ eth_frames (q @ x)" for x
          using IH(3) stamp_take_drop [of ts k data]
          by (metis append_assoc p'_def)
        with IH(1,2) r1(2) show ?thesis by (intro exI [of _ fs] exI [of _ r'] exI [of _ q]) auto
      next
        case False
        with step obtain r1 where "k = length data" "eth_feed r data ts out = eth_feed r1 [] ts out" "eth_rep r1 p'" by auto
        then show ?thesis by (intro stop [of r1]) (simp_all add: p'_def)
      qed
    qed
  qed
qed

lemma feed_packets_frames:
  assumes "eth_rep r p"
  shows "\<exists>fs r' q. feed_packets r packets = Some (fs, r') \<and> eth_rep r' q
    \<and> (\<forall>x. eth_frames (p @ concat (map (\<lambda>(b, ts). stamp ts b) packets) @ x) = fs @ eth_frames (q @ x))"
  using assms
proof (induction packets arbitrary: r p)
  case Nil
  then show ?case by (intro exI [of _ "[]"] exI [of _ r] exI [of _ p]) simp
next
  case (Cons a packets)
  obtain b ts where a: "a = (b, ts)" by (cases a)
  obtain fs r' q where one: "eth_feed r b ts [] = Some ([] @ fs, r')" "eth_rep r' q"
    "\<And>x. eth_frames (p @ stamp ts b @ x) = fs @ eth_frames (q @ x)"
    using eth_feed_frames [OF Cons.prems, of b ts "[]"] by blast
  obtain gs r'' q' where rest: "feed_packets r' packets = Some (gs, r'')" "eth_rep r'' q'"
    "\<And>x. eth_frames (q @ concat (map (\<lambda>(b, ts). stamp ts b) packets) @ x) = gs @ eth_frames (q' @ x)"
    using Cons.IH [OF one(2)] by blast
  have "eth_frames (p @ concat (map (\<lambda>(b, ts). stamp ts b) (a # packets)) @ x) = (fs @ gs) @ eth_frames (q' @ x)" for x
    using one(3) rest(3) by (simp add: a)
  with one(1) rest(1,2) show ?case
    by (intro exI [of _ "fs @ gs"] exI [of _ r''] exI [of _ q']) (simp add: a feed_frame_def)
qed

lemma feed_packets_new:
  "\<exists>r. feed_packets new_EthReceiver packets = Some (eth_frames (concat (map (\<lambda>(b, ts). stamp ts b) packets)), r)"
proof -
  obtain fs r q where run: "feed_packets new_EthReceiver packets = Some (fs, r)" "eth_rep r q"
    and frames: "\<And>x. eth_frames ([] @ concat (map (\<lambda>(b, ts). stamp ts b) packets) @ x) = fs @ eth_frames (q @ x)"
    using feed_packets_frames [OF eth_rep_new, of packets] by blast
  from run(2) have "eth_frames q = []" by (rule eth_rep_partial)
  with run(1) frames [of "[]"] show ?thesis by simp
qed

text \<open>A frame as the slave sends it.\<close>

definition eth_encode :: "bytes \<times> nat \<Rightarrow> bytes" where
  "eth_encode = (\<lambda>(payload, c). serialize_word_le (word_of_nat (length payload)) @ serialize_word_le (word_of_nat c) @ payload)"

definition eth_valid :: "bytes \<times> nat \<Rightarrow> bool" where
  "eth_valid = (\<lambda>(payload, c). length payload < 2 ^ 16 \<and> c < 2 ^ 16)"

lemma eth_frames_encoded:
  assumes "map fst s = concat (map eth_encode fs)" and "list_all eth_valid fs"
  shows "map without_stamp (eth_frames s) = map (\<lambda>(p, c). (p, int (length p), int c)) (filter (\<lambda>(p, c). p \<noteq> []) fs)"
  using assms
proof (induction fs arbitrary: s)
  case Nil
  then show ?case by (simp add: eth_frames_short)
next
  case (Cons f fs)
  obtain payload c where f: "f = (payload, c)" by (cases f)
  have bounds: "length payload < 2 ^ 16" "c < 2 ^ 16" using Cons.prems(2) by (simp_all add: f eth_valid_def)
  let ?n = "4 + length payload"
  have enc: "map fst s = eth_encode f @ concat (map eth_encode fs)" using Cons.prems(1) by simp
  have len: "length (eth_encode f) = ?n" by (simp add: f eth_encode_def)
  obtain s1 s2 where split: "s = s1 @ s2" "map fst s1 = eth_encode f" "map fst s2 = concat (map eth_encode fs)"
    using enc by (auto simp: map_eq_append_conv)
  have ls: "length s1 = ?n" using arg_cong [OF split(2), of length] len by simp
  have nth: "fst (s1 ! i) = eth_encode f ! i" if "i < 4" for i
    using that ls split(2) by (metis nth_map trans_less_add1)
  have bytes: "make_word_le (fst (s1 ! 0)) (fst (s1 ! 1)) = word_of_nat (length payload)"
    "make_word_le (fst (s1 ! 2)) (fst (s1 ! 3)) = word_of_nat c"
    using nth serialize_word_le_nth by (simp_all add: f eth_encode_def nth_append)
  have fl: "frame_length s1 = length payload"
    unfolding frame_length_def bytes using bounds by (simp add: unat_word_of_nat_16)
  have rest: "map without_stamp (eth_frames s2) = map (\<lambda>(p, c). (p, int (length p), int c)) (filter (\<lambda>(p, c). p \<noteq> []) fs)"
    using Cons.IH [OF split(3)] Cons.prems(2) by simp
  show ?case
  proof (cases "payload = []")
    case True
    with split(1) ls fl rest show ?thesis by (simp add: eth_frames_empty f)
  next
    case False
    have "map fst (take (length payload) (drop 4 s1)) = payload"
      using split(2) by (simp add: f eth_encode_def flip: take_map drop_map)
    then have "without_stamp (frame_of s1) = (payload, int (length payload), int c)"
      using bounds(2) unfolding without_stamp_def frame_of_def fl bytes
      by (simp add: uint_nat unat_word_of_nat_16)
    moreover have "eth_frames (s1 @ s2) = frame_of s1 # eth_frames s2"
      using ls fl False by (intro eth_frames_complete) simp_all
    ultimately show ?thesis using split(1) rest False by (simp add: f)
  qed
qed

lemma int_masks: "(v :: int) AND 0xFF = v mod 256" "(v :: int) AND 0xFFFF = v mod 65536"
proof -
  have "(0xFF :: int) = mask 8" "(0xFFFF :: int) = mask 16" by (simp_all add: mask_eq_exp_minus_1)
  then show "v AND 0xFF = v mod 256" "v AND 0xFFFF = v mod 65536"
    by (simp_all only: take_bit_eq_mask [symmetric] take_bit_eq_mod) simp_all
qed

lemma transport_layer_command: "serialize_cmd_value 0xF2 = [0xF2]"
  by (simp add: serialize_cmd_value_def byte_count_def find_msb_def msb_loop.simps)

section \<open>Properties\<close>

text \<open>
  C26. However a TCP stream is cut into pieces, the receiver returns and hands on exactly the frames of the
  stream, each with the time at which its first byte was received, as the reference that reads the whole
  stream at once does; for a stream of frames as a slave sends them these are the frames with a payload.
\<close>

theorem eth_receiver_equals_reference:
  "(\<exists>r. feed_packets new_EthReceiver packets = Some (eth_frames (concat (map (\<lambda>(b, ts). stamp ts b) packets)), r))
   \<and> (\<forall>fs. concat (map fst packets) = concat (map eth_encode fs) \<and> list_all eth_valid fs \<longrightarrow>
       map without_stamp (eth_frames (concat (map (\<lambda>(b, ts). stamp ts b) packets)))
         = map (\<lambda>(p, c). (p, int (length p), int c)) (filter (\<lambda>(p, c). p \<noteq> []) fs))"
proof (intro conjI allI impI)
  show "\<exists>r. feed_packets new_EthReceiver packets = Some (eth_frames (concat (map (\<lambda>(b, ts). stamp ts b) packets)), r)"
    by (rule feed_packets_new)
next
  fix fs
  assume fs: "concat (map fst packets) = concat (map eth_encode fs) \<and> list_all eth_valid fs"
  have "map fst (concat (map (\<lambda>(b, ts). stamp ts b) packets)) = concat (map fst packets)"
    by (induction packets) (auto simp: case_prod_unfold)
  with fs show "map without_stamp (eth_frames (concat (map (\<lambda>(b, ts). stamp ts b) packets)))
         = map (\<lambda>(p, c). (p, int (length p), int c)) (filter (\<lambda>(p, c). p \<noteq> []) fs)"
    by (intro eth_frames_encoded) auto
qed

theorem eth_receiver_equals_reference_witness:
  "map without_stamp (eth_frames (concat (map (\<lambda>(b, ts). stamp ts b)
      [([2, 0, 7], 10), ([0, 0xFF, 1, 0], 20), ([0, 8, 0, 1, 0], 30), ([9, 0, 0xFE], 40)])))
    = [([0xFF, 1], 2, 7), ([0xFE], 1, 9)]"
  using eth_receiver_equals_reference [of "[([2, 0, 7], 10), ([0, 0xFF, 1, 0], 20), ([0, 8, 0, 1, 0], 30), ([9, 0, 0xFE], 40)]"]
  by (auto dest!: spec [of _ "[([0xFF, 1], 7), ([], 8), ([0xFE], 9)]"] simp: eth_encode_def eth_valid_def serialize_word_le_def)

text \<open>
  The responses of the slave get into the queue of the requests, complete and in their order, whichever
  way the stream is cut: one round of the listener appends the payload of every frame that begins with
  0xFE or 0xFF, and leaves no packet behind.
\<close>

theorem eth_responses_in_order:
  assumes "eth_receiver l = new_EthReceiver" and "concat (map fst (eth_packets l)) = concat (map eth_encode fs)"
    and "list_all eth_valid fs"
  shows "\<exists>l' t'. eth_listen_round l t = Some (l', t') \<and> eth_packets l' = []
    \<and> resQueue t' = resQueue t @ [p. (p, c) \<leftarrow> fs, p \<noteq> [] \<and> 254 \<le> uint (hd p)]"
proof -
  let ?s = "concat (map (\<lambda>(b, ts). stamp ts b) (eth_packets l))"
  obtain r where r: "feed_packets new_EthReceiver (eth_packets l) = Some (eth_frames ?s, r)"
    using feed_packets_new by blast
  have "map fst ?s = concat (map fst (eth_packets l))" by (induction "eth_packets l") (auto simp: case_prod_unfold map_concat comp_def)
  with assms have frames: "map without_stamp (eth_frames ?s) = map (\<lambda>(p, c). (p, int (length p), int c)) (filter (\<lambda>(p, c). p \<noteq> []) fs)"
    by (intro eth_frames_encoded) auto
  have "responses (eth_frames ?s) = [p. (p, c) \<leftarrow> fs, p \<noteq> [] \<and> 254 \<le> uint (hd p)]"
    unfolding responses_without_stamp frames by (induction fs) (auto simp: py_slice_def py_clip_def)
  then show ?thesis
    using r assms(1) by (simp add: eth_listen_round_def deliver_effect)
qed

theorem eth_responses_in_order_witness:
  "\<exists>l' t'. eth_listen_round (new_eth_link\<lparr>eth_packets := [([2, 0, 7], 10), ([0, 0xFF, 1, 2, 0, 8, 0, 5], 20), ([1], 30)]\<rparr>)
      (new_transport eth_config False 5 0) = Some (l', t') \<and> eth_packets l' = [] \<and> resQueue t' = [[0xFF, 1]]"
proof -
  have "concat (map fst [([2, 0, 7], 10 :: int), ([0, 0xFF, 1, 2, 0, 8, 0, 5], 20), ([1], 30)])
      = concat (map eth_encode [([0xFF, 1], 7), ([5, 1], 8)])" "list_all eth_valid [([0xFF, 1], 7), ([5, 1], 8)]"
    by (simp_all add: eth_encode_def eth_valid_def serialize_word_le_def)
  then show ?thesis
    using eth_responses_in_order [of "new_eth_link\<lparr>eth_packets := [([2, 0, 7], 10), ([0, 0xFF, 1, 2, 0, 8, 0, 5], 20), ([1], 30)]\<rparr>"
        "[([0xFF, 1], 7), ([5, 1], 8)]" "new_transport eth_config False 5 0"]
    by (simp add: new_eth_link_def new_transport_def)
qed

text \<open>
  GET_DAQ_CLOCK_MULTICAST: when the socket is there or can be made, and the send succeeds, one packet with
  length 5 and the counter of the ordinary requests goes to the address of its cluster; that counter moves
  on. It is refused on any other transport.
\<close>

theorem multicast_packet:
  assumes "framing_type fr = eth_config" and "multicast_enabled s \<longrightarrow> multicast_sock s" and "multicast_enabled s \<or> ok"
    and "0 \<le> cluster" and "cluster < 2 ^ 16" and "0 \<le> counter" and "counter < 256"
  shows "\<exists>s'. getDaqClockMulticast ''eth'' ok None cluster counter (s, fr) =
      Some (Inr (), s', fr\<lparr>counter_send := counter_send fr + 1\<rparr>)
    \<and> multicast_sent s' = multicast_sent s @
        [([5, 0] @ serialize_word_le (counter_send fr) @ [0xF2, 0xFA, word_of_int (cluster mod 256), word_of_int (cluster div 256),
            word_of_int counter], [239, 255, cluster div 256, cluster mod 256], 5557)]
    \<and> (name \<noteq> ''eth'' \<longrightarrow> getDaqClockMulticast name ok err cluster counter (s, fr) = Some (Inl RuntimeError, s, fr))"
proof -
  let ?s1 = "if multicast_enabled s then s else enable_multicast ok cluster s"
  have sock: "multicast_sock ?s1" "multicast_sent ?s1 = multicast_sent s"
    using assms(2,3) by (auto simp: enable_multicast_def)
  have bytes: "cluster AND 0xFFFF = cluster" "cluster AND 0xFF = cluster mod 256" "drop_bit 8 cluster AND 0xFF = cluster div 256"
    "counter AND 0xFF = counter"
    using assms(4-7) by (simp_all add: int_masks drop_bit_eq_div)
  have "0 \<le> cluster div 256" "cluster div 256 < 256" "0 \<le> cluster mod 256" "cluster mod 256 < 256" using assms(4,5) by simp_all
  then have "prepare_request TRANSPORT_LAYER_CMD [0xFA, cluster mod 256, cluster div 256, counter] fr =
      Inr (Some ([5, 0] @ serialize_word_le (counter_send fr) @ [0xF2, 0xFA, word_of_int (cluster mod 256), word_of_int (cluster div 256),
            word_of_int counter]), fr\<lparr>counter_send := counter_send fr + 1\<rparr>)"
    using assms(6,7)
    by (simp add: prepare_request_def to_byte_def transport_layer_command assms(1) eth_config_def header_def size_field_def
        counter_field_def add_tail_def SEND_BUFFER_def Let_def serialize_word_le_def)
  then show ?thesis
    using sock
    by (simp add: getDaqClockMulticast_def send_multicast_def Let_def bytes cluster_id_to_multicast_address_def
        DEFAULT_XCP_MULTICAST_PORT_def)
qed

end
