(* ===== verification/Sxi_Transport.thy ===== *)
theory Sxi_Transport
  imports Transport_Base
begin

unbundle bit_operations_syntax

text \<open>
  XCP on a serial line: the receiver \<open>SxiReceiver\<close> (\<open>pyxcp/cpp_ext/sxi_framing.hpp\<close>), which is a template
  over header format and checksum, and of \<open>pyxcp/transport/sxi.py\<close> the choice of the receiver and of the
  framing of requests by the configuration, and the two threads. The serial port is a library's: the bytes
  it returns are an argument. The unused timer and the log messages are left out.
\<close>

section \<open>Model\<close>

subsection \<open>The receiver\<close>

datatype SxiHeaderFormat = LenByte | LenCtrByte | LenFillByte | LenWord | LenCtrWord | LenFillWord
datatype SxiChecksumType = SumNone | Sum8 | Sum16
datatype SxiState = SxiIdle | SxiUntilLength | SxiRemaining

definition BUFFER_SIZE :: nat where "BUFFER_SIZE = 1024"

record SxiReceiver =
  sx_buffer :: bytes
  sx_state :: SxiState
  sx_index :: nat
  sx_dlc :: nat
  sx_ctr :: nat
  sx_remaining :: nat
  sx_fill :: nat

definition sxi_reset :: "SxiReceiver \<Rightarrow> SxiReceiver" where
  "sxi_reset s = s\<lparr>sx_state := SxiIdle, sx_index := 0, sx_dlc := 0, sx_ctr := 0, sx_remaining := 0, sx_fill := 0\<rparr>"

definition new_SxiReceiver :: SxiReceiver where
  "new_SxiReceiver = sxi_reset \<lparr>sx_buffer = replicate BUFFER_SIZE 0, sx_state = SxiIdle, sx_index = 0, sx_dlc = 0, sx_ctr = 0,
     sx_remaining = 0, sx_fill = 0\<rparr>"

definition payload_off :: "SxiHeaderFormat \<Rightarrow> nat" where
  "payload_off fmt = (case fmt of LenByte \<Rightarrow> 1 | LenCtrByte \<Rightarrow> 2 | LenFillByte \<Rightarrow> 2 | LenWord \<Rightarrow> 2
     | LenCtrWord \<Rightarrow> 4 | LenFillWord \<Rightarrow> 4)"

text \<open>The last byte of the header has been stored: its fields, and what is to come.\<close>

definition word_at :: "bytes \<Rightarrow> nat \<Rightarrow> nat" where
  "word_at bs i = unat (make_word_le (bs ! i) (bs ! (i + 1)))"

definition header_fields :: "SxiHeaderFormat \<Rightarrow> SxiReceiver \<Rightarrow> SxiReceiver" where
  "header_fields fmt s =
     (case fmt of
        LenByte \<Rightarrow> s\<lparr>sx_dlc := unat (sx_buffer s ! 0)\<rparr>
      | LenCtrByte \<Rightarrow> s\<lparr>sx_dlc := unat (sx_buffer s ! 0), sx_ctr := unat (sx_buffer s ! 1)\<rparr>
      | LenFillByte \<Rightarrow> s\<lparr>sx_dlc := unat (sx_buffer s ! 0)\<rparr>
      | LenWord \<Rightarrow> s\<lparr>sx_dlc := word_at (sx_buffer s) 0\<rparr>
      | LenCtrWord \<Rightarrow> s\<lparr>sx_dlc := word_at (sx_buffer s) 0, sx_ctr := word_at (sx_buffer s) 2\<rparr>
      | LenFillWord \<Rightarrow> s\<lparr>sx_dlc := word_at (sx_buffer s) 0\<rparr>)"

definition header_complete :: "SxiHeaderFormat \<Rightarrow> SxiChecksumType \<Rightarrow> SxiReceiver \<Rightarrow> SxiReceiver" where
  "header_complete fmt cs s =
     (let s1 = header_fields fmt s;
          s2 = (case cs of
                  SumNone \<Rightarrow> s1\<lparr>sx_remaining := sx_dlc s1\<rparr>
                | Sum8 \<Rightarrow> s1\<lparr>sx_remaining := sx_dlc s1 + 1\<rparr>
                | Sum16 \<Rightarrow>
                    (let fill = (if odd (payload_off fmt + sx_dlc s1) then 1 else 0)
                     in s1\<lparr>sx_fill := fill, sx_remaining := sx_dlc s1 + (2 + fill)\<rparr>))
      in s2\<lparr>sx_state := SxiRemaining\<rparr>)"

definition checksum_matches :: "SxiHeaderFormat \<Rightarrow> SxiChecksumType \<Rightarrow> SxiReceiver \<Rightarrow> bool" where
  "checksum_matches fmt cs s =
     (let n = payload_off fmt + sx_dlc s
      in case cs of
           SumNone \<Rightarrow> True
         | Sum8 \<Rightarrow> checksum_byte (take (n + sx_fill s) (sx_buffer s)) = sx_buffer s ! n
         | Sum16 \<Rightarrow> checksum_word (take (n + sx_fill s) (sx_buffer s))
             = make_word_le (sx_buffer s ! (n + sx_fill s)) (sx_buffer s ! (n + sx_fill s + 1)))"

definition remaining_octet :: "SxiHeaderFormat \<Rightarrow> SxiChecksumType \<Rightarrow> SxiReceiver \<Rightarrow> frame list \<times> SxiReceiver" where
  "remaining_octet fmt cs s =
     (let s1 = (if 0 < sx_remaining s then s\<lparr>sx_remaining := sx_remaining s - 1\<rparr> else s)
      in if sx_remaining s1 = 0 then
           (if checksum_matches fmt cs s1 then
              [(take (sx_dlc s1) (drop (payload_off fmt) (sx_buffer s1)), sx_dlc s1, sx_ctr s1)] else [],
            sxi_reset s1)
         else ([], s1\<lparr>sx_index := sx_index s1 + 1\<rparr>))"

definition sxi_feed :: "SxiHeaderFormat \<Rightarrow> SxiChecksumType \<Rightarrow> byte \<Rightarrow> SxiReceiver \<Rightarrow> frame list \<times> SxiReceiver" where
  "sxi_feed fmt cs octet s =
     (if BUFFER_SIZE \<le> sx_index s then ([], sxi_reset s)
      else
        (let s1 = s\<lparr>sx_buffer := (sx_buffer s)[sx_index s := octet]\<rparr>;
             s2 = (if sx_state s1 = SxiIdle then s1\<lparr>sx_state := SxiUntilLength, sx_fill := 0\<rparr> else s1)
         in if sx_state s2 = SxiUntilLength then
              (if sx_index s2 = payload_off fmt - 1 then
                 (let s3 = header_complete fmt cs s2
                  in if sx_remaining s3 \<noteq> 0 then ([], s3\<lparr>sx_index := sx_index s3 + 1\<rparr>)
                     else remaining_octet fmt cs s3)
               else ([], s2\<lparr>sx_index := sx_index s2 + 1\<rparr>))
            else remaining_octet fmt cs s2))"

fun sxi_feed_bytes :: "SxiHeaderFormat \<Rightarrow> SxiChecksumType \<Rightarrow> bytes \<Rightarrow> SxiReceiver \<Rightarrow> frame list \<times> SxiReceiver" where
  "sxi_feed_bytes fmt cs [] s = ([], s)"
| "sxi_feed_bytes fmt cs (b # bs) s =
     (let (fs, s1) = sxi_feed fmt cs b s; (gs, s2) = sxi_feed_bytes fmt cs bs s1 in (fs @ gs, s2))"

subsection \<open>The transport\<close>

definition get_receiver_class :: "string \<Rightarrow> string \<Rightarrow> (SxiHeaderFormat \<times> SxiChecksumType) result" where
  "get_receiver_class header_format checksum_format =
     (case map_of [(''HEADER_LEN_BYTE'', LenByte), (''HEADER_LEN_CTR_BYTE'', LenCtrByte),
         (''HEADER_LEN_FILL_BYTE'', LenFillByte), (''HEADER_LEN_WORD'', LenWord),
         (''HEADER_LEN_CTR_WORD'', LenCtrWord), (''HEADER_LEN_FILL_WORD'', LenFillWord)] header_format of
        None \<Rightarrow> Inl KeyError
      | Some fmt \<Rightarrow>
          (case map_of [(''NO_CHECKSUM'', SumNone), (''CHECKSUM_BYTE'', Sum8), (''CHECKSUM_WORD'', Sum16)] checksum_format of
             None \<Rightarrow> Inl KeyError
           | Some cs \<Rightarrow> Inr (fmt, cs)))"

text \<open>\<open>SxI.__init__\<close>: the framing of requests, and the receiver.\<close>

definition sxi_init :: "string \<Rightarrow> string \<Rightarrow> (XcpFramingConfig \<times> SxiHeaderFormat \<times> SxiChecksumType) result" where
  "sxi_init header_format tail_format =
     rbind (parse_header_format header_format) (\<lambda>(l, c, f).
     case map_of [(''NO_CHECKSUM'', NO_CHECKSUM), (''CHECKSUM_BYTE'', BYTE_CHECKSUM), (''CHECKSUM_WORD'', WORD_CHECKSUM)] tail_format of
       None \<Rightarrow> Inl KeyError
     | Some cs \<Rightarrow>
         rbind (get_receiver_class header_format tail_format) (\<lambda>receiver.
         Inr (\<lparr>transport_layer_type = SXI, header_len = l, header_ctr = c, header_fill = f, tail_fill = False,
               tail_cs = cs\<rparr>, receiver)))"

text \<open>What the threads share. \<open>timestamp\<close> is the time when a frame is complete.\<close>

record sxi_link =
  sx_receiver :: SxiReceiver
  sx_frames :: "incoming list"

definition frame_dispatcher :: "int \<Rightarrow> frame \<Rightarrow> sxi_link \<Rightarrow> sxi_link" where
  "frame_dispatcher timestamp = (\<lambda>(data, len, counter) l.
     l\<lparr>sx_frames := sx_frames l @ [(data, int len, int counter, timestamp)]\<rparr>)"

definition frame_listen_step :: "SxiHeaderFormat \<Rightarrow> SxiChecksumType \<Rightarrow> bytes \<Rightarrow> int \<Rightarrow> sxi_link \<Rightarrow> sxi_link" where
  "frame_listen_step fmt cs data timestamp l =
     (let (fs, r) = sxi_feed_bytes fmt cs data (sx_receiver l)
      in fold (frame_dispatcher timestamp) fs (l\<lparr>sx_receiver := r\<rparr>))"

definition sxi_listen_step :: "sxi_link \<Rightarrow> transport \<Rightarrow> sxi_link \<times> transport" where
  "sxi_listen_step l t =
     (case sx_frames l of
        [] \<Rightarrow> (l, t)
      | frame # rest \<Rightarrow> (l\<lparr>sx_frames := rest\<rparr>, snd (process_response frame t)))"

section \<open>Lemmas\<close>

subsection \<open>The frames of a stream\<close>

definition sx_config :: "SxiHeaderFormat \<Rightarrow> SxiChecksumType \<Rightarrow> XcpFramingConfig" where
  "sx_config fmt cs =
     \<lparr>transport_layer_type = SXI,
      header_len = (if fmt \<in> {LenByte, LenCtrByte, LenFillByte} then 1 else 2),
      header_ctr = (case fmt of LenCtrByte \<Rightarrow> 1 | LenCtrWord \<Rightarrow> 2 | _ \<Rightarrow> 0),
      header_fill = (case fmt of LenFillByte \<Rightarrow> 1 | LenFillWord \<Rightarrow> 2 | _ \<Rightarrow> 0),
      tail_fill = False,
      tail_cs = (case cs of SumNone \<Rightarrow> NO_CHECKSUM | Sum8 \<Rightarrow> BYTE_CHECKSUM | Sum16 \<Rightarrow> WORD_CHECKSUM)\<rparr>"

lemma sx_config_header: "get_header_size (sx_config fmt cs) = payload_off fmt" "header_ok (sx_config fmt cs)"
  by (cases fmt; simp add: sx_config_def get_header_size_def payload_off_def header_ok_def)+

lemma sxi_init_config: "sxi_init h t = Inr (cfg, fmt, cs) \<Longrightarrow> cfg = sx_config fmt cs"
  by (auto simp: sxi_init_def parse_header_format_def get_receiver_class_def sx_config_def split: if_splits)

text \<open>The fields of a frame whose header is complete, and its number of bytes.\<close>

definition sx_len :: "SxiHeaderFormat \<Rightarrow> bytes \<Rightarrow> nat" where
  "sx_len fmt p = (if fmt \<in> {LenByte, LenCtrByte, LenFillByte} then unat (p ! 0) else word_at p 0)"

definition sx_counter :: "SxiHeaderFormat \<Rightarrow> bytes \<Rightarrow> nat" where
  "sx_counter fmt p = (case fmt of LenCtrByte \<Rightarrow> unat (p ! 1) | LenCtrWord \<Rightarrow> word_at p 2 | _ \<Rightarrow> 0)"

definition sx_padding :: "SxiHeaderFormat \<Rightarrow> SxiChecksumType \<Rightarrow> nat \<Rightarrow> nat" where
  "sx_padding fmt cs n = (if cs = Sum16 \<and> odd (payload_off fmt + n) then 1 else 0)"

definition sx_total :: "SxiHeaderFormat \<Rightarrow> SxiChecksumType \<Rightarrow> bytes \<Rightarrow> nat" where
  "sx_total fmt cs p = payload_off fmt + sx_len fmt p + sx_padding fmt cs (sx_len fmt p)
     + (case cs of SumNone \<Rightarrow> 0 | Sum8 \<Rightarrow> 1 | Sum16 \<Rightarrow> 2)"

definition sx_frame :: "SxiHeaderFormat \<Rightarrow> bytes \<Rightarrow> frame" where
  "sx_frame fmt p = (take (sx_len fmt p) (drop (payload_off fmt) p), sx_len fmt p, sx_counter fmt p)"

lemma off_pos [simp]: "0 < payload_off fmt" "payload_off fmt \<le> 4"
  by (cases fmt; simp add: payload_off_def)+

lemma total_pos [simp]: "0 < sx_total fmt cs p"
  by (simp add: sx_total_def)

lemma drop_total: "sx_total fmt cs p \<le> length s \<Longrightarrow> length s - sx_total fmt cs p < length s"
  using total_pos [of fmt cs p] by linarith

text \<open>
  What the receiver should hand on of a stream: frame after frame, those whose checksum is right. A frame
  that does not fit the buffer is dropped together with the octet that overflows it.
\<close>

function sxi_frames :: "SxiHeaderFormat \<Rightarrow> SxiChecksumType \<Rightarrow> bytes \<Rightarrow> frame list" where
  "sxi_frames fmt cs s =
     (if length s < payload_off fmt then []
      else if BUFFER_SIZE < sx_total fmt cs s then
        (if length s \<le> BUFFER_SIZE then [] else sxi_frames fmt cs (drop (BUFFER_SIZE + 1) s))
      else if length s < sx_total fmt cs s then []
      else (if verify_checksum (sx_config fmt cs) (take (sx_total fmt cs s) s) then [sx_frame fmt s] else [])
        @ sxi_frames fmt cs (drop (sx_total fmt cs s) s))"
  by pat_completeness auto
termination by (relation "measure (\<lambda>(fmt, cs, s). length s)") (auto simp: drop_total)

declare sxi_frames.simps [simp del]

text \<open>In state \<open>s\<close> the receiver has got the bytes \<open>p\<close> of a frame that is not complete.\<close>

definition sx_rep :: "SxiHeaderFormat \<Rightarrow> SxiChecksumType \<Rightarrow> SxiReceiver \<Rightarrow> bytes \<Rightarrow> bool" where
  "sx_rep fmt cs s p \<longleftrightarrow> length (sx_buffer s) = BUFFER_SIZE \<and> sx_index s = length p \<and> length p \<le> BUFFER_SIZE
     \<and> take (length p) (sx_buffer s) = p
     \<and> (if p = [] then sx_state s = SxiIdle \<and> sx_ctr s = 0
        else if length p < payload_off fmt then sx_state s = SxiUntilLength \<and> sx_ctr s = 0 \<and> sx_fill s = 0
        else sx_state s = SxiRemaining \<and> sx_dlc s = sx_len fmt p \<and> sx_ctr s = sx_counter fmt p
          \<and> sx_fill s = sx_padding fmt cs (sx_len fmt p) \<and> 0 < sx_remaining s
          \<and> sx_remaining s + length p = sx_total fmt cs p)"

lemma sx_rep_reset: "length (sx_buffer s) = BUFFER_SIZE \<Longrightarrow> sx_rep fmt cs (sxi_reset s) []"
  by (simp add: sx_rep_def sxi_reset_def)

lemma sx_rep_new: "sx_rep fmt cs new_SxiReceiver []"
  unfolding new_SxiReceiver_def by (rule sx_rep_reset) simp

lemma prefix_nth: "take (length p) b = p \<Longrightarrow> i < length p \<Longrightarrow> b ! i = p ! i"
  by (metis nth_take)

lemma fields_prefix:
  assumes "\<And>i. i < payload_off fmt \<Longrightarrow> b ! i = p ! i"
  shows "sx_len fmt b = sx_len fmt p" "sx_counter fmt b = sx_counter fmt p" "sx_total fmt cs b = sx_total fmt cs p"
proof -
  show len: "sx_len fmt b = sx_len fmt p" and "sx_counter fmt b = sx_counter fmt p"
    using assms by (cases fmt; simp add: sx_len_def sx_counter_def word_at_def payload_off_def)+
  then show "sx_total fmt cs b = sx_total fmt cs p" by (simp add: sx_total_def)
qed

lemma fields_append: "payload_off fmt \<le> length p \<Longrightarrow>
  sx_len fmt (p @ x) = sx_len fmt p \<and> sx_counter fmt (p @ x) = sx_counter fmt p \<and> sx_total fmt cs (p @ x) = sx_total fmt cs p"
  using fields_prefix [of fmt "p @ x" p] by (auto simp: nth_append)

lemma header_complete_fields:
  "sx_ctr s = 0 \<Longrightarrow> sx_fill s = 0 \<Longrightarrow> header_complete fmt cs s =
    s\<lparr>sx_dlc := sx_len fmt (sx_buffer s), sx_ctr := sx_counter fmt (sx_buffer s),
      sx_fill := sx_padding fmt cs (sx_len fmt (sx_buffer s)),
      sx_remaining := sx_total fmt cs (sx_buffer s) - payload_off fmt, sx_state := SxiRemaining\<rparr>"
  by (cases fmt; cases cs; simp add: header_complete_def header_fields_def sx_len_def sx_counter_def sx_padding_def
      sx_total_def Let_def payload_off_def)

lemma checksum_matches_verify:
  assumes "take (length p) (sx_buffer s) = p" and "length p = sx_total fmt cs p" and "sx_dlc s = sx_len fmt p"
    and "sx_fill s = sx_padding fmt cs (sx_len fmt p)"
  shows "checksum_matches fmt cs s = verify_checksum (sx_config fmt cs) p"
proof -
  note nth = prefix_nth [OF assms(1)]
  have pre: "take n (sx_buffer s) = take n p" if "n \<le> length p" for n
    using that assms(1) by (metis min.absorb1 take_take)
  show ?thesis
  proof (cases cs)
    case SumNone
    then show ?thesis by (simp add: checksum_matches_def verify_checksum_def sx_config_def)
  next
    case Sum8
    then have len: "length p = payload_off fmt + sx_len fmt p + 1" using assms(2) by (simp add: sx_total_def sx_padding_def)
    then have "last p = p ! (payload_off fmt + sx_len fmt p)" by (subst last_conv_nth) auto
    with Sum8 assms(3,4) len show ?thesis
      using nth pre by (auto simp: checksum_matches_def verify_checksum_def sx_config_def sx_padding_def butlast_conv_take Let_def)
  next
    case Sum16
    let ?n = "payload_off fmt + sx_len fmt p + sx_fill s"
    have len: "length p = ?n + 2" using Sum16 assms(2,4) by (simp add: sx_total_def)
    have "even (length p)" using Sum16 assms(4) by (simp add: len sx_padding_def)
    moreover have "take ?n (sx_buffer s) = take ?n p" "sx_buffer s ! ?n = p ! ?n" "sx_buffer s ! (?n + 1) = p ! (?n + 1)"
      using len nth pre by simp_all
    moreover have "length p - 2 = ?n" "length p - 1 = ?n + 1" using len by simp_all
    ultimately show ?thesis
      using Sum16 assms(3) len by (auto simp: checksum_matches_def verify_checksum_def sx_config_def Let_def)
  qed
qed

lemma remaining_octet_rep:
  assumes "length (sx_buffer s) = BUFFER_SIZE" and "take (length p) (sx_buffer s) = p" and "length p \<le> BUFFER_SIZE"
    and "payload_off fmt \<le> length p" and "sx_state s = SxiRemaining" and "sx_dlc s = sx_len fmt p"
    and "sx_ctr s = sx_counter fmt p" and "sx_fill s = sx_padding fmt cs (sx_len fmt p)"
    and "sx_index s + 1 = length p"
    and "(sx_remaining s - 1) + length p = sx_total fmt cs p"
  shows "if length p = sx_total fmt cs p then
      \<exists>s'. remaining_octet fmt cs s = ((if verify_checksum (sx_config fmt cs) p then [sx_frame fmt p] else []), s')
        \<and> sx_rep fmt cs s' []
    else \<exists>s'. remaining_octet fmt cs s = ([], s') \<and> sx_rep fmt cs s' p"
proof (cases "length p = sx_total fmt cs p")
  case True
  let ?s1 = "s\<lparr>sx_remaining := 0\<rparr>"
  have s1: "(if 0 < sx_remaining s then s\<lparr>sx_remaining := sx_remaining s - 1\<rparr> else s) = ?s1"
    using assms(10) True by (cases s) auto
  have "checksum_matches fmt cs ?s1 = verify_checksum (sx_config fmt cs) p"
    using assms(2,6,8) True by (intro checksum_matches_verify) simp_all
  moreover have "take (sx_len fmt p) (drop (payload_off fmt) (sx_buffer s)) = take (sx_len fmt p) (drop (payload_off fmt) p)"
  proof -
    have "payload_off fmt + sx_len fmt p \<le> length p" unfolding True by (simp add: sx_total_def)
    then have "take (payload_off fmt + sx_len fmt p) (sx_buffer s) = take (payload_off fmt + sx_len fmt p) p"
      using assms(2) by (metis min.absorb1 take_take)
    then show ?thesis by (metis add_diff_cancel_left' drop_take)
  qed
  ultimately have "remaining_octet fmt cs s = ((if verify_checksum (sx_config fmt cs) p then [sx_frame fmt p] else []), sxi_reset ?s1)"
    unfolding remaining_octet_def s1 Let_def using assms(6,7) by (simp add: sx_frame_def)
  moreover have "sx_rep fmt cs (sxi_reset ?s1) []" by (rule sx_rep_reset) (simp add: assms(1))
  ultimately show ?thesis using True by auto
next
  case False
  then have "1 < sx_remaining s" using assms(10) by linarith
  then have "remaining_octet fmt cs s = ([], s\<lparr>sx_remaining := sx_remaining s - 1, sx_index := sx_index s + 1\<rparr>)"
    by (simp add: remaining_octet_def Let_def)
  moreover have "sx_rep fmt cs (s\<lparr>sx_remaining := sx_remaining s - 1, sx_index := sx_index s + 1\<rparr>) p"
    using assms \<open>1 < sx_remaining s\<close> by (auto simp: sx_rep_def)
  ultimately show ?thesis using False by simp
qed

lemma sxi_feed_rep:
  assumes rep: "sx_rep fmt cs s p" and short: "length p < BUFFER_SIZE"
  shows "if payload_off fmt \<le> length (p @ [b]) \<and> length (p @ [b]) = sx_total fmt cs (p @ [b]) then
      \<exists>s'. sxi_feed fmt cs b s = ((if verify_checksum (sx_config fmt cs) (p @ [b]) then [sx_frame fmt (p @ [b])] else []), s')
        \<and> sx_rep fmt cs s' []
    else \<exists>s'. sxi_feed fmt cs b s = ([], s') \<and> sx_rep fmt cs s' (p @ [b])"
proof -
  let ?p = "p @ [b]"
  have buf: "length (sx_buffer s) = BUFFER_SIZE" "sx_index s = length p" "take (length p) (sx_buffer s) = p"
    using rep by (simp_all add: sx_rep_def)
  let ?buf = "(sx_buffer s)[length p := b]"
  have buf': "length ?buf = BUFFER_SIZE" "take (length ?p) ?buf = ?p" "length ?p \<le> BUFFER_SIZE"
    using buf short by (simp_all add: take_Suc_conv_app_nth)
  let ?s2 = "s\<lparr>sx_buffer := ?buf, sx_state := SxiUntilLength, sx_fill := 0\<rparr>"
  have in_header: "sx_ctr s = 0 \<and> sxi_feed fmt cs b s =
      (if length p = payload_off fmt - 1 then
         (let s3 = header_complete fmt cs ?s2
          in if sx_remaining s3 \<noteq> 0 then ([], s3\<lparr>sx_index := sx_index s3 + 1\<rparr>) else remaining_octet fmt cs s3)
       else ([], ?s2\<lparr>sx_index := length p + 1\<rparr>))" if "length p < payload_off fmt"
  proof -
    have st: "sx_ctr s = 0" "p = [] \<and> sx_state s = SxiIdle \<or> p \<noteq> [] \<and> sx_state s = SxiUntilLength \<and> sx_fill s = 0"
      using rep that by (auto simp: sx_rep_def split: if_splits)
    then have state: "(if sx_state (s\<lparr>sx_buffer := ?buf\<rparr>) = SxiIdle then s\<lparr>sx_buffer := ?buf, sx_state := SxiUntilLength, sx_fill := 0\<rparr>
        else s\<lparr>sx_buffer := ?buf\<rparr>) = ?s2"
      by (cases s) auto
    have "(BUFFER_SIZE \<le> length p) = False" using short by simp
    with st(1) show ?thesis unfolding sxi_feed_def Let_def buf(2) state by (simp add: buf(2))
  qed
  consider "length ?p < payload_off fmt" | "length ?p = payload_off fmt" | "payload_off fmt \<le> length p" by fastforce
  then show ?thesis
  proof cases
    case 1
    then have "sxi_feed fmt cs b s = ([], ?s2\<lparr>sx_index := length p + 1\<rparr>)" "sx_ctr s = 0" using in_header by auto
    then show ?thesis using 1 buf' by (simp add: sx_rep_def)
  next
    case 2
    have fields: "sx_len fmt ?buf = sx_len fmt ?p" "sx_counter fmt ?buf = sx_counter fmt ?p" "sx_total fmt cs ?buf = sx_total fmt cs ?p"
      using 2 prefix_nth [OF buf'(2)] by (intro fields_prefix; simp)+
    define s3 where "s3 = ?s2\<lparr>sx_dlc := sx_len fmt ?p, sx_ctr := sx_counter fmt ?p, sx_fill := sx_padding fmt cs (sx_len fmt ?p),
      sx_remaining := sx_total fmt cs ?p - payload_off fmt, sx_state := SxiRemaining\<rparr>"
    have p: "length p < payload_off fmt" and idx: "length p = payload_off fmt - 1" using 2 by simp_all
    have ctr: "sx_ctr s = 0" by (rule conjunct1 [OF in_header [OF p]])
    have complete: "header_complete fmt cs ?s2 = s3" by (simp add: header_complete_fields ctr fields s3_def)
    have run: "sxi_feed fmt cs b s =
        (if sx_remaining s3 \<noteq> 0 then ([], s3\<lparr>sx_index := sx_index s3 + 1\<rparr>) else remaining_octet fmt cs s3)"
      unfolding conjunct2 [OF in_header [OF p]] if_P [OF idx] complete Let_def ..
    have total: "payload_off fmt \<le> sx_total fmt cs ?p" by (simp add: sx_total_def)
    show ?thesis
    proof (cases "sx_total fmt cs ?p = payload_off fmt")
      case True
      then have "sxi_feed fmt cs b s = remaining_octet fmt cs s3" by (simp add: run s3_def)
      moreover have "if length ?p = sx_total fmt cs ?p then
          \<exists>s'. remaining_octet fmt cs s3 = ((if verify_checksum (sx_config fmt cs) ?p then [sx_frame fmt ?p] else []), s')
            \<and> sx_rep fmt cs s' []
        else \<exists>s'. remaining_octet fmt cs s3 = ([], s') \<and> sx_rep fmt cs s' ?p"
        by (rule remaining_octet_rep) (use buf' buf(2) 2 True in \<open>simp_all add: s3_def\<close>)
      ultimately show ?thesis using 2 True by simp
    next
      case False
      then have "sxi_feed fmt cs b s = ([], s3\<lparr>sx_index := sx_index s3 + 1\<rparr>)" using total by (simp add: run s3_def)
      moreover have "sx_rep fmt cs (s3\<lparr>sx_index := sx_index s3 + 1\<rparr>) ?p"
        using buf' buf(2) 2 False total by (simp add: sx_rep_def s3_def)
      ultimately show ?thesis using 2 False by simp
    qed
  next
    case 3
    have ne: "p \<noteq> []" using less_le_trans [OF off_pos(1) 3] by auto
    with 3 have st: "sx_state s = SxiRemaining" "sx_dlc s = sx_len fmt p" "sx_ctr s = sx_counter fmt p"
      "sx_fill s = sx_padding fmt cs (sx_len fmt p)" "0 < sx_remaining s" "sx_remaining s + length p = sx_total fmt cs p"
      using rep by (auto simp: sx_rep_def split: if_splits)
    note fields = fields_append [OF 3, of "[b]" cs]
    have "sxi_feed fmt cs b s = remaining_octet fmt cs (s\<lparr>sx_buffer := ?buf\<rparr>)"
      using st(1) short buf(2) by (simp add: sxi_feed_def Let_def)
    moreover have "if length ?p = sx_total fmt cs ?p then
        \<exists>s'. remaining_octet fmt cs (s\<lparr>sx_buffer := ?buf\<rparr>) = ((if verify_checksum (sx_config fmt cs) ?p then [sx_frame fmt ?p] else []), s')
          \<and> sx_rep fmt cs s' []
      else \<exists>s'. remaining_octet fmt cs (s\<lparr>sx_buffer := ?buf\<rparr>) = ([], s') \<and> sx_rep fmt cs s' ?p"
      by (rule remaining_octet_rep) (use buf' buf(2) 3 st fields in simp_all)
    ultimately show ?thesis using 3 by simp
  qed
qed

lemma sxi_frames_short: "sx_rep fmt cs s p \<Longrightarrow> sxi_frames fmt cs p = []"
  by (subst sxi_frames.simps) (auto simp: sx_rep_def split: if_splits)

lemma sxi_frames_complete:
  assumes "payload_off fmt \<le> length p" and "length p = sx_total fmt cs p" and "length p \<le> BUFFER_SIZE"
  shows "sxi_frames fmt cs (p @ x) = (if verify_checksum (sx_config fmt cs) p then [sx_frame fmt p] else []) @ sxi_frames fmt cs x"
proof -
  note fields = fields_append [OF assms(1), of x cs]
  have "payload_off fmt + sx_len fmt p \<le> length p" unfolding assms(2) by (simp add: sx_total_def)
  then have "sx_frame fmt (p @ x) = sx_frame fmt p" using fields by (simp add: sx_frame_def)
  with fields assms show ?thesis by (subst sxi_frames.simps) simp
qed

lemma sxi_frames_overflow:
  assumes "payload_off fmt \<le> length p" and "BUFFER_SIZE < sx_total fmt cs p" and "length p = BUFFER_SIZE"
  shows "sxi_frames fmt cs (p @ b # x) = sxi_frames fmt cs x"
  using assms fields_append [OF assms(1), of "b # x" cs] by (subst sxi_frames.simps) simp

lemma sxi_feed_frames:
  assumes rep: "sx_rep fmt cs s p"
  shows "\<exists>fs s' q. sxi_feed fmt cs b s = (fs, s') \<and> sx_rep fmt cs s' q
    \<and> (\<forall>x. sxi_frames fmt cs (p @ b # x) = fs @ sxi_frames fmt cs (q @ x))"
proof (cases "length p < BUFFER_SIZE")
  case False
  then have len: "length p = BUFFER_SIZE" using rep by (simp add: sx_rep_def)
  have off: "payload_off fmt \<le> BUFFER_SIZE" by (cases fmt) (simp_all add: BUFFER_SIZE_def payload_off_def)
  have "p \<noteq> []" using len by (auto simp: BUFFER_SIZE_def)
  with off len rep have "BUFFER_SIZE < sx_total fmt cs p" by (auto simp: sx_rep_def)
  then have frames: "sxi_frames fmt cs (p @ b # x) = sxi_frames fmt cs x" for x
    using off len by (intro sxi_frames_overflow) simp_all
  have "sxi_feed fmt cs b s = ([], sxi_reset s)" using rep len by (simp add: sxi_feed_def sx_rep_def)
  moreover have "sx_rep fmt cs (sxi_reset s) []" by (rule sx_rep_reset) (use rep in \<open>simp add: sx_rep_def\<close>)
  ultimately show ?thesis using frames by (intro exI [of _ "[]"] exI [of _ "sxi_reset s"]) simp
next
  case True
  let ?p = "p @ [b]"
  note step = sxi_feed_rep [OF rep True, of b]
  show ?thesis
  proof (cases "payload_off fmt \<le> length ?p \<and> length ?p = sx_total fmt cs ?p")
    case complete: True
    then have "length ?p \<le> BUFFER_SIZE" using True by simp
    with complete have frames: "sxi_frames fmt cs (?p @ x)
        = (if verify_checksum (sx_config fmt cs) ?p then [sx_frame fmt ?p] else []) @ sxi_frames fmt cs x" for x
      by (intro sxi_frames_complete) simp_all
    obtain s' where "sxi_feed fmt cs b s = ((if verify_checksum (sx_config fmt cs) ?p then [sx_frame fmt ?p] else []), s')"
      "sx_rep fmt cs s' []"
      using step complete by auto
    with frames show ?thesis by (intro exI conjI allI) (assumption+, simp)
  next
    case False
    with step obtain s' where "sxi_feed fmt cs b s = ([], s')" "sx_rep fmt cs s' ?p" by auto
    then show ?thesis by (intro exI conjI allI) (assumption+, simp)
  qed
qed

lemma sxi_feed_bytes_frames:
  assumes "sx_rep fmt cs s p"
  shows "\<exists>fs s' q. sxi_feed_bytes fmt cs bs s = (fs, s') \<and> sx_rep fmt cs s' q
    \<and> (\<forall>x. sxi_frames fmt cs (p @ bs @ x) = fs @ sxi_frames fmt cs (q @ x))"
  using assms
proof (induction bs arbitrary: s p)
  case Nil
  then show ?case by (intro exI [of _ "[]"] exI [of _ s] exI [of _ p]) simp
next
  case (Cons b bs)
  obtain fs s' q where one: "sxi_feed fmt cs b s = (fs, s')" "sx_rep fmt cs s' q"
    "\<And>x. sxi_frames fmt cs (p @ b # x) = fs @ sxi_frames fmt cs (q @ x)"
    using sxi_feed_frames [OF Cons.prems, of b] by blast
  obtain gs s'' q' where rest: "sxi_feed_bytes fmt cs bs s' = (gs, s'')" "sx_rep fmt cs s'' q'"
    "\<And>x. sxi_frames fmt cs (q @ bs @ x) = gs @ sxi_frames fmt cs (q' @ x)"
    using Cons.IH [OF one(2)] by blast
  from one rest show ?case by (intro exI [of _ "fs @ gs"] exI [of _ s''] exI [of _ q']) simp
qed


subsection \<open>The frames of a slave\<close>

definition sx_encode :: "SxiHeaderFormat \<Rightarrow> SxiChecksumType \<Rightarrow> bytes \<times> nat \<Rightarrow> bytes" where
  "sx_encode fmt cs = (\<lambda>(payload, c).
     add_tail (sx_config fmt cs) (header (sx_config fmt cs) (length payload) (word_of_nat c) @ payload))"

definition sx_valid :: "SxiHeaderFormat \<Rightarrow> SxiChecksumType \<Rightarrow> bytes \<times> nat \<Rightarrow> bool" where
  "sx_valid fmt cs = (\<lambda>(payload, c). in_range (sx_config fmt cs) (length payload) c
     \<and> length (sx_encode fmt cs (payload, c)) \<le> BUFFER_SIZE)"

lemma sx_unpack: "payload_off fmt \<le> length p \<Longrightarrow>
  unpack_header (sx_config fmt cs) p 0 = Some (sx_len fmt p, sx_counter fmt p)"
  by (cases fmt; simp add: unpack_header_fields sx_config_header; simp add: read_field_def sx_config_def sx_len_def
      sx_counter_def word_at_def)

text \<open>A frame in the shape of an encoded one: the header of a payload, and as many bytes behind it as belong to it.\<close>

lemma sx_encode_fields:
  assumes "in_range (sx_config fmt cs) n c" and "p = header (sx_config fmt cs) n (word_of_nat c) @ rest"
  shows "payload_off fmt \<le> length p" "sx_len fmt p = n" "sx_counter fmt p = c" "drop (payload_off fmt) p = rest"
proof -
  have len: "length (header (sx_config fmt cs) n (word_of_nat c)) = payload_off fmt"
    using length_header [OF sx_config_header(2)] sx_config_header(1) by metis
  then show off: "payload_off fmt \<le> length p" and "drop (payload_off fmt) p = rest" using assms(2) by simp_all
  have "unpack_header (sx_config fmt cs) p 0 = Some (n, c)"
    by (rule unpack_header_header [OF sx_config_header(2) assms(1), where rest = rest]) (simp_all add: assms(2))
  with sx_unpack [OF off, of cs] show "sx_len fmt p = n" "sx_counter fmt p = c" by simp_all
qed

lemma sx_encode_total:
  assumes "in_range (sx_config fmt cs) (length payload) c"
  shows "length (sx_encode fmt cs (payload, c)) = sx_total fmt cs (sx_encode fmt cs (payload, c))"
    and "\<exists>rest. sx_encode fmt cs (payload, c) = header (sx_config fmt cs) (length payload) (word_of_nat c) @ payload @ rest"
proof -
  let ?cfg = "sx_config fmt cs"
  let ?h = "header ?cfg (length payload) (word_of_nat c)"
  obtain rest where rest: "sx_encode fmt cs (payload, c) = ?h @ payload @ rest"
    using add_tail_extends [of ?cfg "?h @ payload"] by (auto simp: sx_encode_def)
  have len: "length (?h @ payload) = payload_off fmt + length payload"
    by (simp add: length_header [OF sx_config_header(2)] sx_config_header(1))
  have "sx_len fmt (sx_encode fmt cs (payload, c)) = length payload" by (rule sx_encode_fields(2) [OF assms rest])
  moreover have "length (add_tail ?cfg b) = length b + (if cs = Sum16 \<and> odd (length b) then 1 else 0)
      + (case cs of SumNone \<Rightarrow> 0 | Sum8 \<Rightarrow> 1 | Sum16 \<Rightarrow> 2)" for b
    by (cases cs) (simp_all add: add_tail_def sx_config_def align_def)
  then have "length (sx_encode fmt cs (payload, c)) = length (?h @ payload)
      + (if cs = Sum16 \<and> odd (length (?h @ payload)) then 1 else 0) + (case cs of SumNone \<Rightarrow> 0 | Sum8 \<Rightarrow> 1 | Sum16 \<Rightarrow> 2)"
    by (simp add: sx_encode_def)
  ultimately show "length (sx_encode fmt cs (payload, c)) = sx_total fmt cs (sx_encode fmt cs (payload, c))"
    unfolding len by (simp add: sx_total_def sx_padding_def)
  show "\<exists>rest. sx_encode fmt cs (payload, c) = ?h @ payload @ rest" using rest by blast
qed

lemma sxi_frames_encoded:
  assumes "sx_valid fmt cs f"
  shows "sxi_frames fmt cs (sx_encode fmt cs f @ x) = (case f of (p, c) \<Rightarrow> (p, length p, c)) # sxi_frames fmt cs x"
proof -
  obtain p c where f: "f = (p, c)" by (cases f)
  with assms have range: "in_range (sx_config fmt cs) (length p) c" and fits: "length (sx_encode fmt cs f) \<le> BUFFER_SIZE"
    by (simp_all add: sx_valid_def)
  obtain rest where rest: "sx_encode fmt cs f = header (sx_config fmt cs) (length p) (word_of_nat c) @ p @ rest"
    using sx_encode_total(2) [OF range] f by blast
  have "sx_frame fmt (sx_encode fmt cs f) = (p, length p, c)"
    using sx_encode_fields [OF range rest] by (simp add: sx_frame_def)
  moreover have "verify_checksum (sx_config fmt cs) (sx_encode fmt cs f)"
    unfolding f sx_encode_def by (simp add: verify_add_tail)
  ultimately show ?thesis
    using sxi_frames_complete [OF sx_encode_fields(1) [OF range rest] _ fits, of cs x] sx_encode_total(1) [OF range] f
    by simp
qed

lemma sxi_frames_all_encoded:
  "list_all (sx_valid fmt cs) fs \<Longrightarrow>
    sxi_frames fmt cs (concat (map (sx_encode fmt cs) fs) @ x) = map (\<lambda>(p, c). (p, length p, c)) fs @ sxi_frames fmt cs x"
  by (induction fs) (simp_all add: sxi_frames_encoded case_prod_unfold)

lemma sxi_frames_nil [simp]: "sxi_frames fmt cs [] = []"
  by (rule sxi_frames_short [OF sx_rep_new])

text \<open>A frame of which one byte behind the header is another one is dropped, and nothing else.\<close>

lemma sxi_frames_corrupted:
  assumes "sx_valid fmt cs f" and "cs \<noteq> SumNone" and "payload_off fmt \<le> i" and "i < length (sx_encode fmt cs f)"
    and "b \<noteq> sx_encode fmt cs f ! i"
  shows "sxi_frames fmt cs ((sx_encode fmt cs f)[i := b] @ x) = sxi_frames fmt cs x"
proof -
  let ?e = "sx_encode fmt cs f"
  obtain p c where f: "f = (p, c)" by (cases f)
  with assms(1) have range: "in_range (sx_config fmt cs) (length p) c" and fits: "length ?e \<le> BUFFER_SIZE"
    by (simp_all add: sx_valid_def)
  obtain rest where rest: "?e = header (sx_config fmt cs) (length p) (word_of_nat c) @ p @ rest"
    using sx_encode_total(2) [OF range] f by blast
  have "sx_total fmt cs (?e[i := b]) = sx_total fmt cs ?e"
    by (rule fields_prefix(3)) (use assms(3) in simp)
  moreover have "length ?e = sx_total fmt cs ?e" using sx_encode_total(1) [OF range] f by simp
  moreover have "\<not> verify_checksum (sx_config fmt cs) (?e[i := b])"
  proof (rule one_byte_changed [OF _ _ _ assms(4,5)])
    show "transport_layer_type (sx_config fmt cs) = SXI" "tail_cs (sx_config fmt cs) \<noteq> NO_CHECKSUM"
      using assms(2) by (cases cs; simp add: sx_config_def)+
    show "verify_checksum (sx_config fmt cs) ?e" unfolding f sx_encode_def by (simp add: verify_add_tail)
  qed
  ultimately show ?thesis
    using sxi_frames_complete [of fmt "?e[i := b]" cs x] sx_encode_fields(1) [OF range rest] fits by simp
qed

subsection \<open>The threads\<close>

definition new_sxi_link :: sxi_link where
  "new_sxi_link = \<lparr>sx_receiver = new_SxiReceiver, sx_frames = []\<rparr>"

definition sxi_receive :: "SxiHeaderFormat \<Rightarrow> SxiChecksumType \<Rightarrow> (bytes \<times> int) list \<Rightarrow> sxi_link \<Rightarrow> sxi_link" where
  "sxi_receive fmt cs reads l = fold (\<lambda>(data, timestamp). frame_listen_step fmt cs data timestamp) reads l"

definition frame_ints :: "frame \<Rightarrow> bytes \<times> int \<times> int" where
  "frame_ints = (\<lambda>(data, len, ctr). (data, int len, int ctr))"

lemma frame_dispatcher_all:
  "sx_receiver (fold (frame_dispatcher ts) fs l) = sx_receiver l"
  "map without_stamp (sx_frames (fold (frame_dispatcher ts) fs l)) = map without_stamp (sx_frames l) @ map frame_ints fs"
  by (induction fs arbitrary: l) (auto simp: frame_dispatcher_def without_stamp_def frame_ints_def)

lemma frame_listen_step_effect:
  assumes "sxi_feed_bytes fmt cs data (sx_receiver l) = (fs, r)"
  shows "sx_receiver (frame_listen_step fmt cs data ts l) = r"
    "map without_stamp (sx_frames (frame_listen_step fmt cs data ts l)) = map without_stamp (sx_frames l) @ map frame_ints fs"
  using assms frame_dispatcher_all [of ts fs "l\<lparr>sx_receiver := r\<rparr>"] by (simp_all add: frame_listen_step_def)

lemma sxi_receive_frames:
  assumes "sx_rep fmt cs (sx_receiver l) p"
  shows "\<exists>q. sx_rep fmt cs (sx_receiver (sxi_receive fmt cs reads l)) q \<and>
    (\<exists>fs. map without_stamp (sx_frames (sxi_receive fmt cs reads l)) = map without_stamp (sx_frames l) @ map frame_ints fs
      \<and> (\<forall>x. sxi_frames fmt cs (p @ concat (map fst reads) @ x) = fs @ sxi_frames fmt cs (q @ x)))"
  using assms
proof (induction reads arbitrary: l p)
  case Nil
  then show ?case by (intro exI [of _ p] conjI exI [of _ "[]"]) (simp_all add: sxi_receive_def)
next
  case (Cons r reads)
  obtain data ts where r: "r = (data, ts)" by (cases r)
  obtain fs s' q where one: "sxi_feed_bytes fmt cs data (sx_receiver l) = (fs, s')" "sx_rep fmt cs s' q"
    "\<And>x. sxi_frames fmt cs (p @ data @ x) = fs @ sxi_frames fmt cs (q @ x)"
    using sxi_feed_bytes_frames [OF Cons.prems, of data] by blast
  let ?l = "frame_listen_step fmt cs data ts l"
  note eff = frame_listen_step_effect [OF one(1), of ts]
  have "sx_rep fmt cs (sx_receiver ?l) q" using one(2) eff(1) by simp
  from Cons.IH [OF this] obtain q' gs where rest: "sx_rep fmt cs (sx_receiver (sxi_receive fmt cs reads ?l)) q'"
    "map without_stamp (sx_frames (sxi_receive fmt cs reads ?l)) = map without_stamp (sx_frames ?l) @ map frame_ints gs"
    "\<And>x. sxi_frames fmt cs (q @ concat (map fst reads) @ x) = gs @ sxi_frames fmt cs (q' @ x)"
    by blast
  have "sxi_receive fmt cs (r # reads) l = sxi_receive fmt cs reads ?l" by (simp add: sxi_receive_def r)
  then show ?case using rest one(3) eff(2)
    by (intro exI [of _ q'] conjI exI [of _ "fs @ gs"]) (simp_all add: r)
qed

lemma sxi_receive_new:
  "map without_stamp (sx_frames (sxi_receive fmt cs reads new_sxi_link)) = map frame_ints (sxi_frames fmt cs (concat (map fst reads)))"
proof -
  have "sx_rep fmt cs (sx_receiver new_sxi_link) []" by (simp add: new_sxi_link_def sx_rep_new)
  from sxi_receive_frames [OF this] obtain q fs where q: "sx_rep fmt cs (sx_receiver (sxi_receive fmt cs reads new_sxi_link)) q"
    "map without_stamp (sx_frames (sxi_receive fmt cs reads new_sxi_link)) = map without_stamp (sx_frames new_sxi_link) @ map frame_ints fs"
    "\<And>x. sxi_frames fmt cs ([] @ concat (map fst reads) @ x) = fs @ sxi_frames fmt cs (q @ x)"
    by blast
  show ?thesis using q(2) q(3) [of "[]"] sxi_frames_short [OF q(1)] by (simp add: new_sxi_link_def)
qed

text \<open>The two threads in any order: a read of the port, or the listener's taking one frame.\<close>

datatype sxi_event = PortRead bytes int | TakeFrame

fun sxi_event_step :: "SxiHeaderFormat \<Rightarrow> SxiChecksumType \<Rightarrow> sxi_event \<Rightarrow> sxi_link \<times> transport \<Rightarrow> sxi_link \<times> transport" where
  "sxi_event_step fmt cs (PortRead data ts) (l, t) = (frame_listen_step fmt cs data ts l, t)"
| "sxi_event_step fmt cs TakeFrame (l, t) = sxi_listen_step l t"

fun event_data :: "sxi_event \<Rightarrow> bytes" where
  "event_data (PortRead data ts) = data"
| "event_data TakeFrame = []"

lemma sxi_listen_step_conserves:
  assumes "sxi_listen_step l t = (l', t')"
  shows "sx_receiver l' = sx_receiver l" and "resQueue t' @ responses (sx_frames l') = resQueue t @ responses (sx_frames l)"
proof -
  have "sx_receiver l' = sx_receiver l \<and> resQueue t' @ responses (sx_frames l') = resQueue t @ responses (sx_frames l)"
  proof (cases "sx_frames l")
    case (Cons p ps)
    have "resQueue (snd (process_response p t)) = resQueue t @ responses [p]"
      using deliver_effect(1) [of "[p]" t] by simp
    with Cons assms show ?thesis by (auto simp: sxi_listen_step_def)
  qed (use assms in \<open>simp add: sxi_listen_step_def\<close>)
  then show "sx_receiver l' = sx_receiver l"
    and "resQueue t' @ responses (sx_frames l') = resQueue t @ responses (sx_frames l)" by simp_all
qed

definition frame_responses :: "frame list \<Rightarrow> bytes list" where
  "frame_responses fs = [take l p. (p, l, c) \<leftarrow> fs, p \<noteq> [] \<and> 254 \<le> uint (hd p)]"

lemma frame_responses_simps [simp]:
  "frame_responses [] = []" "frame_responses (fs @ gs) = frame_responses fs @ frame_responses gs"
  by (simp_all add: frame_responses_def)

lemma py_slice_take: "py_slice xs 0 (int n) = take n xs"
  using py_slice_nat [of xs 0 n] by simp

lemma responses_of_frames:
  "[py_slice p 0 l. (p, l, c) \<leftarrow> map frame_ints fs, p \<noteq> [] \<and> 254 \<le> uint (hd p)] = frame_responses fs"
proof (induction fs)
  case (Cons f fs)
  then show ?case by (cases f) (simp add: frame_ints_def frame_responses_def py_slice_take)
qed simp

lemma frame_listen_step_responses:
  assumes "sxi_feed_bytes fmt cs data (sx_receiver l) = (fs, r)"
  shows "responses (sx_frames (frame_listen_step fmt cs data ts l)) = responses (sx_frames l) @ frame_responses fs"
  unfolding responses_without_stamp frame_listen_step_effect(2) [OF assms] responses_of_frames [symmetric]
  by (simp del: map_map)

lemma sxi_events_conserve:
  assumes "sx_rep fmt cs (sx_receiver l) p" and "fold (sxi_event_step fmt cs) es (l, t) = (l', t')"
  shows "\<exists>fs q. sx_rep fmt cs (sx_receiver l') q
    \<and> resQueue t' @ responses (sx_frames l') = resQueue t @ responses (sx_frames l) @ frame_responses fs
    \<and> (\<forall>x. sxi_frames fmt cs (p @ concat (map event_data es) @ x) = fs @ sxi_frames fmt cs (q @ x))"
  using assms
proof (induction es arbitrary: l t p)
  case Nil
  then show ?case by (intro exI [of _ "[]"] exI [of _ p]) simp
next
  case (Cons e es)
  obtain l1 t1 where step: "sxi_event_step fmt cs e (l, t) = (l1, t1)" by fastforce
  with Cons.prems(2) have run: "fold (sxi_event_step fmt cs) es (l1, t1) = (l', t')" by simp
  have "\<exists>fs q. sx_rep fmt cs (sx_receiver l1) q
    \<and> resQueue t1 @ responses (sx_frames l1) = resQueue t @ responses (sx_frames l) @ frame_responses fs
    \<and> (\<forall>x. sxi_frames fmt cs (p @ event_data e @ x) = fs @ sxi_frames fmt cs (q @ x))"
  proof (cases e)
    case (PortRead data ts)
    obtain fs s' q where one: "sxi_feed_bytes fmt cs data (sx_receiver l) = (fs, s')" "sx_rep fmt cs s' q"
      "\<And>x. sxi_frames fmt cs (p @ data @ x) = fs @ sxi_frames fmt cs (q @ x)"
      using sxi_feed_bytes_frames [OF Cons.prems(1), of data] by blast
    with step PortRead frame_listen_step_effect(1) [OF one(1), of ts] frame_listen_step_responses [OF one(1), of ts]
    show ?thesis by (intro exI [of _ fs] exI [of _ q]) auto
  next
    case TakeFrame
    with step have "sxi_listen_step l t = (l1, t1)" by simp
    from sxi_listen_step_conserves [OF this] Cons.prems(1) TakeFrame
    show ?thesis by (intro exI [of _ "[]"] exI [of _ p]) simp
  qed
  then obtain fs q where one: "sx_rep fmt cs (sx_receiver l1) q"
    "resQueue t1 @ responses (sx_frames l1) = resQueue t @ responses (sx_frames l) @ frame_responses fs"
    "\<And>x. sxi_frames fmt cs (p @ event_data e @ x) = fs @ sxi_frames fmt cs (q @ x)" by blast
  obtain gs q' where rest: "sx_rep fmt cs (sx_receiver l') q'"
    "resQueue t' @ responses (sx_frames l') = resQueue t1 @ responses (sx_frames l1) @ frame_responses gs"
    "\<And>x. sxi_frames fmt cs (q @ concat (map event_data es) @ x) = gs @ sxi_frames fmt cs (q' @ x)"
    using Cons.IH [OF one(1) run] by blast
  have "resQueue t' @ responses (sx_frames l') = resQueue t @ responses (sx_frames l) @ frame_responses (fs @ gs)"
    using rest(2) arg_cong [OF one(2), of "\<lambda>r. r @ frame_responses gs"] by simp
  with rest(1,3) one(3) show ?case by (intro exI [of _ "fs @ gs"] exI [of _ q']) simp
qed

text \<open>The witnesses: a line with a word of length and counter each, and a checksum of 16 bits.\<close>

lemma sxi_init_example:
  "sxi_init ''HEADER_LEN_CTR_WORD'' ''CHECKSUM_WORD'' = Inr (sx_config LenCtrWord Sum16, LenCtrWord, Sum16)"
  by (simp add: sxi_init_def parse_header_format_def get_receiver_class_def sx_config_def)

lemma sx_valid_example: "length p < 1000 \<Longrightarrow> c < 65536 \<Longrightarrow> sx_valid LenCtrWord Sum16 (p, c)"
  using length_header [OF sx_config_header(2), of LenCtrWord Sum16 "length p" "word_of_nat c"]
  by (auto simp: sx_valid_def in_range_def sx_config_def sx_encode_def BUFFER_SIZE_def add_tail_def align_def get_header_size_def Let_def)

lemma sx_encode_example: "sx_encode LenCtrWord Sum16 ([0xFF, 1, 2], 7) = [3, 0, 7, 0, 0xFF, 1, 2, 0, 0x0B, 2]"
  by (simp add: sx_encode_def sx_config_def header_def size_field_def counter_field_def add_tail_def align_def
      serialize_word_le_def make_word_le_def)

section \<open>Properties\<close>

text \<open>
  C27. However the bytes of a serial line are cut into reads, the receiver hands on exactly the frames of the
  stream, as the reference that reads the whole stream at once does; when the stream is made of frames in the
  configured format (as the master builds its own requests), these are all of them, in order and unchanged.
\<close>

theorem sxi_receiver_equals_reference:
  assumes "sxi_init h t = Inr (cfg, fmt, cs)"
  shows "map without_stamp (sx_frames (sxi_receive fmt cs reads new_sxi_link))
      = map frame_ints (sxi_frames fmt cs (concat (map fst reads)))
    \<and> (\<forall>fs. concat (map fst reads) = concat (map (\<lambda>(p, c). add_tail cfg (header cfg (length p) (word_of_nat c) @ p)) fs)
        \<and> list_all (sx_valid fmt cs) fs \<longrightarrow>
        map without_stamp (sx_frames (sxi_receive fmt cs reads new_sxi_link)) = map (\<lambda>(p, c). (p, int (length p), int c)) fs)"
proof (intro conjI allI impI)
  fix fs
  assume a: "concat (map fst reads) = concat (map (\<lambda>(p, c). add_tail cfg (header cfg (length p) (word_of_nat c) @ p)) fs)
        \<and> list_all (sx_valid fmt cs) fs"
  have "(\<lambda>(p, c). add_tail cfg (header cfg (length p) (word_of_nat c) @ p)) = sx_encode fmt cs"
    by (simp add: sx_encode_def sxi_init_config [OF assms])
  with a sxi_frames_all_encoded [of fmt cs fs "[]"]
  have "sxi_frames fmt cs (concat (map fst reads)) = map (\<lambda>(p, c). (p, length p, c)) fs" by simp
  then show "map without_stamp (sx_frames (sxi_receive fmt cs reads new_sxi_link)) = map (\<lambda>(p, c). (p, int (length p), int c)) fs"
    by (simp add: sxi_receive_new frame_ints_def case_prod_unfold)
qed (rule sxi_receive_new)

theorem sxi_receiver_equals_reference_witness:
  "map without_stamp (sx_frames (sxi_receive LenCtrWord Sum16 [([3, 0, 7, 0, 0xFF], 1), ([1, 2, 0, 0x0B], 2), ([2], 3)] new_sxi_link))
    = [([0xFF, 1, 2], 3, 7)]"
  using sxi_receiver_equals_reference [OF sxi_init_example, of "[([3, 0, 7, 0, 0xFF], 1), ([1, 2, 0, 0x0B], 2), ([2], 3)]"]
    sx_encode_example sx_valid_example [of "[0xFF, 1, 2]" 7]
  by (auto simp: sx_encode_def dest!: spec [of _ "[([0xFF, 1, 2], 7)]"])

text \<open>
  C28. With a checksum, a frame of which one byte behind the header has changed on the line is not handed on,
  and the receiver is back in step: every frame before and after it arrives.
\<close>

theorem sxi_corrupted_frame_is_dropped:
  assumes "sxi_init h t = Inr (cfg, fmt, cs)" and "cs \<noteq> SumNone"
    and "list_all (sx_valid fmt cs) (before @ f # after)"
    and "payload_off fmt \<le> i" and "i < length (sx_encode fmt cs f)" and "b \<noteq> sx_encode fmt cs f ! i"
    and "concat (map fst reads)
      = concat (map (sx_encode fmt cs) before) @ (sx_encode fmt cs f)[i := b] @ concat (map (sx_encode fmt cs) after)"
  shows "map without_stamp (sx_frames (sxi_receive fmt cs reads new_sxi_link))
    = map (\<lambda>(p, c). (p, int (length p), int c)) (before @ after)"
proof -
  have valid: "list_all (sx_valid fmt cs) before" "sx_valid fmt cs f" "list_all (sx_valid fmt cs) after"
    using assms(3) by simp_all
  have "sxi_frames fmt cs (concat (map fst reads)) = map (\<lambda>(p, c). (p, length p, c)) (before @ after)"
    unfolding assms(7) using sxi_frames_all_encoded [OF valid(1)] sxi_frames_all_encoded [OF valid(3), of "[]"]
      sxi_frames_corrupted [OF valid(2) assms(2,4-6)] by simp
  then show ?thesis by (simp add: sxi_receive_new frame_ints_def case_prod_unfold)
qed

theorem sxi_corrupted_frame_is_dropped_witness:
  "map without_stamp (sx_frames (sxi_receive LenCtrWord Sum16
      [([3, 0, 7, 0, 0xFF, 9, 2, 0, 0x0B], 1), ([2, 3, 0, 7, 0, 0xFF, 1, 2, 0, 0x0B, 2], 2)] new_sxi_link))
    = [([0xFF, 1, 2], 3, 7)]"
  using sxi_corrupted_frame_is_dropped [OF sxi_init_example, of "[]" "([0xFF, 1, 2], 7)" "[([0xFF, 1, 2], 7)]" 5 9
      "[([3, 0, 7, 0, 0xFF, 9, 2, 0, 0x0B], 1), ([2, 3, 0, 7, 0, 0xFF, 1, 2, 0, 0x0B, 2], 2)]"]
    sx_valid_example [of "[0xFF, 1, 2]" 7]
  by (simp add: sx_encode_example payload_off_def)

text \<open>
  C29. The reader of the port and the listener run side by side: in whatever order they get their turns,
  the responses in the queue, and those of the frames that the listener has not taken yet, are the ones of
  the stream received so far, in order, behind those that were there; none is lost or doubled.
\<close>

theorem sxi_responses_in_any_interleaving:
  assumes "fold (sxi_event_step fmt cs) events (new_sxi_link, t) = (l', t')"
  shows "resQueue t' @ responses (sx_frames l')
    = resQueue t @ frame_responses (sxi_frames fmt cs (concat (map event_data events)))"
proof -
  have "sx_rep fmt cs (sx_receiver new_sxi_link) []" by (simp add: new_sxi_link_def sx_rep_new)
  from sxi_events_conserve [OF this assms] obtain fs q where q: "sx_rep fmt cs (sx_receiver l') q"
    "resQueue t' @ responses (sx_frames l') = resQueue t @ responses (sx_frames new_sxi_link) @ frame_responses fs"
    "\<And>x. sxi_frames fmt cs ([] @ concat (map event_data events) @ x) = fs @ sxi_frames fmt cs (q @ x)"
    by blast
  show ?thesis using q(2) q(3) [of "[]"] sxi_frames_short [OF q(1)] by (simp add: new_sxi_link_def)
qed

theorem sxi_responses_in_any_interleaving_witness:
  "let (l, t) = fold (sxi_event_step LenCtrWord Sum16)
       [PortRead [3, 0, 7, 0, 0xFF] 1, TakeFrame, PortRead [1, 2, 0, 0x0B, 2] 2] (new_sxi_link, new_transport (sx_config LenCtrWord Sum16) False 5 0)
   in resQueue t @ responses (sx_frames l) = [[0xFF, 1, 2]]"
proof -
  obtain l t where run: "fold (sxi_event_step LenCtrWord Sum16)
       [PortRead [3, 0, 7, 0, 0xFF] 1, TakeFrame, PortRead [1, 2, 0, 0x0B, 2] 2]
       (new_sxi_link, new_transport (sx_config LenCtrWord Sum16) False 5 0) = (l, t)"
    by fastforce
  have "sxi_frames LenCtrWord Sum16 (sx_encode LenCtrWord Sum16 ([0xFF, 1, 2], 7) @ []) = [([0xFF, 1, 2], 3, 7)]"
    using sxi_frames_encoded [OF sx_valid_example, of "[0xFF, 1, 2]" 7 "[]"] by simp
  with sxi_responses_in_any_interleaving [OF run] show ?thesis
    unfolding run by (simp add: sx_encode_example frame_responses_def new_transport_def)
qed

end
