(* ===== verification/Recorder_File.thy ===== *)
theory Recorder_File
  imports Struct_Codec
begin

text \<open>
  The recording files of \<open>pyxcp/recorder/reco.py\<close>: \<open>XcpLogFileWriter\<close> collects frames, compresses them chunk
  by chunk into containers of a memory mapped file, and \<open>XcpLogFileReader\<close> reads them back. The file is a
  list of bytes. LZ4 is a package and a parameter: a pair of functions on bytes. A time stamp is a float
  whose eight bytes are all that is done with it; it is the 64-bit word of these bytes. The compression ratio and
  the name of the file are left out.
\<close>

section \<open>Model\<close>

subsection \<open>Structs of several fields\<close>

text \<open>\<open>struct.Struct("<...")\<close>, as the widths of its fields: a list of unsigned integers is packed without gaps.\<close>

fun pack_fields :: "nat list \<Rightarrow> int list \<Rightarrow> bytes result" where
  "pack_fields [] [] = Inr []"
| "pack_fields (w # ws) (v # vs) =
     rbind (struct_pack Little w v) (\<lambda>b. rbind (pack_fields ws vs) (\<lambda>bs. Inr (b @ bs)))"
| "pack_fields _ _ = Inl StructError"

fun cut_fields :: "nat list \<Rightarrow> bytes \<Rightarrow> int list" where
  "cut_fields [] bs = []"
| "cut_fields (w # ws) bs = le_int (take w bs) # cut_fields ws (drop w bs)"

definition unpack_fields :: "nat list \<Rightarrow> bytes \<Rightarrow> int list result" where
  "unpack_fields ws bs = (if length bs = sum_list ws then Inr (cut_fields ws bs) else Inl StructError)"

definition MAGIC :: bytes where
  "MAGIC = [0x41, 0x53, 0x41, 0x4D, 0x49, 0x4E, 0x54, 0x3A, 0x3A, 0x58, 0x43, 0x50, 0x5F, 0x52, 0x41, 0x57]"

text \<open>The fields behind the magic number, which is a field of bytes.\<close>

definition FILE_HEADER_STRUCT :: "nat list" where "FILE_HEADER_STRUCT = [2, 2, 2, 4, 4, 4, 4]"
definition FILE_HEADER_SIZE :: nat where "FILE_HEADER_SIZE = 38"
definition CONTAINER_HEADER_STRUCT :: "nat list" where "CONTAINER_HEADER_STRUCT = [4, 4, 4]"
definition CONTAINER_HEADER_SIZE :: nat where "CONTAINER_HEADER_SIZE = 12"
definition DAQ_RECORD_STRUCT :: "nat list" where "DAQ_RECORD_STRUCT = [1, 2, 8, 4]"
definition DAQ_RECORD_SIZE :: nat where "DAQ_RECORD_SIZE = 15"

subsection \<open>The writer\<close>

type_synonym log_frame = "int \<times> 64 word \<times> bytes"

record log_writer =
  w_mapping :: bytes
  container_header_offset :: nat
  current_offset :: nat
  total_size_uncompressed :: nat
  total_size_compressed :: nat
  container_size_uncompressed :: nat
  total_record_count :: nat
  chunk_size :: int
  num_containers :: nat
  intermediate_storage :: "bytes list"
  w_is_closed :: bool

type_synonym 'a writing = "(pyexn, log_writer, 'a) prog"

definition new_log_writer :: "int \<Rightarrow> int \<Rightarrow> log_writer result" where
  "new_log_writer prealloc kbytes =
     (if prealloc < 0 then Inl OSError
      else if prealloc = 0 then Inl ValueError
      else Inr \<lparr>w_mapping = replicate (nat (1024 * 1024 * prealloc)) 0, container_header_offset = FILE_HEADER_SIZE,
        current_offset = FILE_HEADER_SIZE + CONTAINER_HEADER_SIZE, total_size_uncompressed = 0, total_size_compressed = 0,
        container_size_uncompressed = 0, total_record_count = 0, chunk_size = kbytes * 1024, num_containers = 0,
        intermediate_storage = [], w_is_closed = False\<rparr>)"

text \<open>\<open>set\<close>: an assignment to a slice of the mapping raises IndexError if the slice is shorter than the data.\<close>

definition set_bytes :: "nat \<Rightarrow> bytes \<Rightarrow> unit writing" where
  "set_bytes address data = (\<lambda>w.
     if address + length data \<le> length (w_mapping w) \<or> data = [] then
       (Inr (), w\<lparr>w_mapping := take address (w_mapping w) @ data @ drop (address + length data) (w_mapping w)\<rparr>)
     else (Inl XcpLogFileCapacityExceededError, w))"

definition container_done :: "nat \<Rightarrow> log_writer \<Rightarrow> log_writer" where
  "container_done size_compressed w =
     (let offset = current_offset w + size_compressed
      in w\<lparr>container_header_offset := offset, current_offset := offset + CONTAINER_HEADER_SIZE,
        intermediate_storage := [], total_record_count := total_record_count w + length (intermediate_storage w),
        num_containers := num_containers w + 1,
        total_size_uncompressed := total_size_uncompressed w + container_size_uncompressed w,
        total_size_compressed := total_size_compressed w + size_compressed, container_size_uncompressed := 0\<rparr>)"

definition compress_framez :: "(bytes \<Rightarrow> bytes result) \<Rightarrow> unit writing" where
  "compress_framez compress = (\<lambda>w.
     pbind (plift (compress (concat (intermediate_storage w)))) (\<lambda>compressed.
     pbind (plift (pack_fields CONTAINER_HEADER_STRUCT
       [int (length (intermediate_storage w)), int (length compressed), int (container_size_uncompressed w)])) (\<lambda>hdr.
     pbind (set_bytes (current_offset w) compressed) (\<lambda>_.
     pbind (set_bytes (container_header_offset w) hdr) (\<lambda>_.
     pmodify (container_done (length compressed)))))) w)"

definition frame_item :: "log_frame \<Rightarrow> bytes result" where
  "frame_item = (\<lambda>(counter, timestamp, raw_data).
     rbind (pack_fields DAQ_RECORD_STRUCT [1, counter, uint timestamp, int (length raw_data)]) (\<lambda>hdr. Inr (hdr @ raw_data)))"

definition add_frame :: "(bytes \<Rightarrow> bytes result) \<Rightarrow> log_frame \<Rightarrow> unit writing" where
  "add_frame compress frame =
     pbind (plift (frame_item frame)) (\<lambda>item.
     pbind (pmodify (\<lambda>w. w\<lparr>intermediate_storage := intermediate_storage w @ [item],
       container_size_uncompressed := container_size_uncompressed w + length item\<rparr>)) (\<lambda>_.
     (\<lambda>w. if chunk_size w < int (container_size_uncompressed w) then compress_framez compress w else (Inr (), w))))"

fun add_xcp_frames :: "(bytes \<Rightarrow> bytes result) \<Rightarrow> log_frame list \<Rightarrow> unit writing" where
  "add_xcp_frames compress [] = pret ()"
| "add_xcp_frames compress (frame # frames) = pbind (add_frame compress frame) (\<lambda>_. add_xcp_frames compress frames)"

definition write_header :: "unit writing" where
  "write_header = (\<lambda>w.
     pbind (plift (pack_fields FILE_HEADER_STRUCT [int FILE_HEADER_SIZE, 0x0100, 0, int (num_containers w),
       int (total_record_count w), int (total_size_compressed w), int (total_size_uncompressed w)])) (\<lambda>hdr.
     set_bytes 0 (MAGIC @ hdr)) w)"

text \<open>\<open>truncate\<close> cuts the file, or fills it up with zeros.\<close>

definition file_truncate :: "nat \<Rightarrow> bytes \<Rightarrow> bytes" where
  "file_truncate n file = take n file @ replicate (n - length file) 0"

definition close_writer :: "(bytes \<Rightarrow> bytes result) \<Rightarrow> unit writing" where
  "close_writer compress = (\<lambda>w.
     if w_is_closed w then (Inr (), w)
     else
       pbind (if intermediate_storage w \<noteq> [] then compress_framez compress else pret ()) (\<lambda>_.
       pbind write_header (\<lambda>_.
       pmodify (\<lambda>w. w\<lparr>w_mapping := file_truncate (current_offset w) (w_mapping w), w_is_closed := True\<rparr>))) w)"

subsection \<open>The reader\<close>

record DAQRecord =
  rec_category :: int
  rec_counter :: int
  rec_timestamp :: "64 word"
  rec_payload :: bytes

record log_reader =
  r_mapping :: bytes
  r_num_containers :: int
  r_total_record_count :: int
  r_total_size_compressed :: int
  r_total_size_uncompressed :: int

definition get_bytes :: "bytes \<Rightarrow> nat \<Rightarrow> nat \<Rightarrow> bytes" where
  "get_bytes mapping address n = take n (drop address mapping)"

definition open_log_reader :: "bytes \<Rightarrow> log_reader result" where
  "open_log_reader file =
     (if file = [] then Inl ValueError
      else
        (let hdr = get_bytes file 0 FILE_HEADER_SIZE
         in if length hdr \<noteq> FILE_HEADER_SIZE then Inl StructError
            else rbind (unpack_fields FILE_HEADER_STRUCT (drop (length MAGIC) hdr)) (\<lambda>fs.
              if take (length MAGIC) hdr \<noteq> MAGIC then Inl XcpLogFileParseError
              else Inr \<lparr>r_mapping = file, r_num_containers = fs ! 3, r_total_record_count = fs ! 4,
                r_total_size_compressed = fs ! 5, r_total_size_uncompressed = fs ! 6\<rparr>)))"

text \<open>The generator \<open>frames\<close>: what it yields, and the exception that ends it, if one does.\<close>

fun read_records :: "bytes \<Rightarrow> nat \<Rightarrow> nat \<Rightarrow> DAQRecord list \<times> pyexn option" where
  "read_records data 0 offset = ([], None)"
| "read_records data (Suc n) offset =
     (case unpack_fields DAQ_RECORD_STRUCT (get_bytes data offset DAQ_RECORD_SIZE) of
        Inl e \<Rightarrow> ([], Some e)
      | Inr fs \<Rightarrow>
          (let frame_data = get_bytes data (offset + DAQ_RECORD_SIZE) (nat (fs ! 3));
               (rs, e) = read_records data n (offset + DAQ_RECORD_SIZE + length frame_data)
           in (\<lparr>rec_category = fs ! 0, rec_counter = fs ! 1, rec_timestamp = word_of_int (fs ! 2), rec_payload = frame_data\<rparr> # rs, e)))"

fun read_containers :: "(bytes \<Rightarrow> bytes result) \<Rightarrow> bytes \<Rightarrow> nat \<Rightarrow> nat \<Rightarrow> DAQRecord list \<times> pyexn option" where
  "read_containers decompress file 0 offset = ([], None)"
| "read_containers decompress file (Suc n) offset =
     (case unpack_fields CONTAINER_HEADER_STRUCT (get_bytes file offset CONTAINER_HEADER_SIZE) of
        Inl e \<Rightarrow> ([], Some e)
      | Inr fs \<Rightarrow>
          (let offset1 = offset + CONTAINER_HEADER_SIZE
           in case decompress (get_bytes file offset1 (nat (fs ! 1))) of
                Inl e \<Rightarrow> ([], Some e)
              | Inr data \<Rightarrow>
                  (case read_records data (nat (fs ! 0)) 0 of
                     (rs, Some e) \<Rightarrow> (rs, Some e)
                   | (rs, None) \<Rightarrow>
                       (let (qs, e) = read_containers decompress file n (offset1 + nat (fs ! 1)) in (rs @ qs, e)))))"

definition reader_frames :: "(bytes \<Rightarrow> bytes result) \<Rightarrow> log_reader \<Rightarrow> DAQRecord list \<times> pyexn option" where
  "reader_frames decompress r = read_containers decompress (r_mapping r) (nat (r_num_containers r)) FILE_HEADER_SIZE"

section \<open>Lemmas\<close>

subsection \<open>Structs\<close>

lemmas struct_sizes = FILE_HEADER_STRUCT_def FILE_HEADER_SIZE_def CONTAINER_HEADER_STRUCT_def CONTAINER_HEADER_SIZE_def
  DAQ_RECORD_STRUCT_def DAQ_RECORD_SIZE_def

lemma pack_fields_length: "pack_fields ws vs = Inr bs \<Longrightarrow> length bs = sum_list ws"
  by (induction ws vs arbitrary: bs rule: pack_fields.induct) (auto simp: rbind_Inr_iff dest: struct_pack_length)

lemma cut_pack_fields: "pack_fields ws vs = Inr bs \<Longrightarrow> cut_fields ws bs = vs"
proof (induction ws vs arbitrary: bs rule: pack_fields.induct)
  case (2 w ws v vs)
  then obtain b bs' where b: "struct_pack Little w v = Inr b" and bs': "pack_fields ws vs = Inr bs'" and bs: "bs = b @ bs'"
    by (auto simp: rbind_Inr_iff)
  have "le_int b = v" using struct_unpack_pack [OF b] struct_pack_length [OF b] by (simp add: struct_unpack_def)
  with "2.IH" [OF bs'] struct_pack_length [OF b] bs show ?case by simp
qed auto

lemma unpack_pack_fields: "pack_fields ws vs = Inr bs \<Longrightarrow> unpack_fields ws bs = Inr vs"
  using pack_fields_length [of ws vs bs] cut_pack_fields [of ws vs bs] by (simp add: unpack_fields_def)

lemma pack_fields_total: "list_all2 (\<lambda>w v. 0 \<le> v \<and> v < 256 ^ w) ws vs \<Longrightarrow> \<exists>bs. pack_fields ws vs = Inr bs"
proof (induction ws vs rule: list_all2_induct)
  case (Cons w ws v vs)
  from Cons.hyps(1) obtain b where "struct_pack Little w v = Inr b" using struct_pack_total [of v w] by blast
  with Cons.IH show ?case by auto
qed simp

subsection \<open>What a writer has written\<close>

text \<open>\<open>bs\<close> are the bytes of a container of the frames \<open>c\<close>.\<close>

definition container_bytes :: "(bytes \<Rightarrow> bytes result) \<Rightarrow> log_frame list \<Rightarrow> bytes \<Rightarrow> bool" where
  "container_bytes compress c bs \<longleftrightarrow> (\<exists>items z hdr. rmap frame_item c = Inr items \<and> compress (concat items) = Inr z
     \<and> pack_fields CONTAINER_HEADER_STRUCT [int (length items), int (length z), int (length (concat items))] = Inr hdr
     \<and> bs = hdr @ z)"

definition frames_size :: "log_frame list \<Rightarrow> nat" where
  "frames_size fs = (\<Sum>(counter, timestamp, raw_data) \<leftarrow> fs. DAQ_RECORD_SIZE + length raw_data)"

lemma frames_size_simps [simp]: "frames_size [] = 0" "frames_size (xs @ ys) = frames_size xs + frames_size ys"
  by (simp_all add: frames_size_def)

lemma int_frames_size:
  "int (frames_size fs) = (\<Sum>(counter, timestamp, raw_data) \<leftarrow> fs. int (DAQ_RECORD_SIZE + length raw_data))"
  by (induction fs) (auto simp: frames_size_def)

lemma items_size: "rmap frame_item fs = Inr items \<Longrightarrow> length (concat items) = frames_size fs"
proof (induction fs arbitrary: items)
  case (Cons f fs)
  obtain c t raw where f: "f = (c, t, raw)" by (cases f)
  with Cons.prems obtain hdr rest where hdr: "pack_fields DAQ_RECORD_STRUCT [1, c, uint t, int (length raw)] = Inr hdr"
    and rest: "rmap frame_item fs = Inr rest" and items: "items = (hdr @ raw) # rest"
    by (auto simp: rbind_Inr_iff frame_item_def)
  from Cons.IH [OF rest] pack_fields_length [OF hdr] show ?case
    by (simp add: items f frames_size_def struct_sizes)
qed (simp add: frames_size_def)

text \<open>
  The writer has written the containers of the frames \<open>cs\<close>, as the bytes \<open>bss\<close>, behind the room for the header,
  and holds the frames \<open>fs\<close>. The mapping keeps its size.
\<close>

definition writer_rep :: "(bytes \<Rightarrow> bytes result) \<Rightarrow> nat \<Rightarrow> int \<Rightarrow> log_frame list list \<Rightarrow> bytes list \<Rightarrow> log_frame list \<Rightarrow> log_writer \<Rightarrow> bool" where
  "writer_rep compress len ck cs bss fs w \<longleftrightarrow>
     list_all2 (container_bytes compress) cs bss \<and> rmap frame_item fs = Inr (intermediate_storage w)
     \<and> (\<exists>h rest. w_mapping w = h @ concat bss @ rest \<and> length h = FILE_HEADER_SIZE) \<and> length (w_mapping w) = len
     \<and> container_header_offset w = FILE_HEADER_SIZE + length (concat bss)
     \<and> current_offset w = container_header_offset w + CONTAINER_HEADER_SIZE
     \<and> container_size_uncompressed w = length (concat (intermediate_storage w))
     \<and> total_record_count w = length (concat cs) \<and> num_containers w = length cs
     \<and> total_size_uncompressed w = frames_size (concat cs)
     \<and> total_size_compressed w + CONTAINER_HEADER_SIZE * length cs = length (concat bss) \<and> \<not> w_is_closed w \<and> chunk_size w = ck"

lemma new_writer_rep:
  assumes "new_log_writer prealloc kbytes = Inr w"
  shows "writer_rep compress (nat (1024 * 1024 * prealloc)) (kbytes * 1024) [] [] [] w"
proof -
  have "FILE_HEADER_SIZE \<le> nat (1024 * 1024 * prealloc)"
    using assms by (auto simp: new_log_writer_def FILE_HEADER_SIZE_def split: if_splits)
  moreover have len: "length (w_mapping w) = nat (1024 * 1024 * prealloc)"
    using assms by (auto simp: new_log_writer_def split: if_splits)
  ultimately have "\<exists>h rest. w_mapping w = h @ concat [] @ rest \<and> length h = FILE_HEADER_SIZE"
    by (intro exI [of _ "take FILE_HEADER_SIZE (w_mapping w)"] exI [of _ "drop FILE_HEADER_SIZE (w_mapping w)"] conjI) simp_all
  moreover have "\<not> w_is_closed w" "chunk_size w = kbytes * 1024" "intermediate_storage w = []" "container_header_offset w = FILE_HEADER_SIZE"
    "current_offset w = FILE_HEADER_SIZE + CONTAINER_HEADER_SIZE" "container_size_uncompressed w = 0"
    "total_record_count w = 0" "num_containers w = 0" "total_size_compressed w = 0" "total_size_uncompressed w = 0"
    using assms by (auto simp: new_log_writer_def split: if_splits)
  ultimately show ?thesis using len by (simp add: writer_rep_def)
qed

lemma set_bytes_Inr:
  "set_bytes a data w = (Inr (), w') \<longleftrightarrow> (a + length data \<le> length (w_mapping w) \<or> data = [])
    \<and> w' = w\<lparr>w_mapping := take a (w_mapping w) @ data @ drop (a + length data) (w_mapping w)\<rparr>"
  by (auto simp: set_bytes_def)

lemma rmap_append: "rmap f (xs @ ys) = rbind (rmap f xs) (\<lambda>us. rbind (rmap f ys) (\<lambda>vs. Inr (us @ vs)))"
  by (induction xs) (auto simp: rbind_def split: sum.splits)

lemma compress_framez_rep:
  assumes rep: "writer_rep compress len ck cs bss fs w" and run: "compress_framez compress w = (Inr (), w')"
  shows "\<exists>bs. writer_rep compress len ck (cs @ [fs]) (bss @ [bs]) [] w'"
proof -
  let ?items = "intermediate_storage w"
  obtain h rest where mapping: "w_mapping w = h @ concat bss @ rest" "length h = FILE_HEADER_SIZE"
    using rep by (auto simp: writer_rep_def)
  have offs: "container_header_offset w = length (h @ concat bss)" "current_offset w = length (h @ concat bss) + CONTAINER_HEADER_SIZE"
    and total: "container_size_uncompressed w = length (concat ?items)"
    using rep mapping(2) by (simp_all add: writer_rep_def)
  obtain z hdr w1 w2 where z: "compress (concat ?items) = Inr z"
    and hdr: "pack_fields CONTAINER_HEADER_STRUCT [int (length ?items), int (length z), int (container_size_uncompressed w)] = Inr hdr"
    and w1: "set_bytes (current_offset w) z w = (Inr (), w1)"
    and w2: "set_bytes (container_header_offset w) hdr w1 = (Inr (), w2)" and w': "w' = container_done (length z) w2"
    using run by (auto simp: compress_framez_def pbind_Inr_iff plift_def pmodify_def)
  have lh: "length hdr = CONTAINER_HEADER_SIZE" using pack_fields_length [OF hdr] by (simp add: struct_sizes)
  have w1': "w1 = w\<lparr>w_mapping := take (current_offset w) (w_mapping w) @ z @ drop (current_offset w + length z) (w_mapping w)\<rparr>"
    and room1: "current_offset w + length z \<le> length (w_mapping w) \<or> z = []"
    using w1 by (simp_all add: set_bytes_Inr)
  have room2: "container_header_offset w + CONTAINER_HEADER_SIZE \<le> length (w_mapping w1) \<or> hdr = []"
    and w2': "w2 = w1\<lparr>w_mapping := take (container_header_offset w) (w_mapping w1) @ hdr
      @ drop (container_header_offset w + length hdr) (w_mapping w1)\<rparr>"
    using w2 lh by (simp_all add: set_bytes_Inr)
  have room: "CONTAINER_HEADER_SIZE + length z \<le> length rest"
  proof (cases "z = []")
    case True
    with w1' have "length (w_mapping w1) = length (w_mapping w)" by simp
    with room2 True lh show ?thesis by (auto simp: mapping offs(1) CONTAINER_HEADER_SIZE_def)
  next
    case False
    with room1 show ?thesis by (simp add: mapping offs(2))
  qed
  let ?rest = "drop (CONTAINER_HEADER_SIZE + length z) rest"
  have m1: "w_mapping w1 = (h @ concat bss) @ take CONTAINER_HEADER_SIZE rest @ z @ ?rest"
    using w1' mapping(1) offs(2) room by (simp add: add.assoc)
  have "w_mapping w2 = (h @ concat bss) @ hdr @ z @ ?rest"
    using w2' m1 offs(1) lh room by (simp add: add.assoc)
  then have m2: "w_mapping w2 = h @ concat (bss @ [hdr @ z]) @ ?rest" by simp
  have same: "w2 = w\<lparr>w_mapping := w_mapping w2\<rparr>" unfolding w2' w1' by simp
  have "length (w_mapping w2) = len"
  proof -
    have "length (w_mapping w2) = length (w_mapping w)"
      using m2 mapping(1) room lh by simp
    then show ?thesis using rep by (simp add: writer_rep_def)
  qed
  moreover have "list_all2 (container_bytes compress) (cs @ [fs]) (bss @ [hdr @ z])"
    using rep z hdr by (intro list_all2_appendI) (auto simp: container_bytes_def writer_rep_def)
  moreover have "rmap frame_item fs = Inr ?items" using rep by (simp add: writer_rep_def)
  then have "length ?items = length fs" "container_size_uncompressed w = frames_size fs"
    using rmap_Inr_length [of frame_item fs ?items] items_size [of fs ?items] total by simp_all
  moreover have "\<exists>h' rest'. w_mapping w2 = h' @ concat (bss @ [hdr @ z]) @ rest' \<and> length h' = FILE_HEADER_SIZE"
    using m2 mapping(2) by blast
  ultimately have "writer_rep compress len ck (cs @ [fs]) (bss @ [hdr @ z]) [] (container_done (length z) (w\<lparr>w_mapping := w_mapping w2\<rparr>))"
    using rep lh by (simp add: writer_rep_def container_done_def Let_def)
  then show ?thesis using w' same by metis
qed

lemma add_frame_rep:
  assumes rep: "writer_rep compress len ck cs bss fs w" and run: "add_frame compress f w = (Inr (), w')"
  shows "\<exists>cs' bss' fs'. writer_rep compress len ck cs' bss' fs' w' \<and> concat cs' @ fs' = concat cs @ fs @ [f]"
proof -
  obtain item where item: "frame_item f = Inr item" using run by (auto simp: add_frame_def pbind_Inr_iff plift_def)
  let ?w = "w\<lparr>intermediate_storage := intermediate_storage w @ [item],
       container_size_uncompressed := container_size_uncompressed w + length item\<rparr>"
  have rep': "writer_rep compress len ck cs bss (fs @ [f]) ?w"
    using rep item by (auto simp: writer_rep_def rmap_append)
  have run': "(if chunk_size w < int (container_size_uncompressed w + length item) then compress_framez compress ?w else (Inr (), ?w)) = (Inr (), w')"
    using run item by (simp add: add_frame_def pbind_def plift_def pmodify_def)
  show ?thesis
  proof (cases "chunk_size w < int (container_size_uncompressed w + length item)")
    case True
    with run' have "compress_framez compress ?w = (Inr (), w')" by simp
    from compress_framez_rep [OF rep' this] obtain bs where "writer_rep compress len ck (cs @ [fs @ [f]]) (bss @ [bs]) [] w'" by blast
    then show ?thesis by (intro exI conjI) (assumption, simp)
  next
    case False
    with run' rep' show ?thesis by (intro exI [of _ cs] exI [of _ bss] exI [of _ "fs @ [f]"]) auto
  qed
qed

lemma add_xcp_frames_rep:
  assumes "writer_rep compress len ck cs bss fs w" and "add_xcp_frames compress frames w = (Inr (), w')"
  shows "\<exists>cs' bss' fs'. writer_rep compress len ck cs' bss' fs' w' \<and> concat cs' @ fs' = concat cs @ fs @ frames"
  using assms
proof (induction frames arbitrary: w cs bss fs)
  case Nil
  then show ?case by (auto simp: pret_def)
next
  case (Cons f frames)
  from Cons.prems(2) obtain w1 where one: "add_frame compress f w = (Inr (), w1)" and rest: "add_xcp_frames compress frames w1 = (Inr (), w')"
    by (auto simp: pbind_Inr_iff)
  obtain cs1 bss1 fs1 where r1: "writer_rep compress len ck cs1 bss1 fs1 w1" and c1: "concat cs1 @ fs1 = concat cs @ fs @ [f]"
    using add_frame_rep [OF Cons.prems(1) one] by blast
  obtain cs2 bss2 fs2 where r2: "writer_rep compress len ck cs2 bss2 fs2 w'" and c2: "concat cs2 @ fs2 = concat cs1 @ fs1 @ frames"
    using Cons.IH [OF r1 rest] by blast
  have "concat cs2 @ fs2 = concat cs @ fs @ f # frames" using c1 c2 by (metis append.assoc append_Cons append_Nil)
  with r2 show ?case by blast
qed

text \<open>The file of a writer that has been closed.\<close>

definition file_header :: "log_frame list list \<Rightarrow> bytes list \<Rightarrow> int list" where
  "file_header cs bss = [int FILE_HEADER_SIZE, 0x0100, 0, int (length cs), int (length (concat cs)),
     int (length (concat bss) - CONTAINER_HEADER_SIZE * length cs), int (frames_size (concat cs))]"

lemma write_header_rep:
  assumes rep: "writer_rep compress len ck cs bss fs w" and run: "write_header w = (Inr (), w')"
  shows "\<exists>hdr rest. pack_fields FILE_HEADER_STRUCT (file_header cs bss) = Inr hdr
    \<and> w_mapping w' = MAGIC @ hdr @ concat bss @ rest \<and> w' = w\<lparr>w_mapping := w_mapping w'\<rparr>"
proof -
  obtain h rest where mapping: "w_mapping w = h @ concat bss @ rest" "length h = FILE_HEADER_SIZE"
    using rep by (auto simp: writer_rep_def)
  have "total_size_compressed w + CONTAINER_HEADER_SIZE * length cs = length (concat bss)"
    using rep by (simp add: writer_rep_def)
  then have "total_size_compressed w = length (concat bss) - CONTAINER_HEADER_SIZE * length cs" by linarith
  then obtain hdr where hdr: "pack_fields FILE_HEADER_STRUCT (file_header cs bss) = Inr hdr"
    and set: "set_bytes 0 (MAGIC @ hdr) w = (Inr (), w')"
    using run rep by (auto simp: write_header_def pbind_Inr_iff plift_def file_header_def writer_rep_def)
  have "length (MAGIC @ hdr) = FILE_HEADER_SIZE"
    using pack_fields_length [OF hdr] by (simp add: struct_sizes MAGIC_def)
  with set mapping show ?thesis using hdr by (auto simp: set_bytes_Inr)
qed

lemma close_writer_file:
  assumes rep: "writer_rep compress len ck cs bss fs w" and run: "close_writer compress w = (Inr (), w')"
  shows "\<exists>cs' bss' hdr rest. list_all2 (container_bytes compress) cs' bss' \<and> concat cs' = concat cs @ fs
    \<and> pack_fields FILE_HEADER_STRUCT (file_header cs' bss') = Inr hdr \<and> w_mapping w' = MAGIC @ hdr @ concat bss' @ rest"
proof -
  have "\<not> w_is_closed w" using rep by (simp add: writer_rep_def)
  with run obtain w1 w2 where flush: "(if intermediate_storage w \<noteq> [] then compress_framez compress else pret ()) w = (Inr (), w1)"
    and header: "write_header w1 = (Inr (), w2)"
    and w': "w_mapping w' = file_truncate (current_offset w2) (w_mapping w2)"
    by (auto simp: close_writer_def pbind_Inr_iff pmodify_def)
  have "\<exists>cs1 bss1 fs1. writer_rep compress len ck cs1 bss1 fs1 w1 \<and> concat cs1 = concat cs @ fs"
  proof (cases "intermediate_storage w = []")
    case True
    then have "rmap frame_item fs = Inr []" using rep by (simp add: writer_rep_def)
    then have "fs = []" using rmap_Inr_length by fastforce
    with flush True rep show ?thesis by (intro exI [of _ cs] exI [of _ bss] exI [of _ "[]"]) (auto simp: pret_def)
  next
    case False
    with flush have "compress_framez compress w = (Inr (), w1)" by simp
    from compress_framez_rep [OF rep this] obtain bs where "writer_rep compress len ck (cs @ [fs]) (bss @ [bs]) [] w1" by blast
    then show ?thesis by (intro exI conjI) (assumption, simp)
  qed
  then obtain cs1 bss1 fs1 where rep1: "writer_rep compress len ck cs1 bss1 fs1 w1" and cs1: "concat cs1 = concat cs @ fs" by blast
  from write_header_rep [OF rep1 header] obtain hdr rest where hdr: "pack_fields FILE_HEADER_STRUCT (file_header cs1 bss1) = Inr hdr"
    and m2: "w_mapping w2 = MAGIC @ hdr @ concat bss1 @ rest" and w2: "w2 = w1\<lparr>w_mapping := w_mapping w2\<rparr>" by blast
  have "length MAGIC + length hdr = FILE_HEADER_SIZE"
    using pack_fields_length [OF hdr] by (simp add: struct_sizes MAGIC_def)
  moreover have "current_offset w2 = FILE_HEADER_SIZE + length (concat bss1) + CONTAINER_HEADER_SIZE"
    using rep1 arg_cong [OF w2, of current_offset] by (simp add: writer_rep_def)
  ultimately have "w_mapping w' = MAGIC @ hdr @ concat bss1 @ file_truncate CONTAINER_HEADER_SIZE rest"
    unfolding w' m2 file_truncate_def by (simp add: CONTAINER_HEADER_SIZE_def)
  with rep1 cs1 hdr show ?thesis by (auto simp: writer_rep_def)
qed

subsection \<open>Reading a file back\<close>

definition record_of :: "log_frame \<Rightarrow> DAQRecord" where
  "record_of = (\<lambda>(counter, timestamp, raw_data).
     \<lparr>rec_category = 1, rec_counter = counter, rec_timestamp = timestamp, rec_payload = raw_data\<rparr>)"

lemma drop_append_eq: "drop n xs = a @ b \<Longrightarrow> drop (n + length a) xs = b"
  by (metis add.commute append_eq_conv_conj drop_drop)

lemma read_records_items:
  "rmap frame_item fs = Inr items \<Longrightarrow> drop offset data = concat items @ x \<Longrightarrow>
    read_records data (length fs) offset = (map record_of fs, None)"
proof (induction fs arbitrary: items offset)
  case (Cons f fs)
  obtain c t raw where f: "f = (c, t, raw)" by (cases f)
  with Cons.prems(1) obtain hdr rest where hdr: "pack_fields DAQ_RECORD_STRUCT [1, c, uint t, int (length raw)] = Inr hdr"
    and rest: "rmap frame_item fs = Inr rest" and items: "items = (hdr @ raw) # rest"
    by (auto simp: rbind_Inr_iff frame_item_def)
  have lh: "length hdr = DAQ_RECORD_SIZE" using pack_fields_length [OF hdr] by (simp add: struct_sizes)
  have d0: "drop offset data = hdr @ raw @ concat rest @ x" using Cons.prems(2) items by simp
  then have d1: "drop (offset + DAQ_RECORD_SIZE) data = raw @ concat rest @ x" unfolding lh [symmetric] by (rule drop_append_eq)
  then have d2: "drop (offset + DAQ_RECORD_SIZE + length raw) data = concat rest @ x" by (rule drop_append_eq)
  have "get_bytes data offset DAQ_RECORD_SIZE = hdr" "get_bytes data (offset + DAQ_RECORD_SIZE) (length raw) = raw"
    using d0 d1 lh by (simp_all add: get_bytes_def)
  with unpack_pack_fields [OF hdr] Cons.IH [OF rest d2] show ?case
    by (simp add: f record_of_def)
qed simp

lemma read_containers_bytes:
  assumes law: "\<And>d z. compress d = Inr z \<Longrightarrow> decompress z = Inr d"
  shows "list_all2 (container_bytes compress) cs bss \<Longrightarrow> drop offset file = concat bss @ x \<Longrightarrow>
    read_containers decompress file (length cs) offset = (map record_of (concat cs), None)"
proof (induction cs bss arbitrary: offset rule: list_all2_induct)
  case (Cons c cs bs bss)
  from Cons.hyps(1) obtain items z hdr where items: "rmap frame_item c = Inr items" and z: "compress (concat items) = Inr z"
    and hdr: "pack_fields CONTAINER_HEADER_STRUCT [int (length items), int (length z), int (length (concat items))] = Inr hdr"
    and bs: "bs = hdr @ z"
    by (auto simp: container_bytes_def)
  have lh: "length hdr = CONTAINER_HEADER_SIZE" using pack_fields_length [OF hdr] by (simp add: struct_sizes)
  have d0: "drop offset file = hdr @ z @ concat bss @ x" using Cons.prems bs by simp
  then have d1: "drop (offset + CONTAINER_HEADER_SIZE) file = z @ concat bss @ x" unfolding lh [symmetric] by (rule drop_append_eq)
  then have d2: "drop (offset + CONTAINER_HEADER_SIZE + length z) file = concat bss @ x" by (rule drop_append_eq)
  have "get_bytes file offset CONTAINER_HEADER_SIZE = hdr" "get_bytes file (offset + CONTAINER_HEADER_SIZE) (length z) = z"
    using d0 d1 lh by (simp_all add: get_bytes_def)
  moreover have "read_records (concat items) (length items) 0 = (map record_of c, None)"
    using read_records_items [OF items, of 0 "concat items" "[]"] rmap_Inr_length [OF items] by simp
  ultimately show ?case
    using unpack_pack_fields [OF hdr] law [OF z] Cons.IH [OF d2] by (simp add: Let_def)
qed simp

text \<open>The calls of a recording.\<close>

definition write_log :: "(bytes \<Rightarrow> bytes result) \<Rightarrow> log_frame list list \<Rightarrow> unit writing" where
  "write_log compress batches = pbind (pmap (add_xcp_frames compress) batches) (\<lambda>_. close_writer compress)"

lemma add_batches_rep:
  assumes "writer_rep compress len ck cs bss fs w" and "pmap (add_xcp_frames compress) batches w = (Inr us, w')"
  shows "\<exists>cs' bss' fs'. writer_rep compress len ck cs' bss' fs' w' \<and> concat cs' @ fs' = concat cs @ fs @ concat batches"
  using assms
proof (induction batches arbitrary: w cs bss fs us)
  case Nil
  then show ?case by (auto simp: pret_def)
next
  case (Cons b batches)
  from Cons.prems(2) obtain w1 vs where one: "add_xcp_frames compress b w = (Inr (), w1)"
    and rest: "pmap (add_xcp_frames compress) batches w1 = (Inr vs, w')"
    by (auto simp: pbind_Inr_iff pret_def)
  obtain cs1 bss1 fs1 where r1: "writer_rep compress len ck cs1 bss1 fs1 w1" and c1: "concat cs1 @ fs1 = concat cs @ fs @ b"
    using add_xcp_frames_rep [OF Cons.prems(1) one] by blast
  obtain cs2 bss2 fs2 where r2: "writer_rep compress len ck cs2 bss2 fs2 w'" and c2: "concat cs2 @ fs2 = concat cs1 @ fs1 @ concat batches"
    using Cons.IH [OF r1 rest] by blast
  have "concat cs2 @ fs2 = concat cs @ fs @ concat (b # batches)" using c1 c2 by (metis append.assoc concat.simps(2))
  with r2 show ?case by blast
qed

lemma open_log_file:
  assumes "pack_fields FILE_HEADER_STRUCT (file_header cs bss) = Inr hdr" and "file = MAGIC @ hdr @ x"
  shows "open_log_reader file = Inr \<lparr>r_mapping = file, r_num_containers = int (length cs),
    r_total_record_count = int (length (concat cs)),
    r_total_size_compressed = int (length (concat bss) - CONTAINER_HEADER_SIZE * length cs),
    r_total_size_uncompressed = int (frames_size (concat cs))\<rparr>"
proof -
  have len: "length hdr = 22" "length MAGIC = 16" using pack_fields_length [OF assms(1)] by (simp_all add: struct_sizes MAGIC_def)
  then have "get_bytes file 0 FILE_HEADER_SIZE = MAGIC @ hdr" by (simp add: assms(2) get_bytes_def FILE_HEADER_SIZE_def)
  moreover have "file \<noteq> []" using len by (auto simp: assms(2))
  ultimately show ?thesis
    using len unpack_pack_fields [OF assms(1)] by (simp add: open_log_reader_def FILE_HEADER_SIZE_def Let_def) (simp add: file_header_def)
qed

subsection \<open>When the file is large enough\<close>

text \<open>How the frames are divided among the containers, when \<open>p\<close> is pending.\<close>

fun log_containers :: "int \<Rightarrow> log_frame list \<Rightarrow> log_frame list \<Rightarrow> log_frame list list" where
  "log_containers chunk p [] = (if p = [] then [] else [p])"
| "log_containers chunk p (f # fs) =
     (if chunk < int (frames_size (p @ [f])) then (p @ [f]) # log_containers chunk [] fs
      else log_containers chunk (p @ [f]) fs)"

lemma concat_log_containers [simp]: "concat (log_containers chunk p fs) = p @ fs"
  by (induction chunk p fs rule: log_containers.induct) simp_all

definition valid_frame :: "log_frame \<Rightarrow> bool" where
  "valid_frame = (\<lambda>(counter, timestamp, raw_data). 0 \<le> counter \<and> counter < 65536 \<and> length raw_data < 2 ^ 32)"

text \<open>The bytes of the items of valid frames, and the size of their container.\<close>

definition frames_data :: "log_frame list \<Rightarrow> bytes" where
  "frames_data fs = concat (map (\<lambda>f. case frame_item f of Inr item \<Rightarrow> item | Inl _ \<Rightarrow> []) fs)"

definition container_size :: "(bytes \<Rightarrow> bytes) \<Rightarrow> log_frame list \<Rightarrow> nat" where
  "container_size lz4 c = CONTAINER_HEADER_SIZE + length (lz4 (frames_data c))"

definition log_size :: "(bytes \<Rightarrow> bytes) \<Rightarrow> log_frame list list \<Rightarrow> nat" where
  "log_size lz4 cs = FILE_HEADER_SIZE + sum_list (map (container_size lz4) cs)"

lemma frame_item_valid: "valid_frame f \<Longrightarrow> \<exists>item. frame_item f = Inr item"
proof -
  obtain c t raw where f: "f = (c, t, raw)" by (cases f)
  have "uint t < 2 ^ LENGTH(64)" by (rule unsigned_less)
  then have "uint t < 256 ^ 8" by simp
  moreover assume "valid_frame f"
  ultimately have "\<exists>hdr. pack_fields DAQ_RECORD_STRUCT [1, c, uint t, int (length raw)] = Inr hdr"
    by (intro pack_fields_total) (simp add: f valid_frame_def DAQ_RECORD_STRUCT_def)
  then show ?thesis by (auto simp: f frame_item_def)
qed

lemma items_data: "rmap frame_item fs = Inr items \<Longrightarrow> concat items = frames_data fs"
  by (induction fs arbitrary: items) (auto simp: frames_data_def rbind_Inr_iff)

lemma frames_data_size: "list_all valid_frame fs \<Longrightarrow> length (frames_data fs) = frames_size fs"
proof -
  assume "list_all valid_frame fs"
  then have "rmap frame_item fs = Inr (map (\<lambda>f. case frame_item f of Inr item \<Rightarrow> item | Inl _ \<Rightarrow> []) fs)"
    by (intro rmap_total) (auto simp: list_all_iff dest!: frame_item_valid)
  from items_size [OF this] show ?thesis by (simp add: frames_data_def)
qed

lemma container_bytes_size: "container_bytes (\<lambda>d. Inr (lz4 d)) c bs \<Longrightarrow> length bs = container_size lz4 c"
  unfolding container_bytes_def container_size_def CONTAINER_HEADER_SIZE_def
  by (auto dest: pack_fields_length simp del: pack_fields.simps simp: items_data)
    (auto dest!: pack_fields_length simp: CONTAINER_HEADER_STRUCT_def simp del: pack_fields.simps)

lemma frames_size_length: "length fs \<le> frames_size fs"
proof (induction fs)
  case (Cons f fs)
  then show ?case by (cases f) (simp add: frames_size_def DAQ_RECORD_SIZE_def)
qed simp

lemma containers_size:
  "list_all2 (container_bytes (\<lambda>d. Inr (lz4 d))) cs bss \<Longrightarrow> FILE_HEADER_SIZE + length (concat bss) = log_size lz4 cs"
  by (induction cs bss rule: list_all2_induct) (simp_all add: log_size_def container_bytes_size)

lemma compress_framez_outcome:
  assumes rep: "writer_rep (\<lambda>d. Inr (lz4 d)) len ck cs bss fs w"
    and small: "frames_size fs < 2 ^ 32" "container_size lz4 fs < 2 ^ 32"
  shows "fst (compress_framez (\<lambda>d. Inr (lz4 d)) w)
    = (if log_size lz4 (cs @ [fs]) \<le> len then Inr () else Inl XcpLogFileCapacityExceededError)"
proof -
  let ?items = "intermediate_storage w" and ?z = "lz4 (concat (intermediate_storage w))"
  have items: "rmap frame_item fs = Inr ?items" and len: "length (w_mapping w) = len"
    and offs: "container_header_offset w = FILE_HEADER_SIZE + length (concat bss)"
      "current_offset w = container_header_offset w + CONTAINER_HEADER_SIZE"
    and total: "container_size_uncompressed w = length (concat ?items)"
    and sizes: "FILE_HEADER_SIZE + length (concat bss) = log_size lz4 cs"
    using rep containers_size by (auto simp: writer_rep_def)
  have z: "CONTAINER_HEADER_SIZE + length ?z = container_size lz4 fs"
    by (simp add: container_size_def items_data [OF items])
  have "length ?items \<le> frames_size fs"
    using rmap_Inr_length [OF items] frames_size_length by simp
  then obtain hdr where hdr: "pack_fields CONTAINER_HEADER_STRUCT [int (length ?items), int (length ?z), int (container_size_uncompressed w)] = Inr hdr"
    using small z items_size [OF items] total
    by (subgoal_tac "\<exists>bs. pack_fields CONTAINER_HEADER_STRUCT [int (length ?items), int (length ?z), int (container_size_uncompressed w)] = Inr bs")
      (blast, intro pack_fields_total, simp add: CONTAINER_HEADER_STRUCT_def)
  have lh: "length hdr = CONTAINER_HEADER_SIZE" using pack_fields_length [OF hdr] by (simp add: struct_sizes)
  have need: "log_size lz4 (cs @ [fs]) = current_offset w + length ?z"
    using sizes offs z by (simp add: log_size_def)
  show ?thesis
  proof (cases "current_offset w + length ?z \<le> len")
    case True
    then have "container_header_offset w + length hdr \<le> len" using offs lh by simp
    with True show ?thesis
      by (simp add: compress_framez_def pbind_def plift_def pmodify_def set_bytes_def hdr need len)
  next
    case False
    show ?thesis
    proof (cases "?z = []")
      case True
      with False offs lh have "\<not> container_header_offset w + length hdr \<le> len" "hdr \<noteq> []" by (auto simp: CONTAINER_HEADER_SIZE_def)
      moreover have "pack_fields CONTAINER_HEADER_STRUCT [int (length ?items), 0, int (container_size_uncompressed w)] = Inr hdr"
        using hdr True by simp
      ultimately show ?thesis
        using True False by (simp add: compress_framez_def pbind_def plift_def pmodify_def set_bytes_def need len)
    next
      case ne: False
      with False show ?thesis
        by (simp add: compress_framez_def pbind_def plift_def pmodify_def set_bytes_def hdr need len)
    qed
  qed
qed

lemma add_frame_outcome:
  assumes rep: "writer_rep (\<lambda>d. Inr (lz4 d)) len ck cs bss fs w" and valid: "valid_frame f"
    and small: "frames_size (fs @ [f]) < 2 ^ 32" and csmall: "ck < int (frames_size (fs @ [f])) \<Longrightarrow> container_size lz4 (fs @ [f]) < 2 ^ 32"
  shows "if ck < int (frames_size (fs @ [f])) then
      (if log_size lz4 (cs @ [fs @ [f]]) \<le> len then
         \<exists>w' bss'. add_frame (\<lambda>d. Inr (lz4 d)) f w = (Inr (), w') \<and> writer_rep (\<lambda>d. Inr (lz4 d)) len ck (cs @ [fs @ [f]]) bss' [] w'
       else fst (add_frame (\<lambda>d. Inr (lz4 d)) f w) = Inl XcpLogFileCapacityExceededError)
    else \<exists>w'. add_frame (\<lambda>d. Inr (lz4 d)) f w = (Inr (), w') \<and> writer_rep (\<lambda>d. Inr (lz4 d)) len ck cs bss (fs @ [f]) w'"
proof -
  let ?c = "\<lambda>d. Inr (lz4 d)"
  obtain item where item: "frame_item f = Inr item" using frame_item_valid [OF valid] by blast
  let ?w = "w\<lparr>intermediate_storage := intermediate_storage w @ [item],
       container_size_uncompressed := container_size_uncompressed w + length item\<rparr>"
  have rep': "writer_rep ?c len ck cs bss (fs @ [f]) ?w"
    using rep item by (auto simp: writer_rep_def rmap_append)
  have total: "container_size_uncompressed ?w = frames_size (fs @ [f])"
    using items_size [of "fs @ [f]" "intermediate_storage ?w"] rep' by (simp add: writer_rep_def)
  have chunk: "chunk_size ?w = ck" using rep' by (simp add: writer_rep_def)
  have run: "add_frame ?c f w = (if ck < int (frames_size (fs @ [f])) then compress_framez ?c ?w else (Inr (), ?w))"
    unfolding total [symmetric] chunk [symmetric] by (simp add: add_frame_def pbind_def plift_def pmodify_def item)
  show ?thesis
  proof (cases "ck < int (frames_size (fs @ [f]))")
    case False
    with run rep' show ?thesis by simp
  next
    case True
    note outcome = compress_framez_outcome [OF rep' small csmall [OF True]]
    show ?thesis
    proof (cases "log_size lz4 (cs @ [fs @ [f]]) \<le> len")
      case fits: True
      then obtain w' where "compress_framez ?c ?w = (Inr (), w')" using outcome by (cases "compress_framez ?c ?w") auto
      with compress_framez_rep [OF rep' this] run True fits show ?thesis by auto
    next
      case False
      with outcome run True show ?thesis by simp
    qed
  qed
qed

lemma log_size_append [simp]: "log_size lz4 (cs @ ds) = log_size lz4 cs + sum_list (map (container_size lz4) ds)"
  by (simp add: log_size_def)

text \<open>After the frames, whatever \<open>rest\<close> follows, the division among the containers is the one of the reference.\<close>

lemma add_xcp_frames_outcome:
  assumes "writer_rep (\<lambda>d. Inr (lz4 d)) len ck cs bss p w" and "list_all valid_frame frames"
    and "frames_size (p @ frames) < 2 ^ 32" and "log_size lz4 (cs @ log_containers ck p (frames @ rest)) < 2 ^ 32"
  shows "(\<exists>w' cs' bss' p'. add_xcp_frames (\<lambda>d. Inr (lz4 d)) frames w = (Inr (), w')
      \<and> writer_rep (\<lambda>d. Inr (lz4 d)) len ck cs' bss' p' w' \<and> cs' @ log_containers ck p' rest = cs @ log_containers ck p (frames @ rest))
    \<or> (fst (add_xcp_frames (\<lambda>d. Inr (lz4 d)) frames w) = Inl XcpLogFileCapacityExceededError
      \<and> len < log_size lz4 (cs @ log_containers ck p (frames @ rest)))"
  using assms
proof (induction frames arbitrary: w cs bss p)
  case Nil
  then show ?case by (auto simp: pret_def)
next
  case (Cons f frames)
  let ?c = "\<lambda>d. Inr (lz4 d)"
  have valid: "valid_frame f" "list_all valid_frame frames" using Cons.prems(2) by simp_all
  have small: "frames_size (p @ [f]) < 2 ^ 32" "frames_size frames < 2 ^ 32"
    using Cons.prems(3) frames_size_simps(2) [of p "f # frames"] frames_size_simps(2) [of p "[f]"] frames_size_simps(2) [of "[f]" frames]
    by simp_all
  show ?case
  proof (cases "ck < int (frames_size (p @ [f]))")
    case full: True
    then have split: "log_containers ck p ((f # frames) @ rest) = (p @ [f]) # log_containers ck [] (frames @ rest)" by simp
    have csz: "container_size lz4 (p @ [f]) < 2 ^ 32" using Cons.prems(4) unfolding split by simp
    note step = add_frame_outcome [OF Cons.prems(1) valid(1) small(1) csz]
    show ?thesis
    proof (cases "log_size lz4 (cs @ [p @ [f]]) \<le> len")
      case True
      with step full obtain w1 bss1 where w1: "add_frame ?c f w = (Inr (), w1)" and rep1: "writer_rep ?c len ck (cs @ [p @ [f]]) bss1 [] w1"
        by auto
      have "log_size lz4 ((cs @ [p @ [f]]) @ log_containers ck [] (frames @ rest)) < 2 ^ 32"
        using Cons.prems(4) unfolding split by simp
      from Cons.IH [OF rep1 valid(2) _ this] small(2) show ?thesis
        unfolding split by (simp add: pbind_simps(2) [of "add_frame ?c f" w, OF w1])
    next
      case False
      with step full have err: "fst (add_frame ?c f w) = Inl XcpLogFileCapacityExceededError" by simp
      then obtain w1 where "add_frame ?c f w = (Inl XcpLogFileCapacityExceededError, w1)" by (cases "add_frame ?c f w") auto
      with False show ?thesis unfolding split by (simp add: pbind_simps(1) [of "add_frame ?c f" w])
    qed
  next
    case more: False
    then have split: "log_containers ck p ((f # frames) @ rest) = log_containers ck (p @ [f]) (frames @ rest)" by simp
    from add_frame_outcome [OF Cons.prems(1) valid(1) small(1)] more obtain w1
      where w1: "add_frame ?c f w = (Inr (), w1)" and rep1: "writer_rep ?c len ck cs bss (p @ [f]) w1" by auto
    from Cons.IH [OF rep1 valid(2)] Cons.prems(3,4) show ?thesis
      unfolding split by (simp add: pbind_simps(2) [of "add_frame ?c f" w, OF w1])
  qed
qed

lemma add_xcp_frames_append:
  "add_xcp_frames c (xs @ ys) = pbind (add_xcp_frames c xs) (\<lambda>_. add_xcp_frames c ys)"
  by (induction xs) (simp_all add: pbind_unfold pbind_assoc)

lemma write_log_concat: "write_log c batches = pbind (add_xcp_frames c (concat batches)) (\<lambda>_. close_writer c)"
proof -
  have "pbind (pmap (add_xcp_frames c) batches) (\<lambda>_. k) = pbind (add_xcp_frames c (concat batches)) (\<lambda>_. k)" for k :: "unit writing"
  proof (induction batches)
    case (Cons b batches)
    then show ?case by (simp add: pbind_assoc pbind_unfold add_xcp_frames_append)
  qed (simp add: pbind_unfold)
  then show ?thesis by (simp add: write_log_def)
qed

lemma close_writer_outcome:
  assumes rep: "writer_rep (\<lambda>d. Inr (lz4 d)) len ck cs bss p w" and len: "FILE_HEADER_SIZE \<le> len"
    and small: "frames_size (concat cs @ p) < 2 ^ 32" "log_size lz4 (cs @ log_containers ck p []) < 2 ^ 32"
  shows "fst (close_writer (\<lambda>d. Inr (lz4 d)) w)
    = (if log_size lz4 (cs @ log_containers ck p []) \<le> len then Inr () else Inl XcpLogFileCapacityExceededError)"
proof -
  let ?c = "\<lambda>d. Inr (lz4 d)"
  have open_w: "\<not> w_is_closed w" and items: "rmap frame_item p = Inr (intermediate_storage w)"
    using rep by (simp_all add: writer_rep_def)
  have empty: "intermediate_storage w = [] \<longleftrightarrow> p = []" using rmap_Inr_length [OF items] by auto
  have header: "fst (write_header w1) = Inr ()"
    if rep1: "writer_rep ?c len ck cs1 bss1 p1 w1" and same: "cs1 = cs @ log_containers ck p []" for cs1 bss1 p1 w1
  proof -
    have "concat cs1 = concat cs @ p" by (simp add: same)
    then have total: "frames_size (concat cs1) < 2 ^ 32" "length (concat cs1) < 2 ^ 32"
      using small(1) frames_size_length [of "concat cs1"] by simp_all
    have "CONTAINER_HEADER_SIZE * length cs1 + total_size_compressed w1 + FILE_HEADER_SIZE = log_size lz4 cs1"
      using rep1 containers_size [of lz4 cs1 bss1] by (simp add: writer_rep_def)
    then have "length cs1 < 2 ^ 32" "total_size_compressed w1 < 2 ^ 32"
      using small(2) same by (simp_all add: CONTAINER_HEADER_SIZE_def)
    then have "\<exists>hdr. pack_fields FILE_HEADER_STRUCT [int FILE_HEADER_SIZE, 0x0100, 0, int (num_containers w1),
       int (total_record_count w1), int (total_size_compressed w1), int (total_size_uncompressed w1)] = Inr hdr"
      using rep1 total by (intro pack_fields_total) (simp add: writer_rep_def FILE_HEADER_STRUCT_def FILE_HEADER_SIZE_def)
    then obtain hdr where hdr: "pack_fields FILE_HEADER_STRUCT [int FILE_HEADER_SIZE, 0x0100, 0, int (num_containers w1),
       int (total_record_count w1), int (total_size_compressed w1), int (total_size_uncompressed w1)] = Inr hdr" by blast
    have "length (MAGIC @ hdr) = FILE_HEADER_SIZE" using pack_fields_length [OF hdr] by (simp add: struct_sizes MAGIC_def)
    moreover have "length (w_mapping w1) = len" using rep1 by (simp add: writer_rep_def)
    ultimately show ?thesis using len hdr by (simp add: write_header_def pbind_def plift_def set_bytes_def)
  qed
  have finish: "fst (close_writer ?c w) = Inr ()"
    if flush: "(if intermediate_storage w \<noteq> [] then compress_framez ?c else pret ()) w = (Inr (), w1)"
      and rep1: "writer_rep ?c len ck (cs @ log_containers ck p []) bss1 p1 w1" for w1 bss1 p1
  proof -
    obtain w2 where "write_header w1 = (Inr (), w2)" using header [OF rep1 refl] by (cases "write_header w1") auto
    then show ?thesis using open_w flush by (simp add: close_writer_def pbind_def pmodify_def)
  qed
  show ?thesis
  proof (cases "p = []")
    case True
    have "log_size lz4 cs \<le> len"
      using rep containers_size [of lz4 cs bss] by (auto simp: writer_rep_def)
    with True finish [of w bss "[]"] rep empty show ?thesis by (simp add: pret_def)
  next
    case False
    then have cs: "log_containers ck p [] = [p]" by simp
    then have "frames_size p < 2 ^ 32" "container_size lz4 p < 2 ^ 32" using small by simp_all
    note outcome = compress_framez_outcome [OF rep this]
    show ?thesis
    proof (cases "log_size lz4 (cs @ [p]) \<le> len")
      case True
      then obtain w1 where w1: "compress_framez ?c w = (Inr (), w1)" using outcome by (cases "compress_framez ?c w") auto
      from compress_framez_rep [OF rep w1] obtain bs where "writer_rep ?c len ck (cs @ [p]) (bss @ [bs]) [] w1" by blast
      then show ?thesis using finish [of w1] w1 empty False True unfolding cs by simp
    next
      case False
      then obtain w1 where "compress_framez ?c w = (Inl XcpLogFileCapacityExceededError, w1)"
        using outcome by (cases "compress_framez ?c w") auto
      then show ?thesis using False \<open>p \<noteq> []\<close> empty open_w unfolding cs by (simp add: close_writer_def pbind_def)
    qed
  qed
qed

lemma write_log_outcome:
  assumes "new_log_writer prealloc kbytes = Inr w" and "list_all valid_frame (concat batches)"
    and "frames_size (concat batches) < 2 ^ 32" and "log_size lz4 (log_containers (kbytes * 1024) [] (concat batches)) < 2 ^ 32"
  shows "fst (write_log (\<lambda>d. Inr (lz4 d)) batches w)
    = (if log_size lz4 (log_containers (kbytes * 1024) [] (concat batches)) \<le> nat (1024 * 1024 * prealloc) then Inr ()
       else Inl XcpLogFileCapacityExceededError)"
proof -
  let ?c = "\<lambda>d. Inr (lz4 d)" and ?fs = "concat batches"
  note rep = new_writer_rep [OF assms(1), of ?c]
  have room: "FILE_HEADER_SIZE \<le> nat (1024 * 1024 * prealloc)"
    using assms(1) by (auto simp: new_log_writer_def FILE_HEADER_SIZE_def split: if_splits)
  from add_xcp_frames_outcome [OF rep assms(2), of "[]"] assms(3,4)
  consider (ok) w1 cs bss p where "add_xcp_frames ?c ?fs w = (Inr (), w1)"
      "writer_rep ?c (nat (1024 * 1024 * prealloc)) (kbytes * 1024) cs bss p w1"
      "cs @ log_containers (kbytes * 1024) p [] = log_containers (kbytes * 1024) [] ?fs"
    | (full) "fst (add_xcp_frames ?c ?fs w) = Inl XcpLogFileCapacityExceededError"
      "nat (1024 * 1024 * prealloc) < log_size lz4 (log_containers (kbytes * 1024) [] ?fs)"
    by auto
  then show ?thesis
  proof cases
    case ok
    have "concat cs @ p = concat (cs @ log_containers (kbytes * 1024) p [])" by simp
    also have "\<dots> = ?fs" unfolding ok(3) by (simp add: concat_log_containers)
    finally have "concat cs @ p = ?fs" .
    then show ?thesis
      using close_writer_outcome [OF ok(2) room, unfolded ok(3)] ok(1) assms(3,4) by (simp add: write_log_concat pbind_def)
  next
    case full
    then obtain w1 where "add_xcp_frames ?c ?fs w = (Inl XcpLogFileCapacityExceededError, w1)"
      by (cases "add_xcp_frames ?c ?fs w") auto
    then show ?thesis using full(2) by (simp add: write_log_concat pbind_def)
  qed
qed

section \<open>Properties\<close>

text \<open>
  C34. A recording that was written and closed without an exception reads back as it was recorded, whatever the
  chunk size and however the frames were handed over: the file opens, yields exactly the recorded frames in
  their order, and announces their number and size. The compression need only be undone by its inverse.
\<close>

theorem log_file_roundtrip:
  assumes "\<And>d z. compress d = Inr z \<Longrightarrow> decompress z = Inr d"
    and "new_log_writer prealloc kbytes = Inr w" and "write_log compress batches w = (Inr (), w')"
  shows "\<exists>r. open_log_reader (w_mapping w') = Inr r \<and> reader_frames decompress r = (map record_of (concat batches), None)
    \<and> r_total_record_count r = int (length (concat batches))
    \<and> r_total_size_uncompressed r = (\<Sum>(counter, timestamp, raw_data) \<leftarrow> concat batches. int (DAQ_RECORD_SIZE + length raw_data))"
proof -
  obtain us w1 where add: "pmap (add_xcp_frames compress) batches w = (Inr us, w1)" and close: "close_writer compress w1 = (Inr (), w')"
    using assms(3) by (auto simp: write_log_def pbind_Inr_iff)
  obtain cs bss fs where rep: "writer_rep compress (nat (1024 * 1024 * prealloc)) (kbytes * 1024) cs bss fs w1"
    and frames: "concat cs @ fs = concat batches"
    using add_batches_rep [OF new_writer_rep [OF assms(2)] add] by auto
  obtain cs' bss' hdr rest where containers: "list_all2 (container_bytes compress) cs' bss'" and cs': "concat cs' = concat batches"
    and hdr: "pack_fields FILE_HEADER_STRUCT (file_header cs' bss') = Inr hdr"
    and file': "w_mapping w' = MAGIC @ hdr @ concat bss' @ rest"
    using close_writer_file [OF rep close] frames by auto
  have "length (MAGIC @ hdr) = FILE_HEADER_SIZE" using pack_fields_length [OF hdr] by (simp add: struct_sizes MAGIC_def)
  then have "drop FILE_HEADER_SIZE (w_mapping w') = concat bss' @ rest" by (metis append.assoc append_eq_conv_conj file')
  from read_containers_bytes [OF assms(1) containers this]
  have "read_containers decompress (w_mapping w') (length cs') FILE_HEADER_SIZE = (map record_of (concat batches), None)"
    by (simp add: cs')
  moreover have "int (frames_size (concat batches)) = (\<Sum>(counter, timestamp, raw_data) \<leftarrow> concat batches. int (DAQ_RECORD_SIZE + length raw_data))"
    by (rule int_frames_size)
  ultimately show ?thesis
    using open_log_file [OF hdr file'] cs' by (simp add: reader_frames_def)
qed

theorem log_file_roundtrip_witness:
  "\<exists>w w' r. new_log_writer 1 0 = Inr w \<and> write_log Inr [[(1, 7, [0xAA])], [], [(2, 8, [0xBB, 0xCC])]] w = (Inr (), w')
    \<and> open_log_reader (w_mapping w') = Inr r \<and> r_total_record_count r = 2
    \<and> reader_frames Inr r = ([\<lparr>rec_category = 1, rec_counter = 1, rec_timestamp = 7, rec_payload = [0xAA]\<rparr>,
        \<lparr>rec_category = 1, rec_counter = 2, rec_timestamp = 8, rec_payload = [0xBB, 0xCC]\<rparr>], None)"
proof -
  let ?b = "[[(1, 7, [0xAA])], [], [(2, 8, [0xBB, 0xCC])]] :: log_frame list list"
  obtain w where w: "new_log_writer 1 0 = Inr w" by (simp add: new_log_writer_def)
  have valid: "list_all valid_frame (concat ?b)" by (simp add: valid_frame_def)
  have cs: "log_containers (0 * 1024) [] (concat ?b) = [[(1, 7, [0xAA])], [(2, 8, [0xBB, 0xCC])]]"
    by (simp add: frames_size_def DAQ_RECORD_SIZE_def)
  have size: "log_size (\<lambda>d. d) (log_containers (0 * 1024) [] (concat ?b)) = 95"
    unfolding cs log_size_def container_size_def using valid
    by (simp add: frames_data_size) (simp add: frames_size_def struct_sizes)
  have "fst (write_log Inr ?b w) = Inr ()"
    using write_log_outcome [OF w valid, of "\<lambda>d. d"] by (simp only: size) (simp add: frames_size_def struct_sizes)
  then obtain w' where w': "write_log Inr ?b w = (Inr (), w')" by (cases "write_log Inr ?b w") auto
  from log_file_roundtrip [OF _ w w', of Inr] obtain r where "open_log_reader (w_mapping w') = Inr r"
    "reader_frames Inr r = (map record_of (concat ?b), None)" "r_total_record_count r = int (length (concat ?b))" by auto
  with w w' show ?thesis by (intro exI conjI) (assumption | simp add: record_of_def)+
qed

text \<open>
  When the counters and lengths fit their fields and the sizes 32 bits, a recording succeeds exactly if
  the header, the containers and theirs fit the pre-allocated megabytes; otherwise it ends with
  XcpLogFileCapacityExceededError, and with nothing else.
\<close>

theorem log_file_capacity:
  assumes "new_log_writer prealloc kbytes = Inr w"
    and "list_all valid_frame (concat batches)" and "frames_size (concat batches) < 2 ^ 32"
    and "log_size lz4 (log_containers (kbytes * 1024) [] (concat batches)) < 2 ^ 32"
  shows "fst (write_log (\<lambda>d. Inr (lz4 d)) batches w)
    = (if log_size lz4 (log_containers (kbytes * 1024) [] (concat batches)) \<le> nat (1024 * 1024 * prealloc) then Inr ()
       else Inl XcpLogFileCapacityExceededError)"
  by (rule write_log_outcome [OF assms])

theorem log_file_capacity_witness:
  "\<exists>w. new_log_writer 1 1 = Inr w
    \<and> fst (write_log Inr [[(1, 7, replicate 2000000 0)]] w) = Inl XcpLogFileCapacityExceededError
    \<and> fst (write_log Inr [[(1, 7, replicate 1000 0)]] w) = Inr ()"
proof -
  have size: "log_size (\<lambda>d. d) (log_containers (1 * 1024) [] (concat [[(1, 7, replicate n 0)]])) = n + 65"
    "frames_size (concat [[(1, 7, replicate n 0)]]) = n + 15" "list_all valid_frame (concat [[(1, 7, replicate n 0)]])" if "n < 2 ^ 31" for n
  proof -
    show valid: "list_all valid_frame (concat [[(1, 7, replicate n 0)]])" using that by (simp add: valid_frame_def)
    show "frames_size (concat [[(1, 7, replicate n 0)]]) = n + 15" by (simp add: frames_size_def DAQ_RECORD_SIZE_def)
    then show "log_size (\<lambda>d. d) (log_containers (1 * 1024) [] (concat [[(1, 7, replicate n 0)]])) = n + 65"
      using valid by (simp add: log_size_def container_size_def frames_data_size struct_sizes)
  qed
  obtain w where w: "new_log_writer 1 1 = Inr w" by (simp add: new_log_writer_def)
  have outcome: "fst (write_log Inr [[(1, 7, replicate n 0)]] w)
      = (if n + 65 \<le> nat (1024 * 1024 * 1) then Inr () else Inl XcpLogFileCapacityExceededError)" if "n < 2 ^ 31" for n
    using log_file_capacity [OF w size(3) [OF that], of "\<lambda>d. d"] size(1,2) [OF that] that by simp
  show ?thesis using w outcome [of 2000000] outcome [of 1000] by simp
qed

end
