(* ===== verification/Async_Policy.thy ===== *)
theory Async_Policy
  imports Transport_Base "HOL-Library.Sublist"
begin

text \<open>
  The mirroring of frames into \<open>asyncio\<close> queues: \<open>AsyncFrameSubscription\<close> and \<open>AsyncPolicyAdapter\<close> of
  \<open>pyxcp/transport/async_policy.py\<close>, and the closing of \<open>AsyncMaster\<close> (\<open>pyxcp/master/async_master.py\<close>). The
  threads are interleaved step by step: the transport's, which publishes one frame to one subscription
  after the other; the event loop's, which runs the callbacks of a subscription in the order they were
  scheduled; and the consumers', which may have to wait for an item. A wrapped policy is a parameter: the
  exception it raises, if it raises one. Log messages are left out.
\<close>

section \<open>Model\<close>

subsection \<open>A subscription\<close>

record FrameNotification =
  fn_category :: FrameCategory
  fn_counter :: int
  fn_timestamp :: int
  fn_payload :: bytes

datatype queue_item = Note FrameNotification | Sentinel
datatype callback = Enqueue FrameNotification | CloseQueue

text \<open>\<open>sub_callbacks\<close> is what \<open>call_soon_threadsafe\<close> has scheduled and the loop has not run yet.\<close>

record subscription =
  sub_categories :: "FrameCategory list option"
  sub_maxsize :: int
  sub_queue :: "queue_item list"
  sub_closed :: bool
  sub_callbacks :: "callback list"

definition new_subscription :: "FrameCategory list option \<Rightarrow> int \<Rightarrow> subscription" where
  "new_subscription categories maxsize =
     \<lparr>sub_categories = categories, sub_maxsize = maxsize, sub_queue = [], sub_closed = False, sub_callbacks = []\<rparr>"

definition matches :: "subscription \<Rightarrow> FrameNotification \<Rightarrow> bool" where
  "matches s n = (case sub_categories s of None \<Rightarrow> True | Some cs \<Rightarrow> fn_category n \<in> set cs)"

definition publish :: "FrameNotification \<Rightarrow> subscription \<Rightarrow> subscription" where
  "publish n s = s\<lparr>sub_callbacks := sub_callbacks s @ [Enqueue n]\<rparr>"

text \<open>\<open>asyncio.Queue.full\<close>: a queue whose size is not positive is never full.\<close>

definition queue_full :: "subscription \<Rightarrow> bool" where
  "queue_full s \<longleftrightarrow> 0 < sub_maxsize s \<and> sub_maxsize s \<le> int (length (sub_queue s))"

definition enqueue :: "FrameNotification \<Rightarrow> subscription \<Rightarrow> subscription" where
  "enqueue n s = (if sub_closed s \<or> \<not> matches s n then s
     else if queue_full s then s else s\<lparr>sub_queue := sub_queue s @ [Note n]\<rparr>)"

definition close_queue :: "subscription \<Rightarrow> subscription" where
  "close_queue s = s\<lparr>sub_queue := (if queue_full s then tl (sub_queue s) else sub_queue s) @ [Sentinel]\<rparr>"

definition run_callback :: "subscription \<Rightarrow> subscription" where
  "run_callback s =
     (case sub_callbacks s of
        [] \<Rightarrow> s
      | Enqueue n # cbs \<Rightarrow> enqueue n (s\<lparr>sub_callbacks := cbs\<rparr>)
      | CloseQueue # cbs \<Rightarrow> close_queue (s\<lparr>sub_callbacks := cbs\<rparr>))"

definition mark_closed :: "subscription \<Rightarrow> subscription" where
  "mark_closed s = s\<lparr>sub_closed := True, sub_callbacks := sub_callbacks s @ [CloseQueue]\<rparr>"

text \<open>\<open>get\<close>: it returns an item, raises \<open>SubscriptionClosedError\<close>, or waits for an item of the queue.\<close>

datatype get_result = Waits | Item FrameNotification | ClosedError

definition resume_get :: "subscription \<Rightarrow> get_result \<times> subscription" where
  "resume_get s =
     (case sub_queue s of
        [] \<Rightarrow> (Waits, s)
      | Note n # q \<Rightarrow> (Item n, s\<lparr>sub_queue := q\<rparr>)
      | Sentinel # q \<Rightarrow> (ClosedError, s\<lparr>sub_queue := q\<rparr>))"

definition get :: "subscription \<Rightarrow> get_result \<times> subscription" where
  "get s = (if sub_closed s \<and> sub_queue s = [] then (ClosedError, s) else resume_get s)"

subsection \<open>The adapter\<close>

text \<open>Every subscription that was ever made has a number; \<open>active\<close> is the set \<open>_subscriptions\<close>.\<close>

record adapter =
  subscriptions :: "subscription list"
  active :: "nat list"
  finalized :: bool
  delegate_feeds :: "FrameNotification list"

definition new_adapter :: adapter where
  "new_adapter = \<lparr>subscriptions = [], active = [], finalized = False, delegate_feeds = []\<rparr>"

definition subscribe :: "FrameCategory list option \<Rightarrow> int \<Rightarrow> adapter \<Rightarrow> nat result \<times> adapter" where
  "subscribe categories maxsize a =
     (if finalized a then (Inl RuntimeError, a)
      else (Inr (length (subscriptions a)),
        a\<lparr>subscriptions := subscriptions a @ [new_subscription categories maxsize],
          active := active a @ [length (subscriptions a)]\<rparr>))"

definition on_subscription :: "nat \<Rightarrow> (subscription \<Rightarrow> subscription) \<Rightarrow> adapter \<Rightarrow> adapter" where
  "on_subscription i f a = a\<lparr>subscriptions := (subscriptions a)[i := f (subscriptions a ! i)]\<rparr>"

text \<open>The first part of \<open>feed\<close>: the wrapped policy, and the subscriptions that will get the frame.\<close>

definition feed_delegate :: "pyexn option \<Rightarrow> FrameNotification \<Rightarrow> adapter \<Rightarrow> nat list result \<times> adapter" where
  "feed_delegate raised n a =
     (let a' = a\<lparr>delegate_feeds := delegate_feeds a @ [n]\<rparr>
      in case raised of Some e \<Rightarrow> (Inl e, a') | None \<Rightarrow> (Inr (active a'), a'))"

definition close_subscription :: "nat \<Rightarrow> adapter \<Rightarrow> adapter" where
  "close_subscription i a =
     (if sub_closed (subscriptions a ! i) then a
      else on_subscription i mark_closed (a\<lparr>active := filter (\<lambda>j. j \<noteq> i) (active a)\<rparr>))"

definition adapter_finalize :: "pyexn option \<Rightarrow> adapter \<Rightarrow> unit result \<times> adapter" where
  "adapter_finalize raised a =
     (if finalized a then (Inr (), a)
      else (case raised of Some e \<Rightarrow> Inl e | None \<Rightarrow> Inr (),
        fold close_subscription (active a) (a\<lparr>finalized := True\<rparr>)))"

subsection \<open>Interleavings\<close>

text \<open>
  A run: the adapter, the frame the transport's thread is publishing with the subscriptions that are still to get
  it, the consumers that wait at each subscription, and what each was given and has handed on.
\<close>

record world =
  ad :: adapter
  publishing :: "(FrameNotification \<times> nat list) option"
  waiting :: "nat \<Rightarrow> nat"
  published :: "nat \<Rightarrow> FrameNotification list"
  taken :: "nat \<Rightarrow> FrameNotification list"

definition new_world :: world where
  "new_world = \<lparr>ad = new_adapter, publishing = None, waiting = (\<lambda>_. 0), published = (\<lambda>_. []), taken = (\<lambda>_. [])\<rparr>"

definition hand_on :: "nat \<Rightarrow> get_result \<Rightarrow> world \<Rightarrow> world" where
  "hand_on i r w = (case r of Item n \<Rightarrow> w\<lparr>taken := (taken w)(i := taken w i @ [n])\<rparr> | _ \<Rightarrow> w)"

inductive async_step :: "world \<Rightarrow> world \<Rightarrow> bool" where
  Subscribe: "subscribe cs m (ad w) = (Inr i, a) \<Longrightarrow> async_step w (w\<lparr>ad := a\<rparr>)"
| Feed: "publishing w = None \<Longrightarrow> feed_delegate None n (ad w) = (Inr is, a) \<Longrightarrow>
    async_step w (w\<lparr>ad := a, publishing := Some (n, is)\<rparr>)"
| FeedRaises: "publishing w = None \<Longrightarrow> feed_delegate (Some e) n (ad w) = (Inl e, a) \<Longrightarrow> async_step w (w\<lparr>ad := a\<rparr>)"
| Publish: "publishing w = Some (n, i # is) \<Longrightarrow>
    async_step w (w\<lparr>ad := on_subscription i (publish n) (ad w), publishing := Some (n, is),
      published := (published w)(i := published w i @ [n])\<rparr>)"
| Published: "publishing w = Some (n, []) \<Longrightarrow> async_step w (w\<lparr>publishing := None\<rparr>)"
| RunCallback: "i < length (subscriptions (ad w)) \<Longrightarrow> async_step w (w\<lparr>ad := on_subscription i run_callback (ad w)\<rparr>)"
| GetNow: "i < length (subscriptions (ad w)) \<Longrightarrow> get (subscriptions (ad w) ! i) = (r, s) \<Longrightarrow> r \<noteq> Waits \<Longrightarrow>
    async_step w (hand_on i r (w\<lparr>ad := on_subscription i (\<lambda>_. s) (ad w)\<rparr>))"
| GetWaits: "i < length (subscriptions (ad w)) \<Longrightarrow> get (subscriptions (ad w) ! i) = (Waits, s) \<Longrightarrow>
    async_step w (w\<lparr>waiting := (waiting w)(i := waiting w i + 1)\<rparr>)"
| GetResumes: "i < length (subscriptions (ad w)) \<Longrightarrow> 0 < waiting w i \<Longrightarrow> resume_get (subscriptions (ad w) ! i) = (r, s) \<Longrightarrow>
    r \<noteq> Waits \<Longrightarrow>
    async_step w (hand_on i r (w\<lparr>ad := on_subscription i (\<lambda>_. s) (ad w), waiting := (waiting w)(i := waiting w i - 1)\<rparr>))"
| Close: "i < length (subscriptions (ad w)) \<Longrightarrow> async_step w (w\<lparr>ad := close_subscription i (ad w)\<rparr>)"
| Finalize: "adapter_finalize e (ad w) = (r, a) \<Longrightarrow> async_step w (w\<lparr>ad := a\<rparr>)"

inductive async_reachable :: "world \<Rightarrow> bool" where
  Start: "async_reachable new_world"
| Step: "async_reachable w \<Longrightarrow> async_step w w' \<Longrightarrow> async_reachable w'"

inductive_cases async_stepE: "async_step w w'"

subsection \<open>Closing an asynchronous master\<close>

text \<open>
  \<open>am_closings\<close> counts the calls of the master's \<open>close\<close> and \<open>__exit__\<close>, which run in the executor; \<open>raised\<close>
  is their exception, if they raise one. An executor of the caller's is never shut down.
\<close>

record async_master =
  am_owns_executor :: bool
  am_executor_shutdown :: bool
  am_closed :: bool
  am_closings :: nat

datatype master_source = TransportName | GivenMaster

definition new_async_master :: "master_source \<Rightarrow> bool \<Rightarrow> bool \<Rightarrow> bool \<Rightarrow> bool \<Rightarrow> async_master result" where
  "new_async_master source config_given policy_given interface_given executor_given =
     (if source = TransportName \<and> \<not> config_given then Inl ValueError
      else if source = GivenMaster \<and> (config_given \<or> policy_given \<or> interface_given) then Inl ValueError
      else Inr \<lparr>am_owns_executor = \<not> executor_given, am_executor_shutdown = False, am_closed = False, am_closings = 0\<rparr>)"

definition shutdown_executor :: "async_master \<Rightarrow> async_master" where
  "shutdown_executor m = (if am_owns_executor m \<and> \<not> am_executor_shutdown m then m\<lparr>am_executor_shutdown := True\<rparr> else m)"

definition am_close :: "pyexn option \<Rightarrow> async_master \<Rightarrow> unit result \<times> async_master" where
  "am_close raised m =
     (if am_closed m then (Inr (), shutdown_executor m)
      else (case raised of Some e \<Rightarrow> Inl e | None \<Rightarrow> Inr (),
        shutdown_executor (m\<lparr>am_closed := True, am_closings := am_closings m + 1\<rparr>)))"

definition am_aexit :: "pyexn option \<Rightarrow> async_master \<Rightarrow> unit result \<times> async_master" where
  "am_aexit raised m = am_close raised m"

section \<open>Lemmas\<close>

subsection \<open>One subscription\<close>

text \<open>The frames in a queue, and those whose callbacks are still to run.\<close>

fun queued :: "queue_item list \<Rightarrow> FrameNotification list" where
  "queued [] = []"
| "queued (Note n # q) = n # queued q"
| "queued (Sentinel # q) = queued q"

fun scheduled :: "callback list \<Rightarrow> FrameNotification list" where
  "scheduled [] = []"
| "scheduled (Enqueue n # cbs) = n # scheduled cbs"
| "scheduled (CloseQueue # cbs) = scheduled cbs"

lemma queued_append [simp]: "queued (p @ q) = queued p @ queued q"
  by (induction p rule: queued.induct) simp_all

lemma scheduled_append [simp]: "scheduled (p @ q) = scheduled p @ scheduled q"
  by (induction p rule: scheduled.induct) simp_all

definition to_come :: "subscription \<Rightarrow> FrameNotification list" where
  "to_come s = filter (matches s) (scheduled (sub_callbacks s))"

text \<open>How often the end is still to be announced: by the callback of \<open>close\<close>, or by the item it puts in the queue.\<close>

definition closings :: "subscription \<Rightarrow> nat" where
  "closings s = count_list (sub_callbacks s) CloseQueue + count_list (sub_queue s) Sentinel"

text \<open>
  The invariant of a subscription that was given the frames \<open>p\<close> and has handed on \<open>t\<close>. Nothing is doubled or
  out of order; while it is open and its queue is not bounded, nothing is lost.
\<close>

definition sub_inv :: "subscription \<Rightarrow> FrameNotification list \<Rightarrow> FrameNotification list \<Rightarrow> bool" where
  "sub_inv s p t \<longleftrightarrow>
     subseq (t @ queued (sub_queue s) @ to_come s) (filter (matches s) p)
     \<and> (\<not> sub_closed s \<and> sub_maxsize s \<le> 0 \<longrightarrow> t @ queued (sub_queue s) @ to_come s = filter (matches s) p)
     \<and> (0 < sub_maxsize s \<longrightarrow> int (length (sub_queue s)) \<le> sub_maxsize s)
     \<and> closings s \<le> (if sub_closed s then 1 else 0)"

lemma sub_inv_new: "sub_inv (new_subscription cs m) [] []"
  by (simp add: sub_inv_def new_subscription_def to_come_def closings_def)

lemma matches_update [simp]:
  "matches (s\<lparr>sub_queue := q\<rparr>) = matches s" "matches (s\<lparr>sub_callbacks := c\<rparr>) = matches s" "matches (s\<lparr>sub_closed := b\<rparr>) = matches s"
  by (simp_all add: matches_def fun_eq_iff)

lemma sub_inv_publish: "sub_inv s p t \<Longrightarrow> sub_inv (publish n s) (p @ [n]) t"
proof -
  assume inv: "sub_inv s p t"
  have come: "to_come (publish n s) = to_come s @ filter (matches s) [n]"
    by (simp add: to_come_def publish_def)
  have "subseq ((t @ queued (sub_queue s) @ to_come s) @ filter (matches s) [n]) (filter (matches s) p @ filter (matches s) [n])"
    using inv unfolding sub_inv_def by (intro list_emb_append_mono) auto
  moreover have "\<not> sub_closed s \<and> sub_maxsize s \<le> 0 \<longrightarrow>
      (t @ queued (sub_queue s) @ to_come s) @ filter (matches s) [n] = filter (matches s) p @ filter (matches s) [n]"
    using inv by (simp add: sub_inv_def)
  moreover have "matches (publish n s) = matches s" "sub_queue (publish n s) = sub_queue s" "sub_closed (publish n s) = sub_closed s"
    "sub_maxsize (publish n s) = sub_maxsize s" "closings (publish n s) = closings s"
    by (simp_all add: publish_def closings_def)
  ultimately show ?thesis
    using inv unfolding sub_inv_def come by simp
qed

lemma subseq_drop_middle: "subseq (a @ x # b) c \<Longrightarrow> subseq (a @ b) c"
proof -
  have "subseq (a @ b) (a @ x # b)" by (intro list_emb_append_mono) auto
  then show "subseq (a @ x # b) c \<Longrightarrow> subseq (a @ b) c" by (rule subseq_order.trans)
qed

lemma queued_tl: "subseq (queued (tl q)) (queued q)"
  by (cases q rule: queued.cases) auto

lemma sub_inv_run_callback:
  assumes inv: "sub_inv s p t"
  shows "sub_inv (run_callback s) p t"
proof (cases "sub_callbacks s")
  case Nil
  with inv show ?thesis by (simp add: run_callback_def)
next
  case (Cons cb cbs)
  show ?thesis
  proof (cases cb)
    case (Enqueue n)
    let ?s = "s\<lparr>sub_callbacks := cbs\<rparr>"
    have run: "run_callback s = enqueue n ?s" using Cons Enqueue by (simp add: run_callback_def)
    have come: "to_come s = filter (matches s) [n] @ to_come ?s" using Cons Enqueue by (simp add: to_come_def)
    have closings: "closings s = closings ?s" using Cons Enqueue by (simp add: closings_def)
    have drop: "subseq (t @ queued (sub_queue s) @ to_come ?s) (filter (matches s) p)"
      using inv unfolding sub_inv_def come
      by (metis append.assoc append_Nil filter.simps subseq_drop_middle append_Cons)
    show ?thesis
    proof (cases "sub_closed s \<or> \<not> matches s n \<or> queue_full s")
      case True
      then have "enqueue n ?s = ?s" by (auto simp: enqueue_def queue_full_def)
      moreover have "\<not> sub_closed s \<and> sub_maxsize s \<le> 0 \<longrightarrow> t @ queued (sub_queue s) @ to_come ?s = filter (matches s) p"
        using inv True unfolding sub_inv_def come by (auto simp: queue_full_def)
      ultimately show ?thesis using drop inv closings unfolding run sub_inv_def by simp
    next
      case False
      then have enq: "enqueue n ?s = ?s\<lparr>sub_queue := sub_queue s @ [Note n]\<rparr>" by (auto simp: enqueue_def queue_full_def)
      have "to_come (?s\<lparr>sub_queue := sub_queue s @ [Note n]\<rparr>) = to_come ?s" by (simp add: to_come_def)
      then show ?thesis
        using inv False closings unfolding run enq sub_inv_def come
        by (auto simp: closings_def queue_full_def)
    qed
  next
    case CloseQueue
    let ?s = "s\<lparr>sub_callbacks := cbs\<rparr>"
    let ?q = "if queue_full s then tl (sub_queue s) else sub_queue s"
    have run: "run_callback s = ?s\<lparr>sub_queue := ?q @ [Sentinel]\<rparr>"
      using Cons CloseQueue by (simp add: run_callback_def close_queue_def queue_full_def)
    have come: "to_come (?s\<lparr>sub_queue := ?q @ [Sentinel]\<rparr>) = to_come s" using Cons CloseQueue by (simp add: to_come_def)
    have count: "closings s = Suc (count_list cbs CloseQueue + count_list (sub_queue s) Sentinel)"
      using Cons CloseQueue by (simp add: closings_def)
    then have closed: "sub_closed s" and one: "count_list cbs CloseQueue = 0" "count_list (sub_queue s) Sentinel = 0"
      using inv by (auto simp: sub_inv_def split: if_splits)
    have "count_list ?q Sentinel = 0" using one(2) by (cases "sub_queue s") (auto split: if_splits)
    then have "closings (?s\<lparr>sub_queue := ?q @ [Sentinel]\<rparr>) = 1" using one(1) by (simp add: closings_def count_list_append)
    moreover have "subseq (t @ queued (?q @ [Sentinel]) @ to_come s) (filter (matches s) p)"
    proof -
      have "subseq (queued ?q) (queued (sub_queue s))" using queued_tl by simp
      then have "subseq (t @ queued ?q @ to_come s) (t @ queued (sub_queue s) @ to_come s)"
        by (intro list_emb_append_mono) auto
      moreover have "subseq (t @ queued (sub_queue s) @ to_come s) (filter (matches s) p)" using inv by (simp add: sub_inv_def)
      ultimately have "subseq (t @ queued ?q @ to_come s) (filter (matches s) p)" by (rule subseq_order.trans)
      then show ?thesis by simp
    qed
    moreover have "0 < sub_maxsize s \<longrightarrow> int (length (?q @ [Sentinel])) \<le> sub_maxsize s"
      using inv by (auto simp: sub_inv_def queue_full_def)
    ultimately show ?thesis unfolding run sub_inv_def come using closed by simp
  qed
qed

lemma sub_inv_resume:
  assumes "sub_inv s p t" and "resume_get s = (r, s')"
  shows "case r of Item n \<Rightarrow> sub_inv s' p (t @ [n]) | _ \<Rightarrow> sub_inv s' p t"
proof -
  have come: "to_come (s\<lparr>sub_queue := q\<rparr>) = to_come s" for q by (simp add: to_come_def)
  show ?thesis
    using assms by (cases "sub_queue s" rule: queued.cases)
      (auto simp: resume_get_def sub_inv_def come closings_def split: if_splits)
qed

lemma sub_inv_close: "sub_inv s p t \<Longrightarrow> \<not> sub_closed s \<Longrightarrow> sub_inv (mark_closed s) p t"
  by (auto simp: sub_inv_def mark_closed_def closings_def to_come_def count_list_append)

subsection \<open>All of them\<close>

definition adapter_inv :: "adapter \<Rightarrow> (nat \<Rightarrow> FrameNotification list) \<Rightarrow> (nat \<Rightarrow> FrameNotification list) \<Rightarrow> bool" where
  "adapter_inv a p t \<longleftrightarrow>
     (\<forall>i < length (subscriptions a). sub_inv (subscriptions a ! i) (p i) (t i))
     \<and> (\<forall>i \<ge> length (subscriptions a). p i = [] \<and> t i = [])
     \<and> distinct (active a) \<and> set (active a) = {i. i < length (subscriptions a) \<and> \<not> sub_closed (subscriptions a ! i)}"

lemma on_subscription_simps [simp]:
  "length (subscriptions (on_subscription i f a)) = length (subscriptions a)"
  "active (on_subscription i f a) = active a" "finalized (on_subscription i f a) = finalized a"
  "i < length (subscriptions a) \<Longrightarrow> subscriptions (on_subscription i f a) ! j
    = (if j = i then f (subscriptions a ! i) else subscriptions a ! j)"
  by (simp_all add: on_subscription_def)

text \<open>A step at subscription \<open>i\<close> that does not close it.\<close>

lemma adapter_inv_on:
  assumes "adapter_inv a p t" and "i < length (subscriptions a)"
    and "sub_inv (f (subscriptions a ! i)) p' t'" and "sub_closed (f (subscriptions a ! i)) = sub_closed (subscriptions a ! i)"
  shows "adapter_inv (on_subscription i f a) (p(i := p')) (t(i := t'))"
  using assms by (auto simp: adapter_inv_def)

lemma adapter_inv_close:
  assumes "adapter_inv a p t" and "i < length (subscriptions a)"
  shows "adapter_inv (close_subscription i a) p t \<and> length (subscriptions (close_subscription i a)) = length (subscriptions a)"
proof (cases "sub_closed (subscriptions a ! i)")
  case False
  have "sub_closed (mark_closed s)" for s by (simp add: mark_closed_def)
  with assms False sub_inv_close [of "subscriptions a ! i" "p i" "t i"] show ?thesis
    by (auto simp: close_subscription_def adapter_inv_def on_subscription_def nth_list_update)
qed (use assms in \<open>simp add: close_subscription_def\<close>)

lemma adapter_inv_close_all:
  "adapter_inv a p t \<Longrightarrow> \<forall>i \<in> set is. i < length (subscriptions a) \<Longrightarrow>
    adapter_inv (fold close_subscription is a) p t \<and> length (subscriptions (fold close_subscription is a)) = length (subscriptions a)"
proof (induction "is" arbitrary: a)
  case (Cons i "is")
  from adapter_inv_close [OF Cons.prems(1), of i] Cons.prems(2)
  have "adapter_inv (close_subscription i a) p t" "length (subscriptions (close_subscription i a)) = length (subscriptions a)" by simp_all
  with Cons.IH [of "close_subscription i a"] Cons.prems(2) show ?case by simp
qed simp

definition world_inv :: "world \<Rightarrow> bool" where
  "world_inv w \<longleftrightarrow> adapter_inv (ad w) (published w) (taken w)
     \<and> (\<forall>n is. publishing w = Some (n, is) \<longrightarrow> (\<forall>i \<in> set is. i < length (subscriptions (ad w))))"

lemma run_callback_closed: "sub_closed (run_callback s) = sub_closed s"
  by (auto simp: run_callback_def enqueue_def close_queue_def split: list.split callback.split)

lemma resume_get_closed: "resume_get s = (r, s') \<Longrightarrow> sub_closed s' = sub_closed s"
  by (auto simp: resume_get_def split: list.splits queue_item.splits)

lemma get_resumes: "get s = (r, s') \<Longrightarrow> r \<noteq> Waits \<Longrightarrow> resume_get s = (r, s') \<or> r = ClosedError \<and> s' = s"
  by (auto simp: get_def split: if_splits)

lemma world_inv_hand_on:
  assumes inv: "world_inv w" and i: "i < length (subscriptions (ad w))"
    and res: "resume_get (subscriptions (ad w) ! i) = (r, s) \<or> r = ClosedError \<and> s = subscriptions (ad w) ! i"
  shows "world_inv (hand_on i r (w\<lparr>ad := on_subscription i (\<lambda>_. s) (ad w), waiting := x\<rparr>))"
proof -
  let ?s = "subscriptions (ad w) ! i"
  have sub: "sub_inv ?s (published w i) (taken w i)" using inv i by (simp add: world_inv_def adapter_inv_def)
  have closed: "sub_closed s = sub_closed ?s" using res resume_get_closed by auto
  have "sub_inv s (published w i) (case r of Item n \<Rightarrow> taken w i @ [n] | _ \<Rightarrow> taken w i)"
    using res sub_inv_resume [OF sub] sub by (cases r) (auto split: get_result.splits)
  with adapter_inv_on [of "ad w" "published w" "taken w" i "\<lambda>_. s"] inv i closed
  have "adapter_inv (on_subscription i (\<lambda>_. s) (ad w)) (published w) ((taken w)(i := case r of Item n \<Rightarrow> taken w i @ [n] | _ \<Rightarrow> taken w i))"
    by (fastforce simp: world_inv_def)
  with inv show ?thesis by (cases r) (auto simp: world_inv_def hand_on_def)
qed

lemma world_inv_step: "async_step w w' \<Longrightarrow> world_inv w \<Longrightarrow> world_inv w'"
proof (induction rule: async_step.induct)
  case (Subscribe cs m w i a)
  let ?n = "length (subscriptions (ad w))"
  have a: "a = (ad w)\<lparr>subscriptions := subscriptions (ad w) @ [new_subscription cs m], active := active (ad w) @ [?n]\<rparr>"
    using Subscribe.hyps by (auto simp: subscribe_def split: if_splits)
  have "\<not> sub_closed (new_subscription cs m)" by (simp add: new_subscription_def)
  with Subscribe.prems have "adapter_inv a (published w) (taken w)"
    by (auto simp: world_inv_def adapter_inv_def a nth_append sub_inv_new less_Suc_eq)
  with Subscribe.prems show ?case by (fastforce simp: world_inv_def a)
next
  case (Feed w n "is" a)
  then have "is = active (ad w)" "adapter_inv a (published w) (taken w)" "subscriptions a = subscriptions (ad w)"
    by (auto simp: feed_delegate_def world_inv_def adapter_inv_def)
  with Feed show ?case by (auto simp: world_inv_def adapter_inv_def)
next
  case (FeedRaises w e n a)
  then show ?case by (auto simp: feed_delegate_def world_inv_def adapter_inv_def)
next
  case (Publish w n i "is")
  then have i: "i < length (subscriptions (ad w))" and "adapter_inv (ad w) (published w) (taken w)" by (auto simp: world_inv_def)
  then have "sub_inv (publish n (subscriptions (ad w) ! i)) (published w i @ [n]) (taken w i)"
    by (auto simp: adapter_inv_def intro: sub_inv_publish)
  with adapter_inv_on [of "ad w" "published w" "taken w" i "publish n" "published w i @ [n]" "taken w i"] Publish i show ?case
    by (auto simp: world_inv_def publish_def)
next
  case (Published w n)
  then show ?case by (simp add: world_inv_def)
next
  case (RunCallback i w)
  then have "sub_inv (run_callback (subscriptions (ad w) ! i)) (published w i) (taken w i)"
    by (auto simp: world_inv_def adapter_inv_def intro: sub_inv_run_callback)
  with adapter_inv_on [of "ad w" "published w" "taken w" i run_callback "published w i" "taken w i"] RunCallback show ?case
    by (auto simp: world_inv_def run_callback_closed)
next
  case (GetNow i w r s)
  from world_inv_hand_on [OF GetNow.prems GetNow.hyps(1) get_resumes [OF GetNow.hyps(2,3)], of "waiting w"] show ?case by simp
next
  case (GetWaits i w s)
  then show ?case by (simp add: world_inv_def)
next
  case (GetResumes i w r s)
  from world_inv_hand_on [OF GetResumes.prems GetResumes.hyps(1), of r s] GetResumes.hyps(3) show ?case by simp
next
  case (Close i w)
  with adapter_inv_close [of "ad w" "published w" "taken w" i] show ?case by (auto simp: world_inv_def)
next
  case (Finalize e w r a)
  have inv: "adapter_inv ((ad w)\<lparr>finalized := True\<rparr>) (published w) (taken w)"
    and act: "\<forall>i \<in> set (active (ad w)). i < length (subscriptions ((ad w)\<lparr>finalized := True\<rparr>))"
    using Finalize.prems by (auto simp: world_inv_def adapter_inv_def)
  from adapter_inv_close_all [OF inv act] Finalize show ?case
    by (auto simp: adapter_finalize_def world_inv_def split: if_splits)
qed

lemma world_inv_reachable: "async_reachable w \<Longrightarrow> world_inv w"
proof (induction rule: async_reachable.induct)
  case Start
  show ?case by (simp add: world_inv_def adapter_inv_def new_world_def new_adapter_def)
next
  case (Step w w')
  then show ?case using world_inv_step by blast
qed

subsection \<open>After the end\<close>

text \<open>The end of subscription \<open>i\<close> has been announced and taken: nothing is in its queue or will be.\<close>

definition ended :: "nat \<Rightarrow> world \<Rightarrow> bool" where
  "ended i w \<longleftrightarrow> i < length (subscriptions (ad w)) \<and> sub_closed (subscriptions (ad w) ! i)
     \<and> CloseQueue \<notin> set (sub_callbacks (subscriptions (ad w) ! i)) \<and> sub_queue (subscriptions (ad w) ! i) = []"

definition sub_ended :: "subscription \<Rightarrow> bool" where
  "sub_ended s \<longleftrightarrow> sub_closed s \<and> CloseQueue \<notin> set (sub_callbacks s) \<and> sub_queue s = []"

lemma ended_iff: "ended i w \<longleftrightarrow> i < length (subscriptions (ad w)) \<and> sub_ended (subscriptions (ad w) ! i)"
  by (auto simp: ended_def sub_ended_def)

lemma sub_ended_simps:
  "sub_ended s \<Longrightarrow> sub_ended (publish n s)"
  "sub_ended s \<Longrightarrow> sub_ended (run_callback s)"
  "sub_ended s \<Longrightarrow> get s = (ClosedError, s)"
  "sub_ended s \<Longrightarrow> resume_get s = (Waits, s)"
  by (auto simp: sub_ended_def publish_def run_callback_def enqueue_def get_def resume_get_def split: list.split callback.split)

lemma close_ended:
  "sub_ended (subscriptions a ! j) \<Longrightarrow> j < length (subscriptions a) \<Longrightarrow>
    sub_ended (subscriptions (close_subscription i a) ! j) \<and> j < length (subscriptions (close_subscription i a))"
  by (cases "i = j") (auto simp: close_subscription_def on_subscription_def sub_ended_def)

lemma close_all_ended:
  "sub_ended (subscriptions a ! j) \<Longrightarrow> j < length (subscriptions a) \<Longrightarrow>
    sub_ended (subscriptions (fold close_subscription is a) ! j) \<and> j < length (subscriptions (fold close_subscription is a))"
proof (induction "is" arbitrary: a)
  case (Cons i "is")
  from close_ended [OF Cons.prems, of i] Cons.IH [of "close_subscription i a"] show ?case by simp
qed simp

lemma ended_step: "async_step w w' \<Longrightarrow> ended i w \<Longrightarrow> ended i w' \<and> taken w' i = taken w i \<and> waiting w i \<le> waiting w' i"
proof (induction rule: async_step.induct)
  case (Subscribe cs m w j a)
  then show ?case by (auto simp: ended_iff subscribe_def nth_append split: if_splits)
next
  case (Feed w n "is" a)
  then show ?case by (auto simp: ended_iff feed_delegate_def)
next
  case (FeedRaises w e n a)
  then show ?case by (auto simp: ended_iff feed_delegate_def)
next
  case (Publish w n j "is")
  then show ?case
    by (cases "j < length (subscriptions (ad w))") (auto simp: ended_iff sub_ended_simps, auto simp: on_subscription_def)
next
  case (RunCallback j w)
  then show ?case by (auto simp: ended_iff sub_ended_simps)
next
  case (GetNow j w r s)
  then show ?case by (cases "j = i") (auto simp: ended_iff sub_ended_simps hand_on_def split: get_result.splits)
next
  case (GetResumes j w r s)
  then show ?case by (cases "j = i") (auto simp: ended_iff sub_ended_simps hand_on_def split: get_result.splits)
next
  case (Close j w)
  then show ?case by (auto simp: ended_iff dest: close_ended)
next
  case (Finalize e w r a)
  then show ?case
    using close_all_ended [of "(ad w)\<lparr>finalized := True\<rparr>" i "active (ad w)"]
    by (auto simp: ended_iff adapter_finalize_def split: if_splits)
qed (auto simp: ended_iff)

section \<open>Properties\<close>


lemmas async_defs = new_world_def new_adapter_def subscribe_def new_subscription_def feed_delegate_def on_subscription_def
  publish_def run_callback_def enqueue_def matches_def queue_full_def get_def resume_get_def hand_on_def
  close_subscription_def mark_closed_def close_queue_def




text \<open>The master is closed once, whatever is called how often, and an executor of its own is shut down with it.\<close>

theorem async_master_closes_once:
  assumes "new_async_master source c p f executor_given = Inr m" and "ops \<noteq> []" and "set ops \<subseteq> {am_close r |r. True} \<union> {am_aexit r |r. True}"
  shows "am_closings (fold (\<lambda>f m. snd (f m)) ops m) = 1
    \<and> am_executor_shutdown (fold (\<lambda>f m. snd (f m)) ops m) = (\<not> executor_given)"
proof -
  have later: "am_closed x \<Longrightarrow> am_executor_shutdown x = am_owns_executor x \<Longrightarrow> f \<in> {am_close r |r. True} \<union> {am_aexit r |r. True} \<Longrightarrow> snd (f x) = x" for f x
    by (auto simp: am_close_def am_aexit_def shutdown_executor_def)
  have all: "am_closed x \<Longrightarrow> am_executor_shutdown x = am_owns_executor x \<Longrightarrow> set fs \<subseteq> {am_close r |r. True} \<union> {am_aexit r |r. True} \<Longrightarrow>
      fold (\<lambda>f m. snd (f m)) fs x = x" for fs x
    by (induction fs) (auto simp: later)
  obtain f fs where ops: "ops = f # fs" using assms(2) by (cases ops) auto
  have m: "m = \<lparr>am_owns_executor = \<not> executor_given, am_executor_shutdown = False, am_closed = False, am_closings = 0\<rparr>"
    using assms(1) by (auto simp: new_async_master_def split: if_splits)
  have "snd (f m) = \<lparr>am_owns_executor = \<not> executor_given, am_executor_shutdown = \<not> executor_given, am_closed = True, am_closings = 1\<rparr>"
    using assms(3) ops m by (auto simp: am_close_def am_aexit_def shutdown_executor_def)
  then show ?thesis using all [of "snd (f m)" fs] assms(3) ops by simp
qed

end
