(* ===== verification/Daq_Recording.thy ===== *)
theory Daq_Recording
  imports Daq_Setup Complex_Main
begin

text \<open>
  The rest of \<open>pyxcp/daq_stim/__init__.py\<close>: \<open>load_daq_lists_from_json\<close>, which checks a configuration and makes
  DAQ lists of it, and the policy \<open>DaqToCsv\<close> with \<open>start\<close> and \<open>stop\<close> of \<open>DaqProcessor\<close>. JSON has been parsed
  by the standard library. The file system and the slave are parameters: what an operation on them
  raises. Of a file it is kept which rows were written to it; the text of a number is not modelled, nor are log messages.
\<close>

section \<open>Model\<close>

subsection \<open>DAQ lists from JSON\<close>

text \<open>A float is its value, \<open>None\<close> for an infinity or a NaN. The keys of an object are pairwise different.\<close>

datatype json = JNull | JBool bool | JInt int | JFloat "rat option" | JStr string | JList "json list" | JObj "(string \<times> json) list"

text \<open>\<open>int(text)\<close> of ASCII text: blanks around it, a sign, digits with single underscores between them.\<close>

definition is_blank :: "char \<Rightarrow> bool" where
  "is_blank c \<longleftrightarrow> (let n = of_char c :: nat in 9 \<le> n \<and> n \<le> 13 \<or> 28 \<le> n \<and> n \<le> 32)"

definition strip :: "string \<Rightarrow> string" where
  "strip s = rev (dropWhile is_blank (rev (dropWhile is_blank s)))"

fun digits_value :: "string \<Rightarrow> int \<Rightarrow> bool \<Rightarrow> int option" where
  "digits_value [] acc digit = (if digit then Some acc else None)"
| "digits_value (c # cs) acc digit =
     (let n = of_char c :: int
      in if 48 \<le> n \<and> n \<le> 57 then digits_value cs (10 * acc + (n - 48)) True
         else if n = 95 \<and> digit then digits_value cs acc False
         else None)"

definition int_of_text :: "string \<Rightarrow> int option" where
  "int_of_text s =
     (case strip s of
        [] \<Rightarrow> None
      | c # cs \<Rightarrow>
          if c = CHR ''-'' then map_option uminus (digits_value cs 0 False)
          else if c = CHR ''+'' then digits_value cs 0 False
          else digits_value (c # cs) 0 False)"

text \<open>\<open>int(v)\<close>, \<open>None\<close> if it raises, and \<open>bool(v)\<close>.\<close>

definition py_int :: "json \<Rightarrow> int option" where
  "py_int v =
     (case v of
        JBool b \<Rightarrow> Some (if b then 1 else 0)
      | JInt i \<Rightarrow> Some i
      | JFloat (Some x) \<Rightarrow> Some (if 0 \<le> x then \<lfloor>x\<rfloor> else \<lceil>x\<rceil>)
      | JStr s \<Rightarrow> int_of_text s
      | _ \<Rightarrow> None)"

definition py_bool :: "json \<Rightarrow> bool" where
  "py_bool v =
     (case v of
        JNull \<Rightarrow> False
      | JBool b \<Rightarrow> b
      | JInt i \<Rightarrow> i \<noteq> 0
      | JFloat x \<Rightarrow> x \<noteq> Some 0
      | JStr s \<Rightarrow> s \<noteq> []
      | JList l \<Rightarrow> l \<noteq> []
      | JObj l \<Rightarrow> l \<noteq> [])"

text \<open>
  The C++ classes: the length of a measurement comes from its data type, in any case; the 16-bit formats
  exist only if the compiler has them. The address extension is given with 16 bits and cut to 8.
\<close>

definition TYPE_MAP :: "bool \<Rightarrow> bool \<Rightarrow> (string \<times> int) list" where
  "TYPE_MAP float16 bfloat16 =
     [(''U8'', 1), (''I8'', 1), (''U16'', 2), (''I16'', 2), (''U32'', 4), (''I32'', 4), (''U64'', 8), (''I64'', 8),
      (''F32'', 4), (''F64'', 8)] @ (if float16 then [(''F16'', 2)] else []) @ (if bfloat16 then [(''BF16'', 2)] else [])"

definition new_McObject :: "(string \<times> int) list \<Rightarrow> int \<Rightarrow> int \<Rightarrow> string \<Rightarrow> McObject result" where
  "new_McObject types addr x data_type =
     (if data_type = '''' then Inr (McObject addr x 0 [])
      else case map_of types (toupper data_type) of
             None \<Rightarrow> Inl RuntimeError
           | Some len \<Rightarrow> Inr (McObject addr x len []))"

type_synonym measurement_spec = "string \<times> int \<times> int \<times> string"

text \<open>A loaded list: its name, what \<open>setup\<close> uses of it, and the names and types of its measurements.\<close>

type_synonym named_list = "string \<times> daq_list \<times> (string \<times> string) list"

definition new_DaqList ::
  "(string \<times> int) list \<Rightarrow> string \<Rightarrow> int \<Rightarrow> bool \<Rightarrow> bool \<Rightarrow> measurement_spec list \<Rightarrow> int \<Rightarrow> int \<Rightarrow> named_list result" where
  "new_DaqList types name event stimulation timestamps specs prio scale =
     (if \<not> (0 \<le> event \<and> event < 65536 \<and> 0 \<le> prio \<and> prio < 256 \<and> 0 \<le> scale \<and> scale < 256
          \<and> list_all (\<lambda>(n, a, x, t). 0 \<le> a \<and> a < 4294967296 \<and> 0 \<le> x \<and> x < 65536) specs) then Inl TypeError
      else
        rbind (rmap (\<lambda>(n, a, x, t). new_McObject types a (x mod 256) t) specs) (\<lambda>objects.
        Inr (name, \<lparr>predefined = False, event_num = event, stim = stimulation, enable_timestamps = timestamps,
          priority = prio, prescaler = scale, measurements = objects, measurements_opt = [], packed_mode = 0,
          packed_ts_mode = 0, packed_sample_count = 1\<rparr>, map (\<lambda>(n, a, x, t). (n, t)) specs)))"

definition int_field :: "json \<Rightarrow> int result" where
  "int_field v = (case py_int v of None \<Rightarrow> Inl TypeError | Some i \<Rightarrow> Inr i)"

definition load_measurement :: "json \<Rightarrow> measurement_spec result" where
  "load_measurement m =
     (case m of
        JList [m_name, m_addr, m_addr_ext, m_type] \<Rightarrow>
          (case m_name of
             JStr name \<Rightarrow>
               rbind (int_field m_addr) (\<lambda>addr.
               rbind (int_field m_addr_ext) (\<lambda>addr_ext.
               case m_type of JStr type \<Rightarrow> Inr (name, addr, addr_ext, type) | _ \<Rightarrow> Inl TypeError))
           | _ \<Rightarrow> Inl TypeError)
      | _ \<Rightarrow> Inl ValueError)"

definition REQUIRED :: "string list" where
  "REQUIRED = [''name'', ''event_num'', ''stim'', ''enable_timestamps'', ''measurements'', ''priority'', ''prescaler'']"

definition load_entry :: "(string \<times> int) list \<Rightarrow> json \<Rightarrow> named_list result" where
  "load_entry types entry =
     (case entry of
        JObj items \<Rightarrow>
          if \<exists>key \<in> set REQUIRED. map_of items key = None then Inl ValueError
          else
            (let field = (\<lambda>key. the (map_of items key))
             in case field ''name'' of
                  JStr name \<Rightarrow>
                    rbind (int_field (field ''event_num'')) (\<lambda>event.
                    rbind (int_field (field ''priority'')) (\<lambda>prio.
                    rbind (int_field (field ''prescaler'')) (\<lambda>scale.
                    case field ''measurements'' of
                      JList raw \<Rightarrow>
                        rbind (rmap load_measurement raw) (\<lambda>specs.
                        new_DaqList types name event (py_bool (field ''stim'')) (py_bool (field ''enable_timestamps'')) specs prio scale)
                    | _ \<Rightarrow> Inl TypeError)))
                | _ \<Rightarrow> Inl TypeError)
      | _ \<Rightarrow> Inl TypeError)"

definition load_daq_lists_from_json :: "(string \<times> int) list \<Rightarrow> json \<Rightarrow> named_list list result" where
  "load_daq_lists_from_json types config =
     (case config of JList es \<Rightarrow> rmap (load_entry types) es | _ \<Rightarrow> Inl ValueError)"

subsection \<open>CSV files\<close>

text \<open>
  The policy: \<open>csv_files\<close> is the attribute \<open>files\<close>, if there is one; \<open>sync_sent\<close> are the modes of the
  START_STOP_SYNCH commands it has sent. A list is its name, whether it is for STIM, and its header. The master
  has a transport with its event, and closing a file does not fail.
\<close>

datatype 'v csv_row = Header "string list" | Row int int "'v list"

record 'v csv_file =
  csv_name :: string
  csv_rows :: "'v csv_row list"
  csv_open :: bool

record 'v csv_policy =
  csv_lists :: "(string \<times> bool \<times> string list) list"
  csv_files :: "(nat \<times> 'v csv_file) list option"
  fatal_os_error :: bool
  close_event_set :: bool
  transport_closed :: bool
  sync_sent :: "int list"

definition new_csv_policy :: "(string \<times> bool \<times> string list) list \<Rightarrow> 'v csv_policy" where
  "new_csv_policy ls = \<lparr>csv_lists = ls, csv_files = None, fatal_os_error = False, close_event_set = False,
     transport_closed = False, sync_sent = []\<rparr>"

definition close_files :: "(nat \<times> 'v csv_file) list \<Rightarrow> (nat \<times> 'v csv_file) list" where
  "close_files = map (\<lambda>(i, f). (i, f\<lparr>csv_open := False\<rparr>))"

definition csv_finalize :: "'v csv_policy \<Rightarrow> 'v csv_policy" where
  "csv_finalize s = (case csv_files s of None \<Rightarrow> s | Some files \<Rightarrow> s\<lparr>csv_files := None\<rparr>)"

text \<open>\<open>opened i\<close>: the exception of opening the file of list \<open>i\<close> or writing its header, if there is one.\<close>

fun open_files :: "(nat \<Rightarrow> pyexn option) \<Rightarrow> nat \<Rightarrow> (string \<times> bool \<times> string list) list \<Rightarrow> unit result \<times> (nat \<times> 'v csv_file) list" where
  "open_files opened num [] = (Inr (), [])"
| "open_files opened num ((name, is_stim, headers) # ls) =
     (if is_stim then open_files opened (Suc num) ls
      else case opened num of
        Some e \<Rightarrow> (Inl e, [])
      | None \<Rightarrow>
          (let (r, files) = open_files opened (Suc num) ls
           in (r, (num, \<lparr>csv_name = name @ ''.csv'', csv_rows = [Header ([''timestamp0'', ''timestamp1''] @ headers)],
                csv_open = True\<rparr>) # files)))"

definition csv_initialize :: "(nat \<Rightarrow> pyexn option) \<Rightarrow> (pyexn, 'v csv_policy, unit) prog" where
  "csv_initialize opened = (\<lambda>s.
     (let s1 = csv_finalize s; (r, files) = open_files opened 0 (csv_lists s1) in (r, s1\<lparr>csv_files := Some files\<rparr>)))"

text \<open>What \<open>write\<close> does: \<open>WriteFails\<close> is an \<open>OSError\<close> or a \<open>MemoryError\<close>. A closed file raises \<open>ValueError\<close>.\<close>

datatype write_outcome = WriteOk | WriteFails | WriteRaises pyexn

definition write_row :: "nat \<Rightarrow> 'v csv_row \<Rightarrow> (nat \<times> 'v csv_file) list \<Rightarrow> (nat \<times> 'v csv_file) list" where
  "write_row num row = map (\<lambda>(i, f). (i, if i = num then f\<lparr>csv_rows := csv_rows f @ [row]\<rparr> else f))"

definition on_daq_list :: "write_outcome \<Rightarrow> nat \<Rightarrow> int \<Rightarrow> int \<Rightarrow> 'v list \<Rightarrow> (pyexn, 'v csv_policy, unit) prog" where
  "on_daq_list outcome num timestamp0 timestamp1 payload = (\<lambda>s.
     if fatal_os_error s then (Inr (), s)
     else case csv_files s of
       None \<Rightarrow> (Inl AttributeError, s)
     | Some files \<Rightarrow>
         (case map_of files num of
            None \<Rightarrow> (Inl KeyError, s)
          | Some f \<Rightarrow>
              if \<not> csv_open f then (Inl ValueError, s)
              else case outcome of
                WriteOk \<Rightarrow> (Inr (), s\<lparr>csv_files := Some (write_row num (Row timestamp0 timestamp1 payload) files)\<rparr>)
              | WriteFails \<Rightarrow>
                  (Inr (), s\<lparr>fatal_os_error := True, close_event_set := True, csv_files := Some (close_files files)\<rparr>)
              | WriteRaises e \<Rightarrow> (Inl e, s)))"

text \<open>\<open>start\<close> and \<open>stop\<close>; \<open>raised\<close> is the exception of the command, if it raises one.\<close>

definition daq_start :: "pyexn option \<Rightarrow> (pyexn, 'v csv_policy, unit) prog" where
  "daq_start raised = (\<lambda>s. (case raised of Some e \<Rightarrow> Inl e | None \<Rightarrow> Inr (), s\<lparr>sync_sent := sync_sent s @ [1]\<rparr>))"

definition daq_stop :: "pyexn option \<Rightarrow> (pyexn, 'v csv_policy, unit) prog" where
  "daq_stop raised = (\<lambda>s.
     if fatal_os_error s then (Inr (), s\<lparr>close_event_set := True, transport_closed := True\<rparr>)
     else (case raised of Some e \<Rightarrow> Inl e | None \<Rightarrow> Inr (), s\<lparr>sync_sent := sync_sent s @ [0]\<rparr>))"

section \<open>Lemmas\<close>

subsection \<open>Loading\<close>

text \<open>The JSON of a list, as a user would write it.\<close>

definition measurement_json :: "measurement_spec \<Rightarrow> json" where
  "measurement_json = (\<lambda>(n, a, x, t). JList [JStr n, JInt a, JInt x, JStr t])"

record list_spec =
  spec_name :: string
  spec_event :: int
  spec_stim :: bool
  spec_timestamps :: bool
  spec_measurements :: "measurement_spec list"
  spec_priority :: int
  spec_prescaler :: int

definition spec_json :: "list_spec \<Rightarrow> json" where
  "spec_json d = JObj [(''name'', JStr (spec_name d)), (''event_num'', JInt (spec_event d)), (''stim'', JBool (spec_stim d)),
     (''enable_timestamps'', JBool (spec_timestamps d)),
     (''measurements'', JList (map measurement_json (spec_measurements d))), (''priority'', JInt (spec_priority d)),
     (''prescaler'', JInt (spec_prescaler d))]"

definition spec_list :: "(string \<times> int) list \<Rightarrow> list_spec \<Rightarrow> named_list result" where
  "spec_list types d = new_DaqList types (spec_name d) (spec_event d) (spec_stim d) (spec_timestamps d) (spec_measurements d)
     (spec_priority d) (spec_prescaler d)"

lemma load_measurement_json: "load_measurement (measurement_json m) = Inr m"
  by (cases m) (simp add: measurement_json_def load_measurement_def int_field_def py_int_def)

lemma load_measurements_json: "rmap load_measurement (map measurement_json ms) = Inr ms"
  by (induction ms) (simp_all add: load_measurement_json)

lemma load_entry_json: "load_entry types (spec_json d) = spec_list types d"
  by (simp add: spec_json_def load_entry_def REQUIRED_def int_field_def py_int_def py_bool_def load_measurements_json spec_list_def)

text \<open>An operation that raises nothing but \<open>E\<close>.\<close>

definition raises :: "pyexn set \<Rightarrow> 'a result \<Rightarrow> bool" where
  "raises E r \<longleftrightarrow> (\<forall>e. r = Inl e \<longrightarrow> e \<in> E)"

lemma raises_basic [simp, intro]: "raises E (Inr x)" "e \<in> E \<Longrightarrow> raises E (Inl e)"
  by (simp_all add: raises_def)

lemma raises_bind [intro]: "raises E m \<Longrightarrow> (\<And>x. raises E (f x)) \<Longrightarrow> raises E (rbind m f)"
  by (cases m) (auto simp: raises_def)

lemma raises_map [intro]: "(\<And>x. raises E (f x)) \<Longrightarrow> raises E (rmap f xs)"
  by (induction xs) auto

lemma raises_int_field [intro]: "TypeError \<in> E \<Longrightarrow> raises E (int_field v)"
  by (auto simp: int_field_def split: option.split)

lemma raises_load_measurement [intro]: "{ValueError, TypeError} \<subseteq> E \<Longrightarrow> raises E (load_measurement m)"
  unfolding load_measurement_def by (auto split: json.split list.split intro!: raises_bind raises_int_field)

lemma raises_new_McObject [intro]: "RuntimeError \<in> E \<Longrightarrow> raises E (new_McObject types a x t)"
  by (auto simp: new_McObject_def split: option.split)

lemma raises_new_DaqList [intro]: "{TypeError, RuntimeError} \<subseteq> E \<Longrightarrow> raises E (new_DaqList types n ev st ts specs p q)"
  by (auto simp: new_DaqList_def intro!: raises_bind raises_map raises_new_McObject split: prod.split)

lemma raises_load_entry [intro]: "{ValueError, TypeError, RuntimeError} \<subseteq> E \<Longrightarrow> raises E (load_entry types entry)"
  unfolding load_entry_def Let_def
  by (auto split: json.split intro!: raises_bind raises_map raises_int_field raises_load_measurement raises_new_DaqList)

subsection \<open>The CSV policy\<close>

text \<open>The rows of the file of a list, without its header.\<close>

definition file_rows :: "nat \<Rightarrow> 'v csv_policy \<Rightarrow> 'v csv_row list" where
  "file_rows num s = (case csv_files s of None \<Rightarrow> [] | Some files \<Rightarrow> (case map_of files num of None \<Rightarrow> [] | Some f \<Rightarrow> tl (csv_rows f)))"

datatype 'v csv_event = Initialize "nat \<Rightarrow> pyexn option" | DaqData write_outcome nat int int "'v list" | Finalize
  | StartDaq "pyexn option" | StopDaq "pyexn option"

fun csv_event_step :: "'v csv_event \<Rightarrow> 'v csv_policy \<Rightarrow> 'v csv_policy" where
  "csv_event_step (Initialize opened) s = snd (csv_initialize opened s)"
| "csv_event_step (DaqData outcome num t0 t1 payload) s = snd (on_daq_list outcome num t0 t1 payload s)"
| "csv_event_step Finalize s = csv_finalize s"
| "csv_event_step (StartDaq raised) s = snd (daq_start raised s)"
| "csv_event_step (StopDaq raised) s = snd (daq_stop raised s)"

definition csv_run :: "'v csv_event list \<Rightarrow> 'v csv_policy \<Rightarrow> 'v csv_policy" where
  "csv_run es s = fold csv_event_step es s"

text \<open>
  After a fatal error: every row that a file has was there before, the listener has been told to end, and the only
  commands are starts.
\<close>

definition rows_of :: "'v csv_policy \<Rightarrow> 'v csv_row set" where
  "rows_of s = (case csv_files s of None \<Rightarrow> {} | Some files \<Rightarrow> \<Union> ((\<lambda>(i, f). {r \<in> set (csv_rows f). \<exists>a b v. r = Row a b v}) ` set files))"

lemma open_files_rows: "(i, f) \<in> set (snd (open_files opened num ls)) \<Longrightarrow> \<exists>h. csv_rows f = [Header h]"
proof (induction opened num ls rule: open_files.induct)
  case (2 opened num name is_stim headers ls)
  then show ?case by (auto split: if_splits option.splits prod.splits)
qed simp

lemma fatal_step:
  fixes s :: "'v csv_policy"
  assumes "fatal_os_error s" and "close_event_set s"
  shows "fatal_os_error (csv_event_step e s) \<and> close_event_set (csv_event_step e s) \<and> rows_of (csv_event_step e s) \<subseteq> rows_of s
    \<and> (\<exists>n. sync_sent (csv_event_step e s) = sync_sent s @ replicate n 1)"
proof (cases e)
  case (Initialize opened)
  obtain r and files :: "(nat \<times> 'v csv_file) list" where files: "open_files opened 0 (csv_lists (csv_finalize s)) = (r, files)" by fastforce
  have "\<exists>h. csv_rows f = [Header h]" if "(i, f) \<in> set files" for i f
    using open_files_rows [of i f opened 0 "csv_lists (csv_finalize s)"] files that by simp
  then have "\<forall>(i, f) \<in> set files. \<exists>h. csv_rows f = [Header h]" by auto
  then have "rows_of (csv_event_step e s) = {}"
    using files by (auto simp: Initialize csv_initialize_def rows_of_def Let_def)
  moreover have "fatal_os_error (csv_finalize s)" "close_event_set (csv_finalize s)" "sync_sent (csv_finalize s) = sync_sent s"
    using assms by (auto simp: csv_finalize_def split: option.split)
  ultimately show ?thesis using files by (auto simp: Initialize csv_initialize_def Let_def intro: exI [of _ 0])
next
  case Finalize
  then show ?thesis using assms by (auto simp: csv_finalize_def rows_of_def split: option.split intro: exI [of _ 0])
next
  case (StartDaq raised)
  then show ?thesis using assms by (auto simp: daq_start_def rows_of_def intro: exI [of _ 1])
qed (use assms in \<open>auto simp: on_daq_list_def daq_stop_def rows_of_def intro: exI [of _ 0]\<close>)

lemma fatal_run:
  assumes "fatal_os_error s" and "close_event_set s"
  shows "fatal_os_error (csv_run es s) \<and> close_event_set (csv_run es s) \<and> rows_of (csv_run es s) \<subseteq> rows_of s
    \<and> (\<exists>n. sync_sent (csv_run es s) = sync_sent s @ replicate n 1)"
  using assms
proof (induction es arbitrary: s)
  case Nil
  then show ?case by (auto simp: csv_run_def intro: exI [of _ 0])
next
  case (Cons e es)
  obtain n where step: "fatal_os_error (csv_event_step e s)" "close_event_set (csv_event_step e s)"
    "rows_of (csv_event_step e s) \<subseteq> rows_of s" "sync_sent (csv_event_step e s) = sync_sent s @ replicate n 1"
    using fatal_step [OF Cons.prems, of e] by blast
  obtain m where "fatal_os_error (csv_run es (csv_event_step e s))" "close_event_set (csv_run es (csv_event_step e s))"
    "rows_of (csv_run es (csv_event_step e s)) \<subseteq> rows_of (csv_event_step e s)"
    "sync_sent (csv_run es (csv_event_step e s)) = sync_sent (csv_event_step e s) @ replicate m 1"
    using Cons.IH [OF step(1,2)] by blast
  with step show ?case by (auto simp: csv_run_def replicate_add [symmetric] intro!: exI [of _ "n + m"])
qed


text \<open>Files that all open: one per list that is not for STIM, with its header.\<close>

lemma open_files_all:
  "fst (open_files (\<lambda>_. None) num ls) = Inr ()"
  "map_of (snd (open_files (\<lambda>_. None) num ls)) i =
    (if num \<le> i \<and> i < num + length ls \<and> \<not> fst (snd (ls ! (i - num)))
     then Some \<lparr>csv_name = fst (ls ! (i - num)) @ ''.csv'',
       csv_rows = [Header ([''timestamp0'', ''timestamp1''] @ snd (snd (ls ! (i - num))))], csv_open = True\<rparr>
     else None)"
proof (induction "\<lambda>_ :: nat. None :: pyexn option" num ls rule: open_files.induct)
  case (2 num name is_stim headers ls)
  {
    case 1
    from 2 show ?case by (auto split: prod.split)
  next
    case 2
    from "2.hyps" show ?case
      by (cases "i = num") (auto split: prod.split simp: nth_Cons' Suc_diff_Suc less_Suc_eq_le)
  }
qed simp_all

lemma map_of_write_row:
  "map_of (write_row num row files) i = map_option (\<lambda>f. if i = num then f\<lparr>csv_rows := csv_rows f @ [row]\<rparr> else f) (map_of files i)"
  by (induction files) (auto simp: write_row_def)

text \<open>Data for list \<open>i\<close>, among those of all lists.\<close>

definition rows_for :: "nat \<Rightarrow> (nat \<times> int \<times> int \<times> 'v list) list \<Rightarrow> 'v csv_row list" where
  "rows_for i data = [Row a b v. (j, a, b, v) \<leftarrow> data, j = i]"

definition data_events :: "(nat \<times> int \<times> int \<times> 'v list) list \<Rightarrow> 'v csv_event list" where
  "data_events = map (\<lambda>(j, a, b, v). DaqData WriteOk j a b v)"

lemma csv_run_data:
  assumes "\<not> fatal_os_error s" and "csv_files s = Some files"
    and "\<forall>(j, a, b, v) \<in> set data. \<exists>f. map_of files j = Some f \<and> csv_open f"
  shows "\<exists>files'. csv_files (csv_run (data_events data) s) = Some files'
    \<and> (\<forall>i. map_of files' i = map_option (\<lambda>f. f\<lparr>csv_rows := csv_rows f @ rows_for i data\<rparr>) (map_of files i))"
  using assms
proof (induction data arbitrary: s files)
  case Nil
  then show ?case by (auto simp: csv_run_def data_events_def rows_for_def option.map_ident)
next
  case (Cons d data)
  obtain j a b v where d: "d = (j, a, b, v)" by (cases d)
  with Cons.prems(3) obtain f where f: "map_of files j = Some f" "csv_open f" by auto
  let ?s = "csv_event_step (DaqData WriteOk j a b v) s" and ?files = "write_row j (Row a b v) files"
  have step: "\<not> fatal_os_error ?s" "csv_files ?s = Some ?files"
    using Cons.prems(1,2) f by (auto simp: on_daq_list_def)
  have "\<exists>g. map_of ?files k = Some g \<and> csv_open g" if "(k, x) \<in> set data" for k x
  proof -
    obtain g where "map_of files k = Some g" "csv_open g" using Cons.prems(3) \<open>(k, x) \<in> set data\<close> by fastforce
    then show ?thesis by (auto simp: map_of_write_row)
  qed
  then have "\<forall>(j, a, b, v) \<in> set data. \<exists>f. map_of ?files j = Some f \<and> csv_open f" by auto
  from Cons.IH [OF step this] obtain files' where files': "csv_files (csv_run (data_events data) ?s) = Some files'"
    "\<And>i. map_of files' i = map_option (\<lambda>f. f\<lparr>csv_rows := csv_rows f @ rows_for i data\<rparr>) (map_of ?files i)" by blast
  have "csv_run (data_events (d # data)) s = csv_run (data_events data) ?s" by (simp add: csv_run_def data_events_def d)
  moreover have "map_of files' i = map_option (\<lambda>f. f\<lparr>csv_rows := csv_rows f @ rows_for i (d # data)\<rparr>) (map_of files i)" for i
    unfolding files'(2) map_of_write_row by (cases "map_of files i") (auto simp: rows_for_def d)
  ultimately show ?case using files'(1) by auto
qed

section \<open>Properties\<close>

definition valid_spec :: "(string \<times> int) list \<Rightarrow> list_spec \<Rightarrow> bool" where
  "valid_spec types d \<longleftrightarrow> 0 \<le> spec_event d \<and> spec_event d < 65536 \<and> 0 \<le> spec_priority d \<and> spec_priority d < 256
     \<and> 0 \<le> spec_prescaler d \<and> spec_prescaler d < 256
     \<and> list_all (\<lambda>(n, a, x, t). 0 \<le> a \<and> a < 4294967296 \<and> 0 \<le> x \<and> x < 65536 \<and> t \<noteq> [] \<and> map_of types (toupper t) \<noteq> None)
         (spec_measurements d)"

definition loaded :: "(string \<times> int) list \<Rightarrow> list_spec \<Rightarrow> named_list" where
  "loaded types d = (spec_name d, \<lparr>predefined = False, event_num = spec_event d, stim = spec_stim d,
     enable_timestamps = spec_timestamps d, priority = spec_priority d, prescaler = spec_prescaler d,
     measurements = map (\<lambda>(n, a, x, t). McObject a (x mod 256) (the (map_of types (toupper t))) []) (spec_measurements d),
     measurements_opt = [], packed_mode = 0, packed_ts_mode = 0, packed_sample_count = 1\<rparr>,
     map (\<lambda>(n, a, x, t). (n, t)) (spec_measurements d))"

lemma spec_list_valid: "valid_spec types d \<Longrightarrow> spec_list types d = Inr (loaded types d)"
proof -
  assume valid: "valid_spec types d"
  have "rmap (\<lambda>(n, a, x, t). new_McObject types a (x mod 256) t) (spec_measurements d)
      = Inr (map (\<lambda>(n, a, x, t). McObject a (x mod 256) (the (map_of types (toupper t))) []) (spec_measurements d))"
    using valid by (intro rmap_total) (auto simp: valid_spec_def new_McObject_def list_all_iff)
  moreover have "list_all (\<lambda>(n, a, x, t). 0 \<le> a \<and> a < 4294967296 \<and> 0 \<le> x \<and> x < 65536) (spec_measurements d)"
    using valid by (auto simp: valid_spec_def list_all_iff)
  ultimately show ?thesis
    using valid by (simp add: spec_list_def new_DaqList_def loaded_def valid_spec_def)
qed

text \<open>
  A configuration whose numbers fit and whose types exist is loaded completely and in order, the lengths of the
  measurements taken from their types and the address extensions cut to 8 bits; whatever else the
  configuration is, loading it returns or raises ValueError, TypeError or RuntimeError.
\<close>

theorem load_daq_lists:
  "(list_all (valid_spec types) ds \<longrightarrow>
      load_daq_lists_from_json types (JList (map spec_json ds)) = Inr (map (loaded types) ds))
   \<and> raises {ValueError, TypeError, RuntimeError} (load_daq_lists_from_json types config)"
proof (intro conjI impI)
  assume "list_all (valid_spec types) ds"
  then have "rmap (load_entry types) (map spec_json ds) = Inr (map (loaded types) ds)"
    by (induction ds) (simp_all add: load_entry_json spec_list_valid)
  then show "load_daq_lists_from_json types (JList (map spec_json ds)) = Inr (map (loaded types) ds)"
    by (simp add: load_daq_lists_from_json_def)
qed (auto simp: load_daq_lists_from_json_def split: json.split)

theorem load_daq_lists_witness:
  "load_daq_lists_from_json (TYPE_MAP False False)
      (JList [spec_json \<lparr>spec_name = ''engine'', spec_event = 1, spec_stim = False, spec_timestamps = True,
         spec_measurements = [(''speed'', 0x1000, 0x102, ''u16'')], spec_priority = 0, spec_prescaler = 1\<rparr>])
    = Inr [(''engine'', \<lparr>predefined = False, event_num = 1, stim = False, enable_timestamps = True, priority = 0,
        prescaler = 1, measurements = [McObject 0x1000 2 2 []], measurements_opt = [], packed_mode = 0, packed_ts_mode = 0,
        packed_sample_count = 1\<rparr>, [(''speed'', ''u16'')])]"
proof -
  have up: "toupper ''u16'' = ''U16''" by code_simp
  let ?d = "\<lparr>spec_name = ''engine'', spec_event = 1, spec_stim = False, spec_timestamps = True,
         spec_measurements = [(''speed'', 0x1000, 0x102, ''u16'')], spec_priority = 0, spec_prescaler = 1\<rparr>"
  have "list_all (valid_spec (TYPE_MAP False False)) [?d]" by (simp add: valid_spec_def TYPE_MAP_def up)
  with load_daq_lists [of "TYPE_MAP False False" "[?d]" JNull] show ?thesis
    by (simp add: loaded_def TYPE_MAP_def up)
qed

text \<open>
  After \<open>initialize\<close>, every list that is not for STIM has a file with its header, and the data delivered end up, in
  order and each once, in the files of their lists.
\<close>

theorem csv_rows_in_order:
  assumes "\<not> fatal_os_error s" and "\<forall>(j, a, b, v) \<in> set data. j < length (csv_lists s) \<and> \<not> fst (snd (csv_lists s ! j))"
    and "i < length (csv_lists s)" and "csv_lists s ! i = (name, False, headers)"
  shows "\<exists>files. csv_files (csv_run (Initialize (\<lambda>_. None) # data_events data) s) = Some files
    \<and> map_of files i = Some \<lparr>csv_name = name @ ''.csv'',
        csv_rows = Header ([''timestamp0'', ''timestamp1''] @ headers) # rows_for i data, csv_open = True\<rparr>"
proof -
  let ?s = "csv_event_step (Initialize (\<lambda>_. None)) s"
  obtain r and files :: "(nat \<times> 'a csv_file) list" where files: "open_files (\<lambda>_. None) 0 (csv_lists s) = (r, files)" by fastforce
  have "csv_lists (csv_finalize s) = csv_lists s" "fatal_os_error (csv_finalize s) = fatal_os_error s"
    by (simp_all add: csv_finalize_def split: option.split)
  then have init: "\<not> fatal_os_error ?s" "csv_files ?s = Some files"
    using assms(1) files by (simp_all add: csv_initialize_def Let_def)
  have opened: "map_of files j = (if j < length (csv_lists s) \<and> \<not> fst (snd (csv_lists s ! j))
     then Some \<lparr>csv_name = fst (csv_lists s ! j) @ ''.csv'',
       csv_rows = [Header ([''timestamp0'', ''timestamp1''] @ snd (snd (csv_lists s ! j)))], csv_open = True\<rparr>
     else None)" for j
  proof -
    have "map_of files j = map_of (snd (open_files (\<lambda>_. None) 0 (csv_lists s))) j" by (simp add: files)
    then show ?thesis unfolding open_files_all(2) by simp
  qed
  have "\<forall>(j, a, b, v) \<in> set data. \<exists>f. map_of files j = Some f \<and> csv_open f"
    using assms(2) by (force simp: opened)
  from csv_run_data [OF init this] obtain files' where "csv_files (csv_run (data_events data) ?s) = Some files'"
    "map_of files' i = map_option (\<lambda>f. f\<lparr>csv_rows := csv_rows f @ rows_for i data\<rparr>) (map_of files i)" by blast
  then show ?thesis using assms(3,4) by (auto simp: csv_run_def opened)
qed

theorem csv_rows_in_order_witness:
  "\<exists>files. csv_files (csv_run (Initialize (\<lambda>_. None) # data_events [(0, 1, 2, [7]), (2, 3, 4, [8]), (0, 5, 6, [9 :: int])])
      (new_csv_policy [(''a'', False, [''x'']), (''b'', True, []), (''c'', False, [''y''])])) = Some files
    \<and> map_of files 0 = Some \<lparr>csv_name = ''a.csv'',
        csv_rows = [Header [''timestamp0'', ''timestamp1'', ''x''], Row 1 2 [7], Row 5 6 [9]], csv_open = True\<rparr>"
  using csv_rows_in_order [of "new_csv_policy [(''a'', False, [''x'']), (''b'', True, []), (''c'', False, [''y''])]"
      "[(0, 1, 2, [7]), (2, 3, 4, [8]), (0, 5, 6, [9 :: int])]" 0 "''a''" "[''x'']"]
  by (simp add: new_csv_policy_def rows_for_def)

text \<open>
  C37. When writing a row fails for lack of space or memory, the policy does not raise, closes its files and stops the
  listener. Whatever happens after that, with this object: no row of data is written any more, not even after another
  \<open>initialize\<close>, and START_STOP_SYNCH is never sent to stop the slave.
\<close>

theorem csv_after_fatal_error:
  assumes "csv_files s = Some files" and "map_of files num = Some f" and "csv_open f" and "\<not> fatal_os_error s"
  shows "\<exists>s'. on_daq_list WriteFails num t0 t1 payload s = (Inr (), s')
    \<and> (\<forall>(i, g) \<in> set (the (csv_files s')). \<not> csv_open g)
    \<and> (\<forall>es. close_event_set (csv_run es s') \<and> rows_of (csv_run es s') \<subseteq> rows_of s
        \<and> (\<exists>n. sync_sent (csv_run es s') = sync_sent s @ replicate n 1))"
proof -
  let ?s = "s\<lparr>fatal_os_error := True, close_event_set := True, csv_files := Some (close_files files)\<rparr>"
  have "rows_of ?s = rows_of s" using assms(1) by (auto simp: rows_of_def close_files_def)
  moreover have "on_daq_list WriteFails num t0 t1 payload s = (Inr (), ?s)" using assms by (simp add: on_daq_list_def)
  moreover have "\<forall>(i, g) \<in> set (close_files files). \<not> csv_open g" by (auto simp: close_files_def)
  ultimately show ?thesis using fatal_run [of ?s] by (intro exI [of _ ?s]) auto
qed

theorem csv_after_fatal_error_witness:
  "\<exists>s s'. on_daq_list WriteFails 0 1 2 [7 :: int] s = (Inr (), s') \<and> \<not> fatal_os_error s
    \<and> (\<forall>es. close_event_set (csv_run es s') \<and> rows_of (csv_run es s') \<subseteq> {Row 0 0 [5]} \<and> 0 \<notin> set (sync_sent (csv_run es s')))"
proof -
  let ?f = "\<lparr>csv_name = ''a.csv'', csv_rows = [Header [''timestamp0'', ''timestamp1'', ''x''], Row 0 0 [5 :: int]], csv_open = True\<rparr>"
  let ?s = "(new_csv_policy [(''a'', False, [''x''])])\<lparr>csv_files := Some [(0, ?f)], sync_sent := [1]\<rparr>"
  have "rows_of ?s = {Row 0 0 [5]}" by (auto simp: rows_of_def)
  moreover obtain s' where s': "on_daq_list WriteFails 0 1 2 [7] ?s = (Inr (), s')"
    "\<And>es. close_event_set (csv_run es s') \<and> rows_of (csv_run es s') \<subseteq> rows_of ?s
        \<and> (\<exists>n. sync_sent (csv_run es s') = sync_sent ?s @ replicate n 1)"
    using csv_after_fatal_error [of ?s "[(0, ?f)]" 0 ?f 1 2 "[7]"] by (auto simp: new_csv_policy_def)
  moreover have "0 \<notin> set (sync_sent (csv_run es s'))" for es
  proof -
    obtain n where "sync_sent (csv_run es s') = [1] @ replicate n 1" using s'(2) [of es] by auto
    then show ?thesis by simp
  qed
  ultimately show ?thesis by (intro exI [of _ ?s] exI [of _ s']) (simp add: new_csv_policy_def)
qed

end
