(* ===== verification/Can_Interfaces.thy ===== *)
theory Can_Interfaces
  imports Xcp_Types "HOL-Library.AList"
begin

text \<open>
  The CAN interfaces of \<open>pyxcp/config/__init__.py\<close>: what each driver class declares, the settings of the class
  \<open>Can\<close>, and from \<open>pyxcp/transport/can.py\<close> \<open>get_interface_parameters\<close>, which makes the arguments of a
  python-can bus of them, and the two calls they are passed to. The declarations are \<open>traitlets\<close>; what that package does
  with them (checking values, reading a configuration) is not modelled. Warnings are left out.
\<close>

section \<open>Model\<close>

subsection \<open>Declarations\<close>

text \<open>A value; Python's \<open>None\<close> is \<open>None\<close>. A float is the word of its bytes, an object is a python-can one.\<close>

datatype setting = SBool bool | SInt int | SFloat "64 word" | SText string | SInts "int list" | SObject nat
  | SDict "(string \<times> setting option) list"

datatype trait_kind = TInteger "int option" "int option" | TBool | TFloat | TUnicode | TEnum "setting list"
  | TInstance string | TDict | TAny | TIntegers | TTiming

text \<open>A trait has a name, a type (for an integer with its bounds) and a default.\<close>

type_synonym trait = "string \<times> trait_kind \<times> setting option"

record can_interface_class =
  interface_name :: string
  has_fd :: bool
  has_bitrate :: bool
  has_data_bitrate :: bool
  has_poll_interval :: bool
  has_receive_own_messages :: bool
  has_timing :: bool
  CAN_PARAM_MAP :: "(string \<times> string option) list"
  own_traits :: "trait list"

definition OPTIONAL_BASE_PARAMS :: "string list" where
  "OPTIONAL_BASE_PARAMS = [''has_fd'', ''has_bitrate'', ''has_data_bitrate'', ''has_poll_interval'',
     ''has_receive_own_messages'', ''has_timing'']"

definition CanBase :: can_interface_class where
  "CanBase = \<lparr>interface_name = '''', has_fd = False, has_bitrate = True, has_data_bitrate = False,
     has_poll_interval = False, has_receive_own_messages = False, has_timing = False,
     CAN_PARAM_MAP = [(''sjw_abr'', None), (''tseg1_abr'', None), (''tseg2_abr'', None), (''sjw_dbr'', None),
       (''tseg1_dbr'', None), (''tseg2_dbr'', None)],
     own_traits = []\<rparr>"

definition CanAlystii :: can_interface_class where
  "CanAlystii = CanBase\<lparr>interface_name := ''canalystii'', has_timing := True,
    own_traits := [(''device'', TInteger None None, None), (''rx_queue_size'', TInteger None None, None)]\<rparr>"

definition CanTact :: can_interface_class where
  "CanTact = CanBase\<lparr>interface_name := ''cantact'', has_poll_interval := True, has_timing := True,
    own_traits := [(''monitor'', TBool, Some (SBool False))]\<rparr>"

definition Etas :: can_interface_class where
  "Etas = CanBase\<lparr>interface_name := ''etas'', has_fd := True, has_data_bitrate := True,
      has_receive_own_messages := True\<rparr>"

definition Gs_Usb :: can_interface_class where
  "Gs_Usb = CanBase\<lparr>interface_name := ''gs_usb'',
    own_traits := [(''index'', TInteger None None, None), (''bus'', TInteger None None, None),
      (''address'', TInteger None None, None)]\<rparr>"

definition Neovi :: can_interface_class where
  "Neovi = CanBase\<lparr>interface_name := ''neovi'', has_fd := True, has_data_bitrate := True,
      has_receive_own_messages := True,
    own_traits := [(''use_system_timestamp'', TBool, None), (''serial'', TUnicode, None),
      (''override_library_name'', TUnicode, None)]\<rparr>"

definition IsCan :: can_interface_class where
  "IsCan = CanBase\<lparr>interface_name := ''iscan'', has_poll_interval := True\<rparr>"

definition Ixxat :: can_interface_class where
  "Ixxat = CanBase\<lparr>interface_name := ''ixxat'', has_fd := True, has_data_bitrate := True,
      has_receive_own_messages := True,
    CAN_PARAM_MAP := [(''sjw_abr'', Some ''sjw_abr''), (''tseg1_abr'', Some ''tseg1_abr''),
      (''tseg2_abr'', Some ''tseg2_abr''), (''sjw_dbr'', Some ''sjw_dbr''), (''tseg1_dbr'', Some ''tseg1_dbr''),
      (''tseg2_dbr'', Some ''tseg2_dbr'')],
    own_traits := [(''unique_hardware_id'', TInteger None None, None), (''extended'', TBool, None),
      (''rx_fifo_size'', TInteger None None, None), (''tx_fifo_size'', TInteger None None, None),
      (''ssp_dbr'', TInteger None None, None)]\<rparr>"

definition Kvaser :: can_interface_class where
  "Kvaser = CanBase\<lparr>interface_name := ''kvaser'', has_fd := True, has_data_bitrate := True,
      has_receive_own_messages := True,
    CAN_PARAM_MAP := [(''sjw_abr'', Some ''sjw''), (''tseg1_abr'', Some ''tseg1''), (''tseg2_abr'', Some ''tseg2'')],
    own_traits := [(''accept_virtual'', TBool, None), (''no_samp'', TEnum [SInt 1, SInt 3], None),
      (''driver_mode'', TBool, None), (''single_handle'', TBool, Some (SBool True))]\<rparr>"

definition NeouSys :: can_interface_class where
  "NeouSys = CanBase\<lparr>interface_name := ''neousys'',
    own_traits := [(''device'', TInteger None None, None)]\<rparr>"

definition NiCan :: can_interface_class where
  "NiCan = CanBase\<lparr>interface_name := ''nican'',
    own_traits := [(''log_errors'', TBool, None)]\<rparr>"

definition NixNet :: can_interface_class where
  "NixNet = CanBase\<lparr>interface_name := ''nixnet'', has_poll_interval := True, has_receive_own_messages := True,
      has_timing := True, has_fd := True,
    CAN_PARAM_MAP := [(''data_bitrate'', Some ''fd_bitrate'')],
    own_traits := [(''can_termination'', TBool, None)]\<rparr>"

definition PCan :: can_interface_class where
  "PCan = CanBase\<lparr>interface_name := ''pcan'', has_fd := True, has_timing := True,
    CAN_PARAM_MAP := [(''sjw_abr'', Some ''nom_sjw''), (''tseg1_abr'', Some ''nom_tseg1''),
      (''tseg2_abr'', Some ''nom_tseg2''), (''sjw_dbr'', Some ''data_sjw''), (''tseg1_dbr'', Some ''data_tseg1''),
      (''tseg2_dbr'', Some ''data_tseg2'')],
    own_traits := [(''device_id'', TInteger None None, None), (''state'', TInstance ''can.BusState'', None),
      (''f_clock'', TEnum [SInt 20000000, SInt 24000000, SInt 30000000, SInt 40000000, SInt 60000000, SInt 80000000],
      None), (''f_clock_mhz'', TEnum [SInt 20, SInt 24, SInt 30, SInt 40, SInt 60, SInt 80], None),
      (''nom_brp'', TInteger (Some 1) (Some 1024), None), (''data_brp'', TInteger (Some 1) (Some 1024), None),
      (''auto_reset'', TBool, None)]\<rparr>"

definition Robotell :: can_interface_class where
  "Robotell = CanBase\<lparr>interface_name := ''robotell'',
    own_traits := [(''ttyBaudrate'', TInteger None None, None), (''rtscts'', TBool, None)]\<rparr>"

definition SeeedStudio :: can_interface_class where
  "SeeedStudio = CanBase\<lparr>interface_name := ''seeedstudio'',
    own_traits := [(''timeout'', TFloat, None), (''baudrate'', TInteger None None, None),
      (''frame_type'', TEnum [SText ''STD'', SText ''EXT''], None),
      (''operation_mode'', TEnum [SText ''normal'', SText ''loopback'', SText ''silent'',
      SText ''loopback_and_silent''], None)]\<rparr>"

definition Serial :: can_interface_class where
  "Serial = CanBase\<lparr>interface_name := ''serial'', has_bitrate := False,
    own_traits := [(''rtscts'', TBool, None), (''timeout'', TFloat, None),
      (''baudrate'', TInteger None None, None)]\<rparr>"

definition SlCan :: can_interface_class where
  "SlCan = CanBase\<lparr>interface_name := ''slcan'', has_poll_interval := True,
    own_traits := [(''ttyBaudrate'', TInteger None None, None), (''rtscts'', TBool, None),
      (''timeout'', TFloat, None), (''btr'', TInteger None None, None), (''sleep_after_open'', TFloat, None)]\<rparr>"

definition SocketCan :: can_interface_class where
  "SocketCan = CanBase\<lparr>interface_name := ''socketcan'', has_fd := True, has_bitrate := False,
      has_receive_own_messages := True,
    own_traits := [(''local_loopback'', TBool, None)]\<rparr>"

definition SocketCanD :: can_interface_class where
  "SocketCanD = CanBase\<lparr>interface_name := ''socketcand'', has_bitrate := False,
    own_traits := [(''host'', TUnicode, None), (''port'', TInteger None None, None)]\<rparr>"

definition Systec :: can_interface_class where
  "Systec = CanBase\<lparr>interface_name := ''systec'', has_receive_own_messages := True,
    own_traits := [(''state'', TInstance ''can.BusState'', None),
      (''device_number'', TInteger (Some 0) (Some 254), None), (''rx_buffer_entries'', TInteger None None, None),
      (''tx_buffer_entries'', TInteger None None, None)]\<rparr>"

definition Udp_Multicast :: can_interface_class where
  "Udp_Multicast = CanBase\<lparr>interface_name := ''udp_multicast'', has_fd := True, has_bitrate := False,
      has_receive_own_messages := True,
    own_traits := [(''port'', TInteger None None, None), (''hop_limit'', TInteger None None, None)]\<rparr>"

definition Usb2Can :: can_interface_class where
  "Usb2Can = CanBase\<lparr>interface_name := ''usb2can'',
    own_traits := [(''flags'', TInteger None None, None), (''dll'', TUnicode, None),
      (''serial'', TUnicode, None)]\<rparr>"

definition Vector :: can_interface_class where
  "Vector = CanBase\<lparr>interface_name := ''vector'', has_fd := True, has_data_bitrate := True,
      has_poll_interval := True, has_receive_own_messages := True, has_timing := True,
    CAN_PARAM_MAP := [(''sjw_abr'', Some ''sjw_abr''), (''tseg1_abr'', Some ''tseg1_abr''),
      (''tseg2_abr'', Some ''tseg2_abr''), (''sjw_dbr'', Some ''sjw_dbr''), (''tseg1_dbr'', Some ''tseg1_dbr''),
      (''tseg2_dbr'', Some ''tseg2_dbr'')],
    own_traits := [(''serial'', TInteger None None, None), (''rx_queue_size'', TInteger (Some 16) (Some 32768), None),
      (''app_name'', TUnicode, None)]\<rparr>"

definition CanCustom :: can_interface_class where
  "CanCustom = CanBase\<lparr>interface_name := ''custom'', has_fd := True, has_data_bitrate := True,
      has_poll_interval := True, has_receive_own_messages := True, has_timing := True,
    own_traits := [(''extra_params'', TDict, Some (SDict []))]\<rparr>"

definition Virtual :: can_interface_class where
  "Virtual = CanBase\<lparr>interface_name := ''virtual'', has_bitrate := False, has_receive_own_messages := True,
    own_traits := [(''rx_queue_size'', TInteger None None, None), (''preserve_timestamps'', TBool, None)]\<rparr>"

definition CAN_INTERFACE_MAP :: "(string \<times> can_interface_class) list" where
  "CAN_INTERFACE_MAP =
     [(''canalystii'', CanAlystii), (''cantact'', CanTact), (''etas'', Etas), (''gs_usb'', Gs_Usb), (''iscan'', IsCan),
      (''ixxat'', Ixxat), (''kvaser'', Kvaser), (''neousys'', NeouSys), (''neovi'', Neovi), (''nican'', NiCan),
      (''nixnet'', NixNet), (''pcan'', PCan), (''robotell'', Robotell), (''seeedstudio'', SeeedStudio),
      (''serial'', Serial), (''slcan'', SlCan), (''socketcan'', SocketCan), (''socketcand'', SocketCanD),
      (''systec'', Systec), (''udp_multicast'', Udp_Multicast), (''usb2can'', Usb2Can), (''vector'', Vector),
      (''virtual'', Virtual), (''custom'', CanCustom)]"

subsection \<open>Settings\<close>

text \<open>The object \<open>config.can\<close>: its own attributes, and an object for every interface.\<close>

record can_settings =
  can_attrs :: "(string \<times> setting option) list"
  can_objects :: "(string \<times> (string \<times> setting option) list) list"

definition Can_traits :: "trait list" where
  "Can_traits =
     [(''interface'', TUnicode, None), (''channel'', TAny, None), (''max_dlc_required'', TBool, Some (SBool False)),
      (''padding_value'', TInteger None None, Some (SInt 0)), (''use_default_listener'', TBool, Some (SBool True)),
      (''can_id_master'', TInteger None None, Some (SInt 0)), (''can_id_slave'', TInteger None None, Some (SInt 0)),
      (''can_id_broadcast'', TInteger None None, None), (''daq_identifier'', TIntegers, Some (SInts [])),
      (''pid_off'', TBool, Some (SBool False)), (''bitrate'', TInteger None None, Some (SInt 250000)),
      (''receive_own_messages'', TBool, Some (SBool False)), (''poll_interval'', TFloat, None),
      (''fd'', TBool, Some (SBool False)), (''data_bitrate'', TInteger None None, None),
      (''sjw_abr'', TInteger None None, None), (''tseg1_abr'', TInteger None None, None),
      (''tseg2_abr'', TInteger None None, None), (''sjw_dbr'', TInteger None None, None),
      (''tseg1_dbr'', TInteger None None, None), (''tseg2_dbr'', TInteger None None, None),
      (''timing'', TTiming, None)]"

definition defaults :: "trait list \<Rightarrow> (string \<times> setting option) list" where
  "defaults ts = map (\<lambda>(n, k, d). (n, d)) ts"

definition can_object_classes :: "(string \<times> can_interface_class) list" where
  "can_object_classes =
     [(''canalystii'', CanAlystii), (''cancustom'', CanCustom), (''cantact'', CanTact), (''etas'', Etas),
      (''gs_usb'', Gs_Usb), (''neovi'', Neovi), (''iscan'', IsCan), (''ixxat'', Ixxat), (''kvaser'', Kvaser),
      (''neousys'', NeouSys), (''nican'', NiCan), (''nixnet'', NixNet), (''pcan'', PCan), (''robotell'', Robotell),
      (''seeedstudio'', SeeedStudio), (''serial'', Serial), (''slcan'', SlCan), (''socketcan'', SocketCan),
      (''socketcand'', SocketCanD), (''systec'', Systec), (''udp_multicast'', Udp_Multicast),
      (''usb2can'', Usb2Can), (''vector'', Vector), (''virtual'', Virtual)]"

definition new_can_settings :: can_settings where
  "new_can_settings = \<lparr>can_attrs = defaults Can_traits,
     can_objects = map (\<lambda>(n, c). (n, defaults (own_traits c))) can_object_classes\<rparr>"

text \<open>\<open>Can.__init__\<close>: \<open>valid\<close> are the interfaces of python-can, \<open>plugin\<close> says whether it finds another one.\<close>

definition check_interface :: "string set \<Rightarrow> (string \<Rightarrow> bool) \<Rightarrow> string option \<Rightarrow> string option \<Rightarrow> unit result" where
  "check_interface valid plugin layer interface =
     (if layer = Some ''CAN'' then
        (case interface of
           None \<Rightarrow> Inl TraitError
         | Some i \<Rightarrow> if i \<notin> insert ''custom'' valid \<and> \<not> plugin i then Inl TraitError else Inr ())
      else Inr ())"

subsection \<open>The parameters of a bus\<close>

definition getattr :: "(string \<times> 'a) list \<Rightarrow> string \<Rightarrow> 'a result" where
  "getattr attrs n = (case map_of attrs n of None \<Rightarrow> Inl AttributeError | Some v \<Rightarrow> Inr v)"

definition has_flags :: "can_interface_class \<Rightarrow> (string \<times> bool) list" where
  "has_flags c = [(''has_fd'', has_fd c), (''has_bitrate'', has_bitrate c), (''has_data_bitrate'', has_data_bitrate c),
     (''has_poll_interval'', has_poll_interval c), (''has_receive_own_messages'', has_receive_own_messages c),
     (''has_timing'', has_timing c)]"

type_synonym parameters = "(string \<times> setting option) list"

text \<open>\<open>removeprefix("has_")\<close> cuts four characters off.\<close>

definition base_parameter :: "can_interface_class \<Rightarrow> can_settings \<Rightarrow> string \<Rightarrow> parameters \<Rightarrow> parameters result" where
  "base_parameter c s flag result =
     (let name = drop 4 flag
      in rbind (getattr (has_flags c) flag) (\<lambda>opt.
         rbind (getattr (can_attrs s) name) (\<lambda>v.
         Inr (if opt \<and> v \<noteq> None then AList.update name v result else result))))"

definition mapped_parameter :: "can_settings \<Rightarrow> string \<times> string option \<Rightarrow> parameters \<Rightarrow> parameters result" where
  "mapped_parameter s = (\<lambda>(base_name, name) result.
     rbind (getattr (can_attrs s) base_name) (\<lambda>v.
     Inr (case name of Some n \<Rightarrow> if v \<noteq> None then AList.update n v result else result | None \<Rightarrow> result)))"

definition own_parameter :: "(string \<times> setting option) list \<Rightarrow> string \<Rightarrow> parameters \<Rightarrow> parameters result" where
  "own_parameter cxx name result =
     rbind (getattr cxx name) (\<lambda>v. Inr (if v \<noteq> None then AList.update name v result else result))"

definition extra_of :: "(string \<times> setting option) list \<Rightarrow> parameters result" where
  "extra_of attrs = rbind (getattr attrs ''extra_params'') (\<lambda>v.
     Inr (case v of Some (SDict d) \<Rightarrow> d | _ \<Rightarrow> []))"

definition get_interface_parameters :: "string \<Rightarrow> can_settings \<Rightarrow> parameters result" where
  "get_interface_parameters name s =
     rbind (getattr (can_attrs s) ''channel'') (\<lambda>channel.
     let c = (case map_of CAN_INTERFACE_MAP name of Some c \<Rightarrow> c | None \<Rightarrow> CanCustom) in
     rbind (for_each (base_parameter c s) OPTIONAL_BASE_PARAMS [(''channel'', channel)]) (\<lambda>result.
     rbind (for_each (mapped_parameter s) (CAN_PARAM_MAP c) result) (\<lambda>result.
     if map_of CAN_INTERFACE_MAP name \<noteq> None then
       rbind (getattr (can_objects s) name) (\<lambda>cxx.
       for_each (own_parameter cxx) (map fst (own_traits c)) result)
     else
       rbind (getattr (can_objects s) ''cancustom'') (\<lambda>cancustom.
       rbind (extra_of cancustom) (\<lambda>extra. Inr (fold (\<lambda>(k, v). AList.update k v) extra result))))))"

text \<open>
  The two calls that take the parameters as keywords: of \<open>PythonCanWrapper.__init__\<close> and, when connecting, of the
  driver class. A keyword that is given twice raises \<open>TypeError\<close>. \<open>drivers\<close> are the interfaces python-can has a class for.
\<close>

definition keywords_clash :: "string list \<Rightarrow> parameters \<Rightarrow> bool" where
  "keywords_clash names ps \<longleftrightarrow> (\<exists>n \<in> set names. map_of ps n \<noteq> None)"

definition make_wrapper :: "string set \<Rightarrow> string \<Rightarrow> parameters \<Rightarrow> unit result" where
  "make_wrapper drivers name ps =
     (if keywords_clash [''self'', ''parent'', ''interface_name'', ''timeout''] ps then Inl TypeError
      else if name \<in> drivers then Inr () else Inl CanInitializationError)"

definition bus_arguments :: "parameters \<Rightarrow> parameters result" where
  "bus_arguments ps = (if keywords_clash [''interface'', ''can_filters''] ps then Inl TypeError else Inr ps)"

text \<open>\<open>Can.__init__\<close> without an interface of the user's.\<close>

definition open_interface :: "string set \<Rightarrow> string \<Rightarrow> can_settings \<Rightarrow> parameters result" where
  "open_interface drivers name s =
     rbind (get_interface_parameters name s) (\<lambda>ps. rbind (make_wrapper drivers name ps) (\<lambda>_. Inr ps))"

section \<open>Lemmas\<close>

subsection \<open>Loops that set entries\<close>

text \<open>An entry that is written, if one is.\<close>

definition write_entry :: "('k \<times> 'v) option \<Rightarrow> ('k \<times> 'v) list \<Rightarrow> ('k \<times> 'v) list" where
  "write_entry e r = (case e of None \<Rightarrow> r | Some (k, v) \<Rightarrow> AList.update k v r)"

lemma written_entries:
  "map_of (fold (\<lambda>x. write_entry (w x)) xs r) = map_of r ++ map_of (List.map_filter w (rev xs))"
proof (induction xs arbitrary: r)
  case Nil
  then show ?case by (simp add: List.map_filter_def)
next
  case (Cons x xs)
  have "List.map_filter w (rev xs @ [x]) = List.map_filter w (rev xs) @ (case w x of None \<Rightarrow> [] | Some e \<Rightarrow> [e])"
    by (simp add: List.map_filter_def split: option.split)
  moreover have "map_of (write_entry (w x) r) = map_of r ++ map_of (case w x of None \<Rightarrow> [] | Some e \<Rightarrow> [e])"
    by (simp add: write_entry_def update_conv' split: option.split)
  ultimately show ?case using Cons [of "write_entry (w x) r"] by (simp add: map_add_assoc)
qed

lemma extra_entries: "map_of (fold (\<lambda>(k, v). AList.update k v) es r) = map_of r ++ map_of (rev es)"
proof -
  have "fold (\<lambda>(k, v). AList.update k v) es r = fold (\<lambda>x. write_entry (Some x)) es r"
    by (rule fold_cong) (auto simp: write_entry_def)
  then show ?thesis using written_entries [of Some es r] by (simp add: List.map_filter_def comp_def)
qed

text \<open>The value of an attribute, unless it is \<open>None\<close>.\<close>

definition set_value :: "(string \<times> setting option) list \<Rightarrow> string \<Rightarrow> setting option option" where
  "set_value attrs k = (case map_of attrs k of Some (Some v) \<Rightarrow> Some (Some v) | _ \<Rightarrow> None)"

definition entry_of :: "(string \<times> setting option) list \<Rightarrow> string \<Rightarrow> string \<Rightarrow> (string \<times> setting option) option" where
  "entry_of attrs b n = map_option (Pair n) (set_value attrs b)"

lemma write_entry_of:
  "getattr attrs b = Inr v \<Longrightarrow> (if v \<noteq> None then AList.update n v r else r) = write_entry (entry_of attrs b n) r"
  by (auto simp: getattr_def entry_of_def set_value_def write_entry_def split: option.splits)

lemma map_of_selected:
  "map_of (List.map_filter (\<lambda>x. if P x then entry_of attrs (g x) (g x) else None) xs)
     = (\<lambda>k. if \<exists>x \<in> set xs. P x \<and> g x = k then set_value attrs k else None)"
  by (induction xs) (auto simp: List.map_filter_def entry_of_def fun_eq_iff)

lemma map_of_own:
  "map_of (List.map_filter (\<lambda>n. entry_of attrs n n) ns) = (\<lambda>k. if k \<in> set ns then set_value attrs k else None)"
  using map_of_selected [of "\<lambda>_. True" attrs "\<lambda>n. n" ns] by simp

text \<open>A parameter that another setting is mapped to.\<close>

definition mapped_value :: "(string \<times> string option) list \<Rightarrow> (string \<times> setting option) list \<Rightarrow> string \<Rightarrow> setting option option" where
  "mapped_value ms attrs k = (case List.find (\<lambda>(b, n). n = Some k) ms of None \<Rightarrow> None | Some (b, n) \<Rightarrow> set_value attrs b)"

definition mapped_entry :: "(string \<times> setting option) list \<Rightarrow> string \<times> string option \<Rightarrow> (string \<times> setting option) option" where
  "mapped_entry attrs = (\<lambda>(b, n). case n of None \<Rightarrow> None | Some m \<Rightarrow> entry_of attrs b m)"

lemma not_mapped: "k \<notin> set (List.map_filter snd ms) \<Longrightarrow> List.find (\<lambda>(b, n). n = Some k) ms = None"
  by (force simp: find_None_iff List.map_filter_def)

lemma map_of_mapped:
  "distinct (List.map_filter snd ms) \<Longrightarrow> map_of (List.map_filter (mapped_entry attrs) (rev ms)) = mapped_value ms attrs"
proof (induction ms)
  case Nil
  show ?case by (rule ext) (simp add: mapped_value_def List.map_filter_def)
next
  case (Cons x ms)
  obtain b n where x: "x = (b, n)" by (cases x)
  have app: "List.map_filter f (xs @ ys) = List.map_filter f xs @ List.map_filter f ys" for f :: "_ \<Rightarrow> (string \<times> setting option) option"
    and xs ys :: "(string \<times> string option) list"
    by (simp add: List.map_filter_def)
  show ?case
  proof (cases n)
    case None
    with Cons x show ?thesis
      by (simp add: mapped_value_def mapped_entry_def List.map_filter_def fun_eq_iff)
  next
    case (Some m)
    with Cons.prems x have "m \<notin> set (List.map_filter snd ms)" and "distinct (List.map_filter snd ms)"
      by (simp_all add: List.map_filter_def)
    then have IH: "map_of (List.map_filter (mapped_entry attrs) (rev ms)) = mapped_value ms attrs"
      and "mapped_value ms attrs m = None"
      using Cons.IH by (simp, simp add: mapped_value_def not_mapped)
    have "map_of (List.map_filter (mapped_entry attrs) (rev (x # ms)))
        = map_of (List.map_filter (mapped_entry attrs) [x]) ++ mapped_value ms attrs"
      by (simp add: app IH)
    moreover have "List.map_filter (mapped_entry attrs) [x] = (case entry_of attrs b m of None \<Rightarrow> [] | Some e \<Rightarrow> [e])"
      by (simp add: List.map_filter_def mapped_entry_def x Some split: option.split)
    ultimately show ?thesis
      using \<open>mapped_value ms attrs m = None\<close>
      by (auto simp: x Some mapped_value_def entry_of_def map_add_def fun_eq_iff split: option.splits)
  qed
qed

subsection \<open>The classes of the table\<close>

text \<open>An object of the class \<open>Can\<close>: it has the attributes the classes declare, with any values.\<close>

definition can_object :: "can_settings \<Rightarrow> bool" where
  "can_object s \<longleftrightarrow> map fst (can_attrs s) = map fst Can_traits
     \<and> map (\<lambda>(n, attrs). (n, map fst attrs)) (can_objects s) = map (\<lambda>(n, c). (n, map fst (own_traits c))) can_object_classes"

lemmas interface_classes =
  CanBase_def CanAlystii_def CanTact_def Etas_def Gs_Usb_def Neovi_def IsCan_def Ixxat_def Kvaser_def NeouSys_def NiCan_def
  NixNet_def PCan_def Robotell_def SeeedStudio_def Serial_def SlCan_def SocketCan_def SocketCanD_def Systec_def
  Udp_Multicast_def Usb2Can_def Vector_def CanCustom_def Virtual_def

lemma new_can_settings_object: "can_object new_can_settings"
  by (simp add: can_object_def new_can_settings_def defaults_def case_prod_beta comp_def)

lemma interface_table:
  "\<forall>(n, c) \<in> set CAN_INTERFACE_MAP. distinct (List.map_filter snd (CAN_PARAM_MAP c))
     \<and> fst ` set (CAN_PARAM_MAP c) \<subseteq> set (map fst Can_traits)
     \<and> (n \<noteq> ''custom'' \<longrightarrow> map_of can_object_classes n = Some c)"
  by code_simp

lemma table_class:
  assumes "map_of CAN_INTERFACE_MAP name = Some c"
  shows "distinct (List.map_filter snd (CAN_PARAM_MAP c))" and "fst ` set (CAN_PARAM_MAP c) \<subseteq> set (map fst Can_traits)"
    and "name \<noteq> ''custom'' \<Longrightarrow> map_of can_object_classes name = Some c"
  using bspec [OF interface_table map_of_SomeD [OF assms]] by simp_all

lemma map_of_same_keys: "map fst xs = map fst ys \<Longrightarrow> map_of xs k = None \<longleftrightarrow> map_of ys k = None"
  by (simp add: map_of_eq_None_iff flip: set_map)

lemma map_of_values: "map_of (map (\<lambda>(n, x). (n, f x)) xs) k = map_option f (map_of xs k)"
  by (induction xs) auto

text \<open>An object of \<open>Can\<close> has the attributes \<open>get_interface_parameters\<close> asks for, except \<open>custom\<close>.\<close>

lemma can_object_attr: "can_object s \<Longrightarrow> n \<in> set (map fst Can_traits) \<Longrightarrow> \<exists>v. getattr (can_attrs s) n = Inr v"
  using map_of_same_keys [of "can_attrs s" Can_traits n]
  by (auto simp: can_object_def getattr_def map_of_eq_None_iff split: option.splits)

lemma can_object_names:
  assumes "can_object s"
  shows "map_option (map fst) (map_of (can_objects s) n) = map_option (\<lambda>c. map fst (own_traits c)) (map_of can_object_classes n)"
proof -
  have "map_of (map (\<lambda>(n, attrs). (n, map fst attrs)) (can_objects s)) n
      = map_of (map (\<lambda>(n, c). (n, map fst (own_traits c))) can_object_classes) n"
    using assms by (simp only: can_object_def)
  then show ?thesis by (simp only: map_of_values)
qed

lemma can_object_own:
  assumes "can_object s" and "map_of can_object_classes n = Some c"
  obtains attrs where "getattr (can_objects s) n = Inr attrs" and "map_of (can_objects s) n = Some attrs"
    and "map fst attrs = map fst (own_traits c)"
proof -
  from can_object_names [OF assms(1), of n] assms(2) obtain attrs where "map_of (can_objects s) n = Some attrs" "map fst attrs = map fst (own_traits c)" by auto
  then show thesis by (intro that [of attrs]) (simp_all add: getattr_def)
qed

lemma can_object_custom:
  assumes "can_object s"
  shows "getattr (can_objects s) ''custom'' = Inl AttributeError"
proof -
  have "map_of can_object_classes ''custom'' = None" by (simp add: can_object_classes_def)
  with can_object_names [OF assms, of "''custom''"] show ?thesis by (simp add: getattr_def)
qed

text \<open>What the three loops write.\<close>

definition base_value :: "can_interface_class \<Rightarrow> (string \<times> setting option) list \<Rightarrow> string \<Rightarrow> setting option option" where
  "base_value c attrs k = (if map_of (has_flags c) (''has_'' @ k) = Some True then set_value attrs k else None)"

lemma selected_flags:
  "(\<exists>x \<in> set OPTIONAL_BASE_PARAMS. the (map_of (has_flags c) x) \<and> drop 4 x = k) \<longleftrightarrow> map_of (has_flags c) (''has_'' @ k) = Some True"
  by (auto simp: OPTIONAL_BASE_PARAMS_def has_flags_def)

lemma base_loop:
  assumes "can_object s"
  shows "\<exists>ps. for_each (base_parameter c s) OPTIONAL_BASE_PARAMS r = Inr ps \<and> map_of ps = map_of r ++ base_value c (can_attrs s)"
proof -
  let ?w = "\<lambda>flag. if the (map_of (has_flags c) flag) then entry_of (can_attrs s) (drop 4 flag) (drop 4 flag) else None"
  have "for_each (base_parameter c s) OPTIONAL_BASE_PARAMS r = Inr (fold (\<lambda>x. write_entry (?w x)) OPTIONAL_BASE_PARAMS r)"
  proof (rule for_each_total)
    fix x r assume x: "x \<in> set OPTIONAL_BASE_PARAMS"
    then obtain v where v: "getattr (can_attrs s) (drop 4 x) = Inr v"
      using can_object_attr [OF assms, of "drop 4 x"] by (auto simp: OPTIONAL_BASE_PARAMS_def Can_traits_def)
    obtain opt where "getattr (has_flags c) x = Inr opt" "map_of (has_flags c) x = Some opt"
      using x by (auto simp: OPTIONAL_BASE_PARAMS_def has_flags_def getattr_def)
    with v write_entry_of [OF v, of "drop 4 x" r] show "base_parameter c s x r = Inr (write_entry (?w x) r)"
      by (auto simp: base_parameter_def Let_def write_entry_def)
  qed
  moreover have "map_of (List.map_filter ?w (rev OPTIONAL_BASE_PARAMS)) = base_value c (can_attrs s)"
    by (simp add: map_of_selected selected_flags base_value_def [abs_def])
  ultimately show ?thesis by (simp add: written_entries)
qed

lemma mapped_loop:
  assumes "can_object s" and "fst ` set ms \<subseteq> set (map fst Can_traits)" and "distinct (List.map_filter snd ms)"
  shows "\<exists>ps. for_each (mapped_parameter s) ms r = Inr ps \<and> map_of ps = map_of r ++ mapped_value ms (can_attrs s)"
proof -
  have "for_each (mapped_parameter s) ms r = Inr (fold (\<lambda>x. write_entry (mapped_entry (can_attrs s) x)) ms r)"
  proof (rule for_each_total)
    fix x r assume "x \<in> set ms"
    then obtain v where v: "getattr (can_attrs s) (fst x) = Inr v"
      using can_object_attr [OF assms(1), of "fst x"] assms(2) by blast
    then show "mapped_parameter s x r = Inr (write_entry (mapped_entry (can_attrs s) x) r)"
      using write_entry_of [OF v]
      by (auto simp: mapped_parameter_def mapped_entry_def write_entry_def case_prod_beta split: option.split)
  qed
  then show ?thesis using map_of_mapped [OF assms(3)] by (simp add: written_entries)
qed

lemma own_loop:
  "\<exists>ps. for_each (own_parameter attrs) (map fst attrs) r = Inr ps \<and> map_of ps = map_of r ++ set_value attrs"
proof -
  have "for_each (own_parameter attrs) (map fst attrs) r = Inr (fold (\<lambda>n. write_entry (entry_of attrs n n)) (map fst attrs) r)"
  proof (rule for_each_total)
    fix n r assume "n \<in> set (map fst attrs)"
    then obtain v where v: "getattr attrs n = Inr v"
      by (cases "map_of attrs n") (auto simp: getattr_def map_of_eq_None_iff)
    then show "own_parameter attrs n r = Inr (write_entry (entry_of attrs n n) r)"
      using write_entry_of [OF v] by (simp add: own_parameter_def)
  qed
  moreover have "map_of (List.map_filter (\<lambda>n. entry_of attrs n n) (rev (map fst attrs))) = set_value attrs"
    unfolding map_of_own
    by (rule ext) (force simp: set_value_def dest: map_of_SomeD split: option.split)
  ultimately show ?thesis by (simp add: written_entries)
qed

definition interface_class :: "string \<Rightarrow> can_interface_class" where
  "interface_class name = (case map_of CAN_INTERFACE_MAP name of Some c \<Rightarrow> c | None \<Rightarrow> CanCustom)"

lemma interface_class_params:
  "distinct (List.map_filter snd (CAN_PARAM_MAP (interface_class name)))"
  "fst ` set (CAN_PARAM_MAP (interface_class name)) \<subseteq> set (map fst Can_traits)"
proof -
  have "\<exists>n. map_of CAN_INTERFACE_MAP n = Some (interface_class name)"
  proof (cases "map_of CAN_INTERFACE_MAP name")
    case None
    have "map_of CAN_INTERFACE_MAP ''custom'' = Some CanCustom" by (simp add: CAN_INTERFACE_MAP_def)
    with None show ?thesis by (auto simp: interface_class_def)
  qed (auto simp: interface_class_def)
  then show "distinct (List.map_filter snd (CAN_PARAM_MAP (interface_class name)))"
    "fst ` set (CAN_PARAM_MAP (interface_class name)) \<subseteq> set (map fst Can_traits)"
    using table_class by blast+
qed

text \<open>The settings that are particular to the interface.\<close>

definition particular_value :: "can_settings \<Rightarrow> string \<Rightarrow> string \<Rightarrow> setting option option" where
  "particular_value s name =
     (if map_of CAN_INTERFACE_MAP name \<noteq> None then set_value (the (map_of (can_objects s) name))
      else case map_of (the (map_of (can_objects s) ''cancustom'')) ''extra_params'' of
             Some (Some (SDict extra)) \<Rightarrow> map_of (rev extra)
           | _ \<Rightarrow> Map.empty)"

lemma reserved_names:
  "\<forall>(n, c) \<in> set CAN_INTERFACE_MAP. list_all (\<lambda>k. Some k \<notin> snd ` set (CAN_PARAM_MAP c) \<and> k \<notin> fst ` set (own_traits c))
       [''self'', ''parent'', ''interface_name'', ''interface'', ''can_filters'']
     \<and> Some ''timeout'' \<notin> snd ` set (CAN_PARAM_MAP c)
     \<and> (''timeout'' \<in> fst ` set (own_traits c) \<longrightarrow> n \<in> set [''seeedstudio'', ''serial'', ''slcan''])"
  by code_simp

lemma mapped_value_None: "Some k \<notin> snd ` set ms \<Longrightarrow> mapped_value ms attrs k = None"
  by (auto simp: mapped_value_def find_Some_iff rev_image_eqI split: option.splits dest!: nth_mem)

lemma get_parameters:
  assumes "can_object s"
  shows "if name = ''custom'' then get_interface_parameters name s = Inl AttributeError
    else \<exists>ps. get_interface_parameters name s = Inr ps
      \<and> map_of ps = [''channel'' \<mapsto> the (map_of (can_attrs s) ''channel'')] ++ base_value (interface_class name) (can_attrs s)
          ++ mapped_value (CAN_PARAM_MAP (interface_class name)) (can_attrs s) ++ particular_value s name"
proof -
  let ?c = "interface_class name"
  obtain channel where ch: "getattr (can_attrs s) ''channel'' = Inr channel"
    using can_object_attr [OF assms, of "''channel''"] by (auto simp: Can_traits_def)
  then have ch': "map_of (can_attrs s) ''channel'' = Some channel" by (simp add: getattr_def split: option.splits)
  obtain ps1 where 1: "for_each (base_parameter ?c s) OPTIONAL_BASE_PARAMS [(''channel'', channel)] = Inr ps1"
    "map_of ps1 = [''channel'' \<mapsto> channel] ++ base_value ?c (can_attrs s)"
    using base_loop [OF assms] by fastforce
  obtain ps2 where 2: "for_each (mapped_parameter s) (CAN_PARAM_MAP ?c) ps1 = Inr ps2"
    "map_of ps2 = map_of ps1 ++ mapped_value (CAN_PARAM_MAP ?c) (can_attrs s)"
    using mapped_loop [OF assms interface_class_params(2,1)] by blast
  have get: "get_interface_parameters name s =
      (if map_of CAN_INTERFACE_MAP name \<noteq> None then
         rbind (getattr (can_objects s) name) (\<lambda>cxx. for_each (own_parameter cxx) (map fst (own_traits ?c)) ps2)
       else rbind (getattr (can_objects s) ''cancustom'') (\<lambda>cancustom.
         rbind (extra_of cancustom) (\<lambda>extra. Inr (fold (\<lambda>(k, v). AList.update k v) extra ps2))))"
    using 1(1) 2(1) by (simp add: get_interface_parameters_def ch interface_class_def Let_def)
  consider "name = ''custom''" | "name \<noteq> ''custom''" "map_of CAN_INTERFACE_MAP name = Some ?c"
    | "name \<noteq> ''custom''" "map_of CAN_INTERFACE_MAP name = None"
    by (cases "map_of CAN_INTERFACE_MAP name") (auto simp: interface_class_def)
  then show ?thesis
  proof cases
    case 1
    moreover have "map_of CAN_INTERFACE_MAP ''custom'' \<noteq> None" by (simp add: CAN_INTERFACE_MAP_def)
    ultimately show ?thesis using get can_object_custom [OF assms] by simp
  next
    case 2
    obtain attrs where attrs: "getattr (can_objects s) name = Inr attrs" "map_of (can_objects s) name = Some attrs"
      "map fst attrs = map fst (own_traits ?c)"
      using can_object_own [OF assms table_class(3) [OF 2(2,1)]] .
    then show ?thesis
      using own_loop [of attrs ps2] 2 get \<open>map_of ps2 = _\<close> \<open>map_of ps1 = _\<close> ch' by (auto simp: particular_value_def)
  next
    case 3
    have "map_of can_object_classes ''cancustom'' = Some CanCustom" by (simp add: can_object_classes_def)
    then obtain attrs where attrs: "getattr (can_objects s) ''cancustom'' = Inr attrs" "map_of (can_objects s) ''cancustom'' = Some attrs"
      "map fst attrs = map fst (own_traits CanCustom)"
      using can_object_own [OF assms] by blast
    then obtain v where v: "map_of attrs ''extra_params'' = Some v"
      by (cases "map_of attrs ''extra_params''") (auto simp: map_of_eq_None_iff CanCustom_def simp flip: set_map)
    show ?thesis
      using 3 get attrs(1,2) \<open>map_of ps2 = _\<close> \<open>map_of ps1 = _\<close> ch'
      by (auto simp: particular_value_def extra_of_def getattr_def v extra_entries split: option.split setting.split)
  qed
qed

section \<open>Properties\<close>

text \<open>
  Whatever its settings are, an interface gets its channel, the common parameters that are set and that its class
  supports, the bit timing under the names its driver uses, and what is set for it in particular, later ones
  replacing earlier ones; a third-party interface gets the extra parameters. Only for the name \<open>custom\<close> the
  settings have no object, and the call raises AttributeError.
\<close>

theorem can_interface_parameters:
  assumes "can_object s"
  shows "if name = ''custom'' then get_interface_parameters name s = Inl AttributeError
    else \<exists>ps. get_interface_parameters name s = Inr ps
      \<and> map_of ps = [''channel'' \<mapsto> the (map_of (can_attrs s) ''channel'')] ++ base_value (interface_class name) (can_attrs s)
          ++ mapped_value (CAN_PARAM_MAP (interface_class name)) (can_attrs s) ++ particular_value s name"
  by (rule get_parameters [OF assms])

text \<open>The settings of PCAN on channel 5, with a bit rate and the third parameter of the bit timing.\<close>

definition example_settings :: can_settings where
  "example_settings = new_can_settings\<lparr>can_attrs :=
     map (\<lambda>(n, v). (n, if n = ''channel'' then Some (SInt 5) else if n = ''tseg2_abr'' then Some (SInt 3) else v))
       (can_attrs new_can_settings)\<rparr>"

lemma example_settings_object: "can_object example_settings"
  using new_can_settings_object by (simp add: can_object_def example_settings_def case_prod_beta comp_def)

lemmas example_defs = example_settings_def new_can_settings_def defaults_def Can_traits_def set_value_def
  base_value_def has_flags_def mapped_value_def particular_value_def PCan_def CanBase_def

lemma example_values:
  "interface_class ''pcan'' = PCan"
  "map_of (can_attrs example_settings) ''channel'' = Some (Some (SInt 5))"
  "base_value PCan (can_attrs example_settings) ''channel'' = None"
  "base_value PCan (can_attrs example_settings) ''nom_tseg2'' = None"
  "mapped_value (CAN_PARAM_MAP PCan) (can_attrs example_settings) ''channel'' = None"
  "mapped_value (CAN_PARAM_MAP PCan) (can_attrs example_settings) ''nom_tseg2'' = Some (Some (SInt 3))"
  "particular_value example_settings ''pcan'' ''channel'' = None"
  "particular_value example_settings ''pcan'' ''nom_tseg2'' = None"
  by (simp_all add: interface_class_def CAN_INTERFACE_MAP_def example_defs can_object_classes_def)

theorem can_interface_parameters_witness:
  "\<exists>ps. get_interface_parameters ''pcan'' example_settings = Inr ps \<and> map_of ps ''channel'' = Some (Some (SInt 5))
    \<and> map_of ps ''nom_tseg2'' = Some (Some (SInt 3))"
  using can_interface_parameters [OF example_settings_object, of "''pcan''"] by (auto simp: example_values map_add_def)

text \<open>
  For an interface of the table the arguments never clash with those of the two calls, so the wrapper is made if
  python-can has the driver -- except that the serial line interfaces with a time-out of their own always fail with
  TypeError, because the wrapper has an argument of that name.
\<close>

theorem can_interface_opens:
  assumes "can_object s" and "map_of CAN_INTERFACE_MAP name = Some c" and "name \<noteq> ''custom''" and "name \<in> drivers"
  shows "open_interface drivers name s =
      (if name \<in> {''seeedstudio'', ''serial'', ''slcan''} \<and> set_value (the (map_of (can_objects s) name)) ''timeout'' \<noteq> None
       then Inl TypeError else get_interface_parameters name s)
    \<and> (\<forall>ps. open_interface drivers name s = Inr ps \<longrightarrow> bus_arguments ps = Inr ps)"
proof -
  obtain attrs where attrs: "map_of (can_objects s) name = Some attrs" "map fst attrs = map fst (own_traits c)"
    using can_object_own [OF assms(1) table_class(3) [OF assms(2,3)]] by metis
  obtain ps where ps: "get_interface_parameters name s = Inr ps"
    "map_of ps = [''channel'' \<mapsto> the (map_of (can_attrs s) ''channel'')] ++ base_value c (can_attrs s)
       ++ mapped_value (CAN_PARAM_MAP c) (can_attrs s) ++ set_value attrs"
    using get_parameters [OF assms(1), of name] assms(2,3) attrs(1)
    by (auto simp: interface_class_def particular_value_def)
  have table: "Some k \<notin> snd ` set (CAN_PARAM_MAP c)" "k \<notin> fst ` set (own_traits c)"
    if "k \<in> set [''self'', ''parent'', ''interface_name'', ''interface'', ''can_filters'']" for k
    using bspec [OF reserved_names map_of_SomeD [OF assms(2)]] that unfolding list_all_iff case_prod_conv by blast+
  have timeout: "Some ''timeout'' \<notin> snd ` set (CAN_PARAM_MAP c)"
    "''timeout'' \<in> fst ` set (own_traits c) \<Longrightarrow> name \<in> set [''seeedstudio'', ''serial'', ''slcan'']"
    using bspec [OF reserved_names map_of_SomeD [OF assms(2)]] unfolding case_prod_conv by blast+
  have own: "k \<notin> fst ` set (own_traits c) \<Longrightarrow> set_value attrs k = None" for k
    using attrs(2) by (metis (no_types, lifting) list.set_map map_of_eq_None_iff option.case(1) set_value_def)
  have reserved: "map_of ps k = None" if k: "k \<in> set [''self'', ''parent'', ''interface_name'', ''interface'', ''can_filters'']" for k
  proof -
    have "k \<noteq> ''channel''" and "base_value c (can_attrs s) k = None"
      using k by (auto simp: base_value_def has_flags_def)
    then show ?thesis by (simp add: ps(2) map_add_def mapped_value_None [OF table(1) [OF k]] own [OF table(2) [OF k]])
  qed
  have "base_value c (can_attrs s) ''timeout'' = None" by (simp add: base_value_def has_flags_def)
  then have "map_of ps ''timeout'' = set_value attrs ''timeout''"
    by (simp add: ps(2) map_add_def mapped_value_None [OF timeout(1)] split: option.split)
  then have "keywords_clash [''self'', ''parent'', ''interface_name'', ''timeout''] ps \<longleftrightarrow> set_value attrs ''timeout'' \<noteq> None"
    by (simp add: keywords_clash_def reserved)
  moreover have "\<not> keywords_clash [''interface'', ''can_filters''] ps" by (simp add: keywords_clash_def reserved)
  moreover have "set_value attrs ''timeout'' \<noteq> None \<Longrightarrow> name \<in> {''seeedstudio'', ''serial'', ''slcan''}"
    using own [of "''timeout''"] timeout(2) by (cases "''timeout'' \<in> fst ` set (own_traits c)") simp_all
  ultimately show ?thesis
    using assms(4) by (auto simp: open_interface_def make_wrapper_def bus_arguments_def ps(1) attrs(1))
qed

theorem can_interface_opens_witness:
  "open_interface {''pcan''} ''pcan'' example_settings = get_interface_parameters ''pcan'' example_settings"
  using can_interface_opens [OF example_settings_object, of "''pcan''" PCan "{''pcan''}"]
  by (simp add: CAN_INTERFACE_MAP_def)

end
