(* ===== verification/Can_Transport.thy ===== *)
theory Can_Transport
  imports Can_Frames Can_Interfaces Transport_Base
begin

text \<open>
  The class \<open>Can\<close> of \<open>pyxcp/transport/can.py\<close>, on top of the wrapper of \<open>Can_Frames\<close>: what it takes from the
  configuration, connecting, sending and closing, and the rounds of the listener. The bus is python-can's: what
  opening it or sending on it raises is an argument, and the messages sent are recorded. Log messages, time stamps
  of requests and the names shown for a failed connection are left out.
\<close>

section \<open>Model\<close>

record can_config =
  cfg_id_master :: int
  cfg_id_slave :: "int option"
  cfg_daq_identifier :: "int list option"
  cfg_fd :: bool
  cfg_pid_off :: bool
  cfg_max_dlc_required :: bool
  cfg_padding_value :: int
  cfg_use_default_listener :: bool
  cfg_interface :: string
  cfg_settings :: can_settings

record can_message =
  out_id :: int
  out_extended :: bool
  out_fd :: bool
  out_data :: bytes

text \<open>\<open>link_has_bus\<close> says that the wrapper has its attribute \<open>can_interface\<close>, \<open>link_listening\<close> that the listener runs.\<close>

record can_link =
  link_id_master :: Identifier
  link_fd :: bool
  link_pid_off :: bool
  link_pid_map :: "(int \<times> bytes) list"
  link_max_dlc_required :: bool
  link_padding_value :: int
  link_default_listener :: bool
  link_wrapper :: PythonCanWrapper
  link_parameters :: parameters
  link_has_bus :: bool
  link_listening :: bool
  link_status :: nat
  link_sent :: "can_message list"

definition can_framing :: XcpFramingConfig where
  "can_framing = \<lparr>transport_layer_type = CAN, header_len = 0, header_ctr = 0, header_fill = 0, tail_fill = False,
     tail_cs = NO_CHECKSUM\<rparr>"

text \<open>The identifiers of the DAQ lists and their numbers; of equal ones the last number counts.\<close>

fun daq_identifiers :: "nat \<Rightarrow> int list \<Rightarrow> (Identifier list \<times> (int \<times> bytes) list) result" where
  "daq_identifiers idx [] = Inr ([], [])"
| "daq_identifiers idx (daq_id # daq_ids) =
     rbind (mk_Identifier daq_id) (\<lambda>i.
     if 255 < idx then Inl ValueError
     else rbind (daq_identifiers (Suc idx) daq_ids) (\<lambda>(ids, pid_map).
       Inr (i # ids, pid_map @ [(daq_id, [word_of_nat idx])])))"

text \<open>
  \<open>__init__\<close>: \<open>user_bus\<close> are the filters of the user's bus, if there is one, \<open>drivers\<close> the interfaces that python-can
  has a class for.
\<close>

definition new_can_link :: "can_filter list option option \<Rightarrow> string set \<Rightarrow> can_config \<Rightarrow> can_link result" where
  "new_can_link user_bus drivers cfg =
     rbind (mk_Identifier (cfg_id_master cfg)) (\<lambda>id_master.
     rbind (case cfg_id_slave cfg of None \<Rightarrow> Inl TypeError | Some i \<Rightarrow> mk_Identifier i) (\<lambda>id_slave.
     rbind (daq_identifiers 0 (case cfg_daq_identifier cfg of None \<Rightarrow> [] | Some ids \<Rightarrow> ids)) (\<lambda>(ids, pid_map).
     rbind (if user_bus \<noteq> None then Inr [] else open_interface drivers (cfg_interface cfg) (cfg_settings cfg)) (\<lambda>ps.
     Inr \<lparr>link_id_master = id_master, link_fd = cfg_fd cfg, link_pid_off = cfg_pid_off cfg, link_pid_map = pid_map,
       link_max_dlc_required = cfg_max_dlc_required cfg, link_padding_value = cfg_padding_value cfg,
       link_default_listener = cfg_use_default_listener cfg,
       link_wrapper = \<lparr>has_user_supplied_interface = user_bus \<noteq> None, can_id_slave = id_slave, daq_identifier = ids,
         bus_filters = (case user_bus of None \<Rightarrow> None | Some fs \<Rightarrow> fs), connected = False,
         software_filter = new_SoftwareFilter, saved_filters = [], bus_open = user_bus \<noteq> None\<rparr>,
       link_parameters = ps, link_has_bus = False, link_listening = False, link_status = 0, link_sent = []\<rparr>))))"

subsection \<open>Connecting and sending\<close>

definition is_OSError :: "pyexn \<Rightarrow> bool" where
  "is_OSError e \<longleftrightarrow> e \<in> {OSError, FileNotFoundError, PermissionError, TimeoutError}"

text \<open>
  \<open>PythonCanWrapper.connect\<close>; \<open>raised\<close> is the exception of the driver, or of the user's bus when it gets the filters.
\<close>

definition open_bus :: "pyexn option \<Rightarrow> (pyexn, can_link, unit) prog" where
  "open_bus raised = (\<lambda>c.
     (let w = link_wrapper c; connected_link = c\<lparr>link_wrapper := wrapper_connect w, link_has_bus := True\<rparr>
      in if connected w then (Inr (), c)
         else if has_user_supplied_interface w then
           (case raised of
              None \<Rightarrow> (Inr (), connected_link)
            | Some e \<Rightarrow> (Inl e, c\<lparr>link_has_bus := True,
                link_wrapper := w\<lparr>saved_filters := (case bus_filters w of None \<Rightarrow> [] | Some fs \<Rightarrow> fs)\<rparr>\<rparr>))
         else
           (case bus_arguments (link_parameters c) of
              Inl e \<Rightarrow> (Inl e, c)
            | Inr _ \<Rightarrow>
                (case raised of
                   None \<Rightarrow> (Inr (), connected_link)
                 | Some e \<Rightarrow> (Inl (if is_OSError e then CanInitializationError else e), c)))))"

definition can_connect :: "pyexn option \<Rightarrow> (pyexn, can_link, unit) prog" where
  "can_connect raised = (\<lambda>c.
     (case open_bus raised c of
        (Inl e, c1) \<Rightarrow>
          (if e = CanInitializationError \<or> is_OSError e then (Inl CanInitializationError, c1\<lparr>link_listening := False\<rparr>)
           else (Inl e, c1))
      | (Inr _, c1) \<Rightarrow> (Inr (), c1\<lparr>link_listening := link_default_listener c1 \<or> link_listening c1, link_status := 1\<rparr>)))"

definition transmit :: "pyexn option \<Rightarrow> bytes \<Rightarrow> (pyexn, can_link, unit) prog" where
  "transmit raised payload = (\<lambda>c.
     if \<not> link_has_bus c then (Inl AttributeError, c)
     else (case raised of
             Some e \<Rightarrow> (Inl e, c)
           | None \<Rightarrow> (Inr (), c\<lparr>link_sent := link_sent c @
               [\<lparr>out_id = can_ident (link_id_master c), out_extended = is_extended (link_id_master c), out_fd = link_fd c,
                 out_data = payload\<rparr>]\<rparr>)))"

definition can_send :: "pyexn option \<Rightarrow> bytes \<Rightarrow> (pyexn, can_link, unit) prog" where
  "can_send raised frame = (\<lambda>c.
     pbind (plift (pad_frame frame (link_max_dlc_required c) (link_padding_value c))) (transmit raised) c)"

definition can_close :: "can_link \<Rightarrow> can_link" where
  "can_close c = c\<lparr>link_listening := False, link_wrapper := wrapper_close (link_wrapper c)\<rparr>"

subsection \<open>The listener\<close>

definition data_received :: "bytes \<Rightarrow> int \<Rightarrow> (pyexn, transport, unit) prog" where
  "data_received payload recv_timestamp = (\<lambda>t.
     process_response (payload, int (length payload), (counter_received t + 1) AND 0xFFFF, recv_timestamp) t)"

text \<open>One round of \<open>listen\<close> with what the bus yields and its time stamp, and all the rounds of a run.\<close>

definition can_listen_round :: "can_link \<Rightarrow> recv \<times> int \<Rightarrow> transport \<Rightarrow> transport" where
  "can_listen_round c = (\<lambda>(r, timestamp) t.
     (case listen_step (link_wrapper c) (link_pid_map c) r of
        None \<Rightarrow> t
      | Some payload \<Rightarrow> snd (data_received payload timestamp t)))"

definition can_listen :: "can_link \<Rightarrow> (recv \<times> int) list \<Rightarrow> transport \<Rightarrow> transport" where
  "can_listen c = fold (can_listen_round c)"

section \<open>Lemmas\<close>

subsection \<open>Identifiers\<close>

text \<open>The number that stands for an identifier in the configuration, without the flag of CAN-FD.\<close>

definition raw :: "int \<Rightarrow> bool \<Rightarrow> int" where
  "raw i e = (if e then i OR CAN_EXTENDED_ID else i)"

definition plain :: "int \<Rightarrow> bool" where
  "plain d \<longleftrightarrow> (\<exists>x. mk_Identifier d = Inr x \<and> valid_id (can_ident x) (is_extended x) \<and> d = raw (can_ident x) (is_extended x))"

lemma mk_Identifier_raw: "valid_id i e \<Longrightarrow> mk_Identifier (raw i e) = Inr \<lparr>raw_id = raw i e, can_ident = i, is_extended = e\<rparr>"
  using make_identifier_valid [of i e] by (cases e) (simp_all add: make_identifier_def raw_def)

lemma plain_raw: "valid_id i e \<Longrightarrow> plain (raw i e)"
  by (simp add: plain_def mk_Identifier_raw)

lemma same_identifier:
  assumes "plain d" and "mk_Identifier d = Inr x" and "valid_id i e"
  shows "can_ident x = i \<and> is_extended x = e \<longleftrightarrow> raw i e = d"
proof
  assume "can_ident x = i \<and> is_extended x = e"
  then show "raw i e = d" using assms(1,2) by (auto simp: plain_def)
next
  assume "raw i e = d"
  then show "can_ident x = i \<and> is_extended x = e" using assms(2) mk_Identifier_raw [OF assms(3)] by auto
qed

lemma daq_identifiers_Inr:
  "daq_identifiers idx ds = Inr (ids, m) \<Longrightarrow> idx \<le> 256 \<Longrightarrow>
     rmap mk_Identifier ds = Inr ids \<and> m = rev (zip ds (map (\<lambda>k. [word_of_nat k]) [idx..<idx + length ds])) \<and> idx + length ds \<le> 256"
proof (induction ds arbitrary: idx ids m)
  case (Cons d ds)
  then obtain i ids' m' where rest: "mk_Identifier d = Inr i" "\<not> 255 < idx" "daq_identifiers (Suc idx) ds = Inr (ids', m')"
    "ids = i # ids'" "m = m' @ [(d, [word_of_nat idx])]"
    by (auto simp: rbind_Inr_iff split: if_splits)
  have "[idx..<idx + length (d # ds)] = idx # [Suc idx..<Suc idx + length ds]" by (simp add: upt_conv_Cons del: upt_Suc)
  then show ?case using Cons.IH [OF rest(3)] rest by (simp del: upt_Suc)
qed simp

lemma daq_identifiers_map:
  assumes "daq_identifiers 0 ds = Inr (ids, m)"
  shows "rmap mk_Identifier ds = Inr ids" and "can_id_pid_map ds = Inr m"
  using daq_identifiers_Inr [OF assms] by (simp_all add: can_id_pid_map_def)

lemma rmap_same_identifier:
  assumes "rmap mk_Identifier ds = Inr ids" and "list_all plain ds" and "valid_id i e"
  shows "(\<exists>x \<in> set ids. can_ident x = i \<and> is_extended x = e) \<longleftrightarrow> raw i e \<in> set ds"
  using assms(1,2)
proof (induction ds arbitrary: ids)
  case (Cons d ds)
  then obtain x xs where "mk_Identifier d = Inr x" "rmap mk_Identifier ds = Inr xs" "ids = x # xs" "plain d" "list_all plain ds"
    by (auto simp: rbind_Inr_iff)
  then show ?case using Cons.IH same_identifier [of d x, OF _ _ assms(3)] by auto
qed simp

lemma rmap_valid:
  "rmap mk_Identifier ds = Inr ids \<Longrightarrow> list_all plain ds \<Longrightarrow> \<forall>x \<in> set ids. valid_id (can_ident x) (is_extended x)"
  by (induction ds arbitrary: ids) (auto simp: rbind_Inr_iff plain_def)

subsection \<open>Packets of the slave\<close>

text \<open>
  What a message is to the transport: on the slave's identifier the packet itself, on the identifier of a DAQ list
  the packet with the list's number in front.
\<close>

definition packet_on :: "int \<Rightarrow> int list \<Rightarrow> Message \<Rightarrow> bytes option" where
  "packet_on slave daqs msg =
     (let i = raw (arbitration_id msg) (is_extended_id msg)
      in if msg_data msg = [] then None
         else case List.find (\<lambda>k. daqs ! k = i) [0..<length daqs] of
                Some k \<Rightarrow> Some (word_of_nat k # msg_data msg)
              | None \<Rightarrow> if i = slave then Some (msg_data msg) else None)"

definition packet_of :: "int \<Rightarrow> int list \<Rightarrow> recv \<times> int \<Rightarrow> bytes option" where
  "packet_of slave daqs = (\<lambda>(r, timestamp). case r of Received msg \<Rightarrow> packet_on slave daqs msg | _ \<Rightarrow> None)"

definition valid_recv :: "recv \<times> int \<Rightarrow> bool" where
  "valid_recv = (\<lambda>(r, timestamp). case r of Received msg \<Rightarrow> valid_id (arbitration_id msg) (is_extended_id msg) | _ \<Rightarrow> True)"

lemma find_index:
  "List.find (\<lambda>k. ds ! k = d) [0..<length ds] = None \<and> d \<notin> set ds
     \<or> (\<exists>k < length ds. List.find (\<lambda>k. ds ! k = d) [0..<length ds] = Some k \<and> ds ! k = d)"
proof (cases "List.find (\<lambda>k. ds ! k = d) [0..<length ds]")
  case None
  then show ?thesis by (auto simp: find_None_iff in_set_conv_nth)
next
  case (Some k)
  then have "k < length ds \<and> ds ! k = d" by (auto simp: find_Some_iff)
  with Some show ?thesis by blast
qed

lemma listen_step_packet:
  assumes "rmap mk_Identifier ds = Inr ids" and "can_id_pid_map ds = Inr m" and "mk_Identifier slave = Inr x"
    and "list_all plain (slave # ds)" and "distinct ds" and "valid_recv (r, ts)"
    and "w = wrapper_connect w0" and "\<not> connected w0" and "has_user_supplied_interface w0" and "can_id_slave w0 = x"
    and "daq_identifier w0 = ids"
  shows "listen_step w m r = packet_of slave ds (r, ts)"
proof (cases r)
  case (Received msg)
  show ?thesis
  proof (cases "msg_data msg = []")
    case True
    with Received show ?thesis
      by (simp add: listen_step_def wrapper_read_def packet_of_def packet_on_def Let_def)
  next
    case False
    have msg: "valid_id (arbitration_id msg) (is_extended_id msg)"
      using assms(6) Received by (simp add: valid_recv_def)
    let ?i = "raw (arbitration_id msg) (is_extended_id msg)"
    have known: "(\<exists>i \<in> set (can_id_slave w0 # daq_identifier w0). can_ident i = arbitration_id msg \<and> is_extended i = is_extended_id msg)
        \<longleftrightarrow> ?i \<in> set (slave # ds)"
      using rmap_same_identifier [of "slave # ds" "x # ids", OF _ assms(4) msg] assms(1,3,10,11) by simp
    have "\<forall>i \<in> set (can_id_slave w0 # daq_identifier w0). valid_id (can_ident i) (is_extended i)"
      using rmap_valid [of "slave # ds" "x # ids"] assms(1,3,4,10,11) by simp
    from wrapper_read_connected [OF assms(8,9) this msg False]
    have read: "wrapper_read w (Received msg) = Inr (if ?i \<in> set (slave # ds)
        then Some \<lparr>frame_id = \<lparr>raw_id = ?i, can_ident = arbitration_id msg, is_extended = is_extended_id msg\<rparr>,
          frame_dlc = dlc msg, frame_data = msg_data msg\<rparr> else None)"
      unfolding known by (auto simp: assms(7) raw_def)
    have m: "m = rev (zip ds (map (\<lambda>k. [word_of_nat k]) [0..<length ds]))"
      using assms(2) by (simp add: can_id_pid_map_def split: if_splits)
    show ?thesis
      using find_index [of ds ?i]
    proof (elim disjE exE conjE)
      assume "List.find (\<lambda>k. ds ! k = ?i) [0..<length ds] = None" "?i \<notin> set ds"
      then show ?thesis
        using Received False map_of_enumeration_none [of ?i ds "\<lambda>k. [word_of_nat k :: byte]"]
        by (auto simp: listen_step_def read packet_of_def packet_on_def Let_def m)
    next
      fix k assume k: "k < length ds" "List.find (\<lambda>k. ds ! k = ?i) [0..<length ds] = Some k" "ds ! k = ?i"
      have "map_of m ?i = Some [word_of_nat k]"
        unfolding m
      proof (rule map_of_enumeration_last [OF k(1,3)], intro allI impI notI)
        fix j assume "k < j \<and> j < length ds" "ds ! j = ?i"
        with k assms(5) nth_eq_iff_index_eq [of ds j k] show False by simp
      qed
      then show ?thesis
        using Received False k nth_mem [OF k(1)]
        by (simp add: listen_step_def read packet_of_def packet_on_def Let_def)
    qed
  qed
qed (simp_all add: listen_step_def wrapper_read_def packet_of_def)

text \<open>The DAQ data a policy was fed.\<close>

definition daq_data :: "transport \<Rightarrow> bytes list" where
  "daq_data t = [p. (cat, ctr, ts, p) \<leftarrow> policy_feeds t, cat = FC_DAQ]"

definition queued_as :: "bytes \<Rightarrow> transport \<Rightarrow> transport \<Rightarrow> bool" where
  "queued_as p t t' \<longleftrightarrow> resQueue t' = resQueue t @ filter (\<lambda>p. 254 \<le> uint (hd p)) [p]
     \<and> daq_data t' = daq_data t @ filter (\<lambda>p. uint (hd p) < 252) [p]"

lemma data_received_queued:
  assumes "p \<noteq> []"
  shows "queued_as p t (snd (data_received p ts t))"
proof -
  have "py_slice p 0 (int (length p)) = p" by (simp add: py_slice_def py_clip_def)
  then show ?thesis
    using assms process_response_effect(1,2) [OF refl, of "(p, int (length p), (counter_received t + 1) AND 0xFFFF, ts)" t]
    by (cases p) (auto simp: queued_as_def data_received_def is_response_def payload_of_def daq_data_def policy_entry_def
        category_def uint_byte_eq)
qed

lemma packet_of_nonempty: "packet_of slave daqs r = Some p \<Longrightarrow> p \<noteq> []"
  by (auto simp: packet_of_def packet_on_def Let_def split: prod.splits recv.splits if_splits option.splits)

lemma can_listen_packets:
  assumes "\<And>r ts. (r, ts) \<in> set rs \<Longrightarrow> listen_step (link_wrapper c) (link_pid_map c) r = packet_of slave daqs (r, ts)"
  shows "resQueue (can_listen c rs t) = resQueue t @ filter (\<lambda>p. 254 \<le> uint (hd p)) (List.map_filter (packet_of slave daqs) rs)
    \<and> daq_data (can_listen c rs t) = daq_data t @ filter (\<lambda>p. uint (hd p) < 252) (List.map_filter (packet_of slave daqs) rs)"
  using assms
proof (induction rs arbitrary: t)
  case Nil
  then show ?case by (simp add: can_listen_def List.map_filter_def)
next
  case (Cons x rs)
  obtain r ts where x: "x = (r, ts)" by (cases x)
  have step: "listen_step (link_wrapper c) (link_pid_map c) r = packet_of slave daqs x" using Cons.prems x by simp
  show ?case
  proof (cases "packet_of slave daqs x")
    case None
    then have "can_listen_round c x t = t" using step by (simp add: x can_listen_round_def)
    with Cons None show ?thesis by (simp add: can_listen_def List.map_filter_def)
  next
    case (Some p)
    then have "can_listen_round c x t = snd (data_received p ts t)" using step by (simp add: x can_listen_round_def)
    moreover have "queued_as p t (snd (data_received p ts t))"
      using data_received_queued packet_of_nonempty [OF Some] by blast
    ultimately show ?thesis
      using Cons Some by (auto simp: can_listen_def List.map_filter_def queued_as_def)
  qed
qed

text \<open>What the construction and a successful connection to a bus of the user's give.\<close>

lemma connected_link:
  assumes "new_can_link (Some user_filters) drivers cfg = Inr c0" and "can_connect None c0 = (Inr (), c)"
    and "cfg_id_slave cfg = Some slave" and "daqs = (case cfg_daq_identifier cfg of None \<Rightarrow> [] | Some ids \<Rightarrow> ids)"
  obtains x ids w0 where "mk_Identifier slave = Inr x" and "rmap mk_Identifier daqs = Inr ids"
    and "can_id_pid_map daqs = Inr (link_pid_map c)" and "link_wrapper c = wrapper_connect w0" and "\<not> connected w0"
    and "has_user_supplied_interface w0" and "can_id_slave w0 = x" and "daq_identifier w0 = ids" and "link_has_bus c"
proof -
  obtain x ids where x: "mk_Identifier slave = Inr x" "daq_identifiers 0 daqs = Inr (ids, link_pid_map c0)"
    "can_id_slave (link_wrapper c0) = x" "daq_identifier (link_wrapper c0) = ids" "\<not> connected (link_wrapper c0)"
    "has_user_supplied_interface (link_wrapper c0)"
    using assms(1,3,4) by (auto simp: new_can_link_def rbind_Inr_iff)
  moreover have "link_wrapper c = wrapper_connect (link_wrapper c0)" "link_pid_map c = link_pid_map c0" "link_has_bus c"
    using assms(2) x(5,6) by (auto simp: can_connect_def open_bus_def Let_def)
  ultimately show thesis
    using that [of x ids "link_wrapper c0"] daq_identifiers_map [OF x(2)] by simp
qed

section \<open>Properties\<close>


definition example_config :: can_config where
  "example_config = \<lparr>cfg_id_master = 6, cfg_id_slave = Some 5, cfg_daq_identifier = Some [7, 8], cfg_fd = False,
     cfg_pid_off = True, cfg_max_dlc_required = True, cfg_padding_value = 0, cfg_use_default_listener = True,
     cfg_interface = ''custom'', cfg_settings = new_can_settings\<rparr>"

definition standard_message :: "int \<Rightarrow> bytes \<Rightarrow> recv \<times> int" where
  "standard_message i d = (Received \<lparr>arbitration_id = i, is_extended_id = False, dlc = length d, msg_data = d\<rparr>, 0)"

lemma standard_identifiers:
  "valid_id 5 False" "valid_id 6 False" "valid_id 7 False" "valid_id 8 False" "valid_id 9 False"
  by (simp_all add: valid_id_def MAX_11_BIT_IDENTIFIER_def)

lemma mk_standard: "valid_id i False \<Longrightarrow> mk_Identifier i = Inr \<lparr>raw_id = i, can_ident = i, is_extended = False\<rparr>"
  using mk_Identifier_raw [of i False] by (simp add: raw_def)

lemma example_link:
  obtains c0 c where "new_can_link (Some (Some [])) {} example_config = Inr c0" and "can_connect None c0 = (Inr (), c)"
    and "link_has_bus c" and "link_id_master c = \<lparr>raw_id = 6, can_ident = 6, is_extended = False\<rparr>"
    and "link_padding_value c = 0" and "link_max_dlc_required c" and "link_sent c = []" and "\<not> link_fd c"
  by (simp add: new_can_link_def example_config_def mk_standard standard_identifiers can_connect_def open_bus_def Let_def)

definition example_traffic :: "(recv \<times> int) list" where
  "example_traffic = [standard_message 7 [1, 2], standard_message 5 [0xFF, 3], standard_message 9 [0xFF],
     standard_message 8 [4], standard_message 5 [0xFE]]"

lemma example_traffic_packets: "List.map_filter (packet_of 5 [7, 8]) example_traffic = [[0, 1, 2], [0xFF, 3], [1, 4], [0xFE]]"
proof -
  have two: "[0..<length [7, 8 :: int]] = [0, 1]" by (simp add: upt_rec)
  have "packet_of 5 [7, 8] (standard_message i d) = (if d = [] then None else if i = 7 then Some (0 # d)
      else if i = 8 then Some (1 # d) else if i = 5 then Some d else None)" for i d
    unfolding packet_of_def packet_on_def standard_message_def two by (simp add: raw_def Let_def)
  then show ?thesis by (simp add: example_traffic_def List.map_filter_def)
qed

lemma example_valid: "list_all valid_recv example_traffic"
  by (simp add: example_traffic_def valid_recv_def standard_message_def standard_identifiers)


text \<open>
  C39. A request that fits a CAN frame goes out as one message with the master's identifier, and its data are the bytes
  of the request (the command code and the parameters, without a header) followed by padding bytes only: up to
  eight bytes if the configuration asks for it, and up to the next length CAN-FD knows.
\<close>

theorem can_request_transmitted:
  assumes "link_has_bus c" and "framing_type fr = can_framing" and "\<forall>v \<in> set data. 0 \<le> v \<and> v < 256"
    and "packet = serialize_cmd_value (word_of_int cmd) @ map word_of_int data" and "length packet \<le> 64"
    and "0 \<le> link_padding_value c" and "link_padding_value c < 256"
  shows "prepare_request cmd data fr = Inr (Some packet, fr\<lparr>counter_send := counter_send fr + 1\<rparr>)
    \<and> (\<exists>n. can_send None packet c = (Inr (), c\<lparr>link_sent := link_sent c @
          [\<lparr>out_id = can_ident (link_id_master c), out_extended = is_extended (link_id_master c), out_fd = link_fd c,
            out_data = packet @ replicate n (word_of_int (link_padding_value c))\<rparr>]\<rparr>)
        \<and> (length packet \<le> 8 \<longrightarrow> length packet + n = (if link_max_dlc_required c then 8 else length packet))
        \<and> (8 < length packet \<longrightarrow> length packet + n \<in> set CAN_FD_DLCS
             \<and> (\<forall>d \<in> set CAN_FD_DLCS. length packet \<le> d \<longrightarrow> length packet + n \<le> d)))"
proof -
  have "prepare_request cmd data fr = Inr (Some packet, fr\<lparr>counter_send := counter_send fr + 1\<rparr>)"
    using assms(2,5) by (simp add: prepare_request_def rmap_to_byte [OF assms(3)] can_framing_def header_def size_field_def
        counter_field_def add_tail_def SEND_BUFFER_def assms(4))
  moreover obtain n where n: "pad_frame packet (link_max_dlc_required c) (link_padding_value c)
      = Inr (packet @ replicate n (word_of_int (link_padding_value c)))"
    "length packet \<le> 8 \<longrightarrow> length packet + n = (if link_max_dlc_required c then 8 else length packet)"
    "8 < length packet \<longrightarrow> length packet + n \<in> set CAN_FD_DLCS
       \<and> (\<forall>d \<in> set CAN_FD_DLCS. length packet \<le> d \<longrightarrow> length packet + n \<le> d)"
    using pad_frame_correct [OF assms(6,7), of packet "link_max_dlc_required c"] assms(5) by auto
  moreover have "can_send None packet c = (Inr (), c\<lparr>link_sent := link_sent c @
      [\<lparr>out_id = can_ident (link_id_master c), out_extended = is_extended (link_id_master c), out_fd = link_fd c,
        out_data = packet @ replicate n (word_of_int (link_padding_value c))\<rparr>]\<rparr>)"
    using assms(1) by (simp add: can_send_def transmit_def pbind_def plift_def n(1))
  ultimately show ?thesis using n(2,3) by blast
qed

theorem can_request_transmitted_witness:
  "\<exists>c c' fr. prepare_request 0xFF [1] fr = Inr (Some [0xFF, 1], fr\<lparr>counter_send := counter_send fr + 1\<rparr>)
    \<and> can_send None [0xFF, 1] c = (Inr (), c') \<and> map out_id (link_sent c') = [6]
    \<and> map out_data (link_sent c') = [[0xFF, 1, 0, 0, 0, 0, 0, 0]]"
proof -
  obtain c0 c where c: "new_can_link (Some (Some [])) {} example_config = Inr c0" "can_connect None c0 = (Inr (), c)"
    "link_has_bus c" "link_id_master c = \<lparr>raw_id = 6, can_ident = 6, is_extended = False\<rparr>"
    "link_padding_value c = 0" "link_max_dlc_required c" "link_sent c = []" "\<not> link_fd c"
    by (rule example_link)
  have ser: "serialize_cmd_value 0xFF = [0xFF]"
    by (simp add: serialize_cmd_value_def byte_count_def find_msb_def msb_loop.simps)
  have "[0xFF, 1] = serialize_cmd_value (word_of_int 0xFF) @ map word_of_int [1]" by (simp add: ser)
  from can_request_transmitted [OF c(3) _ _ this, of "\<lparr>counter_send = 0, framing_type = can_framing\<rparr>"] c(4-7)
  obtain n where "prepare_request 0xFF [1] \<lparr>counter_send = 0, framing_type = can_framing\<rparr>
      = Inr (Some [0xFF, 1], \<lparr>counter_send = 0, framing_type = can_framing\<rparr>\<lparr>counter_send := 0 + 1\<rparr>)"
    "can_send None [0xFF, 1] c = (Inr (), c\<lparr>link_sent := [\<lparr>out_id = 6, out_extended = False, out_fd = link_fd c,
       out_data = [0xFF, 1] @ replicate n 0\<rparr>]\<rparr>)" "2 + n = 8"
    by auto
  moreover have "n = 6" using calculation(3) by simp
  ultimately show ?thesis
    by (intro exI [of _ c] exI [of _ "c\<lparr>link_sent := [\<lparr>out_id = 6, out_extended = False, out_fd = link_fd c,
       out_data = [0xFF, 1] @ replicate n 0\<rparr>]\<rparr>"] exI [of _ "\<lparr>counter_send = 0, framing_type = can_framing\<rparr>"])
      (simp add: numeral_eq_Suc)
qed

end
