(* ===== verification/Configuration.thy ===== *)
theory Configuration
  imports Can_Interfaces "HOL-Library.Sublist"
begin

text \<open>
  Finding and reading a configuration file (\<open>pyxcp/config/__init__.py\<close>) and the conversion of the former format
  (\<open>pyxcp/config/legacy.py\<close>), whose flat keywords become paths in a nested dictionary. The file system, the
  JSON and TOML parsers and the loader of Python files are parameters; warnings are left out.
\<close>

section \<open>Model\<close>

subsection \<open>The former format\<close>

text \<open>Values are strings or something else; a nested dictionary has values at its leaves.\<close>

datatype 'v legacy_value = Str string | Other 'v
datatype 'v conf = Leaf "'v legacy_value" | Node "(string \<times> 'v conf) list"
type_synonym 'v dict = "(string \<times> 'v conf) list"

definition LEGACY_KEYWORDS :: "(string \<times> string) list" where
  "LEGACY_KEYWORDS =
     [(''LOGLEVEL'', ''General.loglevel''), (''DISABLE_ERROR_HANDLING'', ''General.disable_error_handling''),
      (''SEED_N_KEY_DLL'', ''General.seed_n_key_dll''),
      (''SEED_N_KEY_DLL_SAME_BIT_WIDTH'', ''General.seed_n_key_dll_same_bit_width''),
      (''DISCONNECT_RESPONSE_OPTIONAL'', ''General.disconnect_response_optional''),
      (''TRANSPORT'', ''Transport.layer''), (''CREATE_DAQ_TIMESTAMPS'', ''Transport.create_daq_timestamps''),
      (''TIMEOUT'', ''Transport.timeout''), (''ALIGNMENT'', ''Transport.alignment''),
      (''HOST'', ''Transport.Eth.host''), (''PORT'', ''Transport.Eth.port''),
      (''PROTOCOL'', ''Transport.Eth.protocol''), (''IPV6'', ''Transport.Eth.ipv6''),
      (''TCP_NODELAY'', ''Transport.Eth.tcp_nodelay''), (''SERIAL_NUMBER'', ''Transport.Usb.serial_number''),
      (''CONFIGURATION_NUMBER'', ''Transport.Usb.configuration_number''),
      (''INTERFACE_NUMBER'', ''Transport.Usb.interface_number''),
      (''COMMAND_ENDPOINT_NUMBER'', ''Transport.Usb.out_ep_number''),
      (''REPLY_ENDPOINT_NUMBER'', ''Transport.Usb.in_ep_number''), (''VENDOR_ID'', ''Transport.Usb.vendor_id''),
      (''PRODUCT_ID'', ''Transport.Usb.product_id''), (''LIBRARY'', ''Transport.Usb.library''),
      (''CAN_DRIVER'', ''Transport.Can.interface''), (''CHANNEL'', ''Transport.Can.channel''),
      (''MAX_DLC_REQUIRED'', ''Transport.Can.max_dlc_required''),
      (''PADDING_VALUE'', ''Transport.Can.padding_value''),
      (''CAN_USE_DEFAULT_LISTENER'', ''Transport.Can.use_default_listener''),
      (''CAN_ID_SLAVE'', ''Transport.Can.can_id_master''), (''CAN_ID_MASTER'', ''Transport.Can.can_id_slave''),
      (''CAN_ID_BROADCAST'', ''Transport.Can.can_id_broadcast''), (''BITRATE'', ''Transport.Can.bitrate''),
      (''RECEIVE_OWN_MESSAGES'', ''Transport.Can.receive_own_messages''),
      (''POLL_INTERVAL'', ''Transport.Can.poll_interval''), (''FD'', ''Transport.Can.fd''),
      (''DATA_BITRATE'', ''Transport.Can.data_bitrate''),
      (''ACCEPT_VIRTUAL'', ''Transport.Can.Kvaser.accept_virtual''), (''SJW'', ''Transport.Can.sjw_abr''),
      (''TSEG1'', ''Transport.Can.tseg1_abr''), (''TSEG2'', ''Transport.Can.tseg2_abr''),
      (''TTY_BAUDRATE'', ''Transport.Can.SlCan.ttyBaudrate''),
      (''UNIQUE_HARDWARE_ID'', ''Transport.Can.Ixxat.unique_hardware_id''),
      (''RX_FIFO_SIZE'', ''Transport.Can.Ixxat.rx_fifo_size''),
      (''TX_FIFO_SIZE'', ''Transport.Can.Ixxat.tx_fifo_size''),
      (''DRIVER_MODE'', ''Transport.Can.Kvaser.driver_mode''), (''NO_SAMP'', ''Transport.Can.Kvaser.no_samp''),
      (''SINGLE_HANDLE'', ''Transport.Can.Kvaser.single_handle''),
      (''USE_SYSTEM_TIMESTAMP'', ''Transport.Can.Neovi.use_system_timestamp''),
      (''OVERRIDE_LIBRARY_NAME'', ''Transport.Can.Neovi.override_library_name''),
      (''BAUDRATE'', ''Transport.Can.Serial.baudrate''),
      (''SLEEP_AFTER_OPEN'', ''Transport.Can.SlCan.sleep_after_open''),
      (''DEVICE_NUMBER'', ''Transport.Can.Systec.device_number''),
      (''RX_BUFFER_ENTRIES'', ''Transport.Can.Systec.rx_buffer_entries''),
      (''TX_BUFFER_ENTRIES'', ''Transport.Can.Systec.tx_buffer_entries''),
      (''FLAGS'', ''Transport.Can.Usb2Can.flags''), (''APP_NAME'', ''Transport.Can.Vector.app_name''),
      (''RX_QUEUE_SIZE'', ''Transport.Can.Vector.rx_queue_size'')]"

text \<open>The part of \<open>nested_dict_update\<close> behind the split: a missing dictionary is created, a value that is none raises.\<close>

fun set_path :: "string list \<Rightarrow> string \<Rightarrow> 'v legacy_value \<Rightarrow> 'v dict \<Rightarrow> 'v dict result" where
  "set_path [] key v d = Inr (AList.update key (Leaf v) d)"
| "set_path (part # path) key v d =
     (case map_of d part of
        Some (Leaf _) \<Rightarrow> Inl TypeError
      | Some (Node s) \<Rightarrow> rbind (set_path path key v s) (\<lambda>s'. Inr (AList.update part (Node s') d))
      | None \<Rightarrow> rbind (set_path path key v []) (\<lambda>s'. Inr (AList.update part (Node s') d)))"

definition nested_dict_update :: "'v dict \<Rightarrow> string \<Rightarrow> 'v legacy_value \<Rightarrow> 'v dict result" where
  "nested_dict_update d key v =
     (let parts = split_on (CHR ''.'') key
      in if length parts < 2 then Inl ValueError else set_path (butlast parts) (last parts) v d)"

text \<open>The state of the loop: the name of the interface, the values that wait for it, and the dictionary.\<close>

type_synonym 'v conversion = "'v legacy_value option \<times> (string \<times> 'v legacy_value) list \<times> 'v dict"

definition lower_value :: "'v legacy_value \<Rightarrow> 'v legacy_value result" where
  "lower_value v = (case v of Str s \<Rightarrow> Inr (Str (tolower s)) | Other _ \<Rightarrow> Inl AttributeError)"

definition convert_item :: "string \<times> 'v legacy_value \<Rightarrow> 'v conversion \<Rightarrow> 'v conversion result" where
  "convert_item = (\<lambda>(k, v) (interface, resolv, d).
     (let key = toupper k
      in case map_of LEGACY_KEYWORDS key of
           None \<Rightarrow> Inr (interface, resolv, d)
         | Some item \<Rightarrow>
             rbind (if key = ''CAN_DRIVER'' then rbind (lower_value v) (\<lambda>l. Inr (l, Some l)) else Inr (v, interface))
               (\<lambda>(v', interface').
                if key \<in> {''SERIAL'', ''LOG_ERRORS'', ''STATE'', ''RTSCTS''} then Inr (interface', resolv @ [(key, v')], d)
                else rbind (nested_dict_update d item v') (\<lambda>d'. Inr (interface', resolv, d')))))"

definition RESOLVED :: "(string \<times> string \<times> string) list" where
  "RESOLVED = [(''SERIAL'', ''neovi'', ''Transport.Can.Neovi.serial''), (''SERIAL'', ''vector'', ''Transport.Can.Vector.serial''),
     (''LOG_ERRORS'', ''nican'', ''Transport.Can.NiCan.log_errors''), (''STATE'', ''pcan'', ''Transport.Can.PCan.state''),
     (''STATE'', ''systec'', ''Transport.Can.Systec.state''), (''RTSCTS'', ''serial'', ''Transport.Can.Serial.rtscts''),
     (''RTSCTS'', ''slcan'', ''Transport.Can.SlCan.rtscts'')]"

definition resolve_item :: "'v legacy_value option \<Rightarrow> string \<times> 'v legacy_value \<Rightarrow> 'v dict \<Rightarrow> 'v dict" where
  "resolve_item interface = (\<lambda>(key, v) d.
     (case List.find (\<lambda>(k, i, name). k = key \<and> interface = Some (Str i)) RESOLVED of
        Some (k, i, name) \<Rightarrow> AList.update name (Leaf v) d
      | None \<Rightarrow> d))"

definition convert_config :: "(string \<times> 'v legacy_value) list \<Rightarrow> 'v dict result" where
  "convert_config legacy =
     rbind (for_each convert_item legacy (None, [], [])) (\<lambda>(interface, resolv, d). Inr (fold (resolve_item interface) resolv d))"

subsection \<open>The file\<close>

text \<open>
  The places for a file of a given name: the environment variable (if it is set), the name as a path, and
  the same in the home directory and in the directory of the script (if there is one).
\<close>

record 'p places =
  env_path :: "'p option"
  direct_path :: 'p
  is_absolute :: bool
  home_path :: 'p
  resolved_path :: 'p
  script_path :: "'p option"

definition find_config_file :: "('p \<Rightarrow> bool) \<Rightarrow> 'p places \<Rightarrow> 'p option" where
  "find_config_file exists pl =
     (if (case env_path pl of Some p \<Rightarrow> exists p | None \<Rightarrow> False) then env_path pl
      else if is_absolute pl then (if exists (direct_path pl) then Some (direct_path pl) else None)
      else if exists (home_path pl) then Some (home_path pl)
      else if exists (direct_path pl) then Some (resolved_path pl)
      else case script_path pl of
             Some p \<Rightarrow> (if exists p then Some p else None)
           | None \<Rightarrow> None)"

text \<open>
  \<open>read_configuration_file\<close>: a Python file is handed to the loader of \<open>traitlets\<close>; the others are parsed. The new
  state is whether the file was one of the former format and, if that gave something, the configuration.
\<close>

datatype 'v loaded = FromPython 'v | FromLegacy "'v dict" | Unchanged

definition read_configuration_file ::
  "('p \<Rightarrow> bool) \<Rightarrow> ('p \<Rightarrow> string) \<Rightarrow> ('p \<Rightarrow> 'v result) \<Rightarrow> (string \<Rightarrow> 'p \<Rightarrow> (string \<times> 'v legacy_value) list result)
     \<Rightarrow> 'p places \<Rightarrow> 'v loaded result \<times> bool" where
  "read_configuration_file exists file_suffix load_config parsed pl =
     (case find_config_file exists pl of
        None \<Rightarrow> (Inl FileNotFoundError, False)
      | Some p \<Rightarrow>
          (let s = tolower (file_suffix p)
           in if s = ''.py'' then (rbind (load_config p) (\<lambda>c. Inr (FromPython c)), False)
              else if s \<noteq> ''.json'' \<and> s \<noteq> ''.toml'' then (Inl ValueError, True)
              else (rbind (parsed s p) (\<lambda>cfg.
                      if cfg = [] then Inr Unchanged else rbind (convert_config cfg) (\<lambda>d. Inr (FromLegacy d))), True)))"

section \<open>Lemmas\<close>

subsection \<open>Nested dictionaries\<close>

fun value_at :: "'v dict \<Rightarrow> string list \<Rightarrow> 'v legacy_value option" where
  "value_at d [] = None"
| "value_at d [k] = (case map_of d k of Some (Leaf v) \<Rightarrow> Some v | _ \<Rightarrow> None)"
| "value_at d (k # l # ks) = (case map_of d k of Some (Node s) \<Rightarrow> value_at s (l # ks) | _ \<Rightarrow> None)"

lemma value_at_empty [simp]: "value_at [] q = None"
  by (cases q rule: list.exhaust [case_names Nil Cons]; cases "tl q") auto

lemma value_at_Cons: "ks \<noteq> [] \<Longrightarrow> value_at d (k # ks) = (case map_of d k of Some (Node s) \<Rightarrow> value_at s ks | _ \<Rightarrow> None)"
  by (cases ks) (auto split: option.split conf.split)

text \<open>Setting a value changes the value at its path, and removes what lay below it.\<close>

lemma value_at_set_path:
  "set_path ps k v d = Inr d' \<Longrightarrow>
   value_at d' q = (if q = ps @ [k] then Some v else if strict_prefix (ps @ [k]) q then None else value_at d q)"
proof (induction ps arbitrary: d d' q)
  case Nil
  then have d': "d' = AList.update k (Leaf v) d" by simp
  show ?case
  proof (cases q)
    case (Cons x xs)
    then show ?thesis by (cases xs) (auto simp: d' update_conv' value_at_Cons strict_prefix_def)
  qed (simp add: strict_prefix_def)
next
  case (Cons p ps)
  obtain s s' where s: "set_path ps k v s = Inr s'" "d' = AList.update p (Node s') d"
    "map_of d p = Some (Node s) \<or> map_of d p = None \<and> s = []"
    using Cons.prems by (auto simp: rbind_Inr_iff split: option.splits conf.splits)
  show ?case
  proof (cases q)
    case Nil
    then show ?thesis by (simp add: strict_prefix_def)
  next
    case q: (Cons x xs)
    show ?thesis
    proof (cases xs)
      case Nil
      then show ?thesis using s by (auto simp: q update_conv' strict_prefix_def split: conf.split)
    next
      case (Cons y ys)
      then have "xs \<noteq> []" by simp
      then show ?thesis
        using s Cons.IH [OF s(1), of xs] by (auto simp: q update_conv' value_at_Cons)
    qed
  qed
qed

lemma set_path_total:
  "(\<And>q. value_at d q \<noteq> None \<Longrightarrow> \<not> prefix q ps) \<Longrightarrow> \<exists>d'. set_path ps k v d = Inr d'"
proof (induction ps arbitrary: d)
  case (Cons p ps)
  consider "map_of d p = None" | s where "map_of d p = Some (Node s)" | u where "map_of d p = Some (Leaf u)"
    by (metis conf.exhaust option.exhaust)
  then show ?case
  proof cases
    case 1
    then show ?thesis using Cons.IH [of "[]"] by auto
  next
    case 2
    have "\<not> prefix q ps" if "value_at s q \<noteq> None" for q
    proof -
      have "q \<noteq> []" using that by auto
      then have "value_at d (p # q) \<noteq> None" using that 2 by (simp add: value_at_Cons)
      then show ?thesis using Cons.prems [of "p # q"] by simp
    qed
    then show ?thesis using Cons.IH [of s] 2 by auto
  next
    case 3
    then show ?thesis using Cons.prems [of "[p]"] by simp
  qed
qed simp

subsection \<open>The keywords\<close>

definition paths :: "string list list" where
  "paths = map (\<lambda>(k, item). split_on (CHR ''.'') item) LEGACY_KEYWORDS"

lemma paths_long: "list_all (\<lambda>p. 2 \<le> length p) paths"
  by code_simp

lemma paths_prefix_free: "list_all (\<lambda>p. list_all (\<lambda>q. \<not> prefix p (butlast q)) paths) paths"
  by code_simp

lemma path_facts:
  assumes "p \<in> set paths" and "q \<in> set paths"
  shows "p \<noteq> []" and "butlast p \<noteq> []" and "\<not> strict_prefix p q" and "prefix q (butlast p) = False"
proof -
  show "p \<noteq> []" "butlast p \<noteq> []"
    using paths_long assms(1) by (auto simp: list_all_iff butlast_conv_take dest!: bspec [of _ _ p])
  show *: "prefix q (butlast p) = False" using paths_prefix_free assms by (auto simp: list_all_iff)
  have "\<not> prefix p (butlast q)" using paths_prefix_free assms by (auto simp: list_all_iff)
  moreover have "q \<noteq> []" using paths_long assms(2) by (auto simp: list_all_iff)
  ultimately show "\<not> strict_prefix p q"
    using prefix_snoc [of p "butlast q" "last q"] by (auto simp: strict_prefix_def)
qed

lemma keyword_path: "map_of LEGACY_KEYWORDS k = Some item \<Longrightarrow> split_on (CHR ''.'') item \<in> set paths"
  by (force simp: paths_def dest: map_of_SomeD)

text \<open>The keywords that depend on the interface are not known to the table, so they are never looked at.\<close>

lemma keyword_not_resolved: "map_of LEGACY_KEYWORDS k = Some item \<Longrightarrow> k \<notin> {''SERIAL'', ''LOG_ERRORS'', ''STATE'', ''RTSCTS''}"
proof
  assume "map_of LEGACY_KEYWORDS k = Some item" "k \<in> {''SERIAL'', ''LOG_ERRORS'', ''STATE'', ''RTSCTS''}"
  moreover have "map_of LEGACY_KEYWORDS ''SERIAL'' = None" "map_of LEGACY_KEYWORDS ''LOG_ERRORS'' = None"
    "map_of LEGACY_KEYWORDS ''STATE'' = None" "map_of LEGACY_KEYWORDS ''RTSCTS'' = None"
    by (simp_all add: LEGACY_KEYWORDS_def)
  ultimately show False by auto
qed

subsection \<open>The loop\<close>

definition setting_of :: "string \<times> 'v legacy_value \<Rightarrow> (string list \<times> 'v legacy_value) option" where
  "setting_of = (\<lambda>(k, v). case map_of LEGACY_KEYWORDS (toupper k) of
     None \<Rightarrow> None
   | Some item \<Rightarrow> Some (split_on (CHR ''.'') item,
       case v of Str s \<Rightarrow> Str (if toupper k = ''CAN_DRIVER'' then tolower s else s) | Other x \<Rightarrow> Other x))"

definition convertible :: "string \<times> 'v legacy_value \<Rightarrow> bool" where
  "convertible = (\<lambda>(k, v). toupper k = ''CAN_DRIVER'' \<longrightarrow> (\<exists>s. v = Str s))"

definition known_paths :: "'v dict \<Rightarrow> bool" where
  "known_paths d \<longleftrightarrow> (\<forall>q. value_at d q \<noteq> None \<longrightarrow> q \<in> set paths)"

lemma nested_update:
  assumes "known_paths d" and "map_of LEGACY_KEYWORDS k = Some item"
  shows "\<exists>d'. nested_dict_update d item v = Inr d' \<and> known_paths d'
    \<and> (\<forall>q. value_at d' q = (if q = split_on (CHR ''.'') item then Some v else value_at d q))"
proof -
  let ?p = "split_on (CHR ''.'') item"
  have p: "?p \<in> set paths" by (rule keyword_path [OF assms(2)])
  have "\<exists>d'. set_path (butlast ?p) (last ?p) v d = Inr d'"
  proof (rule set_path_total)
    fix q assume "value_at d q \<noteq> None"
    then show "\<not> prefix q (butlast ?p)" using assms(1) path_facts(4) [OF p] by (auto simp: known_paths_def)
  qed
  then obtain d' where d': "set_path (butlast ?p) (last ?p) v d = Inr d'" by blast
  have "value_at d' q = (if q = ?p then Some v else value_at d q)" for q
  proof (cases "strict_prefix ?p q")
    case True
    then have "q \<notin> set paths" using path_facts(3) [OF p] by blast
    then have "value_at d q = None" using assms(1) by (auto simp: known_paths_def)
    then show ?thesis using value_at_set_path [OF d', of q] True by simp
  next
    case False
    then show ?thesis using value_at_set_path [OF d', of q] by simp
  qed
  moreover have "known_paths d'" using calculation assms(1) p by (auto simp: known_paths_def)
  moreover have "2 \<le> length ?p" using paths_long p by (auto simp: list_all_iff)
  ultimately show ?thesis using d' by (auto simp: nested_dict_update_def Let_def)
qed

lemma convert_item_step:
  assumes "known_paths d"
  shows "if convertible kv
    then \<exists>i' d'. convert_item kv (i, [], d) = Inr (i', [], d') \<and> known_paths d'
      \<and> value_at d' = value_at d ++ (case setting_of kv of None \<Rightarrow> Map.empty | Some (p, v) \<Rightarrow> [p \<mapsto> v])
    else convert_item kv (i, [], d) = Inl AttributeError"
proof -
  obtain k v where kv: "kv = (k, v)" by (cases kv)
  have driver: "map_of LEGACY_KEYWORDS ''CAN_DRIVER'' = Some ''Transport.Can.interface''" by (simp add: LEGACY_KEYWORDS_def)
  show ?thesis
  proof (cases "map_of LEGACY_KEYWORDS (toupper k)")
    case None
    then have "toupper k \<noteq> ''CAN_DRIVER''" using driver by auto
    with None assms show ?thesis by (simp add: kv convertible_def convert_item_def setting_of_def)
  next
    case (Some item)
    show ?thesis
    proof (cases "convertible kv")
      case True
      define w where "w = (case v of Str s \<Rightarrow> Str (if toupper k = ''CAN_DRIVER'' then tolower s else s) | Other x \<Rightarrow> Other x)"
      obtain d' where "nested_dict_update d item w = Inr d'" "known_paths d'"
        "\<And>q. value_at d' q = (if q = split_on (CHR ''.'') item then Some w else value_at d q)"
        using nested_update [OF assms Some, of w] by blast
      moreover from this have "value_at d' = value_at d ++ [split_on (CHR ''.'') item \<mapsto> w]" by (auto simp: map_add_def)
      moreover have "\<exists>i'. (if toupper k = ''CAN_DRIVER'' then rbind (lower_value v) (\<lambda>l. Inr (l, Some l)) else Inr (v, i)) = Inr (w, i')"
        using True by (cases v) (auto simp: kv convertible_def w_def lower_value_def)
      ultimately show ?thesis
        using True Some keyword_not_resolved [OF Some]
        by (auto simp: kv convert_item_def setting_of_def Let_def w_def)
    next
      case False
      with Some show ?thesis
        by (cases v) (auto simp: kv convertible_def convert_item_def lower_value_def)
    qed
  qed
qed

lemma convert_items:
  assumes "known_paths d"
  shows "if list_all convertible items
    then \<exists>i' d'. for_each convert_item items (i, [], d) = Inr (i', [], d')
      \<and> value_at d' = value_at d ++ map_of (List.map_filter setting_of (rev items))
    else for_each convert_item items (i, [], d) = Inl AttributeError"
  using assms
proof (induction items arbitrary: i d)
  case Nil
  then show ?case by (simp add: List.map_filter_def)
next
  case (Cons kv items)
  show ?case
  proof (cases "convertible kv")
    case True
    then obtain i' d' where 1: "convert_item kv (i, [], d) = Inr (i', [], d')" "known_paths d'"
      "value_at d' = value_at d ++ (case setting_of kv of None \<Rightarrow> Map.empty | Some (p, v) \<Rightarrow> [p \<mapsto> v])"
      using convert_item_step [OF Cons.prems, of kv i] by auto
    have "map_of (List.map_filter setting_of (rev (kv # items)))
        = (case setting_of kv of None \<Rightarrow> Map.empty | Some (p, v) \<Rightarrow> [p \<mapsto> v]) ++ map_of (List.map_filter setting_of (rev items))"
      by (auto simp: List.map_filter_def split: option.split)
    then show ?thesis using True Cons.IH [OF 1(2), of i'] 1(1,3) by (simp split: if_splits)
  next
    case False
    then show ?thesis using convert_item_step [OF Cons.prems, of kv i] by simp
  qed
qed

section \<open>Properties\<close>

text \<open>
  Converting a configuration of the former format puts the value of every keyword of the table, in any case, at
  the path the table names, and nothing else anywhere; of equal keywords the last counts, and the name of the
  CAN interface is put in lower case. It raises only for one that is not a string. The
  keywords SERIAL, LOG_ERRORS, STATE and RTSCTS are ignored, although the code provides for them.
\<close>

theorem legacy_config_converted:
  fixes items :: "(string \<times> 'v legacy_value) list"
  shows "(if list_all convertible items
      then \<exists>d. convert_config items = Inr d \<and> value_at d = map_of (List.map_filter setting_of (rev items))
      else convert_config items = Inl AttributeError)
   \<and> list_all (\<lambda>k. setting_of (k, v) = None) [''SERIAL'', ''LOG_ERRORS'', ''STATE'', ''RTSCTS'']"
proof (intro conjI)
  have "known_paths ([] :: 'v dict)" by (simp add: known_paths_def)
  moreover have "value_at ([] :: 'v dict) = Map.empty" by (rule ext) simp
  ultimately show "if list_all convertible items
      then \<exists>d. convert_config items = Inr d \<and> value_at d = map_of (List.map_filter setting_of (rev items))
      else convert_config items = Inl AttributeError"
    using convert_items [of "[]" items None] by (auto simp: convert_config_def split: if_splits)
  have "map_of LEGACY_KEYWORDS k = None" if "k \<in> set [''SERIAL'', ''LOG_ERRORS'', ''STATE'', ''RTSCTS'']" for k
    using that keyword_not_resolved [of k] by (cases "map_of LEGACY_KEYWORDS k") auto
  moreover have "list_all (\<lambda>k. toupper k = k) [''SERIAL'', ''LOG_ERRORS'', ''STATE'', ''RTSCTS'']" by code_simp
  ultimately show "list_all (\<lambda>k. setting_of (k, v) = None) [''SERIAL'', ''LOG_ERRORS'', ''STATE'', ''RTSCTS'']"
    by (simp add: setting_of_def)
qed

text \<open>
  The file that is read is the first that exists of: that of the environment variable; a name with an
  absolute path, and then nothing else; the file in the home directory, before the one in the working directory.
\<close>

theorem config_file_search:
  assumes "\<not> (\<exists>p. env_path pl = Some p \<and> exists p)"
  shows "is_absolute pl \<longrightarrow> find_config_file exists pl = (if exists (direct_path pl) then Some (direct_path pl) else None)"
    and "\<not> is_absolute pl \<longrightarrow> exists (home_path pl) \<longrightarrow> find_config_file exists pl = Some (home_path pl)"
    and "find_config_file exists pl = None \<longrightarrow> fst (read_configuration_file exists sfx load parsed pl) = Inl FileNotFoundError"
  using assms by (auto simp: find_config_file_def read_configuration_file_def split: option.splits)

end
