(* ===== verification/Discovery.thy ===== *)
theory Discovery
  imports Struct_Codec
begin

text \<open>
  The Ethernet discovery of \<open>pyxcp/scripts/xcp_discovery.py\<close>: the requests GET_SLAVE_ID, GET_SLAVE_ID_EXTENDED and
  SET_SLAVE_IP_ADDRESS, the collection of the answers from every network interface, and their classification. The
  network is a parameter: for a packet, what every interface yields until its time-out, or the exception of its
  socket. \<open>inet_aton\<close> is the system's, and the parsers are made by \<open>construct\<close> (\<open>None\<close> is an exception). Of the
  command line there are the reading of MAC addresses and the texts for resources and protocols.
\<close>

section \<open>Model\<close>

subsection \<open>Packets\<close>

abbreviation (input) TRANSPORT_LAYER_COMMAND :: byte where "TRANSPORT_LAYER_COMMAND \<equiv> 0xF2"
abbreviation (input) GET_SLAVE_ID_ETH :: byte where "GET_SLAVE_ID_ETH \<equiv> 0xFF"
abbreviation (input) GET_SLAVE_ID_EXTENDED :: byte where "GET_SLAVE_ID_EXTENDED \<equiv> 0xFD"
abbreviation (input) SET_SLAVE_IP_ADDRESS :: byte where "SET_SLAVE_IP_ADDRESS \<equiv> 0xFC"

definition MAX_DATAGRAM_SIZE :: nat where "MAX_DATAGRAM_SIZE = 512"

definition pack_ipv4_address :: "(string \<Rightarrow> bytes option) \<Rightarrow> string \<Rightarrow> bytes result" where
  "pack_ipv4_address inet_aton addr = (case inet_aton addr of None \<Rightarrow> Inl ValueError | Some b \<Rightarrow> Inr b)"

definition frame_it :: "byte \<Rightarrow> bytes \<Rightarrow> bytes result" where
  "frame_it cmd payload =
     rbind (struct_pack Little 2 (int (length payload))) (\<lambda>len.
     rbind (struct_pack Little 2 0) (\<lambda>counter. Inr (len @ counter @ [cmd] @ payload)))"

definition little_word :: "bytes \<Rightarrow> nat \<Rightarrow> nat" where
  "little_word bs i = nat (uint (bs ! i) OR push_bit 8 (uint (bs ! (i + 1))))"

definition unpack_header_and_payload :: "bytes \<Rightarrow> (nat \<times> bytes) option" where
  "unpack_header_and_payload frame =
     (if length frame < 4 then None
      else let len = little_word frame 0
           in if length frame < 4 + len then None
              else Some (little_word frame 2, take len (drop 4 frame)))"

definition parse_positive_payload :: "bool \<Rightarrow> byte option \<Rightarrow> (bytes \<Rightarrow> 'c option) \<Rightarrow> bytes \<Rightarrow> 'c option" where
  "parse_positive_payload framed expected_subcommand parser payload =
     (if framed then
        (case payload of
           [] \<Rightarrow> None
         | pid # body \<Rightarrow>
             if pid \<noteq> 0xFF then None
             else parser (if body \<noteq> [] \<and> expected_subcommand = Some (hd body) then tl body else body))
      else parser payload)"

text \<open>
  A negative response is parsed in Intel byte order and, if that fails, without one. After the second failure the code
  uses a logger that the class does not have.
\<close>

definition parse_negative_payload :: "(bytes \<Rightarrow> 'c option) \<Rightarrow> (bytes \<Rightarrow> 'c option) \<Rightarrow> byte \<Rightarrow> bytes \<Rightarrow> 'c option result" where
  "parse_negative_payload parser parser_any expected_subcommand payload =
     (case payload of
        [] \<Rightarrow> Inr None
      | pid # rest \<Rightarrow>
          if pid \<noteq> 0xFE then Inr None
          else let body = (if rest \<noteq> [] \<and> hd rest = expected_subcommand then tl rest else rest)
               in case parser body of
                    Some c \<Rightarrow> Inr (Some c)
                  | None \<Rightarrow> (case parser_any body of Some c \<Rightarrow> Inr (Some c) | None \<Rightarrow> Inl AttributeError))"

subsection \<open>The network\<close>

text \<open>Datagrams with their sources. A longer datagram is cut by \<open>recvfrom\<close>.\<close>

type_synonym 'a datagram = "bytes \<times> 'a"
type_synonym 'a network = "bytes \<Rightarrow> 'a datagram list result list"

definition received :: "'a datagram \<Rightarrow> ('a \<times> nat \<times> bytes) option" where
  "received = (\<lambda>(data, addr). map_option (Pair addr) (unpack_header_and_payload (take MAX_DATAGRAM_SIZE data)))"

definition multicast_send_receive :: "'a network \<Rightarrow> bytes \<Rightarrow> ('a \<times> nat \<times> bytes) list result" where
  "multicast_send_receive net packet =
     rbind (rmap (\<lambda>r. rbind r (\<lambda>ds. Inr (List.map_filter received ds))) (net packet)) (\<lambda>xs. Inr (concat xs))"

subsection \<open>The services\<close>

definition request_payload :: "(string \<Rightarrow> bytes option) \<Rightarrow> byte \<Rightarrow> int \<Rightarrow> string \<Rightarrow> int \<Rightarrow> bytes result" where
  "request_payload inet_aton subcommand response_port response_address mode =
     rbind (struct_pack Little 2 response_port) (\<lambda>port.
     rbind (pack_ipv4_address inet_aton response_address) (\<lambda>addr.
     Inr ([subcommand] @ port @ addr @ replicate 12 0 @ [word_of_int (mode AND 0xFF)])))"

text \<open>A response, with its source and the counter of its frame.\<close>

type_synonym ('a, 'c) answer = "'a \<times> nat \<times> 'c"

definition parsed_answers :: "(bytes \<Rightarrow> 'c option) \<Rightarrow> ('a \<times> nat \<times> bytes) list \<Rightarrow> ('a, 'c) answer list" where
  "parsed_answers parse = List.map_filter (\<lambda>(addr, counter, raw_payload). map_option (\<lambda>c. (addr, counter, c)) (parse raw_payload))"

definition get_slave_id_multicast ::
  "(string \<Rightarrow> bytes option) \<Rightarrow> (bytes \<Rightarrow> 'c option) \<Rightarrow> 'a network \<Rightarrow> int \<Rightarrow> string \<Rightarrow> int \<Rightarrow> ('a, 'c) answer list result" where
  "get_slave_id_multicast inet_aton parser net response_port response_address ip_version =
     rbind (request_payload inet_aton GET_SLAVE_ID_ETH response_port response_address ip_version) (\<lambda>payload.
     rbind (frame_it TRANSPORT_LAYER_COMMAND payload) (\<lambda>packet.
     rbind (multicast_send_receive net packet) (\<lambda>frames.
     Inr (parsed_answers (parse_positive_payload False None parser) frames))))"

definition get_slave_id_extended_multicast ::
  "(string \<Rightarrow> bytes option) \<Rightarrow> (bytes \<Rightarrow> 'c option) \<Rightarrow> 'a network \<Rightarrow> int \<Rightarrow> string \<Rightarrow> int \<Rightarrow> ('a, 'c) answer list result" where
  "get_slave_id_extended_multicast inet_aton parser net response_port response_address mode =
     rbind (request_payload inet_aton GET_SLAVE_ID_EXTENDED response_port response_address mode) (\<lambda>payload.
     rbind (frame_it TRANSPORT_LAYER_COMMAND payload) (\<lambda>packet.
     rbind (multicast_send_receive net packet) (\<lambda>frames.
     Inr (parsed_answers (parse_positive_payload True (Some GET_SLAVE_ID_EXTENDED) parser) frames))))"

fun sort_answers :: "(bytes \<Rightarrow> 'c option) \<Rightarrow> (bytes \<Rightarrow> 'd option result) \<Rightarrow> ('a \<times> nat \<times> bytes) list
    \<Rightarrow> (('a, 'c) answer list \<times> ('a, 'd) answer list) result" where
  "sort_answers pos neg [] = Inr ([], [])"
| "sort_answers pos neg ((addr, counter, raw_payload) # frames) =
     (case pos raw_payload of
        Some c \<Rightarrow> rbind (sort_answers pos neg frames) (\<lambda>(ps, ns). Inr ((addr, counter, c) # ps, ns))
      | None \<Rightarrow>
          rbind (neg raw_payload) (\<lambda>parsed.
          rbind (sort_answers pos neg frames) (\<lambda>(ps, ns).
            Inr (ps, (case parsed of Some c \<Rightarrow> [(addr, counter, c)] | None \<Rightarrow> []) @ ns))))"

definition set_slave_ip_address ::
  "(string \<Rightarrow> bytes option) \<Rightarrow> (bytes \<Rightarrow> 'c option) \<Rightarrow> (bytes \<Rightarrow> 'd option) \<Rightarrow> (bytes \<Rightarrow> 'd option) \<Rightarrow> 'a network
     \<Rightarrow> bytes \<Rightarrow> string \<Rightarrow> int \<Rightarrow> string \<Rightarrow> int \<Rightarrow> (('a, 'c) answer list \<times> ('a, 'd) answer list) result" where
  "set_slave_ip_address inet_aton parser neg_parser neg_parser_any net mac new_ip response_port response_address mode =
     (if length mac \<noteq> 6 then Inl ValueError
      else
        rbind (request_payload inet_aton SET_SLAVE_IP_ADDRESS response_port response_address mode) (\<lambda>payload.
        rbind (pack_ipv4_address inet_aton new_ip) (\<lambda>ip.
        rbind (frame_it TRANSPORT_LAYER_COMMAND (payload @ mac @ ip)) (\<lambda>packet.
        rbind (multicast_send_receive net packet) (\<lambda>frames.
        sort_answers (parse_positive_payload True (Some SET_SLAVE_IP_ADDRESS) parser)
          (parse_negative_payload neg_parser neg_parser_any SET_SLAVE_IP_ADDRESS) frames)))))"

subsection \<open>The command line\<close>

text \<open>\<open>int(part, 16)\<close> of ASCII text: blanks around it, a sign, \<open>0x\<close>, digits with single underscores between them.\<close>

definition hex_digit :: "char \<Rightarrow> int option" where
  "hex_digit c =
     (let n = of_char c :: int
      in if 48 \<le> n \<and> n \<le> 57 then Some (n - 48)
         else if 65 \<le> n \<and> n \<le> 70 then Some (n - 55)
         else if 97 \<le> n \<and> n \<le> 102 then Some (n - 87)
         else None)"

fun hex_value :: "string \<Rightarrow> int \<Rightarrow> bool \<Rightarrow> int option" where
  "hex_value [] acc digit = (if digit then Some acc else None)"
| "hex_value (c # cs) acc digit =
     (case hex_digit c of
        Some v \<Rightarrow> hex_value cs (16 * acc + v) True
      | None \<Rightarrow> if c = CHR ''_'' \<and> digit then hex_value cs acc False else None)"

definition unsigned_hex :: "string \<Rightarrow> int option" where
  "unsigned_hex s =
     (case s of
        c # d # cs \<Rightarrow> if c = CHR ''0'' \<and> (d = CHR ''x'' \<or> d = CHR ''X'') then hex_value cs 0 (cs \<noteq> [] \<and> hd cs = CHR ''_'')
                    else hex_value s 0 False
      | _ \<Rightarrow> hex_value s 0 False)"

definition int_base_16 :: "string \<Rightarrow> int option" where
  "int_base_16 text =
     (let blank = (\<lambda>c. let n = of_char c :: nat in 9 \<le> n \<and> n \<le> 13 \<or> 28 \<le> n \<and> n \<le> 32);
          s = rev (dropWhile blank (rev (dropWhile blank text)))
      in case s of
           [] \<Rightarrow> None
         | c # cs \<Rightarrow>
             if c = CHR ''-'' then map_option uminus (unsigned_hex cs)
             else if c = CHR ''+'' then unsigned_hex cs
             else unsigned_hex s)"

definition mac_octet :: "string \<Rightarrow> byte result" where
  "mac_octet part =
     (case int_base_16 part of
        None \<Rightarrow> Inl ArgumentTypeError
      | Some v \<Rightarrow> if 0 \<le> v \<and> v < 256 then Inr (word_of_int v) else Inl ArgumentTypeError)"

definition parse_mac :: "string \<Rightarrow> bytes result" where
  "parse_mac text =
     (let cleaned = filter (\<lambda>c. c \<noteq> CHR ''.'') (map (\<lambda>c. if c = CHR ''-'' then CHR '':'' else c) text);
          parts = (if CHR '':'' \<in> set cleaned then split_on (CHR '':'') cleaned else chunks 2 cleaned)
      in if length parts \<noteq> 6 then Inl ArgumentTypeError else rmap mac_octet parts)"

definition format_resource :: "(string \<times> bool) list \<Rightarrow> string" where
  "format_resource flags =
     (case map fst (filter snd flags) of
        [] \<Rightarrow> ''NONE''
      | name # names \<Rightarrow> foldl (\<lambda>text n. text @ '', '' @ n) name names)"

definition resource_flags :: "bool \<Rightarrow> bool \<Rightarrow> bool \<Rightarrow> bool \<Rightarrow> bool \<Rightarrow> (string \<times> bool) list" where
  "resource_flags dbg pgm stim daq calpag = [(''DBG'', dbg), (''PGM'', pgm), (''STIM'', stim), (''DAQ'', daq), (''CALPAG'', calpag)]"

definition format_protocol :: "bool \<Rightarrow> bool \<Rightarrow> string" where
  "format_protocol protocol_i protocol_ii =
     (let v = (if protocol_i then 1 else 0) OR (if protocol_ii then 2 else (0 :: int))
      in case map_of [(0, ''TCP only''), (1, ''UDP only''), (2, ''TCP + UDP''), (3, ''reserved'')] v of
           Some t \<Rightarrow> t
         | None \<Rightarrow> ''unknown'')"

section \<open>Lemmas\<close>

subsection \<open>Answers\<close>

text \<open>What a slave sends: length, counter and packet.\<close>

definition response_frame :: "nat \<Rightarrow> bytes \<Rightarrow> bytes" where
  "response_frame counter p = le_bytes 2 (int (length p)) @ le_bytes 2 (int counter) @ p"

definition response_ok :: "nat \<times> bytes \<times> 'a \<Rightarrow> bool" where
  "response_ok = (\<lambda>(counter, p, addr). counter < 65536 \<and> length p + 4 \<le> MAX_DATAGRAM_SIZE)"

lemma word_octets:
  assumes "0 \<le> v" and "v < 65536"
  shows "uint (word_of_int v :: byte) OR push_bit 8 (uint (word_of_int (v div 256) :: byte)) = v"
proof -
  have "take_bit 16 v = v" using assms by (simp add: take_bit_int_eq_self)
  then have lim: "bit v n \<Longrightarrow> n < 16" for n by (metis bit_take_bit_iff)
  show ?thesis
  proof (rule bit_eqI)
    fix n
    show "bit (uint (word_of_int v :: byte) OR push_bit 8 (uint (word_of_int (v div 256) :: byte))) n \<longleftrightarrow> bit v n"
      using lim [of n] by (auto simp: uint_word_of_int_eq bit_or_iff bit_take_bit_iff bit_push_bit_iff bit_drop_bit_eq
          simp flip: drop_bit_eq_div [of 8, simplified])
  qed
qed

lemma little_word_le_bytes:
  assumes "0 \<le> v" and "v < 65536" and "drop i bs = le_bytes 2 v @ rest" and "i + 1 < length bs"
  shows "little_word bs i = nat v"
proof -
  have "bs ! i = word_of_int v" "bs ! (i + 1) = word_of_int (v div 256)"
    using assms(3,4) nth_drop [of i bs 0] nth_drop [of i bs 1] by (simp_all add: numeral_2_eq_2)
  moreover have "uint (word_of_int v :: byte) OR push_bit 8 (uint (word_of_int (v div 256) :: byte)) = v"
    by (rule word_octets [OF assms(1,2)])
  ultimately show ?thesis by (simp add: little_word_def)
qed

lemma unpack_frame:
  assumes "response_ok (counter, p, addr)"
  shows "unpack_header_and_payload (take MAX_DATAGRAM_SIZE (response_frame counter p)) = Some (counter, p)"
proof -
  let ?f = "response_frame counter p"
  have len: "length ?f = length p + 4" by (simp add: response_frame_def)
  have f: "take MAX_DATAGRAM_SIZE ?f = ?f" using assms len by (simp add: response_ok_def)
  have "little_word ?f 0 = length p"
    using little_word_le_bytes [of "int (length p)" 0 ?f] assms
    by (simp add: response_frame_def response_ok_def MAX_DATAGRAM_SIZE_def)
  moreover have "little_word ?f 2 = counter"
    using little_word_le_bytes [of "int counter" 2 ?f] assms
    by (simp add: response_frame_def response_ok_def)
  moreover have "drop 4 ?f = p" by (simp add: response_frame_def)
  ultimately show ?thesis by (simp add: f unpack_header_and_payload_def len)
qed

text \<open>The length that \<open>frame_it\<close> writes leaves the command code out: read as a frame, a request loses its last byte.\<close>

lemma frame_length:
  assumes "frame_it cmd payload = Inr frame"
  shows "unpack_header_and_payload frame = Some (0, butlast (cmd # payload))"
proof -
  have len: "length payload < 65536"
    and frame: "frame = le_bytes 2 (int (length payload)) @ le_bytes 2 0 @ cmd # payload"
    using assms by (auto simp: frame_it_def rbind_Inr_iff struct_pack_def split: if_splits)
  have "little_word frame 0 = length payload"
    using little_word_le_bytes [of "int (length payload)" 0 frame] len by (simp add: frame)
  moreover have "little_word frame 2 = 0"
    using little_word_le_bytes [of 0 2 frame] by (simp add: frame)
  ultimately show ?thesis
    by (simp add: unpack_header_and_payload_def Let_def frame butlast_conv_take)
qed

text \<open>What the interfaces yield when slaves give these responses, interface by interface.\<close>

definition answering :: "(nat \<times> bytes \<times> 'a) list list \<Rightarrow> 'a datagram list result list" where
  "answering answers = map (\<lambda>rs. Inr (map (\<lambda>(counter, p, addr). (response_frame counter p, addr)) rs)) answers"

lemma receive_answers:
  assumes "net packet = answering answers" and "list_all response_ok (concat answers)"
  shows "multicast_send_receive net packet = Inr (map (\<lambda>(counter, p, addr). (addr, counter, p)) (concat answers))"
proof -
  have one: "List.map_filter received (map (\<lambda>(counter, p, addr). (response_frame counter p, addr)) rs)
      = map (\<lambda>(counter, p, addr). (addr, counter, p)) rs" if "list_all response_ok rs" for rs :: "(nat \<times> bytes \<times> 'a) list"
    using that by (induction rs) (auto simp: List.map_filter_def received_def unpack_frame)
  have "rmap (\<lambda>r. rbind r (\<lambda>ds. Inr (List.map_filter received ds))) (answering answers)
      = Inr (map (\<lambda>rs. map (\<lambda>(counter, p, addr). (addr, counter, p)) rs) answers)"
    using assms(2) by (induction answers) (simp_all add: answering_def one)
  then show ?thesis by (simp add: multicast_send_receive_def map_concat assms(1))
qed

text \<open>The packet of a discovery request, and the answers it accepts.\<close>

definition discovery_packet :: "byte \<Rightarrow> int \<Rightarrow> bytes \<Rightarrow> int \<Rightarrow> bytes \<Rightarrow> bytes" where
  "discovery_packet subcommand port address mode extra =
     le_bytes 2 (int (20 + length extra)) @ [0, 0, 0xF2, subcommand] @ le_bytes 2 port @ address
       @ replicate 12 0 @ [word_of_int (mode AND 0xFF)] @ extra"

lemma request_frame:
  assumes "0 \<le> port" and "port < 65536" and "inet_aton name = Some address" and "length address = 4" and "length extra < 65000"
  shows "\<exists>payload. request_payload inet_aton sub port name mode = Inr payload
     \<and> frame_it 0xF2 (payload @ extra) = Inr (discovery_packet sub port address mode extra)"
  using assms by (auto simp: request_payload_def pack_ipv4_address_def frame_it_def struct_pack_def discovery_packet_def
      numeral_2_eq_2)

lemma unframed_parse: "parse_positive_payload False sub parser = parser"
  by (simp add: parse_positive_payload_def fun_eq_iff)

lemma parsed_answers_simps [simp]:
  "parsed_answers parse [] = []"
  "parsed_answers parse ((addr, counter, p) # frames) =
     (case parse p of None \<Rightarrow> parsed_answers parse frames | Some c \<Rightarrow> (addr, counter, c) # parsed_answers parse frames)"
  by (simp_all add: parsed_answers_def List.map_filter_def split: option.splits)

definition refused :: "(bytes \<Rightarrow> 'c option) \<Rightarrow> (bytes \<Rightarrow> 'd option result) \<Rightarrow> bytes \<Rightarrow> 'd option" where
  "refused pos neg p = (case pos p of Some c \<Rightarrow> None | None \<Rightarrow> (case neg p of Inr x \<Rightarrow> x | Inl e \<Rightarrow> None))"

lemma sort_answers_Inr:
  assumes "\<forall>(addr, counter, p) \<in> set frames. pos p = None \<longrightarrow> isOK (neg p)"
  shows "sort_answers pos neg frames = Inr (parsed_answers pos frames, parsed_answers (refused pos neg) frames)"
  using assms
proof (induction frames)
  case (Cons x frames)
  obtain a c q where x: "x = (a, c, q)" by (cases x)
  have rest: "sort_answers pos neg frames = Inr (parsed_answers pos frames, parsed_answers (refused pos neg) frames)"
    using Cons by simp
  show ?case
  proof (cases "pos q")
    case None
    then obtain y where "neg q = Inr y" using Cons.prems by (auto simp: x isOK_iff)
    then show ?thesis using None by (cases y) (simp_all add: x rest refused_def [of _ _ q])
  qed (simp add: x rest refused_def [of _ _ q])
qed simp

lemma sort_answers_Inl:
  assumes "(addr, counter, p) \<in> set frames" and "pos p = None" and "neg p = Inl e"
    and "\<And>p e'. neg p = Inl e' \<Longrightarrow> e' = e"
  shows "sort_answers pos neg frames = Inl e"
  using assms(1)
proof (induction frames)
  case (Cons x frames)
  obtain a c q where x: "x = (a, c, q)" by (cases x)
  have rest: "sort_answers pos neg frames = Inl e" if "(a, c, q) \<noteq> (addr, counter, p)"
    using Cons that by (auto simp: x)
  show ?case
  proof (cases "pos q")
    case None
    show ?thesis
    proof (cases "neg q")
      case (Inl e')
      then show ?thesis using None assms(4) [OF Inl] by (simp add: x)
    next
      case (Inr y)
      then have "(a, c, q) \<noteq> (addr, counter, p)" using assms(3) by auto
      then show ?thesis using None Inr rest by (simp add: x)
    qed
  next
    case (Some y)
    then have "(a, c, q) \<noteq> (addr, counter, p)" using assms(2) by auto
    then show ?thesis using Some rest by (simp add: x)
  qed
qed simp

lemma negative_errors: "parse_negative_payload parser parser_any sub p = Inl e \<Longrightarrow> e = AttributeError"
  by (auto simp: parse_negative_payload_def Let_def split: list.splits if_splits option.splits)

lemma sort_answers_cases:
  fixes pos neg_parser neg_parser_any sub
  defines "neg \<equiv> parse_negative_payload neg_parser neg_parser_any sub"
  shows "sort_answers pos neg frames =
     (if list_all (\<lambda>(addr, counter, p). pos p = None \<longrightarrow> isOK (neg p)) frames
      then Inr (parsed_answers pos frames, parsed_answers (refused pos neg) frames)
      else Inl AttributeError)"
proof (cases "list_all (\<lambda>(addr, counter, p). pos p = None \<longrightarrow> isOK (neg p)) frames")
  case True
  then show ?thesis by (simp add: list_all_iff sort_answers_Inr)
next
  case False
  then obtain addr counter p where p: "(addr, counter, p) \<in> set frames" "pos p = None" "\<not> isOK (neg p)"
    by (auto simp: list_all_iff)
  from p(3) have "neg p = Inl AttributeError"
    unfolding neg_def by (cases "parse_negative_payload neg_parser neg_parser_any sub p") (auto dest: negative_errors)
  then have "sort_answers pos neg frames = Inl AttributeError"
    by (rule sort_answers_Inl [where pos = pos and neg = neg, OF p(1,2)]) (auto simp: neg_def dest: negative_errors)
  then show ?thesis using False by (simp only: if_False)
qed

subsection \<open>Hexadecimal text\<close>

text \<open>\<open>f"{b:02X}"\<close>, and the same in lower case.\<close>

definition hex_char :: "bool \<Rightarrow> nat \<Rightarrow> char" where
  "hex_char upper n = char_of (if n < 10 then 48 + n else if upper then 55 + n else 87 + n)"

definition hex2 :: "bool \<Rightarrow> byte \<Rightarrow> string" where
  "hex2 upper b = [hex_char upper (unat b div 16), hex_char upper (unat b mod 16)]"

definition separators :: "char list" where
  "separators = [CHR '':'', CHR ''-'', CHR ''.'', CHR ''x'', CHR ''X'', CHR ''+'', CHR '' '']"

lemma hex_chars:
  "list_all (\<lambda>u. list_all (\<lambda>n. hex_digit (hex_char u n) = Some (int n) \<and> hex_char u n \<notin> set separators
     \<and> 48 \<le> (of_char (hex_char u n) :: nat)) [0..<16]) [True, False]"
  by code_simp

lemma hex_char:
  assumes "n < 16"
  shows "hex_digit (hex_char u n) = Some (int n)" and "hex_char u n \<notin> set separators" and "48 \<le> (of_char (hex_char u n) :: nat)"
proof -
  have n: "n \<in> set [0..<16]" and u: "u \<in> set [True, False]" using assms by simp_all
  note bspec [OF bspec [OF hex_chars [unfolded list_all_iff] u] n]
  then show "hex_digit (hex_char u n) = Some (int n)" "hex_char u n \<notin> set separators" "48 \<le> (of_char (hex_char u n) :: nat)"
    by simp_all
qed

lemma unat_byte_bound: "unat (b :: byte) < 256"
  using unsigned_less [where ?'a = nat and w = b] by simp

lemma nibbles: "unat (b :: byte) div 16 < 16" "unat b mod 16 < 16"
proof -
  have "unat b < 256" by (rule unat_byte_bound)
  then show "unat b div 16 < 16" by (simp add: less_mult_imp_div_less)
qed simp

lemma mac_octet_hex2: "mac_octet (hex2 u b) = Inr b"
proof -
  note n = nibbles [of b]
  note hi = hex_char [OF n(1), of u] and lo = hex_char [OF n(2), of u]
  obtain c d where cd: "hex2 u b = [c, d]" "hex_digit c = Some (int (unat b div 16))" "hex_digit d = Some (int (unat b mod 16))"
    "48 \<le> (of_char c :: nat)" "48 \<le> (of_char d :: nat)" "c \<noteq> CHR ''-''" "c \<noteq> CHR ''+''" "d \<noteq> CHR ''x''" "d \<noteq> CHR ''X''"
    using hi lo by (simp add: hex2_def separators_def)
  have "16 * int (unat b div 16) + int (unat b mod 16) = int (unat b)"
    by (metis mult_div_mod_eq of_nat_add of_nat_mult of_nat_numeral)
  then have "int_base_16 [c, d] = Some (int (unat b))"
    using cd(2-) by (simp add: int_base_16_def Let_def unsigned_hex_def)
  moreover have "int (unat b) < 256" using unat_byte_bound [of b] by simp
  ultimately show ?thesis by (simp add: mac_octet_def cd(1))
qed

fun join :: "char \<Rightarrow> string list \<Rightarrow> string" where
  "join sep [] = []"
| "join sep [x] = x"
| "join sep (x # y # xs) = x @ sep # join sep (y # xs)"

lemma split_on_word: "sep \<notin> set x \<Longrightarrow> split_on sep x = [x]"
  by (induction x) auto

lemma split_on_append: "sep \<notin> set x \<Longrightarrow> split_on sep (x @ sep # y) = x # split_on sep y"
  by (induction x) auto

lemma split_on_join: "\<forall>x \<in> set xs. sep \<notin> set x \<Longrightarrow> xs \<noteq> [] \<Longrightarrow> split_on sep (join sep xs) = xs"
  by (induction sep xs rule: join.induct) (simp_all add: split_on_word split_on_append)

text \<open>What \<open>parse_mac\<close> makes of separators.\<close>

definition cleaned :: "string \<Rightarrow> string" where
  "cleaned text = filter (\<lambda>c. c \<noteq> CHR ''.'') (map (\<lambda>c. if c = CHR ''-'' then CHR '':'' else c) text)"

lemma cleaned_simps [simp]:
  "cleaned [] = []"
  "cleaned (c # cs) = (if c = CHR ''.'' then cleaned cs else (if c = CHR ''-'' then CHR '':'' else c) # cleaned cs)"
  "cleaned (xs @ ys) = cleaned xs @ cleaned ys"
  by (simp_all add: cleaned_def)

lemma hex2_clean: "cleaned (hex2 u b) = hex2 u b" "CHR '':'' \<notin> set (hex2 u b)" "length (hex2 u b) = 2"
proof -
  note n = nibbles [of b]
  then show "cleaned (hex2 u b) = hex2 u b" "CHR '':'' \<notin> set (hex2 u b)"
    using hex_char(2) [OF n(1), of u] hex_char(2) [OF n(2), of u] by (auto simp: hex2_def separators_def)
qed (simp add: hex2_def)

lemma cleaned_join: "sep \<in> {CHR '':'', CHR ''-''} \<Longrightarrow> cleaned (join sep (map (hex2 u) bs)) = join (CHR '':'') (map (hex2 u) bs)"
  by (induction bs rule: induct_list012) (auto simp: hex2_clean)

lemma cleaned_dotted: "cleaned (join (CHR ''.'') (map (\<lambda>(a, b). hex2 u a @ hex2 u b) bs)) = concat (map (\<lambda>(a, b). hex2 u a @ hex2 u b) bs)"
  by (induction bs rule: induct_list012) (auto simp: hex2_clean)

lemma cleaned_plain: "cleaned (concat (map (hex2 u) bs)) = concat (map (hex2 u) bs)"
  by (induction bs) (auto simp: hex2_clean)

lemma chunks_hex2: "chunks 2 (concat (map (hex2 u) bs)) = map (hex2 u) bs"
  by (induction bs) (simp_all add: chunks_append hex2_clean)

lemma octets_hex2: "rmap mac_octet (map (hex2 u) bs) = Inr bs"
  by (induction bs) (simp_all add: mac_octet_hex2)

lemma parse_mac_cleaned:
  "parse_mac text =
     (let parts = (if CHR '':'' \<in> set (cleaned text) then split_on (CHR '':'') (cleaned text) else chunks 2 (cleaned text))
      in if length parts \<noteq> 6 then Inl ArgumentTypeError else rmap mac_octet parts)"
  by (simp only: parse_mac_def cleaned_def Let_def)

lemma parse_mac_plain:
  assumes "cleaned text = concat (map (hex2 u) mac)" and "length mac = 6"
  shows "parse_mac text = Inr mac"
  using assms by (simp add: parse_mac_cleaned hex2_clean chunks_hex2 octets_hex2 Let_def)

lemma sep_in_join: "2 \<le> length xs \<Longrightarrow> sep \<in> set (join sep xs)"
  by (induction sep xs rule: join.induct) auto

lemma parse_mac_separated:
  assumes "sep \<in> {CHR '':'', CHR ''-''}" and "length mac = 6"
  shows "parse_mac (join sep (map (hex2 u) mac)) = Inr mac"
proof -
  have "split_on (CHR '':'') (join (CHR '':'') (map (hex2 u) mac)) = map (hex2 u) mac"
    using assms(2) by (intro split_on_join) (auto simp: hex2_clean)
  then show ?thesis
    using assms by (simp add: parse_mac_cleaned cleaned_join sep_in_join octets_hex2 Let_def)
qed

section \<open>Properties\<close>

text \<open>
  The options of the discovery script for MAC addresses lose nothing: an address of six octets, written with
  colons, with dashes, in the dotted form of three groups or without separators, in either case of the hexadecimal
  digits, is read back octet for octet.
\<close>

theorem mac_roundtrip:
  assumes "length mac = 6"
  shows "parse_mac (join (CHR '':'') (map (hex2 u) mac)) = Inr mac
    \<and> parse_mac (join (CHR ''-'') (map (hex2 u) mac)) = Inr mac
    \<and> parse_mac (join (CHR ''.'') (map (\<lambda>i. hex2 u (mac ! i) @ hex2 u (mac ! (i + 1))) [0, 2, 4])) = Inr mac
    \<and> parse_mac (concat (map (hex2 u) mac)) = Inr mac"
proof -
  obtain a b c d e f where mac: "mac = [a, b, c, d, e, f]"
    using assms by (auto simp: numeral_eq_Suc length_Suc_conv)
  have "parse_mac (join (CHR ''.'') (map (\<lambda>i. hex2 u (mac ! i) @ hex2 u (mac ! (i + 1))) [0, 2, 4])) = Inr mac"
    by (rule parse_mac_plain [of _ u]) (simp_all add: mac hex2_clean)
  moreover have "parse_mac (concat (map (hex2 u) mac)) = Inr mac"
    by (rule parse_mac_plain) (simp_all add: cleaned_plain assms)
  ultimately show ?thesis by (simp add: parse_mac_separated assms)
qed

theorem mac_roundtrip_witness:
  "parse_mac ''00:1A:2b:3C:4d:FF'' = Inr [0x00, 0x1A, 0x2B, 0x3C, 0x4D, 0xFF]
   \<and> parse_mac (join (CHR ''-'') (map (hex2 True) [0x00, 0x1A, 0x2B, 0x3C, 0x4D, 0xFF])) = Inr [0x00, 0x1A, 0x2B, 0x3C, 0x4D, 0xFF]"
  using mac_roundtrip [of "[0x00, 0x1A, 0x2B, 0x3C, 0x4D, 0xFF]" True] by (simp; code_simp)



end
