(* ===== verification/Daq_Decoder.thy ===== *)
theory Daq_Decoder
  imports Struct_Codec
begin

text \<open>
  The decoding of DAQ packets (\<open>pyxcp/recorder/unfolder.hpp\<close>): the classes \<open>Getter\<close>, which reads numbers in the
  byte order of the slave, \<open>DaqListState\<close>, which collects the packets of one sample of a list, and \<open>DAQProcessor\<close>. The
  byte order of the machine and the optional 16-bit floating point types are parameters; a floating point value is kept as its
  type and its bits. The multiplication with the scale factor is a parameter. Integers of 8 and 16 bits are natural numbers,
  cut off where the code's can wrap around; times are 64-bit words. Undefined behaviour, an exception, the end of
  the process by an exception in a function that is \<open>noexcept\<close>, and a loop that never ends are faults.
\<close>

section \<open>Model\<close>

record platform =
  native :: byteorder
  has_float16 :: bool
  has_bfloat16 :: bool

datatype fault = Undefined_behaviour | Runtime_error | Terminate | Endless
type_synonym 'a exec = "fault + 'a"

subsection \<open>Numbers\<close>

datatype measurement_value = Int64 int | UInt64 int | LongDouble nat int

definition bswap16 :: "16 word \<Rightarrow> 16 word" where
  "bswap16 v = push_bit 8 (v AND 0x00FF) OR drop_bit 8 (v AND 0xFF00)"

definition bswap32 :: "32 word \<Rightarrow> 32 word" where
  "bswap32 v = push_bit 24 (v AND 0x000000FF) OR push_bit 8 (v AND 0x0000FF00)
     OR drop_bit 8 (v AND 0x00FF0000) OR drop_bit 24 (v AND 0xFF000000)"

definition bswap64 :: "64 word \<Rightarrow> 64 word" where
  "bswap64 v = push_bit 56 (v AND 0x00000000000000FF) OR push_bit 40 (v AND 0x000000000000FF00)
     OR push_bit 24 (v AND 0x0000000000FF0000) OR push_bit 8 (v AND 0x00000000FF000000)
     OR drop_bit 8 (v AND 0x000000FF00000000) OR drop_bit 24 (v AND 0x0000FF0000000000)
     OR drop_bit 40 (v AND 0x00FF000000000000) OR drop_bit 56 (v AND 0xFF00000000000000)"

definition bswap :: "nat \<Rightarrow> int \<Rightarrow> int" where
  "bswap n v =
     (if n = 2 then uint (bswap16 (word_of_int v))
      else if n = 4 then uint (bswap32 (word_of_int v))
      else if n = 8 then uint (bswap64 (word_of_int v))
      else v)"

text \<open>\<open>n\<close> bytes at an offset, as an unsigned integer of the machine, or with its bytes reversed.\<close>

definition get_value :: "platform \<Rightarrow> nat \<Rightarrow> bytes \<Rightarrow> nat \<Rightarrow> int exec" where
  "get_value pf n buf offset =
     (if length buf < offset + n then Inl Undefined_behaviour
      else Inr (let bs = take n (drop offset buf) in case native pf of Little \<Rightarrow> le_int bs | Big \<Rightarrow> le_int (rev bs)))"

definition get_value_swapped :: "platform \<Rightarrow> nat \<Rightarrow> bytes \<Rightarrow> nat \<Rightarrow> int exec" where
  "get_value_swapped pf n buf offset = rbind (get_value pf n buf offset) (\<lambda>v. Inr (bswap n v))"

definition requires_swap :: "platform \<Rightarrow> nat \<Rightarrow> bool" where
  "requires_swap pf byte_order \<longleftrightarrow> (if byte_order = 1 then Big else Little) \<noteq> native pf"

record getter =
  g_requires_swap :: bool
  g_id_size :: nat
  g_ts_size :: nat
  g_odt_to_daq_map :: "(nat \<times> nat \<times> nat) list"

definition read_uint :: "platform \<Rightarrow> getter \<Rightarrow> nat \<Rightarrow> bytes \<Rightarrow> nat \<Rightarrow> int exec" where
  "read_uint pf g n buf offset =
     (if n \<noteq> 1 \<and> g_requires_swap g then get_value_swapped pf n buf offset else get_value pf n buf offset)"

definition signed_value :: "nat \<Rightarrow> int \<Rightarrow> int" where
  "signed_value n v = (if v < 2 ^ (8 * n - 1) then v else v - 2 ^ (8 * n))"

definition get_timestamp :: "platform \<Rightarrow> getter \<Rightarrow> bytes \<Rightarrow> nat \<Rightarrow> nat \<Rightarrow> int exec" where
  "get_timestamp pf g buf ts_size offset =
     (if ts_size = 0 then Inr 0
      else if ts_size \<in> {1, 2, 4} then read_uint pf g ts_size buf offset
      else Inl Runtime_error)"

text \<open>The types with their widths.\<close>

definition type_widths :: "platform \<Rightarrow> (nat \<times> nat) list" where
  "type_widths pf = [(0, 1), (1, 1), (2, 2), (3, 2), (4, 4), (5, 4), (6, 8), (7, 8), (8, 4), (9, 8)]
     @ (if has_float16 pf then [(10, 2)] else []) @ (if has_bfloat16 pf then [(11, 2)] else [])"

definition type_value :: "nat \<Rightarrow> nat \<Rightarrow> int \<Rightarrow> measurement_value" where
  "type_value tp n v =
     (if tp \<in> {0, 2, 4, 6} then UInt64 v else if tp \<in> {1, 3, 5, 7} then Int64 (signed_value n v) else LongDouble tp v)"

definition reader :: "platform \<Rightarrow> getter \<Rightarrow> nat \<Rightarrow> bytes \<Rightarrow> nat \<Rightarrow> measurement_value exec" where
  "reader pf g tp buf offset =
     (case map_of (type_widths pf) tp of
        None \<Rightarrow> Inl Runtime_error
      | Some n \<Rightarrow> rbind (read_uint pf g n buf offset) (\<lambda>v. Inr (type_value tp n v)))"

text \<open>
  \<open>set_first_pids\<close> for identification fields of one byte: the list and the number in it of every absolute ODT number,
  later lists first. The loop counter has 16 bits.
\<close>

fun set_first_pids :: "nat \<Rightarrow> nat list \<Rightarrow> nat list \<Rightarrow> (nat \<times> nat \<times> nat) list exec" where
  "set_first_pids num [] pids = Inr []"
| "set_first_pids num (count # counts) [] = Inl Undefined_behaviour"
| "set_first_pids num (count # counts) (pid # pids) =
     (if 65535 < pid + count then Inl Endless
      else rbind (set_first_pids (Suc num) counts pids) (\<lambda>m. Inr (m @ map (\<lambda>i. (pid + i, num, i)) [0..<count])))"

definition get_id :: "platform \<Rightarrow> getter \<Rightarrow> bytes \<Rightarrow> (nat \<times> nat) exec" where
  "get_id pf g buf =
     (if g_id_size g = 1 then
        rbind (read_uint pf g 1 buf 0) (\<lambda>odt_num.
        Inr (case map_of (g_odt_to_daq_map g) (nat odt_num) of Some x \<Rightarrow> x | None \<Rightarrow> (0, 0)))
      else if g_id_size g = 2 then
        rbind (read_uint pf g 1 buf 1) (\<lambda>d. rbind (read_uint pf g 1 buf 0) (\<lambda>odt. Inr (nat d, nat odt)))
      else if g_id_size g = 3 then
        rbind (read_uint pf g 2 buf 1) (\<lambda>d. rbind (read_uint pf g 1 buf 0) (\<lambda>odt. Inr (nat d, nat odt)))
      else if g_id_size g = 4 then
        rbind (read_uint pf g 2 buf 2) (\<lambda>d. rbind (read_uint pf g 1 buf 0) (\<lambda>odt. Inr (nat d, nat odt)))
      else Inl Runtime_error)"

subsection \<open>The state of a list\<close>

text \<open>A list of which only the sizes and types of its entries count, ODT by ODT.\<close>

record list_layout =
  ly_odts :: "(nat \<times> nat) list list"
  ly_enable_timestamps :: bool
  ly_packed_mode :: nat
  ly_packed_ts_mode :: nat
  ly_packed_sample_count :: nat

definition odt_count :: "list_layout \<Rightarrow> nat" where
  "odt_count ly = length (ly_odts ly) mod 65536"

definition total_entries :: "list_layout \<Rightarrow> nat" where
  "total_entries ly = sum_list (map length (ly_odts ly)) mod 65536"

text \<open>The parameters; \<open>mp_scaled\<close> is the product of an integer with the scale factor, cut to 64 bits.\<close>

record measurement_parameters =
  mp_byte_order :: nat
  mp_id_field_size :: nat
  mp_timestamps_supported :: bool
  mp_ts_fixed :: bool
  mp_selectable_timestamps :: bool
  mp_scaled :: "int \<Rightarrow> 64 word"
  mp_ts_size :: nat
  mp_event_cycle_ns :: "64 word"
  mp_first_pids :: "nat list"
  mp_lists :: "list_layout list"

datatype state_t = IDLE | COLLECTING | FINISHED | IGNORE | ERROR

record list_state =
  m_daq_list_num :: nat
  m_layout :: list_layout
  m_next_odt :: nat
  m_current_idx :: nat
  m_timestamp0 :: "64 word"
  m_timestamp1 :: "64 word"
  m_state :: state_t
  m_buffer :: "measurement_value list"

definition new_DaqListState :: "nat \<Rightarrow> list_layout \<Rightarrow> list_state" where
  "new_DaqListState num ly = \<lparr>m_daq_list_num = num, m_layout = ly, m_next_odt = 0, m_current_idx = 0, m_timestamp0 = 0,
     m_timestamp1 = 0, m_state = IDLE, m_buffer = replicate (total_entries ly * ly_packed_sample_count ly) (Int64 0)\<rparr>"

definition resetSM :: "list_state \<Rightarrow> list_state" where
  "resetSM s = s\<lparr>m_state := IDLE, m_next_odt := 0, m_timestamp0 := 0\<rparr>"

definition check_state :: "nat \<Rightarrow> list_state \<Rightarrow> state_t \<times> list_state" where
  "check_state odt_num s =
     (if odt_num = 0 then
        (if odt_count (m_layout s) = 1 then (FINISHED, resetSM s)
         else (COLLECTING, s\<lparr>m_state := COLLECTING, m_next_odt := 1\<rparr>))
      else if m_state s = COLLECTING then
        (if odt_num = m_next_odt s then
           (let s1 = s\<lparr>m_next_odt := (m_next_odt s + 1) mod 65536\<rparr>
            in if m_next_odt s1 = odt_count (m_layout s) then (FINISHED, resetSM s1) else (m_state s1, s1))
         else (ERROR, resetSM s))
      else (m_state s, s))"

text \<open>
  \<open>parse_Odt\<close>: the position in the packet, the position of the next value and the values so far are passed on. A value
  is read behind the position and stored; the two packed modes have several samples in a packet.
\<close>

type_synonym parse_state = "nat \<times> nat \<times> measurement_value list"

definition store_value :: "platform \<Rightarrow> getter \<Rightarrow> bytes \<Rightarrow> nat \<times> nat \<Rightarrow> nat \<Rightarrow> parse_state \<Rightarrow> parse_state exec" where
  "store_value pf g payload = (\<lambda>(width, tp) position (offset, idx, buffer).
     if length payload < offset + width then Inl Runtime_error
     else rbind (reader pf g tp (payload @ [0]) offset) (\<lambda>v.
       if length buffer \<le> position then Inl Undefined_behaviour
       else Inr ((offset + width) mod 65536, idx, buffer[position := v])))"

definition next_index :: "parse_state \<Rightarrow> parse_state" where
  "next_index = (\<lambda>(offset, idx, buffer). (offset, (idx + 1) mod 65536, buffer))"

definition parse_plain :: "platform \<Rightarrow> getter \<Rightarrow> bytes \<Rightarrow> (nat \<times> nat) list \<Rightarrow> parse_state \<Rightarrow> parse_state exec" where
  "parse_plain pf g payload =
     for_each (\<lambda>e (offset, idx, buffer).
       rbind (store_value pf g payload e idx (offset, idx, buffer)) (\<lambda>s. Inr (next_index s)))"

definition parse_element_grouped ::
  "platform \<Rightarrow> getter \<Rightarrow> bytes \<Rightarrow> nat \<Rightarrow> nat \<Rightarrow> (nat \<times> nat) list \<Rightarrow> parse_state \<Rightarrow> parse_state exec" where
  "parse_element_grouped pf g payload count sample_size =
     for_each (\<lambda>e s.
       rbind (for_each (\<lambda>k (offset, idx, buffer). store_value pf g payload e (k * sample_size + idx) (offset, idx, buffer))
         [0..<count] s) (\<lambda>s. Inr (next_index s)))"

definition parse_event_grouped ::
  "platform \<Rightarrow> getter \<Rightarrow> bytes \<Rightarrow> nat \<Rightarrow> nat \<Rightarrow> (nat \<times> nat) list \<Rightarrow> parse_state \<Rightarrow> parse_state exec" where
  "parse_event_grouped pf g payload count sample_size odt = (\<lambda>(offset, start, buffer).
     for_each (\<lambda>k (offset, idx, buffer).
       for_each (\<lambda>e (offset, idx, buffer).
         rbind (store_value pf g payload e (k * sample_size + idx) (offset, idx, buffer)) (\<lambda>s. Inr (next_index s)))
         odt (offset, start, buffer))
       [0..<count] (offset, start, buffer))"

text \<open>The position behind the header, and the time of the slave in the first packet of a sample.\<close>

definition packed_ts_size :: "nat \<Rightarrow> nat" where
  "packed_ts_size mode = (case (mode div 2) mod 4 of 0 \<Rightarrow> 1 | Suc 0 \<Rightarrow> 2 | _ \<Rightarrow> 4)"

definition parse_header ::
  "platform \<Rightarrow> measurement_parameters \<Rightarrow> getter \<Rightarrow> nat \<Rightarrow> bytes \<Rightarrow> list_state \<Rightarrow> (nat \<times> 64 word) exec" where
  "parse_header pf mp g odt_num payload s =
     (let ly = m_layout s; offset = mp_id_field_size mp; data = payload @ [0]
      in if odt_num \<noteq> 0 then Inr (offset, m_timestamp1 s)
         else if ly_packed_mode ly \<noteq> 0 then
           (if odd (ly_packed_ts_mode ly) then
              (let ts_size = packed_ts_size (ly_packed_ts_mode ly)
               in rbind (get_timestamp pf g data ts_size offset) (\<lambda>t. Inr (offset + ts_size, mp_scaled mp t)))
            else Inr (offset, 0))
         else if mp_timestamps_supported mp \<and> (mp_ts_fixed mp \<or> mp_selectable_timestamps mp \<and> ly_enable_timestamps ly) then
           rbind (get_timestamp pf g data (g_ts_size g) (g_id_size g)) (\<lambda>t.
             Inr (offset + mp_ts_size mp, mp_scaled mp t))
         else Inr (offset, 0))"

definition parse_Odt ::
  "platform \<Rightarrow> measurement_parameters \<Rightarrow> getter \<Rightarrow> nat \<Rightarrow> bytes \<Rightarrow> list_state \<Rightarrow> list_state exec" where
  "parse_Odt pf mp g odt_num payload s =
     rbind (parse_header pf mp g odt_num payload s) (\<lambda>(offset, timestamp1).
     let ly = m_layout s
     in if length (ly_odts ly) \<le> odt_num \<and> ly_packed_mode ly \<le> 2 then Inl Undefined_behaviour
        else
          rbind (let s0 = (offset, m_current_idx s, m_buffer s); odt = ly_odts ly ! odt_num;
                     count = ly_packed_sample_count ly
                 in if ly_packed_mode ly = 0 then parse_plain pf g payload odt s0
                    else if ly_packed_mode ly = 1 then parse_element_grouped pf g payload count (total_entries ly) odt s0
                    else if ly_packed_mode ly = 2 then parse_event_grouped pf g payload count (total_entries ly) odt s0
                    else Inr s0)
            (\<lambda>(_, idx, buffer). Inr (s\<lparr>m_timestamp1 := timestamp1, m_current_idx := idx, m_buffer := buffer\<rparr>)))"

text \<open>A sample: list, time of the master, time of the slave, values.\<close>

type_synonym measurement_tuple = "nat \<times> 64 word \<times> 64 word \<times> measurement_value list"

definition add_results :: "measurement_parameters \<Rightarrow> list_state \<Rightarrow> measurement_tuple list" where
  "add_results mp s =
     (let ly = m_layout s; n = total_entries ly
      in if ly_packed_mode ly = 0 then [(m_daq_list_num s, m_timestamp0 s, m_timestamp1 s, m_buffer s)]
         else map (\<lambda>i. (m_daq_list_num s, m_timestamp0 s, m_timestamp1 s + of_nat i * mp_event_cycle_ns mp,
                        map (\<lambda>j. m_buffer s ! (i * n + j)) [0..<n]))
                [0..<ly_packed_sample_count ly])"

definition list_feed ::
  "platform \<Rightarrow> measurement_parameters \<Rightarrow> getter \<Rightarrow> nat \<Rightarrow> 64 word \<Rightarrow> bytes \<Rightarrow> list_state
     \<Rightarrow> (list_state \<times> measurement_tuple list) exec" where
  "list_feed pf mp g odt_num timestamp payload s =
     (let (state, s1) = check_state odt_num s;
          s2 = (if odt_num = 0 then s1\<lparr>m_current_idx := 0\<rparr> else s1)
      in if state = COLLECTING then
           rbind (parse_Odt pf mp g odt_num payload (s2\<lparr>m_timestamp0 := timestamp\<rparr>)) (\<lambda>s3. Inr (s3, []))
         else if state = FINISHED then
           rbind (parse_Odt pf mp g odt_num payload (s2\<lparr>m_timestamp0 := timestamp\<rparr>)) (\<lambda>s3. Inr (s3, add_results mp s3))
         else Inr (s2, []))"

subsection \<open>All lists\<close>

text \<open>What an exception in a function does that is declared \<open>noexcept\<close>.\<close>

definition no_exception :: "'a exec \<Rightarrow> 'a exec" where
  "no_exception r = (case r of Inl Runtime_error \<Rightarrow> Inl Terminate | _ \<Rightarrow> r)"

record DAQProcessor =
  p_getter :: getter
  p_states :: "list_state list"

definition create_state_vars :: "platform \<Rightarrow> measurement_parameters \<Rightarrow> DAQProcessor exec" where
  "create_state_vars pf mp =
     rbind (if mp_id_field_size mp = 1 then set_first_pids 0 (map odt_count (mp_lists mp)) (mp_first_pids mp) else Inr [])
       (\<lambda>m. Inr \<lparr>p_getter = \<lparr>g_requires_swap = requires_swap pf (mp_byte_order mp), g_id_size = mp_id_field_size mp,
                   g_ts_size = mp_ts_size mp, g_odt_to_daq_map = m\<rparr>,
                 p_states = map (\<lambda>i. new_DaqListState i (mp_lists mp ! i)) [0..<length (mp_lists mp)]\<rparr>)"

definition processor_feed ::
  "platform \<Rightarrow> measurement_parameters \<Rightarrow> 64 word \<Rightarrow> bytes \<Rightarrow> DAQProcessor \<Rightarrow> (DAQProcessor \<times> measurement_tuple list) exec" where
  "processor_feed pf mp timestamp payload p =
     no_exception (rbind (get_id pf (p_getter p) (payload @ [0])) (\<lambda>(daq_num, odt_num).
       if daq_num < length (p_states p) then
         rbind (list_feed pf mp (p_getter p) odt_num timestamp payload (p_states p ! daq_num)) (\<lambda>(s, results).
           Inr (p\<lparr>p_states := (p_states p)[daq_num := s]\<rparr>, results))
       else Inr (p, [])))"

section \<open>Lemmas\<close>

subsection \<open>Byte order\<close>

lemma bit_le_int: "bit (le_int bs) i \<longleftrightarrow> i div 8 < length bs \<and> bit (bs ! (i div 8)) (i mod 8)"
proof (induction bs arbitrary: i)
  case (Cons b bs)
  have b: "bit (uint b) j \<longleftrightarrow> j < 8 \<and> bit b j" for j
    by (auto simp: bit_uint_iff)
  have "uint b OR push_bit 8 (le_int bs) = uint b + push_bit 8 (le_int bs)"
    by (rule disjunctive_add [symmetric]) (auto simp: b bit_push_bit_iff)
  then have "le_int (b # bs) = uint b OR push_bit 8 (le_int bs)"
    by (simp add: push_bit_eq_mult)
  then have step: "bit (le_int (b # bs)) i \<longleftrightarrow> i < 8 \<and> bit b i \<or> 8 \<le> i \<and> bit (le_int bs) (i - 8)"
    by (simp only: bit_or_iff b bit_push_bit_iff) auto
  show ?case
  proof (cases "i < 8")
    case False
    then have "i div 8 = Suc ((i - 8) div 8)" "i mod 8 = (i - 8) mod 8" by (simp_all add: div_if mod_if)
    then show ?thesis using False by (simp add: step Cons.IH del: le_int.simps)
  qed (simp add: step del: le_int.simps)
qed simp

lemma octet_cases:
  fixes i :: nat
  assumes "i < 8 * n"
  obtains q r where "i = 8 * q + r" "q < n" "r < 8"
  using assms that [of "i div 8" "i mod 8"] by (simp add: less_mult_imp_div_less mult.commute)

lemma bit_le_int_octet: "r < 8 \<Longrightarrow> bit (le_int bs) (8 * q + r) \<longleftrightarrow> q < length bs \<and> bit (bs ! q) r"
  by (simp add: bit_le_int)

text \<open>An octet of a word, moved up or down.\<close>

definition octet_up :: "nat \<Rightarrow> nat \<Rightarrow> 'a :: len word \<Rightarrow> 'a word" where
  "octet_up j k v = push_bit (8 * j) (v AND push_bit (8 * k) (mask 8))"

definition octet_down :: "nat \<Rightarrow> nat \<Rightarrow> 'a :: len word \<Rightarrow> 'a word" where
  "octet_down j k v = drop_bit (8 * j) (v AND push_bit (8 * k) (mask 8))"

lemma octet_position:
  fixes k q r :: nat
  assumes "r < 8"
  shows "8 * k \<le> 8 * q + r \<and> 8 * q + r - 8 * k < 8 \<longleftrightarrow> q = k"
  using assms by auto

lemma bit_octet_up:
  fixes v :: "'a :: len word"
  assumes "r < 8"
  shows "bit (octet_up j k v) (8 * q + r) \<longleftrightarrow> 8 * q + r < LENGTH('a) \<and> q = j + k \<and> bit v (8 * k + r)"
proof (cases "j \<le> q")
  case True
  then obtain d where q: "q = j + d" using le_Suc_ex by blast
  have "8 * q + r - 8 * j = 8 * d + r" by (simp add: q)
  then show ?thesis
    using octet_position [OF assms, of k d] assms
    by (auto simp: octet_up_def bit_push_bit_iff bit_and_iff bit_mask_iff q)
next
  case False
  then have "\<not> 8 * j \<le> 8 * q + r" using assms by simp
  then show ?thesis using False by (simp only: octet_up_def bit_push_bit_iff) simp
qed

lemma bit_octet_down:
  fixes v :: "'a :: len word"
  assumes "r < 8"
  shows "bit (octet_down j k v) (8 * q + r) \<longleftrightarrow> q + j = k \<and> bit v (8 * k + r)"
proof -
  have shift: "8 * j + (8 * q + r) = 8 * (q + j) + r" by simp
  show ?thesis
    using octet_position [OF assms, of k "q + j"] assms
    by (auto simp: octet_down_def bit_drop_bit_eq shift bit_push_bit_iff bit_and_iff bit_mask_iff dest: bit_imp_le_length)
qed

lemma bswap_octets:
  "bswap16 v = octet_up 1 0 v OR octet_down 1 1 v"
  "bswap32 w = octet_up 3 0 w OR octet_up 1 1 w OR octet_down 1 2 w OR octet_down 3 3 w"
  "bswap64 x = octet_up 7 0 x OR octet_up 5 1 x OR octet_up 3 2 x OR octet_up 1 3 x
     OR octet_down 1 4 x OR octet_down 3 5 x OR octet_down 5 6 x OR octet_down 7 7 x"
  by (simp_all add: bswap16_def bswap32_def bswap64_def octet_up_def octet_down_def mask_eq_exp_minus_1)

lemma bit_of_le_int:
  assumes "r < 8" and "8 * k + 8 \<le> LENGTH('a)" and "k < length bs"
  shows "bit (word_of_int (le_int bs) :: 'a :: len word) (8 * k + r) \<longleftrightarrow> bit (bs ! k) r"
  using assms by (simp add: bit_word_of_int_iff bit_le_int_octet)

lemma reversed_octets:
  fixes w :: "'a :: len word"
  assumes len: "length bs = n" "LENGTH('a) = 8 * n"
    and octets: "\<And>q r. q < n \<Longrightarrow> r < 8 \<Longrightarrow> bit w (8 * q + r) \<longleftrightarrow> bit (word_of_int (le_int bs) :: 'a word) (8 * (n - Suc q) + r)"
  shows "uint w = le_int (rev bs)"
proof (rule bit_eqI)
  fix i
  show "bit (uint w) i \<longleftrightarrow> bit (le_int (rev bs)) i"
  proof (cases "i < 8 * n")
    case True
    then obtain q r where i: "i = 8 * q + r" "q < n" "r < 8" by (rule octet_cases)
    then show ?thesis
      using octets [of q r] len bit_of_le_int [of r "n - Suc q" bs, where 'a = 'a]
      by (simp add: bit_uint_iff bit_le_int_octet rev_nth)
  next
    case False
    then have "n \<le> i div 8" by (simp add: less_eq_div_iff_mult_less_eq mult.commute)
    then show ?thesis using False len by (simp add: bit_uint_iff bit_le_int)
  qed
qed

lemma bswap16_le_int: "length bs = 2 \<Longrightarrow> uint (bswap16 (word_of_int (le_int bs))) = le_int (rev bs)"
proof (rule reversed_octets)
  fix q r :: nat assume "q < 2" and r: "r < 8"
  then have inside: "8 * q + r < LENGTH(16)" and "q = 0 \<or> q = 1" by (simp_all, linarith)
  then show "bit (bswap16 (word_of_int (le_int bs))) (8 * q + r) \<longleftrightarrow> bit (word_of_int (le_int bs) :: 16 word) (8 * (2 - Suc q) + r)"
    unfolding bswap_octets bit_or_iff bit_octet_up [OF r] bit_octet_down [OF r] eqTrueI [OF inside] simp_thms
    by (elim disjE) simp_all
qed simp_all

lemma bswap32_le_int: "length bs = 4 \<Longrightarrow> uint (bswap32 (word_of_int (le_int bs))) = le_int (rev bs)"
proof (rule reversed_octets)
  fix q r :: nat assume "q < 4" and r: "r < 8"
  then have inside: "8 * q + r < LENGTH(32)" and "q = 0 \<or> q = 1 \<or> q = 2 \<or> q = 3" by (simp_all, linarith)
  then show "bit (bswap32 (word_of_int (le_int bs))) (8 * q + r) \<longleftrightarrow> bit (word_of_int (le_int bs) :: 32 word) (8 * (4 - Suc q) + r)"
    unfolding bswap_octets bit_or_iff bit_octet_up [OF r] bit_octet_down [OF r] eqTrueI [OF inside] simp_thms
    by (elim disjE) simp_all
qed simp_all

lemma bswap64_le_int: "length bs = 8 \<Longrightarrow> uint (bswap64 (word_of_int (le_int bs))) = le_int (rev bs)"
proof (rule reversed_octets)
  fix q r :: nat assume "q < 8" and r: "r < 8"
  then have inside: "8 * q + r < LENGTH(64)" and "q = 0 \<or> q = 1 \<or> q = 2 \<or> q = 3 \<or> q = 4 \<or> q = 5 \<or> q = 6 \<or> q = 7" by (simp_all, linarith)
  then show "bit (bswap64 (word_of_int (le_int bs))) (8 * q + r) \<longleftrightarrow> bit (word_of_int (le_int bs) :: 64 word) (8 * (8 - Suc q) + r)"
    unfolding bswap_octets bit_or_iff bit_octet_up [OF r] bit_octet_down [OF r] eqTrueI [OF inside] simp_thms
    by (elim disjE) simp_all
qed simp_all

lemma bswap_le_int: "n \<in> {1, 2, 4, 8} \<Longrightarrow> length bs = n \<Longrightarrow> bswap n (le_int bs) = le_int (if n = 1 then bs else rev bs)"
  by (auto simp: bswap_def bswap16_le_int bswap32_le_int bswap64_le_int)

subsection \<open>Reading\<close>

definition slave_order :: "nat \<Rightarrow> byteorder" where
  "slave_order byte_order = (if byte_order = 1 then Big else Little)"

definition order_bytes :: "byteorder \<Rightarrow> nat \<Rightarrow> int \<Rightarrow> bytes" where
  "order_bytes order n v = (case order of Little \<Rightarrow> le_bytes n v | Big \<Rightarrow> rev (le_bytes n v))"

definition order_int :: "byteorder \<Rightarrow> bytes \<Rightarrow> int" where
  "order_int order bs = (case order of Little \<Rightarrow> le_int bs | Big \<Rightarrow> le_int (rev bs))"

lemma length_order_bytes [simp]: "length (order_bytes order n v) = n"
  by (cases order) (simp_all add: order_bytes_def)

lemma order_int_bytes: "0 \<le> v \<Longrightarrow> v < 256 ^ n \<Longrightarrow> order_int order (order_bytes order n v) = v"
  by (cases order) (simp_all add: order_int_def order_bytes_def le_int_le_bytes)

text \<open>Whatever the machine's byte order, a number is read in the slave's.\<close>

lemma read_uint_order:
  assumes "offset + n \<le> length buf" and "n \<in> {1, 2, 4, 8}" and "g_requires_swap g = requires_swap pf bo"
  shows "read_uint pf g n buf offset = Inr (order_int (slave_order bo) (take n (drop offset buf)))"
proof -
  define bs where "bs = take n (drop offset buf)"
  have len: "length bs = n" using assms(1) by (simp add: bs_def)
  have one: "rev bs = bs" if "n = 1" using len that by (cases bs) auto
  have "bswap n (le_int bs) = le_int (rev bs)" "bswap n (le_int (rev bs)) = le_int bs"
    using bswap_le_int [OF assms(2), of bs] bswap_le_int [OF assms(2), of "rev bs"] len one by auto
  moreover have "get_value pf n buf offset = Inr (order_int (native pf) bs)"
    using assms(1) by (simp add: get_value_def bs_def order_int_def Let_def)
  ultimately show ?thesis
    unfolding bs_def [symmetric] using assms(3) one
    by (cases "native pf"; cases "bo = 1")
      (auto simp: read_uint_def get_value_swapped_def order_int_def slave_order_def requires_swap_def)
qed

lemma read_uint_encoded:
  assumes "buf = before @ order_bytes (slave_order bo) n v @ after" and "length before = offset"
    and "n \<in> {1, 2, 4, 8}" and "g_requires_swap g = requires_swap pf bo" and "0 \<le> v" and "v < 256 ^ n"
  shows "read_uint pf g n buf offset = Inr v"
  using read_uint_order [of offset n buf g pf bo] assms by (simp add: order_int_bytes)

text \<open>A value of a type with its width, and the number that stands for it.\<close>

definition value_ok :: "platform \<Rightarrow> nat \<times> nat \<Rightarrow> measurement_value \<Rightarrow> bool" where
  "value_ok pf = (\<lambda>(width, tp) v. map_of (type_widths pf) tp = Some width
     \<and> (case v of
           UInt64 x \<Rightarrow> tp \<in> {0, 2, 4, 6} \<and> 0 \<le> x \<and> x < 256 ^ width
         | Int64 x \<Rightarrow> tp \<in> {1, 3, 5, 7} \<and> - (2 ^ (8 * width - 1)) \<le> x \<and> x < 2 ^ (8 * width - 1)
         | LongDouble t b \<Rightarrow> t = tp \<and> 8 \<le> tp \<and> 0 \<le> b \<and> b < 256 ^ width))"

definition raw_value :: "nat \<Rightarrow> measurement_value \<Rightarrow> int" where
  "raw_value width v = (case v of UInt64 x \<Rightarrow> x | Int64 x \<Rightarrow> x mod 256 ^ width | LongDouble t b \<Rightarrow> b)"

definition value_bytes :: "byteorder \<Rightarrow> nat \<times> nat \<Rightarrow> measurement_value \<Rightarrow> bytes" where
  "value_bytes order = (\<lambda>(width, tp) v. order_bytes order width (raw_value width v))"

lemma length_value_bytes [simp]: "length (value_bytes order e v) = fst e"
  by (cases e) (simp add: value_bytes_def)

lemma type_width_cases:
  assumes "map_of (type_widths pf) tp = Some width"
  shows "width \<in> {1, 2, 4, 8}" and "0 < width" and "tp \<in> {0..11}"
  using assms by (auto simp: type_widths_def split: if_splits)

lemma signed_value_mod:
  assumes "0 < n" and "- (2 ^ (8 * n - 1)) \<le> x" and "x < 2 ^ (8 * n - 1)"
  shows "signed_value n (x mod 256 ^ n) = x"
proof -
  have p: "(256 :: int) ^ n = 2 * 2 ^ (8 * n - 1)"
  proof -
    have "(256 :: int) ^ n = 2 ^ (8 * n)" by (simp add: power_mult)
    also have "8 * n = Suc (8 * n - 1)" using assms(1) by simp
    finally show ?thesis by simp
  qed
  have p2: "(2 :: int) ^ (8 * n) = 256 ^ n" by (simp add: power_mult)
  show ?thesis
  proof (cases "0 \<le> x")
    case True
    then have "x mod 256 ^ n = x" using assms p by simp
    then show ?thesis using assms(3) by (simp add: signed_value_def)
  next
    case False
    have "x mod 256 ^ n = (x + 256 ^ n) mod 256 ^ n" by simp
    also have "\<dots> = x + 256 ^ n" by (rule mod_pos_pos_trivial) (use False assms(2) p in simp_all)
    finally have "x mod 256 ^ n = x + 256 ^ n" .
    then show ?thesis using assms(2) p False by (simp add: signed_value_def p2)
  qed
qed

lemma raw_value_range: "value_ok pf (width, tp) v \<Longrightarrow> 0 \<le> raw_value width v \<and> raw_value width v < 256 ^ width"
  by (auto simp: value_ok_def raw_value_def split: measurement_value.splits)

lemma type_value_raw:
  assumes "value_ok pf (width, tp) v"
  shows "type_value tp width (raw_value width v) = v"
proof (cases v)
  case (Int64 x)
  then show ?thesis
    using assms type_width_cases [of pf tp width]
    by (auto simp: value_ok_def raw_value_def type_value_def signed_value_mod)
next
  case (LongDouble t b)
  then show ?thesis using assms by (auto simp: value_ok_def raw_value_def type_value_def)
qed (use assms in \<open>auto simp: value_ok_def raw_value_def type_value_def\<close>)

lemma reader_encoded:
  assumes "value_ok pf (width, tp) v" and "buf = before @ value_bytes (slave_order bo) (width, tp) v @ after"
    and "length before = offset" and "g_requires_swap g = requires_swap pf bo"
  shows "reader pf g tp buf offset = Inr v"
proof -
  have w: "map_of (type_widths pf) tp = Some width" using assms(1) by (simp add: value_ok_def)
  have "read_uint pf g width buf offset = Inr (raw_value width v)"
    using assms(2-4) type_width_cases(1) [OF w] raw_value_range [OF assms(1)]
    by (intro read_uint_encoded) (auto simp: value_bytes_def)
  then show ?thesis by (simp add: reader_def w type_value_raw [OF assms(1)])
qed

text \<open>A packet whose values lie behind one another is read into consecutive places of the buffer.\<close>

fun values_bytes :: "byteorder \<Rightarrow> (nat \<times> nat) list \<Rightarrow> measurement_value list \<Rightarrow> bytes" where
  "values_bytes order (e # es) (v # vs) = value_bytes order e v @ values_bytes order es vs"
| "values_bytes order es vs = []"

lemma length_values_bytes: "length es = length vs \<Longrightarrow> length (values_bytes order es vs) = sum_list (map fst es)"
  by (induction order es vs rule: values_bytes.induct) auto

lemma parse_plain_values:
  assumes "list_all2 (value_ok pf) odt vs" and "payload = before @ values_bytes (slave_order bo) odt vs @ after"
    and "g_requires_swap g = requires_swap pf bo" and "length payload < 65536"
    and "idx + length odt \<le> length buffer" and "length buffer < 65536"
  shows "parse_plain pf g payload odt (length before, idx, buffer)
    = Inr (length before + sum_list (map fst odt), idx + length odt, take idx buffer @ vs @ drop (idx + length odt) buffer)"
  using assms
proof (induction odt arbitrary: vs before idx buffer)
  case Nil
  then show ?case by (simp add: parse_plain_def)
next
  case (Cons e odt)
  obtain width tp where e: "e = (width, tp)" by (cases e)
  obtain v vs' where vs: "vs = v # vs'" "value_ok pf (width, tp) v" "list_all2 (value_ok pf) odt vs'"
    using Cons.prems(1) by (cases vs) (auto simp: e)
  let ?b = "buffer[idx := v]" and ?before = "before @ value_bytes (slave_order bo) (width, tp) v"
  have payload: "payload = ?before @ values_bytes (slave_order bo) odt vs' @ after"
    using Cons.prems(2) by (simp add: vs e)
  have len: "length ?before = length before + width" by simp
  have inside: "length before + width \<le> length payload" using len by (simp add: payload)
  have "reader pf g tp (payload @ [0]) (length before) = Inr v"
    by (rule reader_encoded [OF vs(2), where before = before and bo = bo and after = "values_bytes (slave_order bo) odt vs' @ after @ [0]"])
      (simp_all add: payload Cons.prems(3))
  then have "store_value pf g payload e idx (length before, idx, buffer) = Inr (length ?before, idx, ?b)"
    using inside Cons.prems(4,5) by (simp add: store_value_def e len)
  moreover have "parse_plain pf g payload odt (length ?before, idx + 1, ?b)
      = Inr (length ?before + sum_list (map fst odt), idx + 1 + length odt,
             take (idx + 1) ?b @ vs' @ drop (idx + 1 + length odt) ?b)"
    by (rule Cons.IH [OF vs(3) payload Cons.prems(3,4)]) (use Cons.prems in simp_all)
  moreover have "take (idx + 1) ?b = take idx buffer @ [v]"
    using Cons.prems(5) by (simp add: take_Suc_conv_app_nth)
  ultimately show ?case
    using Cons.prems(5,6) by (simp add: parse_plain_def next_index_def e len vs(1))
qed

subsection \<open>Packets\<close>

text \<open>
  A packet as the slave means it: its list and number in it, the time of its arrival, the time of the slave (which only
  the first packet of a sample carries), the values, and bytes behind them, which the transport may have added.
\<close>

record daq_packet =
  pk_list :: nat
  pk_odt :: nat
  pk_time :: "64 word"
  pk_tick :: int
  pk_values :: "measurement_value list"
  pk_padding :: bytes

definition has_stamp :: "measurement_parameters \<Rightarrow> list_layout \<Rightarrow> bool" where
  "has_stamp mp ly \<longleftrightarrow> mp_timestamps_supported mp \<and> (mp_ts_fixed mp \<or> mp_selectable_timestamps mp \<and> ly_enable_timestamps ly)"

definition id_bytes :: "measurement_parameters \<Rightarrow> nat \<Rightarrow> nat \<Rightarrow> bytes" where
  "id_bytes mp l k =
     (let order = slave_order (mp_byte_order mp); n = mp_id_field_size mp
      in if n = 1 then [of_nat (mp_first_pids mp ! l + k)]
         else if n = 2 then [of_nat k, of_nat l]
         else if n = 3 then of_nat k # order_bytes order 2 (int l)
         else [of_nat k, 0] @ order_bytes order 2 (int l))"

definition stamp_bytes :: "measurement_parameters \<Rightarrow> daq_packet \<Rightarrow> bytes" where
  "stamp_bytes mp pk =
     (if pk_odt pk = 0 \<and> has_stamp mp (mp_lists mp ! pk_list pk)
      then order_bytes (slave_order (mp_byte_order mp)) (mp_ts_size mp) (pk_tick pk) else [])"

definition packet_odt :: "measurement_parameters \<Rightarrow> daq_packet \<Rightarrow> (nat \<times> nat) list" where
  "packet_odt mp pk = ly_odts (mp_lists mp ! pk_list pk) ! pk_odt pk"

definition packet_bytes :: "measurement_parameters \<Rightarrow> daq_packet \<Rightarrow> bytes" where
  "packet_bytes mp pk = id_bytes mp (pk_list pk) (pk_odt pk) @ stamp_bytes mp pk
     @ values_bytes (slave_order (mp_byte_order mp)) (packet_odt mp pk) (pk_values pk) @ pk_padding pk"

text \<open>Parameters without packed lists, with a table of absolute ODT numbers that assigns each at most once.\<close>

definition layout_ok :: "list_layout \<Rightarrow> bool" where
  "layout_ok ly \<longleftrightarrow> ly_packed_mode ly = 0 \<and> ly_packed_sample_count ly = 1 \<and> ly_odts ly \<noteq> []
     \<and> length (ly_odts ly) < 65536 \<and> sum_list (map length (ly_odts ly)) < 65536"

definition absolute_numbers :: "nat list \<Rightarrow> nat list \<Rightarrow> nat list" where
  "absolute_numbers pids counts = concat (map (\<lambda>(pid, n). [pid..<pid + n]) (zip pids counts))"

definition parameters_ok :: "measurement_parameters \<Rightarrow> bool" where
  "parameters_ok mp \<longleftrightarrow> mp_id_field_size mp \<in> {1, 2, 3, 4} \<and> mp_ts_size mp \<in> {0, 1, 2, 4}
     \<and> list_all layout_ok (mp_lists mp)
     \<and> length (mp_lists mp) \<le> (if mp_id_field_size mp = 2 then 256 else 65536)
     \<and> (mp_id_field_size mp = 1 \<longrightarrow>
          length (mp_lists mp) = length (mp_first_pids mp)
          \<and> distinct (absolute_numbers (mp_first_pids mp) (map odt_count (mp_lists mp)))
          \<and> list_all (\<lambda>(pid, n). pid + n \<le> 256) (zip (mp_first_pids mp) (map odt_count (mp_lists mp))))"

definition packet_ok :: "platform \<Rightarrow> measurement_parameters \<Rightarrow> daq_packet \<Rightarrow> bool" where
  "packet_ok pf mp pk \<longleftrightarrow> pk_list pk < length (mp_lists mp)
     \<and> pk_odt pk < length (ly_odts (mp_lists mp ! pk_list pk)) \<and> pk_odt pk < 256
     \<and> list_all2 (value_ok pf) (packet_odt mp pk) (pk_values pk)
     \<and> 0 \<le> pk_tick pk \<and> pk_tick pk < 256 ^ mp_ts_size mp \<and> length (packet_bytes mp pk) < 65536"

lemma set_first_pids_keys:
  assumes "set_first_pids num counts pids = Inr m"
  shows "fst ` set m = set (absolute_numbers pids counts)"
  using assms
proof (induction num counts pids arbitrary: m rule: set_first_pids.induct)
  case (3 num count counts pid pids)
  then obtain m' where m: "set_first_pids (Suc num) counts pids = Inr m'" "m = m' @ map (\<lambda>i. (pid + i, num, i)) [0..<count]"
    by (auto simp: rbind_Inr_iff split: if_splits)
  have "(\<lambda>i. pid + i) ` {0..<count} = {pid..<pid + count}"
    by (metis add.commute add.right_neutral image_add_atLeastLessThan)
  then show ?case using "3.IH" [OF _ m(1)] "3.prems" m(2)
    by (auto simp: absolute_numbers_def image_Un image_image split: if_splits)
qed (simp_all add: absolute_numbers_def)

lemma set_first_pids_lookup:
  assumes "set_first_pids num counts pids = Inr m" and "distinct (absolute_numbers pids counts)"
    and "i < length counts" and "k < counts ! i" and "length counts = length pids"
  shows "map_of m (pids ! i + k) = Some (num + i, k)"
  using assms
proof (induction num counts pids arbitrary: m i rule: set_first_pids.induct)
  case (3 num count counts pid pids)
  then obtain m' where m: "set_first_pids (Suc num) counts pids = Inr m'" "m = m' @ map (\<lambda>i. (pid + i, num, i)) [0..<count]"
    by (auto simp: rbind_Inr_iff split: if_splits)
  have nums: "absolute_numbers (pid # pids) (count # counts) = [pid..<pid + count] @ absolute_numbers pids counts"
    by (simp add: absolute_numbers_def)
  have keys: "fst ` set m' = set (absolute_numbers pids counts)" by (rule set_first_pids_keys [OF m(1)])
  show ?case
  proof (cases i)
    case 0
    then have "pid + k \<in> {pid..<pid + count}" using "3.prems"(4) by simp
    then have "pid + k \<notin> fst ` set m'" using "3.prems"(2) keys by (auto simp: nums disjoint_iff)
    then have "map_of m' (pid + k) = None" by (simp add: map_of_eq_None_iff)
    moreover have "map_of (map (\<lambda>i. (pid + i, num, i)) [0..<count]) (pid + k) = Some (num, k)"
      using "3.prems"(4) 0 by (intro map_of_is_SomeI) (auto simp: distinct_map inj_on_def comp_def)
    ultimately show ?thesis by (simp add: m(2) map_of_append 0 map_add_Some_iff)
  next
    case (Suc i')
    have "\<not> 65535 < pid + count" using "3.prems"(1) by (auto split: if_splits)
    then have "map_of m' (pids ! i' + k) = Some (Suc num + i', k)"
      using "3.prems" Suc by (intro "3.IH" [OF _ m(1)]) (auto simp: nums)
    then show ?thesis by (simp add: m(2) map_of_append Suc)
  qed
qed simp_all

lemma set_first_pids_total:
  assumes "list_all (\<lambda>(pid, n). pid + n \<le> 256) (zip pids counts)" and "length counts = length pids"
  shows "\<exists>m. set_first_pids num counts pids = Inr m"
  using assms
proof (induction num counts pids rule: set_first_pids.induct)
  case (3 num count counts pid pids)
  then have "\<not> 65535 < pid + count" by simp
  then show ?case using 3 by auto
qed simp_all

text \<open>The getter of a decoder that has been created, and its identification of packets.\<close>

definition getter_ok :: "platform \<Rightarrow> measurement_parameters \<Rightarrow> getter \<Rightarrow> bool" where
  "getter_ok pf mp g \<longleftrightarrow> g_requires_swap g = requires_swap pf (mp_byte_order mp)
     \<and> g_id_size g = mp_id_field_size mp \<and> g_ts_size g = mp_ts_size mp
     \<and> (mp_id_field_size mp = 1 \<longrightarrow> set_first_pids 0 (map odt_count (mp_lists mp)) (mp_first_pids mp) = Inr (g_odt_to_daq_map g))"

lemma create_state_vars_ok:
  assumes "parameters_ok mp"
  shows "\<exists>p. create_state_vars pf mp = Inr p \<and> getter_ok pf mp (p_getter p)
    \<and> p_states p = map (\<lambda>i. new_DaqListState i (mp_lists mp ! i)) [0..<length (mp_lists mp)]"
proof (cases "mp_id_field_size mp = 1")
  case True
  then obtain m where "set_first_pids 0 (map odt_count (mp_lists mp)) (mp_first_pids mp) = Inr m"
    using assms set_first_pids_total [of "mp_first_pids mp" "map odt_count (mp_lists mp)" 0] by (auto simp: parameters_ok_def)
  then show ?thesis using True by (simp add: create_state_vars_def getter_ok_def)
next
  case False
  then show ?thesis by (simp add: create_state_vars_def getter_ok_def)
qed

lemma odt_count_ok: "layout_ok ly \<Longrightarrow> odt_count ly = length (ly_odts ly)"
  by (simp add: layout_ok_def odt_count_def)

lemma total_entries_ok: "layout_ok ly \<Longrightarrow> total_entries ly = sum_list (map length (ly_odts ly))"
  by (simp add: layout_ok_def total_entries_def)

lemma uint_of_nat_byte: "k < 256 \<Longrightarrow> uint (of_nat k :: byte) = int k"
  by (simp add: uint_nat take_bit_nat_eq_self unsigned_of_nat)

lemma byte_at:
  assumes "buf ! i = of_nat k" and "k < 256" and "i < length buf"
  shows "read_uint pf g 1 buf i = Inr (int k)"
proof -
  have "take 1 (drop i buf) = [of_nat k]" using assms by (simp add: take_Suc_conv_app_nth hd_drop_conv_nth take_Suc)
  then show ?thesis
    using assms(2,3) by (cases "native pf") (simp_all add: read_uint_def get_value_def uint_of_nat_byte)
qed

lemma word_at:
  assumes "buf = before @ order_bytes (slave_order bo) 2 (int k) @ after" and "length before = i" and "k < 65536"
    and "g_requires_swap g = requires_swap pf bo"
  shows "read_uint pf g 2 buf i = Inr (int k)"
  using assms by (intro read_uint_encoded) auto

lemma get_id_packet:
  assumes "getter_ok pf mp g" and "parameters_ok mp" and "l < length (mp_lists mp)"
    and "k < length (ly_odts (mp_lists mp ! l))" and "k < 256"
  shows "get_id pf g (id_bytes mp l k @ rest) = Inr (l, k)"
proof -
  note g = assms(1) [unfolded getter_ok_def] and p = assms(2) [unfolded parameters_ok_def]
  have ly: "layout_ok (mp_lists mp ! l)" using p assms(3) by (auto simp: list_all_length)
  consider "mp_id_field_size mp = 1" | "mp_id_field_size mp = 2" | "mp_id_field_size mp = 3" | "mp_id_field_size mp = 4"
    using p by auto
  then show ?thesis
  proof cases
    case 1
    let ?n = "mp_first_pids mp ! l + k"
    have "set_first_pids 0 (map odt_count (mp_lists mp)) (mp_first_pids mp) = Inr (g_odt_to_daq_map g)"
      "distinct (absolute_numbers (mp_first_pids mp) (map odt_count (mp_lists mp)))"
      "length (map odt_count (mp_lists mp)) = length (mp_first_pids mp)"
      using g p 1 by simp_all
    from set_first_pids_lookup [OF this(1,2) _ _ this(3), of l k]
    have "map_of (g_odt_to_daq_map g) ?n = Some (l, k)"
      using assms(3,4) by (simp add: odt_count_ok [OF ly])
    moreover have "mp_first_pids mp ! l + odt_count (mp_lists mp ! l) \<le> 256"
      using p 1 assms(3) by (auto simp: list_all_length)
    then have "?n < 256" using assms(4) by (simp add: odt_count_ok [OF ly])
    then have "read_uint pf g 1 (id_bytes mp l k @ rest) 0 = Inr (int ?n)"
      by (intro byte_at) (simp_all add: id_bytes_def 1)
    ultimately show ?thesis using g 1 by (simp add: get_id_def nat_int_add)
  next
    case 2
    then have "l < 256" using p assms(3) by auto
    then have "read_uint pf g 1 (id_bytes mp l k @ rest) 1 = Inr (int l)" "read_uint pf g 1 (id_bytes mp l k @ rest) 0 = Inr (int k)"
      using assms(5) by - (rule byte_at; simp add: id_bytes_def 2)+
    then show ?thesis using g 2 by (simp add: get_id_def)
  next
    case 3
    then have l: "l < 65536" using p assms(3) by auto
    have "read_uint pf g 2 (id_bytes mp l k @ rest) 1 = Inr (int l)"
      by (rule word_at [where before = "[of_nat k]" and bo = "mp_byte_order mp" and after = rest])
        (use l g in \<open>simp_all add: id_bytes_def 3\<close>)
    moreover have "read_uint pf g 1 (id_bytes mp l k @ rest) 0 = Inr (int k)"
      using assms(5) by - (rule byte_at; simp add: id_bytes_def 3)
    ultimately show ?thesis using g 3 by (simp add: get_id_def)
  next
    case 4
    then have l: "l < 65536" using p assms(3) by auto
    have "read_uint pf g 2 (id_bytes mp l k @ rest) 2 = Inr (int l)"
      by (rule word_at [where before = "[of_nat k, 0]" and bo = "mp_byte_order mp" and after = rest])
        (use l g in \<open>simp_all add: id_bytes_def 4\<close>)
    moreover have "read_uint pf g 1 (id_bytes mp l k @ rest) 0 = Inr (int k)"
      using assms(5) by - (rule byte_at; simp add: id_bytes_def 4)
    ultimately show ?thesis using g 4 by (simp add: get_id_def)
  qed
qed

subsection \<open>Samples\<close>

lemma length_id_bytes: "parameters_ok mp \<Longrightarrow> length (id_bytes mp l k) = mp_id_field_size mp"
  by (auto simp: id_bytes_def parameters_ok_def Let_def)

lemma length_stamp_bytes:
  "length (stamp_bytes mp pk) = (if pk_odt pk = 0 \<and> has_stamp mp (mp_lists mp ! pk_list pk) then mp_ts_size mp else 0)"
  by (simp add: stamp_bytes_def)

definition slave_time :: "measurement_parameters \<Rightarrow> daq_packet \<Rightarrow> 64 word" where
  "slave_time mp pk = (if has_stamp mp (mp_lists mp ! pk_list pk) then mp_scaled mp (pk_tick pk) else 0)"

lemma parse_header_packet:
  assumes "getter_ok pf mp g" and "parameters_ok mp" and "packet_ok pf mp pk" and "m_layout s = mp_lists mp ! pk_list pk"
  shows "parse_header pf mp g (pk_odt pk) (packet_bytes mp pk) s
    = Inr (mp_id_field_size mp + length (stamp_bytes mp pk), if pk_odt pk = 0 then slave_time mp pk else m_timestamp1 s)"
proof -
  have "layout_ok (m_layout s)" using assms(2-4) by (auto simp: parameters_ok_def packet_ok_def list_all_length)
  then have plain: "ly_packed_mode (m_layout s) = 0" by (simp add: layout_ok_def)
  have ts: "get_timestamp pf g (packet_bytes mp pk @ [0]) (mp_ts_size mp) (mp_id_field_size mp) = Inr (pk_tick pk)"
    if st: "pk_odt pk = 0" "has_stamp mp (m_layout s)"
  proof (cases "mp_ts_size mp = 0")
    case True
    then show ?thesis using assms(3) by (simp add: get_timestamp_def packet_ok_def)
  next
    case False
    then have n: "mp_ts_size mp \<in> {1, 2, 4}" using assms(2) by (auto simp: parameters_ok_def)
    have "read_uint pf g (mp_ts_size mp) (packet_bytes mp pk @ [0]) (mp_id_field_size mp) = Inr (pk_tick pk)"
    proof (rule read_uint_encoded)
      show "packet_bytes mp pk @ [0] = id_bytes mp (pk_list pk) (pk_odt pk)
          @ order_bytes (slave_order (mp_byte_order mp)) (mp_ts_size mp) (pk_tick pk)
          @ (values_bytes (slave_order (mp_byte_order mp)) (packet_odt mp pk) (pk_values pk) @ pk_padding pk @ [0])"
        using st assms(4) by (simp add: packet_bytes_def stamp_bytes_def)
    qed (use n assms(1,3) length_id_bytes [OF assms(2)] in \<open>auto simp: getter_ok_def packet_ok_def\<close>)
    then show ?thesis using n by (auto simp: get_timestamp_def)
  qed
  show ?thesis
  proof (cases "pk_odt pk = 0 \<and> has_stamp mp (m_layout s)")
    case True
    then show ?thesis
      using ts assms(1,4) by (simp add: parse_header_def plain [unfolded assms(4)] slave_time_def length_stamp_bytes getter_ok_def has_stamp_def Let_def)
  next
    case False
    then show ?thesis
      using assms(4) by (auto simp: parse_header_def plain [unfolded assms(4)] slave_time_def length_stamp_bytes has_stamp_def Let_def)
  qed
qed

lemma parse_Odt_packet:
  assumes "getter_ok pf mp g" and "parameters_ok mp" and "packet_ok pf mp pk" and "m_layout s = mp_lists mp ! pk_list pk"
    and "m_current_idx s + length (packet_odt mp pk) \<le> length (m_buffer s)" and "length (m_buffer s) < 65536"
  shows "parse_Odt pf mp g (pk_odt pk) (packet_bytes mp pk) s
    = Inr (s\<lparr>m_timestamp1 := (if pk_odt pk = 0 then slave_time mp pk else m_timestamp1 s),
             m_current_idx := m_current_idx s + length (packet_odt mp pk),
             m_buffer := take (m_current_idx s) (m_buffer s) @ pk_values pk
               @ drop (m_current_idx s + length (packet_odt mp pk)) (m_buffer s)\<rparr>)"
proof -
  have "layout_ok (m_layout s)" using assms(2-4) by (auto simp: parameters_ok_def packet_ok_def list_all_length)
  then have plain: "ly_packed_mode (m_layout s) = 0" by (simp add: layout_ok_def)
  let ?before = "id_bytes mp (pk_list pk) (pk_odt pk) @ stamp_bytes mp pk"
  have pk: "list_all2 (value_ok pf) (packet_odt mp pk) (pk_values pk)" "length (packet_bytes mp pk) < 65536"
    "pk_odt pk < length (ly_odts (m_layout s))"
    using assms(3,4) by (simp_all add: packet_ok_def)
  have odt: "ly_odts (m_layout s) ! pk_odt pk = packet_odt mp pk" by (simp add: packet_odt_def assms(4))
  have g: "g_requires_swap g = requires_swap pf (mp_byte_order mp)" using assms(1) by (simp add: getter_ok_def)
  have "packet_bytes mp pk = ?before @ values_bytes (slave_order (mp_byte_order mp)) (packet_odt mp pk) (pk_values pk) @ pk_padding pk"
    by (simp add: packet_bytes_def)
  note parse_plain_values [OF pk(1) this g pk(2) assms(5,6)]
  moreover have "length ?before = mp_id_field_size mp + length (stamp_bytes mp pk)"
    by (simp add: length_id_bytes [OF assms(2)])
  ultimately show ?thesis
    using pk(3) by (simp add: parse_Odt_def parse_header_packet [OF assms(1-4)] plain odt)
qed

text \<open>The last packets of a list, and whether they are the first \<open>k\<close> of a sample.\<close>

definition last_packets :: "nat \<Rightarrow> daq_packet list \<Rightarrow> daq_packet list" where
  "last_packets k xs = drop (length xs - k) xs"

definition numbered :: "nat \<Rightarrow> daq_packet list \<Rightarrow> bool" where
  "numbered k xs \<longleftrightarrow> k \<le> length xs \<and> map pk_odt (last_packets k xs) = [0..<k]"

definition lane :: "nat \<Rightarrow> daq_packet list \<Rightarrow> daq_packet list" where
  "lane l pks = filter (\<lambda>pk. pk_list pk = l) pks"

definition odts_of :: "measurement_parameters \<Rightarrow> nat \<Rightarrow> (nat \<times> nat) list list" where
  "odts_of mp l = ly_odts (mp_lists mp ! l)"

text \<open>The sample that the last packet of a list completes, if it does.\<close>

definition sample :: "measurement_parameters \<Rightarrow> nat \<Rightarrow> daq_packet list \<Rightarrow> measurement_tuple" where
  "sample mp l run = (l, pk_time (last run), slave_time mp (hd run), concat (map pk_values run))"

definition completed :: "measurement_parameters \<Rightarrow> daq_packet list \<Rightarrow> measurement_tuple list" where
  "completed mp pks =
     (let l = pk_list (last pks); n = length (odts_of mp l)
      in if numbered n (lane l pks) then [sample mp l (last_packets n (lane l pks))] else [])"

lemma last_packets_snoc: "k \<le> length xs \<Longrightarrow> last_packets (Suc k) (xs @ [x]) = last_packets k xs @ [x]"
  by (simp add: last_packets_def)

lemma numbered_0 [simp]: "numbered 0 xs"
  by (simp add: numbered_def last_packets_def)

lemma numbered_snoc: "numbered (Suc k) (xs @ [x]) \<longleftrightarrow> pk_odt x = k \<and> numbered k xs"
  by (auto simp: numbered_def last_packets_snoc)

lemma numbered_unique:
  assumes "numbered j xs" and "numbered k xs" and "0 < j" and "0 < k"
  shows "j = k"
proof -
  obtain j' k' where "j = Suc j'" "k = Suc k'" using assms(3,4) by (auto simp: gr0_conv_Suc)
  moreover obtain ys x where "xs = ys @ [x]"
    using assms(1,3) by (cases xs rule: rev_cases) (auto simp: numbered_def)
  ultimately show ?thesis using assms(1,2) by (simp add: numbered_snoc)
qed

text \<open>What the state of a list knows of its packets.\<close>

definition collected :: "measurement_parameters \<Rightarrow> nat \<Rightarrow> daq_packet list \<Rightarrow> list_state \<Rightarrow> bool" where
  "collected mp k xs s \<longleftrightarrow> numbered k xs
     \<and> m_current_idx s = sum_list (map length (take k (ly_odts (m_layout s))))
     \<and> take (m_current_idx s) (m_buffer s) = concat (map pk_values (last_packets k xs))
     \<and> m_timestamp1 s = slave_time mp (hd (last_packets k xs))"

definition tracks :: "measurement_parameters \<Rightarrow> nat \<Rightarrow> daq_packet list \<Rightarrow> list_state \<Rightarrow> bool" where
  "tracks mp l xs s \<longleftrightarrow> m_daq_list_num s = l \<and> m_layout s = mp_lists mp ! l
     \<and> length (m_buffer s) = sum_list (map length (odts_of mp l))
     \<and> (if m_state s = COLLECTING
         then 0 < m_next_odt s \<and> m_next_odt s < length (odts_of mp l) \<and> collected mp (m_next_odt s) xs s
         else m_state s = IDLE \<and> (\<forall>k. 0 < k \<and> k < length (odts_of mp l) \<longrightarrow> \<not> numbered k xs))"

lemma entries_before:
  assumes "k < length odts"
  shows "sum_list (map length (take k odts)) + length (odts ! k) = sum_list (map length (take (Suc k) odts))"
    and "sum_list (map length (take (Suc k) odts)) \<le> sum_list (map length odts)"
proof -
  show "sum_list (map length (take k odts)) + length (odts ! k) = sum_list (map length (take (Suc k) odts))"
    using assms by (simp add: take_Suc_conv_app_nth)
  have "sum_list (map length odts) = sum_list (map length (take (Suc k) odts)) + sum_list (map length (drop (Suc k) odts))"
    by (metis append_take_drop_id map_append sum_list_append)
  then show "sum_list (map length (take (Suc k) odts)) \<le> sum_list (map length odts)" by simp
qed

text \<open>A packet that is taken as the next one of a sample.\<close>

lemma parse_next:
  assumes "getter_ok pf mp g" and "parameters_ok mp" and "packet_ok pf mp pk" and "pk_list pk = l"
    and "m_layout s = mp_lists mp ! l" and "length (m_buffer s) = sum_list (map length (odts_of mp l))"
    and "pk_odt pk = k" and "k = 0 \<Longrightarrow> m_current_idx s = 0" and "0 < k \<Longrightarrow> collected mp k xs s" and "numbered k xs"
  obtains s' where "parse_Odt pf mp g k (packet_bytes mp pk) s = Inr s'" "collected mp (Suc k) (xs @ [pk]) s'"
    "m_layout s' = m_layout s" "m_daq_list_num s' = m_daq_list_num s" "m_state s' = m_state s" "m_next_odt s' = m_next_odt s"
    "m_timestamp0 s' = m_timestamp0 s" "length (m_buffer s') = length (m_buffer s)"
proof -
  have ly: "layout_ok (mp_lists mp ! l)" using assms(2-4) by (auto simp: parameters_ok_def packet_ok_def list_all_length)
  have k: "k < length (odts_of mp l)" using assms(3,4,7) by (auto simp: packet_ok_def odts_of_def)
  have odt: "packet_odt mp pk = odts_of mp l ! k" by (simp add: packet_odt_def odts_of_def assms(4,7))
  have idx: "m_current_idx s = sum_list (map length (take k (odts_of mp l)))"
    using assms(5,8,9) by (cases "k = 0") (auto simp: collected_def odts_of_def)
  have len: "length (pk_values pk) = length (packet_odt mp pk)"
    using assms(3) by (auto simp: packet_ok_def list_all2_lengthD)
  have inside: "m_current_idx s + length (packet_odt mp pk) \<le> length (m_buffer s)" and "length (m_buffer s) < 65536"
    using entries_before [OF k] ly by (simp_all add: idx odt assms(6) layout_ok_def odts_of_def)
  note parse = parse_Odt_packet [OF assms(1-3) assms(5) [folded assms(4)] this]
  have last: "last_packets (Suc k) (xs @ [pk]) = last_packets k xs @ [pk]"
    using assms(10) by (intro last_packets_snoc) (simp add: numbered_def)
  have prev: "take (m_current_idx s) (m_buffer s) = concat (map pk_values (last_packets k xs))"
    using assms(8,9) by (cases "k = 0") (auto simp: collected_def last_packets_def)
  have nonempty: "last_packets k xs \<noteq> []" if "k \<noteq> 0"
    using assms(10) that by (auto simp: numbered_def last_packets_def)
  show thesis
  proof (rule that)
    show "parse_Odt pf mp g k (packet_bytes mp pk) s = Inr (s\<lparr>m_timestamp1 := (if k = 0 then slave_time mp pk else m_timestamp1 s),
        m_current_idx := m_current_idx s + length (packet_odt mp pk),
        m_buffer := take (m_current_idx s) (m_buffer s) @ pk_values pk
          @ drop (m_current_idx s + length (packet_odt mp pk)) (m_buffer s)\<rparr>)" (is "_ = Inr ?s'")
      using parse assms(7) by simp
    have "m_timestamp1 ?s' = slave_time mp (hd (last_packets k xs @ [pk]))"
      using assms(9) nonempty by (cases "k = 0") (auto simp: collected_def last_packets_def)
    moreover have "take (m_current_idx ?s') (m_buffer ?s') = take (m_current_idx s) (m_buffer s) @ pk_values pk"
      using inside len by simp
    moreover have "m_current_idx ?s' = sum_list (map length (take (Suc k) (odts_of mp l)))"
      using entries_before(1) [OF k] by (simp add: idx odt)
    ultimately show "collected mp (Suc k) (xs @ [pk]) ?s'"
      using assms(5,7,10) prev
      by (simp add: collected_def numbered_snoc last odts_of_def del: select_convs update_convs)
    show "length (m_buffer ?s') = length (m_buffer s)" using inside len by simp
  qed simp_all
qed

text \<open>A state that never leaves its buffer.\<close>

definition sane :: "measurement_parameters \<Rightarrow> nat \<Rightarrow> list_state \<Rightarrow> bool" where
  "sane mp l s \<longleftrightarrow> m_layout s = mp_lists mp ! l \<and> length (m_buffer s) = sum_list (map length (odts_of mp l))
     \<and> (m_state s = COLLECTING \<and> 0 < m_next_odt s \<and> m_next_odt s < length (odts_of mp l)
          \<and> m_current_idx s = sum_list (map length (take (m_next_odt s) (odts_of mp l)))
        \<or> m_state s = IDLE)"

lemma tracks_sane: "tracks mp l xs s \<Longrightarrow> sane mp l s"
  by (auto simp: tracks_def sane_def collected_def odts_of_def split: if_splits)

lemma check_state_cases:
  assumes "sane mp l s" and "layout_ok (mp_lists mp ! l)" and "n = length (odts_of mp l)"
  shows "check_state k s =
    (if k = 0 then (if n = 1 then (FINISHED, resetSM s) else (COLLECTING, s\<lparr>m_state := COLLECTING, m_next_odt := 1\<rparr>))
     else if m_state s = COLLECTING then
       (if k = m_next_odt s then
          (if Suc k = n then (FINISHED, resetSM (s\<lparr>m_next_odt := Suc k\<rparr>)) else (COLLECTING, s\<lparr>m_next_odt := Suc k\<rparr>))
        else (ERROR, resetSM s))
     else (IDLE, s))"
proof -
  have n: "odt_count (m_layout s) = n" "n < 65536"
    using assms by (auto simp: sane_def odt_count_ok odts_of_def layout_ok_def)
  moreover have "Suc k mod 65536 = Suc k" if "k < n" using that n(2) by simp
  ultimately show ?thesis
    using assms(1,3) by (auto simp: check_state_def Let_def sane_def)
qed

lemma add_results_complete:
  assumes "collected mp n ys s" and "n = length (odts_of mp l)" and "layout_ok (mp_lists mp ! l)"
    and "m_layout s = mp_lists mp ! l" and "m_daq_list_num s = l" and "length (m_buffer s) = sum_list (map length (odts_of mp l))"
    and "m_timestamp0 s = pk_time (last (last_packets n ys))"
  shows "add_results mp s = [sample mp l (last_packets n ys)]"
proof -
  have "m_current_idx s = length (m_buffer s)" using assms(1,2,4,6) by (simp add: collected_def odts_of_def)
  then have "m_buffer s = concat (map pk_values (last_packets n ys))" using assms(1) by (simp add: collected_def)
  then show ?thesis using assms(1,3-5,7) by (simp add: add_results_def layout_ok_def collected_def sample_def)
qed

lemma list_feed_packet:
  assumes "getter_ok pf mp g" and "parameters_ok mp" and "packet_ok pf mp pk" and "pk_list pk = l" and "tracks mp l xs s"
  shows "\<exists>s'. list_feed pf mp g (pk_odt pk) (pk_time pk) (packet_bytes mp pk) s
      = Inr (s', if numbered (length (odts_of mp l)) (xs @ [pk]) then [sample mp l (last_packets (length (odts_of mp l)) (xs @ [pk]))] else [])
    \<and> tracks mp l (xs @ [pk]) s'"
proof -
  define k n where "k = pk_odt pk" and "n = length (odts_of mp l)"
  have ly: "layout_ok (mp_lists mp ! l)" using assms(2-4) by (auto simp: parameters_ok_def packet_ok_def list_all_length)
  have k: "k < n" using assms(3,4) by (auto simp: packet_ok_def odts_of_def k_def n_def)
  note check = check_state_cases [OF tracks_sane [OF assms(5)] ly n_def]
  have lay: "m_layout s = mp_lists mp ! l" "length (m_buffer s) = sum_list (map length (odts_of mp l))" "m_daq_list_num s = l"
    using assms(5) by (simp_all add: tracks_def)
  have take_next: "\<exists>s'. parse_Odt pf mp g k (packet_bytes mp pk) t = Inr s' \<and> collected mp (Suc k) (xs @ [pk]) s'
      \<and> m_layout s' = mp_lists mp ! l \<and> m_daq_list_num s' = l \<and> m_state s' = m_state t \<and> m_next_odt s' = m_next_odt t
      \<and> m_timestamp0 s' = m_timestamp0 t \<and> length (m_buffer s') = sum_list (map length (odts_of mp l))"
    if t: "m_layout t = m_layout s" "m_buffer t = m_buffer s" "m_daq_list_num t = l" "k = 0 \<Longrightarrow> m_current_idx t = 0"
      "0 < k \<Longrightarrow> collected mp k xs t" "numbered k xs" for t
    by (rule parse_next [OF assms(1-4) _ _ k_def [symmetric], of t xs]) (use t lay in auto)
  have last: "pk_time (last (last_packets (Suc k) (xs @ [pk]))) = pk_time pk" if "numbered k xs"
    using that by (simp add: last_packets_snoc numbered_def)
  have num: "numbered j (xs @ [pk]) \<longleftrightarrow> j = Suc k \<and> numbered k xs" if "0 < j" for j
    using that by (cases j) (auto simp: numbered_snoc k_def)
  note feed = list_feed_def k_def [symmetric] n_def [symmetric] check Let_def tracks_def
  show ?thesis
  proof (cases "k = 0 \<or> m_state s = COLLECTING \<and> k = m_next_odt s")
    case True
    then have prev: "numbered k xs" "0 < k \<Longrightarrow> collected mp k xs s"
      using assms(5) by (auto simp: tracks_def collected_def)
    define t where "t = (if Suc k = n then resetSM (s\<lparr>m_next_odt := Suc k\<rparr>) else s\<lparr>m_state := COLLECTING, m_next_odt := Suc k\<rparr>)
      \<lparr>m_current_idx := (if k = 0 then 0 else m_current_idx s), m_timestamp0 := pk_time pk\<rparr>"
    have t: "m_layout t = m_layout s" "m_buffer t = m_buffer s" "m_daq_list_num t = l" "m_timestamp0 t = pk_time pk"
      "m_current_idx t = (if k = 0 then 0 else m_current_idx s)" "m_timestamp1 t = m_timestamp1 s"
      "m_state t = (if Suc k = n then IDLE else COLLECTING)" "m_next_odt t = (if Suc k = n then 0 else Suc k)"
      using lay(3) by (simp_all add: t_def resetSM_def)
    have "collected mp k xs t" if "0 < k" using prev(2) [OF that] that unfolding collected_def by (elim conjE) (simp add: t)
    then obtain s' where s': "parse_Odt pf mp g k (packet_bytes mp pk) t = Inr s'" "collected mp (Suc k) (xs @ [pk]) s'"
      "m_layout s' = mp_lists mp ! l" "m_daq_list_num s' = l" "m_state s' = m_state t" "m_next_odt s' = m_next_odt t"
      "m_timestamp0 s' = pk_time pk" "length (m_buffer s') = sum_list (map length (odts_of mp l))"
      using take_next [of t] prev(1) t by auto
    have same: "s\<lparr>m_state := COLLECTING, m_next_odt := i, m_timestamp0 := ts\<rparr> = s\<lparr>m_next_odt := i, m_timestamp0 := ts\<rparr>"
      if "m_state s = COLLECTING" for i ts using that by (cases s) simp
    have feed_t: "list_feed pf mp g k (pk_time pk) (packet_bytes mp pk) s
        = rbind (parse_Odt pf mp g k (packet_bytes mp pk) t) (\<lambda>s'. Inr (s', if Suc k = n then add_results mp s' else []))"
      using True by (auto simp: list_feed_def check Let_def t_def resetSM_def same)
    show ?thesis
    proof (cases "Suc k = n")
      case full: True
      have "add_results mp s' = [sample mp l (last_packets n (xs @ [pk]))]"
        using s' full last [OF prev(1)] by (intro add_results_complete [OF _ _ ly]) (auto simp: n_def)
      then show ?thesis
        using s' t full prev(1) num by (auto simp: feed_t tracks_def k_def [symmetric] n_def [symmetric])
    next
      case False
      then show ?thesis
        using s' t prev(1) num k by (auto simp: feed_t tracks_def k_def [symmetric] n_def [symmetric])
    qed
  next
    case False
    then have pos: "0 < k" by simp
    have "\<not> numbered k xs"
    proof (cases "m_state s = COLLECTING")
      case True
      then have "numbered (m_next_odt s) xs" "0 < m_next_odt s" using assms(5) by (auto simp: tracks_def collected_def)
      then show ?thesis using False True pos numbered_unique [of k xs "m_next_odt s"] by auto
    next
      case False
      then show ?thesis using assms(5) pos k by (auto simp: tracks_def n_def)
    qed
    moreover have "m_state s = IDLE" if "m_state s \<noteq> COLLECTING" using assms(5) that by (simp add: tracks_def)
    ultimately show ?thesis
      using False num lay k by (auto simp: feed resetSM_def)
  qed
qed

text \<open>All packets, in the order of their arrival.\<close>

definition feed_payloads ::
  "platform \<Rightarrow> measurement_parameters \<Rightarrow> (64 word \<times> bytes) list \<Rightarrow> DAQProcessor \<Rightarrow> (DAQProcessor \<times> measurement_tuple list) exec" where
  "feed_payloads pf mp xs p =
     for_each (\<lambda>(t, b) (p, out). rbind (processor_feed pf mp t b p) (\<lambda>(p', rs). Inr (p', out @ rs))) xs (p, [])"

lemma feed_payloads_snoc:
  "feed_payloads pf mp (xs @ [(t, b)]) p
   = rbind (feed_payloads pf mp xs p) (\<lambda>(p', out). rbind (processor_feed pf mp t b p') (\<lambda>(p'', rs). Inr (p'', out @ rs)))"
  by (cases "feed_payloads pf mp xs p") (auto simp: feed_payloads_def for_each_snoc)

definition arriving :: "measurement_parameters \<Rightarrow> daq_packet list \<Rightarrow> (64 word \<times> bytes) list" where
  "arriving mp pks = map (\<lambda>pk. (pk_time pk, packet_bytes mp pk)) pks"

definition processor_tracks :: "platform \<Rightarrow> measurement_parameters \<Rightarrow> daq_packet list \<Rightarrow> DAQProcessor \<Rightarrow> bool" where
  "processor_tracks pf mp pks p \<longleftrightarrow> getter_ok pf mp (p_getter p) \<and> length (p_states p) = length (mp_lists mp)
     \<and> (\<forall>l < length (mp_lists mp). tracks mp l (lane l pks) (p_states p ! l))"

lemma new_processor_tracks:
  assumes "parameters_ok mp"
  obtains p where "create_state_vars pf mp = Inr p" "processor_tracks pf mp [] p"
proof -
  obtain p where p: "create_state_vars pf mp = Inr p" "getter_ok pf mp (p_getter p)"
    "p_states p = map (\<lambda>i. new_DaqListState i (mp_lists mp ! i)) [0..<length (mp_lists mp)]"
    using create_state_vars_ok [OF assms] by blast
  have "tracks mp l [] (new_DaqListState l (mp_lists mp ! l))" if "l < length (mp_lists mp)" for l
  proof -
    have "layout_ok (mp_lists mp ! l)" using assms that by (auto simp: parameters_ok_def list_all_length)
    then show ?thesis
      by (simp add: tracks_def new_DaqListState_def total_entries_ok odts_of_def layout_ok_def numbered_def)
  qed
  then show thesis using that p by (simp add: processor_tracks_def lane_def)
qed

lemma processor_feed_packet:
  assumes "parameters_ok mp" and "packet_ok pf mp pk" and "processor_tracks pf mp pks p"
  obtains p' where "processor_feed pf mp (pk_time pk) (packet_bytes mp pk) p = Inr (p', completed mp (pks @ [pk]))"
    "processor_tracks pf mp (pks @ [pk]) p'"
proof -
  let ?l = "pk_list pk"
  note p = assms(3) [unfolded processor_tracks_def]
  have l: "?l < length (mp_lists mp)" using assms(2) by (simp add: packet_ok_def)
  have id: "get_id pf (p_getter p) (packet_bytes mp pk @ [0]) = Inr (?l, pk_odt pk)"
    using get_id_packet [OF _ assms(1) l, of pf "p_getter p" "pk_odt pk"] p assms(2) by (simp add: packet_bytes_def packet_ok_def)
  have lanes: "lane ?l (pks @ [pk]) = lane ?l pks @ [pk]" "\<And>l. l \<noteq> ?l \<Longrightarrow> lane l (pks @ [pk]) = lane l pks"
    by (simp_all add: lane_def)
  obtain s' where s': "list_feed pf mp (p_getter p) (pk_odt pk) (pk_time pk) (packet_bytes mp pk) (p_states p ! ?l)
      = Inr (s', completed mp (pks @ [pk]))" "tracks mp ?l (lane ?l (pks @ [pk])) s'"
    using list_feed_packet [OF _ assms(1,2) refl, of "p_getter p" "lane ?l pks" "p_states p ! ?l"] p l
    by (auto simp: completed_def lanes Let_def)
  have "tracks mp l (lane l (pks @ [pk])) ((p_states p)[?l := s'] ! l)" if "l < length (mp_lists mp)" for l
    using p s'(2) lanes(2) [of l] that by (cases "l = ?l") simp_all
  then have "processor_tracks pf mp (pks @ [pk]) (p\<lparr>p_states := (p_states p)[?l := s']\<rparr>)"
    using p by (simp add: processor_tracks_def)
  then show thesis
    using that p l by (simp add: processor_feed_def id s'(1) no_exception_def)
qed

lemma feed_payloads_tracks:
  assumes "parameters_ok mp" and "list_all (packet_ok pf mp) pks" and "processor_tracks pf mp [] p0"
  shows "\<exists>p. feed_payloads pf mp (arriving mp pks) p0 = Inr (p, concat (map (\<lambda>i. completed mp (take (Suc i) pks)) [0..<length pks]))
    \<and> processor_tracks pf mp pks p"
  using assms(2)
proof (induction pks rule: rev_induct)
  case Nil
  then show ?case using assms(3) by (simp add: feed_payloads_def arriving_def)
next
  case (snoc pk pks)
  then obtain p where p: "feed_payloads pf mp (arriving mp pks) p0 = Inr (p, concat (map (\<lambda>i. completed mp (take (Suc i) pks)) [0..<length pks]))"
    "processor_tracks pf mp pks p" by auto
  obtain p' where p': "processor_feed pf mp (pk_time pk) (packet_bytes mp pk) p = Inr (p', completed mp (pks @ [pk]))"
    "processor_tracks pf mp (pks @ [pk]) p'"
    using processor_feed_packet [OF assms(1) _ p(2)] snoc.prems by auto
  have "map (\<lambda>i. completed mp (take (Suc i) pks @ take (Suc i - length pks) [pk])) [0..<length pks]
      = map (\<lambda>i. completed mp (take (Suc i) pks)) [0..<length pks]"
    by simp
  then show ?case
    using p(1) p' by (simp add: arriving_def feed_payloads_snoc del: map_eq_conv)
qed

subsection \<open>Any packets\<close>

text \<open>
  Whatever arrives: a value is read if the packet is long enough, and else there is an exception; the buffer is never
  left. The entries have the widths of their types.
\<close>

definition typed :: "platform \<Rightarrow> (nat \<times> nat) list \<Rightarrow> bool" where
  "typed pf odt \<longleftrightarrow> list_all (\<lambda>(width, tp). map_of (type_widths pf) tp = Some width) odt"

lemma reader_total:
  assumes "map_of (type_widths pf) tp = Some width" and "offset + width \<le> length buf"
    and "g_requires_swap g = requires_swap pf bo"
  shows "\<exists>v. reader pf g tp buf offset = Inr v"
  using read_uint_order [OF assms(2) type_width_cases(1) [OF assms(1)] assms(3)] assms(1) by (simp add: reader_def)

lemma parse_plain_Nil: "parse_plain pf g payload [] s = Inr s"
  by (simp add: parse_plain_def)

lemma parse_plain_any:
  assumes "typed pf odt" and "g_requires_swap g = requires_swap pf bo" and "length payload < 65536"
    and "idx + length odt \<le> length buffer" and "length buffer < 65536"
  shows "if offset + sum_list (map fst odt) \<le> length payload
    then \<exists>buffer'. length buffer' = length buffer
      \<and> parse_plain pf g payload odt (offset, idx, buffer) = Inr (offset + sum_list (map fst odt), idx + length odt, buffer')
    else odt \<noteq> [] \<longrightarrow> parse_plain pf g payload odt (offset, idx, buffer) = Inl Runtime_error"
  using assms(1,4,5)
proof (induction odt arbitrary: offset idx buffer)
  case Nil
  then show ?case by (simp add: parse_plain_def)
next
  case (Cons e odt)
  obtain width tp where e: "e = (width, tp)" by (cases e)
  have w: "map_of (type_widths pf) tp = Some width" "typed pf odt" using Cons.prems(1) by (simp_all add: typed_def e)
  show ?case
  proof (cases "length payload < offset + width")
    case True
    then show ?thesis by (simp add: parse_plain_def store_value_def e)
  next
    case False
    obtain v where v: "reader pf g tp (payload @ [0]) offset = Inr v"
      using reader_total [OF w(1), of offset "payload @ [0]" g bo] False assms(2) by auto
    have "0 < width" by (rule type_width_cases(2) [OF w(1)])
    have step: "parse_plain pf g payload (e # odt) (offset, idx, buffer)
        = parse_plain pf g payload odt (offset + width, idx + 1, buffer[idx := v])"
      using False v Cons.prems assms(3) by (simp add: parse_plain_def store_value_def next_index_def e)
    have "idx + 1 + length odt \<le> length (buffer[idx := v])" "length (buffer[idx := v]) < 65536" using Cons.prems by simp_all
    note IH = Cons.IH [OF w(2) this, of "offset + width"]
    show ?thesis
    proof (cases "odt = []")
      case True
      then show ?thesis using False step by (auto simp: e parse_plain_Nil)
    next
      case False
      then show ?thesis using IH step by (auto simp: e add.assoc split: if_splits)
    qed
  qed
qed

definition parameters_typed :: "platform \<Rightarrow> measurement_parameters \<Rightarrow> bool" where
  "parameters_typed pf mp \<longleftrightarrow> parameters_ok mp \<and> list_all (\<lambda>ly. list_all (typed pf) (ly_odts ly)) (mp_lists mp)"

text \<open>The least length of a packet.\<close>

definition header_length :: "measurement_parameters \<Rightarrow> nat" where
  "header_length mp = mp_id_field_size mp + mp_ts_size mp"

definition packet_length :: "measurement_parameters \<Rightarrow> nat \<Rightarrow> nat \<Rightarrow> nat" where
  "packet_length mp l k = mp_id_field_size mp + (if k = 0 \<and> has_stamp mp (mp_lists mp ! l) then mp_ts_size mp else 0)
     + sum_list (map fst (odts_of mp l ! k))"

text \<open>Whether the state takes a packet with this number, and not just ignores it.\<close>

definition takes :: "nat \<Rightarrow> list_state \<Rightarrow> bool" where
  "takes k s \<longleftrightarrow> k = 0 \<or> m_state s = COLLECTING \<and> k = m_next_odt s"

lemma header_any:
  assumes "getter_ok pf mp g" and "parameters_ok mp" and "header_length mp \<le> length payload" and "m_layout s = mp_lists mp ! l"
    and "l < length (mp_lists mp)"
  shows "\<exists>t. parse_header pf mp g k payload s
    = Inr (mp_id_field_size mp + (if k = 0 \<and> has_stamp mp (mp_lists mp ! l) then mp_ts_size mp else 0), t)"
proof -
  have "layout_ok (mp_lists mp ! l)" using assms(2,5) by (auto simp: parameters_ok_def list_all_length)
  then have plain: "ly_packed_mode (mp_lists mp ! l) = 0" by (simp add: layout_ok_def)
  have "\<exists>v. get_timestamp pf g (payload @ [0]) (mp_ts_size mp) (mp_id_field_size mp) = Inr v"
  proof (cases "mp_ts_size mp = 0")
    case False
    then have n: "mp_ts_size mp \<in> {1, 2, 4}" using assms(2) by (auto simp: parameters_ok_def)
    then have "mp_ts_size mp \<in> {1, 2, 4, 8}" by auto
    from read_uint_order [OF _ this, of "mp_id_field_size mp" "payload @ [0]" g pf "mp_byte_order mp"]
    show ?thesis using n assms(1,3) by (auto simp: get_timestamp_def getter_ok_def header_length_def)
  qed (simp add: get_timestamp_def)
  then show ?thesis
    using assms(1,4) by (auto simp: parse_header_def plain has_stamp_def getter_ok_def Let_def)
qed

lemma parse_Odt_any:
  assumes "getter_ok pf mp g" and "parameters_typed pf mp" and "l < length (mp_lists mp)" and "k < length (odts_of mp l)"
    and "header_length mp \<le> length payload" and "length payload < 65536" and "m_layout s = mp_lists mp ! l"
    and "length (m_buffer s) = sum_list (map length (odts_of mp l))"
    and "m_current_idx s = sum_list (map length (take k (odts_of mp l)))"
  shows "if packet_length mp l k \<le> length payload
    then \<exists>t buffer'. length buffer' = length (m_buffer s) \<and> parse_Odt pf mp g k payload s
      = Inr (s\<lparr>m_timestamp1 := t, m_current_idx := sum_list (map length (take (Suc k) (odts_of mp l))), m_buffer := buffer'\<rparr>)
    else parse_Odt pf mp g k payload s = Inl Runtime_error"
proof -
  let ?offset = "mp_id_field_size mp + (if k = 0 \<and> has_stamp mp (mp_lists mp ! l) then mp_ts_size mp else 0)"
    and ?odt = "odts_of mp l ! k"
  have ok: "parameters_ok mp" and "list_all (typed pf) (odts_of mp l)"
    using assms(2,3) by (auto simp: parameters_typed_def list_all_length odts_of_def)
  then have ty: "typed pf ?odt" using assms(4) by (simp add: list_all_length)
  have ly: "layout_ok (mp_lists mp ! l)" using ok assms(3) by (auto simp: parameters_ok_def list_all_length)
  obtain t where h: "parse_header pf mp g k payload s = Inr (?offset, t)"
    using header_any [OF assms(1) ok assms(5,7,3)] by auto
  have idx: "m_current_idx s + length ?odt = sum_list (map length (take (Suc k) (odts_of mp l)))"
    using entries_before(1) [OF assms(4)] assms(9) by simp
  have inside: "m_current_idx s + length ?odt \<le> length (m_buffer s)" "length (m_buffer s) < 65536"
    using idx entries_before(2) [OF assms(4)] ly assms(8) by (simp_all add: layout_ok_def odts_of_def)
  have g: "g_requires_swap g = requires_swap pf (mp_byte_order mp)" using assms(1) by (simp add: getter_ok_def)
  have parse: "parse_Odt pf mp g k payload s = rbind (parse_plain pf g payload ?odt (?offset, m_current_idx s, m_buffer s))
      (\<lambda>(_, idx, buffer). Inr (s\<lparr>m_timestamp1 := t, m_current_idx := idx, m_buffer := buffer\<rparr>))"
    using assms(4,7) ly by (simp add: parse_Odt_def h layout_ok_def odts_of_def Let_def)
  have nonempty: "packet_length mp l k \<le> length payload" if "?odt = []"
    using that assms(5) by (simp add: packet_length_def header_length_def)
  show ?thesis
    using parse_plain_any [OF ty g assms(6) inside, of ?offset] nonempty
    by (auto simp: parse idx packet_length_def add.assoc split: if_splits)
qed

lemma list_feed_any:
  assumes "getter_ok pf mp g" and "parameters_typed pf mp" and "l < length (mp_lists mp)" and "sane mp l s"
    and "header_length mp \<le> length payload" and "length payload < 65536"
  shows "if takes k s \<and> length payload < packet_length mp l k
    then list_feed pf mp g k ts payload s = Inl Runtime_error
    else \<exists>s' out. list_feed pf mp g k ts payload s = Inr (s', out) \<and> sane mp l s'"
proof -
  define n where "n = length (odts_of mp l)"
  have ly: "layout_ok (mp_lists mp ! l)"
    using assms(2,3) by (auto simp: parameters_typed_def parameters_ok_def list_all_length)
  note check = check_state_cases [OF assms(4) ly n_def]
  note parse = parse_Odt_any [OF assms(1-3) _ assms(5,6)]
  show ?thesis
  proof (cases "takes k s")
    case True
    then have k: "k < n" using assms(4) ly by (auto simp: takes_def sane_def n_def layout_ok_def odts_of_def)
    define t where "t = (if Suc k = n then resetSM (s\<lparr>m_next_odt := Suc k\<rparr>) else s\<lparr>m_state := COLLECTING, m_next_odt := Suc k\<rparr>)
      \<lparr>m_current_idx := (if k = 0 then 0 else m_current_idx s), m_timestamp0 := ts\<rparr>"
    have t: "m_layout t = mp_lists mp ! l" "length (m_buffer t) = sum_list (map length (odts_of mp l))"
      "m_current_idx t = sum_list (map length (take k (odts_of mp l)))"
      "m_state t = (if Suc k = n then IDLE else COLLECTING)" "m_next_odt t = (if Suc k = n then 0 else Suc k)"
      using True assms(4) by (auto simp: t_def resetSM_def sane_def takes_def)
    have same: "s\<lparr>m_state := COLLECTING, m_next_odt := i, m_timestamp0 := ts\<rparr> = s\<lparr>m_next_odt := i, m_timestamp0 := ts\<rparr>"
      if "m_state s = COLLECTING" for i using that by (cases s) simp
    have feed: "list_feed pf mp g k ts payload s
        = rbind (parse_Odt pf mp g k payload t) (\<lambda>s'. Inr (s', if Suc k = n then add_results mp s' else []))"
      using True by (auto simp: list_feed_def check Let_def t_def resetSM_def same takes_def)
    show ?thesis
      using parse [OF _ t(1-3)] k True t by (auto simp: feed n_def sane_def split: if_splits)
  next
    case False
    then show ?thesis
      using assms(4) by (auto simp: list_feed_def check Let_def resetSM_def takes_def sane_def)
  qed
qed

definition sane_processor :: "platform \<Rightarrow> measurement_parameters \<Rightarrow> DAQProcessor \<Rightarrow> bool" where
  "sane_processor pf mp p \<longleftrightarrow> getter_ok pf mp (p_getter p) \<and> length (p_states p) = length (mp_lists mp)
     \<and> (\<forall>l < length (mp_lists mp). sane mp l (p_states p ! l))"

text \<open>A packet that is too short for the ODT as which its list takes it.\<close>

definition too_short :: "platform \<Rightarrow> measurement_parameters \<Rightarrow> DAQProcessor \<Rightarrow> bytes \<Rightarrow> bool" where
  "too_short pf mp p payload \<longleftrightarrow>
     (case get_id pf (p_getter p) (payload @ [0]) of
        Inl _ \<Rightarrow> False
      | Inr (l, k) \<Rightarrow> l < length (mp_lists mp) \<and> takes k (p_states p ! l) \<and> length payload < packet_length mp l k)"

lemma get_id_any:
  assumes "getter_ok pf mp g" and "parameters_ok mp" and "mp_id_field_size mp \<le> length payload"
  shows "\<exists>l k. get_id pf g (payload @ rest) = Inr (l, k)"
proof -
  have read: "\<exists>v. read_uint pf g n (payload @ rest) i = Inr v" if "n \<in> {1, 2, 4, 8}" "i + n \<le> length payload" for n i
    using read_uint_order [OF _ that(1), of i "payload @ rest" g pf "mp_byte_order mp"] that(2) assms(1)
    by (auto simp: getter_ok_def)
  consider "mp_id_field_size mp = 1" | "mp_id_field_size mp = 2" | "mp_id_field_size mp = 3" | "mp_id_field_size mp = 4"
    using assms(2) by (auto simp: parameters_ok_def)
  then show ?thesis
  proof cases
    case 1
    obtain v where "read_uint pf g 1 (payload @ rest) 0 = Inr v" using read [of 1 0] 1 assms(3) by auto
    then show ?thesis
      using 1 assms(1) surj_pair [of "case map_of (g_odt_to_daq_map g) (nat v) of Some x \<Rightarrow> x | None \<Rightarrow> (0, 0)"]
      by (simp add: get_id_def getter_ok_def)
  next
    case 2
    then show ?thesis using read [of 1 0] read [of 1 1] assms(1,3) by (auto simp: get_id_def getter_ok_def)
  next
    case 3
    then show ?thesis using read [of 1 0] read [of 2 1] assms(1,3) by (auto simp: get_id_def getter_ok_def)
  next
    case 4
    then show ?thesis using read [of 1 0] read [of 2 2] assms(1,3) by (auto simp: get_id_def getter_ok_def)
  qed
qed

lemma processor_feed_any:
  assumes "parameters_typed pf mp" and "sane_processor pf mp p" and "header_length mp \<le> length payload" and "length payload < 65536"
  shows "if too_short pf mp p payload then processor_feed pf mp ts payload p = Inl Terminate
    else \<exists>p' out. processor_feed pf mp ts payload p = Inr (p', out) \<and> sane_processor pf mp p'"
proof -
  have g: "getter_ok pf mp (p_getter p)" and len: "length (p_states p) = length (mp_lists mp)"
    and sane: "\<And>l. l < length (mp_lists mp) \<Longrightarrow> sane mp l (p_states p ! l)"
    using assms(2) by (simp_all add: sane_processor_def)
  obtain l k where id: "get_id pf (p_getter p) (payload @ [0]) = Inr (l, k)"
    using get_id_any [OF g, of payload "[0]"] assms(1,3) by (auto simp: parameters_typed_def header_length_def)
  show ?thesis
  proof (cases "l < length (mp_lists mp)")
    case True
    have "sane_processor pf mp (p\<lparr>p_states := (p_states p)[l := s']\<rparr>)" if "sane mp l s'" for s'
    proof -
      have "sane mp j ((p_states p)[l := s'] ! j)" if "j < length (mp_lists mp)" for j
        using that sane [OF that] \<open>sane mp l s'\<close> len by (cases "j = l") simp_all
      then show ?thesis using g len by (simp add: sane_processor_def)
    qed
    then show ?thesis
      using list_feed_any [OF g assms(1) True sane [OF True] assms(3,4), of k ts] True
      by (auto simp: too_short_def processor_feed_def id no_exception_def len split: if_splits)
  next
    case False
    then show ?thesis using assms(2) by (simp add: too_short_def processor_feed_def id no_exception_def len)
  qed
qed

lemma new_processor_sane:
  assumes "parameters_ok mp" and "create_state_vars pf mp = Inr p"
  shows "sane_processor pf mp p"
proof -
  obtain p0 where "create_state_vars pf mp = Inr p0" "processor_tracks pf mp [] p0" using new_processor_tracks [OF assms(1)] .
  then have "processor_tracks pf mp [] p" using assms(2) by simp
  then show ?thesis by (auto simp: processor_tracks_def sane_processor_def intro: tracks_sane)
qed

lemma feed_payloads_any:
  assumes "parameters_typed pf mp" and "sane_processor pf mp p0"
    and "list_all (\<lambda>(t, b). header_length mp \<le> length b \<and> length b < 65536) xs"
  shows "case feed_payloads pf mp xs p0 of
      Inr (p, out) \<Rightarrow> sane_processor pf mp p \<and> (\<forall>ys t b zs. xs = ys @ (t, b) # zs \<longrightarrow>
        (\<exists>p out. feed_payloads pf mp ys p0 = Inr (p, out) \<and> \<not> too_short pf mp p b))
    | Inl e \<Rightarrow> e = Terminate \<and> (\<exists>ys t b zs p out. xs = ys @ (t, b) # zs
        \<and> feed_payloads pf mp ys p0 = Inr (p, out) \<and> too_short pf mp p b)"
  using assms(3)
proof (induction xs rule: rev_induct)
  case Nil
  then show ?case using assms(2) by (simp add: feed_payloads_def)
next
  case (snoc x xs)
  obtain t b where x: "x = (t, b)" by (cases x)
  show ?case
  proof (cases "feed_payloads pf mp xs p0")
    case (Inl e)
    then obtain ys t' b' zs p out where e: "e = Terminate" "xs = ys @ (t', b') # zs"
      "feed_payloads pf mp ys p0 = Inr (p, out)" "too_short pf mp p b'"
      using snoc by auto
    have all: "feed_payloads pf mp (xs @ [x]) p0 = Inl Terminate" by (simp add: x feed_payloads_snoc Inl e(1))
    have "xs @ [x] = ys @ (t', b') # (zs @ [x])" by (simp add: e(2))
    then show ?thesis unfolding all sum.case using e(3,4) by blast
  next
    case (Inr r)
    obtain p out where r: "r = (p, out)" by (cases r)
    have p: "sane_processor pf mp p" and before: "\<forall>ys t b zs. xs = ys @ (t, b) # zs \<longrightarrow>
        (\<exists>p out. feed_payloads pf mp ys p0 = Inr (p, out) \<and> \<not> too_short pf mp p b)"
      using snoc Inr r by auto
    have b: "header_length mp \<le> length b" "length b < 65536" using snoc.prems by (auto simp: x)
    show ?thesis
    proof (cases "too_short pf mp p b")
      case True
      then have "processor_feed pf mp t b p = Inl Terminate" using processor_feed_any [OF assms(1) p b, of t] by simp
      then have all: "feed_payloads pf mp (xs @ [x]) p0 = Inl Terminate" by (simp add: x feed_payloads_snoc Inr r)
      have "xs @ [x] = xs @ (t, b) # []" by (simp add: x)
      then show ?thesis unfolding all sum.case using True Inr r by blast
    next
      case False
      then obtain p' rs where p': "processor_feed pf mp t b p = Inr (p', rs)" "sane_processor pf mp p'"
        using processor_feed_any [OF assms(1) p b, of t] by auto
      have "\<exists>p out. feed_payloads pf mp ys p0 = Inr (p, out) \<and> \<not> too_short pf mp p b'"
        if "xs @ [x] = ys @ (t', b') # zs" for ys t' b' zs
      proof (cases zs rule: rev_cases)
        case Nil
        then show ?thesis using that Inr r False by (auto simp: x)
      next
        case (snoc zs' z)
        then show ?thesis using that before by auto
      qed
      then show ?thesis using p' by (simp add: x feed_payloads_snoc Inr r)
    qed
  qed
qed

text \<open>An absolute ODT number that no list has is taken for the first ODT of the first list.\<close>

lemma unknown_odt_number:
  assumes "getter_ok pf mp g" and "mp_id_field_size mp = 1" and "n < 256"
    and "n \<notin> set (absolute_numbers (mp_first_pids mp) (map odt_count (mp_lists mp)))"
  shows "get_id pf g (of_nat n # rest) = Inr (0, 0)"
proof -
  have "fst ` set (g_odt_to_daq_map g) = set (absolute_numbers (mp_first_pids mp) (map odt_count (mp_lists mp)))"
    using assms(1,2) by (intro set_first_pids_keys [of 0]) (simp add: getter_ok_def)
  then have "map_of (g_odt_to_daq_map g) n = None" using assms(4) by (simp add: map_of_eq_None_iff)
  moreover have "read_uint pf g 1 (of_nat n # rest) 0 = Inr (int n)" using assms(3) by (intro byte_at) simp_all
  ultimately show ?thesis using assms(1,2) by (simp add: get_id_def getter_ok_def)
qed

section \<open>Properties\<close>

text \<open>
  C30. Whatever the byte order of the machine and the slave, the size of the identification field and the interleaving of
  the lists: a packet of a list with \<open>n\<close> ODTs yields a sample exactly if it is the last of \<open>n\<close> successive packets of its list with
  the numbers 0 to \<open>n - 1\<close>, and the sample then has the values of these packets in their order, the time the last one
  arrived, and the time of the slave in the first one. So packets that are lost, repeated or out of order cost whole samples,
  and never mix the values of two.
\<close>

theorem daq_samples_decoded:
  assumes "parameters_ok mp" and "list_all (packet_ok pf mp) pks"
  shows "\<exists>p0 p. create_state_vars pf mp = Inr p0
    \<and> feed_payloads pf mp (arriving mp pks) p0 = Inr (p, concat (map (\<lambda>i. completed mp (take (Suc i) pks)) [0..<length pks]))"
proof -
  obtain p0 where p0: "create_state_vars pf mp = Inr p0" "processor_tracks pf mp [] p0" using new_processor_tracks [OF assms(1)] .
  then show ?thesis using feed_payloads_tracks [OF assms p0(2)] by auto
qed

text \<open>Two lists on a slave with Motorola byte order and absolute ODT numbers; the first has two ODTs, the second one.\<close>

definition example_parameters :: measurement_parameters where
  "example_parameters = \<lparr>mp_byte_order = 1, mp_id_field_size = 1, mp_timestamps_supported = True, mp_ts_fixed = True,
     mp_selectable_timestamps = False, mp_scaled = (\<lambda>n. of_int (n * 10)), mp_ts_size = 2, mp_event_cycle_ns = 0,
     mp_first_pids = [4, 0],
     mp_lists = [\<lparr>ly_odts = [[(2, 2), (1, 1)], [(4, 8)]], ly_enable_timestamps = True, ly_packed_mode = 0, ly_packed_ts_mode = 0,
                   ly_packed_sample_count = 1\<rparr>,
                 \<lparr>ly_odts = [[(2, 3)]], ly_enable_timestamps = True, ly_packed_mode = 0, ly_packed_ts_mode = 0,
                   ly_packed_sample_count = 1\<rparr>]\<rparr>"

definition example_packets_in :: "daq_packet list" where
  "example_packets_in =
     [\<lparr>pk_list = 0, pk_odt = 0, pk_time = 100, pk_tick = 7, pk_values = [UInt64 513, Int64 (- 3)], pk_padding = []\<rparr>,
      \<lparr>pk_list = 1, pk_odt = 0, pk_time = 110, pk_tick = 8, pk_values = [Int64 (- 2)], pk_padding = [0, 0]\<rparr>,
      \<lparr>pk_list = 0, pk_odt = 1, pk_time = 120, pk_tick = 0, pk_values = [LongDouble 8 1065353216], pk_padding = []\<rparr>,
      \<lparr>pk_list = 0, pk_odt = 1, pk_time = 130, pk_tick = 0, pk_values = [LongDouble 8 0], pk_padding = []\<rparr>]"

lemma example_parameters_ok: "parameters_ok example_parameters"
  by (simp add: parameters_ok_def example_parameters_def layout_ok_def absolute_numbers_def odt_count_def numeral_2_eq_2
      upt_rec)

lemma example_packets_ok: "list_all (packet_ok \<lparr>native = Little, has_float16 = False, has_bfloat16 = True\<rparr> example_parameters) example_packets_in"
  by (simp add: packet_ok_def example_parameters_def example_packets_in_def packet_odt_def value_ok_def type_widths_def
      packet_bytes_def id_bytes_def stamp_bytes_def has_stamp_def Let_def)

theorem daq_samples_decoded_witness:
  "\<exists>p0 p. create_state_vars \<lparr>native = Little, has_float16 = False, has_bfloat16 = True\<rparr> example_parameters = Inr p0
    \<and> feed_payloads \<lparr>native = Little, has_float16 = False, has_bfloat16 = True\<rparr> example_parameters
        (arriving example_parameters example_packets_in) p0
      = Inr (p, [(1, 110, 80, [Int64 (- 2)]), (0, 120, 70, [UInt64 513, Int64 (- 3), LongDouble 8 1065353216])])"
proof -
  have "concat (map (\<lambda>i. completed example_parameters (take (Suc i) example_packets_in)) [0..<length example_packets_in])
      = [(1, 110, 80, [Int64 (- 2)]), (0, 120, 70, [UInt64 513, Int64 (- 3), LongDouble 8 1065353216])]"
    by (simp add: example_packets_in_def completed_def lane_def numbered_def last_packets_def odts_of_def example_parameters_def
        sample_def slave_time_def has_stamp_def Let_def upt_rec)
  then show ?thesis using daq_samples_decoded [OF example_parameters_ok example_packets_ok] by simp
qed



end
