(* ===== verification/Daq_Unfolder.thy ===== *)
theory Daq_Unfolder
  imports Daq_Decoder
begin

text \<open>
  What becomes of decoded samples (\<open>pyxcp/recorder/unfolder.hpp\<close>): \<open>DaqTimeTracker\<close>, which continues the times of a
  list beyond the overflow of the slave's counter, and the two classes that feed the decoder, \<open>DaqOnlinePolicy\<close> while
  measuring and \<open>XcpLogFileDecoder\<close> from a recording. Their callback \<open>on_daq_list\<close> is the sequence of what it gets. The
  records of a file are an argument here; the parameters stored in one are in \<open>Measurement_Metadata\<close>.
\<close>

section \<open>Model\<close>

subsection \<open>Time\<close>

definition get_overflow_value :: "measurement_parameters \<Rightarrow> 64 word exec" where
  "get_overflow_value mp =
     (if mp_ts_size mp = 0 then Inr 0
      else if mp_ts_size mp \<in> {1, 2, 4} then Inr (mp_scaled mp (256 ^ mp_ts_size mp))
      else Inl Runtime_error)"

record time_tracker =
  t_overflow_value :: "64 word"
  t_overflow_counter :: "64 word"
  t_previous_timestamp :: "64 word"
  t_ts_base_set :: bool
  t_ts0_base :: "64 word"
  t_ts1_base :: "64 word"

definition new_DaqTimeTracker :: "64 word \<Rightarrow> time_tracker" where
  "new_DaqTimeTracker ov = \<lparr>t_overflow_value = ov, t_overflow_counter = 0, t_previous_timestamp = 0,
     t_ts_base_set = False, t_ts0_base = 0, t_ts1_base = 0\<rparr>"

definition normalize :: "64 word \<Rightarrow> 64 word \<Rightarrow> time_tracker \<Rightarrow> (64 word \<times> 64 word) \<times> time_tracker" where
  "normalize ts0 ts1 t =
     (let t1 = (if ts1 < t_previous_timestamp t then t\<lparr>t_overflow_counter := t_overflow_counter t + 1\<rparr> else t);
          t2 = t1\<lparr>t_previous_timestamp := ts1\<rparr>;
          t3 = (if \<not> t_ts_base_set t2 then t2\<lparr>t_ts0_base := ts0, t_ts1_base := ts1, t_ts_base_set := True\<rparr> else t2)
      in ((ts0 - t_ts0_base t3, (ts1 - t_ts1_base t3) + t_overflow_value t3 * t_overflow_counter t3), t3))"

subsection \<open>The two clients\<close>

text \<open>The decoder (once there is one) and a tracker for every list; what is delivered goes to \<open>on_daq_list\<close>.\<close>

record unfolder =
  u_decoder :: "DAQProcessor option"
  u_overflows :: "time_tracker list"

fun deliver_results :: "measurement_tuple list \<Rightarrow> time_tracker list \<Rightarrow> time_tracker list \<times> measurement_tuple list" where
  "deliver_results [] ts = (ts, [])"
| "deliver_results ((daq_list, ts0, ts1, meas) # results) ts =
     (let ((norm_ts0, norm_ts1), t) = normalize ts0 ts1 (ts ! daq_list);
          (ts', ds) = deliver_results results (ts[daq_list := t])
      in (ts', (daq_list, norm_ts0, norm_ts1, meas) # ds))"

definition DAQ_CATEGORY :: nat where "DAQ_CATEGORY = 6"

definition online_feed ::
  "platform \<Rightarrow> measurement_parameters \<Rightarrow> nat \<Rightarrow> 64 word \<Rightarrow> bytes \<Rightarrow> unfolder \<Rightarrow> (unfolder \<times> measurement_tuple list) exec" where
  "online_feed pf mp frame_cat timestamp payload u =
     (if frame_cat \<noteq> DAQ_CATEGORY then Inr (u, [])
      else case u_decoder u of
             None \<Rightarrow> Inl Undefined_behaviour
           | Some p \<Rightarrow>
               rbind (processor_feed pf mp timestamp payload p) (\<lambda>(p', results).
                 let (ts, ds) = deliver_results results (u_overflows u)
                 in Inr (u\<lparr>u_decoder := Some p', u_overflows := ts\<rparr>, ds)))"

text \<open>\<open>DaqOnlinePolicy.set_parameters\<close>; the trackers of an earlier measurement stay.\<close>

definition online_set_parameters :: "platform \<Rightarrow> measurement_parameters \<Rightarrow> unfolder \<Rightarrow> unfolder exec" where
  "online_set_parameters pf mp u =
     no_exception (rbind (create_state_vars pf mp) (\<lambda>p. rbind (get_overflow_value mp) (\<lambda>ov.
       Inr (u\<lparr>u_decoder := Some p,
              u_overflows := u_overflows u @ replicate (length (mp_lists mp)) (new_DaqTimeTracker ov)\<rparr>))))"

text \<open>\<open>XcpLogFileDecoder\<close>: the constructor with the parameters of the file, and \<open>run\<close> over the records of its blocks.\<close>

type_synonym log_record = "nat \<times> nat \<times> 64 word \<times> bytes"

definition new_XcpLogFileDecoder :: "platform \<Rightarrow> measurement_parameters \<Rightarrow> unfolder exec" where
  "new_XcpLogFileDecoder pf mp =
     rbind (if mp_lists mp = [] then Inr [] else rbind (get_overflow_value mp) (\<lambda>ov.
              Inr (replicate (length (mp_lists mp)) (new_DaqTimeTracker ov)))) (\<lambda>ts.
     rbind (no_exception (create_state_vars pf mp)) (\<lambda>p. Inr \<lparr>u_decoder = Some p, u_overflows = ts\<rparr>))"

definition decoder_record ::
  "platform \<Rightarrow> measurement_parameters \<Rightarrow> log_record \<Rightarrow> unfolder \<times> measurement_tuple list
     \<Rightarrow> (unfolder \<times> measurement_tuple list) exec" where
  "decoder_record pf mp = (\<lambda>(frame_cat, counter, timestamp, payload) (u, out).
     rbind (online_feed pf mp frame_cat timestamp payload u) (\<lambda>(u', ds). Inr (u', out @ ds)))"

definition decoder_run ::
  "platform \<Rightarrow> measurement_parameters \<Rightarrow> log_record list list \<Rightarrow> unfolder \<Rightarrow> (unfolder \<times> measurement_tuple list) exec" where
  "decoder_run pf mp blocks u =
     for_each (\<lambda>block. for_each (decoder_record pf mp) block) blocks (u, [])"

section \<open>Lemmas\<close>

subsection \<open>One list\<close>

text \<open>The times of a list, one after the other.\<close>

fun track :: "time_tracker \<Rightarrow> (64 word \<times> 64 word) list \<Rightarrow> (64 word \<times> 64 word) list" where
  "track t [] = []"
| "track t ((ts0, ts1) # xs) = (let (n, t') = normalize ts0 ts1 t in n # track t' xs)"

text \<open>
  A counter of \<open>M\<close> values and a tick of \<open>f\<close>: the slave's time \<open>T\<close> is seen as \<open>T mod M * f\<close>. If less than \<open>M\<close> ticks pass from
  a sample to the next, the tracker gives the time since the first one.
\<close>

definition seen :: "nat \<Rightarrow> nat \<Rightarrow> nat \<Rightarrow> 64 word" where
  "seen M f T = of_nat (T mod M * f)"

definition steady :: "nat \<Rightarrow> nat list \<Rightarrow> bool" where
  "steady M = successively (\<lambda>T T'. T \<le> T' \<and> T' < T + M)"

lemma seen_less:
  assumes "0 < f" and "0 < M" and "M * f \<le> 2 ^ 64"
  shows "seen M f T < seen M f T' \<longleftrightarrow> T mod M < T' mod M"
proof -
  have b: "T mod M * f < 2 ^ 64" for T
    using mult_strict_right_mono [of "T mod M" M f] assms mod_less_divisor [OF assms(2), of T] by linarith
  have "(of_nat (T mod M * f) :: 64 word) < of_nat (T' mod M * f) \<longleftrightarrow> T mod M * f < T' mod M * f"
    using b [of T] b [of T'] by (simp add: word_less_nat_alt unsigned_of_nat take_bit_nat_eq_self del: of_nat_mult)
  then show ?thesis using assms(1) by (simp add: seen_def)
qed

lemma wrapped:
  assumes "T \<le> T'" and "T' < T + M" and "0 < (M :: nat)"
  shows "T' div M = T div M + (if T' mod M < T mod M then 1 else 0)"
proof -
  define q r q' r' where "q = T div M" "r = T mod M" "q' = T' div M" "r' = T' mod M"
  have T: "T = M * q + r" "T' = M * q' + r'" "r < M" "r' < M" using assms(3) by (simp_all add: q_r_q'_r'_def)
  have "q \<le> q'" using assms(1) by (simp add: q_r_q'_r'_def div_le_mono)
  moreover have "q' \<le> q + 1"
  proof (rule ccontr)
    assume "\<not> q' \<le> q + 1"
    then have "M * (q + 2) \<le> M * q'" by (intro mult_le_mono2) simp
    then show False using T assms(2) by (simp add: algebra_simps)
  qed
  ultimately have near: "q' = q \<or> q' = q + 1" by linarith
  then have "q' = q + 1 \<longleftrightarrow> r' < r" using T assms(1,2) by (auto simp: algebra_simps)
  then have "q' = q + (if r' < r then 1 else 0)" using near by auto
  then show ?thesis by (simp add: q_r_q'_r'_def)
qed

lemma seen_difference:
  assumes "T0 \<le> T"
  shows "(seen M f T - seen M f T0) + of_nat (M * f) * of_nat (T div M - T0 div M) = of_nat ((T - T0) * f)"
proof -
  have le: "T0 div M \<le> T div M" by (rule div_le_mono [OF assms])
  have parts: "(of_nat T :: 64 word) = of_nat (T mod M) + of_nat M * of_nat (T div M)" for T
    unfolding of_nat_add [symmetric] of_nat_mult [symmetric] mod_mult_div_eq ..
  have ring: "a * g - a0 * g + m * g * (q - q0) = ((a + m * q) - (a0 + m * q0)) * g" for a a0 m g q q0 :: "64 word"
    by (simp add: algebra_simps)
  show ?thesis
    unfolding seen_def of_nat_mult of_nat_diff [OF le] of_nat_diff [OF assms] ring parts [of T, symmetric] parts [of T0, symmetric] ..
qed

lemma track_running:
  assumes "0 < f" and "0 < M" and "M * f \<le> 2 ^ 64" and "steady M (T # Ts)" and "length hs = length Ts" and "T0 \<le> T"
    and "t = \<lparr>t_overflow_value = of_nat (M * f), t_overflow_counter = of_nat (T div M - T0 div M), t_previous_timestamp = seen M f T,
      t_ts_base_set = True, t_ts0_base = h0, t_ts1_base = seen M f T0\<rparr>"
  shows "track t (zip hs (map (seen M f) Ts)) = map (\<lambda>(h, T). (h - h0, of_nat ((T - T0) * f))) (zip hs Ts)"
  using assms(4-)
proof (induction Ts arbitrary: T hs t)
  case (Cons T' Ts)
  obtain h hs' where hs: "hs = h # hs'" "length hs' = length Ts" using Cons.prems(2) by (cases hs) auto
  have T: "T \<le> T'" "T' < T + M" "steady M (T' # Ts)" using Cons.prems(1) by (simp_all add: steady_def)
  have count: "T' div M - T0 div M = T div M - T0 div M + (if T' mod M < T mod M then 1 else 0)"
    using wrapped [OF T(1,2) assms(2)] div_le_mono [OF Cons.prems(3), of M] by simp
  let ?t = "\<lparr>t_overflow_value = of_nat (M * f), t_overflow_counter = of_nat (T' div M - T0 div M), t_previous_timestamp = seen M f T',
      t_ts_base_set = True, t_ts0_base = h0, t_ts1_base = seen M f T0\<rparr>"
  have "normalize h (seen M f T') t = ((h - h0, (seen M f T' - seen M f T0) + of_nat (M * f) * of_nat (T' div M - T0 div M)), ?t)"
    by (simp add: normalize_def Cons.prems(4) seen_less [OF assms(1-3)] count)
  also have "(seen M f T' - seen M f T0) + of_nat (M * f) * of_nat (T' div M - T0 div M) = of_nat ((T' - T0) * f)"
    using Cons.prems(3) T(1) by (intro seen_difference) simp
  finally show ?case
    using Cons.IH [OF T(3) hs(2) _ refl] Cons.prems(3) T(1) by (simp add: hs)
qed simp

lemma track_times:
  assumes "0 < f" and "0 < M" and "M * f \<le> 2 ^ 64" and "steady M Ts" and "length hs = length Ts"
  shows "track (new_DaqTimeTracker (of_nat (M * f))) (zip hs (map (seen M f) Ts))
    = map (\<lambda>(h, T). (h - hd hs, of_nat ((T - hd Ts) * f))) (zip hs Ts)"
proof (cases Ts)
  case (Cons T Ts')
  obtain h hs' where hs: "hs = h # hs'" "length hs' = length Ts'" using assms(5) by (cases hs) (auto simp: Cons)
  have "normalize h (seen M f T) (new_DaqTimeTracker (of_nat (M * f)))
      = ((0, 0), \<lparr>t_overflow_value = of_nat (M * f), t_overflow_counter = of_nat (T div M - T div M), t_previous_timestamp = seen M f T,
          t_ts_base_set = True, t_ts0_base = h, t_ts1_base = seen M f T\<rparr>)"
    by (simp add: normalize_def new_DaqTimeTracker_def)
  then show ?thesis
    using track_running [OF assms(1-3) _ hs(2) order_refl refl, of T h] assms(4) by (simp add: Cons hs(1))
qed simp

subsection \<open>All lists\<close>

definition times_of :: "nat \<Rightarrow> measurement_tuple list \<Rightarrow> (64 word \<times> 64 word) list" where
  "times_of l rs = map (\<lambda>(k, ts0, ts1, v). (ts0, ts1)) (filter (\<lambda>r. fst r = l) rs)"

definition values_of :: "measurement_tuple list \<Rightarrow> (nat \<times> measurement_value list) list" where
  "values_of rs = map (\<lambda>(k, ts0, ts1, v). (k, v)) rs"

lemma deliver_append:
  "deliver_results (xs @ ys) ts = (let (ts1, d1) = deliver_results xs ts; (ts2, d2) = deliver_results ys ts1 in (ts2, d1 @ d2))"
  by (induction xs ts rule: deliver_results.induct) (simp_all add: Let_def split: prod.split)

lemma deliver_values: "values_of (snd (deliver_results rs ts)) = values_of rs"
proof (induction rs arbitrary: ts)
  case (Cons r rs)
  then show ?case by (cases r) (simp add: values_of_def Let_def split_beta)
qed (simp add: values_of_def)

lemma deliver_other:
  assumes "list_all (\<lambda>r. fst r < n) rs" and "n \<le> l"
  shows "times_of l (snd (deliver_results rs ts)) = []"
proof -
  have "fst ` set (snd (deliver_results rs ts)) = fst ` set rs"
    using arg_cong [OF deliver_values [of rs ts], of "\<lambda>xs. fst ` set xs"]
    by (simp add: values_of_def image_image case_prod_beta)
  moreover have "l \<notin> fst ` set rs" using assms by (auto simp: list_all_iff)
  ultimately have "l \<notin> fst ` set (snd (deliver_results rs ts))" by simp
  then have "filter (\<lambda>r. fst r = l) (snd (deliver_results rs ts)) = []" by (intro filter_False) auto
  then show ?thesis by (simp add: times_of_def)
qed

lemma deliver_times:
  assumes "list_all (\<lambda>r. fst r < length ts) rs" and "l < length ts"
  shows "times_of l (snd (deliver_results rs ts)) = track (ts ! l) (times_of l rs)"
  using assms
proof (induction rs ts rule: deliver_results.induct)
  case (2 k ts0 ts1 v rs ts)
  obtain n0 n1 t where n: "normalize ts0 ts1 (ts ! k) = ((n0, n1), t)" by (metis prod.collapse)
  have "times_of l (snd (deliver_results rs (ts[k := t]))) = track (ts[k := t] ! l) (times_of l rs)"
    by (rule "2.IH" [OF n [symmetric] refl]) (use "2.prems" in \<open>simp_all\<close>)
  then show ?case
    using "2.prems" n by (cases "k = l") (simp_all add: times_of_def Let_def split_beta)
qed (simp add: times_of_def)

lemma for_each_concat: "for_each (\<lambda>block. for_each f block) blocks s = for_each f (concat blocks) s"
proof (induction blocks arbitrary: s)
  case (Cons b bs)
  then show ?case by (cases "for_each f b s") (simp_all add: for_each_append)
qed simp

definition daq_payloads :: "log_record list \<Rightarrow> (64 word \<times> bytes) list" where
  "daq_payloads rs = map (\<lambda>r. snd (snd r)) (filter (\<lambda>r. fst r = DAQ_CATEGORY) rs)"

lemma decoder_run_feeds:
  assumes "feed_payloads pf mp (daq_payloads (concat blocks)) p = Inr (p', out)"
  shows "decoder_run pf mp blocks \<lparr>u_decoder = Some p, u_overflows = ts\<rparr>
    = Inr (\<lparr>u_decoder = Some p', u_overflows = fst (deliver_results out ts)\<rparr>, snd (deliver_results out ts))"
proof -
  have "for_each (decoder_record pf mp) rs (\<lparr>u_decoder = Some p, u_overflows = ts\<rparr>, [])
      = Inr (\<lparr>u_decoder = Some p', u_overflows = fst (deliver_results out ts)\<rparr>, snd (deliver_results out ts))"
    if "feed_payloads pf mp (daq_payloads rs) p = Inr (p', out)" for rs
    using that
  proof (induction rs arbitrary: p' out rule: rev_induct)
    case Nil
    then show ?case by (simp add: feed_payloads_def daq_payloads_def)
  next
    case (snoc r rs)
    obtain cat counter t b where r: "r = (cat, counter, t, b)" by (cases r)
    show ?case
    proof (cases "cat = DAQ_CATEGORY")
      case True
      then obtain p1 out1 rs1 where p1:
        "feed_payloads pf mp (daq_payloads rs) p = Inr (p1, out1)"
        "processor_feed pf mp t b p1 = Inr (p', rs1)" "out = out1 @ rs1"
        using snoc.prems by (auto simp: r daq_payloads_def feed_payloads_snoc rbind_Inr_iff)
      then show ?thesis
        using snoc.IH [OF p1(1)] True
        by (simp add: for_each_snoc r decoder_record_def online_feed_def deliver_append Let_def split_beta)
    next
      case False
      then show ?thesis
        using snoc.IH [of p' out] snoc.prems by (simp add: daq_payloads_def for_each_snoc r decoder_record_def online_feed_def)
    qed
  qed
  then show ?thesis using assms by (simp add: decoder_run_def for_each_concat)
qed

text \<open>A second measurement with the same policy object goes on with the trackers of the first one.\<close>

lemma second_measurement_trackers:
  assumes "online_set_parameters pf mp u = Inr u'" and "l < length (u_overflows u)"
  shows "u_overflows u' ! l = u_overflows u ! l"
  using assms by (auto simp: online_set_parameters_def no_exception_def rbind_Inr_iff nth_append split: sum.splits fault.splits)

section \<open>Properties\<close>


text \<open>Two samples of a list, between which the 16-bit counter of the slave overflows, and an event between them.\<close>

definition overflow_packets :: "daq_packet list" where
  "overflow_packets =
     [\<lparr>pk_list = 1, pk_odt = 0, pk_time = 1000, pk_tick = 65530, pk_values = [Int64 1], pk_padding = []\<rparr>,
      \<lparr>pk_list = 1, pk_odt = 0, pk_time = 1200, pk_tick = 4, pk_values = [Int64 2], pk_padding = []\<rparr>]"

definition overflow_blocks :: "log_record list list" where
  "overflow_blocks = (let ps = arriving example_parameters overflow_packets
     in [[(DAQ_CATEGORY, 1, ps ! 0), (4, 2, 1100, [253, 1])], [], [(DAQ_CATEGORY, 3, ps ! 1)]])"


end
