(* ===== verification/Measurement_Metadata.thy ===== *)
theory Measurement_Metadata
  imports Daq_Unfolder
begin

text \<open>
  The measurement parameters that a recording carries: \<open>MeasurementParameters::dumps\<close> and the class \<open>Deserializer\<close> of
  \<open>pyxcp/recorder/unfolder.hpp\<close>, with the objects they consist of (\<open>pyxcp/cpp_ext/daqlist.hpp\<close>, \<open>mcobject.hpp\<close>,
  \<open>bin.hpp\<close>, \<open>helper.hpp\<close>), and the reading of the metadata in \<open>pyxcp/recorder/reader.hpp\<close>. Integers have their width and are
  stored as the machine has them in memory; a double is its bits. A position in the data is what is left of them.
\<close>

section \<open>Model\<close>

subsection \<open>Objects\<close>

datatype mc_object = Mc
  (mc_name: string) (mc_address: "32 word") (mc_ext: byte) (mc_size: "16 word") (mc_data_type: string)
  (mc_type_index: "16 word") (mc_parts: "mc_object list")

text \<open>Names, indices and lengths of the types.\<close>

definition MC_TYPES :: "platform \<Rightarrow> (string \<times> nat \<times> nat) list" where
  "MC_TYPES pf = [(''U8'', 0, 1), (''I8'', 1, 1), (''U16'', 2, 2), (''I16'', 3, 2), (''U32'', 4, 4), (''I32'', 5, 4),
     (''U64'', 6, 8), (''I64'', 7, 8), (''F32'', 8, 4), (''F64'', 9, 8)]
     @ (if has_float16 pf then [(''F16'', 10, 2)] else []) @ (if has_bfloat16 pf then [(''BF16'', 11, 2)] else [])"

definition new_mc :: "platform \<Rightarrow> string \<Rightarrow> 32 word \<Rightarrow> byte \<Rightarrow> 16 word \<Rightarrow> string \<Rightarrow> mc_object list \<Rightarrow> mc_object exec" where
  "new_mc pf name addr x len data_type parts =
     (if data_type = '''' then Inr (Mc name addr x len data_type (- 1) parts)
      else case map_of (MC_TYPES pf) (toupper data_type) of
             None \<Rightarrow> Inl Runtime_error
           | Some (ti, n) \<Rightarrow> Inr (Mc name addr x (of_nat n) data_type (of_nat ti) parts))"

record odt_bin =
  ob_size :: "16 word"
  ob_residual_capacity :: "16 word"
  ob_entries :: "mc_object list"

type_synonym flat_entry = "string \<times> 32 word \<times> byte \<times> 16 word \<times> 16 word"

text \<open>\<open>DaqList\<close> and \<open>PredefinedDaqList\<close> (which has no measurements of its own).\<close>

record daq_list_object =
  dl_predefined :: bool
  dl_name :: string
  dl_event_num :: "16 word"
  dl_stim :: bool
  dl_enable_timestamps :: bool
  dl_priority :: byte
  dl_prescaler :: byte
  dl_packed_mode :: byte
  dl_packed_ts_mode :: byte
  dl_packed_sample_count :: "16 word"
  dl_odt_count :: "16 word"
  dl_total_entries :: "16 word"
  dl_total_length :: "16 word"
  dl_measurements :: "mc_object list"
  dl_measurements_opt :: "odt_bin list"
  dl_header_names :: "string list"
  dl_headers :: "(string \<times> string) list"
  dl_flatten_odts :: "flat_entry list list"

text \<open>The entries of an object: its components, or itself if it has none.\<close>

definition leaves :: "mc_object \<Rightarrow> mc_object list" where
  "leaves obj = (if mc_parts obj = [] then [obj] else mc_parts obj)"

definition bin_leaves :: "odt_bin \<Rightarrow> mc_object list" where
  "bin_leaves b = concat (map leaves (ob_entries b))"

definition type_name :: "platform \<Rightarrow> 16 word \<Rightarrow> string exec" where
  "type_name pf i = (case map_of (map (\<lambda>(name, ti, n). (ti, name)) (MC_TYPES pf)) (unat i) of
     None \<Rightarrow> Inl Runtime_error | Some name \<Rightarrow> Inr name)"

definition set_measurements_opt :: "platform \<Rightarrow> odt_bin list \<Rightarrow> daq_list_object \<Rightarrow> daq_list_object exec" where
  "set_measurements_opt pf bins dl =
     (let entries = concat (map bin_leaves bins)
      in rbind (rmap (\<lambda>e. rbind (type_name pf (mc_type_index e)) (\<lambda>t. Inr (mc_name e, t))) entries) (\<lambda>headers.
         Inr (dl\<lparr>dl_measurements_opt := bins, dl_header_names := map mc_name entries, dl_headers := headers,
           dl_flatten_odts := map (\<lambda>b. map (\<lambda>e. (mc_name e, mc_address e, mc_ext e, mc_size e, mc_type_index e)) (bin_leaves b)) bins,
           dl_odt_count := of_nat (length bins), dl_total_entries := of_nat (length entries),
           dl_total_length := sum_list (map mc_size entries)\<rparr>)))"

definition new_list_base :: "bool \<Rightarrow> string \<Rightarrow> 16 word \<Rightarrow> bool \<Rightarrow> bool \<Rightarrow> byte \<Rightarrow> byte \<Rightarrow> daq_list_object" where
  "new_list_base pre name event_num stim timestamps priority prescaler =
     \<lparr>dl_predefined = pre, dl_name = name, dl_event_num = event_num, dl_stim = stim, dl_enable_timestamps = timestamps,
      dl_priority = priority, dl_prescaler = prescaler, dl_packed_mode = 0, dl_packed_ts_mode = 0, dl_packed_sample_count = 1,
      dl_odt_count = 0, dl_total_entries = 0, dl_total_length = 0, dl_measurements = [], dl_measurements_opt = [],
      dl_header_names = [], dl_headers = [], dl_flatten_odts = []\<rparr>"

type_synonym measurement_init = "string \<times> 32 word \<times> 16 word \<times> string"

definition new_daq_list_object ::
  "platform \<Rightarrow> string \<Rightarrow> 16 word \<Rightarrow> bool \<Rightarrow> bool \<Rightarrow> measurement_init list \<Rightarrow> byte \<Rightarrow> byte \<Rightarrow> daq_list_object exec" where
  "new_daq_list_object pf name event_num stim timestamps specs priority prescaler =
     rbind (rmap (\<lambda>(n, a, x, t). new_mc pf n a (ucast x) 0 t []) specs) (\<lambda>objects.
     Inr (new_list_base False name event_num stim timestamps priority prescaler\<lparr>dl_measurements := objects\<rparr>))"

definition predefined_bin :: "platform \<Rightarrow> (string \<times> string) list \<Rightarrow> odt_bin exec" where
  "predefined_bin pf odt =
     rbind (rmap (\<lambda>(n, t). new_mc pf n 0 0 0 t []) odt) (\<lambda>objects.
     let len = sum_list (map mc_size objects)
     in Inr \<lparr>ob_size = len, ob_residual_capacity = len, ob_entries = objects\<rparr>)"

definition new_predefined_list ::
  "platform \<Rightarrow> string \<Rightarrow> 16 word \<Rightarrow> bool \<Rightarrow> bool \<Rightarrow> (string \<times> string) list list \<Rightarrow> byte \<Rightarrow> byte \<Rightarrow> daq_list_object exec" where
  "new_predefined_list pf name event_num stim timestamps odts priority prescaler =
     rbind (rmap (predefined_bin pf) odts) (\<lambda>bins.
     set_measurements_opt pf bins (new_list_base True name event_num stim timestamps priority prescaler))"

record recorded_parameters =
  rp_byte_order :: byte
  rp_id_field_size :: byte
  rp_timestamps_supported :: bool
  rp_ts_fixed :: bool
  rp_prescaler_supported :: bool
  rp_selectable_timestamps :: bool
  rp_ts_scale_factor :: "64 word"
  rp_ts_size :: byte
  rp_min_daq :: "16 word"
  rp_timestamp_ns :: "64 word"
  rp_timezone :: string
  rp_utc_offset :: "16 word"
  rp_dst_offset :: "16 word"
  rp_event_cycle_ns :: "64 word"
  rp_daq_lists :: "daq_list_object list"
  rp_first_pids :: "16 word list"

subsection \<open>Writing\<close>

definition to_binary :: "platform \<Rightarrow> 'a :: len word \<Rightarrow> bytes" where
  "to_binary pf w = order_bytes (native pf) (LENGTH('a) div 8) (uint w)"

definition bool_binary :: "bool \<Rightarrow> bytes" where
  "bool_binary b = [if b then 1 else 0]"

definition count_binary :: "platform \<Rightarrow> nat \<Rightarrow> bytes" where
  "count_binary pf n = to_binary pf (of_nat n :: 64 word)"

definition to_binary_str :: "platform \<Rightarrow> string \<Rightarrow> bytes" where
  "to_binary_str pf s = count_binary pf (length s) @ map of_char s"

fun mc_dumps :: "platform \<Rightarrow> mc_object \<Rightarrow> bytes" where
  "mc_dumps pf (Mc name addr x len data_type ti parts) =
     to_binary_str pf name @ to_binary pf addr @ to_binary pf x @ to_binary pf len @ to_binary_str pf data_type
       @ to_binary pf ti @ count_binary pf (length parts) @ concat (map (mc_dumps pf) parts)"

definition bin_dumps :: "platform \<Rightarrow> odt_bin \<Rightarrow> bytes" where
  "bin_dumps pf b = to_binary pf (ob_size b) @ to_binary pf (ob_residual_capacity b)
     @ count_binary pf (length (ob_entries b)) @ concat (map (mc_dumps pf) (ob_entries b))"

definition list_dumps :: "platform \<Rightarrow> daq_list_object \<Rightarrow> bytes" where
  "list_dumps pf dl =
     [if dl_predefined dl then 2 else 1] @ to_binary_str pf (dl_name dl) @ to_binary pf (dl_event_num dl)
       @ bool_binary (dl_stim dl) @ bool_binary (dl_enable_timestamps dl) @ to_binary pf (dl_priority dl)
       @ to_binary pf (dl_prescaler dl) @ to_binary pf (dl_packed_mode dl) @ to_binary pf (dl_packed_ts_mode dl)
       @ to_binary pf (dl_packed_sample_count dl) @ to_binary pf (dl_odt_count dl) @ to_binary pf (dl_total_entries dl)
       @ to_binary pf (dl_total_length dl)
       @ (if dl_predefined dl then []
          else count_binary pf (length (dl_measurements dl)) @ concat (map (mc_dumps pf) (dl_measurements dl)))
       @ count_binary pf (length (dl_measurements_opt dl)) @ concat (map (bin_dumps pf) (dl_measurements_opt dl))
       @ count_binary pf (length (dl_header_names dl)) @ concat (map (to_binary_str pf) (dl_header_names dl))"

definition parameters_binary :: "platform \<Rightarrow> recorded_parameters \<Rightarrow> bytes" where
  "parameters_binary pf rp =
     to_binary pf (rp_byte_order rp) @ to_binary pf (rp_id_field_size rp) @ bool_binary (rp_timestamps_supported rp)
       @ bool_binary (rp_ts_fixed rp) @ bool_binary (rp_prescaler_supported rp) @ bool_binary (rp_selectable_timestamps rp)
       @ to_binary pf (rp_ts_scale_factor rp) @ to_binary pf (rp_ts_size rp) @ to_binary pf (rp_min_daq rp)
       @ count_binary pf (length (rp_daq_lists rp)) @ to_binary pf (rp_timestamp_ns rp) @ to_binary_str pf (rp_timezone rp)
       @ to_binary pf (rp_utc_offset rp) @ to_binary pf (rp_dst_offset rp) @ to_binary pf (rp_event_cycle_ns rp)
       @ concat (map (list_dumps pf) (rp_daq_lists rp)) @ count_binary pf (length (rp_first_pids rp))
       @ concat (map (to_binary pf) (rp_first_pids rp))"

definition parameters_dumps :: "platform \<Rightarrow> recorded_parameters \<Rightarrow> bytes" where
  "parameters_dumps pf rp = count_binary pf (length (parameters_binary pf rp)) @ parameters_binary pf rp"

subsection \<open>Reading\<close>

text \<open>
  A reader gets what is left of the buffer, with the null character behind its end, and leaves the rest. Reading beyond that
  is undefined.
\<close>

type_synonym 'a get = "bytes \<Rightarrow> ('a \<times> bytes) exec"

definition gbind :: "'a get \<Rightarrow> ('a \<Rightarrow> 'b get) \<Rightarrow> 'b get" where
  "gbind g k = (\<lambda>bs. rbind (g bs) (\<lambda>(x, rest). k x rest))"

definition gvalue :: "'a exec \<Rightarrow> 'a get" where
  "gvalue r = (\<lambda>bs. rbind r (\<lambda>x. Inr (x, bs)))"

fun gtimes :: "nat \<Rightarrow> 'a get \<Rightarrow> 'a list get" where
  "gtimes 0 g = gvalue (Inr [])"
| "gtimes (Suc n) g = gbind g (\<lambda>x. gbind (gtimes n g) (\<lambda>xs. gvalue (Inr (x # xs))))"

text \<open>
  A loop with a counter of 32 bits never gets to a larger number; it ends when the buffer does, and each object takes some
  bytes of it.
\<close>

definition gtimes32 :: "nat \<Rightarrow> 'a get \<Rightarrow> 'a list get" where
  "gtimes32 n g = (\<lambda>bs. gtimes (if n < 2 ^ 32 then n else Suc (length bs)) g bs)"

definition from_binary :: "platform \<Rightarrow> 'a :: len word get" where
  "from_binary pf = (\<lambda>bs. let n = LENGTH('a) div 8
     in if length bs < n then Inl Undefined_behaviour
        else Inr (word_of_int (order_int (native pf) (take n bs)), drop n bs))"

definition bool_from_binary :: "bool get" where
  "bool_from_binary = (\<lambda>bs. case bs of
     [] \<Rightarrow> Inl Undefined_behaviour
   | b # rest \<Rightarrow> if b = 0 then Inr (False, rest) else if b = 1 then Inr (True, rest) else Inl Undefined_behaviour)"

definition count_from_binary :: "platform \<Rightarrow> nat get" where
  "count_from_binary pf = gbind (from_binary pf) (\<lambda>n :: 64 word. gvalue (Inr (unat n)))"

definition from_binary_str :: "platform \<Rightarrow> string get" where
  "from_binary_str pf = gbind (count_from_binary pf) (\<lambda>n bs.
     if length bs \<le> n then Inl Undefined_behaviour else Inr (map (\<lambda>b. char_of (unat b)) (take n bs), drop n bs))"

text \<open>Objects are nested; every component is behind the name of its object, so a depth of the length of the data is enough.\<close>

definition mc_from_binary :: "platform \<Rightarrow> mc_object get \<Rightarrow> mc_object get" where
  "mc_from_binary pf component =
     gbind (from_binary_str pf) (\<lambda>name. gbind (from_binary pf) (\<lambda>addr. gbind (from_binary pf) (\<lambda>x.
     gbind (from_binary pf) (\<lambda>len. gbind (from_binary_str pf) (\<lambda>data_type. gbind (from_binary pf) (\<lambda>type_index :: 16 word.
     gbind (count_from_binary pf) (\<lambda>comp_size. gbind (gtimes32 comp_size component) (\<lambda>components.
     gvalue (new_mc pf name addr x len data_type components)))))))))"

primrec mc_at_depth :: "platform \<Rightarrow> nat \<Rightarrow> mc_object get" where
  "mc_at_depth pf 0 = (\<lambda>bs. Inl Undefined_behaviour)"
| "mc_at_depth pf (Suc n) = mc_from_binary pf (mc_at_depth pf n)"

definition create_mc_object :: "platform \<Rightarrow> mc_object get" where
  "create_mc_object pf = (\<lambda>bs. mc_at_depth pf (length bs) bs)"

definition create_bin :: "platform \<Rightarrow> odt_bin get" where
  "create_bin pf =
     gbind (from_binary pf) (\<lambda>len. gbind (from_binary pf) (\<lambda>residual_capacity.
     gbind (count_from_binary pf) (\<lambda>entry_size. gbind (gtimes32 entry_size (create_mc_object pf)) (\<lambda>entries.
     gvalue (Inr \<lparr>ob_size = len, ob_residual_capacity = residual_capacity, ob_entries = entries\<rparr>)))))"

definition list_head :: "platform \<Rightarrow> (string \<times> 16 word \<times> bool \<times> bool \<times> byte \<times> byte) get" where
  "list_head pf =
     gbind (from_binary_str pf) (\<lambda>name. gbind (from_binary pf) (\<lambda>event_num. gbind bool_from_binary (\<lambda>stim.
     gbind bool_from_binary (\<lambda>enable_timestamps. gbind (from_binary pf) (\<lambda>priority. gbind (from_binary pf) (\<lambda>prescaler.
     gbind (from_binary pf) (\<lambda>packed_mode :: byte. gbind (from_binary pf) (\<lambda>packed_ts_mode :: byte.
     gbind (from_binary pf) (\<lambda>packed_sample_count :: 16 word. gbind (from_binary pf) (\<lambda>odt_count :: 16 word.
     gbind (from_binary pf) (\<lambda>total_entries :: 16 word. gbind (from_binary pf) (\<lambda>total_length :: 16 word.
     gvalue (Inr (name, event_num, stim, enable_timestamps, priority, prescaler))))))))))))))"

definition create_daq_list :: "platform \<Rightarrow> daq_list_object get" where
  "create_daq_list pf =
     gbind (list_head pf) (\<lambda>(name, event_num, stim, timestamps, priority, prescaler).
     gbind (count_from_binary pf) (\<lambda>meas_size. gbind (gtimes meas_size (create_mc_object pf)) (\<lambda>measurements.
     gbind (count_from_binary pf) (\<lambda>meas_opt_size. gbind (gtimes meas_opt_size (create_bin pf)) (\<lambda>measurements_opt.
     gbind (count_from_binary pf) (\<lambda>hname_size. gbind (gtimes hname_size (from_binary_str pf)) (\<lambda>header_names.
     gvalue (rbind (new_daq_list_object pf name event_num stim timestamps
                      (map (\<lambda>m. (mc_name m, mc_address m, ucast (mc_ext m), mc_data_type m)) measurements) priority prescaler)
       (set_measurements_opt pf measurements_opt)))))))))"

definition create_predefined_daq_list :: "platform \<Rightarrow> daq_list_object get" where
  "create_predefined_daq_list pf =
     gbind (list_head pf) (\<lambda>(name, event_num, stim, timestamps, priority, prescaler).
     gbind (count_from_binary pf) (\<lambda>meas_opt_size. gbind (gtimes meas_opt_size (create_bin pf)) (\<lambda>measurements_opt.
     gbind (count_from_binary pf) (\<lambda>hname_size. gbind (gtimes hname_size (from_binary_str pf)) (\<lambda>header_names.
     gvalue (rbind (new_predefined_list pf name event_num stim timestamps
                      (map (\<lambda>b. map (\<lambda>e. (mc_name e, mc_data_type e)) (bin_leaves b)) measurements_opt) priority prescaler)
       (set_measurements_opt pf measurements_opt)))))))"

definition create_any_list :: "platform \<Rightarrow> daq_list_object option get" where
  "create_any_list pf =
     gbind (from_binary pf) (\<lambda>discr :: byte.
     if discr = 1 then gbind (create_daq_list pf) (\<lambda>dl. gvalue (Inr (Some dl)))
     else if discr = 2 then gbind (create_predefined_daq_list pf) (\<lambda>dl. gvalue (Inr (Some dl)))
     else gvalue (Inr None))"

definition parameters_from_binary :: "platform \<Rightarrow> recorded_parameters get" where
  "parameters_from_binary pf =
     gbind (from_binary pf) (\<lambda>byte_order. gbind (from_binary pf) (\<lambda>id_field_size. gbind bool_from_binary (\<lambda>timestamps_supported.
     gbind bool_from_binary (\<lambda>ts_fixed. gbind bool_from_binary (\<lambda>prescaler_supported.
     gbind bool_from_binary (\<lambda>selectable_timestamps. gbind (from_binary pf) (\<lambda>ts_scale_factor. gbind (from_binary pf) (\<lambda>ts_size.
     gbind (from_binary pf) (\<lambda>min_daq. gbind (count_from_binary pf) (\<lambda>dl_count. gbind (from_binary pf) (\<lambda>timestamp_ns.
     gbind (from_binary_str pf) (\<lambda>timezone. gbind (from_binary pf) (\<lambda>utc_offset. gbind (from_binary pf) (\<lambda>dst_offset.
     gbind (from_binary pf) (\<lambda>event_cycle_ns. gbind (gtimes dl_count (create_any_list pf)) (\<lambda>daq_lists.
     gbind (count_from_binary pf) (\<lambda>fp_count. gbind (gtimes fp_count (from_binary pf)) (\<lambda>first_pids.
     gvalue (Inr \<lparr>rp_byte_order = byte_order, rp_id_field_size = id_field_size, rp_timestamps_supported = timestamps_supported,
       rp_ts_fixed = ts_fixed, rp_prescaler_supported = prescaler_supported, rp_selectable_timestamps = selectable_timestamps,
       rp_ts_scale_factor = ts_scale_factor, rp_ts_size = ts_size, rp_min_daq = min_daq, rp_timestamp_ns = timestamp_ns,
       rp_timezone = timezone, rp_utc_offset = utc_offset, rp_dst_offset = dst_offset, rp_event_cycle_ns = event_cycle_ns,
       rp_daq_lists = List.map_filter id daq_lists, rp_first_pids = first_pids\<rparr>)))))))))))))))))))"

definition deserializer_run :: "platform \<Rightarrow> bytes \<Rightarrow> recorded_parameters exec" where
  "deserializer_run pf buf = rbind (parameters_from_binary pf (buf @ [0])) (\<lambda>(rp, rest). Inr rp)"

text \<open>The metadata behind the header of a file, and what follows them.\<close>

definition read_metadata :: "platform \<Rightarrow> bool \<Rightarrow> bytes \<Rightarrow> (bytes \<times> bytes) exec" where
  "read_metadata pf has_metadata =
     (if \<not> has_metadata then gvalue (Inr [])
      else gbind (count_from_binary pf) (\<lambda>n bs. if length bs < n then Inl Undefined_behaviour else Inr (take n bs, drop n bs)))"

text \<open>The parameters as the decoder takes them, and the decoder of a file with its metadata; \<open>scale\<close> multiplies with a double.\<close>

definition layout_of :: "daq_list_object \<Rightarrow> list_layout" where
  "layout_of dl = \<lparr>ly_odts = map (map (\<lambda>(name, address, x, len, type_index). (unat len, unat type_index))) (dl_flatten_odts dl),
     ly_enable_timestamps = dl_enable_timestamps dl, ly_packed_mode = unat (dl_packed_mode dl),
     ly_packed_ts_mode = unat (dl_packed_ts_mode dl), ly_packed_sample_count = unat (dl_packed_sample_count dl)\<rparr>"

definition decoder_parameters :: "(64 word \<Rightarrow> int \<Rightarrow> 64 word) \<Rightarrow> recorded_parameters \<Rightarrow> measurement_parameters" where
  "decoder_parameters scale rp = \<lparr>mp_byte_order = unat (rp_byte_order rp), mp_id_field_size = unat (rp_id_field_size rp),
     mp_timestamps_supported = rp_timestamps_supported rp, mp_ts_fixed = rp_ts_fixed rp,
     mp_selectable_timestamps = rp_selectable_timestamps rp, mp_scaled = scale (rp_ts_scale_factor rp),
     mp_ts_size = unat (rp_ts_size rp), mp_event_cycle_ns = rp_event_cycle_ns rp, mp_first_pids = map unat (rp_first_pids rp),
     mp_lists = map layout_of (rp_daq_lists rp)\<rparr>"

definition file_decoder :: "platform \<Rightarrow> (64 word \<Rightarrow> int \<Rightarrow> 64 word) \<Rightarrow> bytes \<Rightarrow> (measurement_parameters \<times> unfolder) exec" where
  "file_decoder pf scale metadata =
     (if metadata = [] then Inl Runtime_error
      else rbind (deserializer_run pf metadata) (\<lambda>rp. rbind (new_XcpLogFileDecoder pf (decoder_parameters scale rp)) (\<lambda>u.
        Inr (decoder_parameters scale rp, u))))"

section \<open>Lemmas\<close>

subsection \<open>Readers\<close>

text \<open>A reader that reads the value from these bytes, whatever follows (at least the null character).\<close>

definition reads :: "'a get \<Rightarrow> bytes \<Rightarrow> 'a \<Rightarrow> bool" where
  "reads g bs x \<longleftrightarrow> (\<forall>rest. rest \<noteq> [] \<longrightarrow> g (bs @ rest) = Inr (x, rest))"

lemma reads_bind: "reads g bs x \<Longrightarrow> reads (k x) cs y \<Longrightarrow> reads (gbind g k) (bs @ cs) y"
  by (simp add: reads_def gbind_def)

lemma reads_value: "r = Inr x \<Longrightarrow> reads (gvalue r) [] x"
  by (simp add: reads_def gvalue_def)

lemma reads_last: "reads g bs x \<Longrightarrow> r x = Inr y \<Longrightarrow> reads (gbind g (\<lambda>x. gvalue (r x))) bs y"
  using reads_bind [of g bs x "\<lambda>x. gvalue (r x)" "[]"] reads_value by fastforce

lemma reads_word:
  fixes w :: "'a :: len word"
  assumes "LENGTH('a) = 8 * (LENGTH('a) div 8)"
  shows "reads (from_binary pf) (to_binary pf w) w"
proof -
  have "(2 :: int) ^ LENGTH('a) = 256 ^ (LENGTH('a) div 8)"
    using assms power_mult [of "2 :: int" 8 "LENGTH('a) div 8"] by simp
  then have "uint w < 256 ^ (LENGTH('a) div 8)" using uint_lt2p [of w] by simp
  then show ?thesis
    by (simp add: reads_def from_binary_def to_binary_def order_int_bytes)
qed

lemmas reads_words =
  reads_word [where 'a = 8, simplified] reads_word [where 'a = 16, simplified]
  reads_word [where 'a = 32, simplified] reads_word [where 'a = 64, simplified]

lemma to_binary_byte: "to_binary pf (b :: byte) = [b]"
  by (cases "native pf") (simp_all add: to_binary_def order_bytes_def)

lemma reads_byte: "reads (from_binary pf) [b :: byte] b"
  using reads_words(1) [of pf b] by (simp add: to_binary_byte)

lemma reads_bool: "reads bool_from_binary (bool_binary b) b"
  by (simp add: reads_def bool_from_binary_def bool_binary_def)

lemma reads_count: "n < 2 ^ 64 \<Longrightarrow> reads (count_from_binary pf) (count_binary pf n) n"
  unfolding count_from_binary_def count_binary_def
  by (rule reads_last, rule reads_words(4)) (simp_all add: unat_of_nat)

lemma char_of_byte: "char_of (unat (of_char c :: byte)) = c"
proof -
  have "unat (of_char c :: byte) = (of_char c :: nat)"
    using unat_of_nat [of "of_char c :: nat", where 'a = 8] nat_of_char_less_256 [of c] by (simp add: of_nat_of_char)
  then show ?thesis by simp
qed

lemma reads_str: "length s < 2 ^ 64 \<Longrightarrow> reads (from_binary_str pf) (to_binary_str pf s) s"
  unfolding from_binary_str_def to_binary_str_def
  by (rule reads_bind, rule reads_count) (simp_all add: reads_def comp_def char_of_byte)

lemma reads_times:
  assumes "\<And>x. x \<in> set xs \<Longrightarrow> reads g (d x) (f x)"
  shows "reads (gtimes (length xs) g) (concat (map d xs)) (map f xs)"
  using assms
proof (induction xs)
  case (Cons x xs)
  show ?case
    unfolding gtimes.simps list.size list.map concat.simps add_0_right add_Suc_right
    by (rule reads_bind, rule Cons.prems, simp, rule reads_last, rule Cons.IH, simp_all add: Cons.prems)
qed (simp add: reads_value)

lemma reads_times32:
  assumes "\<And>x. x \<in> set xs \<Longrightarrow> reads g (d x) x" and "length xs < 2 ^ 32"
  shows "reads (gtimes32 (length xs) g) (concat (map d xs)) xs"
  using reads_times [of xs g d id] assms by (simp add: reads_def gtimes32_def)

subsection \<open>Nested objects\<close>

text \<open>A reader never gives bytes back; a string takes some.\<close>

definition shrinks :: "'a get \<Rightarrow> bool" where
  "shrinks g \<longleftrightarrow> (\<forall>bs x rest. g bs = Inr (x, rest) \<longrightarrow> length rest \<le> length bs)"

lemma shrinksD: "shrinks g \<Longrightarrow> g bs = Inr (x, rest) \<Longrightarrow> length rest \<le> length bs"
  by (auto simp: shrinks_def)

lemma shrinks_bind: "shrinks g \<Longrightarrow> (\<And>x. shrinks (k x)) \<Longrightarrow> shrinks (gbind g k)"
  unfolding shrinks_def gbind_def rbind_Inr_iff by (clarsimp, meson le_trans)

lemma shrinks_value: "shrinks (gvalue r)"
  by (auto simp: shrinks_def gvalue_def rbind_Inr_iff)

lemma shrinks_from_binary: "shrinks (from_binary pf)"
  by (auto simp: shrinks_def from_binary_def Let_def split: if_splits)

lemma shrinks_count: "shrinks (count_from_binary pf)"
  unfolding count_from_binary_def by (intro shrinks_bind shrinks_from_binary shrinks_value)

lemma shrinks_str: "shrinks (from_binary_str pf)"
  unfolding from_binary_str_def by (rule shrinks_bind, rule shrinks_count) (auto simp: shrinks_def split: if_splits)

lemma shrinks_times: "shrinks g \<Longrightarrow> shrinks (gtimes n g)"
  by (induction n) (simp_all add: shrinks_bind shrinks_value)

lemma shrinks_times32: "shrinks g \<Longrightarrow> shrinks (gtimes32 n g)"
  using shrinks_times [of g] by (auto simp: gtimes32_def shrinks_def)

lemmas shrinks_intros = shrinks_bind shrinks_value shrinks_from_binary shrinks_count shrinks_str shrinks_times shrinks_times32

lemma shrinks_depth: "shrinks (mc_at_depth pf n)"
proof (induction n)
  case (Suc n)
  then show ?case unfolding mc_at_depth.simps mc_from_binary_def by (intro shrinks_intros)
qed (simp add: shrinks_def)

lemma str_takes: "from_binary_str pf bs = Inr (x, rest) \<Longrightarrow> length rest < length bs"
  by (auto simp: from_binary_str_def count_from_binary_def from_binary_def gbind_def gvalue_def rbind_Inr_iff Let_def
      split: if_splits)

text \<open>Two readers that do the same with at most \<open>n\<close> bytes.\<close>

definition agree :: "nat \<Rightarrow> 'a get \<Rightarrow> 'a get \<Rightarrow> bool" where
  "agree n g h \<longleftrightarrow> (\<forall>bs. length bs \<le> n \<longrightarrow> g bs = h bs)"

lemma agree_refl: "agree n g g"
  by (simp add: agree_def)

lemma agree_bind:
  assumes "agree n g h" and "shrinks g" and "\<And>x. agree n (k x) (k' x)"
  shows "agree n (gbind g k) (gbind h k')"
proof -
  have "rbind (g bs) (\<lambda>(x, rest). k x rest) = rbind (g bs) (\<lambda>(x, rest). k' x rest)" if "length bs \<le> n" for bs
  proof (cases "g bs")
    case (Inr r)
    then have "length (snd r) \<le> n" using shrinksD [OF assms(2), of bs "fst r" "snd r"] that by simp
    then show ?thesis using Inr assms(3) by (simp add: agree_def split_beta)
  qed simp
  then show ?thesis using assms(1) by (simp add: agree_def gbind_def)
qed

lemma agree_str_bind:
  assumes "\<And>x. agree n (k x) (k' x)"
  shows "agree (Suc n) (gbind (from_binary_str pf) k) (gbind (from_binary_str pf) k')"
proof -
  have "rbind (from_binary_str pf bs) (\<lambda>(x, rest). k x rest) = rbind (from_binary_str pf bs) (\<lambda>(x, rest). k' x rest)"
    if "length bs \<le> Suc n" for bs
  proof (cases "from_binary_str pf bs")
    case (Inr r)
    then have "length (snd r) < length bs" using str_takes [of pf bs "fst r" "snd r"] by simp
    then show ?thesis using Inr assms that by (simp add: agree_def split_beta)
  qed simp
  then show ?thesis by (simp add: agree_def gbind_def)
qed

lemma agree_times: "agree n g h \<Longrightarrow> shrinks g \<Longrightarrow> agree n (gtimes m g) (gtimes m h)"
  by (induction m) (simp add: agree_refl, unfold gtimes.simps, intro agree_bind agree_refl shrinks_times)

lemma agree_times32: "agree n g h \<Longrightarrow> shrinks g \<Longrightarrow> agree n (gtimes32 m g) (gtimes32 m h)"
  using agree_times [of n g h] by (auto simp: agree_def gtimes32_def)

lemma agree_mc:
  assumes "agree n g h" and "shrinks g"
  shows "agree (Suc n) (mc_from_binary pf g) (mc_from_binary pf h)"
  unfolding mc_from_binary_def
  by (intro agree_str_bind agree_bind agree_times32 agree_refl shrinks_intros assms)

lemma nothing_left: "mc_at_depth pf n [] = Inl Undefined_behaviour"
  by (cases n) (simp_all add: mc_from_binary_def from_binary_str_def count_from_binary_def from_binary_def gbind_def gvalue_def)

lemma agree_depth: "n \<le> m \<Longrightarrow> n \<le> k \<Longrightarrow> agree n (mc_at_depth pf m) (mc_at_depth pf k)"
proof (induction n arbitrary: m k)
  case 0
  then show ?case by (simp add: agree_def nothing_left)
next
  case (Suc n)
  then obtain m' k' where "m = Suc m'" "k = Suc k'" "n \<le> m'" "n \<le> k'" by (metis Suc_le_D Suc_le_mono)
  then show ?case using agree_mc [OF Suc.IH shrinks_depth] by simp
qed

text \<open>So the recursion of the code is the one of the model, and it ends.\<close>

lemma create_mc_object_unfold: "create_mc_object pf = mc_from_binary pf (create_mc_object pf)"
proof
  fix bs
  show "create_mc_object pf bs = mc_from_binary pf (create_mc_object pf) bs"
  proof (cases "length bs")
    case 0
    then show ?thesis
      by (simp add: create_mc_object_def mc_from_binary_def from_binary_str_def count_from_binary_def from_binary_def gbind_def gvalue_def)
  next
    case (Suc n)
    have "mc_at_depth pf n bs' = mc_at_depth pf (length bs') bs'" if "length bs' \<le> n" for bs'
      using agree_depth [of "length bs'" n "length bs'" pf] that by (simp add: agree_def)
    then have "agree n (mc_at_depth pf n) (create_mc_object pf)" by (simp add: agree_def create_mc_object_def)
    then have "agree (Suc n) (mc_from_binary pf (mc_at_depth pf n)) (mc_from_binary pf (create_mc_object pf))"
      by (rule agree_mc) (rule shrinks_depth)
    then show ?thesis using Suc by (simp add: agree_def create_mc_object_def)
  qed
qed

subsection \<open>Objects are read as they were written\<close>

text \<open>An object that the constructor has made, as have been its components.\<close>

fun mc_built :: "platform \<Rightarrow> mc_object \<Rightarrow> bool" where
  "mc_built pf (Mc name addr x len data_type type_index parts) \<longleftrightarrow>
     new_mc pf name addr x len data_type parts = Inr (Mc name addr x len data_type type_index parts) \<and> list_all (mc_built pf) parts"

lemma concat_lengths:
  "x \<in> set xs \<Longrightarrow> length (d x) \<le> length (concat (map d xs))"
  "(\<And>x. d x \<noteq> []) \<Longrightarrow> length xs \<le> length (concat (map d xs))"
proof -
  show "x \<in> set xs \<Longrightarrow> length (d x) \<le> length (concat (map d xs))" by (induction xs) auto
  assume ne: "\<And>x. d x \<noteq> []"
  show "length xs \<le> length (concat (map d xs))"
  proof (induction xs)
    case (Cons x xs)
    have "1 \<le> length (d x)" using ne [of x] by (cases "d x") simp_all
    then have "1 + length xs \<le> length (d x) + length (concat (map d xs))" using Cons by (rule add_mono)
    then show ?case by simp
  qed simp
qed

lemma length_binaries:
  "length (to_binary pf (w :: 'a :: len word)) = LENGTH('a) div 8" "length (count_binary pf n) = 8"
  "length (to_binary_str pf s) = 8 + length s" "length (bool_binary b) = 1"
  by (simp_all add: to_binary_def count_binary_def to_binary_str_def bool_binary_def)

lemma dumps_nonempty: "mc_dumps pf obj \<noteq> []" "bin_dumps pf b \<noteq> []" "to_binary_str pf s \<noteq> []" "list_dumps pf dl \<noteq> []"
proof -
  have "0 < length (mc_dumps pf obj)" by (cases obj) (simp add: length_binaries)
  then show "mc_dumps pf obj \<noteq> []" by auto
  have "0 < length (bin_dumps pf b)" by (simp add: bin_dumps_def length_binaries)
  then show "bin_dumps pf b \<noteq> []" by auto
  have "0 < length (to_binary_str pf s)" by (simp add: length_binaries)
  then show "to_binary_str pf s \<noteq> []" by auto
  show "list_dumps pf dl \<noteq> []" by (simp add: list_dumps_def)
qed

lemma reads_mc:
  "mc_built pf obj \<Longrightarrow> length (mc_dumps pf obj) < 2 ^ 32 \<Longrightarrow> reads (create_mc_object pf) (mc_dumps pf obj) obj"
proof (induction obj)
  case (Mc name addr x len data_type type_index parts)
  have small: "length name < 2 ^ 64" "length data_type < 2 ^ 64" "length (concat (map (mc_dumps pf) parts)) < 2 ^ 32"
    using Mc.prems(2) by (simp_all add: length_binaries)
  have count: "length parts < 2 ^ 32"
    using concat_lengths(2) [of "mc_dumps pf" parts] dumps_nonempty(1) small(3) by (meson le_less_trans)
  have parts: "reads (create_mc_object pf) (mc_dumps pf p) p" if "p \<in> set parts" for p
    using Mc.IH [OF that] Mc.prems(1) that concat_lengths(1) [OF that, of "mc_dumps pf"] small(3)
    by (meson le_less_trans list_all_iff mc_built.simps)
  have built: "new_mc pf name addr x len data_type parts = Inr (Mc name addr x len data_type type_index parts)"
    using Mc.prems(1) by simp
  have "reads (mc_from_binary pf (create_mc_object pf)) (mc_dumps pf (Mc name addr x len data_type type_index parts))
      (Mc name addr x len data_type type_index parts)"
    unfolding mc_from_binary_def mc_dumps.simps
    by (rule reads_bind [OF reads_str [OF small(1)]] reads_bind [OF reads_words(3)] reads_bind [OF reads_words(1)]
          reads_bind [OF reads_words(2)] reads_bind [OF reads_str [OF small(2)]]
          reads_bind [OF reads_count] reads_last [OF reads_times32 [OF parts count]]
        | use count built in \<open>simp; fail\<close>)+
  then show ?case by (simp only: create_mc_object_unfold [of pf, symmetric])
qed

text \<open>A list, of which the constructors give its measurements and their order everything that depends on them.\<close>

definition unpacked :: "daq_list_object \<Rightarrow> daq_list_object" where
  "unpacked dl = dl\<lparr>dl_packed_mode := 0, dl_packed_ts_mode := 0, dl_packed_sample_count := 1\<rparr>"

definition bin_built :: "platform \<Rightarrow> odt_bin \<Rightarrow> bool" where
  "bin_built pf b \<longleftrightarrow> list_all (mc_built pf) (ob_entries b)"

definition list_base :: "daq_list_object \<Rightarrow> daq_list_object" where
  "list_base dl = new_list_base (dl_predefined dl) (dl_name dl) (dl_event_num dl) (dl_stim dl) (dl_enable_timestamps dl)
     (dl_priority dl) (dl_prescaler dl)\<lparr>dl_measurements := dl_measurements dl\<rparr>"

definition list_built :: "platform \<Rightarrow> daq_list_object \<Rightarrow> bool" where
  "list_built pf dl \<longleftrightarrow> (dl_predefined dl \<longrightarrow> dl_measurements dl = [])
     \<and> list_all (\<lambda>m. new_mc pf (mc_name m) (mc_address m) (mc_ext m) 0 (mc_data_type m) [] = Inr m) (dl_measurements dl)
     \<and> list_all (bin_built pf) (dl_measurements_opt dl)
     \<and> set_measurements_opt pf (dl_measurements_opt dl) (list_base dl) = Inr (unpacked dl)"

lemma reads_bin: "bin_built pf b \<Longrightarrow> length (bin_dumps pf b) < 2 ^ 32 \<Longrightarrow> reads (create_bin pf) (bin_dumps pf b) b"
proof -
  assume built: "bin_built pf b" and "length (bin_dumps pf b) < 2 ^ 32"
  then have small: "length (concat (map (mc_dumps pf) (ob_entries b))) < 2 ^ 32" by (simp add: bin_dumps_def length_binaries)
  have count: "length (ob_entries b) < 2 ^ 32"
    using concat_lengths(2) [of "mc_dumps pf" "ob_entries b"] dumps_nonempty(1) small by (meson le_less_trans)
  have entries: "reads (create_mc_object pf) (mc_dumps pf e) e" if "e \<in> set (ob_entries b)" for e
    using reads_mc [of pf e] built that concat_lengths(1) [OF that, of "mc_dumps pf"] small
    by (meson bin_built_def le_less_trans list_all_iff)
  show "reads (create_bin pf) (bin_dumps pf b) b"
    unfolding create_bin_def bin_dumps_def
    by (rule reads_bind [OF reads_words(2)] reads_bind [OF reads_count] reads_last [OF reads_times32 [OF entries count]]
        | use count built in \<open>simp; fail\<close>)+
qed

subsection \<open>Lists are read as they were written\<close>

lemma isOK_rmap: "isOK (rmap f xs) \<longleftrightarrow> (\<forall>x \<in> set xs. isOK (f x))"
proof (induction xs)
  case (Cons x xs)
  then show ?case by (cases "f x"; cases "rmap f xs") auto
qed simp

lemma rmap_ok: "(\<And>x. x \<in> set xs \<Longrightarrow> \<exists>y. f x = Inr y) \<Longrightarrow> \<exists>ys. rmap f xs = Inr ys \<and> list_all2 (\<lambda>x y. f x = Inr y) xs ys"
proof (induction xs)
  case (Cons x xs)
  obtain y where "f x = Inr y" using Cons.prems [of x] by auto
  moreover obtain ys where "rmap f xs = Inr ys" "list_all2 (\<lambda>x y. f x = Inr y) xs ys" using Cons.IH Cons.prems by auto
  ultimately show ?case by auto
qed simp

lemma rmap_map_inverse: "(\<And>x. x \<in> set xs \<Longrightarrow> f (g x) = Inr x) \<Longrightarrow> rmap f (map g xs) = Inr xs"
  by (induction xs) auto

text \<open>The constructor of a list with measurements gives those it was made with.\<close>

lemma measurements_again:
  assumes "list_all (\<lambda>m. new_mc pf (mc_name m) (mc_address m) (mc_ext m) 0 (mc_data_type m) [] = Inr m) (dl_measurements dl)"
    and "\<not> dl_predefined dl"
  shows "new_daq_list_object pf (dl_name dl) (dl_event_num dl) (dl_stim dl) (dl_enable_timestamps dl)
      (map (\<lambda>m. (mc_name m, mc_address m, ucast (mc_ext m), mc_data_type m)) (dl_measurements dl)) (dl_priority dl) (dl_prescaler dl)
    = Inr (list_base dl)"
proof -
  have "ucast (ucast x :: 16 word) = (x :: byte)" for x by (rule bit_word_eqI) (simp add: bit_ucast_iff)
  then have "rmap (\<lambda>(n, a, x, t). new_mc pf n a (ucast x) 0 t [])
      (map (\<lambda>m. (mc_name m, mc_address m, ucast (mc_ext m) :: 16 word, mc_data_type m)) (dl_measurements dl)) = Inr (dl_measurements dl)"
    using assms(1) by (intro rmap_map_inverse) (simp add: list_all_iff)
  then show ?thesis using assms(2) by (simp add: new_daq_list_object_def list_base_def)
qed

text \<open>The constructor of a predefined list accepts the types it gets, and what it lays out is replaced.\<close>

lemma set_measurements_opt_again:
  "set_measurements_opt pf bins dl = Inr dl' \<Longrightarrow> set_measurements_opt pf bins' dl' = set_measurements_opt pf bins' dl"
  by (auto simp: set_measurements_opt_def rbind_Inr_iff Let_def)

lemma typed_leaf:
  assumes "mc_built pf e" and "type_name pf (mc_type_index e) = Inr t"
  shows "\<exists>obj. new_mc pf n 0 0 0 (mc_data_type e) [] = Inr obj \<and> mc_parts obj = [] \<and> mc_type_index obj = mc_type_index e"
proof (cases e)
  case (Mc name addr x len data_type type_index parts)
  have "data_type \<noteq> []"
  proof
    assume "data_type = []"
    then have "type_index = - 1" using assms(1) by (simp add: Mc new_mc_def)
    moreover have "unat (- 1 :: 16 word) = 65535" by (simp add: unsigned_minus_1_eq_mask mask_eq_exp_minus_1)
    ultimately show False using assms(2) by (simp add: Mc type_name_def MC_TYPES_def split: if_splits)
  qed
  then show ?thesis using assms(1) by (auto simp: Mc new_mc_def split: option.splits)
qed

lemma built_leaves: "mc_built pf e \<Longrightarrow> l \<in> set (leaves e) \<Longrightarrow> mc_built pf l"
  by (cases e) (auto simp: leaves_def list_all_iff split: if_splits)

lemma bin_built_leaves: "bin_built pf b \<Longrightarrow> l \<in> set (bin_leaves b) \<Longrightarrow> mc_built pf l"
  by (auto simp: bin_leaves_def bin_built_def list_all_iff dest: built_leaves)

definition typed_leaves :: "platform \<Rightarrow> odt_bin \<Rightarrow> bool" where
  "typed_leaves pf b \<longleftrightarrow> list_all (\<lambda>l. isOK (type_name pf (mc_type_index l))) (bin_leaves b)"

lemma predefined_bin_ok:
  assumes "bin_built pf b" and "typed_leaves pf b"
  shows "\<exists>b'. predefined_bin pf (map (\<lambda>e. (mc_name e, mc_data_type e)) (bin_leaves b)) = Inr b' \<and> typed_leaves pf b'"
proof -
  let ?f = "\<lambda>(n, t). new_mc pf n 0 0 0 t []" and ?xs = "map (\<lambda>e. (mc_name e, mc_data_type e)) (bin_leaves b)"
  have good: "\<exists>y. ?f x = Inr y \<and> mc_parts y = [] \<and> isOK (type_name pf (mc_type_index y))" if x: "x \<in> set ?xs" for x
  proof -
    obtain e where e: "e \<in> set (bin_leaves b)" "x = (mc_name e, mc_data_type e)" using x by auto
    then obtain t where "mc_built pf e" "type_name pf (mc_type_index e) = Inr t"
      using assms by (auto simp: typed_leaves_def list_all_iff isOK_iff dest: bin_built_leaves)
    then show ?thesis using typed_leaf [of pf e t "mc_name e"] e(2) by auto
  qed
  then obtain ys where ys: "rmap ?f ?xs = Inr ys" "list_all2 (\<lambda>x y. ?f x = Inr y) ?xs ys"
    using rmap_ok [of ?xs ?f] by blast
  have "mc_parts y = [] \<and> isOK (type_name pf (mc_type_index y))" if y: "y \<in> set ys" for y
  proof -
    obtain i where i: "i < length ys" "y = ys ! i" using y by (metis in_set_conv_nth)
    then have "i < length ?xs" "?f (?xs ! i) = Inr y" using ys(2) by (simp_all only: list_all2_conv_all_nth)
    then show ?thesis using good [of "?xs ! i"] by (metis (no_types, lifting) nth_mem sum.inject(2))
  qed
  then have "typed_leaves pf \<lparr>ob_size = n, ob_residual_capacity = n, ob_entries = ys\<rparr>" for n
    by (auto simp: typed_leaves_def list_all_iff bin_leaves_def leaves_def)
  then show ?thesis using ys(1) by (simp add: predefined_bin_def Let_def)
qed

lemma set_measurements_opt_ok: "isOK (set_measurements_opt pf bins dl) \<longleftrightarrow> list_all (typed_leaves pf) bins"
proof -
  let ?f = "\<lambda>e. rbind (type_name pf (mc_type_index e)) (\<lambda>t. Inr (mc_name e, t))" and ?es = "concat (map bin_leaves bins)"
  have f: "isOK (?f e) \<longleftrightarrow> isOK (type_name pf (mc_type_index e))" for e by (cases "type_name pf (mc_type_index e)") simp_all
  have "isOK (set_measurements_opt pf bins dl) \<longleftrightarrow> isOK (rmap ?f ?es)"
    by (cases "rmap ?f ?es") (simp_all add: set_measurements_opt_def Let_def)
  also have "\<dots> \<longleftrightarrow> (\<forall>e \<in> set ?es. isOK (?f e))"
    by (rule isOK_rmap)
  finally show ?thesis unfolding f by (auto simp: typed_leaves_def list_all_iff)
qed

lemma predefined_again:
  assumes "list_built pf dl" and "dl_predefined dl"
  shows "rbind (new_predefined_list pf (dl_name dl) (dl_event_num dl) (dl_stim dl) (dl_enable_timestamps dl)
      (map (\<lambda>b. map (\<lambda>e. (mc_name e, mc_data_type e)) (bin_leaves b)) (dl_measurements_opt dl)) (dl_priority dl) (dl_prescaler dl))
      (set_measurements_opt pf (dl_measurements_opt dl)) = Inr (unpacked dl)"
proof -
  let ?bins = "dl_measurements_opt dl" and ?F = "\<lambda>b. map (\<lambda>e. (mc_name e, mc_data_type e)) (bin_leaves b)"
  let ?base = "new_list_base True (dl_name dl) (dl_event_num dl) (dl_stim dl) (dl_enable_timestamps dl) (dl_priority dl) (dl_prescaler dl)"
  have base: "list_base dl = ?base" using assms by (simp add: list_base_def list_built_def new_list_base_def)
  have opt: "set_measurements_opt pf ?bins ?base = Inr (unpacked dl)" using assms(1) base by (simp add: list_built_def)
  then have typed: "list_all (typed_leaves pf) ?bins" using set_measurements_opt_ok [of pf ?bins ?base] by simp
  have each: "\<exists>b'. predefined_bin pf (?F b) = Inr b' \<and> typed_leaves pf b'" if "b \<in> set ?bins" for b
    using predefined_bin_ok [of pf b] typed assms(1) that by (auto simp: list_built_def list_all_iff)
  then obtain bs where bs: "rmap (predefined_bin pf) (map ?F ?bins) = Inr bs"
    "list_all2 (\<lambda>x y. predefined_bin pf x = Inr y) (map ?F ?bins) bs"
    using rmap_ok [of "map ?F ?bins" "predefined_bin pf"] by fastforce
  have "list_all (typed_leaves pf) bs"
    unfolding list_all_length
  proof (intro allI impI)
    fix i assume i: "i < length bs"
    then have "i < length ?bins" "predefined_bin pf (?F (?bins ! i)) = Inr (bs ! i)"
      using bs(2) by (simp_all add: list_all2_conv_all_nth)
    then show "typed_leaves pf (bs ! i)" using each [of "?bins ! i"] by auto
  qed
  then obtain dl' where dl': "set_measurements_opt pf bs ?base = Inr dl'" using set_measurements_opt_ok [of pf bs ?base] by (auto simp: isOK_iff)
  then show ?thesis using bs(1) opt set_measurements_opt_again [OF dl', of ?bins] by (simp add: new_predefined_list_def)
qed

definition head_dumps :: "platform \<Rightarrow> daq_list_object \<Rightarrow> bytes" where
  "head_dumps pf dl = to_binary_str pf (dl_name dl) @ to_binary pf (dl_event_num dl) @ bool_binary (dl_stim dl)
     @ bool_binary (dl_enable_timestamps dl) @ to_binary pf (dl_priority dl) @ to_binary pf (dl_prescaler dl)
     @ to_binary pf (dl_packed_mode dl) @ to_binary pf (dl_packed_ts_mode dl) @ to_binary pf (dl_packed_sample_count dl)
     @ to_binary pf (dl_odt_count dl) @ to_binary pf (dl_total_entries dl) @ to_binary pf (dl_total_length dl)"

lemma reads_head:
  assumes "length (dl_name dl) < 2 ^ 64"
  shows "reads (list_head pf) (head_dumps pf dl)
    (dl_name dl, dl_event_num dl, dl_stim dl, dl_enable_timestamps dl, dl_priority dl, dl_prescaler dl)"
  unfolding list_head_def head_dumps_def
  by (rule reads_bind [OF reads_str [OF assms]] reads_bind [OF reads_words(1)] reads_bind [OF reads_words(2)]
        reads_bind [OF reads_bool] reads_last [OF reads_words(2)] refl)+

lemma reads_all:
  "(\<And>x. x \<in> set xs \<Longrightarrow> reads g (d x) x) \<Longrightarrow> reads (gtimes (length xs) g) (concat (map d xs)) xs"
  using reads_times [of xs g d id] by simp

lemma constructed_built: "new_mc pf (mc_name m) (mc_address m) (mc_ext m) 0 (mc_data_type m) [] = Inr m \<Longrightarrow> mc_built pf m"
  by (cases m) (auto simp: new_mc_def split: if_splits option.splits)

lemma reads_section:
  assumes "\<And>x. x \<in> set xs \<Longrightarrow> length (d x) < 2 ^ 32 \<Longrightarrow> reads g (d x) x" and "\<And>x. d x \<noteq> []"
    and "length (concat (map d xs)) < 2 ^ 32"
  shows "reads (count_from_binary pf) (count_binary pf (length xs)) (length xs)"
    and "reads (gtimes (length xs) g) (concat (map d xs)) xs"
proof -
  have "length xs < 2 ^ 32" using concat_lengths(2) [of d xs, OF assms(2)] assms(3) by (rule le_less_trans)
  then show "reads (count_from_binary pf) (count_binary pf (length xs)) (length xs)" by (intro reads_count) simp
  show "reads (gtimes (length xs) g) (concat (map d xs)) xs"
    by (intro reads_all assms(1)) (use concat_lengths(1) [of _ xs d] assms(3) in \<open>auto intro: le_less_trans\<close>)
qed

lemma reads_list:
  assumes "list_built pf dl" and "length (list_dumps pf dl) < 2 ^ 32"
  shows "reads (create_any_list pf) (list_dumps pf dl) (Some (unpacked dl))"
proof -
  define ms where "ms = (if dl_predefined dl then [] else count_binary pf (length (dl_measurements dl)) @ concat (map (mc_dumps pf) (dl_measurements dl)))"
  have dumps: "list_dumps pf dl = [if dl_predefined dl then 2 else 1] @ head_dumps pf dl @ ms
      @ count_binary pf (length (dl_measurements_opt dl)) @ concat (map (bin_dumps pf) (dl_measurements_opt dl))
      @ count_binary pf (length (dl_header_names dl)) @ concat (map (to_binary_str pf) (dl_header_names dl))"
    by (simp add: list_dumps_def head_dumps_def ms_def)
  have small: "length (dl_name dl) < 2 ^ 64" "length ms < 2 ^ 32"
    "length (concat (map (bin_dumps pf) (dl_measurements_opt dl))) < 2 ^ 32"
    "length (concat (map (to_binary_str pf) (dl_header_names dl))) < 2 ^ 32"
    using assms(2) unfolding dumps by (simp_all add: head_dumps_def length_binaries)
  note head = reads_bind [OF reads_head [OF small(1)]]
  have bin: "reads (create_bin pf) (bin_dumps pf b) b" if "b \<in> set (dl_measurements_opt dl)" "length (bin_dumps pf b) < 2 ^ 32" for b
    using assms(1) that by (intro reads_bin) (simp_all add: list_built_def list_all_iff)
  have name: "reads (from_binary_str pf) (to_binary_str pf s) s" if "length (to_binary_str pf s) < 2 ^ 32" for s
    using that by (intro reads_str) (simp add: length_binaries)
  note bins = reads_section [OF bin dumps_nonempty(2) small(3)] and names = reads_section [OF name dumps_nonempty(3) small(4)]
  show ?thesis
  proof (cases "dl_predefined dl")
    case True
    have "reads (create_predefined_daq_list pf) (tl (list_dumps pf dl)) (unpacked dl)"
      unfolding create_predefined_daq_list_def dumps using True
      by (simp add: ms_def) (rule head, unfold prod.case, (rule reads_bind, (rule bins names; assumption?))+,
        rule reads_last, rule names, assumption, rule predefined_again [OF assms(1)])
    then have "reads (create_any_list pf) ([2] @ tl (list_dumps pf dl)) (Some (unpacked dl))"
      unfolding create_any_list_def
      by - (rule reads_bind, rule reads_byte, simp, rule reads_last, assumption, rule refl)
    then show ?thesis using True by (simp add: dumps)
  next
    case False
    have meas: "reads (create_mc_object pf) (mc_dumps pf m) m" if "m \<in> set (dl_measurements dl)" "length (mc_dumps pf m) < 2 ^ 32" for m
      using assms(1) that by (intro reads_mc constructed_built) (simp_all add: list_built_def list_all_iff)
    have "length (concat (map (mc_dumps pf) (dl_measurements dl))) < 2 ^ 32" using small(2) False by (simp add: ms_def)
    note measurements = reads_section [OF meas dumps_nonempty(1) this]
    have again: "rbind (new_daq_list_object pf (dl_name dl) (dl_event_num dl) (dl_stim dl) (dl_enable_timestamps dl)
        (map (\<lambda>m. (mc_name m, mc_address m, ucast (mc_ext m), mc_data_type m)) (dl_measurements dl)) (dl_priority dl) (dl_prescaler dl))
        (set_measurements_opt pf (dl_measurements_opt dl)) = Inr (unpacked dl)"
      using measurements_again [of pf dl] assms(1) False by (simp add: list_built_def)
    have "reads (create_daq_list pf) (tl (list_dumps pf dl)) (unpacked dl)"
      unfolding create_daq_list_def dumps using False
      by (simp add: ms_def) (rule head, unfold prod.case, (rule reads_bind, (rule measurements bins names; assumption?))+,
        rule reads_last, rule names, assumption, rule again)
    then have "reads (create_any_list pf) ([1] @ tl (list_dumps pf dl)) (Some (unpacked dl))"
      unfolding create_any_list_def
      by - (rule reads_bind, rule reads_byte, simp, rule reads_last, assumption, rule refl)
    then show ?thesis using False by (simp add: dumps)
  qed
qed

definition parameters_built :: "platform \<Rightarrow> recorded_parameters \<Rightarrow> bool" where
  "parameters_built pf rp \<longleftrightarrow> list_all (list_built pf) (rp_daq_lists rp)"

lemma reads_parameters:
  assumes "parameters_built pf rp" and "length (parameters_binary pf rp) < 2 ^ 32"
  shows "reads (parameters_from_binary pf) (parameters_binary pf rp) (rp\<lparr>rp_daq_lists := map unpacked (rp_daq_lists rp)\<rparr>)"
proof -
  have small: "length (rp_timezone rp) < 2 ^ 64" "length (concat (map (list_dumps pf) (rp_daq_lists rp))) < 2 ^ 32"
    "length (concat (map (to_binary pf) (rp_first_pids rp))) < 2 ^ 32"
    using assms(2) by (simp_all add: parameters_binary_def length_binaries)
  have "length (rp_daq_lists rp) < 2 ^ 32"
    using concat_lengths(2) [of "list_dumps pf" "rp_daq_lists rp"] dumps_nonempty(4) small(2) by (meson le_less_trans)
  then have count: "reads (count_from_binary pf) (count_binary pf (length (rp_daq_lists rp))) (length (rp_daq_lists rp))"
    by (intro reads_count) simp
  have list: "reads (create_any_list pf) (list_dumps pf dl) (Some (unpacked dl))" if "dl \<in> set (rp_daq_lists rp)" for dl
    using assms(1) that concat_lengths(1) [OF that, of "list_dumps pf"] small(2)
    by (intro reads_list) (auto simp: parameters_built_def list_all_iff intro: le_less_trans)
  have lists: "reads (gtimes (length (rp_daq_lists rp)) (create_any_list pf)) (concat (map (list_dumps pf) (rp_daq_lists rp)))
      (map (\<lambda>dl. Some (unpacked dl)) (rp_daq_lists rp))"
    by (intro reads_times list)
  have "to_binary pf w \<noteq> []" for w :: "16 word" using length_binaries(1) [of pf w] by auto
  note pids = reads_section [OF reads_words(2) this small(3)]
  have "List.map_filter id (map (\<lambda>dl. Some (unpacked dl)) (rp_daq_lists rp)) = map unpacked (rp_daq_lists rp)"
    by (simp add: List.map_filter_def comp_def)
  then show ?thesis
    unfolding parameters_from_binary_def parameters_binary_def
    by - (rule reads_bind [OF reads_words(1)] reads_bind [OF reads_words(2)] reads_bind [OF reads_words(4)] reads_bind [OF reads_bool]
        reads_bind [OF count] reads_bind [OF reads_str [OF small(1)]] reads_bind [OF lists] reads_bind [OF pids(1)]
        reads_last [OF pids(2)] | simp; fail)+
qed

text \<open>What the constructors make, with any order of measurements in ODTs and any packed mode set afterwards, is such a list.\<close>

lemma new_mc_built: "new_mc pf n a x len t [] = Inr m \<Longrightarrow> mc_built pf m"
  by (auto simp: new_mc_def split: if_splits option.splits)

lemma list_built_packed:
  "list_built pf dl \<Longrightarrow> list_built pf (dl\<lparr>dl_packed_mode := mode, dl_packed_ts_mode := ts_mode, dl_packed_sample_count := count\<rparr>)"
  by (simp add: list_built_def list_base_def unpacked_def)

lemma new_daq_list_built:
  assumes "new_daq_list_object pf name event_num stim timestamps specs priority prescaler = Inr base"
    and "list_all (bin_built pf) bins" and "set_measurements_opt pf bins base = Inr dl"
  shows "list_built pf dl"
proof -
  let ?f = "\<lambda>(n, a, x, t). new_mc pf n a (ucast x) 0 t []"
  obtain ms where ms: "rmap ?f specs = Inr ms"
    and base: "base = new_list_base False name event_num stim timestamps priority prescaler\<lparr>dl_measurements := ms\<rparr>"
    using assms(1) by (auto simp: new_daq_list_object_def rbind_Inr_iff)
  have again: "new_mc pf (mc_name m) (mc_address m) (mc_ext m) 0 (mc_data_type m) [] = Inr m"
    if "new_mc pf n a x 0 t [] = Inr m" for n a x t m
    using that by (auto simp: new_mc_def split: if_splits option.splits)
  have "list_all (\<lambda>m. new_mc pf (mc_name m) (mc_address m) (mc_ext m) 0 (mc_data_type m) [] = Inr m) ms"
    using ms
  proof (induction specs arbitrary: ms)
    case (Cons s specs)
    then show ?case by (cases s) (auto simp: rbind_Inr_iff dest: again)
  qed simp
  moreover have "dl_measurements dl = ms" "dl_measurements_opt dl = bins" "\<not> dl_predefined dl" "unpacked dl = dl" "list_base dl = base"
    using assms(3) by (auto simp: base set_measurements_opt_def rbind_Inr_iff new_list_base_def unpacked_def list_base_def Let_def)
  ultimately show ?thesis using assms(2,3) by (simp add: list_built_def)
qed

lemma new_predefined_built:
  assumes "new_predefined_list pf name event_num stim timestamps odts priority prescaler = Inr dl"
  shows "list_built pf dl"
proof -
  obtain bins where bins: "rmap (predefined_bin pf) odts = Inr bins"
    and dl: "set_measurements_opt pf bins (new_list_base True name event_num stim timestamps priority prescaler) = Inr dl"
    using assms by (auto simp: new_predefined_list_def rbind_Inr_iff)
  have "list_all (bin_built pf) bins"
    using bins
  proof (induction odts arbitrary: bins)
    case (Cons odt odts)
    have built: "list_all (mc_built pf) objects" if "rmap (\<lambda>(n, t). new_mc pf n 0 0 0 t []) odt = Inr objects" for objects
      using that
    proof (induction odt arbitrary: objects)
      case (Cons e odt)
      then show ?case by (cases e) (auto simp: rbind_Inr_iff dest: new_mc_built)
    qed simp
    then show ?case using Cons by (auto simp: rbind_Inr_iff predefined_bin_def bin_built_def Let_def)
  qed simp
  moreover have "dl_measurements dl = []" "dl_measurements_opt dl = bins" "unpacked dl = dl"
    "list_base dl = new_list_base True name event_num stim timestamps priority prescaler"
    using dl by (auto simp: set_measurements_opt_def rbind_Inr_iff new_list_base_def unpacked_def list_base_def Let_def)
  ultimately show ?thesis using dl by (simp add: list_built_def)
qed

text \<open>The counts that a list keeps are those of its ODTs.\<close>

lemma layout_counts:
  assumes "set_measurements_opt pf bins dl = Inr dl'"
  shows "odt_count (layout_of dl') = unat (dl_odt_count dl')" and "total_entries (layout_of dl') = unat (dl_total_entries dl')"
proof -
  have "sum_list (map (length \<circ> bin_leaves) bins) = length (concat (map bin_leaves bins))" by (simp add: length_concat comp_def)
  then show "odt_count (layout_of dl') = unat (dl_odt_count dl')" "total_entries (layout_of dl') = unat (dl_total_entries dl')"
    using assms by (auto simp: set_measurements_opt_def rbind_Inr_iff Let_def odt_count_def total_entries_def layout_of_def
        unat_of_nat comp_def)
qed

text \<open>So the decoder of a recording without packed lists decodes with the parameters of the measurement.\<close>

lemma file_decoder_recorded:
  assumes "parameters_built pf rp" and "length (parameters_binary pf rp) < 2 ^ 32" and "\<forall>dl \<in> set (rp_daq_lists rp). unpacked dl = dl"
  shows "file_decoder pf scale (parameters_binary pf rp)
    = rbind (new_XcpLogFileDecoder pf (decoder_parameters scale rp)) (\<lambda>u. Inr (decoder_parameters scale rp, u))"
proof -
  have "parameters_binary pf rp \<noteq> []" using length_binaries(1) [of pf "rp_byte_order rp"] by (auto simp: parameters_binary_def)
  moreover have "rp\<lparr>rp_daq_lists := map unpacked (rp_daq_lists rp)\<rparr> = rp" using assms(3) by (cases rp) (simp add: map_idI)
  then have "deserializer_run pf (parameters_binary pf rp) = Inr rp"
    using reads_parameters [OF assms(1,2)] by (simp add: deserializer_run_def reads_def)
  ultimately show ?thesis by (simp add: file_decoder_def)
qed

section \<open>Properties\<close>

text \<open>
  C33. The parameters that are written with a recording, on a machine of either byte order, are read back as they were, with
  every list, its measurements (their nested components too) and its layout in ODTs, and the containers follow behind them.
  But the packed mode of a list is lost: the decoder of the recording has the parameters of the measurement exactly
  if no list is packed.
\<close>

theorem recorded_parameters_roundtrip:
  assumes "parameters_built pf rp" and "length (parameters_binary pf rp) < 2 ^ 32"
  shows "read_metadata pf True (parameters_dumps pf rp @ containers) = Inr (parameters_binary pf rp, containers)
    \<and> deserializer_run pf (parameters_binary pf rp) = Inr (rp\<lparr>rp_daq_lists := map unpacked (rp_daq_lists rp)\<rparr>)
    \<and> (deserializer_run pf (parameters_binary pf rp) = Inr rp \<longleftrightarrow> (\<forall>dl \<in> set (rp_daq_lists rp). unpacked dl = dl))"
proof -
  have "parameters_binary pf rp \<noteq> []" using length_binaries(1) [of pf "rp_byte_order rp"] by (auto simp: parameters_binary_def)
  moreover have "reads (count_from_binary pf) (count_binary pf (length (parameters_binary pf rp))) (length (parameters_binary pf rp))"
    using assms(2) by (intro reads_count) simp
  ultimately have "read_metadata pf True (parameters_dumps pf rp @ containers) = Inr (parameters_binary pf rp, containers)"
    by (simp add: read_metadata_def parameters_dumps_def reads_def gbind_def)
  moreover have run: "deserializer_run pf (parameters_binary pf rp) = Inr (rp\<lparr>rp_daq_lists := map unpacked (rp_daq_lists rp)\<rparr>)"
    using reads_parameters [OF assms] by (simp add: deserializer_run_def reads_def)
  moreover have "rp\<lparr>rp_daq_lists := map unpacked (rp_daq_lists rp)\<rparr> = rp \<longleftrightarrow> map unpacked (rp_daq_lists rp) = rp_daq_lists rp"
    by (cases rp) simp
  ultimately show ?thesis by (simp add: map_idI) (metis map_eq_conv list.map_ident)
qed

text \<open>A list with a block of two measurements in its ODT, in event grouped mode, and a predefined one.\<close>

definition example_list :: daq_list_object where
  "example_list =
     (let rpm = Mc ''rpm'' 0x1000 0 2 ''U16'' 2 []; temp = Mc ''temp'' 0x1002 0 2 ''i16'' 3 []
      in \<lparr>dl_predefined = False, dl_name = ''fast'', dl_event_num = 1, dl_stim = False, dl_enable_timestamps = True, dl_priority = 0,
          dl_prescaler = 1, dl_packed_mode = 2, dl_packed_ts_mode = 1, dl_packed_sample_count = 4, dl_odt_count = 1,
          dl_total_entries = 2, dl_total_length = 4, dl_measurements = [rpm, temp],
          dl_measurements_opt = [\<lparr>ob_size = 7, ob_residual_capacity = 3, ob_entries = [Mc [] 0x1000 0 4 [] (- 1) [rpm, temp]]\<rparr>],
          dl_header_names = [''rpm'', ''temp''], dl_headers = [(''rpm'', ''U16''), (''temp'', ''I16'')],
          dl_flatten_odts = [[(''rpm'', 0x1000, 0, 2, 2), (''temp'', 0x1002, 0, 2, 3)]]\<rparr>)"

definition example_recorded :: recorded_parameters where
  "example_recorded = \<lparr>rp_byte_order = 1, rp_id_field_size = 1, rp_timestamps_supported = True, rp_ts_fixed = False,
     rp_prescaler_supported = True, rp_selectable_timestamps = True, rp_ts_scale_factor = 0x408F400000000000, rp_ts_size = 4,
     rp_min_daq = 0, rp_timestamp_ns = 1700000000000000000, rp_timezone = ''CET'', rp_utc_offset = 3600, rp_dst_offset = - 1,
     rp_event_cycle_ns = 1000000, rp_daq_lists = [example_list], rp_first_pids = [0]\<rparr>"

theorem recorded_parameters_roundtrip_witness:
  "read_metadata \<lparr>native = Little, has_float16 = False, has_bfloat16 = False\<rparr> True
      (parameters_dumps \<lparr>native = Little, has_float16 = False, has_bfloat16 = False\<rparr> example_recorded @ [1, 2])
    = Inr (parameters_binary \<lparr>native = Little, has_float16 = False, has_bfloat16 = False\<rparr> example_recorded, [1, 2])
   \<and> deserializer_run \<lparr>native = Little, has_float16 = False, has_bfloat16 = False\<rparr>
      (parameters_binary \<lparr>native = Little, has_float16 = False, has_bfloat16 = False\<rparr> example_recorded) \<noteq> Inr example_recorded"
proof -
  let ?pf = "\<lparr>native = Little, has_float16 = False, has_bfloat16 = False\<rparr>"
  have types: "MC_TYPES ?pf = [(''U8'', 0, 1), (''I8'', 1, 1), (''U16'', 2, 2), (''I16'', 3, 2), (''U32'', 4, 4), (''I32'', 5, 4),
     (''U64'', 6, 8), (''I64'', 7, 8), (''F32'', 8, 4), (''F64'', 9, 8)]" by (simp add: MC_TYPES_def)
  have "toupper ''i16'' = ''I16''" "toupper ''U16'' = ''U16''" by code_simp+
  then have "parameters_built ?pf example_recorded"
    by (simp add: parameters_built_def example_recorded_def example_list_def list_built_def bin_built_def new_mc_def types
        set_measurements_opt_def bin_leaves_def leaves_def type_name_def list_base_def new_list_base_def unpacked_def Let_def)
  moreover have "length (parameters_binary ?pf example_recorded) < 2 ^ 32"
    by (simp add: parameters_binary_def example_recorded_def example_list_def list_dumps_def bin_dumps_def length_binaries Let_def)
  moreover have "unpacked example_list \<noteq> example_list" by (simp add: unpacked_def example_list_def Let_def)
  ultimately show ?thesis
    using recorded_parameters_roundtrip [of ?pf example_recorded "[1, 2]"] by (auto simp: example_recorded_def)
qed

end
