(* ===== verification/Spec2Isabelle.thy ===== *)
theory Spec2Isabelle
  imports Prelude Xcp_Types Struct_Codec Checksum Error_Matrix Error_Handler Daq_Optimize Daq_Setup
    Framing Events Transport_Base Can_Frames
    Master_Base Master_Commands Master_Transfer Master_Unlock Master_Info Master_Daq_Info Master_Clock
    Calibration Eth_Transport Sxi_Transport Recorder_File Async_Policy Daq_Recording
    Can_Interfaces Can_Transport Configuration Discovery Daq_Decoder Daq_Unfolder
    Measurement_Metadata
begin

text \<open>
  A verification library for pyXCP, a master of the measurement and calibration protocol XCP (ASAM MCD-1 XCP)
  in Python with a few C++ classes. This theory imports all the others.

  \<^bold>\<open>The program and its parts.\<close> A user calls methods of \<open>Master\<close> (\<open>pyxcp/master/master.py\<close>). Most of them
  are XCP commands, decorated with \<open>wrapped\<close> (\<open>pyxcp/master/errorhandler.py\<close>), which repeats a failed
  command after the pre-actions of a table (\<open>pyxcp/errormatrix.py\<close>). An undecorated command packs its parameters in the
  byte order of the slave and hands them to a transport (\<open>pyxcp/transport/base.py\<close>), which frames the request
  (\<open>pyxcp/cpp_ext/framing.hpp\<close>), sends it over CAN, Ethernet, USB or a serial line, and waits at a queue for the
  response. A listener thread of the transport cuts what it receives into frames and gives each of them to
  \<open>process_response\<close>, which fills the queue, handles events (\<open>pyxcp/events.py\<close>) and feeds DAQ data to a policy;
  policies write files (\<open>pyxcp/daq_stim\<close>, \<open>pyxcp/recorder\<close>) or feed \<open>asyncio\<close> queues
  (\<open>pyxcp/transport/async_policy.py\<close>).

  \<^bold>\<open>Conventions.\<close> A raised exception is the left summand of a result (\<open>'a result\<close>), with \<open>pyexn\<close> for Python's and
  the program's exceptions. A method with state is a \<open>prog\<close> (state to result and state) or, where it may not return, a
  \<open>proc\<close> (an option of it: \<open>None\<close> is a call that never ends). Python integers are \<open>int\<close>, bytes are
  \<open>8 word\<close>s, and the integers of the C++ classes have their width. What is not the program's (sockets, buses,
  serial ports, files, clocks, \<open>construct\<close>, LZ4, \<open>chardet\<close>, key functions) is an argument. Time passes by explicit
  schedules, threads are interleavings of explicit steps.

  \<^bold>\<open>Theories and sources.\<close>
  \<^item> \<open>Prelude\<close>: results, stateful computations, Python's sequences, the rule collections \<open>monad_simps\<close> and \<open>py_simps\<close>.
  \<^item> \<open>Xcp_Types\<close> (\<open>types.py\<close>): commands, error codes, events, page properties. \<open>Struct_Codec\<close> (\<open>constants.py\<close>): the
    packers; the locale \<open>codec\<close> is interpreted on all four for both byte orders.
  \<^item> \<open>Checksum\<close> (\<open>checksum.py\<close>): the ten methods; the locale \<open>crc_table\<close> is interpreted on the two CRC tables.
  \<^item> \<open>Error_Matrix\<close> (\<open>errormatrix.py\<close>) and \<open>Error_Handler\<close> (\<open>master/errorhandler.py\<close>): the table and the executor
    with its handler stack and repeaters.
  \<^item> \<open>Framing\<close> (\<open>cpp_ext/framing.hpp\<close>, \<open>transport/usb_transport.py\<close>): headers, counters, fill bytes and checksums of
    every transport, and the reassembly of USB packets; the locale \<open>frame_stream\<close> is interpreted on the latter.
  \<^item> \<open>Events\<close> (\<open>events.py\<close>), \<open>Transport_Base\<close> (\<open>transport/base.py\<close>): the chain of event handlers; requests, the
    response queue, time-outs and the classification of incoming packets.
  \<^item> \<open>Can_Frames\<close> (\<open>transport/can.py\<close>), \<open>Eth_Transport\<close> (\<open>transport/eth.py\<close>, \<open>cpp_ext/eth_framing.hpp\<close>,
    \<open>cpp_ext/eth_utils.hpp\<close>), \<open>Sxi_Transport\<close> (\<open>transport/sxi.py\<close>, \<open>cpp_ext/sxi_framing.hpp\<close>): the transports.
  \<^item> \<open>Master_Base\<close>, \<open>Master_Commands\<close>, \<open>Master_Transfer\<close>, \<open>Master_Unlock\<close>, \<open>Master_Info\<close>, \<open>Master_Daq_Info\<close>, \<open>Master_Clock\<close>
    (\<open>master/master.py\<close>): the master's state, its commands, the transfers in blocks, seed and key, the information
    methods, and the commands of time correlation. In \<open>Master_Transfer\<close> the locale \<open>packet_sender\<close> is interpreted on
    DOWNLOAD and PROGRAM, \<open>uploader\<close> on a slave with a memory. \<open>Time_Correlation\<close> (\<open>time_correlation.py\<close>): the bit fields
    and responses of time correlation.
  \<^item> \<open>Calibration\<close> (\<open>master/calibration.py\<close>): the helper that caches segments and pages.
  \<^item> \<open>Daq_Optimize\<close> (\<open>daq_stim/optimize\<close>, \<open>cpp_ext/mcobject.hpp\<close>, \<open>cpp_ext/bin.hpp\<close>), \<open>Daq_Setup\<close> and \<open>Daq_Recording\<close>
    (\<open>daq_stim/__init__.py\<close>, \<open>cpp_ext/daqlist.hpp\<close>): the layout of measurements in ODTs, the commands that set DAQ
    lists up, lists from JSON and the CSV policy; the locale \<open>odt_layout\<close> is interpreted on block maker and packer.
  \<^item> \<open>Recorder_File\<close> (\<open>recorder/reco.py\<close>), \<open>Async_Policy\<close> (\<open>transport/async_policy.py\<close>, \<open>master/async_master.py\<close>): recording
    files; the subscriptions of frames and the closing of the asynchronous master.
  \<^item> \<open>Can_Interfaces\<close> (\<open>config/__init__.py\<close>, \<open>transport/can.py\<close>), \<open>Can_Transport\<close> (\<open>transport/can.py\<close>): what the CAN drivers
    declare and the arguments made of it; the class \<open>Can\<close> from its configuration to the rounds of its listener.
  \<^item> \<open>Configuration\<close> (\<open>config/legacy.py\<close>, \<open>config/__init__.py\<close>): the former configuration format, the search for the
    file. \<open>Discovery\<close> (\<open>scripts/xcp_discovery.py\<close>): the services that find slaves by Ethernet multicast.
  \<^item> \<open>Daq_Decoder\<close>, \<open>Daq_Unfolder\<close> (\<open>recorder/unfolder.hpp\<close>, \<open>cpp_ext/helper.hpp\<close>): from the packets of all lists to
    their samples; the times of the samples, the online policy and the decoder of recordings.
  \<^item> \<open>Measurement_Metadata\<close> (\<open>recorder/unfolder.hpp\<close>, \<open>cpp_ext/daqlist.hpp\<close>, \<open>cpp_ext/mcobject.hpp\<close>, \<open>cpp_ext/bin.hpp\<close>): the
    parameters stored with a recording, written and read.

  \<^bold>\<open>What the lemmas show.\<close>
  \<^item> Error handling: which exceptions leave a command, how often it is repeated, that the value is the
    command's own, that pre-actions run in the order of the matrix, and what CONNECT does with a silent slave.
  \<^item> Transports: a receiver hands on exactly the frames of its stream, however it is cut and interleaved; a request
    gets the first response of the queue; a damaged frame is dropped.
  \<^item> Master: every command keeps packers and limits those of the connected slave; \<open>fetch\<close> refines reading a memory,
    \<open>push\<close> sends blocks that a reassembling slave puts together again; \<open>cond_unlock\<close> sends the whole key.
  \<^item> DAQ: entries cover the measurements, ODTs fit the DTO, the commands follow the allocation sequence of the standard,
    rows reach the files of their lists; recordings read back as they were recorded; packets
    are decoded to the samples they carry, in the byte order of the slave, with times beyond the overflow of its counter, and the parameters
    of a recording are read back but for the packed modes.
  \<^item> Checksums: the tables compute polynomial division and detect bursts.
  Where the code falls short of that, the theorem says what it does instead (a stale response shifts all answers, the second
  packet of a short block is sent as a new block, a second waiting consumer is never told of the end, ...).

  \<^bold>\<open>Bounds and fuel.\<close> \<open>Error_Handler.loop\<close> has fuel, and \<open>None\<close> means that it has not ended; the theorems give
  enough of it, or say that none suffices. Loops that need not end are \<open>partial_function (option)\<close>
  (\<open>can_fill\<close>, \<open>usb_loop\<close>, \<open>eth_feed\<close>), and it is proved when they end. A schedule of \<open>Transport_Base\<close> that runs out
  before a request is answered yields \<open>None\<close>. A frame beyond the 263 bytes of the send buffer, undefined in C++, is
  \<open>None\<close>; a request of at most 255 bytes never gets there. The serial receiver has its 1024 bytes, the CSV and file
  theories no bound but the file's own size.

  \<^bold>\<open>Not modelled.\<close> What the package \<open>traitlets\<close> does with declarations, those of the transports other than CAN, the commands of the
  configuration application; command line tools and examples, display texts, log messages and diagnostics; creating and closing devices, sockets and threads; the seed-and-key DLL
  (\<open>dllif.py\<close>); the parsers of \<open>types.py\<close>, which the package \<open>construct\<close> makes of declarations; the files of the
  C++ recorder (\<open>writer.hpp\<close>, \<open>reader.hpp\<close>), \<open>stim.hpp\<close>, the class \<open>Setter\<close> and the PTP set-up; HDF5 output.
\<close>

end
